(* ===== verification/Guru_Text.thy ===== *)
theory Guru_Text
  imports Main "HOL-Library.List_Lexorder" "HOL-Library.Code_Target_Numeral"
begin

text \<open>
  Strings and the part of Rust's \<^theory_text>\<open>str\<close> library that the program uses.

  A Rust \<^theory_text>\<open>str\<close> is a sequence of Unicode scalar values stored as UTF-8. A string is
  modelled as the list of its scalar values (\<open>ustr\<close>); \<open>byte_len\<close> is its length in UTF-8
  bytes, which is what \<^theory_text>\<open>len()\<close> returns. Rust orders strings by their UTF-8
  bytes; for UTF-8 this is the lexicographic order of the scalar values, the order the theory
  \<open>List_Lexorder\<close> gives to lists. Literals of the source are written \<open>lit ''...''\<close>.

  White space and control characters are the small fixed tables of the standard library. The large
  Unicode tables (alphanumeric, lower case) are not written out: the operations that need
  them take them as a parameter (theory \<open>Search_Text\<close>).
\<close>

named_theorems ustr_simps \<open>unfolding the string operations on closed strings\<close>

type_synonym ustr = "nat list"

definition lit :: "string \<Rightarrow> ustr" where
  "lit s = map of_char s"

lemma lit_Nil [simp]: "lit [] = []"
  by (simp add: lit_def)

lemma lit_Cons: "lit (c # s) = of_char c # lit s"
  by (simp add: lit_def)

lemma lit_eq_iff [simp]: "lit s = lit t \<longleftrightarrow> s = t"
  by (simp add: lit_def inj_map_eq_map inj_on_def)

lemma lit_eq_Nil [simp]: "lit s = [] \<longleftrightarrow> s = []"
  by (simp add: lit_def)

lemma lit_append: "lit (s @ t) = lit s @ lit t"
  by (simp add: lit_def)

lemmas [ustr_simps] = lit_def

subsection \<open>Character tables of the standard library\<close>

text \<open>\<^theory_text>\<open>char::is_whitespace\<close>: the Unicode property White\_Space.\<close>

definition is_whitespace :: "nat \<Rightarrow> bool" where
  "is_whitespace c \<longleftrightarrow>
     9 \<le> c \<and> c \<le> 13 \<or> c = 32 \<or> c = 133 \<or> c = 160 \<or> c = 5760 \<or> 8192 \<le> c \<and> c \<le> 8202 \<or>
     c = 8232 \<or> c = 8233 \<or> c = 8239 \<or> c = 8287 \<or> c = 12288"

text \<open>\<^theory_text>\<open>char::is_control\<close>: the general category Cc.\<close>

definition is_control :: "nat \<Rightarrow> bool" where
  "is_control c \<longleftrightarrow> c \<le> 31 \<or> 127 \<le> c \<and> c \<le> 159"

definition is_ascii_digit :: "nat \<Rightarrow> bool" where
  "is_ascii_digit c \<longleftrightarrow> 48 \<le> c \<and> c \<le> 57"

definition is_ascii_lowercase :: "nat \<Rightarrow> bool" where
  "is_ascii_lowercase c \<longleftrightarrow> 97 \<le> c \<and> c \<le> 122"

definition is_ascii_uppercase :: "nat \<Rightarrow> bool" where
  "is_ascii_uppercase c \<longleftrightarrow> 65 \<le> c \<and> c \<le> 90"

definition is_ascii_alphanumeric :: "nat \<Rightarrow> bool" where
  "is_ascii_alphanumeric c \<longleftrightarrow> is_ascii_digit c \<or> is_ascii_lowercase c \<or> is_ascii_uppercase c"

definition is_ascii_hexdigit :: "nat \<Rightarrow> bool" where
  "is_ascii_hexdigit c \<longleftrightarrow> is_ascii_digit c \<or> 97 \<le> c \<and> c \<le> 102 \<or> 65 \<le> c \<and> c \<le> 70"

definition ascii_lower :: "nat \<Rightarrow> nat" where
  "ascii_lower c = (if is_ascii_uppercase c then c + 32 else c)"

definition to_ascii_lowercase :: "ustr \<Rightarrow> ustr" where
  "to_ascii_lowercase = map ascii_lower"

definition eq_ignore_ascii_case :: "ustr \<Rightarrow> ustr \<Rightarrow> bool" where
  "eq_ignore_ascii_case a b \<longleftrightarrow> to_ascii_lowercase a = to_ascii_lowercase b"

lemmas ascii_defs =
  is_ascii_digit_def is_ascii_lowercase_def is_ascii_uppercase_def is_ascii_alphanumeric_def
  is_ascii_hexdigit_def

lemmas [ustr_simps] =
  is_whitespace_def is_control_def ascii_defs ascii_lower_def to_ascii_lowercase_def
  eq_ignore_ascii_case_def

lemma ascii_lower_idem [simp]: "ascii_lower (ascii_lower c) = ascii_lower c"
  by (auto simp: ascii_lower_def is_ascii_uppercase_def)

lemma to_ascii_lowercase_idem [simp]:
  "to_ascii_lowercase (to_ascii_lowercase s) = to_ascii_lowercase s"
  by (simp add: to_ascii_lowercase_def)

lemma eq_ignore_ascii_case_lower [simp]:
  "eq_ignore_ascii_case a (to_ascii_lowercase b) \<longleftrightarrow> eq_ignore_ascii_case a b"
  by (simp add: eq_ignore_ascii_case_def)

subsection \<open>Length in bytes\<close>

definition utf8_width :: "nat \<Rightarrow> nat" where
  "utf8_width c = (if c < 128 then 1 else if c < 2048 then 2 else if c < 65536 then 3 else 4)"

definition byte_len :: "ustr \<Rightarrow> nat" where
  "byte_len s = sum_list (map utf8_width s)"

lemmas [ustr_simps] = utf8_width_def byte_len_def

lemma utf8_width_pos [simp]: "0 < utf8_width c" "utf8_width c \<noteq> 0" "Suc 0 \<le> utf8_width c"
  by (auto simp: utf8_width_def)

lemma byte_len_Nil [simp]: "byte_len [] = 0"
  by (simp add: byte_len_def)

lemma byte_len_Cons [simp]: "byte_len (c # s) = utf8_width c + byte_len s"
  by (simp add: byte_len_def)

lemma byte_len_append [simp]: "byte_len (s @ t) = byte_len s + byte_len t"
  by (simp add: byte_len_def)

lemma byte_len_eq_0 [simp]: "byte_len s = 0 \<longleftrightarrow> s = []"
  by (cases s) auto

lemma length_le_byte_len: "length s \<le> byte_len s"
proof (induction s)
  case (Cons c s)
  have "Suc 0 + length s \<le> utf8_width c + byte_len s"
    using utf8_width_pos(3) Cons by (rule add_mono)
  then show ?case by simp
qed simp

lemma byte_len_ascii: "\<forall>c\<in>set s. c < 128 \<Longrightarrow> byte_len s = length s"
  by (induction s) (auto simp: utf8_width_def)

subsection \<open>Trimming\<close>

definition trim_start :: "ustr \<Rightarrow> ustr" where
  "trim_start s = dropWhile is_whitespace s"

definition trim_end :: "ustr \<Rightarrow> ustr" where
  "trim_end s = rev (dropWhile is_whitespace (rev s))"

definition trim :: "ustr \<Rightarrow> ustr" where
  "trim s = trim_end (trim_start s)"

lemmas [ustr_simps] = trim_start_def trim_end_def trim_def

lemma dropWhile_idem [simp]: "dropWhile P (dropWhile P xs) = dropWhile P xs"
  by (induction xs) auto

lemma trim_start_hd: "s = [] \<or> \<not> is_whitespace (hd s) \<longleftrightarrow> trim_start s = s"
  by (cases s) (auto simp: trim_start_def dest: arg_cong [where f = length]
      intro: le_neq_implies_less, metis Suc_n_not_le_n length_Cons length_dropWhile_le)

lemma trim_end_last: "s = [] \<or> \<not> is_whitespace (last s) \<longleftrightarrow> trim_end s = s"
  using trim_start_hd [of "rev s"] by (auto simp: trim_start_def trim_end_def hd_rev rev_swap)

definition trimmed :: "ustr \<Rightarrow> bool" where
  "trimmed s \<longleftrightarrow> s = [] \<or> \<not> is_whitespace (hd s) \<and> \<not> is_whitespace (last s)"

lemma trim_start_hd_not_ws: "trim_start s \<noteq> [] \<Longrightarrow> \<not> is_whitespace (hd (trim_start s))"
  by (simp add: trim_start_def hd_dropWhile dropWhile_eq_Nil_conv)

lemma trim_end_last_not_ws: "trim_end s \<noteq> [] \<Longrightarrow> \<not> is_whitespace (last (trim_end s))"
  by (simp add: trim_end_def last_rev hd_dropWhile dropWhile_eq_Nil_conv)

lemma trim_end_prefix: "\<exists>ws. s = trim_end s @ ws \<and> (\<forall>c\<in>set ws. is_whitespace c)"
proof -
  have "rev s = takeWhile is_whitespace (rev s) @ dropWhile is_whitespace (rev s)"
    by simp
  then have "s = trim_end s @ rev (takeWhile is_whitespace (rev s))"
    unfolding trim_end_def by (metis rev_append rev_rev_ident)
  then show ?thesis
    by (intro exI [of _ "rev (takeWhile is_whitespace (rev s))"]) (auto dest: set_takeWhileD)
qed

lemma hd_trim_end: "trim_end s \<noteq> [] \<Longrightarrow> hd (trim_end s) = hd s"
  using trim_end_prefix [of s] by (metis hd_append2)

lemma trimmed_trim [simp]: "trimmed (trim s)"
proof (cases "trim s = []")
  case False
  then have ne: "trim_end (trim_start s) \<noteq> []" by (simp add: trim_def)
  then have "trim_start s \<noteq> []" by (auto simp: trim_end_def)
  with ne show ?thesis
    unfolding trimmed_def trim_def
    by (simp add: trim_end_last_not_ws hd_trim_end trim_start_hd_not_ws)
qed (simp add: trimmed_def)

lemma trim_eq_iff: "trim s = s \<longleftrightarrow> trimmed s"
proof
  assume "trimmed s"
  then have "trim_start s = s" "trim_end s = s"
    using trim_start_hd [of s] trim_end_last [of s] by (auto simp: trimmed_def)
  then show "trim s = s" by (simp add: trim_def)
next
  assume "trim s = s"
  then show "trimmed s" using trimmed_trim [of s] by simp
qed

lemma trim_idem [simp]: "trim (trim s) = trim s"
  by (simp add: trim_eq_iff)

lemma trim_Nil [simp]: "trim [] = []"
  by (simp add: trim_def trim_start_def trim_end_def)

lemma trim_eq_Nil: "trim s = [] \<longleftrightarrow> (\<forall>c\<in>set s. is_whitespace c)"
proof -
  have "trim s = [] \<longleftrightarrow> (\<forall>c\<in>set (dropWhile is_whitespace s). is_whitespace c)"
    by (simp add: trim_def trim_start_def trim_end_def)
  also have "\<dots> \<longleftrightarrow> (\<forall>c\<in>set s. is_whitespace c)"
    by (metis dropWhile_eq_Nil_conv hd_dropWhile list.set_sel(1) set_dropWhileD)
  finally show ?thesis .
qed

lemma set_trim: "set (trim s) \<subseteq> set s"
  using set_dropWhileD [of _ is_whitespace "rev (dropWhile is_whitespace s)"]
    set_dropWhileD [of _ is_whitespace s]
  by (auto simp: trim_def trim_start_def trim_end_def)

subsection \<open>Prefixes, searching and splitting\<close>

abbreviation ch :: "char \<Rightarrow> nat" where
  "ch c \<equiv> of_char c"

definition starts_with :: "ustr \<Rightarrow> ustr \<Rightarrow> bool" where
  "starts_with s p \<longleftrightarrow> take (length p) s = p"

definition ends_with :: "ustr \<Rightarrow> ustr \<Rightarrow> bool" where
  "ends_with s p \<longleftrightarrow> starts_with (rev s) (rev p)"

definition strip_prefix :: "ustr \<Rightarrow> ustr \<Rightarrow> ustr option" where
  "strip_prefix p s = (if starts_with s p then Some (drop (length p) s) else None)"

definition strip_suffix :: "ustr \<Rightarrow> ustr \<Rightarrow> ustr option" where
  "strip_suffix p s = (if ends_with s p then Some (take (length s - length p) s) else None)"

definition contains_any :: "nat list \<Rightarrow> ustr \<Rightarrow> bool" where
  "contains_any cs s \<longleftrightarrow> (\<exists>c\<in>set s. c \<in> set cs)"

definition replace_char :: "nat \<Rightarrow> nat \<Rightarrow> ustr \<Rightarrow> ustr" where
  "replace_char a b s = map (\<lambda>c. if c = a then b else c) s"

text \<open>\<^theory_text>\<open>split_once\<close> and \<^theory_text>\<open>split\<close> on one character, \<^theory_text>\<open>join\<close>.\<close>

fun split_once :: "nat \<Rightarrow> ustr \<Rightarrow> (ustr \<times> ustr) option" where
  "split_once c [] = None"
| "split_once c (x # xs) =
     (if x = c then Some ([], xs) else map_option (\<lambda>(a, b). (x # a, b)) (split_once c xs))"

fun split_on :: "nat \<Rightarrow> ustr \<Rightarrow> ustr list" where
  "split_on c [] = [[]]"
| "split_on c (x # xs) =
     (if x = c then [] # split_on c xs
      else (case split_on c xs of [] \<Rightarrow> [[x]] | p # ps \<Rightarrow> (x # p) # ps))"

fun join :: "ustr \<Rightarrow> ustr list \<Rightarrow> ustr" where
  "join sep [] = []"
| "join sep [x] = x"
| "join sep (x # y # r) = x @ sep @ join sep (y # r)"

text \<open>
  \<^theory_text>\<open>str::lines\<close>: the pieces that end with a line feed, each without its line feed
  and a carriage return before it; a last piece without a line feed is kept as it is.
\<close>

fun split_inclusive :: "nat \<Rightarrow> ustr \<Rightarrow> ustr list" where
  "split_inclusive c [] = []"
| "split_inclusive c (x # xs) =
     (if x = c then [x] # split_inclusive c xs
      else (case split_inclusive c xs of [] \<Rightarrow> [[x]] | p # ps \<Rightarrow> (x # p) # ps))"

definition strip_line_end :: "ustr \<Rightarrow> ustr" where
  "strip_line_end l =
     (if l \<noteq> [] \<and> last l = 10
      then (let l' = butlast l in if l' \<noteq> [] \<and> last l' = 13 then butlast l' else l')
      else l)"

definition lines :: "ustr \<Rightarrow> ustr list" where
  "lines s = map strip_line_end (split_inclusive 10 s)"

lemmas [ustr_simps] =
  starts_with_def ends_with_def strip_prefix_def strip_suffix_def contains_any_def
  replace_char_def strip_line_end_def lines_def Let_def

lemma starts_with_append [simp]: "starts_with (p @ s) p"
  by (simp add: starts_with_def)

lemma starts_with_iff: "starts_with s p \<longleftrightarrow> (\<exists>r. s = p @ r)"
  by (metis append_take_drop_id starts_with_append starts_with_def)

lemma strip_prefix_Some: "strip_prefix p s = Some r \<longleftrightarrow> s = p @ r"
  by (auto simp: strip_prefix_def starts_with_iff)

lemma split_once_Some:
  "split_once c s = Some (a, b) \<longleftrightarrow> s = a @ c # b \<and> c \<notin> set a"
proof (induction s arbitrary: a)
  case (Cons x s)
  then show ?case by (cases a) auto
qed simp

lemma split_once_None [simp]: "split_once c s = None \<longleftrightarrow> c \<notin> set s"
  by (induction s) auto

lemma split_once_append [simp]: "c \<notin> set a \<Longrightarrow> split_once c (a @ c # b) = Some (a, b)"
  by (simp add: split_once_Some)

lemma split_on_not_Nil [simp]: "split_on c s \<noteq> []"
  by (induction s) (auto split: list.splits)

lemma split_on_pieces: "p \<in> set (split_on c s) \<Longrightarrow> c \<notin> set p \<and> set p \<subseteq> set s"
proof (induction s arbitrary: p)
  case (Cons x s)
  show ?case
  proof (cases "split_on c s")
    case (Cons q qs)
    with Cons.prems Cons.IH [of q] Cons.IH [of p] show ?thesis
      by (auto split: if_splits)
  qed simp
qed simp

lemma split_on_none [simp]: "c \<notin> set s \<Longrightarrow> split_on c s = [s]"
  by (induction s) auto

lemma split_on_append: "c \<notin> set a \<Longrightarrow> split_on c (a @ c # s) = a # split_on c s"
  by (induction a) auto

lemma join_Cons: "ps \<noteq> [] \<Longrightarrow> join sep (p # ps) = p @ sep @ join sep ps"
  by (cases ps) auto

lemma join_hd_Cons: "join sep ((x # p) # ps) = x # join sep (p # ps)"
  by (cases ps) auto

theorem join_split_on: "join [c] (split_on c s) = s"
proof (induction s)
  case (Cons x s)
  show ?case
  proof (cases "x = c")
    case True
    with Cons show ?thesis by (simp add: join_Cons)
  next
    case False
    with Cons show ?thesis by (auto simp: join_hd_Cons split: list.splits)
  qed
qed simp

theorem split_on_join:
  "ps \<noteq> [] \<Longrightarrow> \<forall>p\<in>set ps. c \<notin> set p \<Longrightarrow> split_on c (join [c] ps) = ps"
proof (induction ps)
  case (Cons p ps)
  then show ?case by (cases ps) (auto simp: split_on_append)
qed simp

lemma split_inclusive_line [simp]:
  "c \<notin> set l \<Longrightarrow> split_inclusive c (l @ c # r) = (l @ [c]) # split_inclusive c r"
  by (induction l) auto

lemma split_inclusive_none: "c \<notin> set s \<Longrightarrow> split_inclusive c s = (if s = [] then [] else [s])"
  by (induction s) auto

lemma split_inclusive_pieces:
  "p \<in> set (split_inclusive c s) \<Longrightarrow> p \<noteq> [] \<and> c \<notin> set (butlast p)"
  by (induction s arbitrary: p) (auto split: list.splits if_splits)

lemma lines_Nil [simp]: "lines [] = []"
  by (simp add: lines_def)

definition plain_line :: "ustr \<Rightarrow> bool" where
  "plain_line l \<longleftrightarrow> 10 \<notin> set l \<and> (l = [] \<or> last l \<noteq> 13)"

lemma lines_line: "plain_line l \<Longrightarrow> lines (l @ 10 # r) = l # lines r"
  by (auto simp: lines_def strip_line_end_def plain_line_def)

lemma lines_plain_lines:
  "\<forall>l\<in>set ls. plain_line l \<Longrightarrow> lines (concat (map (\<lambda>l. l @ [10]) ls) @ r) = ls @ lines r"
  by (induction ls) (auto simp: lines_line)

lemma set_strip_line_end: "10 \<notin> set (butlast p) \<Longrightarrow> 10 \<notin> set (strip_line_end p)"
proof (cases "p \<noteq> [] \<and> last p = 10")
  case False
  moreover assume "10 \<notin> set (butlast p)"
  ultimately show ?thesis
    by (cases p rule: rev_cases) (auto simp: strip_line_end_def)
next
  case True
  moreover assume "10 \<notin> set (butlast p)"
  ultimately show ?thesis
    by (simp add: strip_line_end_def Let_def) (metis in_set_butlastD)
qed

lemma lines_no_newline: "l \<in> set (lines s) \<Longrightarrow> 10 \<notin> set l"
  using split_inclusive_pieces set_strip_line_end by (fastforce simp: lines_def)

end
