(* ===== verification/Guru_Prelude.thy ===== *)
theory Guru_Prelude
  imports Guru_Text "HOL-Library.Product_Lexorder" "HOL-Library.Multiset"
begin

text \<open>
  What the components share: Rust's \<^theory_text>\<open>Ordering\<close> and stable sorting, ordered maps
  (\<^theory_text>\<open>BTreeMap\<close>), the arithmetic of \<^theory_text>\<open>i32\<close>, and results.
  An ordered map is an association list sorted by its keys; the locale \<open>ordered_map\<close> states
  what the rest of the development uses of it, and \<open>btree\<close> interprets it.
\<close>

named_theorems model_defs \<open>definitions that are unfolded on concrete states\<close>

subsection \<open>Orderings and stable sorting\<close>

datatype ordering = Less | Equal | Greater

definition compare :: "'a::linorder \<Rightarrow> 'a \<Rightarrow> ordering" where
  "compare a b = (if a < b then Less else if a = b then Equal else Greater)"

fun then_with :: "ordering \<Rightarrow> ordering \<Rightarrow> ordering" where
  "then_with Equal o2 = o2"
| "then_with o1 o2 = o1"

definition is_lt :: "ordering \<Rightarrow> bool" where
  "is_lt c \<longleftrightarrow> c = Less"

lemma compare_eqs [simp]:
  "compare a b = Less \<longleftrightarrow> a < b"
  "compare a b = Equal \<longleftrightarrow> a = b"
  "compare a b = Greater \<longleftrightarrow> b < a"
  by (auto simp: compare_def)

lemma compare_prod:
  "compare (a, b) (c, d) = then_with (compare a c) (compare b d)"
  by (cases "compare a c") (auto simp: compare_def split: if_splits)

lemma compare_uminus: "compare (- a) (- b) = compare b (a::int)"
  by (auto simp: compare_def)

text \<open>\<^theory_text>\<open>sort_by\<close>: a stable sort by a comparison function.\<close>

fun insert_by :: "('a \<Rightarrow> 'a \<Rightarrow> ordering) \<Rightarrow> 'a \<Rightarrow> 'a list \<Rightarrow> 'a list" where
  "insert_by cmp x [] = [x]"
| "insert_by cmp x (y # ys) =
     (if cmp x y = Greater then y # insert_by cmp x ys else x # y # ys)"

definition sort_by :: "('a \<Rightarrow> 'a \<Rightarrow> ordering) \<Rightarrow> 'a list \<Rightarrow> 'a list" where
  "sort_by cmp xs = foldr (insert_by cmp) xs []"

text \<open>
  A comparison that agrees with the order of a key. Every comparison the program sorts with
  is one, and the stable sort by it is the library's \<^const>\<open>sort_key\<close>.
\<close>

locale keyed_order =
  fixes cmp :: "'a \<Rightarrow> 'a \<Rightarrow> ordering"
    and key :: "'a \<Rightarrow> 'k::linorder"
  assumes cmp_key: "cmp a b = compare (key a) (key b)"
begin

lemma insert_by_key: "insert_by cmp x xs = insort_key key x xs"
  by (induction xs) (auto simp: cmp_key)

lemma sort_by_key: "sort_by cmp xs = sort_key key xs"
  unfolding sort_by_def sort_key_def
  by (induction xs) (simp_all add: insert_by_key)

lemma mset_sort_by: "mset (sort_by cmp xs) = mset xs"
  by (simp add: sort_by_key)

lemma set_sort_by: "set (sort_by cmp xs) = set xs"
  by (simp add: sort_by_key)

lemma length_sort_by: "length (sort_by cmp xs) = length xs"
  by (simp add: sort_by_key)

lemma sorted_sort_by: "sorted (map key (sort_by cmp xs))"
  by (simp add: sort_by_key)

end

interpretation natural_order: keyed_order compare "\<lambda>x. x"
  by unfold_locales simp

fun position :: "('a \<Rightarrow> bool) \<Rightarrow> 'a list \<Rightarrow> nat option" where
  "position P [] = None"
| "position P (x # xs) = (if P x then Some 0 else map_option Suc (position P xs))"

lemma position_None [simp]: "position P xs = None \<longleftrightarrow> (\<forall>x\<in>set xs. \<not> P x)"
  by (induction xs) auto

lemma position_Some:
  "position P xs = Some i \<longleftrightarrow> i < length xs \<and> P (xs ! i) \<and> (\<forall>j<i. \<not> P (xs ! j))"
proof (induction xs arbitrary: i)
  case (Cons x xs)
  then show ?case by (cases i) (auto simp: less_Suc_eq_0_disj)
qed simp

text \<open>\<^theory_text>\<open>retain(|x| seen.insert(f x))\<close>: the first element for each value of \<open>f\<close>.\<close>

fun retain_first :: "('a \<Rightarrow> 'i) \<Rightarrow> 'i list \<Rightarrow> 'a list \<Rightarrow> 'a list" where
  "retain_first f seen [] = []"
| "retain_first f seen (x # xs) =
     (if f x \<in> set seen then retain_first f seen xs
      else x # retain_first f (f x # seen) xs)"

lemma set_retain_first: "set (retain_first f seen xs) \<subseteq> set xs"
  by (induction xs arbitrary: seen) auto

lemma retain_first_ids:
  "f ` set (retain_first f seen xs) = f ` set xs - set seen"
  by (induction xs arbitrary: seen) auto

lemma distinct_retain_first: "distinct (map f (retain_first f seen xs))"
proof (induction xs arbitrary: seen)
  case (Cons x xs)
  then show ?case using retain_first_ids [of f "f x # seen" xs] by auto
qed simp

lemma sorted_retain_first:
  "sorted (map key xs) \<Longrightarrow> sorted (map key (retain_first f seen xs))"
proof (induction xs arbitrary: seen)
  case (Cons x xs)
  then show ?case using set_retain_first [of f "f x # seen" xs] by auto
qed simp

lemma retain_first_seen_cong:
  "set seen = set seen' \<Longrightarrow> retain_first f seen xs = retain_first f seen' xs"
proof (induction xs arbitrary: seen seen')
  case (Cons x xs)
  have "retain_first f (f x # seen) xs = retain_first f (f x # seen') xs"
    using Cons.prems by (intro Cons.IH) simp
  moreover have "retain_first f seen xs = retain_first f seen' xs"
    using Cons.prems by (rule Cons.IH)
  ultimately show ?case using Cons.prems by simp
qed simp

subsection \<open>Ordered maps\<close>

type_synonym ('k, 'v) btree = "('k \<times> 'v) list"

definition bt_get :: "('k, 'v) btree \<Rightarrow> 'k \<Rightarrow> 'v option" where
  "bt_get m k = map_of m k"

fun bt_insert :: "'k::linorder \<Rightarrow> 'v \<Rightarrow> ('k, 'v) btree \<Rightarrow> ('k, 'v) btree" where
  "bt_insert k v [] = [(k, v)]"
| "bt_insert k v ((k', v') # m) =
     (if k < k' then (k, v) # (k', v') # m
      else if k = k' then (k, v) # m
      else (k', v') # bt_insert k v m)"

text \<open>\<^theory_text>\<open>entry(k).or_default()\<close> followed by an update of the value in place.\<close>

definition bt_entry :: "'v \<Rightarrow> ('v \<Rightarrow> 'v) \<Rightarrow> 'k::linorder \<Rightarrow> ('k, 'v) btree \<Rightarrow> ('k, 'v) btree" where
  "bt_entry d f k m = bt_insert k (f (case bt_get m k of None \<Rightarrow> d | Some v \<Rightarrow> v)) m"

fun bt_remove :: "'k \<Rightarrow> ('k, 'v) btree \<Rightarrow> ('k, 'v) btree" where
  "bt_remove k [] = []"
| "bt_remove k ((k', v') # m) = (if k = k' then m else (k', v') # bt_remove k m)"

definition bt_inv :: "('k::linorder, 'v) btree \<Rightarrow> bool" where
  "bt_inv m \<longleftrightarrow> sorted_wrt (<) (map fst m)"

locale ordered_map =
  fixes empty :: "'m"
    and insert :: "'k::linorder \<Rightarrow> 'v \<Rightarrow> 'm \<Rightarrow> 'm"
    and remove :: "'k \<Rightarrow> 'm \<Rightarrow> 'm"
    and get :: "'m \<Rightarrow> 'k \<Rightarrow> 'v option"
    and entries :: "'m \<Rightarrow> ('k \<times> 'v) list"
    and inv :: "'m \<Rightarrow> bool"
  assumes inv_empty: "inv empty"
    and inv_insert: "inv m \<Longrightarrow> inv (insert k v m)"
    and inv_remove: "inv m \<Longrightarrow> inv (remove k m)"
    and get_empty: "get empty k = None"
    and get_insert: "get (insert k v m) k' = (if k' = k then Some v else get m k')"
    and get_remove: "inv m \<Longrightarrow> get (remove k m) k' = (if k' = k then None else get m k')"
    and entries_get: "inv m \<Longrightarrow> (k, v) \<in> set (entries m) \<longleftrightarrow> get m k = Some v"
    and entries_sorted: "inv m \<Longrightarrow> sorted_wrt (<) (map fst (entries m))"
begin

lemma entries_distinct: "inv m \<Longrightarrow> distinct (map fst (entries m))"
  using entries_sorted strict_sorted_iff by blast

lemma keys_get: "inv m \<Longrightarrow> k \<in> fst ` set (entries m) \<longleftrightarrow> get m k \<noteq> None"
proof -
  assume "inv m"
  have "k \<in> fst ` set (entries m) \<longleftrightarrow> (\<exists>v. (k, v) \<in> set (entries m))"
    by force
  then show ?thesis using \<open>inv m\<close> by (simp add: entries_get)
qed

text \<open>A key that is inserted and removed again leaves the other keys as they were.\<close>

lemma get_remove_insert:
  "inv m \<Longrightarrow> get m k = None \<Longrightarrow> get (remove k (insert k v m)) = get m"
  by (auto simp: fun_eq_iff get_remove inv_insert get_insert)

lemma get_entry:
  "get (insert k (f (case get m k of None \<Rightarrow> d | Some v \<Rightarrow> v)) m) k' =
     (if k' = k then Some (f (case get m k of None \<Rightarrow> d | Some v \<Rightarrow> v)) else get m k')"
  by (rule get_insert)

end

lemma bt_get_Nil [simp]: "bt_get [] k = None"
  by (simp add: bt_get_def)

lemma bt_get_Cons [simp]: "bt_get ((k', v) # m) k = (if k' = k then Some v else bt_get m k)"
  by (auto simp: bt_get_def)

lemma bt_get_insert [simp]: "bt_get (bt_insert k v m) k' = (if k' = k then Some v else bt_get m k')"
  by (induction m) auto

lemma fst_bt_insert: "fst ` set (bt_insert k v m) = insert k (fst ` set m)"
  by (induction m) force+

lemma bt_inv_insert [simp]: "bt_inv m \<Longrightarrow> bt_inv (bt_insert k v m)"
proof (induction m)
  case (Cons kv m)
  then show ?case
    using fst_bt_insert [of k v m] by (cases kv) (auto simp: bt_inv_def)
qed (simp add: bt_inv_def)

lemma bt_inv_Nil [simp]: "bt_inv []"
  by (simp add: bt_inv_def)

lemma set_bt_remove: "set (bt_remove k m) \<subseteq> set m"
  by (induction k m rule: bt_remove.induct) auto

lemma bt_inv_remove [simp]: "bt_inv m \<Longrightarrow> bt_inv (bt_remove k m)"
proof (induction m)
  case (Cons kv m)
  then show ?case
    using set_bt_remove [of k m] by (cases kv) (auto simp: bt_inv_def)
qed simp

lemma bt_get_None_iff: "bt_get m k = None \<longleftrightarrow> k \<notin> fst ` set m"
  by (simp add: bt_get_def map_of_eq_None_iff)

lemma bt_get_remove [simp]:
  "bt_inv m \<Longrightarrow> bt_get (bt_remove k m) k' = (if k' = k then None else bt_get m k')"
proof (induction m)
  case (Cons kv m)
  then have "bt_inv m" "\<forall>x\<in>set m. fst kv < fst x" by (auto simp: bt_inv_def)
  moreover from this have "bt_get m (fst kv) = None"
    by (auto simp: bt_get_None_iff)
  ultimately show ?case using Cons.IH by (cases kv) auto
qed simp

lemma bt_entries: "bt_inv m \<Longrightarrow> (k, v) \<in> set m \<longleftrightarrow> bt_get m k = Some v"
  by (auto simp: bt_inv_def bt_get_def strict_sorted_iff dest: map_of_SomeD)

interpretation btree: ordered_map "[]" bt_insert bt_remove bt_get "\<lambda>m. m" bt_inv
  by unfold_locales (auto simp: bt_entries, auto simp: bt_inv_def)

lemma bt_inv_entry [simp]: "bt_inv m \<Longrightarrow> bt_inv (bt_entry d f k m)"
  by (simp add: bt_entry_def)

lemma bt_get_entry [simp]:
  "bt_get (bt_entry d f k m) k' =
     (if k' = k then Some (f (case bt_get m k of None \<Rightarrow> d | Some v \<Rightarrow> v)) else bt_get m k')"
  unfolding bt_entry_def by (rule btree.get_entry)

subsection \<open>Signed 32-bit arithmetic\<close>

definition i32_max :: int where
  "i32_max = 2147483647"

definition i32_min :: int where
  "i32_min = - 2147483648"

definition i32_wrap :: "int \<Rightarrow> int" where
  "i32_wrap x = (x + 2147483648) mod 4294967296 - 2147483648"

definition i32_saturating_add :: "int \<Rightarrow> int \<Rightarrow> int" where
  "i32_saturating_add a b = max i32_min (min i32_max (a + b))"

lemmas i32_defs = i32_max_def i32_min_def i32_wrap_def i32_saturating_add_def

lemma i32_wrap_exact: "i32_min \<le> x \<Longrightarrow> x \<le> i32_max \<Longrightarrow> i32_wrap x = x"
  by (simp add: i32_defs)

lemma i32_wrap_range: "i32_min \<le> i32_wrap x \<and> i32_wrap x \<le> i32_max"
proof -
  have "0 \<le> (x + 2147483648) mod 4294967296" "(x + 2147483648) mod 4294967296 < 4294967296"
    by simp_all
  then show ?thesis unfolding i32_defs by linarith
qed

subsection \<open>Results\<close>

definition is_ok :: "'e + 'a \<Rightarrow> bool" where
  "is_ok r \<longleftrightarrow> (case r of Inl _ \<Rightarrow> False | Inr _ \<Rightarrow> True)"

lemma is_ok_simps [simp]: "is_ok (Inr a)" "\<not> is_ok (Inl e)"
  by (simp_all add: is_ok_def)

lemma is_ok_iff: "is_ok r \<longleftrightarrow> (\<exists>a. r = Inr a)"
  by (cases r) auto

end
