(* ===== verification/Memory_Kind.thy ===== *)
theory Memory_Kind
  imports Guru_Prelude
begin

text \<open>
  The four kinds of Memory and the identifiers of their records (src/memory_kind.rs):
  \<^theory_text>\<open>CanonicalMemoryKind\<close> with its slugs and labels, and \<^theory_text>\<open>parse_record_id\<close>,
  which every other component uses to decide what a record identifier names.
\<close>

datatype memory_kind = Wiki | Lens | Evidence | Decision

definition all_kinds :: "memory_kind list" where
  "all_kinds = [Wiki, Lens, Evidence, Decision]"

fun slug :: "memory_kind \<Rightarrow> ustr" where
  "slug Wiki = lit ''wiki''"
| "slug Lens = lit ''lens''"
| "slug Evidence = lit ''evidence''"
| "slug Decision = lit ''decision''"

fun label :: "memory_kind \<Rightarrow> ustr" where
  "label Wiki = lit ''Wiki''"
| "label Lens = lit ''Lens''"
| "label Evidence = lit ''Evidence''"
| "label Decision = lit ''Decision''"

definition from_slug :: "ustr \<Rightarrow> memory_kind option" where
  "from_slug value = find (\<lambda>kind. slug kind = value) all_kinds"

definition from_label :: "ustr \<Rightarrow> memory_kind option" where
  "from_label value = find (\<lambda>kind. label kind = value) all_kinds"

text \<open>The test \<^theory_text>\<open>parse_record_id\<close> makes of every segment of the suffix.\<close>

definition bad_segment :: "ustr \<Rightarrow> bool" where
  "bad_segment segment \<longleftrightarrow>
     segment = [] \<or> byte_len segment > 128 \<or> trim segment \<noteq> segment \<or>
     segment = lit ''.'' \<or> segment = lit ''..'' \<or>
     contains_any [ch (CHR 0x5C), ch (CHR '':'')] segment \<or>
     (\<exists>c\<in>set segment. is_control c)"

definition parse_record_id :: "ustr \<Rightarrow> (memory_kind \<times> ustr) option" where
  "parse_record_id value =
     (if value = [] \<or> byte_len value > 512 \<or> trim value \<noteq> value then None
      else case split_once (ch (CHR '':'')) value of
          None \<Rightarrow> None
        | Some (kind, suffix) \<Rightarrow>
            (case from_slug kind of
               None \<Rightarrow> None
             | Some kind \<Rightarrow>
                 if list_ex bad_segment (split_on (ch (CHR ''/'')) suffix) then None
                 else Some (kind, suffix)))"

text \<open>The derived \<^theory_text>\<open>Ord\<close>: the order of the constructors.\<close>

fun kind_rank :: "memory_kind \<Rightarrow> nat" where
  "kind_rank Wiki = 0"
| "kind_rank Lens = 1"
| "kind_rank Evidence = 2"
| "kind_rank Decision = 3"

lemma kind_rank_inj [simp]: "kind_rank a = kind_rank b \<longleftrightarrow> a = b"
  by (cases a; cases b) auto

instantiation memory_kind :: linorder
begin

definition less_eq_memory_kind :: "memory_kind \<Rightarrow> memory_kind \<Rightarrow> bool" where
  "less_eq_memory_kind a b \<longleftrightarrow> kind_rank a \<le> kind_rank b"

definition less_memory_kind :: "memory_kind \<Rightarrow> memory_kind \<Rightarrow> bool" where
  "less_memory_kind a b \<longleftrightarrow> kind_rank a < kind_rank b"

instance
  by standard (auto simp: less_eq_memory_kind_def less_memory_kind_def)

end

lemma set_all_kinds [simp]: "set all_kinds = UNIV"
proof -
  have "k \<in> set all_kinds" for k by (cases k) (simp_all add: all_kinds_def)
  then show ?thesis by auto
qed

lemma slug_inj [simp]: "slug a = slug b \<longleftrightarrow> a = b"
  by (cases a; cases b) auto

lemma label_inj [simp]: "label a = label b \<longleftrightarrow> a = b"
  by (cases a; cases b) auto

lemma slug_not_Nil [simp]: "slug k \<noteq> []"
  by (cases k) auto

lemma find_inj: "(\<And>a b. f a = f b \<longleftrightarrow> a = b) \<Longrightarrow> find (\<lambda>k. f k = v) ks = Some k \<longleftrightarrow> f k = v \<and> k \<in> set ks"
  by (induction ks) auto

lemma from_slug_Some [simp]: "from_slug v = Some k \<longleftrightarrow> v = slug k"
  unfolding from_slug_def by (subst find_inj) auto

lemma from_label_Some [simp]: "from_label v = Some k \<longleftrightarrow> v = label k"
  unfolding from_label_def by (subst find_inj) auto

lemma from_slug_slug [simp]: "from_slug (slug k) = Some k"
  by simp

lemma slug_chars: "c \<in> set (slug k) \<Longrightarrow> is_ascii_lowercase c"
  by (cases k) (auto simp: ustr_simps)

lemma colon_not_in_slug [simp]: "58 \<notin> set (slug k)"
  using slug_chars by (force simp: ascii_defs)

lemma bad_segment_colon: "58 \<in> set s \<Longrightarrow> bad_segment s"
  by (auto simp: bad_segment_def contains_any_def)

lemma colon_not_in_suffix:
  assumes "\<not> list_ex bad_segment (split_on c s)"
  shows "c = 58 \<or> 58 \<notin> set s"
proof (rule disjCI)
  assume "\<not> 58 \<notin> set s"
  then have "58 \<in> set (join [c] (split_on c s))" by (simp add: join_split_on)
  moreover have "58 \<in> set (join [c] ps) \<Longrightarrow> c = 58 \<or> (\<exists>p\<in>set ps. 58 \<in> set p)" for ps
    by (induction "[c]" ps rule: join.induct) auto
  ultimately have "c = 58 \<or> (\<exists>p\<in>set (split_on c s). 58 \<in> set p)" by blast
  with assms show "c = 58" by (auto simp: list_ex_iff intro: bad_segment_colon)
qed

text \<open>What a canonical record identifier is, and that it determines its kind and its suffix.\<close>

lemma parse_record_id_iff:
  "parse_record_id v = Some (k, s) \<longleftrightarrow>
     v = slug k @ lit '':'' @ s \<and> byte_len v \<le> 512 \<and> trimmed v \<and>
     (\<forall>p\<in>set (split_on (ch (CHR ''/'')) s). \<not> bad_segment p)"
proof
  assume "parse_record_id v = Some (k, s)"
  then show "v = slug k @ lit '':'' @ s \<and> byte_len v \<le> 512 \<and> trimmed v \<and>
     (\<forall>p\<in>set (split_on (ch (CHR ''/'')) s). \<not> bad_segment p)"
    by (auto simp: parse_record_id_def split_once_Some trim_eq_iff list_ex_iff lit_def
        split: option.splits if_splits)
next
  assume "v = slug k @ lit '':'' @ s \<and> byte_len v \<le> 512 \<and> trimmed v \<and>
     (\<forall>p\<in>set (split_on (ch (CHR ''/'')) s). \<not> bad_segment p)"
  moreover have "split_once 58 (slug k @ 58 # s) = Some (slug k, s)" by simp
  ultimately show "parse_record_id v = Some (k, s)"
    by (auto simp: parse_record_id_def trim_eq_iff list_ex_iff lit_def)
qed

lemma parse_record_id_suffix:
  assumes "parse_record_id v = Some (k, s)"
  shows "s \<noteq> []" and "58 \<notin> set s" and "\<not> contains_any [92] s"
proof -
  have segs: "\<not> list_ex bad_segment (split_on (ch (CHR ''/'')) s)"
    using assms by (auto simp: parse_record_id_iff list_ex_iff)
  show "58 \<notin> set s" using colon_not_in_suffix [OF segs] by simp
  show "s \<noteq> []" using segs by (auto simp: bad_segment_def)
  show "\<not> contains_any [92] s"
  proof
    assume "contains_any [92] s"
    then have "92 \<in> set (join [47] (split_on 47 s))" by (simp add: join_split_on contains_any_def)
    moreover have "92 \<in> set (join [47] ps) \<Longrightarrow> \<exists>p\<in>set ps. 92 \<in> set p" for ps
      by (induction "[47::nat]" ps rule: join.induct) auto
    ultimately show False using segs
      by (auto simp: list_ex_iff bad_segment_def contains_any_def)
  qed
qed

subsection \<open>Properties\<close>

text \<open>A record identifier is accepted exactly when it is a kind's slug, a colon and a suffix whose
  segments between slashes are all safe, within 512 bytes; the suffix then has no colon and no
  backslash, and no segment is empty, \<^verbatim>\<open>.\<close> or \<^verbatim>\<open>..\<close>.
\<close>

lemma record_identifier_iff:
  "parse_record_id v = Some (k, s) \<longleftrightarrow>
     v = slug k @ lit '':'' @ s \<and> byte_len v \<le> 512 \<and> trimmed v \<and> 58 \<notin> set s \<and> 92 \<notin> set s \<and>
     {[], lit ''.'', lit ''..''} \<inter> set (split_on (ch (CHR ''/'')) s) = {} \<and>
     list_all (\<lambda>p. \<not> bad_segment p) (split_on (ch (CHR ''/'')) s)"
proof -
  have "58 \<notin> set s \<and> 92 \<notin> set s" if "parse_record_id v = Some (k, s)"
    using parse_record_id_suffix [OF that] by (simp add: contains_any_def)
  then show ?thesis
    unfolding parse_record_id_iff by (auto simp: list_all_iff bad_segment_def)
qed

end
