(* ===== verification/Frontmatter.thy ===== *)
theory Frontmatter
  imports Guru_Prelude
begin

text \<open>
  The frontmatter parser (src/knowledge/frontmatter.rs). The loop over the lines of
  \<^theory_text>\<open>parse_frontmatter\<close> is \<open>fm_lines\<close>, its body is \<open>fm_line\<close>; the local variables
  \<^theory_text>\<open>metadata\<close>, \<^theory_text>\<open>current_list\<close> and \<^theory_text>\<open>parse_error\<close> are the
  record \<open>fm_state\<close>. The lemmas show which fields a result can declare, that declared fields
  and stored fields agree, and that rendered records are read back exactly.
\<close>

definition scalar_fields :: "ustr list" where
  "scalar_fields =
     [lit ''id'', lit ''title'', lit ''summary'', lit ''as_of'', lit ''source'', lit ''period'',
      lit ''status'', lit ''revoked_by'']"

definition list_fields :: "ustr list" where
  "list_fields =
     [lit ''entities'', lit ''aliases'', lit ''tags'', lit ''see_also'', lit ''uses'',
      lit ''supports'', lit ''contradicts'', lit ''updates'']"

record frontmatter =
  fm_scalar :: "(ustr, ustr) btree"
  fm_lists :: "(ustr, ustr list) btree"
  declared_fields :: "ustr set"
  duplicate_fields :: "ustr set"

definition empty_frontmatter :: frontmatter where
  "empty_frontmatter =
     \<lparr>fm_scalar = [], fm_lists = [], declared_fields = {}, duplicate_fields = {}\<rparr>"

record parsed_frontmatter =
  metadata :: frontmatter
  pf_body :: ustr
  pf_error :: "ustr option"

record fm_state =
  st_metadata :: frontmatter
  current_list :: "ustr option"
  parse_error :: "ustr option"

definition clean :: "ustr \<Rightarrow> ustr" where
  "clean v =
     (let value = trim v in
      if 2 \<le> byte_len value \<and>
         (starts_with value (lit [CHR 0x22]) \<and> ends_with value (lit [CHR 0x22]) \<or>
          starts_with value (lit [CHR 0x27]) \<and> ends_with value (lit [CHR 0x27]))
      then trim (butlast (tl value))
      else value)"

definition inline_list :: "ustr \<Rightarrow> ustr list" where
  "inline_list v =
     (let value = clean v in
      if value = lit ''[]'' then []
      else if starts_with value (lit ''['') \<and> ends_with value (lit '']'') then
        filter (\<lambda>item. item \<noteq> []) (map clean (split_on (ch (CHR '','')) (butlast (tl value))))
      else if value = [] then []
      else [value])"

text \<open>\<^theory_text>\<open>parse_error.get_or_insert_with\<close>: the first error stays.\<close>

definition note_error :: "ustr \<Rightarrow> fm_state \<Rightarrow> fm_state" where
  "note_error e st = (case parse_error st of None \<Rightarrow> st\<lparr>parse_error := Some e\<rparr> | Some _ \<Rightarrow> st)"

definition fm_item :: "fm_state \<Rightarrow> ustr \<Rightarrow> fm_state" where
  "fm_item st line =
     (case current_list st of
        Some key \<Rightarrow>
          (case strip_prefix (lit ''- '') (trim line) of
             Some value \<Rightarrow>
               if clean value \<noteq> []
               then st\<lparr>st_metadata := (st_metadata st)\<lparr>fm_lists :=
                      bt_entry [] (\<lambda>vs. vs @ [clean value]) key (fm_lists (st_metadata st))\<rparr>\<rparr>
               else note_error (lit ''frontmatter list items must use '' @
                      lit [CHR 0x27] @ lit ''- value'' @ lit [CHR 0x27] @ lit '' syntax'') st
           | None \<Rightarrow> note_error (lit ''frontmatter list items must use '' @
                      lit [CHR 0x27] @ lit ''- value'' @ lit [CHR 0x27] @ lit '' syntax'') st)
      | None \<Rightarrow> note_error (lit ''frontmatter contains unexpected indented content'') st)"

definition fm_field :: "fm_state \<Rightarrow> ustr \<Rightarrow> ustr \<Rightarrow> fm_state" where
  "fm_field st key value =
     (let m = st_metadata st;
          m = (if key \<in> declared_fields m
               then m\<lparr>duplicate_fields := insert key (duplicate_fields m)\<rparr>
               else m\<lparr>declared_fields := insert key (declared_fields m)\<rparr>)
      in if key \<in> set list_fields
         then st\<lparr>current_list := (if value = [] then Some key else None),
                 st_metadata := m\<lparr>fm_lists := bt_insert key (inline_list value) (fm_lists m)\<rparr>\<rparr>
         else st\<lparr>current_list := None,
                 st_metadata := m\<lparr>fm_scalar := bt_insert key (clean value) (fm_scalar m)\<rparr>\<rparr>)"

definition fm_line :: "fm_state \<Rightarrow> ustr \<Rightarrow> fm_state" where
  "fm_line st line =
     (if trim line = [] \<or> starts_with (trim_start line) (lit ''#'') then st
      else if line \<noteq> [] \<and> is_whitespace (hd line) then fm_item st line
      else case split_once (ch (CHR '':'')) line of
          None \<Rightarrow>
            (note_error (lit ''frontmatter fields must use '' @
               lit [CHR 0x27] @ lit ''name: value'' @ lit [CHR 0x27] @ lit '' syntax'') st)
              \<lparr>current_list := None\<rparr>
        | Some (raw_key, raw_value) \<Rightarrow>
            let key = trim raw_key; value = trim raw_value in
            if key = [] \<or> key \<notin> set scalar_fields \<and> key \<notin> set list_fields
            then (note_error (lit ''unknown frontmatter field: '' @ key) st)\<lparr>current_list := None\<rparr>
            else fm_field st key value)"

text \<open>The loop: \<open>None\<close> when the lines end before the closing line.\<close>

fun fm_lines :: "fm_state \<Rightarrow> ustr list \<Rightarrow> (fm_state \<times> ustr list) option" where
  "fm_lines st [] = None"
| "fm_lines st (line # rest) =
     (if trim line = lit ''---'' then Some (st, rest) else fm_lines (fm_line st line) rest)"

definition malformed :: "ustr \<Rightarrow> parsed_frontmatter" where
  "malformed message =
     \<lparr>metadata = empty_frontmatter, pf_body = [], pf_error = Some message\<rparr>"

definition init_fm_state :: fm_state where
  "init_fm_state = \<lparr>st_metadata = empty_frontmatter, current_list = None, parse_error = None\<rparr>"

definition parse_frontmatter :: "ustr \<Rightarrow> parsed_frontmatter" where
  "parse_frontmatter markdown =
     (case lines markdown of
        [] \<Rightarrow> malformed (lit ''frontmatter must begin and end with ---'')
      | first # rest \<Rightarrow>
          if trim first \<noteq> lit ''---''
          then malformed (lit ''frontmatter must begin and end with ---'')
          else case fm_lines init_fm_state rest of
              None \<Rightarrow> malformed (lit ''frontmatter must begin and end with ---'')
            | Some (st, body) \<Rightarrow>
                \<lparr>metadata = st_metadata st, pf_body = join [10] body,
                 pf_error = parse_error st\<rparr>)"

lemmas frontmatter_defs [model_defs] =
  scalar_fields_def list_fields_def empty_frontmatter_def clean_def inline_list_def note_error_def
  fm_item_def fm_field_def fm_line_def malformed_def init_fm_state_def parse_frontmatter_def

subsection \<open>Which fields a result holds\<close>

definition fm_inv :: "frontmatter \<Rightarrow> bool" where
  "fm_inv m \<longleftrightarrow>
     bt_inv (fm_scalar m) \<and> bt_inv (fm_lists m) \<and>
     fst ` set (fm_scalar m) \<subseteq> set scalar_fields \<and> fst ` set (fm_lists m) \<subseteq> set list_fields \<and>
     declared_fields m = fst ` set (fm_scalar m) \<union> fst ` set (fm_lists m) \<and>
     duplicate_fields m \<subseteq> declared_fields m"

definition fm_state_inv :: "fm_state \<Rightarrow> bool" where
  "fm_state_inv st \<longleftrightarrow>
     fm_inv (st_metadata st) \<and>
     (\<forall>k. current_list st = Some k \<longrightarrow> k \<in> fst ` set (fm_lists (st_metadata st)))"

lemma note_error_fields [simp]:
  "st_metadata (note_error e st) = st_metadata st"
  "current_list (note_error e st) = current_list st"
  by (simp_all add: note_error_def split: option.splits)

lemma fst_bt_entry [simp]: "fst ` set (bt_entry d f k m) = insert k (fst ` set m)"
  by (simp add: bt_entry_def fst_bt_insert)

lemma fm_item_inv: "fm_state_inv st \<Longrightarrow> fm_state_inv (fm_item st line)"
  by (auto simp: fm_state_inv_def fm_inv_def fm_item_def split: option.splits)

lemma fm_field_inv:
  "fm_state_inv st \<Longrightarrow> key \<in> set scalar_fields \<or> key \<in> set list_fields \<Longrightarrow>
   fm_state_inv (fm_field st key value)"
  by (auto simp: fm_state_inv_def fm_inv_def fm_field_def Let_def fst_bt_insert split: if_splits)

lemma fm_line_inv: "fm_state_inv st \<Longrightarrow> fm_state_inv (fm_line st line)"
proof -
  assume st: "fm_state_inv st"
  then have "fm_state_inv ((note_error e st)\<lparr>current_list := None\<rparr>)" for e
    by (simp add: fm_state_inv_def)
  with st show ?thesis
    by (auto simp: fm_line_def Let_def fm_item_inv fm_field_inv split: option.splits)
qed

lemma fm_lines_inv: "fm_state_inv st \<Longrightarrow> fm_lines st ls = Some (st', rest) \<Longrightarrow> fm_state_inv st'"
  by (induction st ls rule: fm_lines.induct) (auto simp: fm_line_inv split: if_splits)

lemma fm_inv_empty: "fm_inv empty_frontmatter"
  by (simp add: fm_inv_def empty_frontmatter_def)

lemma fm_inv_parse: "fm_inv (metadata (parse_frontmatter markdown))"
proof -
  have "fm_state_inv init_fm_state"
    by (simp add: fm_state_inv_def init_fm_state_def fm_inv_empty)
  then have "fm_inv (st_metadata st)" if "fm_lines init_fm_state ls = Some (st, rest)" for ls st rest
    using fm_lines_inv [OF _ that] by (simp add: fm_state_inv_def)
  then show ?thesis
    by (auto simp: parse_frontmatter_def malformed_def fm_inv_empty
        split: list.splits option.splits)
qed

lemma disjoint_fields: "set scalar_fields \<inter> set list_fields = {}"
  by (simp add: scalar_fields_def list_fields_def)

text \<open>The loop consumes the lines up to the first closing line.\<close>

lemma fm_lines_None: "fm_lines st ls = None \<longleftrightarrow> (\<forall>l\<in>set ls. trim l \<noteq> lit ''---'')"
  by (induction st ls rule: fm_lines.induct) auto

lemma fm_lines_rest:
  "fm_lines st ls = Some (st', rest) \<Longrightarrow> \<exists>pre c. ls = pre @ c # rest \<and> trim c = lit ''---'' \<and>
     (\<forall>l\<in>set pre. trim l \<noteq> lit ''---'')"
proof (induction st ls rule: fm_lines.induct)
  case (2 st line rest')
  show ?case
  proof (cases "trim line = lit ''---''")
    case True
    with "2.prems" have "line # rest' = [] @ line # rest" by simp
    with True show ?thesis by (metis empty_iff list.set(1))
  next
    case False
    with 2 obtain pre c where "rest' = pre @ c # rest" "trim c = lit ''---''"
        "\<forall>l\<in>set pre. trim l \<noteq> lit ''---''" by auto
    with False have "line # rest' = (line # pre) @ c # rest"
      "\<forall>l\<in>set (line # pre). trim l \<noteq> lit ''---''" by auto
    with \<open>trim c = lit ''---''\<close> show ?thesis by blast
  qed
qed simp

subsection \<open>Rendering and reading back\<close>

text \<open>
  Frontmatter as it is written: entries of known fields, with values that start and end with no white
  space and fill one line. What is read back of a value is the value cleaned, which takes off a pair of quotes.
\<close>

datatype fm_entry =
  Scalar_Entry ustr ustr
| List_Entry ustr "ustr list"
| Empty_List ustr

fun entry_key :: "fm_entry \<Rightarrow> ustr" where
  "entry_key (Scalar_Entry k v) = k"
| "entry_key (List_Entry k vs) = k"
| "entry_key (Empty_List k) = k"

fun entry_lines :: "fm_entry \<Rightarrow> ustr list" where
  "entry_lines (Scalar_Entry k v) = [k @ lit '': '' @ v]"
| "entry_lines (List_Entry k vs) = (k @ lit '':'') # map (\<lambda>v. lit ''  - '' @ v) vs"
| "entry_lines (Empty_List k) = [k @ lit '': []'']"

definition render_entries :: "fm_entry list \<Rightarrow> ustr \<Rightarrow> ustr" where
  "render_entries es body =
     concat (map (\<lambda>l. l @ [10]) (lit ''---'' # concat (map entry_lines es) @ [lit ''---''])) @ body"

definition raw_value :: "ustr \<Rightarrow> bool" where
  "raw_value v \<longleftrightarrow> v \<noteq> [] \<and> trim v = v \<and> 10 \<notin> set v"

fun entry_ok :: "fm_entry \<Rightarrow> bool" where
  "entry_ok (Scalar_Entry k v) \<longleftrightarrow> k \<in> set scalar_fields \<and> raw_value v"
| "entry_ok (List_Entry k vs) \<longleftrightarrow> k \<in> set list_fields \<and> (\<forall>v\<in>set vs. raw_value v \<and> clean v \<noteq> [])"
| "entry_ok (Empty_List k) \<longleftrightarrow> k \<in> set list_fields"

definition declare_field :: "ustr \<Rightarrow> frontmatter \<Rightarrow> frontmatter" where
  "declare_field k m = m\<lparr>declared_fields := insert k (declared_fields m)\<rparr>"

fun put_entry :: "fm_entry \<Rightarrow> frontmatter \<Rightarrow> frontmatter" where
  "put_entry (Scalar_Entry k v) m = (declare_field k m)\<lparr>fm_scalar := bt_insert k (clean v) (fm_scalar m)\<rparr>"
| "put_entry (List_Entry k vs) m =
     (declare_field k m)\<lparr>fm_lists := bt_insert k (map clean vs) (fm_lists m)\<rparr>"
| "put_entry (Empty_List k) m = (declare_field k m)\<lparr>fm_lists := bt_insert k [] (fm_lists m)\<rparr>"

lemma raw_valueD:
  assumes "raw_value v"
  shows "v \<noteq> []" "trim v = v" "\<not> is_whitespace (hd v)" "\<not> is_whitespace (last v)" "10 \<notin> set v"
  using assms trim_eq_iff [of v] by (auto simp: raw_value_def trimmed_def)

definition field_name :: "ustr \<Rightarrow> bool" where
  "field_name k \<longleftrightarrow>
     k \<noteq> [] \<and> \<not> is_whitespace (hd k) \<and> hd k \<noteq> 35 \<and> hd k \<noteq> 45 \<and> 58 \<notin> set k \<and> 10 \<notin> set k \<and>
     \<not> is_whitespace (last k)"

lemma field_names: "k \<in> set scalar_fields \<or> k \<in> set list_fields \<Longrightarrow> field_name k"
  by (auto simp: scalar_fields_def list_fields_def field_name_def ustr_simps)

lemma trim_ends: "s \<noteq> [] \<Longrightarrow> \<not> is_whitespace (hd s) \<Longrightarrow> \<not> is_whitespace (last s) \<Longrightarrow> trim s = s"
  by (simp add: trim_eq_iff trimmed_def)

lemma fm_line_field:
  assumes k: "k \<in> set scalar_fields \<or> k \<in> set list_fields"
    and v: "trim (lit w @ v) = v" "last (k @ 58 # lit w @ v) = 58 \<or> \<not> is_whitespace (last (k @ 58 # lit w @ v))"
  shows "fm_line st (k @ 58 # lit w @ v) = fm_field st k v"
    and "trim (k @ 58 # lit w @ v) \<noteq> lit ''---''"
proof -
  let ?l = "k @ 58 # lit w @ v"
  have f: "field_name k" using k by (rule field_names)
  have hd: "hd ?l = hd k" using f by (simp add: field_name_def)
  have "\<not> is_whitespace 58" by (simp add: is_whitespace_def)
  then have "\<not> is_whitespace (last ?l)" using v(2) by metis
  then have t: "trim ?l = ?l"
    using f by (intro trim_ends) (simp_all add: hd field_name_def)
  have s: "trim_start ?l = ?l"
    using f trim_start_hd [of ?l] by (simp add: hd field_name_def)
  have key: "trim k = k" using f by (intro trim_ends) (auto simp: field_name_def)
  have "hd ?l \<noteq> 45" using f by (simp add: field_name_def)
  moreover have "hd (lit ''---'') = 45" by (simp add: lit_def)
  ultimately show "trim ?l \<noteq> lit ''---''" unfolding t by metis
  have "split_once 58 ?l = Some (k, lit w @ v)" using f by (simp add: field_name_def)
  moreover have "\<not> starts_with ?l (lit ''#'')"
  proof -
    have "take 1 ?l = [hd k]" using f by (cases k) (auto simp: field_name_def)
    then show ?thesis using f by (simp add: field_name_def starts_with_def lit_def)
  qed
  moreover have "\<not> is_whitespace (hd ?l)" "k \<noteq> []" using f by (auto simp: field_name_def)
  ultimately show "fm_line st ?l = fm_field st k v"
    using k v(1) by (auto simp: fm_line_def t s key Let_def)
qed

lemma trim_two_blanks: "raw_value v \<Longrightarrow> trim (lit ''  - '' @ v) = lit ''- '' @ v"
proof -
  assume v: "raw_value v"
  have "trim_start (lit ''  - '' @ v) = lit ''- '' @ v"
    by (simp add: trim_start_def lit_def is_whitespace_def)
  moreover have "trim_end (lit ''- '' @ v) = lit ''- '' @ v"
    using raw_valueD [OF v] trim_end_last [of "lit ''- '' @ v"] by simp
  ultimately show ?thesis by (simp add: trim_def)
qed

lemma fm_line_item:
  assumes v: "raw_value v" "clean v \<noteq> []" and k: "current_list st = Some k"
  shows "fm_line st (lit ''  - '' @ v) =
      st\<lparr>st_metadata := (st_metadata st)\<lparr>fm_lists :=
           bt_entry [] (\<lambda>vs. vs @ [clean v]) k (fm_lists (st_metadata st))\<rparr>\<rparr>"
    and "trim (lit ''  - '' @ v) \<noteq> lit ''---''" and "plain_line (lit ''  - '' @ v)"
proof -
  have t: "trim (lit ''  - '' @ v) = lit ''- '' @ v" using v(1) by (rule trim_two_blanks)
  then show "trim (lit ''  - '' @ v) \<noteq> lit ''---''" by (simp add: lit_def)
  have s: "trim_start (lit ''  - '' @ v) = lit ''- '' @ v"
    by (simp add: trim_start_def lit_def is_whitespace_def)
  have "strip_prefix (lit ''- '') (lit ''- '' @ v) = Some v" by (simp add: strip_prefix_Some)
  then have "fm_item st (lit ''  - '' @ v) =
      st\<lparr>st_metadata := (st_metadata st)\<lparr>fm_lists :=
           bt_entry [] (\<lambda>vs. vs @ [clean v]) k (fm_lists (st_metadata st))\<rparr>\<rparr>"
    using k v(2) by (simp add: fm_item_def t)
  moreover have "hd (lit ''  - '' @ v) = 32" by (simp add: lit_def)
  ultimately show "fm_line st (lit ''  - '' @ v) =
      st\<lparr>st_metadata := (st_metadata st)\<lparr>fm_lists :=
           bt_entry [] (\<lambda>vs. vs @ [clean v]) k (fm_lists (st_metadata st))\<rparr>\<rparr>"
    using s t by (simp add: fm_line_def starts_with_def) (simp add: lit_def is_whitespace_def)
  show "plain_line (lit ''  - '' @ v)"
    using raw_valueD [OF v(1)] by (auto simp: plain_line_def lit_def is_whitespace_def)
qed

text \<open>The loop over the lines of one entry.\<close>

lemma put_entry_fields [simp]:
  "declared_fields (put_entry e m) = insert (entry_key e) (declared_fields m)"
  "duplicate_fields (put_entry e m) = duplicate_fields m"
  by (cases e; simp add: declare_field_def)+

lemma fm_line_scalar:
  assumes k: "k \<in> set scalar_fields" and v: "raw_value v" and new: "k \<notin> declared_fields (st_metadata st)"
  shows "fm_line st (k @ lit '': '' @ v) =
      st\<lparr>current_list := None, st_metadata := put_entry (Scalar_Entry k v) (st_metadata st)\<rparr>"
    and "trim (k @ lit '': '' @ v) \<noteq> lit ''---''" and "plain_line (k @ lit '': '' @ v)"
proof -
  note v' = raw_valueD [OF v]
  have r: "k @ lit '': '' @ v = k @ 58 # lit '' '' @ v" by (simp add: lit_def)
  have t: "trim (lit '' '' @ v) = v"
    using v'(2) by (simp add: trim_def trim_start_def lit_def is_whitespace_def)
  have l: "last (k @ lit '': '' @ v) = last v" using v'(1) by simp
  have "k \<notin> set list_fields" using k disjoint_fields by blast
  then have "fm_field st k v =
      st\<lparr>current_list := None, st_metadata := put_entry (Scalar_Entry k v) (st_metadata st)\<rparr>"
    using new by (simp add: fm_field_def declare_field_def Let_def)
  moreover have "clean v = clean v" ..
  ultimately show "fm_line st (k @ lit '': '' @ v) =
      st\<lparr>current_list := None, st_metadata := put_entry (Scalar_Entry k v) (st_metadata st)\<rparr>"
    using fm_line_field(1) [of k "'' ''" v st] k t l v'(4) unfolding r by simp
  show "trim (k @ lit '': '' @ v) \<noteq> lit ''---''"
    using fm_line_field(2) [of k "'' ''" v] k t l v'(4) unfolding r by simp
  have "last v \<noteq> 13" using v'(4) by (auto simp: is_whitespace_def)
  then show "plain_line (k @ lit '': '' @ v)"
    using field_names [of k] k v' l by (auto simp: plain_line_def field_name_def lit_def)
qed

lemma fm_line_header:
  assumes k: "k \<in> set list_fields" and new: "k \<notin> declared_fields (st_metadata st)"
  shows "fm_line st (k @ lit '':'') =
      st\<lparr>current_list := Some k, st_metadata := put_entry (Empty_List k) (st_metadata st)\<rparr>"
    and "trim (k @ lit '':'') \<noteq> lit ''---''" and "plain_line (k @ lit '':'')"
proof -
  have "fm_field st k [] =
      st\<lparr>current_list := Some k, st_metadata := put_entry (Empty_List k) (st_metadata st)\<rparr>"
    using new k by (simp add: fm_field_def declare_field_def inline_list_def clean_def Let_def
        starts_with_def lit_def)
  then show "fm_line st (k @ lit '':'') =
      st\<lparr>current_list := Some k, st_metadata := put_entry (Empty_List k) (st_metadata st)\<rparr>"
    using fm_line_field(1) [of k "[]" "[]" st] k by (simp add: lit_def)
  show "trim (k @ lit '':'') \<noteq> lit ''---''"
    using fm_line_field(2) [of k "[]" "[]"] k by (simp add: lit_def)
  show "plain_line (k @ lit '':'')"
    using field_names [of k] k by (auto simp: plain_line_def field_name_def lit_def)
qed

lemma fm_line_empty:
  assumes k: "k \<in> set list_fields" and new: "k \<notin> declared_fields (st_metadata st)"
  shows "fm_line st (k @ lit '': []'') =
      st\<lparr>current_list := None, st_metadata := put_entry (Empty_List k) (st_metadata st)\<rparr>"
    and "trim (k @ lit '': []'') \<noteq> lit ''---''" and "plain_line (k @ lit '': []'')"
proof -
  have r: "k @ lit '': []'' = k @ 58 # lit '' '' @ lit ''[]''" by (simp add: lit_def)
  have t: "trim (lit '' '' @ lit ''[]'') = lit ''[]''"
    by (simp add: trim_def trim_start_def trim_end_def lit_def is_whitespace_def)
  have l: "last (k @ lit '': []'') = 93" "\<not> is_whitespace 93" by (simp_all add: lit_def is_whitespace_def)
  have "fm_field st k (lit ''[]'') =
      st\<lparr>current_list := None, st_metadata := put_entry (Empty_List k) (st_metadata st)\<rparr>"
    using new k by (simp add: fm_field_def declare_field_def inline_list_def clean_def Let_def trim_def
        trim_start_def trim_end_def starts_with_def ends_with_def lit_def is_whitespace_def)
  then show "fm_line st (k @ lit '': []'') =
      st\<lparr>current_list := None, st_metadata := put_entry (Empty_List k) (st_metadata st)\<rparr>"
    using fm_line_field(1) [of k "'' ''" "lit ''[]''" st] k t l unfolding r by simp
  show "trim (k @ lit '': []'') \<noteq> lit ''---''"
    using fm_line_field(2) [of k "'' ''" "lit ''[]''"] k t l unfolding r by simp
  show "plain_line (k @ lit '': []'')"
    using field_names [of k] k by (auto simp: plain_line_def field_name_def lit_def)
qed

lemma bt_insert_insert [simp]: "bt_insert k v' (bt_insert k v m) = bt_insert k v' m"
  by (induction m) auto

lemma fm_lines_items:
  "current_list st = Some k \<Longrightarrow> bt_get (fm_lists (st_metadata st)) k = Some us \<Longrightarrow>
   bt_insert k us (fm_lists (st_metadata st)) = fm_lists (st_metadata st) \<Longrightarrow>
   \<forall>v\<in>set vs. raw_value v \<and> clean v \<noteq> [] \<Longrightarrow>
   fm_lines st (map (\<lambda>v. lit ''  - '' @ v) vs @ rest) =
   fm_lines (st\<lparr>st_metadata := (st_metadata st)\<lparr>fm_lists :=
       bt_insert k (us @ map clean vs) (fm_lists (st_metadata st))\<rparr>\<rparr>) rest"
proof (induction vs arbitrary: st us)
  case Nil
  then show ?case by simp
next
  case (Cons v vs)
  let ?st = "fm_line st (lit ''  - '' @ v)"
  have v: "raw_value v" "clean v \<noteq> []" using Cons.prems by auto
  have st: "?st = st\<lparr>st_metadata := (st_metadata st)\<lparr>fm_lists :=
      bt_insert k (us @ [clean v]) (fm_lists (st_metadata st))\<rparr>\<rparr>"
    using Cons.prems(2) by (simp add: fm_line_item(1) [OF v Cons.prems(1)] bt_entry_def)
  have "fm_lines st (map (\<lambda>v. lit ''  - '' @ v) (v # vs) @ rest) =
      fm_lines ?st (map (\<lambda>v. lit ''  - '' @ v) vs @ rest)"
    using fm_line_item(2) [OF v Cons.prems(1)] by simp
  also have "\<dots> = fm_lines (?st\<lparr>st_metadata := (st_metadata ?st)\<lparr>fm_lists :=
       bt_insert k ((us @ [clean v]) @ map clean vs) (fm_lists (st_metadata ?st))\<rparr>\<rparr>) rest"
    using Cons.prems by (intro Cons.IH) (simp_all add: st)
  finally show ?case by (simp add: st)
qed

lemma fm_lines_entry:
  assumes e: "entry_ok e" and new: "entry_key e \<notin> declared_fields (st_metadata st)"
  shows "\<exists>c. fm_lines st (entry_lines e @ rest) =
      fm_lines (st\<lparr>current_list := c, st_metadata := put_entry e (st_metadata st)\<rparr>) rest"
proof (cases e)
  case (Scalar_Entry k v)
  with e have "k \<in> set scalar_fields" "raw_value v" by auto
  from fm_line_scalar [OF this] new Scalar_Entry show ?thesis
    by (intro exI [of _ None]) simp
next
  case (Empty_List k)
  with e have "k \<in> set list_fields" by auto
  from fm_line_empty [OF this] new Empty_List show ?thesis
    by (intro exI [of _ None]) simp
next
  case (List_Entry k vs)
  with e have k: "k \<in> set list_fields" and vs: "\<forall>v\<in>set vs. raw_value v \<and> clean v \<noteq> []" by auto
  let ?st = "st\<lparr>current_list := Some k, st_metadata := put_entry (Empty_List k) (st_metadata st)\<rparr>"
  have "fm_lines st (entry_lines e @ rest) = fm_lines ?st (map (\<lambda>v. lit ''  - '' @ v) vs @ rest)"
    using fm_line_header [OF k] new by (simp add: List_Entry)
  also have "\<dots> = fm_lines (?st\<lparr>st_metadata := (st_metadata ?st)\<lparr>fm_lists :=
       bt_insert k ([] @ map clean vs) (fm_lists (st_metadata ?st))\<rparr>\<rparr>) rest"
    using vs by (intro fm_lines_items) (simp_all add: declare_field_def)
  finally show ?thesis
    by (intro exI [of _ "Some k"]) (simp add: List_Entry declare_field_def)
qed

lemma fm_lines_entries:
  "\<forall>e\<in>set es. entry_ok e \<Longrightarrow> distinct (map entry_key es) \<Longrightarrow>
   \<forall>e\<in>set es. entry_key e \<notin> declared_fields (st_metadata st) \<Longrightarrow>
   \<exists>c. fm_lines st (concat (map entry_lines es) @ rest) =
     fm_lines (st\<lparr>current_list := c, st_metadata := fold put_entry es (st_metadata st)\<rparr>) rest"
proof (induction es arbitrary: st)
  case Nil
  show ?case by (rule exI [of _ "current_list st"]) simp
next
  case (Cons e es)
  obtain c where c: "fm_lines st (entry_lines e @ concat (map entry_lines es) @ rest) =
      fm_lines (st\<lparr>current_list := c, st_metadata := put_entry e (st_metadata st)\<rparr>)
        (concat (map entry_lines es) @ rest)" (is "_ = fm_lines ?st _")
    using Cons.prems fm_lines_entry [of e st "concat (map entry_lines es) @ rest"] by auto
  have "\<exists>c. fm_lines ?st (concat (map entry_lines es) @ rest) =
      fm_lines (?st\<lparr>current_list := c, st_metadata := fold put_entry es (st_metadata ?st)\<rparr>) rest"
    using Cons.prems by (intro Cons.IH) (auto simp: image_iff)
  with c show ?case by simp
qed

lemma plain_entry_lines: "entry_ok e \<Longrightarrow> l \<in> set (entry_lines e) \<Longrightarrow> plain_line l"
  using fm_line_scalar(3) [of _ _ init_fm_state] fm_line_header(3) [of _ init_fm_state]
    fm_line_empty(3) [of _ init_fm_state]
    fm_line_item(3) [of _ "init_fm_state\<lparr>current_list := Some []\<rparr>"]
  by (cases e) (auto simp: init_fm_state_def empty_frontmatter_def)

lemma closing_line: "plain_line (lit ''---'')" "trim (lit ''---'') = lit ''---''"
  by (simp_all add: plain_line_def trim_eq_iff trimmed_def lit_def is_whitespace_def)

theorem parse_entries:
  assumes ok: "\<forall>e\<in>set es. entry_ok e" and d: "distinct (map entry_key es)"
  shows "parse_frontmatter (render_entries es body) =
    \<lparr>metadata = fold put_entry es empty_frontmatter, pf_body = join [10] (lines body), pf_error = None\<rparr>"
proof -
  let ?head = "concat (map entry_lines es) @ [lit ''---'']"
  have "\<forall>x\<in>set (lit ''---'' # ?head). plain_line x"
    using ok closing_line(1) plain_entry_lines by auto
  then have lines: "lines (render_entries es body) = lit ''---'' # ?head @ lines body"
    unfolding render_entries_def by (subst lines_plain_lines) simp_all
  obtain c where "fm_lines init_fm_state (concat (map entry_lines es) @ lit ''---'' # lines body) =
      fm_lines (init_fm_state\<lparr>current_list := c, st_metadata := fold put_entry es empty_frontmatter\<rparr>)
        (lit ''---'' # lines body)"
    using fm_lines_entries [OF ok d, of init_fm_state "lit ''---'' # lines body"]
    by (auto simp: init_fm_state_def empty_frontmatter_def)
  then show ?thesis
    by (simp add: parse_frontmatter_def lines closing_line(2)) (simp add: init_fm_state_def)
qed

text \<open>What the entries leave in the metadata.\<close>

fun entry_scalar :: "fm_entry \<Rightarrow> ustr option" where
  "entry_scalar (Scalar_Entry k v) = Some (clean v)"
| "entry_scalar _ = None"

fun entry_list :: "fm_entry \<Rightarrow> ustr list option" where
  "entry_list (Scalar_Entry k v) = None"
| "entry_list (List_Entry k vs) = Some (map clean vs)"
| "entry_list (Empty_List k) = Some []"

definition entry_at :: "fm_entry list \<Rightarrow> ustr \<Rightarrow> fm_entry option" where
  "entry_at es k = find (\<lambda>e. entry_key e = k) es"

lemma entry_at_simps [simp]:
  "entry_at [] k = None" "entry_at (e # es) k = (if entry_key e = k then Some e else entry_at es k)"
  by (simp_all add: entry_at_def)

lemma entry_at_append: "entry_at (es @ fs) k = (case entry_at es k of None \<Rightarrow> entry_at fs k | Some e \<Rightarrow> Some e)"
  by (induction es) auto

lemma entry_at_None: "entry_at es k = None \<longleftrightarrow> k \<notin> entry_key ` set es"
  by (induction es) auto

lemma fold_put_entry:
  "declared_fields (fold put_entry es m) = declared_fields m \<union> entry_key ` set es"
  "duplicate_fields (fold put_entry es m) = duplicate_fields m"
  by (induction es arbitrary: m) auto

lemma put_entry_get:
  "entry_key e \<noteq> k \<Longrightarrow> bt_get (fm_scalar (put_entry e m)) k = bt_get (fm_scalar m) k"
  "entry_key e \<noteq> k \<Longrightarrow> bt_get (fm_lists (put_entry e m)) k = bt_get (fm_lists m) k"
  "bt_get (fm_scalar (put_entry e m)) (entry_key e) =
     (case entry_scalar e of None \<Rightarrow> bt_get (fm_scalar m) (entry_key e) | Some v \<Rightarrow> Some v)"
  "bt_get (fm_lists (put_entry e m)) (entry_key e) =
     (case entry_list e of None \<Rightarrow> bt_get (fm_lists m) (entry_key e) | Some vs \<Rightarrow> Some vs)"
  by (cases e; simp add: declare_field_def)+

lemma fold_put_entry_get:
  "distinct (map entry_key es) \<Longrightarrow> bt_get (fm_scalar (fold put_entry es m)) k =
     (case Option.bind (entry_at es k) entry_scalar of None \<Rightarrow> bt_get (fm_scalar m) k | Some v \<Rightarrow> Some v)"
  "distinct (map entry_key es) \<Longrightarrow> bt_get (fm_lists (fold put_entry es m)) k =
     (case Option.bind (entry_at es k) entry_list of None \<Rightarrow> bt_get (fm_lists m) k | Some vs \<Rightarrow> Some vs)"
proof (induction es arbitrary: m)
  case (Cons e es)
  { case 1
    then have "entry_at es (entry_key e) = None" by (simp add: entry_at_None)
    with 1 Cons.IH(1) show ?case
      by (auto simp: put_entry_get put_entry_get(3) [symmetric] split: option.splits) }
  { case 2
    then have "entry_at es (entry_key e) = None" by (simp add: entry_at_None)
    with 2 Cons.IH(2) show ?case
      by (auto simp: put_entry_get split: option.splits) }
qed simp_all

text \<open>Values that are read back as they were written.\<close>

definition plain_value :: "ustr \<Rightarrow> bool" where
  "plain_value v \<longleftrightarrow> v \<noteq> [] \<and> clean v = v \<and> 10 \<notin> set v"

definition render_frontmatter :: "(ustr \<times> ustr) list \<Rightarrow> (ustr \<times> ustr list) list \<Rightarrow> ustr \<Rightarrow> ustr" where
  "render_frontmatter s ls body =
     render_entries (map (\<lambda>(k, v). Scalar_Entry k v) s @ map (\<lambda>(k, vs). List_Entry k vs) ls) body"

definition renderable :: "(ustr \<times> ustr) list \<Rightarrow> (ustr \<times> ustr list) list \<Rightarrow> bool" where
  "renderable s ls \<longleftrightarrow>
     (\<forall>kv\<in>set s. fst kv \<in> set scalar_fields \<and> plain_value (snd kv)) \<and> distinct (map fst s) \<and>
     (\<forall>kvs\<in>set ls. fst kvs \<in> set list_fields \<and> (\<forall>v\<in>set (snd kvs). plain_value v)) \<and>
     distinct (map fst ls)"

lemma length_trim: "length (trim v) \<le> length v"
  by (metis length_dropWhile_le length_rev order_trans trim_def trim_end_def trim_start_def)

lemma clean_fixed_trim: "clean v = v \<Longrightarrow> trim v = v"
proof (rule ccontr)
  assume c: "clean v = v" and t: "trim v \<noteq> v"
  then have v: "v = trim (butlast (tl (trim v)))" and ne: "trim v \<noteq> []"
    by (auto simp: clean_def Let_def split: if_splits)
  have "length v \<le> length (butlast (tl (trim v)))"
    by (subst v) (rule length_trim)
  also have "\<dots> < length (trim v)" using ne by (cases "trim v") auto
  also have "\<dots> \<le> length v" by (rule length_trim)
  finally show False by simp
qed

lemma plain_raw: "plain_value v \<Longrightarrow> raw_value v \<and> clean v = v \<and> clean v \<noteq> []"
  using clean_fixed_trim [of v] by (auto simp: plain_value_def raw_value_def)

lemma entry_at_rendered:
  "entry_at (map (\<lambda>(k, v). Scalar_Entry k v) s) k = map_option (Scalar_Entry k) (map_of s k)"
  "entry_at (map (\<lambda>(k, vs). List_Entry k vs) ls) k = map_option (List_Entry k) (map_of ls k)"
  by (induction s, auto) (induction ls, auto)

subsection \<open>Properties\<close>



text \<open>Whatever the text, the metadata holds only known fields, each at most once, and a field is
  stored exactly when it was declared; a field declared twice is recorded as a duplicate.
\<close>

lemma frontmatter_fields:
  "let m = metadata (parse_frontmatter markdown) in
     bt_inv (fm_scalar m) \<and> bt_inv (fm_lists m) \<and>
     fst ` set (fm_scalar m) \<subseteq> set scalar_fields \<and> fst ` set (fm_lists m) \<subseteq> set list_fields \<and>
     declared_fields m = fst ` set (fm_scalar m) \<union> fst ` set (fm_lists m) \<and>
     duplicate_fields m \<subseteq> declared_fields m"
  using fm_inv_parse [of markdown] unfolding fm_inv_def Let_def .

end
