(* ===== verification/Platform.thy ===== *)
theory Platform
  imports Guru_Prelude
begin

text \<open>
  What the model takes as given: the Unicode tables behind \<^theory_text>\<open>char::is_alphanumeric\<close>,
  \<^theory_text>\<open>char::to_lowercase\<close> and the regex classes \<^verbatim>\<open>\w\<close> and
  \<^verbatim>\<open>\d\<close>, the date parser of chrono, SHA-256, and the bundled embedding model; the
  wording of a UTF-8 error and the debug form of a string; and how many processors the machine reports.
  They are the fields of one record, an argument of the definitions that use them.
  \<open>rfc3339\<close> returns the timestamp in seconds and the calendar day of the parsed date;
  \<open>embed\<close> is the embedding of a text, \<open>semantic\<close> the rounded score of two embeddings whose
  cosine reaches the threshold (src/knowledge/semantic.rs computes it in \<^theory_text>\<open>f32\<close>).
\<close>

record 'v platform =
  alphanumeric :: "nat \<Rightarrow> bool"
  to_lowercase :: "nat \<Rightarrow> ustr"
  word_char :: "nat \<Rightarrow> bool"
  digit_char :: "nat \<Rightarrow> bool"
  rfc3339 :: "ustr \<Rightarrow> (int \<times> int) option"
  sha256 :: "nat list \<Rightarrow> ustr"
  utf8_message :: "nat list \<Rightarrow> ustr"
  debug_str :: "ustr \<Rightarrow> ustr"
  available_parallelism :: "nat option"
  embed :: "ustr \<Rightarrow> 'v"
  semantic :: "'v \<Rightarrow> 'v \<Rightarrow> int option"

text \<open>
  The platform the witnesses evaluate: ASCII tables, dates that are accepted with the
  timestamp 0, a hash that returns its input, and no semantic match.
\<close>

definition ascii_platform :: "unit platform" where
  "ascii_platform =
     \<lparr>alphanumeric = is_ascii_alphanumeric,
      to_lowercase = (\<lambda>c. [ascii_lower c]),
      word_char = (\<lambda>c. is_ascii_alphanumeric c \<or> c = 95),
      digit_char = is_ascii_digit,
      rfc3339 = (\<lambda>s. Some (0, 0)),
      sha256 = (\<lambda>b. b),
      utf8_message = (\<lambda>b. lit ''invalid utf-8''),
      debug_str = (\<lambda>s. 34 # s @ [34]),
      available_parallelism = Some 4,
      embed = (\<lambda>s. ()),
      semantic = (\<lambda>a b. None)\<rparr>"

text \<open>A regular expression without repetition: one character class after the other.\<close>

fun match_classes :: "(nat \<Rightarrow> bool) list \<Rightarrow> ustr \<Rightarrow> ustr option" where
  "match_classes [] s = Some s"
| "match_classes (p # ps) [] = None"
| "match_classes (p # ps) (c # s) = (if p c then match_classes ps s else None)"

lemma match_classes_Some:
  "match_classes ps s = Some r \<longleftrightarrow>
     (\<exists>m. s = m @ r \<and> length m = length ps \<and> list_all2 (\<lambda>p c. p c) ps m)"
proof (induction ps s rule: match_classes.induct)
  case (3 p ps c s)
  show ?case
  proof
    assume "match_classes (p # ps) (c # s) = Some r"
    with 3 obtain m where "p c" "s = m @ r" "length m = length ps" "list_all2 (\<lambda>p c. p c) ps m"
      by (auto split: if_splits)
    then show "\<exists>m. c # s = m @ r \<and> length m = length (p # ps) \<and> list_all2 (\<lambda>p c. p c) (p # ps) m"
      by (intro exI [of _ "c # m"]) simp
  next
    assume "\<exists>m. c # s = m @ r \<and> length m = length (p # ps) \<and> list_all2 (\<lambda>p c. p c) (p # ps) m"
    then obtain m where "c # s = m @ r" "length m = length (p # ps)"
        "list_all2 (\<lambda>p c. p c) (p # ps) m" by blast
    then show "match_classes (p # ps) (c # s) = Some r"
      using 3 by (cases m) auto
  qed
qed auto

definition is_chr :: "char \<Rightarrow> nat \<Rightarrow> bool" where
  "is_chr k c \<longleftrightarrow> c = ch k"

text \<open>
  \<^theory_text>\<open>is_rfc3339_seconds\<close> in src/knowledge/catalog.rs: the anchored pattern
  \<^verbatim>\<open>\d{4}-\d{2}-\d{2}T\d{2}:\d{2}:\d{2}(?:Z|[+-]\d{2}:\d{2})\<close>, and the date parses.
\<close>

definition rfc3339_shape :: "'v platform \<Rightarrow> ustr \<Rightarrow> bool" where
  "rfc3339_shape P s =
     (let d = digit_char P in
      case match_classes
          [d, d, d, d, is_chr (CHR ''-''), d, d, is_chr (CHR ''-''), d, d, is_chr (CHR ''T''),
           d, d, is_chr (CHR '':''), d, d, is_chr (CHR '':''), d, d] s of
        None \<Rightarrow> False
      | Some r \<Rightarrow>
          r = lit ''Z'' \<or>
          match_classes [\<lambda>c. is_chr (CHR ''+'') c \<or> is_chr (CHR ''-'') c, d, d,
            is_chr (CHR '':''), d, d] r = Some [])"

definition is_rfc3339_seconds :: "'v platform \<Rightarrow> ustr \<Rightarrow> bool" where
  "is_rfc3339_seconds P s \<longleftrightarrow> rfc3339_shape P s \<and> rfc3339 P s \<noteq> None"

lemma is_rfc3339_seconds_length: "is_rfc3339_seconds P s \<Longrightarrow> length s = 20 \<or> length s = 25"
proof -
  assume "is_rfc3339_seconds P s"
  then show ?thesis
    by (auto simp: is_rfc3339_seconds_def rfc3339_shape_def Let_def match_classes_Some lit_def
        split: option.splits)
qed

lemmas [model_defs] = ascii_platform_def rfc3339_shape_def is_rfc3339_seconds_def is_chr_def

end
