(* ===== verification/Document_Model.thy ===== *)
theory Document_Model
  imports Memory_Kind Frontmatter Platform
begin

text \<open>
  Knowledge records (src/knowledge/model.rs) and what makes one of them valid
  (src/knowledge/catalog.rs): documents with their relationships and sections, the split of a
  Markdown body into sections, the construction of a document from a file, and
  \<^theory_text>\<open>validate_document\<close> with every issue it reports.
\<close>

subsection \<open>Records\<close>

record relationship =
  rel_kind :: ustr
  rel_target :: ustr

record document =
  doc_id :: ustr
  doc_kind :: ustr
  doc_title :: ustr
  doc_summary :: ustr
  doc_as_of :: ustr
  doc_path :: ustr
  doc_entities :: "ustr list"
  doc_aliases :: "ustr list"
  doc_tags :: "ustr list"
  doc_see_also :: "ustr list"
  doc_source :: "ustr option"
  doc_period :: "ustr option"
  doc_status :: "ustr option"
  doc_revoked_by :: "ustr option"
  doc_relationships :: "relationship list"
  doc_content :: ustr
  doc_body :: ustr
  doc_read_error :: "ustr option"
  doc_declared_fields :: "ustr set"
  doc_duplicate_fields :: "ustr set"

record sect =
  sec_heading :: ustr
  sec_heading_path :: "ustr list"
  sec_text :: ustr

record issue =
  issue_path :: ustr
  issue_field :: ustr
  issue_message :: ustr

definition relationship_types :: "ustr list" where
  "relationship_types = [lit ''uses'', lit ''supports'', lit ''contradicts'', lit ''updates'']"

subsection \<open>Sections of a body\<close>

text \<open>
  The local variables of \<^theory_text>\<open>split_sections\<close>. The stack of open headings is kept
  with its top at the end, as the code's vector is.
\<close>

record sec_state =
  ss_out :: "sect list"
  ss_stack :: "(nat \<times> ustr) list"
  ss_heading :: ustr
  ss_path :: "ustr list"
  ss_buf :: "ustr list"

definition flush :: "sec_state \<Rightarrow> sec_state" where
  "flush st =
     (let txt = trim (join [10] (ss_buf st)) in
      st\<lparr>ss_out := (if txt \<noteq> [] \<or> ss_heading st \<noteq> [] \<or> ss_out st = []
                    then ss_out st @ [\<lparr>sec_heading = ss_heading st,
                           sec_heading_path = ss_path st, sec_text = txt\<rparr>]
                    else ss_out st),
         ss_buf := []\<rparr>)"

definition count_hashes :: "ustr \<Rightarrow> nat" where
  "count_hashes line = length (takeWhile (\<lambda>c. c = ch (CHR ''#'')) line)"

definition is_heading :: "ustr \<Rightarrow> bool" where
  "is_heading line \<longleftrightarrow>
     0 < count_hashes line \<and> (\<exists>rest. drop (count_hashes line) line = 32 # rest)"

lemma is_heading_code [code]:
  "is_heading line \<longleftrightarrow>
     0 < count_hashes line \<and>
     (case drop (count_hashes line) line of [] \<Rightarrow> False | c # _ \<Rightarrow> c = 32)"
  by (auto simp: is_heading_def split: list.splits)

definition pop_levels :: "nat \<Rightarrow> (nat \<times> ustr) list \<Rightarrow> (nat \<times> ustr) list" where
  "pop_levels hashes stack = rev (dropWhile (\<lambda>e. fst e \<ge> hashes) (rev stack))"

definition section_line :: "sec_state \<Rightarrow> ustr \<Rightarrow> sec_state" where
  "section_line st line =
     (if is_heading line then
        let hashes = count_hashes line;
            st = flush st;
            name = trim (drop (hashes + 1) line);
            stack = pop_levels hashes (ss_stack st) @ [(hashes, name)]
        in st\<lparr>ss_stack := stack, ss_heading := name, ss_path := map snd stack\<rparr>
      else st\<lparr>ss_buf := ss_buf st @ [line]\<rparr>)"

definition split_sections :: "ustr \<Rightarrow> sect list" where
  "split_sections body =
     (let st = fold (\<lambda>line st. section_line st line) (lines body)
                 \<lparr>ss_out = [], ss_stack = [], ss_heading = [], ss_path = [], ss_buf = []\<rparr>
      in filter (\<lambda>s. sec_text s \<noteq> [] \<or> sec_heading s \<noteq> []) (ss_out (flush st)))"

subsection \<open>What the split returns\<close>

text \<open>
  A reference reading of a body: the lines before the first heading, then each heading with its
  lines; a heading is open at a later one when every heading since is deeper.
\<close>

definition heading_of :: "ustr \<Rightarrow> nat \<times> ustr" where
  "heading_of line = (count_hashes line, trim (drop (count_hashes line + 1) line))"

fun chapters :: "ustr list \<Rightarrow> ustr list \<times> ((nat \<times> ustr) \<times> ustr list) list" where
  "chapters [] = ([], [])"
| "chapters (l # ls) =
     (case chapters ls of (pre, cs) \<Rightarrow>
        if is_heading l then ([], (heading_of l, pre) # cs) else (l # pre, cs))"

fun open_headings :: "(nat \<times> ustr) list \<Rightarrow> (nat \<times> ustr) list" where
  "open_headings [] = []"
| "open_headings (h # hs) =
     (if list_all (\<lambda>k. fst h < fst k) hs then h # open_headings hs else open_headings hs)"

definition chapter_section :: "(nat \<times> ustr) list \<Rightarrow> ustr list \<Rightarrow> sect" where
  "chapter_section hs ls =
     \<lparr>sec_heading = (if hs = [] then [] else snd (last hs)),
      sec_heading_path = map snd (open_headings hs), sec_text = trim (join [10] ls)\<rparr>"

fun chapter_sections :: "(nat \<times> ustr) list \<Rightarrow> ((nat \<times> ustr) \<times> ustr list) list \<Rightarrow> sect list" where
  "chapter_sections hs [] = []"
| "chapter_sections hs ((h, ls) # cs) =
     chapter_section (hs @ [h]) ls # chapter_sections (hs @ [h]) cs"

definition nonempty_section :: "sect \<Rightarrow> bool" where
  "nonempty_section s \<longleftrightarrow> sec_text s \<noteq> [] \<or> sec_heading s \<noteq> []"

lemma chapters_lines:
  "chapters ls = (pre, cs) \<Longrightarrow>
     length ls = length pre + sum_list (map (\<lambda>c. Suc (length (snd c))) cs)"
  by (induction ls arbitrary: pre cs) (auto split: prod.splits if_splits)

lemma set_open_headings: "set (open_headings hs) \<subseteq> set hs"
  by (induction hs) auto

lemma open_headings_snoc:
  "open_headings (hs @ [h]) = filter (\<lambda>k. fst k < fst h) (open_headings hs) @ [h]"
  by (induction hs) auto

lemma sorted_open_headings: "sorted_wrt (\<lambda>a b. fst a < fst b) (open_headings hs)"
proof (induction hs)
  case (Cons h hs)
  then show ?case
    using set_open_headings [of hs] by (auto simp: list_all_iff)
qed simp

lemma pop_levels_sorted:
  "sorted_wrt (\<lambda>a b. fst a < fst b) stack \<Longrightarrow>
     pop_levels n stack = filter (\<lambda>k. fst k < n) stack"
proof (induction stack rule: rev_induct)
  case (snoc x xs)
  show ?case
  proof (cases "n \<le> fst x")
    case True
    then show ?thesis
      using snoc by (simp add: pop_levels_def sorted_wrt_append)
  next
    case False
    then have "filter (\<lambda>k. fst k < n) xs = xs"
      using snoc.prems by (auto simp: sorted_wrt_append filter_id_conv)
    with False show ?thesis
      by (simp add: pop_levels_def)
  qed
qed (simp add: pop_levels_def)

definition sec_at :: "(nat \<times> ustr) list \<Rightarrow> sec_state \<Rightarrow> bool" where
  "sec_at hs st \<longleftrightarrow>
     ss_stack st = open_headings hs \<and> ss_path st = map snd (open_headings hs) \<and>
     ss_heading st = (if hs = [] then [] else snd (last hs))"

lemma filter_flush:
  "sec_at hs st \<Longrightarrow>
     filter nonempty_section (ss_out (flush st)) =
     filter nonempty_section (ss_out st) @
     filter nonempty_section [chapter_section hs (ss_buf st)]"
  by (auto simp: flush_def Let_def chapter_section_def nonempty_section_def sec_at_def)

lemma flush_simps [simp]:
  "ss_buf (flush st) = []" "ss_stack (flush st) = ss_stack st"
  "ss_heading (flush st) = ss_heading st" "ss_path (flush st) = ss_path st"
  by (simp_all add: flush_def Let_def)

lemma section_line_heading:
  assumes "is_heading l" and "sec_at hs st"
  shows "sec_at (hs @ [heading_of l]) (section_line st l)"
    and "ss_out (section_line st l) = ss_out (flush st)" and "ss_buf (section_line st l) = []"
  using assms sorted_open_headings [of hs]
  by (simp_all add: section_line_def sec_at_def Let_def heading_of_def open_headings_snoc
      pop_levels_sorted)

lemma section_lines:
  assumes "sec_at hs st" and "chapters ls = (pre, cs)"
  shows "filter nonempty_section (ss_out (flush (fold (\<lambda>l st. section_line st l) ls st))) =
    filter nonempty_section (ss_out st) @
    filter nonempty_section (chapter_section hs (ss_buf st @ pre) # chapter_sections hs cs)"
  using assms
proof (induction ls arbitrary: hs st pre cs)
  case Nil
  then show ?case by (auto simp: filter_flush)
next
  case (Cons l ls)
  obtain pre' cs' where p: "chapters ls = (pre', cs')" by (cases "chapters ls")
  show ?case
  proof (cases "is_heading l")
    case True
    with Cons.prems p have "pre = []" "cs = (heading_of l, pre') # cs'" by auto
    then show ?thesis
      using Cons.IH [OF section_line_heading(1) [OF True Cons.prems(1)] p]
        section_line_heading [OF True Cons.prems(1)] filter_flush [OF Cons.prems(1)]
      by simp
  next
    case False
    with Cons.prems p have [simp]: "pre = l # pre'" "cs = cs'" by auto
    have st: "section_line st l = st\<lparr>ss_buf := ss_buf st @ [l]\<rparr>"
      using False by (simp add: section_line_def)
    have "sec_at hs (st\<lparr>ss_buf := ss_buf st @ [l]\<rparr>)"
      using Cons.prems(1) by (simp add: sec_at_def)
    from Cons.IH [OF this p] show ?thesis by (simp add: st)
  qed
qed

lemma split_sections_chapters:
  "split_sections body =
     (case chapters (lines body) of (pre, cs) \<Rightarrow>
        filter nonempty_section (chapter_section [] pre # chapter_sections [] cs))"
proof -
  obtain pre cs where p: "chapters (lines body) = (pre, cs)" by (cases "chapters (lines body)")
  have "sec_at [] \<lparr>ss_out = [], ss_stack = [], ss_heading = [], ss_path = [], ss_buf = []\<rparr>"
    by (simp add: sec_at_def)
  from section_lines [OF this p] show ?thesis
    by (simp add: split_sections_def Let_def p nonempty_section_def [abs_def])
qed

lemma chapter_sections_path:
  "s \<in> set (chapter_sections hs cs) \<Longrightarrow>
     sec_heading_path s \<noteq> [] \<and> last (sec_heading_path s) = sec_heading s \<and> trimmed (sec_text s)"
  by (induction hs cs rule: chapter_sections.induct)
    (auto simp: chapter_section_def open_headings_snoc)

lemma split_sections_shape:
  assumes "s \<in> set (split_sections body)"
  shows "sec_heading_path s = [] \<and> sec_heading s = [] \<or>
    sec_heading_path s \<noteq> [] \<and> last (sec_heading_path s) = sec_heading s"
    and "trimmed (sec_text s)" and "nonempty_section s"
proof -
  obtain pre cs where p: "chapters (lines body) = (pre, cs)" by (cases "chapters (lines body)")
  have s: "s = chapter_section [] pre \<or> s \<in> set (chapter_sections [] cs)" "nonempty_section s"
    using assms by (auto simp: split_sections_chapters p split: if_splits)
  then show "sec_heading_path s = [] \<and> sec_heading s = [] \<or>
    sec_heading_path s \<noteq> [] \<and> last (sec_heading_path s) = sec_heading s"
    and "trimmed (sec_text s)" and "nonempty_section s"
    using chapter_sections_path [of s "[]" cs] by (auto simp: chapter_section_def)
qed

subsection \<open>Documents from files\<close>

text \<open>
  A record's path: its collection and the components below the collection's directory, so
  \<^theory_text>\<open>infer_kind\<close>, which panics outside the collections, is total here.
\<close>

type_synonym mem_path = "memory_kind \<times> ustr list"

definition infer_kind :: "mem_path \<Rightarrow> ustr" where
  "infer_kind path = slug (fst path)"

definition display_path :: "mem_path \<Rightarrow> ustr" where
  "display_path path =
     replace_char 92 47 (join (lit ''/'') (lit ''guruterminal'' # slug (fst path) # snd path))"

definition scalar_of :: "frontmatter \<Rightarrow> string \<Rightarrow> ustr" where
  "scalar_of m k = (case bt_get (fm_scalar m) (lit k) of None \<Rightarrow> [] | Some v \<Rightarrow> v)"

definition list_of :: "frontmatter \<Rightarrow> ustr \<Rightarrow> ustr list" where
  "list_of m k = (case bt_get (fm_lists m) k of None \<Rightarrow> [] | Some vs \<Rightarrow> vs)"

definition document_from_content :: "mem_path \<Rightarrow> ustr \<Rightarrow> document" where
  "document_from_content path content =
     (let parsed = parse_frontmatter content;
          m = metadata parsed in
      \<lparr>doc_id = scalar_of m ''id'',
       doc_kind = infer_kind path,
       doc_title = scalar_of m ''title'',
       doc_summary = scalar_of m ''summary'',
       doc_as_of = scalar_of m ''as_of'',
       doc_path = display_path path,
       doc_entities = list_of m (lit ''entities''),
       doc_aliases = list_of m (lit ''aliases''),
       doc_tags = list_of m (lit ''tags''),
       doc_see_also = list_of m (lit ''see_also''),
       doc_source = bt_get (fm_scalar m) (lit ''source''),
       doc_period = bt_get (fm_scalar m) (lit ''period''),
       doc_status = bt_get (fm_scalar m) (lit ''status''),
       doc_revoked_by = bt_get (fm_scalar m) (lit ''revoked_by''),
       doc_relationships =
         concat (map (\<lambda>kind. map (\<lambda>target. \<lparr>rel_kind = kind, rel_target = target\<rparr>) (list_of m kind))
           relationship_types),
       doc_content = content,
       doc_body = pf_body parsed,
       doc_read_error = pf_error parsed,
       doc_declared_fields = declared_fields m,
       doc_duplicate_fields = duplicate_fields m\<rparr>)"

definition unreadable_document :: "mem_path \<Rightarrow> ustr \<Rightarrow> document" where
  "unreadable_document path message =
     \<lparr>doc_id = [], doc_kind = infer_kind path, doc_title = [], doc_summary = [], doc_as_of = [],
      doc_path = display_path path, doc_entities = [], doc_aliases = [], doc_tags = [],
      doc_see_also = [], doc_source = None, doc_period = None, doc_status = None,
      doc_revoked_by = None, doc_relationships = [], doc_content = [], doc_body = [],
      doc_read_error = Some (lit ''cannot read Markdown: '' @ message),
      doc_declared_fields = {}, doc_duplicate_fields = {}\<rparr>"

subsection \<open>Validation\<close>

definition canonical_id_matches_kind :: "ustr \<Rightarrow> ustr \<Rightarrow> bool" where
  "canonical_id_matches_kind i expected_kind =
     (case parse_record_id i of None \<Rightarrow> False | Some (kind, _) \<Rightarrow> slug kind = expected_kind)"

definition canonical_id_kind :: "ustr \<Rightarrow> ustr option" where
  "canonical_id_kind i =
     (case split_once (ch (CHR '':'')) i of
        None \<Rightarrow> None
      | Some (kind, _) \<Rightarrow> if canonical_id_matches_kind i kind then Some kind else None)"

definition issue_of :: "document \<Rightarrow> ustr \<Rightarrow> ustr \<Rightarrow> issue" where
  "issue_of doc field message =
     \<lparr>issue_path = doc_path doc, issue_field = field, issue_message = message\<rparr>"

definition relationship_field_allowed :: "ustr \<Rightarrow> ustr \<Rightarrow> bool" where
  "relationship_field_allowed source relationship =
     (if source = lit ''evidence'' then
        relationship \<in> {lit ''updates'', lit ''contradicts''}
      else if source = lit ''decision'' then
        relationship \<in> {lit ''uses'', lit ''supports'', lit ''updates'', lit ''contradicts''}
      else False)"

definition relationship_target_allowed :: "ustr \<Rightarrow> ustr \<Rightarrow> ustr \<Rightarrow> bool" where
  "relationship_target_allowed source relationship target =
     (if source = lit ''evidence'' \<and> relationship \<in> {lit ''updates'', lit ''contradicts''}
      then target = lit ''evidence''
      else if source = lit ''decision'' \<and> relationship = lit ''uses''
      then target \<in> {lit ''wiki'', lit ''lens''}
      else if source = lit ''decision'' \<and> relationship = lit ''supports''
      then target = lit ''evidence''
      else if source = lit ''decision'' \<and> relationship \<in> {lit ''updates'', lit ''contradicts''}
      then target = lit ''decision''
      else False)"

definition when_issue :: "bool \<Rightarrow> issue \<Rightarrow> issue list" where
  "when_issue b i = (if b then [i] else [])"

lemma when_issue_Nil [simp]: "when_issue b i = [] \<longleftrightarrow> \<not> b"
  by (simp add: when_issue_def)

definition blank :: "ustr \<Rightarrow> bool" where
  "blank s \<longleftrightarrow> trim s = []"

definition opt_is :: "('a \<Rightarrow> bool) \<Rightarrow> 'a option \<Rightarrow> bool" where
  "opt_is p v = (case v of None \<Rightarrow> False | Some x \<Rightarrow> p x)"

definition opt_none_or :: "('a \<Rightarrow> bool) \<Rightarrow> 'a option \<Rightarrow> bool" where
  "opt_none_or p v = (case v of None \<Rightarrow> True | Some x \<Rightarrow> p x)"

lemma opt_is_simps [simp]:
  "\<not> opt_is p None" "opt_is p (Some x) \<longleftrightarrow> p x"
  "opt_none_or p None" "opt_none_or p (Some x) \<longleftrightarrow> p x"
  by (simp_all add: opt_is_def opt_none_or_def)

definition has_sources_section :: "document \<Rightarrow> bool" where
  "has_sources_section doc \<longleftrightarrow>
     list_ex (\<lambda>s. eq_ignore_ascii_case (sec_heading s) (lit ''Sources'') \<and> \<not> blank (sec_text s))
       (split_sections (doc_body doc))"

definition evidence_issues :: "document \<Rightarrow> issue list" where
  "evidence_issues doc =
     (if doc_kind doc = lit ''evidence'' then
        when_issue (opt_is blank (doc_source doc))
          (issue_of doc (lit ''source'')
             (lit ''evidence source must be a non-empty locator when declared'')) @
        when_issue (blank (doc_body doc))
          (issue_of doc (lit ''body'') (lit ''Evidence requires a non-empty body'')) @
        when_issue (\<not> opt_is (\<lambda>s. \<not> blank s) (doc_source doc) \<and> \<not> has_sources_section doc)
          (issue_of doc (lit ''body'')
             (lit ''Evidence requires a non-empty source or # Sources section''))
      else [])"

definition status_issues :: "document \<Rightarrow> issue list" where
  "status_issues doc =
     when_issue ((lit ''status'' \<in> doc_declared_fields doc \<or>
                  lit ''revoked_by'' \<in> doc_declared_fields doc) \<and>
                 doc_kind doc \<notin> {lit ''wiki'', lit ''lens''})
       (issue_of doc (lit ''status'')
          (lit ''status and revoked_by are permitted only for Wiki and Lens'')) @
     (case doc_status doc of
        Some status \<Rightarrow>
          when_issue (status \<notin> {lit ''active'', lit ''revoked''})
            (issue_of doc (lit ''status'') (lit ''must be active or revoked'')) @
          when_issue (status = lit ''revoked'' \<and> opt_none_or blank (doc_revoked_by doc))
            (issue_of doc (lit ''revoked_by'') (lit ''revoked Wiki or Lens requires revoked_by'')) @
          when_issue (status \<noteq> lit ''revoked'' \<and> opt_is (\<lambda>v. v \<noteq> []) (doc_revoked_by doc))
            (issue_of doc (lit ''revoked_by'')
               (lit ''revoked_by is permitted only when status is revoked''))
      | None \<Rightarrow>
          when_issue (opt_is (\<lambda>v. v \<noteq> []) (doc_revoked_by doc))
            (issue_of doc (lit ''revoked_by'')
               (lit ''revoked_by is permitted only when status is revoked''))) @
     (case doc_revoked_by doc of
        Some revoked_by \<Rightarrow>
          when_issue (\<not> blank revoked_by \<and> canonical_id_kind revoked_by = None)
            (issue_of doc (lit ''revoked_by'') (lit ''must use a canonical Memory record ID''))
      | None \<Rightarrow> [])"

fun see_also_issues :: "document \<Rightarrow> ustr list \<Rightarrow> ustr list \<Rightarrow> issue list" where
  "see_also_issues doc seen [] = []"
| "see_also_issues doc seen (target # targets) =
     when_issue (target = doc_id doc)
       (issue_of doc (lit ''see_also'') (lit ''must not reference itself'')) @
     when_issue (\<not> starts_with target (lit ''wiki:''))
       (issue_of doc (lit ''see_also'') (lit ''target must use a wiki: ID: '' @ target)) @
     when_issue (target \<in> set seen)
       (issue_of doc (lit ''see_also'') (lit ''duplicate target: '' @ target)) @
     see_also_issues doc (target # seen) targets"

definition validate_document :: "'v platform \<Rightarrow> document \<Rightarrow> issue list" where
  "validate_document P doc =
     (case doc_read_error doc of
        Some e \<Rightarrow> [issue_of doc (lit ''frontmatter'') e] | None \<Rightarrow> []) @
     map (\<lambda>field. issue_of doc field (lit ''frontmatter field must be declared only once''))
       (sorted_list_of_set (doc_duplicate_fields doc)) @
     concat (map (\<lambda>fv. when_issue (blank (snd fv)) (issue_of doc (fst fv) (lit ''is required'')))
       [(lit ''id'', doc_id doc), (lit ''title'', doc_title doc),
        (lit ''summary'', doc_summary doc), (lit ''as_of'', doc_as_of doc)]) @
     when_issue (doc_id doc \<noteq> [] \<and> \<not> canonical_id_matches_kind (doc_id doc) (doc_kind doc))
       (issue_of doc (lit ''id'')
          (lit ''must use a canonical '' @ doc_kind doc @ lit '': ID matching its collection'')) @
     when_issue (doc_as_of doc \<noteq> [] \<and> \<not> is_rfc3339_seconds P (doc_as_of doc))
       (issue_of doc (lit ''as_of'') (lit ''must be RFC3339 with seconds and timezone'')) @
     evidence_issues doc @
     when_issue (lit ''see_also'' \<in> doc_declared_fields doc \<and> doc_kind doc \<noteq> lit ''wiki'')
       (issue_of doc (lit ''see_also'') (lit ''see_also is permitted only for Wiki memory'')) @
     status_issues doc @
     see_also_issues doc [] (doc_see_also doc) @
     concat (map (\<lambda>r. when_issue
         (r \<in> doc_declared_fields doc \<and> \<not> relationship_field_allowed (doc_kind doc) r)
         (issue_of doc r (lit ''relationship is not permitted for this memory kind'')))
       relationship_types)"

definition document_is_valid :: "'v platform \<Rightarrow> document \<Rightarrow> bool" where
  "document_is_valid P doc \<longleftrightarrow> validate_document P doc = []"

subsection \<open>What a valid document is\<close>

definition valid_header :: "'v platform \<Rightarrow> document \<Rightarrow> bool" where
  "valid_header P doc \<longleftrightarrow>
     doc_read_error doc = None \<and> doc_duplicate_fields doc = {} \<and>
     \<not> blank (doc_title doc) \<and> \<not> blank (doc_summary doc) \<and>
     is_rfc3339_seconds P (doc_as_of doc) \<and> \<not> blank (doc_as_of doc) \<and>
     (\<exists>k suffix. parse_record_id (doc_id doc) = Some (k, suffix) \<and> slug k = doc_kind doc)"

definition valid_evidence :: "document \<Rightarrow> bool" where
  "valid_evidence doc \<longleftrightarrow>
     \<not> blank (doc_body doc) \<and>
     (case doc_source doc of None \<Rightarrow> has_sources_section doc | Some s \<Rightarrow> \<not> blank s)"

definition valid_status :: "document \<Rightarrow> bool" where
  "valid_status doc \<longleftrightarrow>
     (doc_kind doc \<notin> {lit ''wiki'', lit ''lens''} \<longrightarrow>
        doc_declared_fields doc \<inter> {lit ''status'', lit ''revoked_by''} = {}) \<and>
     (if doc_status doc = Some (lit ''revoked'')
      then \<exists>by. doc_revoked_by doc = Some by \<and> \<not> blank by \<and> canonical_id_kind by \<noteq> None
      else (doc_status doc = None \<or> doc_status doc = Some (lit ''active'')) \<and>
           (doc_revoked_by doc = None \<or> doc_revoked_by doc = Some []))"

definition valid_links :: "document \<Rightarrow> bool" where
  "valid_links doc \<longleftrightarrow>
     (doc_kind doc \<noteq> lit ''wiki'' \<longrightarrow> lit ''see_also'' \<notin> doc_declared_fields doc) \<and>
     distinct (doc_see_also doc) \<and> doc_id doc \<notin> set (doc_see_also doc) \<and>
     (\<forall>t\<in>set (doc_see_also doc). starts_with t (lit ''wiki:'')) \<and>
     (\<forall>r\<in>set relationship_types. r \<in> doc_declared_fields doc \<longrightarrow>
        relationship_field_allowed (doc_kind doc) r)"

lemma see_also_issues_Nil:
  "see_also_issues doc seen targets = [] \<longleftrightarrow>
     distinct targets \<and> set targets \<inter> set seen = {} \<and> doc_id doc \<notin> set targets \<and>
     (\<forall>t\<in>set targets. starts_with t (lit ''wiki:''))"
  by (induction doc seen targets rule: see_also_issues.induct) auto

lemma evidence_issues_Nil:
  "evidence_issues doc = [] \<longleftrightarrow> (doc_kind doc = lit ''evidence'' \<longrightarrow> valid_evidence doc)"
  by (auto simp: evidence_issues_def valid_evidence_def split: option.splits)

lemma blank_Nil [simp]: "blank []"
  by (simp add: blank_def)

lemma status_issues_Nil: "status_issues doc = [] \<longleftrightarrow> valid_status doc"
  by (cases "doc_status doc"; cases "doc_revoked_by doc")
    (auto simp: status_issues_def valid_status_def)

lemma parse_record_id_Nil [simp]: "parse_record_id [] = None"
  by (simp add: parse_record_id_def)

lemma canonical_id_matches_kind_iff:
  "canonical_id_matches_kind i kind \<longleftrightarrow>
     (\<exists>k suffix. parse_record_id i = Some (k, suffix) \<and> slug k = kind)"
  by (auto simp: canonical_id_matches_kind_def split: option.splits)

lemma canonical_not_blank: "parse_record_id i = Some (k, suffix) \<Longrightarrow> \<not> blank i"
proof
  assume p: "parse_record_id i = Some (k, suffix)" and "blank i"
  then have "\<forall>c\<in>set i. is_whitespace c" by (simp add: blank_def trim_eq_Nil)
  moreover have "i = slug k @ 58 # suffix" using p by (simp add: parse_record_id_iff lit_def)
  ultimately have "is_whitespace (hd (slug k))"
    by (metis Un_iff list.set_sel(1) set_append slug_not_Nil)
  then show False by (cases k) (simp_all add: is_whitespace_def lit_def)
qed

lemma document_valid_iff:
  assumes "finite (doc_duplicate_fields doc)"
  shows "document_is_valid P doc \<longleftrightarrow>
    valid_header P doc \<and> (doc_kind doc = lit ''evidence'' \<longrightarrow> valid_evidence doc) \<and>
    valid_status doc \<and> valid_links doc"
proof -
  have header: "((case doc_read_error doc of
          Some e \<Rightarrow> [issue_of doc (lit ''frontmatter'') e] | None \<Rightarrow> []) = [] \<and>
      doc_duplicate_fields doc = {} \<and>
      (\<not> blank (doc_id doc) \<and> \<not> blank (doc_title doc) \<and> \<not> blank (doc_summary doc) \<and>
       \<not> blank (doc_as_of doc)) \<and>
      \<not> (doc_id doc \<noteq> [] \<and> \<not> canonical_id_matches_kind (doc_id doc) (doc_kind doc)) \<and>
      \<not> (doc_as_of doc \<noteq> [] \<and> \<not> is_rfc3339_seconds P (doc_as_of doc))) \<longleftrightarrow> valid_header P doc"
    unfolding valid_header_def canonical_id_matches_kind_iff
    using canonical_not_blank [of "doc_id doc"] by (auto split: option.splits)
  have links: "(\<not> (lit ''see_also'' \<in> doc_declared_fields doc \<and> doc_kind doc \<noteq> lit ''wiki'') \<and>
      see_also_issues doc [] (doc_see_also doc) = [] \<and>
      (\<forall>r\<in>set relationship_types.
        \<not> (r \<in> doc_declared_fields doc \<and> \<not> relationship_field_allowed (doc_kind doc) r))) \<longleftrightarrow>
      valid_links doc"
    by (auto simp: valid_links_def see_also_issues_Nil)
  show ?thesis
    unfolding document_is_valid_def validate_document_def append_is_Nil_conv
      header [symmetric] links [symmetric] evidence_issues_Nil [symmetric]
      status_issues_Nil [symmetric]
    using assms by (simp add: conj_ac)
qed

lemma finite_duplicates:
  "finite (doc_duplicate_fields (document_from_content path content))"
proof -
  have "duplicate_fields (metadata (parse_frontmatter content)) \<subseteq> set scalar_fields \<union> set list_fields"
    using fm_inv_parse [of content] unfolding fm_inv_def by blast
  then show ?thesis
    by (simp add: document_from_content_def Let_def finite_subset)
qed

lemma unreadable_not_valid [simp]: "\<not> document_is_valid P (unreadable_document path message)"
  by (simp add: document_is_valid_def validate_document_def unreadable_document_def)

lemma document_from_content_kind [simp]:
  "doc_kind (document_from_content path content) = slug (fst path)"
  by (simp add: document_from_content_def Let_def infer_kind_def)

lemma document_from_content_path [simp]:
  "doc_path (document_from_content path content) = display_path path"
  by (simp add: document_from_content_def Let_def)

subsection \<open>Properties\<close>

text \<open>
  C7: A file's record is valid exactly when its frontmatter is well formed with the required
  fields, a date and a canonical identifier of its collection's kind; Evidence has a body and a
  source; status and revocation fit together and are used by Wiki and Lens only; and its links
  are of the allowed kinds, without repetition and not to itself.
\<close>

theorem record_valid_iff:
  "document_is_valid P (document_from_content path content) \<longleftrightarrow>
     (let doc = document_from_content path content in
      valid_header P doc \<and> (if fst path = Evidence then valid_evidence doc else True) \<and>
      valid_status doc \<and> valid_links doc)"
proof -
  have "slug (fst path) = lit ''evidence'' \<longleftrightarrow> fst path = Evidence"
    by (cases "fst path") simp_all
  then show ?thesis
    by (simp add: Let_def document_valid_iff [OF finite_duplicates])
qed

text \<open>The sections of a body are the lines before the first heading and each heading with the
  lines up to the next one, without the empty ones; the heading path of a section is the chain of
  open headings, those that no later heading of the same or a smaller level has closed.
\<close>

lemma sections_of_body:
  "split_sections body =
     (case chapters (lines body) of (pre, cs) \<Rightarrow>
        filter nonempty_section (chapter_section [] pre # chapter_sections [] cs))"
  by (rule split_sections_chapters)

end
