(* ===== verification/Search_Text.thy ===== *)
theory Search_Text
  imports Document_Model
begin

text \<open>
  Text matching (src/knowledge/search.rs): normalisation, the numbers, identifiers and words
  a text is searched by, phrases, and the score of one field. Regular expressions are written
  out as scanners over the platform's character classes; \<^theory_text>\<open>i32\<close> values are integers
  with the wrap-around of the machine operation written out.
\<close>

subsection \<open>Normalisation and scanners\<close>

definition map_search_char :: "nat \<Rightarrow> nat" where
  "map_search_char c =
     (if c \<in> {0x2212, 0xFE63, 0xFF0D} then 45
      else if c \<in> {0xFE62, 0xFF0B} then 43
      else if c = 0xFF05 then 37
      else c)"

definition normalize_search_text :: "'v platform \<Rightarrow> ustr \<Rightarrow> ustr" where
  "normalize_search_text P v = concat (map (\<lambda>c. to_lowercase P (map_search_char c)) v)"

text \<open>The leftmost maximal runs of a class: \<^theory_text>\<open>find_iter\<close> of \<^verbatim>\<open>[class]+\<close>.\<close>

function runs :: "(nat \<Rightarrow> bool) \<Rightarrow> ustr \<Rightarrow> ustr list" where
  "runs p [] = []"
| "runs p (c # s) =
     (if p c then (c # takeWhile p s) # runs p (dropWhile p s) else runs p s)"
  by pat_completeness auto
termination
  by (relation "measure (length \<circ> snd)") (auto simp: le_imp_less_Suc length_dropWhile_le)

definition identifier_char :: "'v platform \<Rightarrow> nat \<Rightarrow> bool" where
  "identifier_char P c \<longleftrightarrow> word_char P c \<or> c \<in> set (lit '':./+@#-'')"

definition is_spacing_insensitive_script :: "nat \<Rightarrow> bool" where
  "is_spacing_insensitive_script c \<longleftrightarrow>
     0x1100 \<le> c \<and> c \<le> 0x11ff \<or> 0x3040 \<le> c \<and> c \<le> 0x30ff \<or> 0x3130 \<le> c \<and> c \<le> 0x318f \<or>
     0x31f0 \<le> c \<and> c \<le> 0x31ff \<or> 0x3400 \<le> c \<and> c \<le> 0x4dbf \<or> 0x4e00 \<le> c \<and> c \<le> 0x9fff \<or>
     0xa960 \<le> c \<and> c \<le> 0xa97f \<or> 0xac00 \<le> c \<and> c \<le> 0xd7af \<or> 0xd7b0 \<le> c \<and> c \<le> 0xd7ff \<or>
     0xf900 \<le> c \<and> c \<le> 0xfaff \<or> 0xff65 \<le> c \<and> c \<le> 0xff9f \<or> 0x20000 \<le> c \<and> c \<le> 0x323af"

subsection \<open>Numbers that must match exactly\<close>

text \<open>
  The group of \<^verbatim>\<open>(?:^|[^\w])([+-]?\d+(?:\.\d+)?(?:/\d+(?:\.\d+)?)?%?)\<close>: each part
  returns what it matched and the rest. After the digits every part is optional, so no
  backtracking is needed.
\<close>

definition opt_sign :: "ustr \<Rightarrow> ustr \<times> ustr" where
  "opt_sign s = (case s of [] \<Rightarrow> ([], []) | c # r \<Rightarrow> if c \<in> {43, 45} then ([c], r) else ([], s))"

definition opt_group :: "nat \<Rightarrow> (ustr \<Rightarrow> (ustr \<times> ustr) option) \<Rightarrow> ustr \<Rightarrow> ustr \<times> ustr" where
  "opt_group k inner s =
     (case s of
        [] \<Rightarrow> ([], [])
      | c # r \<Rightarrow>
          if c = k then (case inner r of None \<Rightarrow> ([], s) | Some (m, r') \<Rightarrow> (c # m, r'))
          else ([], s))"

definition digits :: "'v platform \<Rightarrow> ustr \<Rightarrow> (ustr \<times> ustr) option" where
  "digits P s =
     (let d = takeWhile (digit_char P) s in
      if d = [] then None else Some (d, dropWhile (digit_char P) s))"

definition decimal :: "'v platform \<Rightarrow> ustr \<Rightarrow> (ustr \<times> ustr) option" where
  "decimal P s =
     (case digits P s of
        None \<Rightarrow> None
      | Some (d, r) \<Rightarrow> (case opt_group 46 (digits P) r of (f, r') \<Rightarrow> Some (d @ f, r')))"

definition opt_percent :: "ustr \<Rightarrow> ustr \<times> ustr" where
  "opt_percent s = (case s of [] \<Rightarrow> ([], []) | c # r \<Rightarrow> if c = 37 then ([c], r) else ([], s))"

definition number_at :: "'v platform \<Rightarrow> ustr \<Rightarrow> (ustr \<times> ustr) option" where
  "number_at P s =
     (case opt_sign s of (sign, r) \<Rightarrow>
      case decimal P r of
        None \<Rightarrow> None
      | Some (d, r) \<Rightarrow>
          (case opt_group 47 (decimal P) r of (q, r) \<Rightarrow>
           case opt_percent r of (pc, r) \<Rightarrow> Some (sign @ d @ q @ pc, r)))"

lemma opt_sign_parts: "fst (opt_sign s) @ snd (opt_sign s) = s"
  by (simp add: opt_sign_def split: list.splits)

lemma digits_parts: "digits P s = Some (d, r) \<Longrightarrow> s = d @ r \<and> d \<noteq> []"
  by (auto simp: digits_def Let_def split: if_splits)

lemma opt_group_parts:
  "(\<And>m r' t. inner t = Some (m, r') \<Longrightarrow> t = m @ r') \<Longrightarrow>
   fst (opt_group k inner s) @ snd (opt_group k inner s) = s"
  by (simp add: opt_group_def split: list.splits option.splits)

lemma decimal_parts: "decimal P s = Some (d, r) \<Longrightarrow> s = d @ r \<and> d \<noteq> []"
proof -
  assume a: "decimal P s = Some (d, r)"
  then obtain d0 r0 where d0: "digits P s = Some (d0, r0)"
    by (auto simp: decimal_def split: option.splits)
  have "fst (opt_group 46 (digits P) r0) @ snd (opt_group 46 (digits P) r0) = r0"
    by (rule opt_group_parts) (simp add: digits_parts)
  with a d0 digits_parts [OF d0] show ?thesis
    by (auto simp: decimal_def split: prod.splits)
qed

lemma number_at_parts: "number_at P s = Some (m, r) \<Longrightarrow> s = m @ r \<and> m \<noteq> []"
proof -
  assume a: "number_at P s = Some (m, r)"
  obtain sign r0 where s: "opt_sign s = (sign, r0)" by (cases "opt_sign s")
  with a obtain d r1 where d: "decimal P r0 = Some (d, r1)"
    by (auto simp: number_at_def split: option.splits)
  obtain q r2 where q: "opt_group 47 (decimal P) r1 = (q, r2)"
    by (cases "opt_group 47 (decimal P) r1")
  obtain pc r3 where pc: "opt_percent r2 = (pc, r3)" by (cases "opt_percent r2")
  have "r1 = q @ r2"
    using opt_group_parts [of "decimal P" 47 r1] q decimal_parts by fastforce
  moreover have "r2 = pc @ r3"
    using pc by (auto simp: opt_percent_def split: list.splits if_splits)
  ultimately show ?thesis
    using a s d q pc decimal_parts [OF d] opt_sign_parts [of s] by (auto simp: number_at_def)
qed

text \<open>\<^theory_text>\<open>captures_iter\<close>: \<open>start\<close> is true at the beginning of the text only.\<close>

definition number_match :: "'v platform \<Rightarrow> bool \<Rightarrow> nat \<Rightarrow> ustr \<Rightarrow> (ustr \<times> ustr) option" where
  "number_match P start c s =
     (case (if start then number_at P (c # s) else None) of
        Some m \<Rightarrow> Some m
      | None \<Rightarrow> if word_char P c then None else number_at P s)"

lemma number_match_rest:
  "number_match P start c s = Some (m, r) \<Longrightarrow>
     m \<noteq> [] \<and> (c # s = m @ r \<or> \<not> word_char P c \<and> s = m @ r)"
  by (auto simp: number_match_def dest: number_at_parts split: option.splits if_splits)

lemma number_match_shorter: "number_match P start c s = Some (m, r) \<Longrightarrow> length r < Suc (length s)"
  using number_match_rest [of P start c s m r]
  by (auto simp: Cons_eq_append_conv)

function number_matches :: "'v platform \<Rightarrow> bool \<Rightarrow> ustr \<Rightarrow> ustr list" where
  "number_matches P start [] = []"
| "number_matches P start (c # s) =
     (case number_match P start c s of
        Some (m, r) \<Rightarrow> m # number_matches P False r
      | None \<Rightarrow> number_matches P False s)"
  by pat_completeness auto
termination
  by (relation "measure (\<lambda>(P, start, s). length s)") (auto dest: number_match_shorter)

definition sensitive_numbers :: "'v platform \<Rightarrow> ustr \<Rightarrow> ustr set" where
  "sensitive_numbers P normalized =
     set (filter (contains_any (lit ''+-./%'')) (number_matches P True normalized))"

subsection \<open>Tokens\<close>

definition english_stopwords :: "ustr list" where
  "english_stopwords = map lit
     [''a'', ''an'', ''the'', ''and'', ''or'', ''but'', ''if'', ''then'', ''than'', ''so'', ''of'',
      ''in'', ''on'', ''at'', ''to'', ''for'', ''from'', ''by'', ''with'', ''as'', ''into'',
      ''about'', ''over'', ''after'', ''before'', ''is'', ''are'', ''was'', ''were'', ''be'',
      ''been'', ''being'', ''am'', ''it'', ''its'', ''this'', ''that'', ''these'', ''those'', ''i'',
      ''we'', ''you'', ''they'', ''he'', ''she'', ''them'', ''my'', ''our'', ''your'', ''what'',
      ''which'', ''who'', ''whom'', ''whose'', ''when'', ''where'', ''why'', ''how'', ''should'',
      ''would'', ''could'', ''can'', ''will'', ''may'', ''might'', ''must'', ''do'', ''does'',
      ''did'', ''doing'', ''not'', ''no'', ''nor'', ''just'', ''also'', ''very'', ''more'', ''most'',
      ''such'']"

definition push_stem :: "ustr \<Rightarrow> ustr list" where
  "push_stem stem = (if 4 \<le> length stem \<and> stem \<notin> set english_stopwords then [stem] else [])"

definition english_token_variants :: "ustr \<Rightarrow> ustr list" where
  "english_token_variants token =
     (if length token < 5 \<or> token \<in> set english_stopwords then [token]
      else [token] @
        (case strip_suffix (lit ''ing'') token of
           Some stem \<Rightarrow> push_stem stem @ push_stem (stem @ lit ''e'') | None \<Rightarrow> []) @
        (case strip_suffix (lit ''ies'') token of
           Some stem \<Rightarrow> push_stem (stem @ lit ''y'') | None \<Rightarrow> []) @
        (case strip_suffix (lit ''es'') token of Some stem \<Rightarrow> push_stem stem | None \<Rightarrow> []) @
        (if \<not> ends_with token (lit ''ss'') then
           (case strip_suffix (lit ''s'') token of Some stem \<Rightarrow> push_stem stem | None \<Rightarrow> [])
         else []) @
        (case strip_suffix (lit ''ed'') token of
           Some stem \<Rightarrow> push_stem stem @ push_stem (stem @ lit ''e'') | None \<Rightarrow> []))"

definition identifier_tokens :: "'v platform \<Rightarrow> ustr \<Rightarrow> ustr set" where
  "identifier_tokens P v =
     (if v \<in> set english_stopwords then {} else {v}) \<union>
     (\<Union>component\<in>set (runs (word_char P) v).
        if component \<in> set english_stopwords then {} else set (english_token_variants component))"

definition search_tokens :: "'v platform \<Rightarrow> ustr \<Rightarrow> ustr set" where
  "search_tokens P normalized =
     (\<Union>v\<in>set (runs (identifier_char P) normalized). identifier_tokens P v)"

subsection \<open>Search texts and phrases\<close>

record search_text =
  normalized :: ustr
  compact :: ustr
  compact_eligible :: bool
  query_numbers :: "ustr set"
  tokens :: "ustr set"

definition search_text_new :: "'v platform \<Rightarrow> ustr \<Rightarrow> search_text" where
  "search_text_new P v =
     (let n = normalize_search_text P v in
      \<lparr>normalized = n,
       compact = filter (alphanumeric P) n,
       compact_eligible = list_ex is_spacing_insensitive_script n \<and>
         list_all (\<lambda>c. \<not> alphanumeric P c \<or> is_spacing_insensitive_script c) n,
       query_numbers = sensitive_numbers P n,
       tokens = search_tokens P n\<rparr>)"

definition semantic_eligible :: "search_text \<Rightarrow> bool" where
  "semantic_eligible q \<longleftrightarrow>
     \<not> compact_eligible q \<and> query_numbers q = {} \<and> trim (normalized q) \<noteq> []"

fun contains_str :: "ustr \<Rightarrow> ustr \<Rightarrow> bool" where
  "contains_str [] t \<longleftrightarrow> t = []"
| "contains_str (c # s) t \<longleftrightarrow> starts_with (c # s) t \<or> contains_str s t"

lemma contains_str_iff: "contains_str s t \<longleftrightarrow> (\<exists>a b. s = a @ t @ b)"
proof (induction s)
  case (Cons c s)
  have "(\<exists>a b. c # s = a @ t @ b) \<longleftrightarrow> (\<exists>b. c # s = t @ b) \<or> (\<exists>a b. s = a @ t @ b)"
    by (metis append_Cons append_Nil list.exhaust list.sel(3))
  with Cons show ?case by (simp add: starts_with_iff)
qed simp

text \<open>
  \<^theory_text>\<open>contains_bounded_phrase\<close> looks at the non-overlapping occurrences
  \<^theory_text>\<open>match_indices\<close> yields. \<open>prev\<close> is the character before the rest of the text.
\<close>

definition boundary :: "'v platform \<Rightarrow> nat \<Rightarrow> nat option \<Rightarrow> bool" where
  "boundary P edge neighbour \<longleftrightarrow>
     \<not> alphanumeric P edge \<or> (case neighbour of None \<Rightarrow> True | Some c \<Rightarrow> \<not> alphanumeric P c)"

definition head_char :: "ustr \<Rightarrow> nat option" where
  "head_char s = (case s of [] \<Rightarrow> None | c # _ \<Rightarrow> Some c)"

definition last_char :: "ustr \<Rightarrow> nat option" where
  "last_char s = (if s = [] then None else Some (last s))"

function bounded_scan :: "'v platform \<Rightarrow> ustr \<Rightarrow> nat option \<Rightarrow> ustr \<Rightarrow> bool" where
  "bounded_scan P q prev [] = False"
| "bounded_scan P q prev (c # s) =
     (if q \<noteq> [] \<and> starts_with (c # s) q
      then boundary P (hd q) prev \<and> boundary P (last q) (head_char (drop (length q) (c # s))) \<or>
           bounded_scan P q (Some (last q)) (drop (length q) (c # s))
      else bounded_scan P q (Some c) s)"
  by pat_completeness auto
termination
  by (relation "measure (\<lambda>(P, q, prev, s). length s)") auto

definition contains_bounded_phrase :: "'v platform \<Rightarrow> ustr \<Rightarrow> ustr \<Rightarrow> bool" where
  "contains_bounded_phrase P v q \<longleftrightarrow> (if q = [] then False else bounded_scan P q None v)"

lemma bounded_scan_occurrence:
  "bounded_scan P q prev s \<Longrightarrow> q \<noteq> [] \<Longrightarrow>
     \<exists>a b. s = a @ q @ b \<and>
       boundary P (hd q) (if a = [] then prev else Some (last a)) \<and>
       boundary P (last q) (head_char b)"
proof (induction P q prev s rule: bounded_scan.induct)
  case (2 P q prev c s)
  show ?case
  proof (cases "starts_with (c # s) q")
    case True
    then obtain b where b: "c # s = q @ b" by (auto simp: starts_with_iff)
    then have d: "drop (length q) (c # s) = b" by simp
    show ?thesis
    proof (cases "boundary P (hd q) prev \<and> boundary P (last q) (head_char b)")
      case True
      with b show ?thesis by (intro exI [of _ "[]"] exI [of _ b]) simp
    next
      case False
      moreover have "bounded_scan P q prev (c # s) \<longleftrightarrow>
          boundary P (hd q) prev \<and> boundary P (last q) (head_char b) \<or>
          bounded_scan P q (Some (last q)) b"
        by (simp only: bounded_scan.simps(2) d 2(4) \<open>starts_with (c # s) q\<close> simp_thms if_True)
      ultimately have "bounded_scan P q (Some (last q)) b"
        using 2(3) by blast
      then obtain a' b' where "b = a' @ q @ b'"
          "boundary P (hd q) (if a' = [] then Some (last q) else Some (last a'))"
          "boundary P (last q) (head_char b')"
        using 2(1) \<open>starts_with (c # s) q\<close> d 2(4) by auto
      with b 2(4) show ?thesis
        by (intro exI [of _ "q @ a'"] exI [of _ b']) (auto split: if_splits)
    qed
  next
    case False
    then obtain a b where "s = a @ q @ b"
        "boundary P (hd q) (if a = [] then Some c else Some (last a))"
        "boundary P (last q) (head_char b)"
      using 2 by auto
    then show ?thesis
      by (intro exI [of _ "c # a"] exI [of _ b]) (auto split: if_splits)
  qed
qed simp

subsection \<open>Properties\<close>

text \<open>A phrase that occurs with both boundaries is missed when an occurrence without a boundary
  overlaps it from the left: \<^verbatim>\<open>match_indices\<close> goes on after the end of the first.
\<close>

lemma overlapped_phrase_missed:
  "lit ''ba a a'' = lit ''ba '' @ lit ''a a'' \<and>
   boundary ascii_platform (hd (lit ''a a'')) (Some (last (lit ''ba ''))) \<and>
   boundary ascii_platform (last (lit ''a a'')) (head_char []) \<and>
   \<not> contains_bounded_phrase ascii_platform (lit ''ba a a'') (lit ''a a'')"
  by code_simp

text \<open>A phrase the matcher accepts occurs in the text with a boundary on each side that is a
  letter or a digit, so a query never matches inside a longer word.
\<close>

lemma phrase_is_bounded:
  "contains_bounded_phrase P v q \<Longrightarrow>
     \<exists>a b. v = a @ q @ b \<and> q \<noteq> [] \<and> boundary P (hd q) (last_char a) \<and>
       boundary P (last q) (head_char b)"
  using bounded_scan_occurrence [of P q None v]
  by (auto simp: contains_bounded_phrase_def last_char_def split: if_splits)

theorem phrase_is_bounded_witness:
  "\<exists>a b. lit ''buy a put'' = a @ lit ''a put'' @ b \<and> lit ''a put'' \<noteq> [] \<and>
     boundary ascii_platform (hd (lit ''a put'')) (last_char a) \<and>
     boundary ascii_platform (last (lit ''a put'')) (head_char b)"
  by (rule phrase_is_bounded) code_simp

lemma number_match_bounded:
  "number_match P start c s = Some (m, r) \<Longrightarrow>
     (\<exists>pre. c # s = pre @ m @ r \<and> (pre = [] \<and> start \<or> (\<exists>d. pre = [d] \<and> \<not> word_char P d)))"
  by (auto simp: number_match_def dest: number_at_parts split: option.splits if_splits)

lemma number_matches_bounded:
  "m \<in> set (number_matches P start s) \<Longrightarrow>
     \<exists>pre r. s = pre @ m @ r \<and> (pre = [] \<and> start \<or> pre \<noteq> [] \<and> \<not> word_char P (last pre))"
proof (induction P start s rule: number_matches.induct)
  case (2 P start c s)
  show ?case
  proof (cases "number_match P start c s")
    case None
    with 2 obtain pre r where "s = pre @ m @ r" "pre \<noteq> [] \<and> \<not> word_char P (last pre)" by auto
    then show ?thesis by (intro exI [of _ "c # pre"] exI [of _ r]) simp
  next
    case (Some a)
    obtain m' r' where a: "a = (m', r')" by (cases a)
    obtain pre where pre: "c # s = pre @ m' @ r'"
        "pre = [] \<and> start \<or> (\<exists>d. pre = [d] \<and> \<not> word_char P d)"
      using number_match_bounded [of P start c s m' r'] Some a by auto
    show ?thesis
    proof (cases "m = m'")
      case True
      with pre show ?thesis by (intro exI [of _ pre] exI [of _ r']) auto
    next
      case False
      then have "m \<in> set (number_matches P False r')" using 2(3) Some a by simp
      then have "\<exists>pre r. r' = pre @ m @ r \<and>
          (pre = [] \<and> False \<or> pre \<noteq> [] \<and> \<not> word_char P (last pre))"
        by (rule 2(2) [OF Some a [symmetric]])
      then obtain p r where "r' = p @ m @ r" "p \<noteq> [] \<and> \<not> word_char P (last p)"
        by blast
      with pre show ?thesis
        by (intro exI [of _ "pre @ m' @ p"] exI [of _ r]) simp
    qed
  qed
qed simp

text \<open>Every exact number a text is searched by is a substring of it that starts the text or
  follows a character that is not a word character, and has a sign, a point, a slash or a percent.
\<close>

lemma exact_numbers_are_bounded:
  "sensitive_numbers P v \<subseteq>
     {m. contains_any (lit ''+-./%'') m \<and>
       (\<exists>pre r. v = pre @ m @ r \<and> \<not> (pre \<noteq> [] \<and> word_char P (last pre)))}"
  using number_matches_bounded [of _ P True v] by (fastforce simp: sensitive_numbers_def)

end
