(* ===== verification/Search_Score.thy ===== *)
theory Search_Score
  imports Search_Text
begin

text \<open>
  The relevance of a document and of its sections (src/knowledge/search.rs): tiers and points,
  the fields each text is scored by, the minimum coverage of a query, the explanation of a match,
  and the order of results.
\<close>

subsection \<open>Relevance\<close>

record relevance =
  tier :: int
  points :: int

definition zero_relevance :: relevance where
  "zero_relevance = \<lparr>tier = 0, points = 0\<rparr>"

definition add_relevance :: "relevance \<Rightarrow> relevance \<Rightarrow> relevance" where
  "add_relevance a b =
     \<lparr>tier = max (tier a) (tier b), points = i32_saturating_add (points a) (points b)\<rparr>"

definition is_match :: "relevance \<Rightarrow> bool" where
  "is_match r \<longleftrightarrow> 0 < tier r"

definition relevance_score :: "relevance \<Rightarrow> int" where
  "relevance_score r = i32_wrap (i32_wrap (tier r * 1000) + min (points r) 999)"

text \<open>\<^theory_text>\<open>n as i32\<close> of a length, and the product of two \<^theory_text>\<open>i32\<close> values.\<close>

definition as_i32 :: "nat \<Rightarrow> int" where
  "as_i32 n = i32_wrap (int n)"

definition i32_mul :: "int \<Rightarrow> int \<Rightarrow> int" where
  "i32_mul a b = i32_wrap (a * b)"

record scored_field =
  sf_relevance :: relevance
  matched_terms :: "ustr set"

definition score_field :: "'v platform \<Rightarrow> ustr \<Rightarrow> int \<Rightarrow> search_text \<Rightarrow> bool \<Rightarrow> scored_field" where
  "score_field P v weight query allow_compact =
     (if v = [] then \<lparr>sf_relevance = zero_relevance, matched_terms = {}\<rparr>
      else
        let v = search_text_new P v;
            compact_match =
              allow_compact \<and> compact_eligible query \<and> 3 \<le> length (compact query);
            exact = normalized v = normalized query \<or>
              compact_match \<and> compact v = compact query;
            phrase = 1 < card (tokens query) \<and>
                contains_bounded_phrase P (normalized v) (normalized query) \<or>
              compact_match \<and> contains_str (compact v) (compact query);
            terms = tokens v \<inter> tokens query;
            matched = as_i32 (card terms);
            query_terms = as_i32 (card (tokens query));
            t = (if exact then 4
                 else if phrase then 3
                 else if 0 < query_terms \<and> matched = query_terms then 2
                 else if 0 < matched then 1
                 else 0);
            terms' = (if compact_match \<and> contains_str (compact v) (compact query) \<and> terms = {}
                      then terms \<union> tokens query else terms)
        in \<lparr>sf_relevance = \<lparr>tier = t,
              points = (if 0 < t then i32_mul (max matched 1) weight else 0)\<rparr>,
            matched_terms = terms'\<rparr>)"

subsection \<open>Documents\<close>

record doc_relevance =
  dr_relevance :: relevance
  dr_concise :: "ustr set"
  authored_anchor :: bool

record sec_relevance =
  sr_relevance :: relevance
  sr_concise :: "ustr set"
  sr_all :: "ustr set"

definition add_document_field ::
  "'v platform \<Rightarrow> search_text \<Rightarrow> int \<Rightarrow> bool \<Rightarrow> ustr \<Rightarrow> doc_relevance \<Rightarrow> doc_relevance" where
  "add_document_field P query weight allow_compact v result =
     (let field = score_field P v weight query allow_compact in
      result\<lparr>dr_relevance := add_relevance (dr_relevance result) (sf_relevance field),
             dr_concise := dr_concise result \<union> matched_terms field\<rparr>)"

definition contains_authored_anchor :: "'v platform \<Rightarrow> search_text \<Rightarrow> ustr \<Rightarrow> bool" where
  "contains_authored_anchor P query v =
     (let v = normalize_search_text P v in
      v \<noteq> [] \<and> v \<noteq> normalized query \<and> contains_bounded_phrase P (normalized query) v)"

definition or_empty :: "ustr option \<Rightarrow> ustr" where
  "or_empty v = (case v of None \<Rightarrow> [] | Some x \<Rightarrow> x)"

text \<open>The fields after the identifier, in the order and with the weights the code adds them.\<close>

definition document_fields :: "document \<Rightarrow> (ustr \<times> int \<times> bool) list" where
  "document_fields doc =
     [(doc_title doc, 12, True)] @
     map (\<lambda>v. (v, 12, True)) (doc_aliases doc) @
     map (\<lambda>v. (v, 12, False)) (doc_entities doc) @
     map (\<lambda>v. (v, 8, True)) (doc_tags doc) @
     [(or_empty (doc_period doc), 8, False), (doc_summary doc, 7, False)] @
     map (\<lambda>r. (rel_target r, 4, False)) (doc_relationships doc)"

definition raise_tier :: "int \<Rightarrow> relevance \<Rightarrow> relevance" where
  "raise_tier t r = r\<lparr>tier := max (tier r) t\<rparr>"

definition add_points :: "int \<Rightarrow> relevance \<Rightarrow> relevance" where
  "add_points n r = r\<lparr>points := i32_saturating_add (points r) n\<rparr>"

definition document_relevance :: "'v platform \<Rightarrow> document \<Rightarrow> search_text \<Rightarrow> doc_relevance" where
  "document_relevance P doc query =
     (let i = score_field P (doc_id doc) 14 query False;
          anchor = contains_authored_anchor P query (doc_id doc) \<or>
            list_ex (contains_authored_anchor P query) (doc_aliases doc) \<or>
            list_ex (contains_authored_anchor P query) (doc_entities doc);
          result = \<lparr>dr_relevance = sf_relevance i, dr_concise = matched_terms i,
                    authored_anchor = anchor\<rparr>;
          result = (if normalize_search_text P (doc_id doc) = normalized query
                    then result\<lparr>dr_relevance := (dr_relevance result)\<lparr>tier := 5\<rparr>\<rparr> else result);
          result = fold (\<lambda>(v, weight, compact). add_document_field P query weight compact v)
                     (document_fields doc) result;
          result = (if authored_anchor result
                    then result\<lparr>dr_relevance := raise_tier 3 (dr_relevance result)\<rparr> else result)
      in if tokens query \<noteq> {} \<and> tokens query \<subseteq> dr_concise result
         then result\<lparr>dr_relevance :=
                add_points (i32_mul (as_i32 (card (tokens query))) 6)
                  (raise_tier 2 (dr_relevance result))\<rparr>
         else result)"

text \<open>A body never ranks above a phrase: its exact and all-terms tiers are lowered.\<close>

definition lower_body :: "search_text \<Rightarrow> relevance \<Rightarrow> relevance" where
  "lower_body query r =
     (if tier r = 4 then r\<lparr>tier := if 1 < card (tokens query) then 3 else 1\<rparr>
      else if tier r = 2 then r\<lparr>tier := 1\<rparr>
      else r)"

definition section_relevance :: "'v platform \<Rightarrow> sect \<Rightarrow> search_text \<Rightarrow> sec_relevance" where
  "section_relevance P s query =
     (let heading = score_field P (sec_heading s) 8 query True;
          body = score_field P (sec_text s) 4 query False
      in \<lparr>sr_relevance = add_relevance (sf_relevance heading) (lower_body query (sf_relevance body)),
          sr_concise = matched_terms heading,
          sr_all = matched_terms heading \<union> matched_terms body\<rparr>)"

definition empty_section_relevance :: sec_relevance where
  "empty_section_relevance = \<lparr>sr_relevance = zero_relevance, sr_concise = {}, sr_all = {}\<rparr>"

definition combined_relevance ::
  "doc_relevance \<Rightarrow> sec_relevance \<Rightarrow> search_text \<Rightarrow> relevance" where
  "combined_relevance d s query =
     (let r = add_relevance (dr_relevance d) (sr_relevance s) in
      if tokens query \<noteq> {} \<and> (\<forall>term\<in>tokens query. term \<in> dr_concise d \<or> term \<in> sr_concise s)
      then add_points (i32_mul (as_i32 (card (tokens query))) 4) (raise_tier 2 r)
      else r)"

definition numbers_of :: "'v platform \<Rightarrow> ustr \<Rightarrow> ustr set" where
  "numbers_of P v = sensitive_numbers P (normalize_search_text P v)"

definition document_sensitive_numbers :: "'v platform \<Rightarrow> document \<Rightarrow> ustr set" where
  "document_sensitive_numbers P doc =
     (\<Union>v\<in>set ([doc_id doc, doc_title doc, doc_summary doc, or_empty (doc_period doc)] @
              doc_aliases doc @ doc_entities doc @ doc_tags doc @
              map rel_target (doc_relationships doc)). numbers_of P v)"

definition section_sensitive_numbers :: "'v platform \<Rightarrow> sect \<Rightarrow> ustr set" where
  "section_sensitive_numbers P s = numbers_of P (sec_heading s) \<union> numbers_of P (sec_text s)"

definition has_minimum_query_coverage ::
  "relevance \<Rightarrow> doc_relevance \<Rightarrow> sec_relevance \<Rightarrow> search_text \<Rightarrow> bool" where
  "has_minimum_query_coverage r d s query \<longleftrightarrow>
     card (tokens query) \<le> 1 \<or> authored_anchor d \<or> 2 \<le> tier r \<or>
     2 \<le> min 2 (card {term \<in> tokens query. term \<in> dr_concise d \<or> term \<in> sr_all s})"

subsection \<open>Results\<close>

datatype match_tier = ExactId | ExactMetadata | Phrase | AllTerms | Partial

fun match_tier_str :: "match_tier \<Rightarrow> ustr" where
  "match_tier_str ExactId = lit ''exact_id''"
| "match_tier_str ExactMetadata = lit ''exact_metadata''"
| "match_tier_str Phrase = lit ''phrase''"
| "match_tier_str AllTerms = lit ''all_terms''"
| "match_tier_str Partial = lit ''partial''"

record search_result =
  res_id :: ustr
  res_kind :: ustr
  res_title :: ustr
  res_summary :: ustr
  res_as_of :: ustr
  res_path :: ustr
  res_section :: ustr
  res_heading_path :: "ustr list"
  res_entities :: "ustr list"
  res_period :: "ustr option"
  res_relationships :: "relationship list"
  res_score :: int
  res_text :: ustr
  res_status :: "ustr option"
  res_aliases :: "ustr list"
  res_tags :: "ustr list"
  res_match_tier :: match_tier
  res_matched_fields :: "ustr list"
  res_matched_terms :: "ustr list"

definition contextual :: "document \<Rightarrow> sect \<Rightarrow> ustr" where
  "contextual doc s =
     join [10] (filter (\<lambda>v. v \<noteq> [])
       [doc_title doc, doc_summary doc, join [32] (doc_entities doc), or_empty (doc_period doc),
        doc_as_of doc, sec_heading s])"

definition search_result_of :: "document \<Rightarrow> sect \<Rightarrow> int \<Rightarrow> search_result" where
  "search_result_of doc s score =
     \<lparr>res_id = doc_id doc, res_kind = doc_kind doc, res_title = doc_title doc,
      res_summary = doc_summary doc, res_as_of = doc_as_of doc, res_path = doc_path doc,
      res_section = sec_heading s, res_heading_path = sec_heading_path s,
      res_entities = doc_entities doc, res_period = doc_period doc,
      res_relationships = doc_relationships doc, res_score = score, res_text = contextual doc s,
      res_status = doc_status doc, res_aliases = doc_aliases doc, res_tags = doc_tags doc,
      res_match_tier = Partial, res_matched_fields = [], res_matched_terms = []\<rparr>"

text \<open>The four accumulators of \<^theory_text>\<open>explain_match\<close>.\<close>

record match_details =
  md_fields :: "ustr set"
  md_terms :: "ustr set"
  md_exact :: bool
  md_phrase :: bool

definition collect_match_details ::
  "'v platform \<Rightarrow> search_text \<Rightarrow> ustr \<times> ustr \<times> bool \<Rightarrow> match_details \<Rightarrow> match_details" where
  "collect_match_details P query = (\<lambda>(name, v, allow_compact) md.
     let field = score_field P v 1 query allow_compact in
     if is_match (sf_relevance field)
     then \<lparr>md_fields = insert name (md_fields md),
           md_terms = md_terms md \<union> matched_terms field,
           md_exact = (md_exact md \<or> 4 \<le> tier (sf_relevance field)),
           md_phrase = (md_phrase md \<or> tier (sf_relevance field) = 3)\<rparr>
     else md)"

definition match_fields :: "document \<Rightarrow> sect \<Rightarrow> (ustr \<times> ustr \<times> bool) list" where
  "match_fields doc s =
     [(lit ''id'', doc_id doc, False), (lit ''title'', doc_title doc, True),
      (lit ''summary'', doc_summary doc, False),
      (lit ''period'', or_empty (doc_period doc), False)] @
     map (\<lambda>v. (lit ''aliases'', v, True)) (doc_aliases doc) @
     map (\<lambda>v. (lit ''entities'', v, False)) (doc_entities doc) @
     map (\<lambda>v. (lit ''tags'', v, True)) (doc_tags doc) @
     map (\<lambda>r. (lit ''relationships'', rel_target r, False)) (doc_relationships doc) @
     [(lit ''heading'', sec_heading s, True)]"

definition explain_match ::
  "'v platform \<Rightarrow> document \<Rightarrow> sect \<Rightarrow> search_text \<Rightarrow> match_tier \<times> ustr list \<times> ustr list" where
  "explain_match P doc s query =
     (let md = fold (collect_match_details P query) (match_fields doc s)
                 \<lparr>md_fields = {}, md_terms = {}, md_exact = False, md_phrase = False\<rparr>;
          concise = md_terms md;
          field = score_field P (sec_text s) 4 query False;
          body = lower_body query (sf_relevance field);
          md = (if is_match body
                then md\<lparr>md_fields := insert (lit ''body'') (md_fields md),
                        md_terms := md_terms md \<union> matched_terms field,
                        md_phrase := md_phrase md \<or> 3 \<le> tier body\<rparr>
                else md);
          t = (if normalize_search_text P (doc_id doc) = normalized query then ExactId
               else if md_exact md then ExactMetadata
               else if md_phrase md then Phrase
               else if tokens query \<noteq> {} \<and> tokens query \<subseteq> concise then AllTerms
               else Partial)
      in (t, sorted_list_of_set (md_fields md), sorted_list_of_set (md_terms md)))"

definition search_timestamp :: "'v platform \<Rightarrow> ustr \<Rightarrow> int" where
  "search_timestamp P v =
     (case rfc3339 P v of Some (ts, _) \<Rightarrow> ts | None \<Rightarrow> - 9223372036854775808)"

definition search_result_order :: "'v platform \<Rightarrow> search_result \<Rightarrow> search_result \<Rightarrow> ordering" where
  "search_result_order P a b =
     then_with (compare (res_score b) (res_score a))
       (then_with (compare (search_timestamp P (res_as_of b)) (search_timestamp P (res_as_of a)))
         (then_with (compare (res_id a) (res_id b))
           (compare (res_heading_path a) (res_heading_path b))))"

text \<open>The key the order compares by: the score and the date downwards, then the identifier.\<close>

definition result_key :: "'v platform \<Rightarrow> search_result \<Rightarrow> int \<times> int \<times> ustr \<times> ustr list" where
  "result_key P r =
     (- res_score r, - search_timestamp P (res_as_of r), res_id r, res_heading_path r)"

lemma search_result_order_key:
  "search_result_order P a b = compare (result_key P a) (result_key P b)"
  by (simp add: search_result_order_def result_key_def compare_prod compare_uminus)

subsection \<open>Bounds of the tiers and scores\<close>

lemma score_field_tier: "0 \<le> tier (sf_relevance (score_field P v w q c))"
  "tier (sf_relevance (score_field P v w q c)) \<le> 4"
  by (simp_all add: score_field_def zero_relevance_def Let_def)

lemma tier_add_relevance [simp]: "tier (add_relevance a b) = max (tier a) (tier b)"
  by (simp add: add_relevance_def)

lemma fold_document_fields:
  "dr_concise d \<subseteq> dr_concise (fold (\<lambda>(v, w, c). add_document_field P q w c v) fs d) \<and>
   authored_anchor (fold (\<lambda>(v, w, c). add_document_field P q w c v) fs d) = authored_anchor d \<and>
   tier (dr_relevance d) \<le> tier (dr_relevance (fold (\<lambda>(v, w, c). add_document_field P q w c v) fs d)) \<and>
   tier (dr_relevance (fold (\<lambda>(v, w, c). add_document_field P q w c v) fs d)) \<le>
     max 4 (tier (dr_relevance d))"
proof (induction fs arbitrary: d)
  case (Cons f fs)
  obtain v w c where f: "f = (v, w, c)" by (cases f)
  let ?d = "add_document_field P q w c v d"
  have "dr_concise d \<subseteq> dr_concise ?d" "authored_anchor ?d = authored_anchor d"
      "tier (dr_relevance ?d) =
        max (tier (dr_relevance d)) (tier (sf_relevance (score_field P v w q c)))"
    by (simp_all add: add_document_field_def Let_def)
  with Cons.IH [of ?d] score_field_tier [of P v w q c] show ?case
    by (auto simp: f)
qed simp

lemma document_relevance_tier:
  "0 \<le> tier (dr_relevance (document_relevance P doc q))"
  "tier (dr_relevance (document_relevance P doc q)) \<le> 5"
  "normalize_search_text P (doc_id doc) = normalized q \<Longrightarrow>
     tier (dr_relevance (document_relevance P doc q)) = 5"
proof -
  define d0 where "d0 = (let i = score_field P (doc_id doc) 14 q False;
        anchor = contains_authored_anchor P q (doc_id doc) \<or>
            list_ex (contains_authored_anchor P q) (doc_aliases doc) \<or>
            list_ex (contains_authored_anchor P q) (doc_entities doc);
          result = \<lparr>dr_relevance = sf_relevance i, dr_concise = matched_terms i,
                    authored_anchor = anchor\<rparr>
        in (if normalize_search_text P (doc_id doc) = normalized q
                    then result\<lparr>dr_relevance := (dr_relevance result)\<lparr>tier := 5\<rparr>\<rparr> else result))"
  define d where "d = fold (\<lambda>(v, w, c). add_document_field P q w c v) (document_fields doc) d0"
  have d0: "0 \<le> tier (dr_relevance d0)" "tier (dr_relevance d0) \<le> 5"
      "normalize_search_text P (doc_id doc) = normalized q \<Longrightarrow> tier (dr_relevance d0) = 5"
    using score_field_tier [of P "doc_id doc" 14 q False] by (auto simp: d0_def Let_def)
  have t: "tier (dr_relevance (document_relevance P doc q)) \<in>
      {tier (dr_relevance d), max (tier (dr_relevance d)) 3, max (tier (dr_relevance d)) 2,
       max (max (tier (dr_relevance d)) 3) 2}"
    by (simp add: document_relevance_def d_def d0_def Let_def raise_tier_def add_points_def)
  have "tier (dr_relevance d0) \<le> tier (dr_relevance d)"
      "tier (dr_relevance d) \<le> max 4 (tier (dr_relevance d0))"
    using fold_document_fields [of d0 P q "document_fields doc"] by (simp_all add: d_def)
  with d0 t show "0 \<le> tier (dr_relevance (document_relevance P doc q))"
    "tier (dr_relevance (document_relevance P doc q)) \<le> 5"
    "normalize_search_text P (doc_id doc) = normalized q \<Longrightarrow>
     tier (dr_relevance (document_relevance P doc q)) = 5"
    by auto
qed

lemma section_relevance_tier:
  "0 \<le> tier (sr_relevance (section_relevance P s q))"
  "tier (sr_relevance (section_relevance P s q)) \<le> 4"
  using score_field_tier [of P "sec_heading s" 8 q True]
    score_field_tier [of P "sec_text s" 4 q False]
  by (auto simp: section_relevance_def Let_def lower_body_def)

lemma combined_relevance_tier:
  "0 \<le> tier (dr_relevance d) \<Longrightarrow> tier (dr_relevance d) \<le> 5 \<Longrightarrow>
   0 \<le> tier (sr_relevance s) \<Longrightarrow> tier (sr_relevance s) \<le> 4 \<Longrightarrow>
   0 \<le> tier (combined_relevance d s q) \<and> tier (combined_relevance d s q) \<le> 5"
  by (auto simp: combined_relevance_def Let_def raise_tier_def add_points_def)

text \<open>The score of tiers up to five does not overflow, and a higher tier outscores a lower one.\<close>

lemma relevance_score_exact:
  assumes "0 \<le> tier r" "tier r \<le> 5" "i32_min \<le> points r"
  shows "relevance_score r = tier r * 1000 + min (points r) 999"
  using assms by (simp add: relevance_score_def i32_defs)

lemma higher_tier_scores_higher:
  assumes "0 \<le> tier a" "tier a < tier b" "tier b \<le> 5" "i32_min \<le> points a" "0 \<le> points b"
  shows "relevance_score a < relevance_score b"
  using assms relevance_score_exact [of a] relevance_score_exact [of b]
  by (auto simp: i32_min_def)

subsection \<open>An exact identifier outranks everything else\<close>

lemma finite_tokens: "finite (tokens (search_text_new P v))"
  by (simp add: search_text_new_def Let_def search_tokens_def identifier_tokens_def)

definition points_ok :: "relevance \<Rightarrow> bool" where
  "points_ok r \<longleftrightarrow> 0 \<le> points r \<and> points r \<le> i32_max"

lemma points_ok_add: "points_ok a \<Longrightarrow> points_ok b \<Longrightarrow> points_ok (add_relevance a b)"
  by (simp add: points_ok_def add_relevance_def i32_defs)

lemma points_ok_add_points: "points_ok r \<Longrightarrow> 0 \<le> n \<Longrightarrow> points_ok (add_points n r)"
  by (simp add: points_ok_def add_points_def i32_defs)

lemma points_ok_tier [simp]: "points_ok (r\<lparr>tier := t\<rparr>) = points_ok r"
  "points_ok (raise_tier t r) = points_ok r" "points_ok (lower_body q r) = points_ok r"
  by (simp_all add: points_ok_def raise_tier_def lower_body_def)

lemma score_field_points:
  assumes "finite (tokens q)" "card (tokens q) < 100000000" "0 \<le> w" "w \<le> 14"
  shows "points_ok (sf_relevance (score_field P v w q c))"
proof -
  let ?n = "card (tokens (search_text_new P v) \<inter> tokens q)"
  have "?n \<le> card (tokens q)" using assms(1) by (intro card_mono) auto
  then have n: "as_i32 ?n = int ?n"
    using assms(2) by (simp add: as_i32_def i32_wrap_def)
  have "0 \<le> max (int ?n) 1 * w"
    using assms(3) by simp
  moreover have "max (int ?n) 1 * w \<le> 100000000 * 14"
    using \<open>?n \<le> card (tokens q)\<close> assms(2-4) by (intro mult_mono) auto
  ultimately have "points_ok \<lparr>tier = t, points = i32_mul (max (int ?n) 1) w\<rparr>" for t
    by (simp add: points_ok_def i32_mul_def i32_defs)
  then show ?thesis
    by (auto simp: score_field_def Let_def n zero_relevance_def points_ok_def i32_max_def)
qed

lemma document_fields_weights: "(v, w, c) \<in> set (document_fields doc) \<Longrightarrow> 0 \<le> w \<and> w \<le> 14"
  by (auto simp: document_fields_def)

lemma fold_fields_points:
  assumes "finite (tokens q)" "card (tokens q) < 100000000"
    "\<forall>(v, w, c)\<in>set fs. 0 \<le> w \<and> w \<le> 14" "points_ok (dr_relevance d)"
  shows "points_ok (dr_relevance (fold (\<lambda>(v, w, c). add_document_field P q w c v) fs d))"
  using assms(3,4)
proof (induction fs arbitrary: d)
  case (Cons f fs)
  obtain v w c where f: "f = (v, w, c)" by (cases f)
  then have "points_ok (sf_relevance (score_field P v w q c))"
    using Cons.prems by (intro score_field_points [OF assms(1,2)]) simp_all
  then have "points_ok (dr_relevance (add_document_field P q w c v d))"
    using Cons.prems by (simp add: add_document_field_def Let_def points_ok_add)
  then show ?case using Cons f by simp
qed simp

lemma as_i32_small: "n < 100000000 \<Longrightarrow> k \<in> {4, 6} \<Longrightarrow> 0 \<le> i32_mul (as_i32 n) k"
  by (auto simp: as_i32_def i32_mul_def i32_wrap_def)

definition base_relevance :: "'v platform \<Rightarrow> document \<Rightarrow> search_text \<Rightarrow> doc_relevance" where
  "base_relevance P doc q =
     (let i = score_field P (doc_id doc) 14 q False in
      \<lparr>dr_relevance = (if normalize_search_text P (doc_id doc) = normalized q
                       then (sf_relevance i)\<lparr>tier := 5\<rparr> else sf_relevance i),
       dr_concise = matched_terms i,
       authored_anchor = contains_authored_anchor P q (doc_id doc) \<or>
            list_ex (contains_authored_anchor P q) (doc_aliases doc) \<or>
            list_ex (contains_authored_anchor P q) (doc_entities doc)\<rparr>)"

definition fields_relevance :: "'v platform \<Rightarrow> document \<Rightarrow> search_text \<Rightarrow> relevance" where
  "fields_relevance P doc q =
     dr_relevance (fold (\<lambda>(v, w, c). add_document_field P q w c v) (document_fields doc)
       (base_relevance P doc q))"

lemma document_relevance_cases:
  "dr_relevance (document_relevance P doc q) \<in>
     (let R = fields_relevance P doc q; n = i32_mul (as_i32 (card (tokens q))) 6 in
      {R, raise_tier 3 R, add_points n (raise_tier 2 R), add_points n (raise_tier 2 (raise_tier 3 R))})"
proof -
  define d where "d = fold (\<lambda>(v, w, c). add_document_field P q w c v) (document_fields doc)
       (base_relevance P doc q)"
  have "document_relevance P doc q =
      (let result = (if authored_anchor d
                     then d\<lparr>dr_relevance := raise_tier 3 (dr_relevance d)\<rparr> else d)
       in if tokens q \<noteq> {} \<and> tokens q \<subseteq> dr_concise result
          then result\<lparr>dr_relevance :=
                add_points (i32_mul (as_i32 (card (tokens q))) 6)
                  (raise_tier 2 (dr_relevance result))\<rparr>
          else result)"
    unfolding d_def by (simp add: document_relevance_def base_relevance_def Let_def)
  then show ?thesis by (simp add: fields_relevance_def d_def [symmetric] Let_def)
qed

lemma document_relevance_points:
  assumes "finite (tokens q)" "card (tokens q) < 100000000"
  shows "points_ok (dr_relevance (document_relevance P doc q))"
proof -
  have "\<forall>(v, w, c)\<in>set (document_fields doc). 0 \<le> w \<and> w \<le> 14"
    using document_fields_weights by blast
  moreover have "points_ok (sf_relevance (score_field P (doc_id doc) 14 q False))"
    using assms by (intro score_field_points) simp_all
  then have "points_ok (dr_relevance (base_relevance P doc q))"
    by (simp add: base_relevance_def Let_def)
  ultimately have "points_ok (fields_relevance P doc q)"
    unfolding fields_relevance_def by (intro fold_fields_points [OF assms])
  then show ?thesis
    using document_relevance_cases [of P doc q] as_i32_small [OF assms(2), of 6]
    by (auto simp: Let_def points_ok_add_points)
qed

lemma section_relevance_points:
  assumes "finite (tokens q)" "card (tokens q) < 100000000"
  shows "points_ok (sr_relevance (section_relevance P s q))"
  by (auto simp: section_relevance_def Let_def intro!: points_ok_add score_field_points assms)

lemma combined_relevance_points:
  assumes "card (tokens q) < 100000000" "points_ok (dr_relevance d)" "points_ok (sr_relevance s)"
  shows "points_ok (combined_relevance d s q)"
  using assms as_i32_small [OF assms(1)]
  by (simp add: combined_relevance_def Let_def points_ok_add points_ok_add_points)

lemma document_relevance_tier_other:
  assumes "normalize_search_text P (doc_id doc) \<noteq> normalized q"
  shows "tier (dr_relevance (document_relevance P doc q)) \<le> 4"
proof -
  have "tier (dr_relevance (base_relevance P doc q)) \<le> 4"
    using assms score_field_tier(2) [of P "doc_id doc" 14 q False]
    by (simp add: base_relevance_def Let_def)
  then have "tier (fields_relevance P doc q) \<le> 4"
    using fold_document_fields [of "base_relevance P doc q" P q "document_fields doc"]
    by (simp add: fields_relevance_def)
  then show ?thesis
    using document_relevance_cases [of P doc q]
    by (auto simp: Let_def raise_tier_def add_points_def)
qed

lemma combined_tier:
  "max (tier (dr_relevance d)) (tier (sr_relevance s)) \<le> tier (combined_relevance d s q) \<and>
   tier (combined_relevance d s q) \<le> max (max (tier (dr_relevance d)) (tier (sr_relevance s))) 2"
  by (auto simp: combined_relevance_def Let_def raise_tier_def add_points_def)

subsection \<open>Properties\<close>

text \<open>A record whose identifier is the query outscores every other record, whichever of their
  sections match, as long as the query has fewer than a hundred million tokens (no \<^verbatim>\<open>i32\<close>
  product wraps then).
\<close>

lemma exact_identifier_first:
  assumes "q = search_text_new P query" and "card (tokens q) < 100000000"
    and "normalize_search_text P (doc_id doc) = normalized q"
    and "normalize_search_text P (doc_id other) \<noteq> normalized q"
  shows "relevance_score (combined_relevance (document_relevance P other q)
      (section_relevance P s' q) q) <
    relevance_score (combined_relevance (document_relevance P doc q) (section_relevance P s q) q)"
proof (rule higher_tier_scores_higher)
  have fin: "finite (tokens q)" using assms(1) by (simp add: finite_tokens)
  have pts: "points_ok (combined_relevance (document_relevance P d q) (section_relevance P t q) q)"
    for d t
    using fin assms(2)
    by (intro combined_relevance_points document_relevance_points section_relevance_points)
  let ?a = "combined_relevance (document_relevance P other q) (section_relevance P s' q) q"
  let ?b = "combined_relevance (document_relevance P doc q) (section_relevance P s q) q"
  show "i32_min \<le> points ?a" "0 \<le> points ?b"
    using pts [of other s'] pts [of doc s] by (simp_all add: points_ok_def i32_min_def)
  show "0 \<le> tier ?a"
    using combined_tier [where d = "document_relevance P other q"] section_relevance_tier(1)
    by (metis max.coboundedI2 order_trans)
  have a: "tier ?a \<le> 4"
    using combined_tier [where d = "document_relevance P other q" and s = "section_relevance P s' q"
        and q = q] section_relevance_tier(2) [of P s' q] document_relevance_tier_other [OF assms(4)]
    by linarith
  have b: "tier ?b = 5"
    using combined_tier [where d = "document_relevance P doc q" and s = "section_relevance P s q"
        and q = q] section_relevance_tier(2) [of P s q]
      document_relevance_tier(3) [of P doc q, OF assms(3)]
    by linarith
  show "tier ?a < tier ?b" "tier ?b \<le> 5" using a b by simp_all
qed

lemma exact_identifier_first_witness:
  "relevance_score (combined_relevance
      (document_relevance ascii_platform (document_from_content (Wiki, [lit ''b.md''])
         (lit ''---'' @ [10] @ lit ''id: wiki:b'' @ [10] @ lit ''---'')) (search_text_new ascii_platform (lit ''wiki:a'')))
      (section_relevance ascii_platform (chapter_section [] []) (search_text_new ascii_platform (lit ''wiki:a'')))
      (search_text_new ascii_platform (lit ''wiki:a''))) <
   relevance_score (combined_relevance
      (document_relevance ascii_platform (document_from_content (Wiki, [lit ''a.md''])
         (lit ''---'' @ [10] @ lit ''id: wiki:a'' @ [10] @ lit ''---'')) (search_text_new ascii_platform (lit ''wiki:a'')))
      (section_relevance ascii_platform (chapter_section [] []) (search_text_new ascii_platform (lit ''wiki:a'')))
      (search_text_new ascii_platform (lit ''wiki:a'')))"
proof (rule exact_identifier_first)
  show "card (tokens (search_text_new ascii_platform (lit ''wiki:a''))) < 100000000"
    by code_simp
  show "normalize_search_text ascii_platform (doc_id (document_from_content (Wiki, [lit ''a.md''])
         (lit ''---'' @ [10] @ lit ''id: wiki:a'' @ [10] @ lit ''---''))) =
      normalized (search_text_new ascii_platform (lit ''wiki:a''))" by code_simp
  show "normalize_search_text ascii_platform (doc_id (document_from_content (Wiki, [lit ''b.md''])
         (lit ''---'' @ [10] @ lit ''id: wiki:b'' @ [10] @ lit ''---''))) \<noteq>
      normalized (search_text_new ascii_platform (lit ''wiki:a''))" by code_simp
qed (rule refl)

end
