(* ===== verification/Utf8.thy ===== *)
theory Utf8
  imports Guru_Prelude
begin

text \<open>
  UTF-8: the bytes of a string (\<^theory_text>\<open>str::as_bytes\<close>) and the strict decoding of
  \<^theory_text>\<open>String::from_utf8\<close> and \<^theory_text>\<open>fs::read_to_string\<close>, which refuse
  overlong forms, surrogates and values above U+10FFFF. Decoding an encoding returns the string,
  and the encoding has the length \<^const>\<open>byte_len\<close> computes.
\<close>

type_synonym bytes = "nat list"

definition is_scalar :: "nat \<Rightarrow> bool" where
  "is_scalar c \<longleftrightarrow> c < 0xD800 \<or> 0xE000 \<le> c \<and> c < 0x110000"

definition utf8_char :: "nat \<Rightarrow> bytes" where
  "utf8_char c =
     (if c < 0x80 then [c]
      else if c < 0x800 then [0xC0 + c div 64, 0x80 + c mod 64]
      else if c < 0x10000 then [0xE0 + c div 4096, 0x80 + c div 64 mod 64, 0x80 + c mod 64]
      else [0xF0 + c div 262144, 0x80 + c div 4096 mod 64, 0x80 + c div 64 mod 64,
            0x80 + c mod 64])"

definition utf8_encode :: "ustr \<Rightarrow> bytes" where
  "utf8_encode s = concat (map utf8_char s)"

definition continuation :: "nat \<Rightarrow> bool" where
  "continuation b \<longleftrightarrow> 0x80 \<le> b \<and> b < 0xC0"

text \<open>The first scalar value of the input, and the rest.\<close>

definition utf8_next :: "nat \<Rightarrow> bytes \<Rightarrow> (nat \<times> bytes) option" where
  "utf8_next b bs =
     (if b < 0x80 then Some (b, bs)
      else if 0xC2 \<le> b \<and> b < 0xE0 then
        (case bs of
           b1 # r \<Rightarrow> if continuation b1 then Some ((b - 0xC0) * 64 + (b1 - 0x80), r) else None
         | _ \<Rightarrow> None)
      else if 0xE0 \<le> b \<and> b < 0xF0 then
        (case bs of
           b1 # b2 # r \<Rightarrow>
             let c = (b - 0xE0) * 4096 + (b1 - 0x80) * 64 + (b2 - 0x80) in
             if continuation b1 \<and> continuation b2 \<and> 0x800 \<le> c \<and> is_scalar c then Some (c, r)
             else None
         | _ \<Rightarrow> None)
      else if 0xF0 \<le> b \<and> b < 0xF5 then
        (case bs of
           b1 # b2 # b3 # r \<Rightarrow>
             let c = (b - 0xF0) * 262144 + (b1 - 0x80) * 4096 + (b2 - 0x80) * 64 + (b3 - 0x80) in
             if continuation b1 \<and> continuation b2 \<and> continuation b3 \<and> 0x10000 \<le> c \<and> is_scalar c
             then Some (c, r) else None
         | _ \<Rightarrow> None)
      else None)"

lemma utf8_next_shorter: "utf8_next b bs = Some (c, r) \<Longrightarrow> length r \<le> length bs"
  by (auto simp: utf8_next_def Let_def split: if_splits list.splits)

function utf8_decode :: "bytes \<Rightarrow> ustr option" where
  "utf8_decode [] = Some []"
| "utf8_decode (b # bs) =
     (case utf8_next b bs of
        None \<Rightarrow> None
      | Some (c, r) \<Rightarrow> map_option (Cons c) (utf8_decode r))"
  by pat_completeness auto
termination
  by (relation "measure length") (auto dest!: utf8_next_shorter)

lemma utf8_encode_simps [simp]:
  "utf8_encode [] = []" "utf8_encode (c # s) = utf8_char c @ utf8_encode s"
  "utf8_encode (s @ t) = utf8_encode s @ utf8_encode t"
  by (simp_all add: utf8_encode_def)

lemma continuation_of [simp]: "continuation (0x80 + n mod 64)"
  using mod_less_divisor [of 64 n] by (simp add: continuation_def)

lemma digits64_2: "c div 64 * 64 + c mod 64 = (c::nat)"
  by simp

lemma digits64_3: "c div 4096 * 4096 + c div 64 mod 64 * 64 + c mod 64 = (c::nat)"
proof -
  have "c div 64 div 64 * 64 + c div 64 mod 64 = c div 64" by (rule div_mult_mod_eq)
  moreover have "c div 64 div 64 = c div 4096" by (simp add: div_mult2_eq [symmetric])
  ultimately show ?thesis using div_mult_mod_eq [of c 64] by linarith
qed

lemma digits64_4:
  "c div 262144 * 262144 + c div 4096 mod 64 * 4096 + c div 64 mod 64 * 64 + c mod 64 = (c::nat)"
proof -
  have "c div 4096 div 64 * 64 + c div 4096 mod 64 = c div 4096" by (rule div_mult_mod_eq)
  moreover have "c div 4096 div 64 = c div 262144" by (simp add: div_mult2_eq [symmetric])
  ultimately show ?thesis using digits64_3 [of c] by linarith
qed

lemma utf8_char_not_Nil [simp]: "utf8_char c \<noteq> []"
  by (simp add: utf8_char_def)

lemma utf8_next_char:
  assumes "is_scalar c"
  shows "\<exists>b bs. utf8_char c = b # bs \<and> utf8_next b (bs @ r) = Some (c, r)"
proof -
  consider "c < 0x80" | "0x80 \<le> c" "c < 0x800" | "0x800 \<le> c" "c < 0x10000"
    | "0x10000 \<le> c" "c < 0x110000"
    using assms unfolding is_scalar_def by linarith
  then show ?thesis
  proof cases
    case 1
    then show ?thesis by (simp add: utf8_char_def utf8_next_def)
  next
    case 2
    then obtain q where q: "c div 64 = q" "2 \<le> q" "q < 32"
      by (intro that [of "c div 64"]) linarith+
    with 2 show ?thesis using digits64_2 [of c]
      by (simp add: utf8_char_def utf8_next_def)
  next
    case 3
    then have "c div 4096 < 16" by linarith
    with 3 show ?thesis using digits64_3 [of c] assms
      by (simp add: utf8_char_def utf8_next_def)
  next
    case 4
    then have "c div 262144 < 5" by linarith
    with 4 show ?thesis using digits64_4 [of c] assms
      by (simp add: utf8_char_def utf8_next_def)
  qed
qed

theorem utf8_decode_encode: "list_all is_scalar s \<Longrightarrow> utf8_decode (utf8_encode s) = Some s"
proof (induction s)
  case (Cons c s)
  then obtain b bs where "utf8_char c = b # bs" "utf8_next b (bs @ utf8_encode s) = Some (c, utf8_encode s)"
    using utf8_next_char [of c "utf8_encode s"] by auto
  with Cons show ?case by simp
qed simp

lemma utf8_encode_inj:
  "list_all is_scalar s \<Longrightarrow> list_all is_scalar t \<Longrightarrow> utf8_encode s = utf8_encode t \<longleftrightarrow> s = t"
  by (metis option.inject utf8_decode_encode)

lemma length_utf8_encode: "length (utf8_encode s) = byte_len s"
  by (induction s) (simp_all add: utf8_char_def byte_len_def utf8_width_def)

lemmas [model_defs] = is_scalar_def utf8_char_def utf8_encode_def continuation_def utf8_next_def

end
