(* ===== verification/Scan.thy ===== *)
theory Scan
  imports Platform
begin

text \<open>
  The file scan that runs over worker threads (src/knowledge/query.rs,
  \<^theory_text>\<open>scan_chunks_with_workers\<close>): the items in consecutive chunks, one per worker, the
  results in the order of the chunks, whether a worker ran in a thread or, when the thread could
  not be started, on the caller. What the scans compute does not depend on the worker count.
\<close>

definition PARALLEL_SCAN_MIN_FILES :: nat where
  "PARALLEL_SCAN_MIN_FILES = 256"

definition MAX_SCAN_WORKERS :: nat where
  "MAX_SCAN_WORKERS = 8"

definition scan_worker_count :: "'v platform \<Rightarrow> nat \<Rightarrow> nat" where
  "scan_worker_count P file_count =
     (if file_count < PARALLEL_SCAN_MIN_FILES then 1
      else min (min (case available_parallelism P of None \<Rightarrow> 1 | Some n \<Rightarrow> n) MAX_SCAN_WORKERS)
             file_count)"

definition div_ceil :: "nat \<Rightarrow> nat \<Rightarrow> nat" where
  "div_ceil a b = (a + b - 1) div b"

function chunks :: "nat \<Rightarrow> 'a list \<Rightarrow> 'a list list" where
  "chunks n [] = []"
| "chunks n (x # xs) = (x # take (n - 1) xs) # chunks n (drop (n - 1) xs)"
  by pat_completeness auto
termination
  by (relation "measure (length \<circ> snd)") auto

definition scan_chunks_with_workers :: "'a list \<Rightarrow> nat \<Rightarrow> ('a list \<Rightarrow> 'b) \<Rightarrow> 'b list" where
  "scan_chunks_with_workers items workers scan =
     (let workers = min (max workers 1) (max (length items) 1) in
      if workers = 1 then [scan items]
      else map scan (chunks (div_ceil (length items) workers) items))"

definition scan_chunks :: "'v platform \<Rightarrow> 'a list \<Rightarrow> ('a list \<Rightarrow> 'b) \<Rightarrow> 'b list" where
  "scan_chunks P items scan =
     scan_chunks_with_workers items (scan_worker_count P (length items)) scan"

lemma concat_chunks [simp]: "concat (chunks n xs) = xs"
  by (induction n xs rule: chunks.induct) simp_all

lemma chunk_not_Nil: "c \<in> set (chunks n xs) \<Longrightarrow> c \<noteq> []"
  by (induction n xs rule: chunks.induct) auto

lemma length_chunk: "c \<in> set (chunks n xs) \<Longrightarrow> 0 < n \<Longrightarrow> length c \<le> n"
  by (induction n xs rule: chunks.induct) auto

lemma length_chunks: "0 < n \<Longrightarrow> length (chunks n xs) = div_ceil (length xs) n"
proof (induction n xs rule: chunks.induct)
  case (2 n x xs)
  have "length (chunks n (x # xs)) = Suc (div_ceil (length xs - (n - 1)) n)"
    using 2 by simp
  also have "\<dots> = div_ceil (Suc (length xs)) n"
  proof (cases "length xs < n")
    case True
    moreover have "(n - 1) div n = 0" "(length xs + n) div n = 1"
      using True 2(2) by (simp_all add: div_if)
    moreover have "length xs - (n - 1) = 0" using True by simp
    ultimately show ?thesis by (simp add: div_ceil_def)
  next
    case False
    then obtain m where m: "length xs = m + n" by (metis add.commute le_add_diff_inverse not_less)
    then have "m + n - (n - 1) + n - 1 = m + n" using 2(2) by linarith
    moreover have "(m + n + n) div n = Suc ((m + n) div n)"
      using 2(2) div_add_self2 [of n "m + n"] by simp
    ultimately show ?thesis by (simp add: div_ceil_def m)
  qed
  finally show ?case by simp
qed (simp add: div_ceil_def div_if)

text \<open>The chunks a scan works on: consecutive, none lost, none repeated.\<close>

lemma scan_partition:
  "\<exists>parts. concat parts = items \<and>
     (\<forall>scan. scan_chunks_with_workers items workers scan = map scan parts)"
proof (cases "min (max workers 1) (max (length items) 1) = 1")
  case True
  then show ?thesis by (intro exI [of _ "[items]"]) (simp add: scan_chunks_with_workers_def)
next
  case False
  then show ?thesis
    by (intro exI [of _ "chunks (div_ceil (length items)
          (min (max workers 1) (max (length items) 1))) items"])
      (simp only: scan_chunks_with_workers_def Let_def if_False concat_chunks simp_thms)
qed

lemma concat_scan:
  assumes "\<And>xs ys. scan (xs @ ys) = scan xs @ scan ys" and "scan [] = []"
  shows "concat (scan_chunks_with_workers items workers scan) = scan items"
proof -
  obtain parts where parts: "concat parts = items"
      "scan_chunks_with_workers items workers scan = map scan parts"
    using scan_partition [of items workers] by blast
  have "concat (map scan ps) = scan (concat ps)" for ps
    by (induction ps) (simp_all add: assms)
  with parts show ?thesis by simp
qed

lemma concat_scan_map [simp]:
  "concat (scan_chunks_with_workers items workers (map f)) = map f items"
  by (rule concat_scan) simp_all

lemma concat_scan_filter [simp]:
  "concat (scan_chunks_with_workers items workers (\<lambda>xs. filter p (map f xs))) = filter p (map f items)"
  by (rule concat_scan) simp_all

end
