(* ===== verification/Memory_Tree.thy ===== *)
theory Memory_Tree
  imports Document_Model Utf8 Scan
begin

text \<open>
  The Memory tree on disk and how the catalog reads it (src/knowledge/catalog.rs): the walk that
  collects Markdown files, the walk that reports layout issues, the capture that does both in one
  pass and hashes what it read, the catalog of valid documents, and the lookup of one record.
  A directory is the list of its entries in the order the system returns them; entries that
  cannot be listed are absent. The tree does not change while it is read. Names are UTF-8.
\<close>

subsection \<open>Files and directories\<close>

text \<open>
  What \<^theory_text>\<open>symlink_metadata\<close> and \<^theory_text>\<open>read_dir\<close> say of an entry; a file carries
  what \<^theory_text>\<open>fs::read\<close> returns, an error message or the bytes.
\<close>

datatype fsnode =
    NFile "ustr + bytes"
  | NDir "(ustr \<times> fsnode) list"
  | NUnreadableDir
  | NSymlink
  | NOther
  | NNoMetadata

type_synonym memory_tree = "memory_kind \<Rightarrow> fsnode"

type_synonym found = "mem_path \<times> (ustr + bytes)"

definition extension :: "ustr \<Rightarrow> ustr option" where
  "extension name =
     (if name = lit ''..'' then None
      else case split_once (ch (CHR ''.'')) (rev name) of
          None \<Rightarrow> None
        | Some (ext, stem) \<Rightarrow> if stem = [] then None else Some (rev ext))"

definition is_markdown :: "ustr \<Rightarrow> bool" where
  "is_markdown name \<longleftrightarrow> extension name = Some (lit ''md'')"

lemma is_markdown_iff: "is_markdown name \<longleftrightarrow> (\<exists>stem. stem \<noteq> [] \<and> name = stem @ lit ''.md'')"
proof
  assume "is_markdown name"
  then obtain stem where "split_once 46 (rev name) = Some (rev (lit ''md''), stem)" "stem \<noteq> []"
    by (force simp: is_markdown_def extension_def rev_swap [of _ "lit ''md''", symmetric]
        split: if_splits option.splits prod.splits)
  then have "rev name = rev (lit ''md'') @ 46 # stem" by (simp add: split_once_Some)
  then have "name = rev stem @ lit ''.md''"
    by (simp add: lit_def rev_swap)
  with \<open>stem \<noteq> []\<close> show "\<exists>stem. stem \<noteq> [] \<and> name = stem @ lit ''.md''"
    by (intro exI [of _ "rev stem"]) simp
next
  assume "\<exists>stem. stem \<noteq> [] \<and> name = stem @ lit ''.md''"
  then show "is_markdown name"
    by (auto simp: is_markdown_def extension_def lit_def split: if_splits)
qed

definition layout_issue :: "mem_path \<Rightarrow> string \<Rightarrow> issue" where
  "layout_issue path message =
     \<lparr>issue_path = display_path path, issue_field = lit ''layout'',
      issue_message = slug (fst path) @ lit message\<rparr>"

definition symlink_issue :: "mem_path \<Rightarrow> issue" where
  "symlink_issue path = layout_issue path '' elements and directories must not be symlinks''"

definition element_issue :: "mem_path \<Rightarrow> issue" where
  "element_issue path = layout_issue path '' elements must be non-symlink Markdown files''"

subsection \<open>The three walks\<close>

fun collect_markdown_files :: "memory_kind \<Rightarrow> ustr list \<Rightarrow> fsnode \<Rightarrow> found list" where
  "collect_markdown_files k path (NDir entries) =
     concat (map (\<lambda>(name, node).
       case node of
         NDir _ \<Rightarrow> collect_markdown_files k (path @ [name]) node
       | NFile content \<Rightarrow> if is_markdown name then [((k, path @ [name]), content)] else []
       | _ \<Rightarrow> []) entries)"
| "collect_markdown_files k path _ = []"

fun collect_layout_issues :: "memory_kind \<Rightarrow> ustr list \<Rightarrow> fsnode \<Rightarrow> issue list" where
  "collect_layout_issues k path (NDir entries) =
     concat (map (\<lambda>(name, node).
       case node of
         NNoMetadata \<Rightarrow> []
       | NSymlink \<Rightarrow> [symlink_issue (k, path @ [name])]
       | NDir _ \<Rightarrow> collect_layout_issues k (path @ [name]) node
       | NUnreadableDir \<Rightarrow> []
       | NFile _ \<Rightarrow> if is_markdown name then [] else [element_issue (k, path @ [name])]
       | NOther \<Rightarrow> [element_issue (k, path @ [name])]) entries)"
| "collect_layout_issues k path _ = []"

text \<open>
  \<^theory_text>\<open>collect_context_paths\<close> pushes onto two vectors, the paths and the issues.
\<close>

fun collect_context_paths ::
  "memory_kind \<Rightarrow> ustr list \<Rightarrow> fsnode \<Rightarrow> found list \<times> issue list \<Rightarrow> found list \<times> issue list" where
  "collect_context_paths k path (NDir entries) acc =
     fold (\<lambda>(name, node) (paths, issues).
       case node of
         NNoMetadata \<Rightarrow> (paths, issues)
       | NSymlink \<Rightarrow> (paths, issues @ [symlink_issue (k, path @ [name])])
       | NDir _ \<Rightarrow> collect_context_paths k (path @ [name]) node (paths, issues)
       | NUnreadableDir \<Rightarrow> (paths, issues)
       | NFile content \<Rightarrow>
           if is_markdown name then (paths @ [((k, path @ [name]), content)], issues)
           else (paths, issues @ [element_issue (k, path @ [name])])
       | NOther \<Rightarrow> (paths, issues @ [element_issue (k, path @ [name])])) entries acc"
| "collect_context_paths k path _ acc = acc"

lemma fold_push2:
  "fold (\<lambda>e (ps, is). (ps @ f e, is @ g e)) es (ps, is) =
     (ps @ concat (map f es), is @ concat (map g es))"
  by (induction es arbitrary: ps "is") simp_all

text \<open>The single pass finds what the two walks find.\<close>

lemma collect_context_paths_eq:
  "collect_context_paths k path node acc =
     (fst acc @ collect_markdown_files k path node, snd acc @ collect_layout_issues k path node)"
proof (induction k path node acc rule: collect_context_paths.induct)
  case (1 k path entries acc)
  let ?f = "\<lambda>(name, node).
       case node of
         NDir _ \<Rightarrow> collect_markdown_files k (path @ [name]) node
       | NFile content \<Rightarrow> if is_markdown name then [((k, path @ [name]), content)] else []
       | _ \<Rightarrow> []"
  let ?g = "\<lambda>(name, node).
       case node of
         NNoMetadata \<Rightarrow> []
       | NSymlink \<Rightarrow> [symlink_issue (k, path @ [name])]
       | NDir _ \<Rightarrow> collect_layout_issues k (path @ [name]) node
       | NUnreadableDir \<Rightarrow> []
       | NFile _ \<Rightarrow> if is_markdown name then [] else [element_issue (k, path @ [name])]
       | NOther \<Rightarrow> [element_issue (k, path @ [name])]"
  have "collect_context_paths k path (NDir entries) acc =
      fold (\<lambda>e (ps, is). (ps @ ?f e, is @ ?g e)) entries acc"
    unfolding collect_context_paths.simps
  proof (rule fold_cong [OF refl refl], rule ext)
    fix e and a :: "found list \<times> issue list"
    assume e: "e \<in> set entries"
    obtain name node ps "is" where [simp]: "e = (name, node)" "a = (ps, is)"
      by (cases e; cases a)
    show "(\<lambda>(name, node) (paths, issues).
       case node of
         NNoMetadata \<Rightarrow> (paths, issues)
       | NSymlink \<Rightarrow> (paths, issues @ [symlink_issue (k, path @ [name])])
       | NDir _ \<Rightarrow> collect_context_paths k (path @ [name]) node (paths, issues)
       | NUnreadableDir \<Rightarrow> (paths, issues)
       | NFile content \<Rightarrow>
           if is_markdown name then (paths @ [((k, path @ [name]), content)], issues)
           else (paths, issues @ [element_issue (k, path @ [name])])
       | NOther \<Rightarrow> (paths, issues @ [element_issue (k, path @ [name])])) e a =
      (case a of (ps, is) \<Rightarrow> (ps @ ?f e, is @ ?g e))"
    proof (cases node)
      case (NDir es)
      then show ?thesis
        using 1 e
        by (fastforce simp del: collect_context_paths.simps collect_markdown_files.simps
            collect_layout_issues.simps)
    qed simp_all
  qed
  then show ?case by (cases acc) (simp add: fold_push2)
qed simp_all

subsection \<open>The catalog\<close>

text \<open>
  Paths are compared component by component, as \<^theory_text>\<open>PathBuf\<close>s are. The kinds of
  \<open>local_markdown_files_for_kinds\<close> are those its callers have checked; the code iterates over
  the ordered set of their directory names.
\<close>

definition path_key :: "mem_path \<Rightarrow> ustr list" where
  "path_key path = slug (fst path) # snd path"

definition path_order :: "mem_path \<Rightarrow> mem_path \<Rightarrow> ordering" where
  "path_order a b = compare (path_key a) (path_key b)"

definition found_order :: "found \<Rightarrow> found \<Rightarrow> ordering" where
  "found_order a b = path_order (fst a) (fst b)"

interpretation found_paths: keyed_order found_order "path_key \<circ> fst"
  by unfold_locales (simp add: found_order_def path_order_def)

definition sorted_files :: "memory_tree \<Rightarrow> memory_kind list \<Rightarrow> found list" where
  "sorted_files tree directories =
     sort_by found_order (concat (map (\<lambda>k. collect_markdown_files k [] (tree k)) directories))"

definition local_markdown_files_for_kinds :: "memory_tree \<Rightarrow> memory_kind list \<Rightarrow> found list" where
  "local_markdown_files_for_kinds tree kinds =
     sorted_files tree (sort_key slug (remdups (if kinds = [] then all_kinds else kinds)))"

definition local_markdown_files :: "memory_tree \<Rightarrow> found list" where
  "local_markdown_files tree = local_markdown_files_for_kinds tree []"

definition load_document :: "found \<Rightarrow> ustr + document" where
  "load_document f =
     (case snd f of
        Inl e \<Rightarrow> Inl e
      | Inr raw \<Rightarrow>
          (case utf8_decode raw of
             None \<Rightarrow> Inl (lit ''stream did not contain valid UTF-8'')
           | Some content \<Rightarrow> Inr (document_from_content (fst f) content)))"

definition load_local :: "found \<Rightarrow> document" where
  "load_local f =
     (case load_document f of Inr doc \<Rightarrow> doc | Inl e \<Rightarrow> unreadable_document (fst f) e)"

definition document_order :: "document \<Rightarrow> document \<Rightarrow> ordering" where
  "document_order a b = compare (doc_kind a, doc_id a) (doc_kind b, doc_id b)"

interpretation documents: keyed_order document_order "\<lambda>d. (doc_kind d, doc_id d)"
  by unfold_locales (simp add: document_order_def)

definition catalog_local_unchecked :: "memory_tree \<Rightarrow> document list" where
  "catalog_local_unchecked tree =
     sort_by document_order (map load_local (local_markdown_files tree))"

definition catalog_local :: "'v platform \<Rightarrow> memory_tree \<Rightarrow> document list" where
  "catalog_local P tree = filter (document_is_valid P) (catalog_local_unchecked tree)"

text \<open>The collections in \<^theory_text>\<open>ALL\<close>'s order, as \<^theory_text>\<open>layout_issues\<close> walks them.\<close>

definition collection_issue :: "memory_kind \<Rightarrow> issue" where
  "collection_issue k = layout_issue (k, []) '' collection must be a non-symlink directory''"

fun is_dir :: "fsnode \<Rightarrow> bool" where
  "is_dir (NDir _) = True"
| "is_dir NUnreadableDir = True"
| "is_dir _ = False"

definition bad_collection :: "fsnode \<Rightarrow> bool" where
  "bad_collection node \<longleftrightarrow> node \<noteq> NNoMetadata \<and> \<not> is_dir node"

definition layout_issues :: "memory_tree \<Rightarrow> issue list" where
  "layout_issues tree =
     concat (map (\<lambda>k. if bad_collection (tree k) then [collection_issue k]
                      else collect_layout_issues k [] (tree k)) all_kinds)"

subsection \<open>The capture\<close>

record catalog_capture =
  revision :: ustr
  cap_documents :: "document list"
  cap_layout_issues :: "issue list"

definition be64 :: "nat \<Rightarrow> bytes" where
  "be64 n = map (\<lambda>i. n div 256 ^ i mod 256) (rev [0..<8])"

text \<open>The path below the Memory root, with \<open>/\<close> between the components.\<close>

definition relative_path :: "mem_path \<Rightarrow> ustr" where
  "relative_path path = join (lit ''/'') (path_key path)"

definition framed :: "bytes \<Rightarrow> bytes" where
  "framed raw = be64 (length raw) @ raw"

definition revision_entry :: "mem_path \<times> bytes \<Rightarrow> bytes" where
  "revision_entry e = framed (utf8_encode (relative_path (fst e))) @ framed (snd e)"

definition context_walk :: "memory_tree \<Rightarrow> found list \<times> issue list" where
  "context_walk tree =
     fold (\<lambda>k (paths, issues).
       if bad_collection (tree k) then (paths, issues @ [collection_issue k])
       else collect_context_paths k [] (tree k) (paths, issues)) all_kinds ([], [])"

fun capture_files :: "'v platform \<Rightarrow> found list \<Rightarrow> bytes \<Rightarrow> document list \<Rightarrow>
    ustr + (bytes \<times> document list)" where
  "capture_files P [] tree documents = Inr (tree, documents)"
| "capture_files P ((path, Inl e) # files) tree documents =
     Inl (lit ''cannot capture '' @ display_path path @ lit '': '' @ e)"
| "capture_files P ((path, Inr raw) # files) tree documents =
     capture_files P files (tree @ revision_entry (path, raw))
       (documents @
          [case utf8_decode raw of
             Some content \<Rightarrow> document_from_content path content
           | None \<Rightarrow> unreadable_document path (utf8_message P raw)])"

definition capture_local_catalog :: "'v platform \<Rightarrow> memory_tree \<Rightarrow> ustr + catalog_capture" where
  "capture_local_catalog P tree =
     (case context_walk tree of
        (paths, issues) \<Rightarrow>
          (case capture_files P (sort_by found_order paths) [] [] of
             Inl e \<Rightarrow> Inl e
           | Inr (stream, documents) \<Rightarrow>
               Inr \<lparr>revision = sha256 P stream,
                    cap_documents = sort_by document_order documents,
                    cap_layout_issues = issues\<rparr>))"

subsection \<open>Reading one record\<close>

record read_result =
  rr_document :: document
  rr_section :: "sect option"

definition find_document_in_chunk :: "'v platform \<Rightarrow> ustr \<Rightarrow> found list \<Rightarrow> document list" where
  "find_document_in_chunk P i paths =
     filter (\<lambda>d. doc_id d = i \<and> document_is_valid P d) (map load_local paths)"

definition find_document_in_paths ::
  "'v platform \<Rightarrow> found list \<Rightarrow> ustr \<Rightarrow> nat option \<Rightarrow> ustr + document option" where
  "find_document_in_paths P paths i workers =
     (let parts = (case workers of
            Some w \<Rightarrow> scan_chunks_with_workers paths w (find_document_in_chunk P i)
          | None \<Rightarrow> scan_chunks P paths (find_document_in_chunk P i));
          matches = concat parts
      in case matches of
           [] \<Rightarrow> Inr None
         | [d] \<Rightarrow> Inr (Some d)
         | _ \<Rightarrow> Inl (lit ''knowledge document ID is ambiguous: '' @ i))"

definition find_document_by_id ::
  "'v platform \<Rightarrow> memory_tree \<Rightarrow> ustr \<Rightarrow> nat option \<Rightarrow> ustr + document option" where
  "find_document_by_id P tree i workers =
     (case canonical_id_kind i of
        None \<Rightarrow> Inr None
      | Some kind \<Rightarrow>
          (case from_slug kind of
             None \<Rightarrow> Inr None
           | Some k \<Rightarrow>
               find_document_in_paths P (local_markdown_files_for_kinds tree [k]) i workers))"

definition section_matches :: "ustr \<Rightarrow> sect \<Rightarrow> bool" where
  "section_matches wanted s \<longleftrightarrow>
     eq_ignore_ascii_case (sec_heading s) wanted \<or>
     eq_ignore_ascii_case (join (lit '' / '') (sec_heading_path s)) wanted"

definition debug_section :: "'v platform \<Rightarrow> ustr option \<Rightarrow> ustr" where
  "debug_section P s =
     (case s of None \<Rightarrow> lit ''None'' | Some v \<Rightarrow> lit ''Some('' @ debug_str P v @ lit '')'')"

definition read_internal ::
  "'v platform \<Rightarrow> memory_tree \<Rightarrow> ustr \<Rightarrow> ustr option \<Rightarrow> nat option \<Rightarrow> ustr + read_result" where
  "read_internal P tree i wanted_section workers =
     (case find_document_by_id P tree i workers of
        Inl e \<Rightarrow> Inl e
      | Inr None \<Rightarrow> Inl (lit ''knowledge document not found: '' @ i)
      | Inr (Some document) \<Rightarrow>
          (case wanted_section of
             None \<Rightarrow> Inr \<lparr>rr_document = document, rr_section = None\<rparr>
           | Some wanted \<Rightarrow>
               (case filter (section_matches (to_ascii_lowercase wanted))
                   (split_sections (doc_body document)) of
                  [] \<Rightarrow> Inl (lit ''section not found in '' @ i @ lit '': '' @
                              debug_section P wanted_section)
                | [s] \<Rightarrow> Inr \<lparr>rr_document = document, rr_section = Some s\<rparr>
                | _ \<Rightarrow> Inl (lit ''section is ambiguous in '' @ i @ lit '': '' @
                              debug_section P wanted_section))))"

definition read :: "'v platform \<Rightarrow> memory_tree \<Rightarrow> ustr \<Rightarrow> ustr option \<Rightarrow> ustr + read_result" where
  "read P tree i wanted_section = read_internal P tree i wanted_section None"

subsection \<open>Which files are found\<close>

text \<open>An entry below a node, through directories only.\<close>

inductive reaches :: "fsnode \<Rightarrow> ustr list \<Rightarrow> fsnode \<Rightarrow> bool" where
  entry: "(name, node) \<in> set entries \<Longrightarrow> reaches (NDir entries) [name] node"
| below: "(name, NDir es) \<in> set entries \<Longrightarrow> reaches (NDir es) q target \<Longrightarrow>
    reaches (NDir entries) (name # q) target"

inductive_cases reachesE: "reaches (NDir entries) q target"
inductive_cases reaches_nonDirE: "reaches node q target"

lemma reaches_path: "reaches node q target \<Longrightarrow> q \<noteq> []"
  by (induction rule: reaches.induct) auto

lemma reaches_below:
  "(name, node) \<in> set entries \<Longrightarrow> reaches node q target \<Longrightarrow> reaches (NDir entries) (name # q) target"
  by (metis reaches.below reaches_nonDirE)

lemma markdown_files_reached:
  "f \<in> set (collect_markdown_files k path node) \<Longrightarrow>
     \<exists>q. fst f = (k, path @ q) \<and> reaches node q (NFile (snd f)) \<and> is_markdown (last q)"
proof (induction k path node rule: collect_markdown_files.induct)
  case (1 k path entries)
  then obtain name node where e: "(name, node) \<in> set entries"
      and f: "f \<in> set (case node of
         NDir _ \<Rightarrow> collect_markdown_files k (path @ [name]) node
       | NFile content \<Rightarrow> if is_markdown name then [((k, path @ [name]), content)] else []
       | _ \<Rightarrow> [])"
    by auto
  show ?case
  proof (cases node)
    case (NFile content)
    then show ?thesis
      using e f by (intro exI [of _ "[name]"]) (auto split: if_splits intro: reaches.entry)
  next
    case (NDir es)
    then have "f \<in> set (collect_markdown_files k (path @ [name]) node)" using f by simp
    then obtain q where q: "fst f = (k, (path @ [name]) @ q)" "reaches node q (NFile (snd f))"
        "is_markdown (last q)"
      using 1(1) [OF e refl] NDir by blast
    then show ?thesis
      using reaches_below [OF e q(2)] reaches_path [OF q(2)]
      by (intro exI [of _ "name # q"]) simp
  qed (use f in auto)
qed simp_all

lemma reached_markdown_files:
  "reaches node q (NFile c) \<Longrightarrow> is_markdown (last q) \<Longrightarrow>
     ((k, path @ q), c) \<in> set (collect_markdown_files k path node)"
proof (induction node q "NFile c" arbitrary: path rule: reaches.induct)
  case (below name es entries q)
  have "is_markdown (last q)"
    using below reaches_path by (metis last_ConsR)
  from below.hyps(3) [OF this, of "path @ [name]"] below.hyps(1) show ?case
    by (auto intro!: bexI [of _ "(name, NDir es)"] simp del: collect_markdown_files.simps
        simp: collect_markdown_files.simps(1) [of k path entries])
qed force

text \<open>The files found are the Markdown files reached without a symlink.\<close>

lemma markdown_files_iff:
  "((k', p), c) \<in> set (collect_markdown_files k [] node) \<longleftrightarrow>
     k' = k \<and> reaches node p (NFile c) \<and> is_markdown (last p)"
  using markdown_files_reached [of "((k', p), c)" k "[]" node]
    reached_markdown_files [of node p c k "[]"]
  by auto

lemma collect_kind: "f \<in> set (collect_markdown_files k [] node) \<Longrightarrow> fst (fst f) = k"
  by (cases f; cases "fst f") (simp add: markdown_files_iff)

lemma collect_nondir: "\<not> is_dir node \<Longrightarrow> collect_markdown_files k path node = []"
  by (cases node) simp_all

lemma distinct_all_kinds: "distinct all_kinds"
  by (simp add: all_kinds_def)

lemma set_kinds [simp]:
  "set (sort_key slug (remdups (if kinds = [] then all_kinds else kinds))) =
     (if kinds = [] then UNIV else set kinds)"
  by auto

lemma local_files_iff:
  "((k, p), c) \<in> set (local_markdown_files_for_kinds tree kinds) \<longleftrightarrow>
     (kinds = [] \<or> k \<in> set kinds) \<and> reaches (tree k) p (NFile c) \<and> is_markdown (last p)"
  by (auto simp: local_markdown_files_for_kinds_def sorted_files_def found_paths.set_sort_by
      markdown_files_iff)

subsection \<open>The order of the walks does not matter\<close>

lemma filter_concat_kinds:
  assumes "distinct ks" and "k \<in> set ks"
    and "\<And>j f. f \<in> set (g j) \<Longrightarrow> fst (fst f) = j"
    and "\<And>f. p f \<Longrightarrow> fst (fst f) = k"
  shows "filter p (concat (map g ks)) = filter p (g k)"
  using assms(1,2)
proof (induction ks)
  case (Cons j ks)
  have other: "filter p (g i) = []" if "i \<noteq> k" for i
    using assms(3,4) that by (metis filter_False)
  have "filter p (concat (map g is)) = []" if "k \<notin> set is" for "is"
    using that by (induction "is") (auto simp: other)
  with Cons other show ?case by (cases "j = k") auto
qed simp

lemma path_key_kind: "path_key a = path_key b \<Longrightarrow> fst a = fst b"
  by (simp add: path_key_def)

lemma sorted_files_cong:
  assumes "distinct ks" and "distinct js" and "set ks = set js"
  shows "sorted_files tree ks = sorted_files tree js"
proof -
  let ?g = "\<lambda>k. collect_markdown_files k [] (tree k)"
  have "mset ks = mset js" using assms by (simp add: set_eq_iff_mset_eq_distinct)
  then have m: "mset (concat (map ?g ks)) = mset (concat (map ?g js))"
    by (simp add: mset_concat sum_mset_sum_list [symmetric] del: sum_mset_sum_list)
  show ?thesis
    unfolding sorted_files_def found_paths.sort_by_key
  proof (rule properties_for_sort_key)
    show "mset (sort_key (path_key \<circ> fst) (concat (map ?g js))) = mset (concat (map ?g ks))"
      using m by simp
    fix f assume "f \<in> set (sort_key (path_key \<circ> fst) (concat (map ?g js)))"
    then have k: "fst (fst f) \<in> set ks" using assms(3) by (auto dest: collect_kind)
    let ?p = "\<lambda>x :: found. (path_key \<circ> fst) f = (path_key \<circ> fst) x"
    have block: "filter ?p (concat (map ?g is)) = filter ?p (?g (fst (fst f)))"
      if "distinct is" "fst (fst f) \<in> set is" for "is"
      using that by (intro filter_concat_kinds) (auto simp: collect_kind dest: path_key_kind)
    have stable: "filter ?p (sort_key (path_key \<circ> fst) xs) = filter ?p xs" for xs
      using sort_key_stable [of "path_key \<circ> fst" "(path_key \<circ> fst) f" xs] by (simp add: eq_commute)
    have "filter ?p (sort_key (path_key \<circ> fst) (concat (map ?g js))) =
        filter ?p (concat (map ?g js))"
      by (rule stable)
    also have "\<dots> = filter ?p (concat (map ?g ks))"
      using k assms by (simp only: block)
    finally show "filter ?p (sort_key (path_key \<circ> fst) (concat (map ?g js))) =
        filter ?p (concat (map ?g ks))" .
  qed simp
qed

subsection \<open>The capture agrees with the catalog and the layout check\<close>

lemma context_walk_eq:
  "context_walk tree =
     (concat (map (\<lambda>k. collect_markdown_files k [] (tree k)) all_kinds), layout_issues tree)"
proof -
  have "context_walk tree =
    fold (\<lambda>k (ps, is).
       (ps @ collect_markdown_files k [] (tree k),
        is @ (if bad_collection (tree k) then [collection_issue k]
              else collect_layout_issues k [] (tree k)))) all_kinds ([], [])"
    unfolding context_walk_def
    by (intro fold_cong [OF refl refl] ext)
      (auto simp: collect_context_paths_eq bad_collection_def collect_nondir split: prod.splits)
  then show ?thesis by (simp add: fold_push2 layout_issues_def)
qed

definition read_error_of :: "found \<Rightarrow> ustr option" where
  "read_error_of f = (case snd f of Inl e \<Rightarrow> Some e | Inr _ \<Rightarrow> None)"

definition captured :: "'v platform \<Rightarrow> mem_path \<times> bytes \<Rightarrow> document" where
  "captured P e =
     (case utf8_decode (snd e) of
        Some content \<Rightarrow> document_from_content (fst e) content
      | None \<Rightarrow> unreadable_document (fst e) (utf8_message P (snd e)))"

definition readable :: "mem_path \<times> bytes \<Rightarrow> found" where
  "readable e = (fst e, Inr (snd e))"

lemma capture_files_ok:
  "capture_files P (map readable es) tree docs =
     Inr (tree @ concat (map revision_entry es), docs @ map (captured P) es)"
  by (induction es arbitrary: tree docs)
    (auto simp: readable_def captured_def split: option.splits)

lemma capture_files_error:
  "capture_files P (map readable es @ (path, Inl e) # files) tree docs =
     Inl (lit ''cannot capture '' @ display_path path @ lit '': '' @ e)"
  by (induction es arbitrary: tree docs) (auto simp: readable_def)

lemma readable_cases:
  "(\<exists>es. files = map readable es) \<or>
   (\<exists>es path e rest. files = map readable es @ (path, Inl e) # rest)"
proof (induction files)
  case (Cons f files)
  obtain path c where f: "f = (path, c)" by (cases f)
  show ?case
  proof (cases c)
    case (Inl e)
    then show ?thesis
      using f by (intro disjI2 exI [of _ "[]"]) auto
  next
    case (Inr raw)
    then have f: "f = readable (path, raw)" using f by (simp add: readable_def)
    from Cons show ?thesis
    proof
      assume "\<exists>es. files = map readable es"
      then show ?thesis using f by (metis list.simps(9))
    next
      assume "\<exists>es path e rest. files = map readable es @ (path, Inl e) # rest"
      then show ?thesis using f by (metis append_Cons list.simps(9))
    qed
  qed
qed simp

lemma capture_walk:
  "capture_local_catalog P tree =
     (case capture_files P (local_markdown_files tree) [] [] of
        Inl e \<Rightarrow> Inl e
      | Inr (stream, documents) \<Rightarrow>
          Inr \<lparr>revision = sha256 P stream, cap_documents = sort_by document_order documents,
               cap_layout_issues = layout_issues tree\<rparr>)"
proof -
  have "sorted_files tree all_kinds = local_markdown_files tree"
    unfolding local_markdown_files_def local_markdown_files_for_kinds_def
    by (rule sorted_files_cong) (auto simp: distinct_all_kinds)
  then show ?thesis
    by (simp add: capture_local_catalog_def context_walk_eq sorted_files_def)
qed

lemma captured_load:
  "doc_kind (captured P e) = doc_kind (load_local (readable e))"
  "doc_id (captured P e) = doc_id (load_local (readable e))"
  "doc_path (captured P e) = doc_path (load_local (readable e))"
  "document_is_valid Q (captured P e) = document_is_valid Q (load_local (readable e))"
  "document_is_valid Q (captured P e) \<Longrightarrow> captured P e = load_local (readable e)"
  by (simp_all add: captured_def load_local_def load_document_def readable_def
      unreadable_document_def document_is_valid_def validate_document_def split: option.splits)

lemma filter_valid_captured:
  "filter (document_is_valid Q) (map (captured P) es) =
     filter (document_is_valid Q) (map (load_local \<circ> readable) es)"
  by (induction es) (simp_all add: captured_load(4) captured_load(5) [of Q P])

text \<open>
  A capture that succeeds has the layout issues of the layout check and, of the documents, the
  same valid ones in the same order as the catalog.
\<close>

lemma capture_Inr:
  assumes "capture_local_catalog P tree = Inr c"
  obtains es where "local_markdown_files tree = map readable es"
    and "revision c = sha256 P (concat (map revision_entry es))"
    and "cap_documents c = sort_by document_order (map (captured P) es)"
    and "cap_layout_issues c = layout_issues tree"
  using assms readable_cases [of "local_markdown_files tree"]
  by (auto simp: capture_walk capture_files_ok capture_files_error)

lemma capture_readable:
  "local_markdown_files tree = map readable es \<Longrightarrow>
     capture_local_catalog P tree =
       Inr \<lparr>revision = sha256 P (concat (map revision_entry es)),
            cap_documents = sort_by document_order (map (captured P) es),
            cap_layout_issues = layout_issues tree\<rparr>"
  by (simp add: capture_walk capture_files_ok)

lemma capture_catalog:
  assumes "capture_local_catalog P tree = Inr c"
  shows "filter (document_is_valid Q) (cap_documents c) = catalog_local Q tree"
proof -
  obtain es where es: "local_markdown_files tree = map readable es"
      "cap_documents c = sort_by document_order (map (captured P) es)"
    using capture_Inr [OF assms] by metis
  show ?thesis
    unfolding catalog_local_def catalog_local_unchecked_def es documents.sort_by_key filter_sort
    using filter_valid_captured [of Q P es] by simp
qed

lemma capture_error_iff:
  "(\<exists>e. capture_local_catalog P tree = Inl e) \<longleftrightarrow>
     (\<exists>f\<in>set (local_markdown_files tree). read_error_of f \<noteq> None)"
  using readable_cases [of "local_markdown_files tree"]
  by (auto simp: capture_walk capture_files_ok capture_files_error readable_def read_error_of_def)

subsection \<open>Properties\<close>

text \<open>The records of a tree are exactly its Markdown files that are reached through directories
  and never through a symlink, in the order of their paths; and the single pass of the capture
  finds the same files and the same layout issues as the two separate walks.
\<close>

lemma files_found:
  "(((k, p), c) \<in> set (local_markdown_files_for_kinds tree kinds) \<longleftrightarrow>
      (kinds = [] \<or> k \<in> set kinds) \<and> reaches (tree k) p (NFile c) \<and> is_markdown (last p)) \<and>
   sorted (map (path_key \<circ> fst) (local_markdown_files_for_kinds tree kinds)) \<and>
   mset (fst (context_walk tree)) = mset (local_markdown_files tree) \<and>
   snd (context_walk tree) = layout_issues tree"
proof -
  have "sorted_files tree all_kinds = local_markdown_files tree"
    unfolding local_markdown_files_def local_markdown_files_for_kinds_def
    by (rule sorted_files_cong) (auto simp: distinct_all_kinds)
  then have "mset (fst (context_walk tree)) = mset (local_markdown_files tree)"
    using found_paths.mset_sort_by [of "fst (context_walk tree)"]
    by (simp only: sorted_files_def context_walk_eq fst_conv)
  moreover have "sorted (map (path_key \<circ> fst) (local_markdown_files_for_kinds tree kinds))"
    unfolding local_markdown_files_for_kinds_def sorted_files_def by (rule found_paths.sorted_sort_by)
  ultimately show ?thesis using local_files_iff [of k p c tree kinds] by (simp add: context_walk_eq)
qed

end
