(* ===== verification/Memory_Read.thy ===== *)
theory Memory_Read
  imports Memory_Tree
begin

text \<open>
  What the readers of the Memory tree return: one record is looked up in its own collection only,
  and that is the lookup in the catalog of valid documents; the stream the revision hashes
  determines the paths and the bytes of every file.
\<close>

subsection \<open>One collection is enough\<close>

lemma sort_key_const_on: "\<forall>x\<in>set xs. f x = c \<Longrightarrow> sort_key f xs = xs"
  by (induction xs) (auto simp: insort_is_Cons)

lemma local_files_of_kind:
  "local_markdown_files_for_kinds tree [k] =
     filter (\<lambda>f. fst (fst f) = k) (local_markdown_files tree)"
proof -
  have one: "filter (\<lambda>f. fst (fst f) = k)
      (concat (map (\<lambda>k. collect_markdown_files k [] (tree k)) ks)) =
      collect_markdown_files k [] (tree k)" if "distinct ks" "k \<in> set ks" for ks
    using filter_concat_kinds [OF that, of "\<lambda>k. collect_markdown_files k [] (tree k)"
        "\<lambda>f. fst (fst f) = k"]
    by (auto simp: collect_kind filter_id_conv)
  have "distinct (sort_key slug (remdups all_kinds))" "k \<in> set (sort_key slug (remdups all_kinds))"
    by simp_all
  from one [OF this] show ?thesis
    by (simp add: local_markdown_files_for_kinds_def local_markdown_files_def sorted_files_def
        found_paths.sort_by_key filter_sort)
qed

lemma load_local_kind: "doc_kind (load_local f) = slug (fst (fst f))"
  by (simp add: load_local_def load_document_def unreadable_document_def infer_kind_def
      split: sum.splits option.splits)

lemma valid_document_kind:
  "document_is_valid P doc \<Longrightarrow> canonical_id_kind (doc_id doc) = Some (doc_kind doc)"
proof -
  assume "document_is_valid P doc"
  then have v: "canonical_id_matches_kind (doc_id doc) (doc_kind doc)"
    by (auto simp: document_is_valid_def validate_document_def blank_def split: option.splits)
  then obtain k suffix where "parse_record_id (doc_id doc) = Some (k, suffix)" "slug k = doc_kind doc"
    by (auto simp: canonical_id_matches_kind_iff)
  moreover from this have "split_once 58 (doc_id doc) = Some (doc_kind doc, suffix)"
    using colon_not_in_slug [of k] by (simp add: parse_record_id_iff split_once_Some lit_def)
  ultimately show ?thesis using v by (simp add: canonical_id_kind_def)
qed

lemma canonical_id_kind_slug: "canonical_id_kind i = Some kind \<Longrightarrow> \<exists>k. kind = slug k"
  by (auto simp: canonical_id_kind_def canonical_id_matches_kind_iff
      split: option.splits if_splits)

lemma find_document_in_chunk_concat:
  "concat (scan_chunks_with_workers items workers (find_document_in_chunk P i)) =
     find_document_in_chunk P i items"
  unfolding find_document_in_chunk_def [abs_def] by (rule concat_scan_filter)

lemma find_document_in_paths_eq:
  "find_document_in_paths P paths i workers =
     (case find_document_in_chunk P i paths of
        [] \<Rightarrow> Inr None
      | [d] \<Rightarrow> Inr (Some d)
      | _ \<Rightarrow> Inl (lit ''knowledge document ID is ambiguous: '' @ i))"
  by (simp add: find_document_in_paths_def scan_chunks_def find_document_in_chunk_concat
      split: option.split)

lemma filter_catalog:
  "filter (\<lambda>d. doc_id d = i) (catalog_local P tree) =
     find_document_in_chunk P i (local_markdown_files tree)"
proof -
  let ?p = "\<lambda>d. doc_id d = i \<and> document_is_valid P d"
  have p: "filter (\<lambda>d. document_is_valid P d \<and> doc_id d = i) ds = filter ?p ds" for ds
    by (rule filter_cong) auto
  have key: "(doc_kind d, doc_id d) = (the (canonical_id_kind i), i)" if "?p d" for d
    using that valid_document_kind [of P d] by auto
  have "filter ?p (sort_key (\<lambda>d. (doc_kind d, doc_id d)) ds) = filter ?p ds" for ds
  proof -
    have "sort_key (\<lambda>d. (doc_kind d, doc_id d)) (filter ?p ds) = filter ?p ds"
      by (rule sort_key_const_on [where c = "(the (canonical_id_kind i), i)"]) (use key in auto)
    then show ?thesis by (simp add: filter_sort)
  qed
  then show ?thesis
    by (simp add: catalog_local_def catalog_local_unchecked_def documents.sort_by_key p
        find_document_in_chunk_def)
qed

lemma find_document_by_id_catalog:
  "find_document_by_id P tree i workers =
     (case filter (\<lambda>d. doc_id d = i) (catalog_local P tree) of
        [] \<Rightarrow> Inr None
      | [d] \<Rightarrow> Inr (Some d)
      | _ \<Rightarrow> Inl (lit ''knowledge document ID is ambiguous: '' @ i))"
proof (cases "canonical_id_kind i")
  case None
  then have "filter (\<lambda>d. doc_id d = i) (catalog_local P tree) = []"
    using valid_document_kind by (fastforce simp: catalog_local_def filter_empty_conv)
  with None show ?thesis by (simp add: find_document_by_id_def)
next
  case (Some kind)
  then obtain k where k: "kind = slug k" using canonical_id_kind_slug by blast
  have "filter (\<lambda>d. doc_id d = i \<and> document_is_valid P d) (map load_local fs) =
      filter (\<lambda>d. doc_id d = i \<and> document_is_valid P d)
        (map load_local (filter (\<lambda>f. fst (fst f) = k) fs))" for fs
  proof (induction fs)
    case (Cons f fs)
    have "fst (fst f) = k" if "doc_id (load_local f) = i" "document_is_valid P (load_local f)"
      using valid_document_kind [OF that(2)] that(1) Some k by (simp add: load_local_kind)
    with Cons show ?case by auto
  qed simp
  then have "find_document_in_chunk P i (local_markdown_files tree) =
      find_document_in_chunk P i (local_markdown_files_for_kinds tree [k])"
    by (simp add: find_document_in_chunk_def local_files_of_kind)
  with Some k show ?thesis
    by (simp add: find_document_by_id_def find_document_in_paths_eq filter_catalog)
qed

text \<open>What reading a record returns, over the catalog of valid documents.\<close>

lemma read_internal_catalog:
  "read_internal P tree i wanted workers =
     (case filter (\<lambda>d. doc_id d = i) (catalog_local P tree) of
        [] \<Rightarrow> Inl (lit ''knowledge document not found: '' @ i)
      | [d] \<Rightarrow>
          (case wanted of
             None \<Rightarrow> Inr \<lparr>rr_document = d, rr_section = None\<rparr>
           | Some w \<Rightarrow>
               (case filter (section_matches w) (split_sections (doc_body d)) of
                  [] \<Rightarrow> Inl (lit ''section not found in '' @ i @ lit '': '' @ debug_section P wanted)
                | [s] \<Rightarrow> Inr \<lparr>rr_document = d, rr_section = Some s\<rparr>
                | _ \<Rightarrow> Inl (lit ''section is ambiguous in '' @ i @ lit '': '' @
                         debug_section P wanted)))
      | _ \<Rightarrow> Inl (lit ''knowledge document ID is ambiguous: '' @ i))"
proof -
  have "section_matches (to_ascii_lowercase w) = section_matches w" for w
    by (simp add: section_matches_def fun_eq_iff)
  then show ?thesis
    by (simp add: read_internal_def find_document_by_id_catalog split: list.split option.split)
qed

subsection \<open>The revision determines the tree\<close>

definition proper_name :: "ustr \<Rightarrow> bool" where
  "proper_name c \<longleftrightarrow> c \<noteq> [] \<and> 47 \<notin> set c \<and> list_all is_scalar c"

definition proper_entry :: "mem_path \<times> bytes \<Rightarrow> bool" where
  "proper_entry e \<longleftrightarrow>
     list_all proper_name (snd (fst e)) \<and> byte_len (relative_path (fst e)) < 2 ^ 64 \<and>
     length (snd e) < 2 ^ 64"

lemma length_be64 [simp]: "length (be64 n) = 8"
  by (simp add: be64_def)

fun be_value :: "bytes \<Rightarrow> nat \<Rightarrow> nat" where
  "be_value [] n = n"
| "be_value (b # bs) n = be_value bs (n * 256 + b)"

lemma digit_step: "n div m div 256 * 256 + n div m mod 256 = n div (m::nat)"
  by simp

lemma be_value_be64: "n < 2 ^ 64 \<Longrightarrow> be_value (be64 n) 0 = n"
proof -
  assume n: "n < 2 ^ 64"
  have step: "n div (256 * m) * 256 + n div m mod 256 = n div m" for m
    by (metis digit_step div_mult2_eq mult.commute)
  have "n div 72057594037927936 < 256" using n by simp
  then show ?thesis
    using step [of 281474976710656] step [of 1099511627776] step [of 4294967296]
      step [of 16777216] step [of 65536] step [of 256] step [of 1]
    by (simp add: be64_def upt_rec)
qed

lemma be64_inj: "m < 2 ^ 64 \<Longrightarrow> n < 2 ^ 64 \<Longrightarrow> be64 m = be64 n \<longleftrightarrow> m = n"
  by (metis be_value_be64)

lemma framed_inj:
  assumes "length a < 2 ^ 64" and "length b < 2 ^ 64" and "framed a @ r = framed b @ q"
  shows "a = b \<and> r = q"
proof -
  from assms(3) have "be64 (length a) = be64 (length b)" and r: "a @ r = b @ q"
    by (simp_all add: framed_def append_eq_append_conv)
  then have "length a = length b" using assms be64_inj by blast
  with r show ?thesis by simp
qed

lemma join_cons_inj: "join [47] as = join [47] bs \<Longrightarrow> \<forall>a\<in>set as. 47 \<notin> set a \<Longrightarrow>
    \<forall>b\<in>set bs. 47 \<notin> set b \<Longrightarrow> as \<noteq> [] \<Longrightarrow> bs \<noteq> [] \<Longrightarrow> as = bs"
  by (metis split_on_join)

lemma slug_no_slash: "47 \<notin> set (slug k)"
  by (cases k) (simp_all add: lit_def)

lemma relative_path_inj:
  assumes "list_all proper_name (snd p)" and "list_all proper_name (snd q)"
    and "relative_path p = relative_path q"
  shows "p = q"
proof -
  have "\<forall>a\<in>set (path_key x). 47 \<notin> set a" if "list_all proper_name (snd x)" for x
    using that slug_no_slash [of "fst x"] by (auto simp: path_key_def proper_name_def list_all_iff)
  then have "path_key p = path_key q"
    using assms by (intro join_cons_inj) (auto simp: relative_path_def lit_def path_key_def)
  then show ?thesis by (simp add: path_key_def prod_eq_iff)
qed

lemma relative_path_scalar:
  "list_all proper_name (snd p) \<Longrightarrow> list_all is_scalar (relative_path p)"
proof -
  assume p: "list_all proper_name (snd p)"
  have j: "list_all is_scalar (join [47] ps)" if "\<forall>x\<in>set ps. list_all is_scalar x" for ps
    using that by (induction "[47::nat]" ps rule: join.induct) (auto simp: is_scalar_def)
  have "list_all is_scalar (slug k)" for k
    by (cases k) (simp_all add: lit_def is_scalar_def)
  then have "\<forall>x\<in>set (path_key p). list_all is_scalar x"
    using p by (auto simp: path_key_def proper_name_def list_all_iff)
  then show ?thesis
    using j [of "path_key p"] by (simp add: relative_path_def lit_def)
qed

lemma revision_stream_inj:
  assumes "list_all proper_entry es" and "list_all proper_entry fs"
    and "concat (map revision_entry es) = concat (map revision_entry fs)"
  shows "es = fs"
  using assms
proof (induction es arbitrary: fs)
  case Nil
  then show ?case by (cases fs) (auto simp: revision_entry_def framed_def be64_def)
next
  case (Cons e es)
  then obtain f fs' where fs: "fs = f # fs'"
    by (cases fs) (auto simp: revision_entry_def framed_def be64_def)
  have pe: "proper_entry e" "proper_entry f" using Cons.prems fs by auto
  then have "length (utf8_encode (relative_path (fst e))) < 2 ^ 64"
      "length (utf8_encode (relative_path (fst f))) < 2 ^ 64"
    by (simp_all add: proper_entry_def length_utf8_encode)
  moreover have "framed (utf8_encode (relative_path (fst e))) @
        framed (snd e) @ concat (map revision_entry es) =
      framed (utf8_encode (relative_path (fst f))) @
        framed (snd f) @ concat (map revision_entry fs')"
    using Cons.prems(3) fs by (simp add: revision_entry_def [of e] revision_entry_def [of f])
  ultimately have "utf8_encode (relative_path (fst e)) = utf8_encode (relative_path (fst f)) \<and>
      framed (snd e) @ concat (map revision_entry es) =
      framed (snd f) @ concat (map revision_entry fs')"
    by (rule framed_inj)
  then have path: "utf8_encode (relative_path (fst e)) = utf8_encode (relative_path (fst f))"
    and rest: "framed (snd e) @ concat (map revision_entry es) =
      framed (snd f) @ concat (map revision_entry fs')"
    by blast+
  have "fst e = fst f"
    using path pe relative_path_scalar relative_path_inj
    by (auto simp: proper_entry_def utf8_encode_inj)
  moreover have "snd e = snd f \<and> concat (map revision_entry es) = concat (map revision_entry fs')"
    using framed_inj [OF _ _ rest] pe by (simp add: proper_entry_def)
  ultimately show ?case
    using Cons.IH [of fs'] Cons.prems fs by (simp add: prod_eq_iff)
qed

subsection \<open>Properties\<close>

text \<open>
  C4: Reading a record by its identifier scans one collection, in any number of workers, and
  returns the only valid record of the whole catalog with that identifier, with the requested
  section when exactly one has that heading or heading path; the errors are the code's for a
  missing or ambiguous record or section.
\<close>

theorem read_is_catalog_lookup:
  "read_internal P tree i wanted workers =
     (case filter (\<lambda>d. doc_id d = i) (catalog_local P tree) of
        [] \<Rightarrow> Inl (lit ''knowledge document not found: '' @ i)
      | [d] \<Rightarrow>
          (case wanted of
             None \<Rightarrow> Inr \<lparr>rr_document = d, rr_section = None\<rparr>
           | Some w \<Rightarrow>
               (case filter (section_matches w) (split_sections (doc_body d)) of
                  [] \<Rightarrow> Inl (lit ''section not found in '' @ i @ lit '': '' @ debug_section P wanted)
                | [s] \<Rightarrow> Inr \<lparr>rr_document = d, rr_section = Some s\<rparr>
                | _ \<Rightarrow> Inl (lit ''section is ambiguous in '' @ i @ lit '': '' @
                         debug_section P wanted)))
      | _ \<Rightarrow> Inl (lit ''knowledge document ID is ambiguous: '' @ i))"
  by (rule read_internal_catalog)


definition example_tree :: memory_tree where
  "example_tree = (\<lambda>k. if k = Wiki then NDir [(lit ''a.md'', NFile (Inr [45, 45, 45]))] else NNoMetadata)"


end
