(* ===== verification/Ranking.thy ===== *)
theory Ranking
  imports Guru_Prelude
begin

text \<open>
  Bounded ranking: the buffer of the best \<open>limit\<close> results per scan chunk
  (\<^theory_text>\<open>retain_top_ranked_result\<close> in src/knowledge/query.rs) and the final sort,
  removal of duplicate identifiers and cut (\<^theory_text>\<open>finalize_search_results\<close>), both for any
  comparison that follows a key. The locale \<open>ranked\<close> proves that the buffers of the chunks
  lose nothing: ranking the buffers gives what ranking all candidates gives.
\<close>

definition retain_top_by ::
    "('a \<Rightarrow> 'a \<Rightarrow> ordering) \<Rightarrow> ('a \<Rightarrow> 'i) \<Rightarrow> nat \<Rightarrow> 'a list \<Rightarrow> 'a \<Rightarrow> 'a list" where
  "retain_top_by order ident limit buf c =
     (case position (\<lambda>x. ident x = ident c) buf of
        Some i \<Rightarrow> if is_lt (order c (buf ! i)) then sort_by order (buf[i := c]) else buf
      | None \<Rightarrow> take limit (sort_by order (buf @ [c])))"

definition finalize_by ::
    "('a \<Rightarrow> 'a \<Rightarrow> ordering) \<Rightarrow> ('a \<Rightarrow> 'i) \<Rightarrow> nat \<Rightarrow> 'a list \<Rightarrow> 'a list" where
  "finalize_by order ident limit out = take limit (retain_first ident [] (sort_by order out))"

text \<open>The reference: one insertion into the sorted list of the best element per identifier.\<close>

fun rank_insert :: "('a \<Rightarrow> 'k::linorder) \<Rightarrow> ('a \<Rightarrow> 'i) \<Rightarrow> 'a \<Rightarrow> 'a list \<Rightarrow> 'a list" where
  "rank_insert key ident c [] = [c]"
| "rank_insert key ident c (y # ys) =
     (if key y \<le> key c
      then (if ident y = ident c then y # ys else y # rank_insert key ident c ys)
      else c # filter (\<lambda>z. ident z \<noteq> ident c) (y # ys))"

definition rank_all :: "('a \<Rightarrow> 'k::linorder) \<Rightarrow> ('a \<Rightarrow> 'i) \<Rightarrow> 'a list \<Rightarrow> 'a list \<Rightarrow> 'a list" where
  "rank_all key ident xs D = fold (rank_insert key ident) xs D"

lemma rank_all_simps [simp]:
  "rank_all key ident [] D = D"
  "rank_all key ident (x # xs) D = rank_all key ident xs (rank_insert key ident x D)"
  "rank_all key ident (xs @ ys) D = rank_all key ident ys (rank_all key ident xs D)"
  by (simp_all add: rank_all_def)

definition ranking :: "('a \<Rightarrow> 'k::linorder) \<Rightarrow> ('a \<Rightarrow> 'i) \<Rightarrow> 'a list \<Rightarrow> bool" where
  "ranking key ident D \<longleftrightarrow> sorted (map key D) \<and> distinct (map ident D)"

lemma ranking_Nil [simp]: "ranking key ident []"
  by (simp add: ranking_def)

lemma ranking_Cons:
  "ranking key ident (y # ys) \<longleftrightarrow>
     (\<forall>z\<in>set ys. key y \<le> key z \<and> ident z \<noteq> ident y) \<and> ranking key ident ys"
proof -
  have "ident y \<notin> ident ` set ys \<longleftrightarrow> (\<forall>z\<in>set ys. ident z \<noteq> ident y)"
    by (auto simp: image_iff)
  then show ?thesis by (auto simp: ranking_def)
qed

lemma set_rank_insert: "set (rank_insert key ident c D) \<subseteq> insert c (set D)"
  by (induction D) auto

lemma ident_rank_insert: "ident ` set (rank_insert key ident c D) = insert (ident c) (ident ` set D)"
  by (induction D) auto

lemma ranking_filter: "ranking key ident D \<Longrightarrow> ranking key ident (filter P D)"
  by (induction D) (auto simp: ranking_Cons)

lemma ranking_rank_insert: "ranking key ident D \<Longrightarrow> ranking key ident (rank_insert key ident c D)"
proof (induction D)
  case (Cons y ys)
  show ?case
  proof (cases "key y \<le> key c \<and> ident y \<noteq> ident c")
    case True
    have "\<forall>z\<in>set (rank_insert key ident c ys). z = c \<or> z \<in> set ys"
      using set_rank_insert by fastforce
    with True Cons show ?thesis by (auto simp: ranking_Cons)
  next
    case False
    with Cons.prems show ?thesis
      by (auto simp: ranking_Cons intro: ranking_filter dest: order_trans)
  qed
qed (simp add: ranking_Cons)

lemma ranking_rank_all: "ranking key ident D \<Longrightarrow> ranking key ident (rank_all key ident xs D)"
  by (induction xs arbitrary: D) (simp_all add: ranking_rank_insert)

lemma ranking_take: "ranking key ident D \<Longrightarrow> ranking key ident (take n D)"
  unfolding ranking_def by (simp add: take_map [symmetric] sorted_wrt_take distinct_take)

lemma filter_ident_none:
  "\<forall>z\<in>set D. ident z \<noteq> i \<Longrightarrow> filter (\<lambda>z. ident z \<noteq> i) D = D"
  by (induction D) auto

text \<open>Only the first \<open>n\<close> entries decide the first \<open>n\<close> entries after an insertion.\<close>

lemma take_filter_ident:
  "ranking key ident D \<Longrightarrow>
   take n (filter (\<lambda>z. ident z \<noteq> i) (take (Suc n) D)) = take n (filter (\<lambda>z. ident z \<noteq> i) D)"
proof (induction D arbitrary: n)
  case (Cons y ys)
  show ?case
  proof (cases "ident y = i")
    case True
    then have "\<forall>z\<in>set ys. ident z \<noteq> i" using Cons.prems by (auto simp: ranking_Cons)
    moreover from this have "\<forall>z\<in>set (take n ys). ident z \<noteq> i" by (auto dest: in_set_takeD)
    ultimately show ?thesis using True by (simp add: filter_ident_none)
  next
    case False
    with Cons show ?thesis by (cases n) (auto simp: ranking_Cons)
  qed
qed simp

lemma take_rank_insert:
  "ranking key ident D \<Longrightarrow>
   take n (rank_insert key ident c (take n D)) = take n (rank_insert key ident c D)"
proof (induction D arbitrary: n)
  case (Cons y ys)
  show ?case
  proof (cases n)
    case (Suc m)
    then show ?thesis
      using Cons take_filter_ident [OF Cons.prems, of m "ident c"]
      by (cases m) (auto simp: ranking_Cons)
  qed simp
qed simp

lemma take_rank_all:
  "ranking key ident D \<Longrightarrow>
   take n (rank_all key ident xs (take n D)) = take n (rank_all key ident xs D)"
proof (induction xs arbitrary: D)
  case (Cons x xs)
  let ?E = "rank_insert key ident x (take n D)" and ?F = "rank_insert key ident x D"
  have "take n (rank_all key ident xs ?E) = take n (rank_all key ident xs (take n ?E))"
    using Cons by (simp add: ranking_rank_insert ranking_take)
  also have "take n ?E = take n ?F" using Cons.prems by (rule take_rank_insert)
  also have "take n (rank_all key ident xs (take n ?F)) = take n (rank_all key ident xs ?F)"
    using Cons by (simp add: ranking_rank_insert)
  finally show ?case by simp
qed simp

text \<open>Laws of the insertion.\<close>

lemma rank_insert_first:
  "\<forall>z\<in>set D. key c < key z \<Longrightarrow>
   rank_insert key ident c D = c # filter (\<lambda>z. ident z \<noteq> ident c) D"
  by (cases D) auto

lemma rank_insert_absorb:
  "ranking key ident D \<Longrightarrow> \<exists>y\<in>set D. ident y = ident c \<and> key y \<le> key c \<Longrightarrow>
   rank_insert key ident c D = D"
  by (induction D) (force simp: ranking_Cons)+

lemma filter_rank_insert_same:
  "ident y = i \<Longrightarrow>
   filter (\<lambda>z. ident z \<noteq> i) (rank_insert key ident y D) = filter (\<lambda>z. ident z \<noteq> i) D"
  by (induction D) auto

lemma filter_filter_comm: "filter P (filter Q xs) = filter Q (filter P xs)"
  by (simp add: conj_commute)

lemma filter_rank_insert:
  "ranking key ident D \<Longrightarrow> ident y \<noteq> i \<Longrightarrow>
   filter (\<lambda>z. ident z \<noteq> i) (rank_insert key ident y D) =
   rank_insert key ident y (filter (\<lambda>z. ident z \<noteq> i) D)"
proof (induction D)
  case (Cons z zs)
  show ?case
  proof (cases "key z \<le> key y")
    case False
    then have "\<forall>w\<in>set (z # zs). key y < key w"
      using Cons.prems by (auto simp: ranking_Cons)
    then have "\<forall>w\<in>set (filter (\<lambda>z. ident z \<noteq> i) (z # zs)). key y < key w"
      by auto
    then show ?thesis
      using False Cons.prems
      by (subst rank_insert_first) (auto simp: conj_commute [of "ident _ \<noteq> i"])
  qed (use Cons in \<open>auto simp: ranking_Cons\<close>)
qed simp

lemma rank_insert_same:
  "ranking key ident D \<Longrightarrow> key c < key y \<Longrightarrow> ident y = ident c \<Longrightarrow>
   rank_insert key ident c (rank_insert key ident y D) = rank_insert key ident c D"
  by (induction D) (auto simp: ranking_Cons filter_ident_none filter_rank_insert_same)

lemma rank_insert_commute:
  "ranking key ident D \<Longrightarrow> key c < key y \<Longrightarrow> ident y \<noteq> ident c \<Longrightarrow>
   rank_insert key ident c (rank_insert key ident y D) =
   rank_insert key ident y (rank_insert key ident c D)"
proof (induction D)
  case (Cons z zs)
  show ?case
  proof (cases "key z \<le> key c")
    case True
    with Cons show ?thesis by (auto simp: ranking_Cons)
  next
    case False
    then have c: "\<forall>w\<in>set (z # zs). key c < key w"
      using Cons.prems by (auto simp: ranking_Cons)
    then have "\<forall>w\<in>set (rank_insert key ident y (z # zs)). key c < key w"
      using Cons.prems(2) set_rank_insert [of key ident y "z # zs"] by blast
    then have "rank_insert key ident c (rank_insert key ident y (z # zs)) =
        c # filter (\<lambda>w. ident w \<noteq> ident c) (rank_insert key ident y (z # zs))"
      by (rule rank_insert_first)
    also have "\<dots> = c # rank_insert key ident y (filter (\<lambda>w. ident w \<noteq> ident c) (z # zs))"
      using Cons.prems by (simp add: filter_rank_insert del: rank_insert.simps filter.simps)
    also have "\<dots> = rank_insert key ident y (rank_insert key ident c (z # zs))"
      using c Cons.prems(2,3)
      by (subst rank_insert_first [OF c]) (auto simp del: filter.simps dest: leD)
    finally show ?thesis .
  qed
qed auto

subsection \<open>The final sort\<close>

fun insort_after :: "('a \<Rightarrow> 'k::linorder) \<Rightarrow> 'a \<Rightarrow> 'a list \<Rightarrow> 'a list" where
  "insort_after key c [] = [c]"
| "insort_after key c (y # ys) = (if key y \<le> key c then y # insort_after key c ys else c # y # ys)"

lemma insort_insort_after:
  "insort_key key x (insort_after key c M) = insort_after key c (insort_key key x M)"
  by (induction M) auto

lemma foldr_insort_after:
  "foldr (insort_key key) xs (insort_after key c M) =
   insort_after key c (foldr (insort_key key) xs M)"
  by (induction xs) (simp_all add: insort_insort_after)

lemma sort_key_snoc: "sort_key key (xs @ [c]) = insort_after key c (sort_key key xs)"
  using foldr_insort_after [of key xs c "[]"] by (simp add: sort_key_def)

lemma retain_first_Cons_seen:
  "retain_first f (i # seen) xs = filter (\<lambda>z. f z \<noteq> i) (retain_first f seen xs)"
proof (induction xs arbitrary: seen)
  case (Cons x xs)
  show ?case
  proof (cases "f x = i")
    case True
    then show ?thesis using Cons.IH [of seen] Cons.IH [of "i # seen"]
      by (simp add: filter_ident_none)
  next
    case False
    have "retain_first f (f x # i # seen) xs = retain_first f (i # f x # seen) xs"
      by (rule retain_first_seen_cong) auto
    with False show ?thesis using Cons.IH [of seen] Cons.IH [of "f x # seen"] by simp
  qed
qed simp

lemma retain_first_insort_after:
  "sorted (map key L) \<Longrightarrow>
   retain_first ident seen (insort_after key c L) =
     (if ident c \<in> set seen then retain_first ident seen L
      else rank_insert key ident c (retain_first ident seen L))"
proof (induction L arbitrary: seen)
  case (Cons y ys)
  show ?case
  proof (cases "key y \<le> key c")
    case True
    with Cons show ?thesis by auto
  next
    case False
    then have "\<forall>z\<in>set (y # ys). key c < key z" using Cons.prems by auto
    then have "\<forall>z\<in>set (retain_first ident seen (y # ys)). key c < key z"
      using set_retain_first [of ident seen "y # ys"] by blast
    then have "rank_insert key ident c (retain_first ident seen (y # ys)) =
        c # filter (\<lambda>z. ident z \<noteq> ident c) (retain_first ident seen (y # ys))"
      by (rule rank_insert_first)
    also have "\<dots> = c # retain_first ident (ident c # seen) (y # ys)"
      by (simp only: retain_first_Cons_seen)
    finally show ?thesis using False by simp
  qed
qed simp

lemma retain_first_sort_key:
  "retain_first ident [] (sort_key key xs) = rank_all key ident xs []"
proof (induction xs rule: rev_induct)
  case (snoc c xs)
  then show ?case
    by (simp add: sort_key_snoc retain_first_insort_after)
qed simp

subsection \<open>The bounded buffer\<close>

lemma rank_insert_fresh:
  "\<forall>z\<in>set D. ident z \<noteq> ident c \<Longrightarrow> rank_insert key ident c D = insort_after key c D"
  by (induction D) (auto simp: filter_ident_none)

lemma sort_key_sorted: "sorted (map key xs) \<Longrightarrow> sort_key key xs = xs"
  by (induction xs) (auto simp: insort_is_Cons)

lemma sort_key_replace:
  assumes "sorted (map key (A @ y # B))" "key c < key y"
  shows "sort_key key (A @ c # B) = insort_after key c (A @ B)"
proof -
  have B: "\<forall>z\<in>set B. key c < key z"
    using assms by (auto simp: sorted_append)
  have "insort_key key c B = insort_after key c B"
    using B by (cases B) (auto simp: insort_is_Cons)
  moreover have "sort_key key B = B"
    using assms by (intro sort_key_sorted) (simp add: sorted_append)
  ultimately have "sort_key key (A @ c # B) = insort_after key c (foldr (insort_key key) A B)"
    by (simp add: sort_key_def foldr_insort_after)
  also have "foldr (insort_key key) A B = sort_key key (A @ B)"
    using \<open>sort_key key B = B\<close> by (simp add: sort_key_def)
  also have "\<dots> = A @ B"
    using assms by (intro sort_key_sorted) (auto simp: sorted_append)
  finally show ?thesis .
qed

lemma rank_insert_replace:
  "ranking key ident (A @ y # B) \<Longrightarrow> key c < key y \<Longrightarrow> ident y = ident c \<Longrightarrow>
   rank_insert key ident c (A @ y # B) = insort_after key c (A @ B)"
proof (induction A)
  case Nil
  then have "\<forall>z\<in>set B. ident z \<noteq> ident c" "\<forall>z\<in>set B. key c < key z"
    by (auto simp: ranking_Cons)
  with Nil show ?case by (cases B) (auto simp: filter_ident_none dest: leD)
next
  case (Cons a A)
  then have "\<forall>z\<in>set A. ident z \<noteq> ident c" "\<forall>z\<in>set B. ident z \<noteq> ident c" "ident a \<noteq> ident c"
    by (auto simp: ranking_def image_iff)
  with Cons show ?case by (auto simp: ranking_Cons filter_ident_none)
qed

subsection \<open>Merging buffers\<close>

definition covered :: "('a \<Rightarrow> 'k::linorder) \<Rightarrow> ('a \<Rightarrow> 'i) \<Rightarrow> 'a list \<Rightarrow> 'a \<Rightarrow> bool" where
  "covered key ident D x \<longleftrightarrow> (\<exists>y\<in>set D. ident y = ident x \<and> key y \<le> key x)"

lemma covered_insert: "covered key ident (rank_insert key ident c D) c"
  by (induction D) (auto simp: covered_def)

lemma covered_keep:
  assumes D: "ranking key ident D" and x: "covered key ident D x"
  shows "covered key ident (rank_insert key ident e D) x"
  using assms
proof (induction D)
  case (Cons y ys)
  show ?case
  proof (cases "key y \<le> key e")
    case True
    with Cons show ?thesis by (auto simp: covered_def ranking_Cons)
  next
    case False
    from Cons.prems(2) obtain z where z: "z \<in> set (y # ys)" "ident z = ident x" "key z \<le> key x"
      by (auto simp: covered_def)
    then have "key e < key z" using False Cons.prems(1) by (auto simp: ranking_Cons)
    show ?thesis
    proof (cases "ident z = ident e")
      case True
      with z \<open>key e < key z\<close> False show ?thesis by (auto simp: covered_def)
    next
      case nid: False
      with z have "z \<in> set (rank_insert key ident e (y # ys))" using False by auto
      with z show ?thesis unfolding covered_def by blast
    qed
  qed
qed (simp add: covered_def)

lemma covered_rank_all:
  "ranking key ident D \<Longrightarrow> covered key ident D x \<or> x \<in> set E \<Longrightarrow>
   covered key ident (rank_all key ident E D) x"
proof (induction E arbitrary: D)
  case (Cons e E)
  then have "covered key ident (rank_insert key ident e D) x \<or> x \<in> set E"
    using covered_insert covered_keep by auto
  then show ?case using Cons.IH Cons.prems(1) by (simp add: ranking_rank_insert)
qed simp

lemma rank_insert_last:
  "\<forall>z\<in>set E. key c < key z \<Longrightarrow> ranking key ident D \<Longrightarrow>
   rank_insert key ident c (rank_all key ident E D) =
   rank_all key ident (filter (\<lambda>z. ident z \<noteq> ident c) E) (rank_insert key ident c D)"
proof (induction E arbitrary: D)
  case (Cons z zs)
  then have "rank_insert key ident c (rank_all key ident (z # zs) D) =
      rank_all key ident (filter (\<lambda>z. ident z \<noteq> ident c) zs)
        (rank_insert key ident c (rank_insert key ident z D))"
    by (simp add: ranking_rank_insert)
  moreover have "ident z \<noteq> ident c \<Longrightarrow> rank_insert key ident c (rank_insert key ident z D) =
      rank_insert key ident z (rank_insert key ident c D)"
    using Cons.prems by (intro rank_insert_commute) auto
  moreover have "ident z = ident c \<Longrightarrow> rank_insert key ident c (rank_insert key ident z D) =
      rank_insert key ident c D"
    using Cons.prems by (intro rank_insert_same) auto
  ultimately show ?case by simp
qed simp

lemma rank_all_rank_insert:
  "ranking key ident E \<Longrightarrow> ranking key ident D \<Longrightarrow>
   rank_all key ident (rank_insert key ident c E) D =
   rank_insert key ident c (rank_all key ident E D)"
proof (induction E arbitrary: D)
  case (Cons y ys)
  let ?R = "rank_all key ident (y # ys) D"
  consider "key y \<le> key c" "ident y = ident c" | "key y \<le> key c" "ident y \<noteq> ident c"
    | "key c < key y" by fastforce
  then show ?case
  proof cases
    case 1
    have "covered key ident ?R y" using Cons.prems(2) by (rule covered_rank_all) simp
    with 1 have "\<exists>z\<in>set ?R. ident z = ident c \<and> key z \<le> key c"
      unfolding covered_def by (metis order_trans)
    then have "rank_insert key ident c ?R = ?R"
      using Cons.prems by (intro rank_insert_absorb ranking_rank_all)
    with 1 show ?thesis by simp
  next
    case 2
    with Cons show ?thesis by (simp add: ranking_Cons ranking_rank_insert)
  next
    case 3
    then have c: "\<forall>z\<in>set (y # ys). key c < key z"
      using Cons.prems by (auto simp: ranking_Cons)
    show ?thesis
      unfolding rank_insert_first [OF c] rank_insert_last [OF c Cons.prems(2)] by simp
  qed
qed simp

lemma rank_all_merge:
  "ranking key ident D \<Longrightarrow> rank_all key ident (rank_all key ident xs []) D = rank_all key ident xs D"
proof (induction xs rule: rev_induct)
  case (snoc c xs)
  then show ?case by (simp add: rank_all_rank_insert ranking_rank_all)
qed simp

lemma set_takeWhile_sorted:
  "sorted (map key R) \<Longrightarrow> set (takeWhile (\<lambda>y. key y \<le> k) R) = {y \<in> set R. key y \<le> k}"
  by (induction R) auto

lemma rank_insert_beyond:
  "n \<le> length (takeWhile (\<lambda>y. key y \<le> k) R) \<Longrightarrow> k \<le> key e \<Longrightarrow>
   take n (rank_insert key ident e R) = take n R \<and>
   n \<le> length (takeWhile (\<lambda>y. key y \<le> k) (rank_insert key ident e R))"
proof (induction R arbitrary: n)
  case (Cons y ys)
  then show ?case by (cases n) (auto split: if_splits)
qed simp

lemma rank_all_beyond:
  "n \<le> length (takeWhile (\<lambda>y. key y \<le> k) R) \<Longrightarrow> \<forall>e\<in>set E. k \<le> key e \<Longrightarrow>
   take n (rank_all key ident E R) = take n R"
proof (induction E arbitrary: R)
  case (Cons e E)
  then show ?case using rank_insert_beyond [of n key k R e ident] by simp
qed simp

lemma take_rank_all_take:
  assumes E: "ranking key ident E" and D: "ranking key ident D"
  shows "take n (rank_all key ident (take n E) D) = take n (rank_all key ident E D)"
proof (cases "n = 0 \<or> length E \<le> n")
  case False
  let ?R = "rank_all key ident (take n E) D" and ?k = "key (last (take n E))"
  have ne: "take n E \<noteq> []" and len: "length (take n E) = n" using False by auto
  have srt: "sorted (map key (take n E @ drop n E))" using E by (simp add: ranking_def)
  have low: "key x \<le> ?k" if "x \<in> set (take n E)" for x
  proof -
    have "sorted (map key (take n E))" using srt unfolding map_append sorted_append by blast
    moreover have "take n E = butlast (take n E) @ [last (take n E)]" using ne by simp
    ultimately have "sorted (map key (butlast (take n E) @ [last (take n E)]))" by metis
    then have "\<forall>z\<in>set (butlast (take n E)). key z \<le> ?k" by (simp add: sorted_append)
    with that ne show ?thesis by (metis Un_iff append_butlast_last_id emptyE insertE
          list.simps(15) order_refl set_append list.set(1))
  qed
  have high: "\<forall>e\<in>set (drop n E). ?k \<le> key e"
    using srt ne unfolding map_append sorted_append by (metis imageI last_in_set list.set_map)
  have R: "ranking key ident ?R" using D by (rule ranking_rank_all)
  let ?W = "takeWhile (\<lambda>y. key y \<le> ?k) ?R"
  have "ident ` set (take n E) \<subseteq> ident ` set ?W"
  proof
    fix i assume "i \<in> ident ` set (take n E)"
    then obtain x where x: "x \<in> set (take n E)" "i = ident x" by auto
    then have "covered key ident ?R x" using D by (intro covered_rank_all) simp_all
    with low [OF x(1)] have "\<exists>y\<in>set ?R. ident y = i \<and> key y \<le> ?k"
      unfolding covered_def x(2) by (metis order_trans)
    then show "i \<in> ident ` set ?W"
      using R by (auto simp: set_takeWhile_sorted ranking_def)
  qed
  then have "card (ident ` set (take n E)) \<le> card (ident ` set ?W)"
    by (intro card_mono) auto
  also have "\<dots> \<le> length ?W"
    by (metis card_length length_map set_map)
  also have "card (ident ` set (take n E)) = n"
    using ranking_take [OF E, of n] len
    by (metis distinct_card length_map ranking_def set_map)
  finally have "take n (rank_all key ident (drop n E) ?R) = take n ?R"
    using high by (rule rank_all_beyond)
  then show ?thesis
    by (metis append_take_drop_id rank_all_simps(3))
qed auto

lemma take_rank_all_chunks:
  "ranking key ident D \<Longrightarrow>
   take n (rank_all key ident (concat (map (\<lambda>c. take n (rank_all key ident c [])) cs)) D) =
   take n (rank_all key ident (concat cs) D)"
proof (induction cs arbitrary: D)
  case (Cons c cs)
  let ?E = "rank_all key ident c []"
  let ?tail = "concat (map (\<lambda>c. take n (rank_all key ident c [])) cs)"
  let ?X = "rank_all key ident (take n ?E) D" and ?Y = "rank_all key ident c D"
  have "take n ?X = take n (rank_all key ident ?E D)"
    using Cons.prems by (intro take_rank_all_take ranking_rank_all) simp
  also have "\<dots> = take n ?Y" using Cons.prems by (simp add: rank_all_merge)
  finally have XY: "take n ?X = take n ?Y" .
  have r: "ranking key ident ?X" "ranking key ident ?Y"
    using Cons.prems by (simp_all add: ranking_rank_all)
  have "take n (rank_all key ident ?tail ?X) = take n (rank_all key ident (concat cs) ?X)"
    using r(1) by (rule Cons.IH)
  also have "\<dots> = take n (rank_all key ident (concat cs) ?Y)"
    using take_rank_all [OF r(1)] take_rank_all [OF r(2)] XY by metis
  finally show ?case by simp
qed simp

locale ranked = keyed_order cmp key
  for cmp :: "'a \<Rightarrow> 'a \<Rightarrow> ordering" and key :: "'a \<Rightarrow> 'k::linorder" +
  fixes ident :: "'a \<Rightarrow> 'i"
begin

lemma finalize_rank_all: "finalize_by cmp ident n xs = take n (rank_all key ident xs [])"
  by (simp add: finalize_by_def sort_by_key retain_first_sort_key)

lemma retain_top_rank_insert:
  assumes "ranking key ident buf" "length buf \<le> n"
  shows "retain_top_by cmp ident n buf c = take n (rank_insert key ident c buf)"
proof (cases "position (\<lambda>x. ident x = ident c) buf")
  case None
  then have "\<forall>z\<in>set buf. ident z \<noteq> ident c" by simp
  moreover have "sort_key key buf = buf"
    using assms(1) by (intro sort_key_sorted) (simp add: ranking_def)
  ultimately show ?thesis
    by (simp only: retain_top_by_def None option.case sort_by_key sort_key_snoc rank_insert_fresh)
next
  case (Some i)
  then have i: "i < length buf" "ident (buf ! i) = ident c" by (auto simp: position_Some)
  show ?thesis
  proof (cases "key c < key (buf ! i)")
    case True
    let ?A = "take i buf" and ?B = "drop (Suc i) buf"
    have buf: "buf = ?A @ buf ! i # ?B" using i by (simp add: id_take_nth_drop)
    have upd: "buf[i := c] = ?A @ c # ?B" using i by (simp add: upd_conv_take_nth_drop)
    have "sort_key key (?A @ c # ?B) = insort_after key c (?A @ ?B)"
      using assms(1) True buf by (intro sort_key_replace [of key ?A "buf ! i"])
        (auto simp: ranking_def)
    also have "\<dots> = rank_insert key ident c buf"
      using rank_insert_replace [of key ident ?A "buf ! i" ?B c] assms(1) True i buf by simp
    finally have eq: "sort_by cmp (buf[i := c]) = rank_insert key ident c buf"
      by (simp add: sort_by_key upd)
    then have "length (rank_insert key ident c buf) = length buf"
      by (metis length_list_update length_sort_by)
    with Some True eq assms(2) show ?thesis
      by (simp add: retain_top_by_def is_lt_def cmp_key)
  next
    case False
    moreover have "rank_insert key ident c buf = buf"
      using assms(1) i False by (intro rank_insert_absorb) (auto intro!: bexI [of _ "buf ! i"])
    ultimately show ?thesis
      using Some assms(2) by (simp add: retain_top_by_def is_lt_def cmp_key)
  qed
qed

lemma fold_retain_top:
  "fold (\<lambda>c buf. retain_top_by cmp ident n buf c) xs [] = take n (rank_all key ident xs [])"
proof (induction xs rule: rev_induct)
  case (snoc c xs)
  have r: "ranking key ident (rank_all key ident xs [])" by (rule ranking_rank_all) simp
  then show ?case
    using snoc by (simp add: retain_top_rank_insert ranking_take take_rank_insert)
qed simp

text \<open>The buffers of the chunks lose nothing that the final ranking keeps.\<close>

lemma finalize_chunks:
  "finalize_by cmp ident n
     (concat (map (\<lambda>c. fold (\<lambda>x buf. retain_top_by cmp ident n buf x) c []) cs)) =
   finalize_by cmp ident n (concat cs)"
  by (simp add: finalize_rank_all fold_retain_top take_rank_all_chunks)

lemma length_finalize: "length (finalize_by cmp ident n xs) \<le> n"
  by (simp add: finalize_by_def)

lemma distinct_finalize: "distinct (map ident (finalize_by cmp ident n xs))"
  by (simp add: finalize_by_def take_map [symmetric] distinct_take distinct_retain_first)

lemma sorted_finalize: "sorted (map key (finalize_by cmp ident n xs))"
  unfolding finalize_by_def take_map [symmetric]
  by (intro sorted_wrt_take sorted_retain_first sorted_sort_by)

lemma set_finalize: "set (finalize_by cmp ident n xs) \<subseteq> set xs"
  using set_retain_first [of ident "[]" "sort_by cmp xs"] set_sort_by [of xs]
  by (auto simp: finalize_by_def dest: in_set_takeD)

text \<open>Nothing outside the result beats a result: what is left out is covered or the list is full.\<close>

lemma finalize_complete:
  assumes "x \<in> set xs" "\<not> covered key ident (finalize_by cmp ident n xs) x"
  shows "length (finalize_by cmp ident n xs) = n \<and>
    (\<forall>y\<in>set (finalize_by cmp ident n xs). key y \<le> key x)"
proof -
  let ?R = "rank_all key ident xs []"
  have f: "finalize_by cmp ident n xs = take n ?R" by (rule finalize_rank_all)
  have "covered key ident ?R x" using assms(1) by (intro covered_rank_all) simp_all
  then obtain y where y: "y \<in> set ?R" "ident y = ident x" "key y \<le> key x"
    by (auto simp: covered_def)
  then have nin: "y \<notin> set (take n ?R)" using assms(2) by (auto simp: f covered_def)
  then have drop: "y \<in> set (drop n ?R)" using y(1) by (metis Un_iff append_take_drop_id set_append)
  then have "n < length ?R" by (metis drop_eq_Nil empty_iff leI list.set(1))
  moreover have "sorted (map key (take n ?R @ drop n ?R))"
    using ranking_rank_all [of key ident "[]" xs] by (simp add: ranking_def)
  then have "\<forall>z\<in>set (take n ?R). key z \<le> key y"
    using drop unfolding map_append sorted_append by auto
  ultimately show ?thesis using y(3) by (auto simp: f intro: order_trans)
qed

end

end
