(* ===== verification/Search_Query.thy ===== *)
theory Search_Query
  imports Search_Score Memory_Read Ranking
begin

text \<open>
  The search over the Memory tree (src/knowledge/query.rs, src/knowledge/semantic.rs): the
  candidates of each document, the bounded buffer of each scan chunk, the fall-back to embeddings
  when no document matches by its words, the final ranking and the arguments' checks.
\<close>

subsection \<open>One document\<close>

record ranked_result =
  rk_result :: search_result
  rk_document :: document
  rk_section :: sect

definition empty_section :: sect where
  "empty_section = \<lparr>sec_heading = [], sec_heading_path = [], sec_text = []\<rparr>"

definition wiki_or_lens_is_revoked :: "document \<Rightarrow> bool" where
  "wiki_or_lens_is_revoked doc \<longleftrightarrow>
     doc_kind doc \<in> {lit ''wiki'', lit ''lens''} \<and> doc_status doc = Some (lit ''revoked'')"

definition after_cutoff :: "'v platform \<Rightarrow> int option \<Rightarrow> document \<Rightarrow> bool" where
  "after_cutoff P as_of doc \<longleftrightarrow>
     (case as_of of
        None \<Rightarrow> False
      | Some cutoff \<Rightarrow> (case rfc3339 P (doc_as_of doc) of None \<Rightarrow> True | Some (_, day) \<Rightarrow> cutoff < day))"

text \<open>
  The loop over the sections: whether a section matched, and the best result with its section.
\<close>

definition section_step ::
  "'v platform \<Rightarrow> document \<Rightarrow> search_text \<Rightarrow> sect \<Rightarrow>
   bool \<times> (search_result \<times> sect) option \<Rightarrow> bool \<times> (search_result \<times> sect) option" where
  "section_step P doc query s = (\<lambda>(matched, best).
     let d = document_relevance P doc query;
         sr = section_relevance P s query;
         numbers_match = (\<forall>n\<in>query_numbers query.
           n \<in> document_sensitive_numbers P doc \<or> n \<in> section_sensitive_numbers P s);
         concise_match = tokens query \<noteq> {} \<and> tokens query \<subseteq> dr_concise d;
         weak = (3 \<le> tier (dr_relevance d) \<or> concise_match) \<and> tier (sr_relevance sr) = 1
     in if is_match (sr_relevance sr) \<and> numbers_match \<and> \<not> weak
        then
          let r = combined_relevance d sr query in
          if has_minimum_query_coverage r d sr query
          then
            let result = search_result_of doc s (relevance_score r) in
            (True,
             case best of
               None \<Rightarrow> Some (result, s)
             | Some (current, cs) \<Rightarrow>
                 if is_lt (search_result_order P result current) then Some (result, s)
                 else Some (current, cs))
          else (True, best)
        else (matched, best))"

definition search_document :: "'v platform \<Rightarrow> search_text \<Rightarrow> document \<Rightarrow> ranked_result option" where
  "search_document P query doc =
     (if \<not> document_is_valid P doc then None
      else
        let d = document_relevance P doc query in
        case fold (section_step P doc query) (split_sections (doc_body doc)) (False, None) of
          (matched, best) \<Rightarrow>
            let best =
              (if \<not> matched \<and> is_match (dr_relevance d) \<and>
                  query_numbers query \<subseteq> document_sensitive_numbers P doc \<and>
                  has_minimum_query_coverage (dr_relevance d) d empty_section_relevance query
               then Some (search_result_of doc empty_section (relevance_score (dr_relevance d)),
                          empty_section)
               else best)
            in map_option (\<lambda>(result, s).
                 \<lparr>rk_result = result, rk_document = doc, rk_section = s\<rparr>) best)"

subsection \<open>Embeddings\<close>

text \<open>\<^verbatim>\<open>split("\n\n")\<close>: the pieces between two line feeds.\<close>

fun split_paragraphs :: "ustr \<Rightarrow> ustr list" where
  "split_paragraphs [] = [[]]"
| "split_paragraphs [c] = [[c]]"
| "split_paragraphs (c # c' # s) =
     (if c = 10 \<and> c' = 10 then [] # split_paragraphs s
      else (case split_paragraphs (c' # s) of [] \<Rightarrow> [[c]] | p # ps \<Rightarrow> (c # p) # ps))"

definition BODY_EXCERPT_CHARS :: nat where
  "BODY_EXCERPT_CHARS = 280"

definition first_paragraph_excerpt :: "'v platform \<Rightarrow> ustr \<Rightarrow> nat \<Rightarrow> ustr option" where
  "first_paragraph_excerpt P txt max_chars =
     (case find (list_ex (alphanumeric P)) (map trim (split_paragraphs txt)) of
        None \<Rightarrow> None
      | Some paragraph \<Rightarrow>
          let excerpt = take max_chars paragraph in
          if list_ex (alphanumeric P) excerpt then Some excerpt else None)"

definition document_embedding_text :: "'v platform \<Rightarrow> document \<Rightarrow> ustr" where
  "document_embedding_text P doc =
     join [32]
       (filter (\<lambda>v. v \<noteq> []) [doc_title doc, doc_summary doc] @
        doc_aliases doc @ doc_entities doc @ doc_tags doc @
        (case doc_period doc of None \<Rightarrow> [] | Some v \<Rightarrow> [v]) @
        (case split_sections (doc_body doc) of
           [] \<Rightarrow> []
         | s # _ \<Rightarrow>
             (if sec_heading s \<noteq> [] then [sec_heading s] else []) @
             (case first_paragraph_excerpt P (sec_text s) BODY_EXCERPT_CHARS of
                None \<Rightarrow> [] | Some excerpt \<Rightarrow> [excerpt])))"

definition embed_query :: "'v platform \<Rightarrow> search_text \<Rightarrow> 'v option" where
  "embed_query P query =
     (if \<not> semantic_eligible query then None else Some (embed P (normalized query)))"

definition score_document :: "'v platform \<Rightarrow> document \<Rightarrow> 'v \<Rightarrow> int option" where
  "score_document P doc query_embedding =
     (let txt = document_embedding_text P doc in
      if \<not> list_ex (alphanumeric P) txt then None
      else semantic P query_embedding (embed P txt))"

definition semantic_document :: "'v platform \<Rightarrow> document \<Rightarrow> 'v \<Rightarrow> ranked_result option" where
  "semantic_document P doc query_embedding =
     map_option (\<lambda>score.
       \<lparr>rk_result = search_result_of doc empty_section score, rk_document = doc,
        rk_section = empty_section\<rparr>)
       (score_document P doc query_embedding)"

subsection \<open>Chunks\<close>

definition ranked_order :: "'v platform \<Rightarrow> ranked_result \<Rightarrow> ranked_result \<Rightarrow> ordering" where
  "ranked_order P a b = search_result_order P (rk_result a) (rk_result b)"

definition retain_top_ranked_result ::
  "'v platform \<Rightarrow> nat \<Rightarrow> ranked_result list \<Rightarrow> ranked_result \<Rightarrow> ranked_result list" where
  "retain_top_ranked_result P limit buf c =
     retain_top_by (ranked_order P) (\<lambda>r. res_id (rk_result r)) limit buf c"

definition candidate ::
  "'v platform \<Rightarrow> search_text \<Rightarrow> 'v option \<Rightarrow> document \<Rightarrow> ranked_result option" where
  "candidate P query query_embedding doc =
     (case query_embedding of
        Some e \<Rightarrow> semantic_document P doc e
      | None \<Rightarrow> search_document P query doc)"

definition explained :: "'v platform \<Rightarrow> search_text \<Rightarrow> bool \<Rightarrow> ranked_result \<Rightarrow> search_result" where
  "explained P query explain item =
     (if explain then
        (case explain_match P (rk_document item) (rk_section item) query of
           (t, matched_fields, matched) \<Rightarrow>
             (rk_result item)\<lparr>res_match_tier := t, res_matched_fields := matched_fields,
                res_matched_terms := matched, res_text := []\<rparr>)
      else rk_result item)"

definition search_chunk ::
  "'v platform \<Rightarrow> search_text \<Rightarrow> 'v option \<Rightarrow> nat \<Rightarrow> bool \<Rightarrow> bool \<Rightarrow> int option \<Rightarrow> document list \<Rightarrow>
   search_result list" where
  "search_chunk P query query_embedding limit explain include_revoked as_of documents =
     map (explained P query explain)
       (fold (\<lambda>doc buf.
          if \<not> include_revoked \<and> wiki_or_lens_is_revoked doc then buf
          else if after_cutoff P as_of doc then buf
          else (case candidate P query query_embedding doc of
                  None \<Rightarrow> buf
                | Some c \<Rightarrow> retain_top_ranked_result P limit buf c)) documents [])"

subsection \<open>The whole search\<close>

definition document_id_counts :: "document list \<Rightarrow> (ustr, nat) btree" where
  "document_id_counts documents =
     fold (\<lambda>doc counts. bt_entry 0 Suc (doc_id doc) counts) documents []"

definition unique_valid_documents_for_search ::
  "'v platform \<Rightarrow> found list \<Rightarrow> nat \<Rightarrow> document list" where
  "unique_valid_documents_for_search P paths workers =
     (let documents = filter (document_is_valid P)
            (concat (scan_chunks_with_workers paths workers (map load_local)));
          counts = document_id_counts documents
      in filter (\<lambda>doc. bt_get counts (doc_id doc) = Some 1) documents)"

definition search_documents ::
  "'v platform \<Rightarrow> document list \<Rightarrow> search_text \<Rightarrow> nat \<Rightarrow> bool \<Rightarrow> bool \<Rightarrow> int option \<Rightarrow> nat \<Rightarrow>
   search_result list" where
  "search_documents P documents query limit explain include_revoked as_of workers =
     (let lexical = concat (scan_chunks_with_workers documents workers
            (search_chunk P query None limit explain include_revoked as_of))
      in if lexical \<noteq> [] then lexical
         else case embed_query P query of
             None \<Rightarrow> lexical
           | Some e \<Rightarrow> concat (scan_chunks_with_workers documents workers
                 (search_chunk P query (Some e) limit explain include_revoked as_of)))"

definition search_paths ::
  "'v platform \<Rightarrow> found list \<Rightarrow> search_text \<Rightarrow> nat \<Rightarrow> bool \<Rightarrow> bool \<Rightarrow> int option \<Rightarrow>
   search_result list" where
  "search_paths P paths query limit explain include_revoked as_of =
     (let workers = scan_worker_count P (length paths) in
      search_documents P (unique_valid_documents_for_search P paths workers) query limit explain
        include_revoked as_of workers)"

definition finalize_search_results ::
  "'v platform \<Rightarrow> search_result list \<Rightarrow> nat \<Rightarrow> search_result list" where
  "finalize_search_results P out limit = finalize_by (search_result_order P) res_id limit out"

definition search_internal ::
  "'v platform \<Rightarrow> memory_tree \<Rightarrow> ustr \<Rightarrow> ustr list \<Rightarrow> nat \<Rightarrow> bool \<Rightarrow> bool \<Rightarrow> int option \<Rightarrow>
   ustr + search_result list" where
  "search_internal P tree query kinds limit explain include_revoked as_of =
     (if blank query then Inl (lit ''knowledge search query must not be empty'')
      else case find (\<lambda>k. from_slug k = None) kinds of
          Some k \<Rightarrow> Inl (lit ''unknown knowledge kind: '' @ k)
        | None \<Rightarrow>
            if \<not> (1 \<le> limit \<and> limit \<le> 50)
            then Inl (lit ''knowledge search limit must be between 1 and 50'')
            else
              let paths = local_markdown_files_for_kinds tree (map (the \<circ> from_slug) kinds);
                  q = search_text_new P (trim query)
              in Inr (finalize_search_results P
                   (search_paths P paths q limit explain include_revoked as_of) limit))"

record candidate_result =
  cand_id :: ustr
  cand_kind :: ustr
  cand_title :: ustr
  cand_summary :: ustr
  cand_as_of :: ustr
  cand_section :: ustr
  cand_heading_path :: "ustr list"
  cand_entities :: "ustr list"
  cand_period :: "ustr option"
  cand_aliases :: "ustr list"
  cand_score :: int
  cand_match_tier :: match_tier
  cand_matched_fields :: "ustr list"
  cand_matched_terms :: "ustr list"

definition candidate_results :: "search_result list \<Rightarrow> candidate_result list" where
  "candidate_results results = map (\<lambda>r.
     \<lparr>cand_id = res_id r, cand_kind = res_kind r, cand_title = res_title r,
      cand_summary = res_summary r, cand_as_of = res_as_of r, cand_section = res_section r,
      cand_heading_path = res_heading_path r, cand_entities = res_entities r,
      cand_period = res_period r, cand_aliases = res_aliases r, cand_score = res_score r,
      cand_match_tier = res_match_tier r, cand_matched_fields = res_matched_fields r,
      cand_matched_terms = res_matched_terms r\<rparr>) results"

definition search_with_kinds_opts ::
  "'v platform \<Rightarrow> memory_tree \<Rightarrow> ustr \<Rightarrow> ustr list \<Rightarrow> nat \<Rightarrow> bool \<Rightarrow> int option \<Rightarrow>
   ustr + search_result list" where
  "search_with_kinds_opts P tree query kinds limit include_revoked as_of =
     search_internal P tree query kinds limit False include_revoked as_of"

definition search_candidates_with_kinds ::
  "'v platform \<Rightarrow> memory_tree \<Rightarrow> ustr \<Rightarrow> ustr list \<Rightarrow> nat \<Rightarrow> ustr + candidate_result list" where
  "search_candidates_with_kinds P tree query kinds limit =
     map_sum id candidate_results (search_internal P tree query kinds limit True False None)"

subsection \<open>What a search returns\<close>

interpretation results: ranked "search_result_order P" "result_key P" res_id for P
  by unfold_locales (rule search_result_order_key)

interpretation ranked_results: ranked "ranked_order P" "result_key P \<circ> rk_result"
  "\<lambda>r. res_id (rk_result r)" for P
  by unfold_locales (simp add: ranked_order_def search_result_order_key)

text \<open>
  The reference: the candidates of every eligible document, ranked once. The fall-back is taken
  when no eligible document has a lexical candidate.
\<close>

definition unique_valid :: "'v platform \<Rightarrow> memory_tree \<Rightarrow> memory_kind list \<Rightarrow> document list" where
  "unique_valid P tree kinds =
     (let ds = filter (document_is_valid P) (map load_local (local_markdown_files_for_kinds tree kinds))
      in filter (\<lambda>d. count_list (map doc_id ds) (doc_id d) = 1) ds)"

definition eligible ::
  "'v platform \<Rightarrow> memory_tree \<Rightarrow> memory_kind list \<Rightarrow> bool \<Rightarrow> int option \<Rightarrow> document list" where
  "eligible P tree kinds include_revoked as_of =
     filter (\<lambda>d. (include_revoked \<or> \<not> wiki_or_lens_is_revoked d) \<and> \<not> after_cutoff P as_of d)
       (unique_valid P tree kinds)"

definition candidates ::
  "'v platform \<Rightarrow> search_text \<Rightarrow> 'v option \<Rightarrow> document list \<Rightarrow> ranked_result list" where
  "candidates P query e ds = List.map_filter (candidate P query e) ds"

definition ranked_candidates ::
  "'v platform \<Rightarrow> search_text \<Rightarrow> document list \<Rightarrow> ranked_result list" where
  "ranked_candidates P query ds =
     (let lexical = candidates P query None ds in
      if lexical \<noteq> [] then lexical
      else case embed_query P query of None \<Rightarrow> [] | Some e \<Rightarrow> candidates P query (Some e) ds)"

definition search_spec ::
  "'v platform \<Rightarrow> memory_tree \<Rightarrow> ustr \<Rightarrow> memory_kind list \<Rightarrow> nat \<Rightarrow> bool \<Rightarrow> bool \<Rightarrow> int option \<Rightarrow>
   search_result list" where
  "search_spec P tree query kinds limit explain include_revoked as_of =
     (let q = search_text_new P (trim query) in
      map (explained P q explain)
        (finalize_by (ranked_order P) (\<lambda>r. res_id (rk_result r)) limit
          (ranked_candidates P q (eligible P tree kinds include_revoked as_of))))"

lemma document_id_counts:
  "bt_get (document_id_counts ds) i =
     (if i \<in> doc_id ` set ds then Some (count_list (map doc_id ds) i) else None)"
proof -
  have "bt_get (fold (\<lambda>doc counts. bt_entry 0 Suc (doc_id doc) counts) ds m) i =
      (if i \<in> doc_id ` set ds
       then Some ((case bt_get m i of None \<Rightarrow> 0 | Some n \<Rightarrow> n) + count_list (map doc_id ds) i)
       else bt_get m i)" for m
  proof (induction ds arbitrary: m)
    case (Cons d ds)
    have "count_list (map doc_id ds) i = 0" if "i \<notin> doc_id ` set ds"
      using that by (intro count_notin) auto
    then show ?case by (auto simp: Cons.IH split: option.splits)
  qed simp
  from this [of "[]"] show ?thesis by (simp add: document_id_counts_def)
qed

lemma unique_valid_documents:
  "unique_valid_documents_for_search P (local_markdown_files_for_kinds tree kinds) workers =
     unique_valid P tree kinds"
  by (auto simp: unique_valid_documents_for_search_def unique_valid_def Let_def
      document_id_counts intro!: filter_cong)

definition keeps :: "'v platform \<Rightarrow> bool \<Rightarrow> int option \<Rightarrow> document \<Rightarrow> bool" where
  "keeps P include_revoked as_of d \<longleftrightarrow>
     (include_revoked \<or> \<not> wiki_or_lens_is_revoked d) \<and> \<not> after_cutoff P as_of d"

lemma search_chunk_eq:
  "search_chunk P q e limit explain include_revoked as_of ds =
     map (explained P q explain)
       (fold (\<lambda>c buf. retain_top_ranked_result P limit buf c)
         (candidates P q e (filter (keeps P include_revoked as_of) ds)) [])"
proof -
  let ?step = "\<lambda>doc buf.
          if \<not> include_revoked \<and> wiki_or_lens_is_revoked doc then buf
          else if after_cutoff P as_of doc then buf
          else (case candidate P q e doc of
                  None \<Rightarrow> buf
                | Some c \<Rightarrow> retain_top_ranked_result P limit buf c)"
  have "fold ?step ds buf =
      fold (\<lambda>c buf. retain_top_ranked_result P limit buf c)
         (candidates P q e (filter (keeps P include_revoked as_of) ds)) buf" for buf
    by (induction ds arbitrary: buf)
      (auto simp: candidates_def map_filter_simps keeps_def split: option.splits)
  then show ?thesis by (simp only: search_chunk_def)
qed

lemma candidates_append:
  "candidates P q e (xs @ ys) = candidates P q e xs @ candidates P q e ys"
  by (simp add: candidates_def map_filter_def)

lemma candidates_concat: "candidates P q e (concat parts) = concat (map (candidates P q e) parts)"
  by (induction parts) (simp_all add: candidates_append, simp add: candidates_def map_filter_simps)

lemma explained_fields [simp]:
  "res_id (explained P q x r) = res_id (rk_result r)"
  "res_score (explained P q x r) = res_score (rk_result r)"
  "res_as_of (explained P q x r) = res_as_of (rk_result r)"
  "res_heading_path (explained P q x r) = res_heading_path (rk_result r)"
  by (simp_all add: explained_def split: prod.splits)

lemma insort_key_map: "map f (insort_key (k \<circ> f) x xs) = insort_key k (f x) (map f xs)"
  by (induction xs) auto

lemma sort_key_map: "sort_key k (map f xs) = map f (sort_key (k \<circ> f) xs)"
  by (induction xs) (simp_all add: insort_key_map [unfolded comp_def] comp_def)

lemma retain_first_map: "retain_first g seen (map f xs) = map f (retain_first (g \<circ> f) seen xs)"
  by (induction xs arbitrary: seen) auto

lemma finalize_explained:
  "finalize_by (search_result_order P) res_id n (map (explained P q x) rs) =
     map (explained P q x) (finalize_by (ranked_order P) (\<lambda>r. res_id (rk_result r)) n rs)"
proof -
  have "result_key P \<circ> explained P q x = result_key P \<circ> rk_result"
    "res_id \<circ> explained P q x = (\<lambda>r. res_id (rk_result r))"
    by (simp_all add: fun_eq_iff result_key_def)
  then show ?thesis
    by (simp add: finalize_by_def results.sort_by_key ranked_results.sort_by_key sort_key_map
        retain_first_map take_map)
qed

lemma concat_map_nonempty: "concat (map f xs) = [] \<longleftrightarrow> (\<forall>x\<in>set xs. f x = [])"
  by auto

lemma chunk_Nil:
  "0 < limit \<Longrightarrow> search_chunk P q e limit x r a ds = [] \<longleftrightarrow>
     candidates P q e (filter (keeps P r a) ds) = []"
proof -
  assume "0 < limit"
  have "take limit (rank_all (result_key P \<circ> rk_result) (\<lambda>r. res_id (rk_result r)) xs []) = [] \<longleftrightarrow>
      xs = []" for xs
  proof (cases xs)
    case (Cons y ys)
    have "covered (result_key P \<circ> rk_result) (\<lambda>r. res_id (rk_result r))
        (rank_all (result_key P \<circ> rk_result) (\<lambda>r. res_id (rk_result r)) xs []) y"
      using Cons by (intro covered_rank_all) simp_all
    then show ?thesis using Cons \<open>0 < limit\<close> by (auto simp: covered_def)
  qed simp
  then show ?thesis
    by (simp add: search_chunk_eq retain_top_ranked_result_def ranked_results.fold_retain_top)
qed

text \<open>The chunks of a scan, ranked together, are one ranking of all candidates.\<close>

lemma finalize_scan:
  "finalize_by (search_result_order P) res_id limit
     (concat (scan_chunks_with_workers ds workers (search_chunk P q e limit x r a))) =
   map (explained P q x) (finalize_by (ranked_order P) (\<lambda>r. res_id (rk_result r)) limit
     (candidates P q e (filter (keeps P r a) ds)))"
proof -
  obtain parts where parts: "concat parts = ds"
      "scan_chunks_with_workers ds workers (search_chunk P q e limit x r a) =
        map (search_chunk P q e limit x r a) parts"
    using scan_partition [of ds workers] by metis
  have "concat (map (search_chunk P q e limit x r a) parts) = map (explained P q x)
      (concat (map (\<lambda>c. fold (\<lambda>x buf. retain_top_by (ranked_order P) (\<lambda>r. res_id (rk_result r))
        limit buf x) c []) (map (candidates P q e \<circ> filter (keeps P r a)) parts)))"
    by (simp add: search_chunk_eq [abs_def] map_concat comp_def retain_top_ranked_result_def)
  moreover have "concat (map (candidates P q e \<circ> filter (keeps P r a)) parts) =
      candidates P q e (filter (keeps P r a) ds)"
    by (simp add: parts(1) [symmetric] filter_concat candidates_concat)
  ultimately show ?thesis
    by (simp only: parts(2) finalize_explained ranked_results.finalize_chunks)
qed

lemma scan_Nil:
  assumes "0 < limit"
  shows "concat (scan_chunks_with_workers ds workers (search_chunk P q e limit x r a)) = [] \<longleftrightarrow>
     candidates P q e (filter (keeps P r a) ds) = []"
proof -
  obtain parts where parts: "concat parts = ds"
      "scan_chunks_with_workers ds workers (search_chunk P q e limit x r a) =
        map (search_chunk P q e limit x r a) parts"
    using scan_partition [of ds workers] by metis
  have "candidates P q e (filter (keeps P r a) ds) =
      concat (map (\<lambda>c. candidates P q e (filter (keeps P r a) c)) parts)"
    by (simp add: parts(1) [symmetric] filter_concat candidates_concat comp_def)
  then show ?thesis
    by (simp only: parts(2) concat_map_nonempty chunk_Nil [OF assms])
qed

lemma eligible_keeps:
  "eligible P tree kinds r a = filter (keeps P r a) (unique_valid P tree kinds)"
  by (simp add: eligible_def keeps_def [abs_def])

lemma search_documents_spec:
  assumes "0 < limit"
  shows "finalize_by (search_result_order P) res_id limit
      (search_documents P ds q limit x r a workers) =
    map (explained P q x) (finalize_by (ranked_order P) (\<lambda>r. res_id (rk_result r)) limit
      (ranked_candidates P q (filter (keeps P r a) ds)))"
  unfolding search_documents_def ranked_candidates_def Let_def
  using scan_Nil [OF assms, of ds workers P q None x r a]
    finalize_scan [of P limit ds workers q None x r a]
    finalize_scan [of P limit ds workers q _ x r a]
  by (auto split: option.splits simp: finalize_by_def sort_by_def)

lemma search_internal_spec:
  "search_internal P tree query kinds limit explain include_revoked as_of =
     (if blank query then Inl (lit ''knowledge search query must not be empty'')
      else case find (\<lambda>k. from_slug k = None) kinds of
          Some k \<Rightarrow> Inl (lit ''unknown knowledge kind: '' @ k)
        | None \<Rightarrow>
            if limit < 1 \<or> 50 < limit
            then Inl (lit ''knowledge search limit must be between 1 and 50'')
            else Inr (search_spec P tree query (map (the \<circ> from_slug) kinds) limit explain
                        include_revoked as_of))"
  by (auto simp: search_internal_def search_spec_def search_paths_def finalize_search_results_def
      unique_valid_documents search_documents_spec eligible_keeps Let_def not_less
      split: option.split)

subsection \<open>The candidate of a document\<close>

text \<open>What a section contributes on its own: whether it matches, and its result.\<close>

definition section_matched :: "'v platform \<Rightarrow> document \<Rightarrow> search_text \<Rightarrow> sect \<Rightarrow> bool" where
  "section_matched P doc q s \<longleftrightarrow>
     (let d = document_relevance P doc q; sr = section_relevance P s q in
      is_match (sr_relevance sr) \<and>
      query_numbers q \<subseteq> document_sensitive_numbers P doc \<union> section_sensitive_numbers P s \<and>
      \<not> ((3 \<le> tier (dr_relevance d) \<or> tokens q \<noteq> {} \<and> tokens q \<subseteq> dr_concise d) \<and>
         tier (sr_relevance sr) = 1))"

definition section_result :: "'v platform \<Rightarrow> document \<Rightarrow> search_text \<Rightarrow> sect \<Rightarrow> search_result option" where
  "section_result P doc q s =
     (let d = document_relevance P doc q; sr = section_relevance P s q;
          r = combined_relevance d sr q
      in if section_matched P doc q s \<and> has_minimum_query_coverage r d sr q
         then Some (search_result_of doc s (relevance_score r)) else None)"

definition better_of ::
  "'v platform \<Rightarrow> sect \<Rightarrow> search_result option \<Rightarrow> (search_result \<times> sect) option \<Rightarrow>
   (search_result \<times> sect) option" where
  "better_of P s new best =
     (case new of
        None \<Rightarrow> best
      | Some r \<Rightarrow>
          (case best of
             None \<Rightarrow> Some (r, s)
           | Some (current, cs) \<Rightarrow>
               if is_lt (search_result_order P r current) then Some (r, s) else Some (current, cs)))"

lemma section_step_eq:
  "section_step P doc q s (matched, best) =
     (matched \<or> section_matched P doc q s, better_of P s (section_result P doc q s) best)"
proof -
  have "(\<forall>n\<in>query_numbers q. n \<in> document_sensitive_numbers P doc \<or>
      n \<in> section_sensitive_numbers P s) \<longleftrightarrow>
    query_numbers q \<subseteq> document_sensitive_numbers P doc \<union> section_sensitive_numbers P s"
    by blast
  then show ?thesis
    by (auto simp: section_step_def section_matched_def section_result_def better_of_def Let_def
        split: option.splits)
qed

definition best_so_far ::
  "'v platform \<Rightarrow> document \<Rightarrow> search_text \<Rightarrow> sect set \<Rightarrow> (search_result \<times> sect) option \<Rightarrow> bool" where
  "best_so_far P doc q seen best \<longleftrightarrow>
     (case best of
        None \<Rightarrow> \<forall>s\<in>seen. section_result P doc q s = None
      | Some (r, s) \<Rightarrow>
          s \<in> seen \<and> section_result P doc q s = Some r \<and>
          (\<forall>s'\<in>seen. \<forall>r'. section_result P doc q s' = Some r' \<longrightarrow> result_key P r \<le> result_key P r'))"

lemma best_so_far_step:
  "best_so_far P doc q seen best \<Longrightarrow>
     best_so_far P doc q (insert s seen) (better_of P s (section_result P doc q s) best)"
  unfolding best_so_far_def better_of_def is_lt_def search_result_order_key compare_eqs
  by (auto split: option.splits prod.splits)

lemma fold_section_step:
  assumes "best_so_far P doc q seen best"
  shows "fst (fold (section_step P doc q) ss (matched, best)) =
      (matched \<or> (\<exists>s\<in>set ss. section_matched P doc q s)) \<and>
    best_so_far P doc q (seen \<union> set ss) (snd (fold (section_step P doc q) ss (matched, best)))"
  using assms
proof (induction ss arbitrary: matched best seen)
  case (Cons s ss)
  from Cons.IH [OF best_so_far_step [OF Cons.prems, of s]] show ?case
    by (simp add: section_step_eq)
qed simp

text \<open>
  Every lexical candidate is of a valid document; it is either the best section result or, when
  no section matches, the document's own; and each exact number of the query occurs in the
  document's metadata or in the section.
\<close>

lemma search_document_candidate:
  assumes "search_document P q doc = Some c"
  shows "document_is_valid P doc" and "rk_document c = doc"
    and "\<exists>score. rk_result c = search_result_of doc (rk_section c) score"
    and "query_numbers q \<subseteq>
      document_sensitive_numbers P doc \<union> section_sensitive_numbers P (rk_section c)"
    and "rk_section c \<in> set (split_sections (doc_body doc)) \<and>
        section_result P doc q (rk_section c) = Some (rk_result c) \<and>
        (\<forall>s\<in>set (split_sections (doc_body doc)). \<forall>r.
          section_result P doc q s = Some r \<longrightarrow> result_key P (rk_result c) \<le> result_key P r) \<or>
      rk_section c = empty_section \<and>
        (\<forall>s\<in>set (split_sections (doc_body doc)). \<not> section_matched P doc q s)"
proof -
  let ?ss = "split_sections (doc_body doc)"
  obtain matched best where f: "fold (section_step P doc q) ?ss (False, None) = (matched, best)"
    by (cases "fold (section_step P doc q) ?ss (False, None)")
  have "best_so_far P doc q {} None" by (simp add: best_so_far_def)
  from fold_section_step [OF this, of ?ss False] f
  have m: "matched = (\<exists>s\<in>set ?ss. section_matched P doc q s)"
    and b: "best_so_far P doc q (set ?ss) best" by simp_all
  show v: "document_is_valid P doc"
    using assms by (simp add: search_document_def split: if_splits)
  consider (document) "\<not> matched" "query_numbers q \<subseteq> document_sensitive_numbers P doc"
      "c = \<lparr>rk_result = search_result_of doc empty_section
              (relevance_score (dr_relevance (document_relevance P doc q))),
            rk_document = doc, rk_section = empty_section\<rparr>"
    | (best_section) r s where "best = Some (r, s)"
      "c = \<lparr>rk_result = r, rk_document = doc, rk_section = s\<rparr>"
    using assms v f by (auto simp: search_document_def Let_def split: if_splits)
  then have "rk_document c = doc \<and>
    (\<exists>score. rk_result c = search_result_of doc (rk_section c) score) \<and>
    query_numbers q \<subseteq>
      document_sensitive_numbers P doc \<union> section_sensitive_numbers P (rk_section c) \<and>
    (rk_section c \<in> set ?ss \<and> section_result P doc q (rk_section c) = Some (rk_result c) \<and>
        (\<forall>s\<in>set ?ss. \<forall>r. section_result P doc q s = Some r \<longrightarrow>
          result_key P (rk_result c) \<le> result_key P r) \<or>
      rk_section c = empty_section \<and> (\<forall>s\<in>set ?ss. \<not> section_matched P doc q s))"
  proof cases
    case document
    then show ?thesis using m by auto
  next
    case best_section
    then have "s \<in> set ?ss" "section_result P doc q s = Some r"
      "\<forall>s'\<in>set ?ss. \<forall>r'. section_result P doc q s' = Some r' \<longrightarrow> result_key P r \<le> result_key P r'"
      using b by (auto simp: best_so_far_def)
    moreover from this(2) have "r = search_result_of doc s (relevance_score (combined_relevance
        (document_relevance P doc q) (section_relevance P s q) q))"
      "section_matched P doc q s"
      by (auto simp: section_result_def Let_def split: if_splits)
    ultimately show ?thesis
      using best_section by (auto simp: section_matched_def Let_def)
  qed
  then show "rk_document c = doc"
    and "\<exists>score. rk_result c = search_result_of doc (rk_section c) score"
    and "query_numbers q \<subseteq>
      document_sensitive_numbers P doc \<union> section_sensitive_numbers P (rk_section c)"
    and "rk_section c \<in> set ?ss \<and> section_result P doc q (rk_section c) = Some (rk_result c) \<and>
        (\<forall>s\<in>set ?ss. \<forall>r. section_result P doc q s = Some r \<longrightarrow>
          result_key P (rk_result c) \<le> result_key P r) \<or>
      rk_section c = empty_section \<and> (\<forall>s\<in>set ?ss. \<not> section_matched P doc q s)"
    by blast+
qed

lemma semantic_document_candidate:
  "semantic_document P doc e = Some c \<Longrightarrow>
     rk_document c = doc \<and> rk_section c = empty_section \<and>
     (\<exists>score. rk_result c = search_result_of doc empty_section score)"
  by (auto simp: semantic_document_def)

lemma candidate_document:
  assumes "candidate P q e doc = Some c"
  shows "rk_document c = doc \<and> (\<exists>score. rk_result c = search_result_of doc (rk_section c) score)"
proof (cases e)
  case None
  then have "search_document P q doc = Some c" using assms by (simp add: candidate_def)
  then show ?thesis using search_document_candidate(2,3) by blast
next
  case (Some v)
  then have "semantic_document P doc v = Some c" using assms by (simp add: candidate_def)
  then show ?thesis using semantic_document_candidate [of P doc v c] by auto
qed

lemma ranked_candidates_from:
  "c \<in> set (ranked_candidates P q ds) \<Longrightarrow>
     rk_document c \<in> set ds \<and> (\<exists>score. rk_result c = search_result_of (rk_document c) (rk_section c) score)"
  using candidate_document
  by (fastforce simp: ranked_candidates_def candidates_def map_filter_def Let_def
      split: if_splits option.splits)

definition from_document :: "document \<Rightarrow> search_result \<Rightarrow> bool" where
  "from_document d r \<longleftrightarrow>
     res_id r = doc_id d \<and> res_kind r = doc_kind d \<and> res_path r = doc_path d \<and>
     res_title r = doc_title d \<and> res_as_of r = doc_as_of d \<and> res_status r = doc_status d"

lemma explained_from_document:
  "rk_result c = search_result_of d s score \<Longrightarrow> from_document d (explained P q x c)"
  by (simp add: explained_def from_document_def search_result_of_def split: prod.splits)

lemma search_spec_results:
  "set (search_spec P tree query kinds limit x r a) \<subseteq>
     {res. \<exists>d\<in>set (eligible P tree kinds r a). from_document d res}"
proof
  fix res assume "res \<in> set (search_spec P tree query kinds limit x r a)"
  then obtain c where c: "c \<in> set (ranked_candidates P (search_text_new P (trim query))
        (eligible P tree kinds r a))"
      "res = explained P (search_text_new P (trim query)) x c"
    using ranked_results.set_finalize unfolding search_spec_def Let_def by force
  from ranked_candidates_from [OF c(1)] c(2) show
      "res \<in> {res. \<exists>d\<in>set (eligible P tree kinds r a). from_document d res}"
    using explained_from_document by blast
qed

lemma search_spec_order:
  "distinct (map res_id (search_spec P tree query kinds limit x r a))"
  "length (search_spec P tree query kinds limit x r a) \<le> limit"
  "sorted (map (result_key P) (search_spec P tree query kinds limit x r a))"
proof -
  have "result_key P \<circ> explained P q x = result_key P \<circ> rk_result"
    "res_id \<circ> explained P q x = (\<lambda>r. res_id (rk_result r))" for q
    by (simp_all add: fun_eq_iff result_key_def)
  then show "distinct (map res_id (search_spec P tree query kinds limit x r a))"
    "length (search_spec P tree query kinds limit x r a) \<le> limit"
    "sorted (map (result_key P) (search_spec P tree query kinds limit x r a))"
    using ranked_results.distinct_finalize ranked_results.length_finalize
      ranked_results.sorted_finalize
    by (simp_all add: search_spec_def Let_def)
qed

subsection \<open>Properties\<close>

text \<open>
  C1: A search refuses an empty query, an unknown kind and a limit outside 1..50 with the code's
  message, in this order; otherwise it returns the single ranking of all candidates of the
  eligible documents, whatever the number of scan workers and however the documents fall into
  chunks: the bounded buffers of the chunks lose nothing.
\<close>

theorem search_is_one_ranking:
  "search_internal P tree query kinds limit explain include_revoked as_of =
     (if blank query then Inl (lit ''knowledge search query must not be empty'')
      else case find (\<lambda>k. from_slug k = None) kinds of
          Some k \<Rightarrow> Inl (lit ''unknown knowledge kind: '' @ k)
        | None \<Rightarrow>
            if limit < 1 \<or> 50 < limit
            then Inl (lit ''knowledge search limit must be between 1 and 50'')
            else Inr (search_spec P tree query (map (the \<circ> from_slug) kinds) limit explain
                        include_revoked as_of))"
  by (rule search_internal_spec)

text \<open>
  C2: The results of a search have distinct identifiers, are at most \<open>limit\<close>, are in the order
  of \<open>search_result_order\<close>, and each is of a valid record with a unique identifier, of a
  requested kind, not revoked unless that was asked for, and not later than the cutoff.
\<close>

theorem search_results_sound:
  "case search_internal P tree query kinds limit explain include_revoked as_of of
     Inl e \<Rightarrow> True
   | Inr rs \<Rightarrow>
       distinct (map res_id rs) \<and> length rs \<le> limit \<and> sorted (map (result_key P) rs) \<and>
       set rs \<subseteq> {r. \<exists>d\<in>set (unique_valid P tree (map (the \<circ> from_slug) kinds)).
         from_document d r \<and> \<not> (wiki_or_lens_is_revoked d \<and> \<not> include_revoked) \<and>
         \<not> after_cutoff P as_of d}"
proof (cases "search_internal P tree query kinds limit explain include_revoked as_of")
  case (Inr rs)
  then have "rs = search_spec P tree query (map (the \<circ> from_slug) kinds) limit explain
      include_revoked as_of"
    by (auto simp: search_internal_spec split: if_splits option.splits)
  then show ?thesis
    using Inr search_spec_order search_spec_results [of P tree query "map (the \<circ> from_slug) kinds" limit
        explain include_revoked as_of]
    by (auto simp: eligible_def)
qed simp

text \<open>The candidate of a document found by its words is of a valid document and carries every
  exact number of the query in the document's metadata or in its section; its section is the best
  of the sections that match, or the document as a whole when no section matches.
\<close>

lemma lexical_candidate:
  "case search_document P q doc of
     None \<Rightarrow> True
   | Some c \<Rightarrow>
       document_is_valid P doc \<and>
       query_numbers q \<subseteq>
         document_sensitive_numbers P doc \<union> section_sensitive_numbers P (rk_section c) \<and>
       (section_result P doc q (rk_section c) = Some (rk_result c) \<and>
          {r. \<exists>s\<in>set (split_sections (doc_body doc)). section_result P doc q s = Some r \<and>
             result_key P r < result_key P (rk_result c)} = {} \<or>
        rk_section c = empty_section \<and>
          list_all (\<lambda>s. \<not> section_matched P doc q s) (split_sections (doc_body doc)))"
proof (cases "search_document P q doc")
  case (Some c)
  show ?thesis
    using search_document_candidate [OF Some] Some by (force simp: list_all_iff)
qed simp

end
