(* ===== verification/Knowledge_Check.thy ===== *)
theory Knowledge_Check
  imports Search_Query
begin

text \<open>
  The check and the health report of a set of records (src/knowledge/health.rs): issues of single
  documents, duplicate identifiers, links that do not resolve, and per kind the folders, the
  advisories and the review band.
\<close>

subsection \<open>The check\<close>

record knowledge_check =
  kc_valid :: bool
  kc_documents :: nat
  kc_errors :: "issue list"

text \<open>The first loop: the issues of each document, and identifiers seen before.\<close>

definition check_step ::
  "'v platform \<Rightarrow> document \<Rightarrow> issue list \<times> (ustr, ustr) btree \<Rightarrow>
   issue list \<times> (ustr, ustr) btree" where
  "check_step P doc = (\<lambda>(issues, ids).
     let issues = issues @ validate_document P doc in
     if doc_id doc \<noteq> [] then
       (issues @
          (case bt_get ids (doc_id doc) of
             None \<Rightarrow> []
           | Some first \<Rightarrow>
               [\<lparr>issue_path = doc_path doc, issue_field = lit ''id'',
                 issue_message = lit ''duplicates '' @ first\<rparr>]),
        bt_insert (doc_id doc) (doc_path doc) ids)
     else (issues, ids))"

definition kinds_by_id :: "document list \<Rightarrow> (ustr, ustr) btree" where
  "kinds_by_id docs =
     fold (\<lambda>d m. bt_insert (doc_id d) (doc_kind d) m) (filter (\<lambda>d. doc_id d \<noteq> []) docs) []"

definition revoked_by_issues :: "(ustr, ustr) btree \<Rightarrow> document \<Rightarrow> issue list" where
  "revoked_by_issues kinds doc =
     (case doc_revoked_by doc of
        None \<Rightarrow> []
      | Some revoked_by \<Rightarrow>
          if blank revoked_by then []
          else if revoked_by = doc_id doc
          then [issue_of doc (lit ''revoked_by'') (lit ''must not reference itself'')]
          else if bt_get kinds revoked_by = None
          then [issue_of doc (lit ''revoked_by'') (lit ''target does not exist: '' @ revoked_by)]
          else [])"

definition relationship_issues :: "(ustr, ustr) btree \<Rightarrow> document \<Rightarrow> relationship \<Rightarrow> issue list" where
  "relationship_issues kinds doc r =
     (case bt_get kinds (rel_target r) of
        None \<Rightarrow> [issue_of doc (rel_kind r) (lit ''target does not exist: '' @ rel_target r)]
      | Some target_kind \<Rightarrow>
          when_issue (\<not> relationship_target_allowed (doc_kind doc) (rel_kind r) target_kind)
            (issue_of doc (rel_kind r)
               (lit ''target '' @ rel_target r @ lit '' has disallowed kind '' @ target_kind)))"

definition see_also_target_issues :: "(ustr, ustr) btree \<Rightarrow> document \<Rightarrow> ustr \<Rightarrow> issue list" where
  "see_also_target_issues kinds doc target =
     (case bt_get kinds target of
        None \<Rightarrow> [issue_of doc (lit ''see_also'') (lit ''target does not exist: '' @ target)]
      | Some target_kind \<Rightarrow>
          when_issue (target_kind \<noteq> lit ''wiki'')
            (issue_of doc (lit ''see_also'')
               (lit ''target '' @ target @ lit '' has disallowed kind '' @ target_kind)))"

definition link_issues :: "(ustr, ustr) btree \<Rightarrow> document \<Rightarrow> issue list" where
  "link_issues kinds doc =
     revoked_by_issues kinds doc @
     concat (map (relationship_issues kinds doc) (doc_relationships doc)) @
     concat (map (see_also_target_issues kinds doc) (doc_see_also doc))"

definition check_documents_with_layout ::
  "'v platform \<Rightarrow> document list \<Rightarrow> issue list \<Rightarrow> knowledge_check" where
  "check_documents_with_layout P docs issues =
     (case fold (check_step P) docs (issues, []) of
        (issues, _) \<Rightarrow>
          let errors = issues @ concat (map (link_issues (kinds_by_id docs)) docs)
          in \<lparr>kc_valid = (errors = []), kc_documents = length docs, kc_errors = errors\<rparr>)"

definition check :: "'v platform \<Rightarrow> memory_tree \<Rightarrow> knowledge_check" where
  "check P tree = check_documents_with_layout P (catalog_local_unchecked tree) (layout_issues tree)"

subsection \<open>What a valid set of records is\<close>

definition find_kind :: "document list \<Rightarrow> ustr \<Rightarrow> ustr option" where
  "find_kind docs i = map_option doc_kind (find (\<lambda>d. doc_id d = i) docs)"

definition links_resolve :: "document list \<Rightarrow> document \<Rightarrow> bool" where
  "links_resolve docs doc \<longleftrightarrow>
     (\<forall>by. doc_revoked_by doc = Some by \<and> \<not> blank by \<longrightarrow>
        by \<noteq> doc_id doc \<and> find_kind docs by \<noteq> None) \<and>
     (\<forall>r\<in>set (doc_relationships doc). \<exists>k. find_kind docs (rel_target r) = Some k \<and>
        relationship_target_allowed (doc_kind doc) (rel_kind r) k) \<and>
     (\<forall>t\<in>set (doc_see_also doc). find_kind docs t = Some (lit ''wiki''))"

lemma check_steps_Nil:
  "fst (fold (check_step P) docs (issues, ids)) = [] \<longleftrightarrow>
     issues = [] \<and> (\<forall>d\<in>set docs. document_is_valid P d) \<and>
     distinct (filter (\<lambda>i. i \<noteq> []) (map doc_id docs)) \<and>
     (\<forall>d\<in>set docs. doc_id d \<noteq> [] \<longrightarrow> bt_get ids (doc_id d) = None)"
proof (induction docs arbitrary: issues ids)
  case (Cons d docs)
  obtain issues' ids' where st: "check_step P d (issues, ids) = (issues', ids')"
    by (cases "check_step P d (issues, ids)")
  then have "issues' = [] \<longleftrightarrow>
      issues = [] \<and> document_is_valid P d \<and> (doc_id d \<noteq> [] \<longrightarrow> bt_get ids (doc_id d) = None)"
    by (auto simp: check_step_def Let_def document_is_valid_def split: option.splits if_splits)
  moreover have "bt_get ids' i =
      (if doc_id d \<noteq> [] \<and> i = doc_id d then Some (doc_path d) else bt_get ids i)" for i
    using st by (auto simp: check_step_def Let_def split: if_splits)
  ultimately show ?case
    by (auto simp: Cons.IH st image_iff)
qed simp

lemma kinds_by_id_get:
  "distinct (map doc_id docs) \<Longrightarrow> \<forall>d\<in>set docs. doc_id d \<noteq> [] \<Longrightarrow>
     bt_get (kinds_by_id docs) i = find_kind docs i"
proof -
  assume d: "distinct (map doc_id docs)" and ne: "\<forall>d\<in>set docs. doc_id d \<noteq> []"
  have "bt_get (fold (\<lambda>d m. bt_insert (doc_id d) (doc_kind d) m) ds m) i =
      (case find_kind ds i of Some k \<Rightarrow> Some k | None \<Rightarrow> bt_get m i)"
    if "distinct (map doc_id ds)" for ds m
    using that
  proof (induction ds arbitrary: m)
    case (Cons x ds)
    have "find_kind ds (doc_id x) = None"
      using Cons.prems by (auto simp: find_kind_def find_None_iff image_iff)
    with Cons show ?case by (auto simp: find_kind_def split: option.splits)
  qed (simp add: find_kind_def)
  from this [OF d, of "[]"] ne show ?thesis
    by (simp add: kinds_by_id_def filter_id_conv split: option.split)
qed

lemma link_issues_Nil:
  "(\<And>i. bt_get kinds i = find_kind docs i) \<Longrightarrow> link_issues kinds doc = [] \<longleftrightarrow> links_resolve docs doc"
proof -
  assume k: "\<And>i. bt_get kinds i = find_kind docs i"
  have "revoked_by_issues kinds doc = [] \<longleftrightarrow>
      (\<forall>by. doc_revoked_by doc = Some by \<and> \<not> blank by \<longrightarrow>
        by \<noteq> doc_id doc \<and> find_kind docs by \<noteq> None)"
    by (auto simp: revoked_by_issues_def k split: option.splits)
  moreover have "relationship_issues kinds doc r = [] \<longleftrightarrow>
      (\<exists>k. find_kind docs (rel_target r) = Some k \<and>
        relationship_target_allowed (doc_kind doc) (rel_kind r) k)" for r
    by (auto simp: relationship_issues_def k split: option.splits)
  moreover have "see_also_target_issues kinds doc t = [] \<longleftrightarrow> find_kind docs t = Some (lit ''wiki'')" for t
    by (auto simp: see_also_target_issues_def k split: option.splits)
  ultimately show ?thesis by (simp add: link_issues_def links_resolve_def)
qed

lemma valid_document_id: "document_is_valid P d \<Longrightarrow> doc_id d \<noteq> []"
  using valid_document_kind [of P d] by (auto simp: canonical_id_kind_def)

theorem check_documents_valid:
  "kc_valid (check_documents_with_layout P docs layout) \<longleftrightarrow>
     layout = [] \<and> (\<forall>d\<in>set docs. document_is_valid P d) \<and> distinct (map doc_id docs) \<and>
     (\<forall>d\<in>set docs. links_resolve docs d)"
proof -
  have v: "kc_valid (check_documents_with_layout P docs layout) \<longleftrightarrow>
      fst (fold (check_step P) docs (layout, [])) = [] \<and>
      (\<forall>d\<in>set docs. link_issues (kinds_by_id docs) d = [])"
    by (auto simp: check_documents_with_layout_def Let_def split: prod.splits)
  show ?thesis
  proof (cases "(\<forall>d\<in>set docs. document_is_valid P d) \<and> distinct (map doc_id docs)")
    case True
    then have ne: "\<forall>d\<in>set docs. doc_id d \<noteq> []" using valid_document_id by blast
    then have "filter (\<lambda>i. i \<noteq> []) (map doc_id docs) = map doc_id docs"
      by (simp add: filter_id_conv)
    then show ?thesis
      using True ne kinds_by_id_get [of docs] by (simp add: v check_steps_Nil link_issues_Nil)
  next
    case False
    have "filter (\<lambda>i. i \<noteq> []) (map doc_id docs) = map doc_id docs"
      if "\<forall>d\<in>set docs. document_is_valid P d"
      using that valid_document_id by (fastforce simp: filter_id_conv)
    with False show ?thesis by (auto simp: v check_steps_Nil)
  qed
qed

subsection \<open>Properties\<close>

text \<open>
  C6: The check accepts a Memory tree exactly when its layout is right, every record is valid, no
  identifier is used twice, and every link resolves to a record of an allowed kind.
\<close>

theorem check_accepts_exactly:
  "kc_valid (check P tree) \<longleftrightarrow>
     layout_issues tree = [] \<and>
     list_all (document_is_valid P) (catalog_local_unchecked tree) \<and>
     distinct (map doc_id (catalog_local_unchecked tree)) \<and>
     list_all (links_resolve (catalog_local_unchecked tree)) (catalog_local_unchecked tree)"
  by (simp add: check_def check_documents_valid list_all_iff)

end
