(* ===== verification/Knowledge_Health.thy ===== *)
theory Knowledge_Health
  imports Knowledge_Check
begin

text \<open>
  The health report (src/knowledge/health.rs): folders and depth, advisories, and the review
  band of each kind. Rust's sets are lists in ascending order (\<open>sorted_list_of_set\<close>) where
  they are iterated.
\<close>

subsection \<open>Records\<close>

record health_advisory =
  adv_code :: ustr
  adv_ids :: "ustr list"

record kind_health =
  kh_kind :: ustr
  kh_documents :: nat
  kh_folders :: nat
  kh_max_depth :: nat
  kh_review_band :: ustr
  kh_advisories :: "health_advisory list"

definition advisory_order :: "health_advisory \<Rightarrow> health_advisory \<Rightarrow> ordering" where
  "advisory_order a b = compare (adv_code a, adv_ids a) (adv_code b, adv_ids b)"

interpretation advisories: keyed_order advisory_order "\<lambda>a. (adv_code a, adv_ids a)"
  by unfold_locales (simp add: advisory_order_def)

subsection \<open>Helpers\<close>

definition subject_folders :: "document \<Rightarrow> ustr list" where
  "subject_folders doc =
     (let components = split_on 47 (doc_path doc);
          start = (case position (\<lambda>w. fst w = lit ''guruterminal'' \<and> snd w = doc_kind doc)
                      (zip components (tl components)) of
                     None \<Rightarrow> length components | Some index \<Rightarrow> index + 2);
          last_index = length components - 1
      in if start \<le> last_index then take (last_index - start) (drop start components) else [])"

definition document_key :: "document \<Rightarrow> ustr" where
  "document_key doc = (if doc_id doc = [] then doc_path doc else doc_id doc)"

definition normalized_health_key :: "'v platform \<Rightarrow> ustr \<Rightarrow> ustr" where
  "normalized_health_key P v = filter (alphanumeric P) (normalize_search_text P v)"

definition add_advisory :: "health_advisory list \<Rightarrow> ustr \<Rightarrow> ustr list \<Rightarrow> health_advisory list" where
  "add_advisory advisories code ids =
     (let ids = remdups_adj (sort_by compare ids) in
      if ids \<noteq> [] then advisories @ [\<lparr>adv_code = code, adv_ids = ids\<rparr>] else advisories)"

definition group_by_key :: "(ustr \<times> 'a) list \<Rightarrow> (ustr, 'a list) btree" where
  "group_by_key keyed = fold (\<lambda>(k, v) m. bt_entry [] (\<lambda>vs. vs @ [v]) k m) keyed []"

definition add_duplicate_advisories ::
  "health_advisory list \<Rightarrow> ustr \<Rightarrow> (ustr \<times> ustr) list \<Rightarrow> health_advisory list" where
  "add_duplicate_advisories advisories code keyed_ids =
     fold (\<lambda>(_, ids) advisories.
       if 1 < card (set ids) then add_advisory advisories code (sorted_list_of_set (set ids))
       else advisories) (group_by_key keyed_ids) advisories"

definition named_keys :: "'v platform \<Rightarrow> document \<Rightarrow> (ustr \<times> ustr \<times> bool) list" where
  "named_keys P doc =
     (let i = document_key doc; title_key = normalized_health_key P (doc_title doc) in
      (if title_key \<noteq> [] then [(title_key, i, False)] else []) @
      concat (map (\<lambda>alias.
        let alias_key = normalized_health_key P alias in
        if alias_key \<noteq> [] then [(alias_key, i, True)] else []) (doc_aliases doc)))"

definition add_name_collision_advisories ::
  "'v platform \<Rightarrow> health_advisory list \<Rightarrow> document list \<Rightarrow> health_advisory list" where
  "add_name_collision_advisories P advisories documents =
     fold (\<lambda>(_, entries) advisories.
       let ids = fst ` set entries in
       if 1 < card ids \<and> list_ex snd entries
       then add_advisory advisories (lit ''duplicate_alias'') (sorted_list_of_set ids)
       else advisories)
       (group_by_key (concat (map (named_keys P) documents))) advisories"

definition non_empty :: "ustr option \<Rightarrow> ustr option" where
  "non_empty v = (case v of Some x \<Rightarrow> if x \<noteq> [] then Some x else None | None \<Rightarrow> None)"

definition evidence_signature :: "'v platform \<Rightarrow> document \<Rightarrow> (ustr \<times> ustr) list" where
  "evidence_signature P doc =
     (let n = normalize_search_text P;
          period = or_empty (non_empty (doc_period doc));
          title = n (doc_title doc)
      in (if title \<noteq> [] \<and> period \<noteq> [] then [(title @ [0] @ period, document_key doc)] else []) @
         (case non_empty (doc_source doc) of
            None \<Rightarrow>
              map (\<lambda>entity. (title @ [0] @ n period @ [0] @ n entity, document_key doc))
                (doc_entities doc)
          | Some source \<Rightarrow>
              (case non_empty (doc_period doc) of
                 None \<Rightarrow> []
               | Some period \<Rightarrow>
                   map (\<lambda>entity. (n source @ [0] @ n period @ [0] @ n entity, document_key doc))
                     (doc_entities doc))))"

definition evidence_signatures :: "'v platform \<Rightarrow> document list \<Rightarrow> (ustr \<times> ustr) list" where
  "evidence_signatures P documents = concat (map (evidence_signature P) documents)"

definition revision_targets :: "document \<Rightarrow> (ustr \<times> ustr) list" where
  "revision_targets doc =
     map (\<lambda>r. (rel_target r, document_key doc))
       (filter (\<lambda>r. rel_kind r \<in> {lit ''updates'', lit ''contradicts''}) (doc_relationships doc))"

definition add_decision_fork_advisories ::
  "health_advisory list \<Rightarrow> document list \<Rightarrow> health_advisory list" where
  "add_decision_fork_advisories advisories documents =
     fold (\<lambda>(target, revisions) advisories.
       if 1 < card (set revisions)
       then add_advisory advisories (lit ''decision_revision_fork'')
              (target # sorted_list_of_set (set revisions))
       else advisories)
       (group_by_key (concat (map revision_targets documents))) advisories"

definition USIZE_MAX :: nat where
  "USIZE_MAX = 18446744073709551615"

definition band_thresholds :: "ustr \<Rightarrow> nat \<times> nat \<times> nat \<times> nat option" where
  "band_thresholds kind =
     (if kind = lit ''wiki'' then (25, 75, 200, None)
      else if kind = lit ''lens'' then (15, 30, 100, None)
      else if kind = lit ''evidence'' then (200, 500, 1000, Some 50)
      else if kind = lit ''decision'' then (50, 150, 300, Some 10)
      else (USIZE_MAX, USIZE_MAX, USIZE_MAX, None))"

definition entity_counts :: "document list \<Rightarrow> (ustr, nat) btree" where
  "entity_counts documents =
     fold (\<lambda>doc counts. fold (\<lambda>entity. bt_entry 0 Suc entity)
       (sorted_list_of_set (set (map to_ascii_lowercase (doc_entities doc)))) counts) documents []"

definition review_band :: "ustr \<Rightarrow> document list \<Rightarrow> ustr" where
  "review_band kind documents =
     (let count = length documents in
      case band_thresholds kind of
        (organize, curate, scale, entity_threshold) \<Rightarrow>
          if scale \<le> count then lit ''scale''
          else if curate \<le> count then lit ''curate''
          else if organize \<le> count \<or>
              opt_is (\<lambda>threshold. list_ex (\<lambda>e. threshold \<le> snd e) (entity_counts documents))
                entity_threshold
          then lit ''organize''
          else lit ''normal'')"

subsection \<open>The report\<close>

definition is_large :: "document \<Rightarrow> bool" where
  "is_large doc \<longleftrightarrow> 12000 < length (doc_content doc) \<or> 8 < length (split_sections (doc_body doc))"

definition folder_names :: "document list \<Rightarrow> ustr set" where
  "folder_names documents =
     (\<Union>doc\<in>set documents. let folders = subject_folders doc in
        set (map (\<lambda>depth. join (lit ''/'') (take depth folders)) [1..<Suc (length folders)]))"

definition title_keys :: "'v platform \<Rightarrow> document list \<Rightarrow> (ustr \<times> ustr) list" where
  "title_keys P documents = concat (map (\<lambda>d.
     let key = normalized_health_key P (doc_title d) in
     if key \<noteq> [] then [(key, document_key d)] else []) documents)"

definition kind_health_of :: "'v platform \<Rightarrow> document list \<Rightarrow> ustr \<Rightarrow> kind_health" where
  "kind_health_of P docs kind =
     (let documents = filter (\<lambda>d. doc_kind d = kind) docs;
          max_depth = fold (\<lambda>d m. max m (length (subject_folders d))) documents 0;
          deep = map document_key (filter (\<lambda>d. 2 < length (subject_folders d)) documents);
          large = map document_key (filter is_large documents);
          excessive = map document_key
            (filter (\<lambda>d. kind = lit ''wiki'' \<and> 5 < length (doc_see_also d)) documents);
          advisories = add_advisory [] (lit ''deep_folder'') deep;
          advisories = add_advisory advisories (lit ''large_document'') large;
          advisories = add_duplicate_advisories advisories (lit ''duplicate_title'')
            (title_keys P documents);
          advisories = add_name_collision_advisories P advisories documents;
          advisories = add_advisory advisories (lit ''excessive_see_also'') excessive;
          advisories = (if kind = lit ''evidence''
            then add_duplicate_advisories advisories (lit ''duplicate_evidence_candidate'')
                   (evidence_signatures P documents) else advisories);
          advisories = (if kind = lit ''decision''
            then add_decision_fork_advisories advisories documents else advisories)
      in \<lparr>kh_kind = kind, kh_documents = length documents,
          kh_folders = card (folder_names documents), kh_max_depth = max_depth,
          kh_review_band = review_band kind documents,
          kh_advisories = sort_by advisory_order advisories\<rparr>)"

definition health_documents :: "'v platform \<Rightarrow> document list \<Rightarrow> ustr option \<Rightarrow> kind_health list" where
  "health_documents P docs kind =
     map (\<lambda>k. kind_health_of P docs (slug k))
       (filter (\<lambda>k. opt_none_or (\<lambda>wanted. wanted = slug k) kind) all_kinds)"

definition health :: "'v platform \<Rightarrow> memory_tree \<Rightarrow> ustr option \<Rightarrow> ustr + kind_health list" where
  "health P tree kind =
     (case kind of
        Some k \<Rightarrow>
          if from_slug k = None then Inl (lit ''unknown knowledge kind: '' @ k)
          else Inr (health_documents P (catalog_local P tree) kind)
      | None \<Rightarrow> Inr (health_documents P (catalog_local P tree) kind))"

subsection \<open>Groups and advisories\<close>

lemma remdups_adj_sort_by: "remdups_adj (sort_by compare ids) = sorted_list_of_set (set ids)"
proof -
  have s: "sort_by compare ids = sort ids" by (simp add: natural_order.sort_by_key)
  have "distinct (remdups_adj xs)" if "sorted xs" for xs :: "'a list"
    using that by (induction xs rule: remdups_adj.induct) (auto split: if_splits)
  from this [of "sort ids"] have "sorted (remdups_adj (sort ids))" "distinct (remdups_adj (sort ids))"
    by simp_all
  then show ?thesis
    unfolding s by (metis remdups_adj_set set_sort sorted_list_of_set.idem_if_sorted_distinct)
qed

lemma add_advisory_eq:
  "add_advisory advs code ids =
     (if ids = [] then advs
      else advs @ [\<lparr>adv_code = code, adv_ids = sorted_list_of_set (set ids)\<rparr>])"
  by (simp add: add_advisory_def remdups_adj_sort_by)

lemma group_by_key_get:
  "bt_get (group_by_key keyed) k =
     (if k \<in> fst ` set keyed then Some (map snd (filter (\<lambda>e. fst e = k) keyed)) else None)"
proof -
  have "bt_get (fold (\<lambda>(k, v) m. bt_entry [] (\<lambda>vs. vs @ [v]) k m) keyed m) k =
      (if k \<in> fst ` set keyed
       then Some ((case bt_get m k of None \<Rightarrow> [] | Some vs \<Rightarrow> vs) @
              map snd (filter (\<lambda>e. fst e = k) keyed))
       else bt_get m k)" for m
  proof (induction keyed arbitrary: m)
    case (Cons e keyed)
    have "filter (\<lambda>e. fst e = k) keyed = []" if "k \<notin> fst ` set keyed"
      using that by (auto simp: filter_empty_conv)
    then show ?case by (cases e) (auto simp: Cons.IH split: option.splits)
  qed simp
  from this [of "[]"] show ?thesis by (simp add: group_by_key_def)
qed

lemma group_by_key_inv: "bt_inv (group_by_key keyed)"
proof -
  have "bt_inv m \<Longrightarrow> bt_inv (fold (\<lambda>(k, v) m. bt_entry [] (\<lambda>vs. vs @ [v]) k m) keyed m)" for m
    by (induction keyed arbitrary: m) auto
  then show ?thesis by (simp add: group_by_key_def)
qed

lemma group_by_key_entries:
  "(k, vs) \<in> set (group_by_key keyed) \<longleftrightarrow>
     k \<in> fst ` set keyed \<and> vs = map snd (filter (\<lambda>e. fst e = k) keyed)"
  by (auto simp: btree.entries_get [OF group_by_key_inv] group_by_key_get)

lemma fold_advisories:
  "set (fold (\<lambda>e advs. if p e then add_advisory advs (code e) (ids e) else advs) es advs) =
     set advs \<union> {\<lparr>adv_code = code e, adv_ids = sorted_list_of_set (set (ids e))\<rparr> | e.
       e \<in> set es \<and> p e \<and> ids e \<noteq> []}"
  by (induction es arbitrary: advs) (auto simp: add_advisory_eq)

text \<open>
  One duplicate advisory for each key that two different records share, and it names all the
  records with that key.
\<close>

definition sharing :: "(ustr \<times> ustr) list \<Rightarrow> ustr \<Rightarrow> ustr set" where
  "sharing keyed k = {i. (k, i) \<in> set keyed}"

lemma finite_sharing [simp]: "finite (sharing keyed k)"
proof -
  have "sharing keyed k \<subseteq> snd ` set keyed" by (force simp: sharing_def)
  then show ?thesis by (rule finite_subset) simp
qed

lemma set_group: "snd ` {e \<in> set keyed. fst e = k} = sharing keyed k"
  by (force simp: sharing_def)

lemma add_duplicate_advisories_set:
  "set (add_duplicate_advisories advs code keyed) =
     set advs \<union> {\<lparr>adv_code = code, adv_ids = sorted_list_of_set (sharing keyed k)\<rparr> | k.
       1 < card (sharing keyed k)}"
proof -
  have ne: "sharing keyed k \<noteq> {}" if "1 < card (sharing keyed k)" for k using that by force
  have "set (add_duplicate_advisories advs code keyed) =
      set advs \<union> {\<lparr>adv_code = code, adv_ids = sorted_list_of_set (set (snd e))\<rparr> | e.
        e \<in> set (group_by_key keyed) \<and> 1 < card (set (snd e))}"
  proof -
    have nil: "1 < card (set ids) \<and> sorted_list_of_set (set ids) \<noteq> [] \<longleftrightarrow> 1 < card (set ids)"
      for ids :: "ustr list" by auto
    have "add_duplicate_advisories advs code keyed =
        fold (\<lambda>e advs. if 1 < card (set (snd e))
          then add_advisory advs code (sorted_list_of_set (set (snd e))) else advs)
          (group_by_key keyed) advs"
      unfolding add_duplicate_advisories_def by (intro fold_cong) (auto simp: fun_eq_iff)
    then show ?thesis
      using fold_advisories [of "\<lambda>e. 1 < card (set (snd e))" "\<lambda>e. code"
          "\<lambda>e. sorted_list_of_set (set (snd e))" "group_by_key keyed" advs]
      by (simp only: nil set_sorted_list_of_set finite_set)
  qed
  also have "\<dots> = set advs \<union> {\<lparr>adv_code = code, adv_ids = sorted_list_of_set (sharing keyed k)\<rparr> | k.
       1 < card (sharing keyed k)}"
  proof -
    have "(\<exists>e. e \<in> set (group_by_key keyed) \<and> 1 < card (set (snd e)) \<and> set (snd e) = S) \<longleftrightarrow>
        (\<exists>k. 1 < card (sharing keyed k) \<and> S = sharing keyed k)" for S
    proof
      assume "\<exists>e. e \<in> set (group_by_key keyed) \<and> 1 < card (set (snd e)) \<and> set (snd e) = S"
      then obtain k vs where "(k, vs) \<in> set (group_by_key keyed)" "1 < card (set vs)" "set vs = S"
        by auto
      then show "\<exists>k. 1 < card (sharing keyed k) \<and> S = sharing keyed k"
        by (auto simp: group_by_key_entries set_group intro!: exI [of _ k])
    next
      assume "\<exists>k. 1 < card (sharing keyed k) \<and> S = sharing keyed k"
      then obtain k where k: "1 < card (sharing keyed k)" "S = sharing keyed k" by blast
      then obtain i where "(k, i) \<in> set keyed" using ne [of k] by (auto simp: sharing_def)
      then have "k \<in> fst ` set keyed" by force
      then have "(k, map snd (filter (\<lambda>e. fst e = k) keyed)) \<in> set (group_by_key keyed)"
        by (simp add: group_by_key_entries)
      with k show "\<exists>e. e \<in> set (group_by_key keyed) \<and> 1 < card (set (snd e)) \<and> set (snd e) = S"
        by (intro exI [of _ "(k, map snd (filter (\<lambda>e. fst e = k) keyed))"]) (simp add: set_group)
    qed
    then have eq: "{S. \<exists>e. e \<in> set (group_by_key keyed) \<and> 1 < card (set (snd e)) \<and> set (snd e) = S} =
        {S. \<exists>k. 1 < card (sharing keyed k) \<and> S = sharing keyed k}"
      by blast
    let ?F = "\<lambda>S. \<lparr>adv_code = code, adv_ids = sorted_list_of_set S\<rparr>"
    have "{?F (set (snd e)) | e. e \<in> set (group_by_key keyed) \<and> 1 < card (set (snd e))} =
        ?F ` {S. \<exists>e. e \<in> set (group_by_key keyed) \<and> 1 < card (set (snd e)) \<and> set (snd e) = S}"
      by blast
    also have "\<dots> = {?F (sharing keyed k) | k. 1 < card (sharing keyed k)}"
      unfolding eq by blast
    finally show ?thesis by simp
  qed
  finally show ?thesis .
qed

subsection \<open>Folders and bands\<close>

text \<open>The folders of a record are the directories between its collection and its file.\<close>

lemma subject_folders_path:
  assumes "comps \<noteq> []" and "\<forall>c\<in>set comps. 47 \<notin> set c \<and> 92 \<notin> set c"
  shows "subject_folders (document_from_content (k, comps) content) = butlast comps"
proof -
  let ?cs = "lit ''guruterminal'' # slug k # comps"
  have guru: "47 \<notin> set (lit ''guruterminal'')" "92 \<notin> set (lit ''guruterminal'')"
    by (simp_all add: lit_def)
  have sl: "47 \<notin> set (slug k)" "92 \<notin> set (slug k)" by (cases k; simp add: lit_def)+
  have noslash: "\<forall>c\<in>set ?cs. 47 \<notin> set c" using assms(2) guru sl by auto
  have "92 \<notin> set (join [47] ps)" if "\<forall>p\<in>set ps. 92 \<notin> set p" for ps
    using that by (induction "[47::nat]" ps rule: join.induct) auto
  then have "92 \<notin> set (join [47] ?cs)" using assms(2) guru sl by simp
  then have "replace_char 92 47 (join [47] ?cs) = join [47] ?cs"
    unfolding replace_char_def by (intro map_idI) auto
  then have "display_path (k, comps) = join [47] ?cs"
    by (simp add: display_path_def lit_def)
  then have "split_on 47 (display_path (k, comps)) = ?cs"
    using split_on_join [of ?cs 47] noslash by simp
  then show ?thesis
    using assms(1) by (simp add: subject_folders_def Let_def butlast_conv_take)
qed

definition mentions :: "document list \<Rightarrow> ustr \<Rightarrow> nat" where
  "mentions documents entity =
     length (filter (\<lambda>d. entity \<in> set (map to_ascii_lowercase (doc_entities d))) documents)"

lemma fold_count:
  "distinct es \<Longrightarrow> bt_get (fold (\<lambda>e. bt_entry 0 Suc e) es m) k =
     (if k \<in> set es then Some (Suc (case bt_get m k of None \<Rightarrow> 0 | Some n \<Rightarrow> n)) else bt_get m k)"
  by (induction es arbitrary: m) auto

lemma bt_inv_fold_count: "bt_inv m \<Longrightarrow> bt_inv (fold (\<lambda>e. bt_entry 0 Suc e) es m)"
  by (induction es arbitrary: m) auto

lemma entity_counts_get:
  "bt_get (entity_counts documents) e =
     (if mentions documents e = 0 then None else Some (mentions documents e))"
proof -
  have "bt_get (fold (\<lambda>doc counts. fold (\<lambda>entity. bt_entry 0 Suc entity)
       (sorted_list_of_set (set (map to_ascii_lowercase (doc_entities doc)))) counts) ds m) e =
      (if mentions ds e = 0 then bt_get m e
       else Some ((case bt_get m e of None \<Rightarrow> 0 | Some n \<Rightarrow> n) + mentions ds e))" for ds m
  proof (induction ds arbitrary: m)
    case (Cons d ds)
    then show ?case by (auto simp: fold_count mentions_def split: option.splits)
  qed (simp add: mentions_def)
  from this [of documents "[]"] show ?thesis by (simp add: entity_counts_def)
qed

lemma entity_counts_inv: "bt_inv (entity_counts documents)"
proof -
  have "bt_inv m \<Longrightarrow> bt_inv (fold (\<lambda>doc counts. fold (\<lambda>entity. bt_entry 0 Suc entity)
       (sorted_list_of_set (set (map to_ascii_lowercase (doc_entities doc)))) counts) ds m)" for ds m
    by (induction ds arbitrary: m) (auto simp: bt_inv_fold_count)
  from this [OF bt_inv_Nil] show ?thesis by (simp add: entity_counts_def)
qed

lemma entity_threshold:
  "0 < t \<Longrightarrow> list_ex (\<lambda>e. t \<le> snd e) (entity_counts documents) \<longleftrightarrow> (\<exists>e. t \<le> mentions documents e)"
proof
  assume "0 < t" "list_ex (\<lambda>e. t \<le> snd e) (entity_counts documents)"
  then obtain e n where "(e, n) \<in> set (entity_counts documents)" "t \<le> n"
    by (auto simp: list_ex_iff)
  then show "\<exists>e. t \<le> mentions documents e"
    by (auto simp: btree.entries_get [OF entity_counts_inv] entity_counts_get split: if_splits)
next
  assume "0 < t" "\<exists>e. t \<le> mentions documents e"
  then obtain e where e: "t \<le> mentions documents e" by blast
  with \<open>0 < t\<close> have "(e, mentions documents e) \<in> set (entity_counts documents)"
    by (simp add: btree.entries_get [OF entity_counts_inv] entity_counts_get)
  with e show "list_ex (\<lambda>e. t \<le> snd e) (entity_counts documents)"
    by (force simp: list_ex_iff)
qed

definition band_rank :: "ustr \<Rightarrow> nat" where
  "band_rank band =
     (if band = lit ''scale'' then 3 else if band = lit ''curate'' then 2
      else if band = lit ''organize'' then 1 else 0)"

definition crowded :: "ustr \<Rightarrow> document list \<Rightarrow> bool" where
  "crowded kind documents \<longleftrightarrow>
     kind = lit ''evidence'' \<and> (\<exists>e. 50 \<le> mentions documents e) \<or>
     kind = lit ''decision'' \<and> (\<exists>e. 10 \<le> mentions documents e)"

text \<open>The band by the number of records, or by an entity that too many records share.\<close>

lemma review_band_rank:
  "band_rank (review_band kind documents) =
     (case band_thresholds kind of (organize, curate, scale, _) \<Rightarrow>
        if scale \<le> length documents then 3
        else if curate \<le> length documents then 2
        else if organize \<le> length documents \<or> crowded kind documents then 1
        else 0)"
  by (auto simp: review_band_def band_thresholds_def band_rank_def crowded_def entity_threshold
      Let_def)

lemma mentions_append: "mentions (ds @ es) e = mentions ds e + mentions es e"
  by (simp add: mentions_def)

lemma crowded_append: "crowded kind ds \<Longrightarrow> crowded kind (ds @ es)"
  by (auto simp: crowded_def mentions_append intro: trans_le_add1)

subsection \<open>Properties\<close>

lemma add_advisory_other [simp]:
  "adv_code a \<noteq> code \<Longrightarrow> a \<in> set (add_advisory advs code ids) \<longleftrightarrow> a \<in> set advs"
  by (auto simp: add_advisory_eq)

lemma add_duplicate_other [simp]:
  "adv_code a \<noteq> code \<Longrightarrow> a \<in> set (add_duplicate_advisories advs code keyed) \<longleftrightarrow> a \<in> set advs"
  by (auto simp: add_duplicate_advisories_set)

lemma fold_advisory_other:
  "adv_code a \<noteq> code \<Longrightarrow>
     a \<in> set (fold (\<lambda>e advs. if p e then add_advisory advs code (ids e) else advs) es advs) \<longleftrightarrow>
     a \<in> set advs"
  by (induction es arbitrary: advs) auto

lemma name_collision_other [simp]:
  "adv_code a \<noteq> lit ''duplicate_alias'' \<Longrightarrow>
     a \<in> set (add_name_collision_advisories P advs docs) \<longleftrightarrow> a \<in> set advs"
  using fold_advisory_other [of a "lit ''duplicate_alias''"
      "\<lambda>e. 1 < card (fst ` set (snd e)) \<and> list_ex snd (snd e)"
      "\<lambda>e. sorted_list_of_set (fst ` set (snd e))"]
  by (simp add: add_name_collision_advisories_def Let_def case_prod_unfold)

lemma decision_fork_other [simp]:
  "adv_code a \<noteq> lit ''decision_revision_fork'' \<Longrightarrow>
     a \<in> set (add_decision_fork_advisories advs docs) \<longleftrightarrow> a \<in> set advs"
  using fold_advisory_other [of a "lit ''decision_revision_fork''"
      "\<lambda>e. 1 < card (set (snd e))" "\<lambda>e. fst e # sorted_list_of_set (set (snd e))"]
  by (simp add: add_decision_fork_advisories_def case_prod_unfold)

definition same_title :: "'v platform \<Rightarrow> document list \<Rightarrow> ustr \<Rightarrow> ustr \<Rightarrow> ustr set" where
  "same_title P docs kind key =
     document_key ` {d \<in> set docs. doc_kind d = kind \<and> normalized_health_key P (doc_title d) = key}"

text \<open>The duplicate-title advisories of a kind are exactly one for each normalised title, not
  empty, that records of the kind with two different keys share; it lists the keys of all of them
  in ascending order.
\<close>

lemma duplicate_title_advisories:
  "a \<in> set (kh_advisories (kind_health_of P docs kind)) \<and> adv_code a = lit ''duplicate_title'' \<longleftrightarrow>
     (\<exists>key. key \<noteq> [] \<and> 1 < card (same_title P docs kind key) \<and>
        a = \<lparr>adv_code = lit ''duplicate_title'',
             adv_ids = sorted_list_of_set (same_title P docs kind key)\<rparr>)"
proof -
  let ?titles = "title_keys P (filter (\<lambda>d. doc_kind d = kind) docs)"
  have share: "sharing ?titles key = (if key = [] then {} else same_title P docs kind key)" for key
    by (auto simp: sharing_def same_title_def title_keys_def Let_def split: if_splits)
  have "a \<in> set (kh_advisories (kind_health_of P docs kind)) \<longleftrightarrow>
      (\<exists>key. a = \<lparr>adv_code = lit ''duplicate_title'',
             adv_ids = sorted_list_of_set (sharing ?titles key)\<rparr> \<and> 1 < card (sharing ?titles key))"
    if code: "adv_code a = lit ''duplicate_title''"
  proof -
    have "a \<in> set (kh_advisories (kind_health_of P docs kind)) \<longleftrightarrow>
        a \<in> set (add_duplicate_advisories
          (add_advisory (add_advisory [] (lit ''deep_folder'')
             (map document_key (filter (\<lambda>d. 2 < length (subject_folders d))
               (filter (\<lambda>d. doc_kind d = kind) docs))))
            (lit ''large_document'')
            (map document_key (filter is_large (filter (\<lambda>d. doc_kind d = kind) docs))))
          (lit ''duplicate_title'') ?titles)"
      using code by (simp add: kind_health_of_def Let_def advisories.set_sort_by)
    then show ?thesis using code by (simp add: add_duplicate_advisories_set)
  qed
  moreover have "a = \<lparr>adv_code = lit ''duplicate_title'',
        adv_ids = sorted_list_of_set (sharing ?titles key)\<rparr> \<and> 1 < card (sharing ?titles key) \<longleftrightarrow>
      key \<noteq> [] \<and> 1 < card (same_title P docs kind key) \<and>
        a = \<lparr>adv_code = lit ''duplicate_title'',
             adv_ids = sorted_list_of_set (same_title P docs kind key)\<rparr>" for key
    by (cases "key = []") (simp_all only: share card.empty if_True if_False, simp, blast)
  ultimately show ?thesis by (metis health_advisory.select_convs(1))
qed

text \<open>The review band follows the kind's thresholds on the number of records, or an entity that
  too many records of the kind name; adding records never lowers the band.
\<close>

lemma review_band_thresholds:
  "band_rank (review_band kind documents) =
     (case band_thresholds kind of (organize, curate, scale, _) \<Rightarrow>
        if scale \<le> length documents then 3
        else if curate \<le> length documents then 2
        else if organize \<le> length documents \<or> crowded kind documents then 1
        else 0) \<and>
   band_rank (review_band kind documents) \<le> band_rank (review_band kind (documents @ es))"
proof -
  have "band_rank (review_band kind documents) \<le> band_rank (review_band kind (documents @ es))"
    using crowded_append [of kind documents es]
    by (cases "band_thresholds kind") (simp add: review_band_rank)
  then show ?thesis by (simp only: review_band_rank)
qed

end
