(* ===== verification/Knowledge_Context.thy ===== *)
theory Knowledge_Context
  imports Knowledge_Health
begin

text \<open>
  The context the desktop host asks for (src/knowledge/context.rs): one capture of the Memory
  tree, with the check, the health report, the revision, the valid records and the charter taken
  from it.
\<close>

record knowledge_charter =
  ch_document :: document
  ch_section :: "sect option"
  ch_content :: ustr

record knowledge_context =
  kx_check :: knowledge_check
  kx_health :: "kind_health list"
  kx_revision :: ustr
  kx_records :: "document list"
  kx_charter :: "knowledge_charter option"

definition charter_from_records :: "document list \<Rightarrow> knowledge_charter option" where
  "charter_from_records records =
     (case filter (\<lambda>d. doc_id d = lit ''lens:charter'') records of
        [d] \<Rightarrow> Some \<lparr>ch_document = d, ch_section = None, ch_content = doc_content d\<rparr>
      | _ \<Rightarrow> None)"

definition knowledge_context_of :: "'v platform \<Rightarrow> memory_tree \<Rightarrow> ustr + knowledge_context" where
  "knowledge_context_of P tree =
     (case capture_local_catalog P tree of
        Inl e \<Rightarrow> Inl e
      | Inr capture \<Rightarrow>
          let records = filter (document_is_valid P) (cap_documents capture) in
          Inr \<lparr>kx_check = check_documents_with_layout P (cap_documents capture)
                  (cap_layout_issues capture),
               kx_health = health_documents P records None,
               kx_revision = revision capture,
               kx_records = records,
               kx_charter = charter_from_records records\<rparr>)"

text \<open>
  The one-pass context agrees with the separate commands on the same tree: the records are the
  catalog, the health report is the report, the check has the same verdict, and the charter is
  what reading the record returns.
\<close>

lemma fold_check_length [simp]:
  "kc_documents (check_documents_with_layout P docs layout) = length docs"
  by (simp add: check_documents_with_layout_def Let_def split: prod.splits)

lemma captured_all_valid:
  assumes "\<forall>d\<in>set (map (captured P) es). document_is_valid P d"
  shows "map (captured P) es = map (load_local \<circ> readable) es"
  using assms captured_load(5) [of P P] by auto

lemma context_check:
  assumes "capture_local_catalog P tree = Inr c"
  shows "kc_valid (check_documents_with_layout P (cap_documents c) (cap_layout_issues c)) =
      kc_valid (check P tree)"
    and "length (cap_documents c) = length (catalog_local_unchecked tree)"
proof -
  obtain es where es: "local_markdown_files tree = map readable es"
      "cap_documents c = sort_by document_order (map (captured P) es)"
      "cap_layout_issues c = layout_issues tree"
    using capture_Inr [OF assms] by metis
  have cat: "catalog_local_unchecked tree = sort_by document_order (map (load_local \<circ> readable) es)"
    by (simp add: catalog_local_unchecked_def es)
  show "length (cap_documents c) = length (catalog_local_unchecked tree)"
    by (simp add: cat es documents.length_sort_by)
  have same: "(\<forall>d\<in>set (cap_documents c). document_is_valid P d) \<longleftrightarrow>
      (\<forall>d\<in>set (catalog_local_unchecked tree). document_is_valid P d)"
    by (simp add: cat es documents.set_sort_by captured_load(4))
  show "kc_valid (check_documents_with_layout P (cap_documents c) (cap_layout_issues c)) =
      kc_valid (check P tree)"
  proof (cases "\<forall>d\<in>set (cap_documents c). document_is_valid P d")
    case True
    then have "\<forall>d\<in>set (map (captured P) es). document_is_valid P d"
      by (simp add: es documents.set_sort_by)
    then have "cap_documents c = catalog_local_unchecked tree"
      using captured_all_valid [of P es] by (simp only: cat es)
    then show ?thesis by (simp add: check_def es(3))
  next
    case False
    then show ?thesis using same by (auto simp: check_def check_documents_valid)
  qed
qed

lemma charter_read:
  "charter_from_records (catalog_local P tree) =
     (case read P tree (lit ''lens:charter'') None of
        Inl e \<Rightarrow> None
      | Inr r \<Rightarrow> Some \<lparr>ch_document = rr_document r, ch_section = rr_section r,
                   ch_content = doc_content (rr_document r)\<rparr>)"
  by (simp add: charter_from_records_def read_def read_internal_catalog split: list.split)

lemma knowledge_context_agrees:
  "case knowledge_context_of P tree of
     Inl e \<Rightarrow> \<exists>f\<in>set (local_markdown_files tree). read_error_of f \<noteq> None
   | Inr c \<Rightarrow>
       kx_records c = catalog_local P tree \<and>
       Inr (kx_health c) = health P tree None \<and>
       kc_valid (kx_check c) = kc_valid (check P tree) \<and>
       kc_documents (kx_check c) = kc_documents (check P tree) \<and>
       kx_charter c =
         (case read P tree (lit ''lens:charter'') None of
            Inl e \<Rightarrow> None
          | Inr r \<Rightarrow> Some \<lparr>ch_document = rr_document r, ch_section = rr_section r,
                       ch_content = doc_content (rr_document r)\<rparr>)"
proof (cases "capture_local_catalog P tree")
  case (Inl e)
  then show ?thesis
    using capture_error_iff [of P tree] by (simp add: knowledge_context_of_def)
next
  case (Inr c)
  then show ?thesis
    using context_check [OF Inr] capture_catalog [OF Inr, of P] charter_read [of P tree]
    by (simp add: knowledge_context_of_def Let_def health_def check_def)
qed

subsection \<open>Properties\<close>

text \<open>
  C3: The context, which reads every file once, agrees with the commands that read the tree on
  their own: it fails exactly when a record cannot be read; otherwise its records are the
  catalog, its health report is the report, its check has the same verdict on as many documents,
  and its charter is what reading \<open>lens:charter\<close> returns.
\<close>

theorem context_agrees_with_commands:
  "case knowledge_context_of P tree of
     Inl e \<Rightarrow> \<exists>f\<in>set (local_markdown_files tree). read_error_of f \<noteq> None
   | Inr c \<Rightarrow>
       kx_records c = catalog_local P tree \<and>
       Inr (kx_health c) = health P tree None \<and>
       kc_valid (kx_check c) = kc_valid (check P tree) \<and>
       kc_documents (kx_check c) = kc_documents (check P tree) \<and>
       kx_charter c =
         (case read P tree (lit ''lens:charter'') None of
            Inl e \<Rightarrow> None
          | Inr r \<Rightarrow> Some \<lparr>ch_document = rr_document r, ch_section = rr_section r,
                       ch_content = doc_content (rr_document r)\<rparr>)"
  by (rule knowledge_context_agrees)

end
