(* ===== verification/Core_Workspace.thy ===== *)
theory Core_Workspace
  imports Memory_Tree
begin

text \<open>
  The workspace directory (src/workspace.rs): its creation, step by step with the filesystem
  calls that can fail, and the check every command makes before it reads. The parser of the
  metadata file is serde_json's and a parameter.
\<close>

definition WORKSPACE_SCHEMA_VERSION :: nat where
  "WORKSPACE_SCHEMA_VERSION = 1"

text \<open>
  What the code looks at below the workspace root: whether an entry exists and is a directory
  (\<^theory_text>\<open>is_dir\<close> follows symlinks), and the bytes of \<^verbatim>\<open>.guruterminal/workspace.json\<close>.
\<close>

datatype entry = Missing | Directory | OtherEntry

record workspace =
  ws_data :: entry
  ws_kinds :: "memory_kind \<Rightarrow> entry"
  ws_method :: entry
  ws_internal :: entry
  ws_metadata :: "bytes option"

record workspace_init =
  created :: "ustr list"
  directories :: "ustr list"
  metadata_file :: ustr
  schema_version :: nat

definition path_entry_exists :: "entry \<Rightarrow> bool" where
  "path_entry_exists e \<longleftrightarrow> e \<noteq> Missing"

text \<open>\<^theory_text>\<open>create_dir_all\<close> of the root's collection: the data directory and the collection.\<close>

definition create_collection :: "memory_kind \<Rightarrow> workspace \<Rightarrow> workspace" where
  "create_collection k ws =
     ws\<lparr>ws_data := Directory, ws_kinds := (ws_kinds ws)(k := Directory)\<rparr>"

definition metadata_bytes :: bytes where
  "metadata_bytes =
     utf8_encode (lit ''{'' @ [10] @ lit ''  '' @ [34] @ lit ''schema_version'' @ [34] @ lit '': 1'' @
       [10] @ lit ''}'' @ [10])"

text \<open>
  The calls in order; \<open>fault n\<close> is the error of the \<open>n\<close>-th filesystem call, if it fails. What
  earlier calls created stays.
\<close>

fun create_collections ::
  "(nat \<Rightarrow> ustr option) \<Rightarrow> nat \<Rightarrow> memory_kind list \<Rightarrow> workspace \<Rightarrow> ustr option \<times> workspace" where
  "create_collections fault n [] ws = (None, ws)"
| "create_collections fault n (k # ks) ws =
     (case fault n of
        Some e \<Rightarrow> (Some e, ws)
      | None \<Rightarrow> create_collections fault (Suc n) ks (create_collection k ws))"

definition collection_path :: "memory_kind \<Rightarrow> ustr" where
  "collection_path k = lit ''guruterminal/'' @ slug k"

definition metadata_path :: ustr where
  "metadata_path = lit ''.guruterminal/workspace.json''"

definition initialize_workspace ::
  "(nat \<Rightarrow> ustr option) \<Rightarrow> ustr \<Rightarrow> workspace \<Rightarrow> (ustr + workspace_init) \<times> workspace" where
  "initialize_workspace fault root ws =
     (if path_entry_exists (ws_data ws) \<or> path_entry_exists (ws_internal ws)
      then (Inl (lit ''the selected folder already contains Guru Terminal state''), ws)
      else case create_collections fault 0 all_kinds ws of
          (Some e, ws) \<Rightarrow> (Inl e, ws)
        | (None, ws) \<Rightarrow>
            (case fault 4 of
               Some e \<Rightarrow> (Inl e, ws)
             | None \<Rightarrow>
                 let ws = ws\<lparr>ws_internal := Directory\<rparr> in
                 (case fault 5 of
                    Some e \<Rightarrow> (Inl e, ws)
                  | None \<Rightarrow>
                      (Inr \<lparr>created = map collection_path all_kinds @ [metadata_path],
                            directories = map (\<lambda>k. root @ lit ''/'' @ collection_path k) all_kinds,
                            metadata_file = root @ lit ''/'' @ metadata_path,
                            schema_version = WORKSPACE_SCHEMA_VERSION\<rparr>,
                       ws\<lparr>ws_metadata := Some metadata_bytes\<rparr>))))"

definition workspace_schema :: "(bytes \<Rightarrow> nat option) \<Rightarrow> workspace \<Rightarrow> ustr + nat" where
  "workspace_schema parse ws =
     (if ws_data ws \<noteq> Directory \<or> list_ex (\<lambda>k. ws_kinds ws k \<noteq> Directory) all_kinds \<or>
         path_entry_exists (ws_method ws)
      then Inl (lit ''workspace is not initialized for Guru Terminal'')
      else case ws_metadata ws of
          None \<Rightarrow> Inl (lit ''workspace is not initialized for Guru Terminal'')
        | Some raw \<Rightarrow>
            (case parse raw of
               None \<Rightarrow> Inl (lit ''Guru Terminal workspace metadata is malformed'')
             | Some version \<Rightarrow> Inr version))"

text \<open>The number in the refusal is printed by \<open>show_version\<close>.\<close>

definition require_workspace ::
  "(bytes \<Rightarrow> nat option) \<Rightarrow> (nat \<Rightarrow> ustr) \<Rightarrow> workspace \<Rightarrow> ustr + unit" where
  "require_workspace parse show_version ws =
     (case workspace_schema parse ws of
        Inl e \<Rightarrow> Inl e
      | Inr version \<Rightarrow>
          if version = WORKSPACE_SCHEMA_VERSION then Inr ()
          else Inl (lit ''unsupported Guru Terminal workspace schema '' @ show_version version @
                 lit ''; expected '' @ show_version WORKSPACE_SCHEMA_VERSION))"

lemma require_workspace_ok:
  "require_workspace parse shw ws = Inr () \<longleftrightarrow>
     ws_data ws = Directory \<and> (\<forall>k. ws_kinds ws k = Directory) \<and> ws_method ws = Missing \<and>
     (\<exists>raw. ws_metadata ws = Some raw \<and> parse raw = Some 1)"
  by (auto simp: require_workspace_def workspace_schema_def WORKSPACE_SCHEMA_VERSION_def
      path_entry_exists_def list_ex_iff split: option.splits)

lemma create_collections_ok:
  "fst (create_collections fault n ks ws) = None \<Longrightarrow>
     snd (create_collections fault n ks ws) =
       (if ks = [] then ws
        else ws\<lparr>ws_data := Directory,
                ws_kinds := (\<lambda>k. if k \<in> set ks then Directory else ws_kinds ws k)\<rparr>)"
proof (induction ks arbitrary: n ws)
  case (Cons k ks)
  then have f: "fault n = None" by (auto split: option.splits)
  then have ok: "fst (create_collections fault (Suc n) ks (create_collection k ws)) = None"
    using Cons.prems by simp
  have "(\<lambda>j. if j \<in> set ks then Directory else ((ws_kinds ws)(k := Directory)) j) =
      (\<lambda>j. if j \<in> set (k # ks) then Directory else ws_kinds ws j)"
    by auto
  then show ?case
    using Cons.IH [OF ok] f by (auto simp: create_collection_def fun_eq_iff)
qed simp

lemma create_collections_frame:
  "ws_internal (snd (create_collections fault n ks ws)) = ws_internal ws \<and>
   ws_metadata (snd (create_collections fault n ks ws)) = ws_metadata ws \<and>
   ws_method (snd (create_collections fault n ks ws)) = ws_method ws"
  by (induction ks arbitrary: n ws) (auto simp: create_collection_def split: option.splits)

text \<open>
  An initialisation that succeeds leaves a workspace the check accepts; one that is refused
  changes nothing; one that fails half-way leaves no metadata behind, so no command accepts it.
\<close>

lemma initialize_ok:
  assumes "initialize_workspace fault root ws = (Inr i, ws')"
  shows "ws_data ws' = Directory \<and> (\<forall>k. ws_kinds ws' k = Directory) \<and>
    ws_internal ws' = Directory \<and> ws_metadata ws' = Some metadata_bytes \<and>
    ws_method ws' = ws_method ws"
proof -
  obtain w where c: "create_collections fault 0 all_kinds ws = (None, w)"
      and ws': "ws' = w\<lparr>ws_internal := Directory, ws_metadata := Some metadata_bytes\<rparr>"
    using assms by (auto simp: initialize_workspace_def Let_def split: if_splits prod.splits option.splits)
  have "all_kinds \<noteq> []" by (simp add: all_kinds_def)
  then show ?thesis
    using create_collections_ok [of fault 0 all_kinds ws] c ws' by simp
qed

lemma initialize_failed:
  assumes "initialize_workspace fault root ws = (Inl e, ws')"
  shows "ws' = ws \<or> ws_data ws = Missing \<and> ws_metadata ws' = ws_metadata ws"
  using assms create_collections_frame [of fault 0 all_kinds ws]
  by (auto simp: initialize_workspace_def path_entry_exists_def Let_def
      split: if_splits prod.splits option.splits)

subsection \<open>Properties\<close>

text \<open>Initialising a workspace refuses a folder that has Guru Terminal state and leaves it as it
  was. When it succeeds, on a folder without a \<^verbatim>\<open>method\<close> entry, every command accepts the
  workspace; when a filesystem call fails, the metadata is not written, so no command does.
\<close>

lemma initialized_workspace:
  assumes "parse metadata_bytes = Some 1" and "ws_method ws = Missing" and "ws_metadata ws = None"
  shows "case initialize_workspace fault root ws of
      (Inl e, ws') \<Rightarrow> require_workspace parse shw ws' \<noteq> Inr ()
    | (Inr i, ws') \<Rightarrow> ws_data ws = Missing \<and> ws_internal ws = Missing \<and>
        require_workspace parse shw ws' = Inr () \<and> schema_version i = WORKSPACE_SCHEMA_VERSION"
proof (cases "initialize_workspace fault root ws")
  case (Pair r ws')
  show ?thesis
  proof (cases r)
    case (Inl e)
    then have "initialize_workspace fault root ws = (Inl e, ws')" using Pair by simp
    from initialize_failed [OF this] have "ws_metadata ws' = None" using assms(3) by auto
    then show ?thesis using Pair Inl by (simp add: require_workspace_ok)
  next
    case (Inr i)
    then have "initialize_workspace fault root ws = (Inr i, ws')" using Pair by simp
    moreover from this have "ws_data ws = Missing \<and> ws_internal ws = Missing \<and>
        schema_version i = WORKSPACE_SCHEMA_VERSION"
      by (auto simp: initialize_workspace_def path_entry_exists_def Let_def
          split: if_splits prod.splits option.splits)
    ultimately show ?thesis
      using initialize_ok [of fault root ws i ws'] Pair Inr assms by (simp add: require_workspace_ok)
  qed
qed

definition fresh_workspace :: workspace where
  "fresh_workspace =
     \<lparr>ws_data = Missing, ws_kinds = (\<lambda>k. Missing), ws_method = Missing, ws_internal = Missing,
      ws_metadata = None\<rparr>"

theorem initialized_workspace_witness:
  "case initialize_workspace (\<lambda>n. None) (lit ''/w'') fresh_workspace of
      (Inl e, ws') \<Rightarrow> require_workspace (\<lambda>b. Some 1) (\<lambda>n. lit ''1'') ws' \<noteq> Inr ()
    | (Inr i, ws') \<Rightarrow> ws_data fresh_workspace = Missing \<and> ws_internal fresh_workspace = Missing \<and>
        require_workspace (\<lambda>b. Some 1) (\<lambda>n. lit ''1'') ws' = Inr () \<and>
        schema_version i = WORKSPACE_SCHEMA_VERSION"
  by (rule initialized_workspace) (simp_all add: fresh_workspace_def)

end
