(* ===== verification/Core_Cli.thy ===== *)
theory Core_Cli
  imports Knowledge_Context Core_Workspace
begin

text \<open>
  The command line of the core (src/cli.rs): the options parser, the checks each command makes
  of its arguments, and what it emits. Printing is left out: a command returns what it emitted
  and its result. The numbers and dates of the options are parsed by the standard library and
  chrono, and are parameters of the environment.
\<close>

subsection \<open>Options\<close>

record options =
  positionals :: "ustr list"
  named :: "(ustr \<times> ustr) list"
  flags :: "ustr list"
  json :: bool

definition flag_arguments :: "ustr list" where
  "flag_arguments = map lit
     [''--candidates'', ''--include-revoked'', ''--check'', ''--health'', ''--revision'',
      ''--learned-index'', ''--charter'']"

definition trim_dashes :: "ustr \<Rightarrow> ustr" where
  "trim_dashes = dropWhile (\<lambda>c. c = 45)"

definition push_flag :: "ustr \<Rightarrow> options \<Rightarrow> options" where
  "push_flag name o1 = o1\<lparr>flags := flags o1 @ [name]\<rparr>"

definition push_named :: "ustr \<Rightarrow> ustr \<Rightarrow> options \<Rightarrow> options" where
  "push_named name v o1 = o1\<lparr>named := named o1 @ [(name, v)]\<rparr>"

definition push_positional :: "ustr \<Rightarrow> options \<Rightarrow> options" where
  "push_positional v o1 = o1\<lparr>positionals := positionals o1 @ [v]\<rparr>"

function parse_arguments ::
  "ustr list \<Rightarrow> ustr list \<Rightarrow> options \<Rightarrow> ustr list \<Rightarrow> ustr + options" where
  "parse_arguments allowed repeatable o1 [] = Inr o1"
| "parse_arguments allowed repeatable o1 (argument # rest) =
     (if argument = lit ''--json'' then
        (if lit ''json'' \<notin> set allowed \<or> json o1 then Inl (lit ''--json may be supplied only once'')
         else parse_arguments allowed repeatable (o1\<lparr>json := True\<rparr>) rest)
      else if argument \<in> set flag_arguments then
        (let name = trim_dashes argument in
         if name \<notin> set allowed \<or> name \<in> set (flags o1)
         then Inl (argument @ lit '' may be supplied only once'')
         else parse_arguments allowed repeatable (push_flag name o1) rest)
      else case strip_prefix (lit ''--'') argument of
          Some name \<Rightarrow>
            if name \<notin> set allowed then Inl (lit ''unknown option: '' @ argument)
            else if name \<notin> set repeatable \<and> name \<in> fst ` set (named o1)
            then Inl (argument @ lit '' may be supplied only once'')
            else (case rest of
                [] \<Rightarrow> Inl (argument @ lit '' requires a value'')
              | v # rest' \<Rightarrow>
                  if starts_with v (lit ''--'') then Inl (argument @ lit '' requires a value'')
                  else parse_arguments allowed repeatable (push_named name v o1) rest')
        | None \<Rightarrow> parse_arguments allowed repeatable (push_positional argument o1) rest)"
  by pat_completeness auto
termination
  by (relation "measure (\<lambda>(a, r, o1, args). length args)") auto

definition no_options :: options where
  "no_options = \<lparr>positionals = [], named = [], flags = [], json = False\<rparr>"

definition parse_repeatable :: "ustr list \<Rightarrow> ustr list \<Rightarrow> ustr list \<Rightarrow> ustr + options" where
  "parse_repeatable arguments allowed repeatable =
     parse_arguments allowed repeatable no_options arguments"

definition parse_options :: "ustr list \<Rightarrow> ustr list \<Rightarrow> ustr + options" where
  "parse_options arguments allowed = parse_repeatable arguments allowed []"

definition option_value :: "options \<Rightarrow> ustr \<Rightarrow> ustr option" where
  "option_value o1 name = map_option snd (find (\<lambda>kv. fst kv = name) (named o1))"

definition option_values :: "options \<Rightarrow> ustr \<Rightarrow> ustr list" where
  "option_values o1 name = map snd (filter (\<lambda>kv. fst kv = name) (named o1))"

definition has_flag :: "options \<Rightarrow> ustr \<Rightarrow> bool" where
  "has_flag o1 name \<longleftrightarrow> name \<in> set (flags o1)"

definition one_positional :: "options \<Rightarrow> ustr \<Rightarrow> ustr + ustr" where
  "one_positional o1 usage = (case positionals o1 of [v] \<Rightarrow> Inr v | _ \<Rightarrow> Inl usage)"

definition no_positionals :: "options \<Rightarrow> ustr \<Rightarrow> ustr + unit" where
  "no_positionals o1 usage = (if positionals o1 = [] then Inr () else Inl usage)"

text \<open>What a successful parse guarantees.\<close>

definition options_ok :: "ustr list \<Rightarrow> ustr list \<Rightarrow> options \<Rightarrow> bool" where
  "options_ok allowed repeatable o1 \<longleftrightarrow>
     (json o1 \<longrightarrow> lit ''json'' \<in> set allowed) \<and>
     set (flags o1) \<subseteq> set allowed \<and> distinct (flags o1) \<and>
     set (flags o1) \<subseteq> trim_dashes ` set flag_arguments \<and>
     fst ` set (named o1) \<subseteq> set allowed \<and>
     distinct (filter (\<lambda>n. n \<notin> set repeatable) (map fst (named o1))) \<and>
     (\<forall>v\<in>snd ` set (named o1). \<not> starts_with v (lit ''--'')) \<and>
     (\<forall>v\<in>set (positionals o1). \<not> starts_with v (lit ''--''))"

lemma parse_arguments_ok:
  "parse_arguments allowed repeatable o1 args = Inr o2 \<Longrightarrow> options_ok allowed repeatable o1 \<Longrightarrow>
     options_ok allowed repeatable o2"
proof (induction allowed repeatable o1 args rule: parse_arguments.induct)
  case (2 allowed repeatable o1 argument rest)
  note IH = 2(1-4) and parsed = 2(5) and ok = 2(6)
  show ?case
  proof (cases "argument = lit ''--json''")
    case True
    then have p: "parse_arguments allowed repeatable (o1\<lparr>json := True\<rparr>) rest = Inr o2"
        "lit ''json'' \<in> set allowed" "\<not> json o1"
      using parsed by (auto split: if_splits)
    have "options_ok allowed repeatable (o1\<lparr>json := True\<rparr>)"
      using ok p(2) by (simp add: options_ok_def)
    then show ?thesis by (intro IH(1)) (simp_all only: p True simp_thms)
  next
    case not_json: False
    show ?thesis
    proof (cases "argument \<in> set flag_arguments")
      case True
      then have "parse_arguments allowed repeatable (push_flag (trim_dashes argument) o1) rest = Inr o2"
          "trim_dashes argument \<in> set allowed" "trim_dashes argument \<notin> set (flags o1)"
        using parsed not_json by (auto simp: Let_def split: if_splits)
      moreover have "options_ok allowed repeatable (push_flag (trim_dashes argument) o1)"
        using ok True calculation by (auto simp: options_ok_def push_flag_def)
      ultimately show ?thesis by (intro IH(2)) (simp_all only: not_json True simp_thms)
    next
      case not_flag: False
      show ?thesis
      proof (cases "strip_prefix (lit ''--'') argument")
        case None
        then have "parse_arguments allowed repeatable (push_positional argument o1) rest = Inr o2"
          using parsed not_json not_flag by simp
        moreover have "options_ok allowed repeatable (push_positional argument o1)"
          using ok None by (auto simp: options_ok_def push_positional_def strip_prefix_def split: if_splits)
        ultimately show ?thesis by (intro IH(3)) (simp_all only: not_json not_flag None simp_thms)
      next
        case (Some name)
        then obtain v rest' where v: "rest = v # rest'" "name \<in> set allowed"
            "\<not> (name \<notin> set repeatable \<and> name \<in> fst ` set (named o1))" "\<not> starts_with v (lit ''--'')"
            "parse_arguments allowed repeatable (push_named name v o1) rest' = Inr o2"
          using parsed not_json not_flag by (auto split: if_splits list.splits)
        moreover have "options_ok allowed repeatable (push_named name v o1)"
          using ok v by (auto simp: options_ok_def push_named_def)
        ultimately show ?thesis
          using IH(4) [OF not_json not_flag Some] by blast
      qed
    qed
  qed
qed simp

lemma options_ok_empty: "options_ok allowed repeatable no_options"
  by (simp add: options_ok_def no_options_def)

subsection \<open>Commands\<close>

record 'v cli_env =
  env_platform :: "'v platform"
  env_workspace :: "ustr \<Rightarrow> workspace"
  env_tree :: "ustr \<Rightarrow> memory_tree"
  env_date :: "ustr \<Rightarrow> int option"
  env_schema :: "bytes \<Rightarrow> nat option"
  env_show :: "nat \<Rightarrow> ustr"

text \<open>\<^theory_text>\<open>str::parse::<usize>\<close>: an optional plus sign and decimal digits, at most \<open>USIZE_MAX\<close>.\<close>

definition digits_value :: "ustr \<Rightarrow> nat" where
  "digits_value s = fold (\<lambda>c n. n * 10 + (c - 48)) s 0"

definition parse_usize :: "ustr \<Rightarrow> nat option" where
  "parse_usize s =
     (let d = (case s of [] \<Rightarrow> [] | c # r \<Rightarrow> if c = 43 then r else s) in
      if d \<noteq> [] \<and> list_all is_ascii_digit d \<and> digits_value d \<le> USIZE_MAX
      then Some (digits_value d) else None)"

datatype emitted =
    EHelp
  | EKnowledgeHelp
  | EVersion
  | EInit workspace_init
  | EDocuments "document list"
  | EResults "search_result list"
  | ECandidates "candidate_result list"
  | ERead read_result
  | EHealth "kind_health list"
  | ECheck knowledge_check
  | EContext "knowledge_check option" "kind_health list option" "ustr option"
      "document list option" "knowledge_charter option option"

type_synonym command_result = "emitted option \<times> (ustr + unit)"

definition failed :: "ustr \<Rightarrow> command_result" where
  "failed e = (None, Inl e)"

definition emit :: "emitted \<Rightarrow> command_result" where
  "emit e = (Some e, Inr ())"

text \<open>\<^verbatim>\<open>let x = a?; ...\<close>: the first error ends the command.\<close>

definition and_then :: "ustr + 'a \<Rightarrow> ('a \<Rightarrow> command_result) \<Rightarrow> command_result" where
  "and_then r f = (case r of Inl e \<Rightarrow> failed e | Inr a \<Rightarrow> f a)"

definition root_of :: "options \<Rightarrow> ustr" where
  "root_of o1 = (case option_value o1 (lit ''workspace'') of None \<Rightarrow> lit ''.'' | Some p \<Rightarrow> p)"

definition require_root :: "'v cli_env \<Rightarrow> options \<Rightarrow> ustr + unit" where
  "require_root env o1 =
     require_workspace (env_schema env) (env_show env) (env_workspace env (root_of o1))"

definition context_usage :: ustr where
  "context_usage = lit ''usage: guruterminal-core knowledge context [--check] [--health] [--revision] [--learned-index] [--charter] [--workspace PATH] --json''"

definition knowledge_context_command :: "'v cli_env \<Rightarrow> ustr list \<Rightarrow> command_result" where
  "knowledge_context_command env arguments =
     and_then (parse_options arguments (map lit [''json'', ''workspace'', ''check'', ''health'',
         ''revision'', ''learned-index'', ''charter''])) (\<lambda>o1.
     and_then (no_positionals o1 context_usage) (\<lambda>_.
     if \<not> json o1 then failed (context_usage @ lit ''; --json is required'')
     else if \<not> list_ex (has_flag o1) (map lit [''check'', ''health'', ''revision'',
         ''learned-index'', ''charter'']) then failed context_usage
     else and_then (require_root env o1) (\<lambda>_.
     and_then (knowledge_context_of (env_platform env) (env_tree env (root_of o1))) (\<lambda>result.
       (Some (EContext
          (if has_flag o1 (lit ''check'') then Some (kx_check result) else None)
          (if has_flag o1 (lit ''health'') then Some (kx_health result) else None)
          (if has_flag o1 (lit ''revision'') then Some (kx_revision result) else None)
          (if has_flag o1 (lit ''learned-index'') then Some (kx_records result) else None)
          (if has_flag o1 (lit ''charter'') then Some (kx_charter result) else None)),
        if has_flag o1 (lit ''check'') \<and> \<not> kc_valid (kx_check result)
        then Inl (lit ''knowledge check failed'') else Inr ())))))"

definition knowledge_read_command :: "'v cli_env \<Rightarrow> ustr list \<Rightarrow> command_result" where
  "knowledge_read_command env arguments =
     and_then (parse_options arguments (map lit [''json'', ''workspace'', ''section''])) (\<lambda>o1.
     and_then (one_positional o1 (lit ''usage: guruterminal-core knowledge read <id> [--section NAME] [--workspace PATH] [--json]'')) (\<lambda>i.
     and_then (require_root env o1) (\<lambda>_.
     and_then (read (env_platform env) (env_tree env (root_of o1)) i
         (option_value o1 (lit ''section''))) (\<lambda>result.
     emit (ERead result)))))"

definition knowledge_list_command :: "'v cli_env \<Rightarrow> ustr list \<Rightarrow> command_result" where
  "knowledge_list_command env arguments =
     and_then (parse_options arguments (map lit [''json'', ''workspace'', ''kind''])) (\<lambda>o1.
     and_then (no_positionals o1 (lit ''usage: guruterminal-core knowledge list [--kind KIND] [--workspace PATH] [--json]'')) (\<lambda>_.
     and_then (require_root env o1) (\<lambda>_.
     let documents = catalog_local (env_platform env) (env_tree env (root_of o1)) in
     case option_value o1 (lit ''kind'') of
       None \<Rightarrow> emit (EDocuments documents)
     | Some kind \<Rightarrow>
         if from_slug kind = None then failed (lit ''unknown knowledge kind: '' @ kind)
         else emit (EDocuments (filter (\<lambda>d. doc_kind d = kind) documents)))))"

definition parse_limit :: "options \<Rightarrow> ustr + nat" where
  "parse_limit o1 =
     (case option_value o1 (lit ''limit'') of
        None \<Rightarrow> Inr 8
      | Some v \<Rightarrow>
          (case parse_usize v of None \<Rightarrow> Inl (lit ''--limit must be an integer'') | Some n \<Rightarrow> Inr n))"

definition parse_as_of :: "'v cli_env \<Rightarrow> options \<Rightarrow> ustr + int option" where
  "parse_as_of env o1 =
     (case option_value o1 (lit ''as-of'') of
        None \<Rightarrow> Inr None
      | Some v \<Rightarrow>
          (case env_date env v of
             None \<Rightarrow> Inl (lit ''--as-of must be a YYYY-MM-DD date'') | Some day \<Rightarrow> Inr (Some day)))"

definition knowledge_search_command :: "'v cli_env \<Rightarrow> ustr list \<Rightarrow> command_result" where
  "knowledge_search_command env arguments =
     and_then (parse_repeatable arguments (map lit [''json'', ''workspace'', ''kind'', ''limit'',
         ''candidates'', ''include-revoked'', ''as-of'']) [lit ''kind'']) (\<lambda>o1.
     and_then (one_positional o1 (lit ''usage: guruterminal-core knowledge search <query> [--kind KIND]... [--limit N] [--candidates] [--include-revoked] [--as-of YYYY-MM-DD] [--workspace PATH] [--json]'')) (\<lambda>query.
     and_then (require_root env o1) (\<lambda>_.
     and_then (parse_limit o1) (\<lambda>limit.
     and_then (parse_as_of env o1) (\<lambda>as_of.
     let P = env_platform env; tree = env_tree env (root_of o1);
         kinds = option_values o1 (lit ''kind'') in
     if has_flag o1 (lit ''candidates'') then
       if as_of \<noteq> None then failed (lit ''--as-of cannot be combined with --candidates'')
       else if has_flag o1 (lit ''include-revoked'')
       then failed (lit ''--include-revoked cannot be combined with --candidates'')
       else and_then (search_candidates_with_kinds P tree query kinds limit) (\<lambda>rs.
         emit (ECandidates rs))
     else and_then (search_with_kinds_opts P tree query kinds limit
         (has_flag o1 (lit ''include-revoked'')) as_of) (\<lambda>rs. emit (EResults rs)))))))"

definition knowledge_health_command :: "'v cli_env \<Rightarrow> ustr list \<Rightarrow> command_result" where
  "knowledge_health_command env arguments =
     and_then (parse_options arguments (map lit [''json'', ''workspace'', ''kind''])) (\<lambda>o1.
     and_then (no_positionals o1 (lit ''usage: guruterminal-core knowledge health [--kind KIND] [--workspace PATH] [--json]'')) (\<lambda>_.
     and_then (require_root env o1) (\<lambda>_.
     and_then (health (env_platform env) (env_tree env (root_of o1))
         (option_value o1 (lit ''kind''))) (\<lambda>result.
     emit (EHealth result)))))"

definition knowledge_check_command :: "'v cli_env \<Rightarrow> ustr list \<Rightarrow> command_result" where
  "knowledge_check_command env arguments =
     and_then (parse_options arguments (map lit [''json'', ''workspace''])) (\<lambda>o1.
     and_then (no_positionals o1 (lit ''usage: guruterminal-core knowledge check [--workspace PATH] [--json]'')) (\<lambda>_.
     and_then (require_root env o1) (\<lambda>_.
     let result = check (env_platform env) (env_tree env (root_of o1)) in
     (Some (ECheck result),
      if kc_valid result then Inr () else Inl (lit ''knowledge check failed'')))))"

definition is_help :: "ustr list \<Rightarrow> bool" where
  "is_help arguments \<longleftrightarrow>
     (case arguments of [] \<Rightarrow> True | a # _ \<Rightarrow> a = lit ''--help'' \<or> a = lit ''-h'')"

definition knowledge_command :: "'v cli_env \<Rightarrow> ustr list \<Rightarrow> command_result" where
  "knowledge_command env arguments =
     (if is_help arguments then emit EKnowledgeHelp
      else let command = hd arguments; rest = tl arguments in
        if command = lit ''list'' then knowledge_list_command env rest
        else if command = lit ''search'' then knowledge_search_command env rest
        else if command = lit ''read'' then knowledge_read_command env rest
        else if command = lit ''check'' then knowledge_check_command env rest
        else if command = lit ''health'' then knowledge_health_command env rest
        else if command = lit ''context'' then knowledge_context_command env rest
        else failed (lit ''unknown knowledge command: '' @ command))"

text \<open>\<^verbatim>\<open>init\<close> is the only command that changes the workspace it is given.\<close>

definition init_command ::
  "'v cli_env \<Rightarrow> (nat \<Rightarrow> ustr option) \<Rightarrow> ustr list \<Rightarrow> command_result \<times> (ustr \<Rightarrow> workspace)" where
  "init_command env fault arguments =
     (case parse_options arguments [lit ''json''] of
        Inl e \<Rightarrow> (failed e, env_workspace env)
      | Inr o1 \<Rightarrow>
          if 1 < length (positionals o1)
          then (failed (lit ''usage: guruterminal-core init [workspace] [--json]''), env_workspace env)
          else
            let root = (case positionals o1 of [] \<Rightarrow> lit ''.'' | p # _ \<Rightarrow> p) in
            (case initialize_workspace fault root (env_workspace env root) of
               (r, ws) \<Rightarrow> (and_then r (\<lambda>i. emit (EInit i)), (env_workspace env)(root := ws))))"

definition run ::
  "'v cli_env \<Rightarrow> (nat \<Rightarrow> ustr option) \<Rightarrow> ustr list \<Rightarrow> command_result \<times> (ustr \<Rightarrow> workspace)" where
  "run env fault arguments =
     (if is_help arguments then (emit EHelp, env_workspace env)
      else if arguments = [lit ''--version''] \<or> arguments = [lit ''version'']
      then (emit EVersion, env_workspace env)
      else if hd arguments = lit ''init'' then init_command env fault (tl arguments)
      else if hd arguments = lit ''knowledge''
      then (knowledge_command env (tl arguments), env_workspace env)
      else (failed (lit ''unknown command: '' @ hd arguments), env_workspace env))"

lemmas cli_defs = and_then_def failed_def emit_def Let_def

text \<open>No knowledge command reads a tree whose workspace the check refuses.\<close>

definition tree_output :: "emitted option \<Rightarrow> bool" where
  "tree_output e \<longleftrightarrow>
     (case e of None \<Rightarrow> False | Some EHelp \<Rightarrow> False | Some EKnowledgeHelp \<Rightarrow> False
      | Some EVersion \<Rightarrow> False | Some (EInit _) \<Rightarrow> False | _ \<Rightarrow> True)"

lemma knowledge_command_guarded:
  assumes "tree_output (fst (knowledge_command env arguments))"
  shows "\<exists>root. require_workspace (env_schema env) (env_show env) (env_workspace env root) = Inr ()"
proof -
  have "require_root env o1 = Inr () \<Longrightarrow>
      \<exists>root. require_workspace (env_schema env) (env_show env) (env_workspace env root) = Inr ()" for o1
    unfolding require_root_def by blast
  then show ?thesis
    using assms
    by (auto simp: knowledge_command_def knowledge_list_command_def knowledge_search_command_def
        knowledge_read_command_def knowledge_check_command_def knowledge_health_command_def
        knowledge_context_command_def cli_defs tree_output_def
        split: if_splits sum.splits option.splits)
qed

subsection \<open>Properties\<close>

text \<open>Options that parse are the allowed ones: no flag and no value option occurs twice unless it
  may repeat, every flag is one of the known flags, and no value and no positional argument looks
  like an option.
\<close>

lemma options_parse_sound:
  "case parse_repeatable arguments allowed repeatable of
     Inl e \<Rightarrow> True | Inr o1 \<Rightarrow> options_ok allowed repeatable o1"
  using parse_arguments_ok [OF _ options_ok_empty, of allowed repeatable arguments]
  by (simp add: parse_repeatable_def split: sum.split)

text \<open>A knowledge command that shows anything of a Memory tree has been given a workspace that the
  schema check accepts: data directory, the four collections, no old layout, and version 1.
\<close>

lemma commands_need_a_workspace:
  "tree_output (fst (fst (run env fault arguments))) \<Longrightarrow>
     \<exists>root. let ws = env_workspace env root in
       ws_data ws = Directory \<and> list_all (\<lambda>k. ws_kinds ws k = Directory) all_kinds \<and>
       ws_method ws = Missing \<and> map_option (env_schema env) (ws_metadata ws) = Some (Some 1)"
proof -
  assume t: "tree_output (fst (fst (run env fault arguments)))"
  have "\<not> tree_output (fst (fst (init_command env fault args)))" for args
    by (auto simp: init_command_def cli_defs tree_output_def split: sum.split prod.split)
  then have "tree_output (fst (knowledge_command env (tl arguments)))"
    using t by (auto simp: run_def emit_def failed_def tree_output_def split: if_splits)
  then obtain root where "require_workspace (env_schema env) (env_show env)
      (env_workspace env root) = Inr ()"
    using knowledge_command_guarded by blast
  then show ?thesis
    by (intro exI [of _ root]) (auto simp: require_workspace_ok list_all_iff Let_def)
qed

definition example_env :: "unit cli_env" where
  "example_env =
     \<lparr>env_platform = ascii_platform,
      env_workspace = (\<lambda>root.
        \<lparr>ws_data = Directory, ws_kinds = (\<lambda>k. Directory), ws_method = Missing,
         ws_internal = Directory, ws_metadata = Some metadata_bytes\<rparr>),
      env_tree = (\<lambda>root k. NDir []), env_date = (\<lambda>s. None),
      env_schema = (\<lambda>b. Some 1), env_show = (\<lambda>n. lit ''1'')\<rparr>"

theorem commands_need_a_workspace_witness:
  "\<exists>root. let ws = env_workspace example_env root in
       ws_data ws = Directory \<and> list_all (\<lambda>k. ws_kinds ws k = Directory) all_kinds \<and>
       ws_method ws = Missing \<and> map_option (env_schema example_env) (ws_metadata ws) = Some (Some 1)"
proof (rule commands_need_a_workspace)
  show "tree_output (fst (fst (run example_env (\<lambda>n. None) [lit ''knowledge'', lit ''check''])))"
    by code_simp
qed

end
