(* ===== verification/Host_Base.thy ===== *)
theory Host_Base
  imports Guru_Prelude "HOL-Library.Word"
begin

text \<open>
  What the components of the desktop host (\<^theory_text>\<open>apps/guruterminal/src-tauri/src\<close>) share: the
  error of a command (\<^theory_text>\<open>app.rs\<close>), the decimal text of a number, and the locale \<open>lease_pool\<close>,
  the contract of a gate that hands out leases: a lease that is taken is live until it is given
  back, and giving one back leaves the others alone.
\<close>

subsection \<open>Command errors\<close>

record command_error =
  err_code :: ustr
  err_message :: ustr

definition command_error_new :: "ustr \<Rightarrow> ustr \<Rightarrow> command_error" where
  "command_error_new code message = \<lparr>err_code = code, err_message = message\<rparr>"

definition err_unavailable :: "ustr \<Rightarrow> command_error" where
  "err_unavailable component =
     command_error_new (component @ lit ''_unavailable'')
       (component @ lit '' is not available in this Guru Terminal build'')"

definition err_invalid :: "ustr \<Rightarrow> command_error" where
  "err_invalid message = command_error_new (lit ''invalid_request'') message"

definition err_not_found :: "ustr \<Rightarrow> command_error" where
  "err_not_found kind = command_error_new (lit ''not_found'') (kind @ lit '' was not found'')"

definition err_conflict :: "ustr \<Rightarrow> command_error" where
  "err_conflict message = command_error_new (lit ''conflict'') message"

definition err_internal :: "ustr \<Rightarrow> command_error" where
  "err_internal message = command_error_new (lit ''internal'') message"

lemmas command_error_defs =
  command_error_new_def err_unavailable_def err_invalid_def err_not_found_def err_conflict_def
  err_internal_def

lemma err_codes [simp]:
  "err_code (command_error_new c m) = c"
  "err_code (err_invalid m) = lit ''invalid_request''"
  "err_code (err_not_found m) = lit ''not_found''"
  "err_code (err_conflict m) = lit ''conflict''"
  "err_code (err_internal m) = lit ''internal''"
  by (simp_all add: command_error_defs)

subsection \<open>Decimal numbers\<close>

text \<open>\<^theory_text>\<open>format!("{n}")\<close> of an unsigned number.\<close>

fun decimal :: "nat \<Rightarrow> ustr" where
  "decimal n = (if n < 10 then [48 + n] else decimal (n div 10) @ [48 + n mod 10])"

declare decimal.simps [simp del]

definition digits_value :: "ustr \<Rightarrow> nat" where
  "digits_value s = foldl (\<lambda>v c. 10 * v + (c - 48)) 0 s"

lemma digits_value_decimal [simp]: "digits_value (decimal n) = n"
proof (induction n rule: decimal.induct)
  case (1 n)
  then show ?case
    by (subst decimal.simps) (auto simp: digits_value_def)
qed

lemma decimal_inj: "decimal m = decimal n \<longleftrightarrow> m = n"
  by (metis digits_value_decimal)

lemma decimal_not_Nil [simp]: "decimal n \<noteq> []"
  by (subst decimal.simps) auto

subsection \<open>Leases\<close>

text \<open>
  A pool of leases over a state: \<open>live\<close> lists the identifiers of the leases that are out,
  \<open>put\<close> takes one out under a fresh identifier and \<open>drop\<close> gives one back.
\<close>

locale lease_pool =
  fixes live :: "'s \<Rightarrow> 'i list"
    and put :: "'i \<Rightarrow> 'a \<Rightarrow> 's \<Rightarrow> 's"
    and drop :: "'i \<Rightarrow> 's \<Rightarrow> 's"
    and ok :: "'s \<Rightarrow> bool"
  assumes live_put: "ok s \<Longrightarrow> i \<notin> set (live s) \<Longrightarrow> set (live (put i a s)) = insert i (set (live s))"
    and live_drop: "ok s \<Longrightarrow> set (live (drop i s)) = set (live s) - {i}"
    and ok_put: "ok s \<Longrightarrow> i \<notin> set (live s) \<Longrightarrow> ok (put i a s)"
    and ok_drop: "ok s \<Longrightarrow> ok (drop i s)"
begin

lemma drop_put:
  "ok s \<Longrightarrow> i \<notin> set (live s) \<Longrightarrow> set (live (drop i (put i a s))) = set (live s)"
  by (simp add: live_put live_drop ok_put)

lemma ok_drops: "ok s \<Longrightarrow> ok (fold drop is s)"
  by (induction "is" arbitrary: s) (simp_all add: ok_drop)

lemma live_drops: "ok s \<Longrightarrow> set (live (fold drop is s)) = set (live s) - set is"
  by (induction "is" arbitrary: s) (auto simp: live_drop ok_drop)

text \<open>Giving back every lease that is out empties the pool, in whatever order they are given back.\<close>

lemma drained: "ok s \<Longrightarrow> set (live s) \<subseteq> set is \<Longrightarrow> live (fold drop is s) = []"
  by (metis Diff_eq_empty_iff live_drops set_empty)

end

end
