(* ===== verification/Maintenance.thy ===== *)
theory Maintenance
  imports Host_Base
begin

text \<open>
  The maintenance coordinator (\<^theory_text>\<open>maintenance.rs\<close>): every native activity takes a lease, and the
  installation of an update takes an exclusive one. One mutex guards the state, so each operation
  below is atomic. Activity identifiers are \<^theory_text>\<open>u64\<close> and wrap.
\<close>

record maintenance_blocker =
  mb_id :: ustr
  mb_kind :: ustr
  mb_label :: ustr

datatype maintenance_activity_kind =
  Guru_Mutation | Guru_Transfer | Guru_Deletion | Chat_Mutation_Activity | Memory_Mutation
| Marketplace_Configuration | Marketplace_Credential

fun activity_kind :: "maintenance_activity_kind \<Rightarrow> ustr" where
  "activity_kind Guru_Mutation = lit ''guru_mutation''"
| "activity_kind Guru_Transfer = lit ''guru_transfer''"
| "activity_kind Guru_Deletion = lit ''guru_deletion''"
| "activity_kind Chat_Mutation_Activity = lit ''chat_mutation''"
| "activity_kind Memory_Mutation = lit ''memory_mutation''"
| "activity_kind Marketplace_Configuration = lit ''marketplace_configuration''"
| "activity_kind Marketplace_Credential = lit ''marketplace_credential''"

fun activity_kind_label :: "maintenance_activity_kind \<Rightarrow> ustr" where
  "activity_kind_label Guru_Mutation = lit ''Guru change''"
| "activity_kind_label Guru_Transfer = lit ''Guru Memory transfer''"
| "activity_kind_label Guru_Deletion = lit ''Guru deletion''"
| "activity_kind_label Chat_Mutation_Activity = lit ''Chat change''"
| "activity_kind_label Memory_Mutation = lit ''Memory change''"
| "activity_kind_label Marketplace_Configuration = lit ''Marketplace configuration change''"
| "activity_kind_label Marketplace_Credential = lit ''Marketplace credential change''"

record maintenance_state =
  installing_update :: bool
  next_activity_id :: "64 word"
  activities :: "(64 word, maintenance_blocker) btree"

definition maintenance_default :: maintenance_state where
  "maintenance_default = \<lparr>installing_update = False, next_activity_id = 0, activities = []\<rparr>"

text \<open>\<^theory_text>\<open>wrapping_add(1).max(1)\<close>\<close>

definition next_id :: "64 word \<Rightarrow> 64 word" where
  "next_id n = max (n + 1) 1"

definition maintenance_admit ::
  "(64 word \<Rightarrow> maintenance_blocker) \<Rightarrow> maintenance_state \<Rightarrow>
   (command_error + 64 word) \<times> maintenance_state" where
  "maintenance_admit blocker s =
     (if installing_update s then
        (Inl (command_error_new (lit ''maintenance_active'') (lit
           ''Guru Terminal is installing an update; wait for the restart before starting new work'')), s)
      else
        let activity_id = next_id (next_activity_id s) in
        (Inr activity_id,
         s\<lparr>next_activity_id := activity_id,
           activities := bt_insert activity_id (blocker activity_id) (activities s)\<rparr>))"

definition admit_kind ::
  "maintenance_activity_kind \<Rightarrow> maintenance_state \<Rightarrow> (command_error + 64 word) \<times> maintenance_state" where
  "admit_kind kind =
     maintenance_admit (\<lambda>activity_id.
       \<lparr>mb_id = lit ''native-'' @ decimal (unat activity_id), mb_kind = activity_kind kind,
        mb_label = activity_kind_label kind\<rparr>)"

definition admit_activity ::
  "maintenance_blocker \<Rightarrow> maintenance_state \<Rightarrow> (command_error + 64 word) \<times> maintenance_state" where
  "admit_activity blocker = maintenance_admit (\<lambda>_. blocker)"

definition drop_activity :: "64 word \<Rightarrow> maintenance_state \<Rightarrow> maintenance_state" where
  "drop_activity activity_id s = s\<lparr>activities := bt_remove activity_id (activities s)\<rparr>"

definition begin_update ::
  "maintenance_state \<Rightarrow> (maintenance_blocker list + unit) \<times> maintenance_state" where
  "begin_update s =
     (if installing_update s then
        (Inl [\<lparr>mb_id = lit ''update-install'', mb_kind = lit ''update'',
               mb_label = lit ''Another update installation is already active''\<rparr>], s)
      else if activities s \<noteq> [] then (Inl (map snd (activities s)), s)
      else (Inr (), s\<lparr>installing_update := True\<rparr>))"

definition drop_maintenance :: "maintenance_state \<Rightarrow> maintenance_state" where
  "drop_maintenance s = s\<lparr>installing_update := False\<rparr>"

lemmas maintenance_defs =
  maintenance_default_def maintenance_admit_def admit_kind_def admit_activity_def
  drop_activity_def begin_update_def drop_maintenance_def

subsection \<open>The invariant\<close>

definition activity_ids :: "maintenance_state \<Rightarrow> 64 word list" where
  "activity_ids s = map fst (activities s)"

definition maintenance_inv :: "maintenance_state \<Rightarrow> bool" where
  "maintenance_inv s \<longleftrightarrow> bt_inv (activities s) \<and> \<not> (installing_update s \<and> activities s \<noteq> [])"

lemma maintenance_inv_default [simp]: "maintenance_inv maintenance_default"
  by (simp add: maintenance_inv_def maintenance_default_def)

lemma maintenance_inv_admit [simp]:
  "maintenance_inv s \<Longrightarrow> maintenance_inv (snd (maintenance_admit b s))"
  by (auto simp: maintenance_inv_def maintenance_admit_def Let_def)

lemma bt_remove_Nil_iff: "bt_remove k m \<noteq> [] \<Longrightarrow> m \<noteq> []"
  by auto

lemma maintenance_inv_drop [simp]:
  "maintenance_inv s \<Longrightarrow> maintenance_inv (drop_activity i s)"
  by (auto simp: maintenance_inv_def drop_activity_def)

lemma maintenance_inv_begin [simp]:
  "maintenance_inv s \<Longrightarrow> maintenance_inv (snd (begin_update s))"
  by (auto simp: maintenance_inv_def begin_update_def)

lemma maintenance_inv_end [simp]:
  "maintenance_inv s \<Longrightarrow> maintenance_inv (drop_maintenance s)"
  by (auto simp: maintenance_inv_def drop_maintenance_def)

subsection \<open>Leases of activities\<close>

definition put_activity ::
  "64 word \<Rightarrow> maintenance_blocker \<Rightarrow> maintenance_state \<Rightarrow> maintenance_state" where
  "put_activity i b s = s\<lparr>activities := bt_insert i b (activities s)\<rparr>"

lemma set_bt_remove_ids:
  "bt_inv m \<Longrightarrow> fst ` set (bt_remove i m) = fst ` set m - {i}"
proof (intro set_eqI)
  fix k
  assume "bt_inv m"
  then show "k \<in> fst ` set (bt_remove i m) \<longleftrightarrow> k \<in> fst ` set m - {i}"
    by (metis DiffE DiffI bt_get_None_iff bt_get_remove singletonD singletonI)
qed

interpretation activity_pool: lease_pool activity_ids put_activity drop_activity
    "\<lambda>s. bt_inv (activities s)"
  by unfold_locales
    (simp_all add: activity_ids_def put_activity_def drop_activity_def fst_bt_insert set_bt_remove_ids)

lemma next_id_pos: "next_id n \<noteq> 0"
  by (metis max.cobounded2 next_id_def word_le_0_iff zero_neq_one)

lemma unat_next_id: "unat n + 1 < 2 ^ 64 \<Longrightarrow> unat (next_id n) = unat n + 1"
proof -
  assume "unat n + 1 < 2 ^ 64"
  then have "unat (n + 1) = unat n + 1"
    by (simp add: unat_word_ariths)
  moreover from this have "1 \<le> n + 1"
    by (simp add: word_le_nat_alt)
  ultimately show ?thesis by (simp add: next_id_def max_absorb1)
qed

end
