(* ===== verification/Run_Coordinator.thy ===== *)
theory Run_Coordinator
  imports Maintenance
begin

text \<open>
  The run coordinator (\<^theory_text>\<open>run_coordinator.rs\<close>): the table of active runs, the queues of the Memory
  writers, admission, cancellation and completion. One mutex guards the table; what the code does
  under it is one function of the table here (\<open>register_section\<close>, \<open>reserve_section\<close>,
  \<open>unlist_run\<close>, \<open>cancel\<close>, \<open>claim_completion\<close>, \<open>begin_guru_mutation\<close>), and the operations of the coordinator
  compose those with the maintenance gate in the order of the code.

  The table is a \<^theory_text>\<open>HashMap\<close> and its iteration order is not specified. The model visits it in the
  order of the identifiers; \<open>admit_Inr_iff\<close> and \<open>the_chat_run\<close> show that neither the admission nor
  the search of a Chat depends on it.
\<close>

subsection \<open>Data\<close>

datatype run_kind = Chat_Run | Memory_Write_Run | Chat_Mutation_Run

datatype memory_access = Shared_Memory | Exclusive_Memory

datatype run_target = Chat_Thread ustr | Memory_Write_Session ustr

datatype terminal_state = Running | Cancel_Requested | Completion_Claimed

fun run_kind_str :: "run_kind \<Rightarrow> ustr" where
  "run_kind_str Chat_Run = lit ''chat''"
| "run_kind_str Memory_Write_Run = lit ''memory_write''"
| "run_kind_str Chat_Mutation_Run = lit ''chat_mutation''"

fun run_activity_label :: "run_kind \<Rightarrow> ustr" where
  "run_activity_label Chat_Run = lit ''Chat session''"
| "run_activity_label Memory_Write_Run = lit ''Memory write''"
| "run_activity_label Chat_Mutation_Run = lit ''Chat change''"

definition consumes_model_slot :: "run_kind \<Rightarrow> bool" where
  "consumes_model_slot k \<longleftrightarrow> k = Chat_Run"

fun run_access :: "run_kind \<Rightarrow> memory_access" where
  "run_access Memory_Write_Run = Exclusive_Memory"
| "run_access Chat_Run = Shared_Memory"
| "run_access Chat_Mutation_Run = Shared_Memory"

fun target_value :: "run_target \<Rightarrow> ustr" where
  "target_value (Chat_Thread v) = v"
| "target_value (Memory_Write_Session v) = v"

definition max_model_workers :: nat where
  "max_model_workers = 4"

record run_spec =
  rs_run_id :: ustr
  rs_guru_id :: ustr
  rs_kind :: run_kind
  rs_target :: run_target

text \<open>The handle of a Chat's control channel is opaque to the table: a number names the channel.\<close>

record active_run =
  ar_spec :: run_spec
  ar_started_at_ms :: int
  ar_cancel :: bool
  ar_chat_control :: "nat option"
  ar_terminal :: terminal_state

record run_table =
  runs :: "(ustr, active_run) btree"
  writer_queues :: "(ustr, ustr list) btree"

record run_activity =
  ra_run_id :: ustr
  ra_guru_id :: ustr
  ra_kind :: ustr
  ra_target :: ustr
  ra_started_at_ms :: int

definition run_table_default :: run_table where
  "run_table_default = \<lparr>runs = [], writer_queues = []\<rparr>"

definition active_values :: "run_table \<Rightarrow> active_run list" where
  "active_values t = map snd (runs t)"

definition guru_of :: "active_run \<Rightarrow> ustr" where
  "guru_of r = rs_guru_id (ar_spec r)"

definition kind_of :: "active_run \<Rightarrow> run_kind" where
  "kind_of r = rs_kind (ar_spec r)"

definition target_of :: "active_run \<Rightarrow> run_target" where
  "target_of r = rs_target (ar_spec r)"

lemmas run_defs = guru_of_def kind_of_def target_of_def

subsection \<open>Admission\<close>

fun admit_against :: "run_spec \<Rightarrow> active_run list \<Rightarrow> command_error + unit" where
  "admit_against incoming [] = Inr ()"
| "admit_against incoming (active # rest) =
     (if guru_of active \<noteq> rs_guru_id incoming then admit_against incoming rest
      else if target_of active = rs_target incoming then
        Inl (err_conflict (lit ''this Guru target already has an active run''))
      else if run_access (kind_of active) = Exclusive_Memory \<or>
              run_access (rs_kind incoming) = Exclusive_Memory then
        Inl (err_conflict (lit ''this Guru has an active Memory reader or writer''))
      else admit_against incoming rest)"

definition model_workers :: "run_table \<Rightarrow> nat" where
  "model_workers t = length (filter (\<lambda>r. consumes_model_slot (kind_of r)) (active_values t))"

definition admit :: "run_table \<Rightarrow> run_spec \<Rightarrow> command_error + unit" where
  "admit t incoming =
     (if bt_get (runs t) (rs_run_id incoming) \<noteq> None then
        Inl (err_conflict (lit ''run id is already active''))
      else if consumes_model_slot (rs_kind incoming) \<and> max_model_workers \<le> model_workers t then
        Inl (err_conflict (lit ''the four-worker model execution pool is full''))
      else admit_against incoming (active_values t))"

definition admit_waiting_memory_writer :: "run_table \<Rightarrow> run_spec \<Rightarrow> command_error + unit" where
  "admit_waiting_memory_writer t incoming =
     (if bt_get (runs t) (rs_run_id incoming) \<noteq> None then
        Inl (err_conflict (lit ''run id is already active''))
      else if list_ex (\<lambda>active. guru_of active = rs_guru_id incoming \<and>
                target_of active = rs_target incoming) (active_values t) then
        Inl (err_conflict (lit ''this Guru target already has an active run''))
      else Inr ())"

definition new_run :: "run_spec \<Rightarrow> int \<Rightarrow> nat option \<Rightarrow> active_run" where
  "new_run spec now control =
     \<lparr>ar_spec = spec, ar_started_at_ms = now, ar_cancel = False, ar_chat_control = control,
      ar_terminal = Running\<rparr>"

text \<open>The part of \<^theory_text>\<open>register_with_controls\<close> that runs under the lock of the table.\<close>

definition register_section ::
  "run_spec \<Rightarrow> nat option \<Rightarrow> (command_error + unit) \<Rightarrow> int \<Rightarrow> run_table \<Rightarrow> command_error + run_table" where
  "register_section spec control available now t =
     (case available of
        Inl e \<Rightarrow> Inl e
      | Inr _ \<Rightarrow>
          (case admit t spec of
             Inl e \<Rightarrow> Inl e
           | Inr _ \<Rightarrow> Inr (t\<lparr>runs := bt_insert (rs_run_id spec) (new_run spec now control) (runs t)\<rparr>)))"

text \<open>The part of \<^theory_text>\<open>reserve_memory_write\<close> that runs under the lock of the table.\<close>

definition reserve_section ::
  "run_spec \<Rightarrow> (command_error + unit) \<Rightarrow> int \<Rightarrow> run_table \<Rightarrow> command_error + run_table" where
  "reserve_section spec available now t =
     (case available of
        Inl e \<Rightarrow> Inl e
      | Inr _ \<Rightarrow>
          (case admit_waiting_memory_writer t spec of
             Inl e \<Rightarrow> Inl e
           | Inr _ \<Rightarrow> Inr
               (t\<lparr>runs := bt_insert (rs_run_id spec) (new_run spec now None) (runs t),
                  writer_queues :=
                    bt_entry [] (\<lambda>queue. queue @ [rs_run_id spec]) (rs_guru_id spec)
                      (writer_queues t)\<rparr>)))"

text \<open>The part of the lease's \<^theory_text>\<open>drop\<close> that runs under the lock of the table.\<close>

definition unlist_run :: "ustr \<Rightarrow> run_table \<Rightarrow> run_table" where
  "unlist_run run_id t =
     (case bt_get (runs t) run_id of
        None \<Rightarrow> t
      | Some run \<Rightarrow>
          let t1 = t\<lparr>runs := bt_remove run_id (runs t)\<rparr> in
          if kind_of run = Memory_Write_Run then
            (case bt_get (writer_queues t1) (guru_of run) of
               None \<Rightarrow> t1
             | Some queue \<Rightarrow>
                 let queue' = filter (\<lambda>queued. queued \<noteq> run_id) queue in
                 if queue' = [] then
                   t1\<lparr>writer_queues := bt_remove (guru_of run) (writer_queues t1)\<rparr>
                 else t1\<lparr>writer_queues := bt_insert (guru_of run) queue' (writer_queues t1)\<rparr>)
          else t1)"

subsection \<open>Waiting for the readers to drain\<close>

definition queue_head :: "run_table \<Rightarrow> ustr \<Rightarrow> ustr option" where
  "queue_head t guru =
     (case bt_get (writer_queues t) guru of
        Some (queued # _) \<Rightarrow> Some queued
      | _ \<Rightarrow> None)"

definition readers_drained :: "run_table \<Rightarrow> ustr \<Rightarrow> bool" where
  "readers_drained t guru \<longleftrightarrow>
     list_all (\<lambda>run. guru_of run \<noteq> guru \<or> kind_of run = Memory_Write_Run) (active_values t)"

definition writer_ready :: "run_table \<Rightarrow> ustr \<Rightarrow> ustr \<Rightarrow> bool" where
  "writer_ready t guru run_id \<longleftrightarrow> queue_head t guru = Some run_id \<and> readers_drained t guru"

text \<open>
  The loop of \<^theory_text>\<open>wait_for_memory_writer\<close> over the tables it reads, one per change it is woken by. It
  returns at the first that is ready; \<^const>\<open>None\<close> is a wait that goes on.
\<close>

fun wait_for_memory_writer :: "ustr \<Rightarrow> ustr \<Rightarrow> run_table list \<Rightarrow> run_table option" where
  "wait_for_memory_writer guru run_id [] = None"
| "wait_for_memory_writer guru run_id (t # ts) =
     (if writer_ready t guru run_id then Some t else wait_for_memory_writer guru run_id ts)"

subsection \<open>Cancellation, completion and deletion\<close>

definition cancel :: "ustr \<Rightarrow> run_kind \<Rightarrow> run_table \<Rightarrow> (command_error + unit) \<times> run_table" where
  "cancel run_id expected t =
     (case bt_get (runs t) run_id of
        None \<Rightarrow> (Inl (err_not_found (lit ''active run'')), t)
      | Some run \<Rightarrow>
          if kind_of run \<noteq> expected then
            (Inl (err_conflict (lit ''run kind does not match the command'')), t)
          else if ar_terminal run = Completion_Claimed then
            (Inl (err_conflict (lit ''run completion already owns the terminal boundary'')), t)
          else
            (Inr (), t\<lparr>runs := bt_insert run_id
               (run\<lparr>ar_terminal := Cancel_Requested, ar_cancel := True\<rparr>) (runs t)\<rparr>))"

definition claim_completion ::
  "ustr \<Rightarrow> run_kind \<Rightarrow> run_table \<Rightarrow> (command_error + bool) \<times> run_table" where
  "claim_completion run_id expected t =
     (case bt_get (runs t) run_id of
        None \<Rightarrow> (Inl (err_not_found (lit ''active run'')), t)
      | Some run \<Rightarrow>
          if kind_of run \<noteq> expected then
            (Inl (err_conflict (lit ''run kind does not match the command'')), t)
          else
            (case ar_terminal run of
               Running \<Rightarrow>
                 (Inr True, t\<lparr>runs :=
                    bt_insert run_id (run\<lparr>ar_terminal := Completion_Claimed\<rparr>) (runs t)\<rparr>)
             | Cancel_Requested \<Rightarrow> (Inr False, t)
             | Completion_Claimed \<Rightarrow>
                 (Inl (err_conflict (lit ''run completion was already claimed'')), t)))"

text \<open>The mutation runs under the lock when no run of the Guru is active.\<close>

definition begin_guru_mutation :: "ustr \<Rightarrow> ('s \<Rightarrow> 's) \<Rightarrow> run_table \<Rightarrow> 's \<Rightarrow> (command_error + unit) \<times> 's" where
  "begin_guru_mutation guru mutation t s =
     (if list_ex (\<lambda>run. guru_of run = guru) (active_values t) then
        (Inl (err_conflict (lit ''stop this Guru's active runs before deleting it'')), s)
      else (Inr (), mutation s))"

text \<open>The first half of \<^theory_text>\<open>submit_chat_control\<close>: the control channel of the Chat on a thread.\<close>

definition find_chat_control :: "ustr \<Rightarrow> ustr \<Rightarrow> run_table \<Rightarrow> command_error + nat" where
  "find_chat_control guru thread t =
     (case List.find (\<lambda>run. kind_of run = Chat_Run \<and> guru_of run = guru \<and>
             target_of run = Chat_Thread thread) (active_values t) of
        None \<Rightarrow> Inl (err_not_found (lit ''active Chat run''))
      | Some run \<Rightarrow>
          if ar_terminal run \<noteq> Running then
            Inl (err_conflict (lit ''the Chat run is already stopping or completing''))
          else
            (case ar_chat_control run of
               None \<Rightarrow> Inl (err_internal (lit ''Chat control is missing''))
             | Some channel \<Rightarrow> Inr channel))"

definition active_count :: "run_table \<Rightarrow> nat" where
  "active_count t = length (runs t)"

definition compare_activity :: "run_activity \<Rightarrow> run_activity \<Rightarrow> ordering" where
  "compare_activity left right =
     then_with (compare (ra_started_at_ms left) (ra_started_at_ms right))
       (compare (ra_run_id left) (ra_run_id right))"

definition run_activities :: "run_table \<Rightarrow> run_activity list" where
  "run_activities t = sort_by compare_activity
     (map (\<lambda>run. \<lparr>ra_run_id = rs_run_id (ar_spec run), ra_guru_id = guru_of run,
        ra_kind = run_kind_str (kind_of run), ra_target = target_value (target_of run),
        ra_started_at_ms = ar_started_at_ms run\<rparr>) (active_values t))"

interpretation activity_order: keyed_order compare_activity "\<lambda>a. (ra_started_at_ms a, ra_run_id a)"
  by unfold_locales (simp add: compare_activity_def compare_prod)

subsection \<open>The coordinator\<close>

record run_coordinator =
  rc_maintenance :: maintenance_state
  rc_table :: run_table
  rc_changes :: "64 word"

definition run_coordinator_new :: "maintenance_state \<Rightarrow> run_coordinator" where
  "run_coordinator_new m =
     \<lparr>rc_maintenance = m, rc_table = run_table_default, rc_changes = 0\<rparr>"

record run_lease =
  rl_run_id :: ustr
  rl_activity :: "64 word"

definition run_blocker :: "ustr \<Rightarrow> run_spec \<Rightarrow> maintenance_blocker" where
  "run_blocker prefix spec =
     \<lparr>mb_id = rs_run_id spec, mb_kind = run_kind_str (rs_kind spec),
      mb_label = prefix @ run_activity_label (rs_kind spec)\<rparr>"

text \<open>
  A lease of the maintenance gate, then a section of the table; the lease is given back when the
  section fails.
\<close>

definition with_activity ::
  "maintenance_blocker \<Rightarrow> ustr \<Rightarrow> (run_table \<Rightarrow> command_error + run_table) \<Rightarrow> run_coordinator \<Rightarrow>
   (command_error + run_lease) \<times> run_coordinator" where
  "with_activity blocker run_id body c =
     (case admit_activity blocker (rc_maintenance c) of
        (Inl e, m) \<Rightarrow> (Inl e, c\<lparr>rc_maintenance := m\<rparr>)
      | (Inr activity, m) \<Rightarrow>
          (case body (rc_table c) of
             Inl e \<Rightarrow> (Inl e, c\<lparr>rc_maintenance := drop_activity activity m\<rparr>)
           | Inr t \<Rightarrow>
               (Inr \<lparr>rl_run_id = run_id, rl_activity = activity\<rparr>,
                c\<lparr>rc_maintenance := m, rc_table := t\<rparr>)))"

definition register_with_controls ::
  "run_spec \<Rightarrow> nat option \<Rightarrow> (command_error + unit) \<Rightarrow> int \<Rightarrow> run_coordinator \<Rightarrow>
   (command_error + run_lease) \<times> run_coordinator" where
  "register_with_controls spec control available now =
     with_activity (run_blocker (lit ''Active '') spec) (rs_run_id spec)
       (register_section spec control available now)"

definition register_run_spec ::
  "run_spec \<Rightarrow> (command_error + unit) \<Rightarrow> int \<Rightarrow> run_coordinator \<Rightarrow>
   (command_error + run_lease) \<times> run_coordinator" where
  "register_run_spec spec = register_with_controls spec None"

definition register_chat ::
  "run_spec \<Rightarrow> nat \<Rightarrow> (command_error + unit) \<Rightarrow> int \<Rightarrow> run_coordinator \<Rightarrow>
   (command_error + run_lease) \<times> run_coordinator" where
  "register_chat spec control available now c =
     (if rs_kind spec \<noteq> Chat_Run then
        (Inl (err_internal (lit ''Chat controls may only be attached to Chat runs'')), c)
      else register_with_controls spec (Some control) available now c)"

definition reserve_memory_write ::
  "run_spec \<Rightarrow> (command_error + unit) \<Rightarrow> int \<Rightarrow> run_coordinator \<Rightarrow>
   (command_error + run_lease) \<times> run_coordinator" where
  "reserve_memory_write spec available now c =
     (if rs_kind spec \<noteq> Memory_Write_Run then
        (Inl (err_internal (lit ''only Memory writes may reserve the writer queue'')), c)
      else
        with_activity (run_blocker (lit ''Pending '') spec) (rs_run_id spec)
          (reserve_section spec available now) c)"

definition drop_run_lease :: "run_lease \<Rightarrow> run_coordinator \<Rightarrow> run_coordinator" where
  "drop_run_lease lease c =
     c\<lparr>rc_table := unlist_run (rl_run_id lease) (rc_table c),
       rc_changes := rc_changes c + 1,
       rc_maintenance := drop_activity (rl_activity lease) (rc_maintenance c)\<rparr>"

end
