(* ===== verification/Run_Invariants.thy ===== *)
theory Run_Invariants
  imports Run_Coordinator
begin

text \<open>
  The invariant of the run table and what follows from it: admission does not depend on the order
  of the table, at most four model workers run, no two runs of a Guru share a target, a Memory
  writer waits for the readers and for the writers before it and then is alone with the writers
  behind it, no reader passes a waiting writer, and of cancellation and completion one wins.
\<close>

subsection \<open>The events of the table\<close>

datatype table_event =
  Register_Event run_spec "nat option" "command_error + unit" int
| Reserve_Event run_spec "command_error + unit" int
| Drop_Event ustr
| Cancel_Event ustr run_kind
| Claim_Event ustr run_kind

definition keep_error :: "run_table \<Rightarrow> command_error + run_table \<Rightarrow> run_table" where
  "keep_error t res = (case res of Inl _ \<Rightarrow> t | Inr t' \<Rightarrow> t')"

fun table_step :: "table_event \<Rightarrow> run_table \<Rightarrow> run_table" where
  "table_step (Register_Event spec control available now) t =
     keep_error t (register_section spec control available now t)"
| "table_step (Reserve_Event spec available now) t =
     (if rs_kind spec = Memory_Write_Run
      then keep_error t (reserve_section spec available now t) else t)"
| "table_step (Drop_Event run_id) t = unlist_run run_id t"
| "table_step (Cancel_Event run_id kind) t = snd (cancel run_id kind t)"
| "table_step (Claim_Event run_id kind) t = snd (claim_completion run_id kind t)"

definition table_exec :: "table_event list \<Rightarrow> run_table \<Rightarrow> run_table" where
  "table_exec = fold table_step"

lemma table_exec_simps [simp]:
  "table_exec [] t = t"
  "table_exec (e # es) t = table_exec es (table_step e t)"
  by (simp_all add: table_exec_def)

subsection \<open>Runs as a map\<close>

definition run_of :: "run_table \<Rightarrow> ustr \<Rightarrow> active_run option" where
  "run_of t k = bt_get (runs t) k"

definition queue_of :: "run_table \<Rightarrow> ustr \<Rightarrow> ustr list" where
  "queue_of t g = (case bt_get (writer_queues t) g of None \<Rightarrow> [] | Some q \<Rightarrow> q)"

definition slot_of :: "active_run \<Rightarrow> ustr \<times> run_target" where
  "slot_of r = (guru_of r, target_of r)"

definition is_reader :: "active_run \<Rightarrow> bool" where
  "is_reader r \<longleftrightarrow> kind_of r \<noteq> Memory_Write_Run"

lemma run_access_iff:
  "run_access k = Exclusive_Memory \<longleftrightarrow> k = Memory_Write_Run"
  "run_access k = Shared_Memory \<longleftrightarrow> k \<noteq> Memory_Write_Run"
  by (cases k; simp)+

definition map_inv :: "run_table \<Rightarrow> bool" where
  "map_inv t \<longleftrightarrow> bt_inv (runs t) \<and> bt_inv (writer_queues t)"

lemma active_values_iff:
  "map_inv t \<Longrightarrow> r \<in> set (active_values t) \<longleftrightarrow> (\<exists>k. run_of t k = Some r)"
proof -
  assume "map_inv t"
  then have "(k, r) \<in> set (runs t) \<longleftrightarrow> run_of t k = Some r" for k
    by (simp add: map_inv_def run_of_def bt_entries)
  then show ?thesis by (force simp: active_values_def)
qed

lemma queue_head_eq: "queue_head t g = (case queue_of t g of [] \<Rightarrow> None | w # _ \<Rightarrow> Some w)"
  by (simp add: queue_head_def queue_of_def split: option.split list.split)

lemma readers_drained_iff:
  "map_inv t \<Longrightarrow>
   readers_drained t g \<longleftrightarrow> (\<forall>k r. run_of t k = Some r \<longrightarrow> guru_of r = g \<longrightarrow> \<not> is_reader r)"
  by (auto simp: readers_drained_def list_all_iff active_values_iff is_reader_def)

subsection \<open>The invariant\<close>

definition ids_ok :: "run_table \<Rightarrow> bool" where
  "ids_ok t \<longleftrightarrow> (\<forall>k r. run_of t k = Some r \<longrightarrow> rs_run_id (ar_spec r) = k)"

definition slots_ok :: "run_table \<Rightarrow> bool" where
  "slots_ok t \<longleftrightarrow>
     (\<forall>k r k' r'. run_of t k = Some r \<longrightarrow> run_of t k' = Some r' \<longrightarrow> slot_of r = slot_of r' \<longrightarrow> k = k')"

definition queues_ok :: "run_table \<Rightarrow> bool" where
  "queues_ok t \<longleftrightarrow>
     (\<forall>g. distinct (queue_of t g)) \<and>
     (\<forall>g w. w \<in> set (queue_of t g) \<longrightarrow>
        (\<exists>r. run_of t w = Some r \<and> kind_of r = Memory_Write_Run \<and> guru_of r = g))"

text \<open>
  A Memory writer that took its place with \<^theory_text>\<open>register\<close> (the recovery of a Guru does) is in no queue;
  every other run of its Guru is a writer of the queue.
\<close>

definition unqueued :: "run_table \<Rightarrow> ustr \<Rightarrow> active_run \<Rightarrow> bool" where
  "unqueued t k r \<longleftrightarrow> kind_of r = Memory_Write_Run \<and> k \<notin> set (queue_of t (guru_of r))"

definition separated :: "run_table \<Rightarrow> bool" where
  "separated t \<longleftrightarrow>
     (\<forall>k r k' r'. run_of t k = Some r \<longrightarrow> unqueued t k r \<longrightarrow> run_of t k' = Some r' \<longrightarrow>
        guru_of r' = guru_of r \<longrightarrow> k' \<noteq> k \<longrightarrow> k' \<in> set (queue_of t (guru_of r)))"

definition workers_ok :: "run_table \<Rightarrow> bool" where
  "workers_ok t \<longleftrightarrow> model_workers t \<le> max_model_workers"

definition table_inv :: "run_table \<Rightarrow> bool" where
  "table_inv t \<longleftrightarrow> map_inv t \<and> ids_ok t \<and> slots_ok t \<and> queues_ok t \<and> separated t \<and> workers_ok t"

subsection \<open>What the operations do to the maps\<close>

lemma map_inv_simps:
  "map_inv t \<Longrightarrow> map_inv (t\<lparr>runs := bt_insert k r (runs t)\<rparr>)"
  "map_inv t \<Longrightarrow> map_inv (t\<lparr>runs := bt_remove k (runs t)\<rparr>)"
  "map_inv t \<Longrightarrow> map_inv (t\<lparr>writer_queues := bt_entry d f g (writer_queues t)\<rparr>)"
  "map_inv t \<Longrightarrow> map_inv (t\<lparr>writer_queues := bt_insert g q (writer_queues t)\<rparr>)"
  "map_inv t \<Longrightarrow> map_inv (t\<lparr>writer_queues := bt_remove g (writer_queues t)\<rparr>)"
  by (simp_all add: map_inv_def)

lemma run_of_insert:
  "run_of (t\<lparr>runs := bt_insert k r (runs t)\<rparr>) = (run_of t)(k := Some r)"
  by (auto simp: run_of_def fun_eq_iff)

lemma register_section_Inr:
  "register_section spec control available now t = Inr t' \<longleftrightarrow>
     available = Inr () \<and> admit t spec = Inr () \<and>
     t' = t\<lparr>runs := bt_insert (rs_run_id spec) (new_run spec now control) (runs t)\<rparr>"
  by (auto simp: register_section_def split: sum.splits)

lemma reserve_section_Inr:
  "reserve_section spec available now t = Inr t' \<longleftrightarrow>
     available = Inr () \<and> admit_waiting_memory_writer t spec = Inr () \<and>
     t' = t\<lparr>runs := bt_insert (rs_run_id spec) (new_run spec now None) (runs t),
            writer_queues := bt_entry [] (\<lambda>queue. queue @ [rs_run_id spec]) (rs_guru_id spec)
              (writer_queues t)\<rparr>"
  by (auto simp: reserve_section_def split: sum.splits)

lemma reserved_maps:
  fixes t spec r
  defines "t' \<equiv> t\<lparr>runs := bt_insert (rs_run_id spec) r (runs t),
      writer_queues := bt_entry [] (\<lambda>queue. queue @ [rs_run_id spec]) (rs_guru_id spec)
        (writer_queues t)\<rparr>"
  shows "run_of t' = (run_of t)(rs_run_id spec := Some r)"
    and "queue_of t' = (queue_of t)(rs_guru_id spec := queue_of t (rs_guru_id spec) @ [rs_run_id spec])"
    and "map_inv t \<Longrightarrow> map_inv t'"
  unfolding t'_def by (auto simp: run_of_def queue_of_def fun_eq_iff map_inv_def split: option.split)

lemma filter_not_member: "x \<notin> set xs \<Longrightarrow> filter (\<lambda>y. y \<noteq> x) xs = xs"
  by (simp add: filter_id_conv) metis

lemma unlist_maps:
  assumes m: "map_inv t" and q: "queues_ok t"
  shows "run_of (unlist_run k t) = (run_of t)(k := None)"
    and "queue_of (unlist_run k t) = (\<lambda>g. filter (\<lambda>w. w \<noteq> k) (queue_of t g))"
    and "map_inv (unlist_run k t)"
proof -
  have bt: "bt_inv (runs t)" "bt_inv (writer_queues t)" using m by (auto simp: map_inv_def)
  have other: "k \<notin> set (queue_of t g)"
    if "\<forall>r. run_of t k = Some r \<longrightarrow> guru_of r \<noteq> g \<or> kind_of r \<noteq> Memory_Write_Run" for g
    using q that unfolding queues_ok_def by fastforce
  show "run_of (unlist_run k t) = (run_of t)(k := None)"
    using bt by (auto simp: unlist_run_def run_of_def fun_eq_iff Let_def split: option.split)
  show "map_inv (unlist_run k t)"
    using m by (auto simp: unlist_run_def Let_def map_inv_def split: option.split)
  show "queue_of (unlist_run k t) = (\<lambda>g. filter (\<lambda>w. w \<noteq> k) (queue_of t g))"
  proof
    fix g
    show "queue_of (unlist_run k t) g = filter (\<lambda>w. w \<noteq> k) (queue_of t g)"
    proof (cases "run_of t k")
      case None
      then show ?thesis using other [of g] by (simp add: unlist_run_def run_of_def filter_not_member)
    next
      case (Some r)
      show ?thesis
      proof (cases "kind_of r = Memory_Write_Run \<and> guru_of r = g")
        case True
        then show ?thesis
          using Some bt
          by (auto simp: unlist_run_def run_of_def queue_of_def Let_def split: option.split)
      next
        case False
        then have "queue_of (unlist_run k t) g = queue_of t g"
          using Some bt
          by (auto simp: unlist_run_def run_of_def queue_of_def Let_def split: option.split)
        then show ?thesis using other [of g] Some False by (auto simp: filter_not_member)
      qed
    qed
  qed
qed

text \<open>Cancellation and completion change the terminal state of one run.\<close>

definition same_spec :: "run_table \<Rightarrow> run_table \<Rightarrow> bool" where
  "same_spec t t' \<longleftrightarrow>
     (\<forall>k. map_option ar_spec (run_of t' k) = map_option ar_spec (run_of t k)) \<and>
     queue_of t' = queue_of t \<and> (map_inv t \<longrightarrow> map_inv t')"

lemma same_spec_terminal:
  "same_spec t (snd (cancel k kind t))" "same_spec t (snd (claim_completion k kind t))"
  by (auto simp: same_spec_def cancel_def claim_completion_def run_of_def queue_of_def map_inv_def
      split: option.split terminal_state.split)

subsection \<open>Counting the model workers\<close>

definition worker_ids :: "run_table \<Rightarrow> ustr set" where
  "worker_ids t = {k. \<exists>r. run_of t k = Some r \<and> kind_of r = Chat_Run}"

lemma length_filter_btree:
  assumes "bt_inv m"
  shows "length (filter P (map snd m)) = card {k. \<exists>v. bt_get m k = Some v \<and> P v}"
    and "finite {k. \<exists>v. bt_get m k = Some v \<and> P v}"
proof -
  have eq: "{k. \<exists>v. bt_get m k = Some v \<and> P v} = fst ` set (filter (P \<circ> snd) m)"
    using bt_entries [OF assms] by force
  have "distinct (map fst (filter (P \<circ> snd) m))"
    using assms by (auto simp: bt_inv_def strict_sorted_iff intro: distinct_map_filter)
  then have "card (fst ` set (filter (P \<circ> snd) m)) = length (filter (P \<circ> snd) m)"
    using distinct_card by fastforce
  then show "length (filter P (map snd m)) = card {k. \<exists>v. bt_get m k = Some v \<and> P v}"
    unfolding eq by (simp add: filter_map)
  show "finite {k. \<exists>v. bt_get m k = Some v \<and> P v}"
    unfolding eq by simp
qed

lemma model_workers_card:
  assumes "map_inv t"
  shows "model_workers t = card (worker_ids t)" "finite (worker_ids t)"
  using assms length_filter_btree [of "runs t" "\<lambda>r. kind_of r = Chat_Run"]
  by (simp_all add: model_workers_def worker_ids_def active_values_def consumes_model_slot_def
      map_inv_def run_of_def)

subsection \<open>Admission\<close>

lemma admit_against_iff:
  "admit_against spec rs = Inr () \<longleftrightarrow>
     (\<forall>r\<in>set rs. guru_of r = rs_guru_id spec \<longrightarrow>
        target_of r \<noteq> rs_target spec \<and> is_reader r \<and> rs_kind spec \<noteq> Memory_Write_Run)"
  by (induction rs) (auto simp: run_access_iff is_reader_def)

lemma admit_iff:
  "map_inv t \<Longrightarrow> admit t spec = Inr () \<longleftrightarrow>
     run_of t (rs_run_id spec) = None \<and>
     (rs_kind spec = Chat_Run \<longrightarrow> model_workers t < max_model_workers) \<and>
     (\<forall>k r. run_of t k = Some r \<longrightarrow> guru_of r = rs_guru_id spec \<longrightarrow>
        target_of r \<noteq> rs_target spec \<and> is_reader r \<and> rs_kind spec \<noteq> Memory_Write_Run)"
  by (auto simp: admit_def admit_against_iff active_values_iff run_of_def consumes_model_slot_def
      not_le)

lemma admit_waiting_iff:
  "map_inv t \<Longrightarrow> admit_waiting_memory_writer t spec = Inr () \<longleftrightarrow>
     run_of t (rs_run_id spec) = None \<and>
     (\<forall>k r. run_of t k = Some r \<longrightarrow> slot_of r \<noteq> (rs_guru_id spec, rs_target spec))"
  by (auto simp: admit_waiting_memory_writer_def list_ex_iff active_values_iff slot_of_def run_of_def)
    blast

lemma new_run_simps [simp]:
  "kind_of (new_run spec now c) = rs_kind spec"
  "guru_of (new_run spec now c) = rs_guru_id spec"
  "target_of (new_run spec now c) = rs_target spec"
  "slot_of (new_run spec now c) = (rs_guru_id spec, rs_target spec)"
  "ar_spec (new_run spec now c) = spec"
  by (simp_all add: new_run_def run_defs slot_of_def)

subsection \<open>Every event keeps the invariant\<close>

lemma queue_members_run:
  "queues_ok t \<Longrightarrow> w \<in> set (queue_of t g) \<Longrightarrow>
   \<exists>r. run_of t w = Some r \<and> kind_of r = Memory_Write_Run \<and> guru_of r = g"
  by (simp add: queues_ok_def)

lemma separatedD:
  "separated t \<Longrightarrow> run_of t k = Some r \<Longrightarrow> unqueued t k r \<Longrightarrow> run_of t k' = Some r' \<Longrightarrow>
   guru_of r' = guru_of r \<Longrightarrow> k' \<noteq> k \<Longrightarrow> k' \<in> set (queue_of t (guru_of r))"
  unfolding separated_def by blast

lemma worker_ids_insert:
  "run_of t' = (run_of t)(k := Some r) \<Longrightarrow> run_of t k = None \<Longrightarrow>
   worker_ids t' = (if kind_of r = Chat_Run then insert k (worker_ids t) else worker_ids t)"
  by (auto simp: worker_ids_def)

lemma workers_ok_insert:
  assumes "map_inv t" "map_inv t'" "run_of t' = (run_of t)(k := Some r)" "run_of t k = None"
    and "workers_ok t" "kind_of r = Chat_Run \<longrightarrow> model_workers t < max_model_workers"
  shows "workers_ok t'"
  using assms card_insert_le_m1 [of max_model_workers "worker_ids t" k]
  by (auto simp: workers_ok_def model_workers_card worker_ids_insert [OF assms(3,4)]
      card_insert_if)

lemma slots_ok_insert:
  assumes ok: "slots_ok t" and run: "run_of t' = (run_of t)(k := Some r)"
    and new: "\<And>k' r'. run_of t k' = Some r' \<Longrightarrow> slot_of r' \<noteq> slot_of r"
  shows "slots_ok t'"
  unfolding slots_ok_def
proof (intro allI impI)
  fix k1 r1 k2 r2
  assume "run_of t' k1 = Some r1" "run_of t' k2 = Some r2" "slot_of r1 = slot_of r2"
  then show "k1 = k2"
    using ok new [of k1 r1] new [of k2 r2] unfolding slots_ok_def run
    by (cases "k1 = k"; cases "k2 = k") auto
qed

lemma table_inv_register:
  assumes inv: "table_inv t" and reg: "register_section spec control available now t = Inr t'"
  shows "table_inv t'"
proof -
  let ?k = "rs_run_id spec" and ?r = "new_run spec now control"
  have m: "map_inv t" and q: "queues_ok t" using inv by (auto simp: table_inv_def)
  have t': "t' = t\<lparr>runs := bt_insert ?k ?r (runs t)\<rparr>" and adm: "admit t spec = Inr ()"
    using reg by (auto simp: register_section_Inr)
  have run: "run_of t' = (run_of t)(?k := Some ?r)" and que: "queue_of t' = queue_of t"
    and m': "map_inv t'"
    using m by (auto simp: t' run_of_insert queue_of_def fun_eq_iff map_inv_simps)
  note adm' = adm [unfolded admit_iff [OF m]]
  have fresh: "?k \<notin> set (queue_of t g)" for g
    using adm' queue_members_run [OF q] by fastforce
  have "ids_ok t'" using inv by (auto simp: table_inv_def ids_ok_def run)
  moreover have "slots_ok t'"
    using inv by (intro slots_ok_insert [OF _ run]) (use adm' in \<open>auto simp: table_inv_def slot_of_def\<close>)
  moreover have "queues_ok t'"
    using q fresh by (fastforce simp: queues_ok_def run que)
  moreover have "separated t'"
    using inv adm' by (auto simp: table_inv_def separated_def unqueued_def run que is_reader_def)
  moreover have "workers_ok t'"
    using inv adm' by (intro workers_ok_insert [OF m m' run]) (auto simp: table_inv_def)
  ultimately show ?thesis using m' by (simp add: table_inv_def)
qed

lemma table_inv_reserve:
  assumes inv: "table_inv t" and kind: "rs_kind spec = Memory_Write_Run"
    and res: "reserve_section spec available now t = Inr t'"
  shows "table_inv t'"
proof -
  let ?k = "rs_run_id spec" and ?g = "rs_guru_id spec" and ?r = "new_run spec now None"
  have m: "map_inv t" and q: "queues_ok t" using inv by (auto simp: table_inv_def)
  have t': "t' = t\<lparr>runs := bt_insert ?k ?r (runs t),
      writer_queues := bt_entry [] (\<lambda>queue. queue @ [?k]) ?g (writer_queues t)\<rparr>"
    and adm: "admit_waiting_memory_writer t spec = Inr ()"
    using res by (auto simp: reserve_section_Inr)
  have run: "run_of t' = (run_of t)(?k := Some ?r)"
    and que: "queue_of t' = (queue_of t)(?g := queue_of t ?g @ [?k])" and m': "map_inv t'"
    using reserved_maps [where t = t and spec = spec and r = ?r] m by (simp_all add: t')
  note adm' = adm [unfolded admit_waiting_iff [OF m]]
  have fresh: "?k \<notin> set (queue_of t g)" for g
    using adm' queue_members_run [OF q] by fastforce
  have "ids_ok t'" using inv by (auto simp: table_inv_def ids_ok_def run)
  moreover have "slots_ok t'"
    using inv by (intro slots_ok_insert [OF _ run]) (use adm' in \<open>auto simp: table_inv_def\<close>)
  moreover have "queues_ok t'"
    using q fresh kind by (fastforce simp: queues_ok_def run que)
  moreover have "separated t'"
    unfolding separated_def
  proof (intro allI impI)
    fix k r k' r'
    assume k: "run_of t' k = Some r" "unqueued t' k r" "run_of t' k' = Some r'"
      "guru_of r' = guru_of r" "k' \<noteq> k"
    then have "k \<noteq> ?k" by (auto simp: run que unqueued_def)
    then have "run_of t k = Some r" "unqueued t k r"
      using k by (auto simp: run que unqueued_def split: if_splits)
    then show "k' \<in> set (queue_of t' (guru_of r))"
      using k separatedD [of t k r k' r'] inv
      by (cases "k' = ?k") (auto simp: table_inv_def run que)
  qed
  moreover have "workers_ok t'"
    using inv adm' kind by (intro workers_ok_insert [OF m m' run]) (auto simp: table_inv_def)
  ultimately show ?thesis using m' by (simp add: table_inv_def)
qed

lemma table_inv_unlist:
  assumes inv: "table_inv t"
  shows "table_inv (unlist_run k t)"
proof -
  let ?t = "unlist_run k t"
  have m: "map_inv t" and q: "queues_ok t" using inv by (auto simp: table_inv_def)
  note maps = unlist_maps [OF m q, of k]
  have "ids_ok ?t" using inv by (auto simp: table_inv_def ids_ok_def maps)
  moreover have "slots_ok ?t"
    using inv by (auto simp: table_inv_def slots_ok_def maps)
  moreover have "queues_ok ?t"
    using q by (auto simp: queues_ok_def maps)
  moreover have "separated ?t"
    using inv by (auto simp: table_inv_def separated_def unqueued_def maps)
  moreover have "workers_ok ?t"
  proof -
    have "worker_ids ?t \<subseteq> worker_ids t" by (auto simp: worker_ids_def maps)
    then have "card (worker_ids ?t) \<le> card (worker_ids t)"
      using model_workers_card(2) [OF m] by (rule card_mono [rotated])
    then show ?thesis
      using inv model_workers_card(1) [OF m] model_workers_card(1) [OF maps(3)]
      by (simp add: table_inv_def workers_ok_def)
  qed
  ultimately show ?thesis using maps(3) by (simp add: table_inv_def)
qed

lemma same_specD:
  assumes "same_spec t t'"
  shows "run_of t' k = Some r' \<Longrightarrow> \<exists>r. run_of t k = Some r \<and> ar_spec r' = ar_spec r"
    and "run_of t k = Some r \<Longrightarrow> \<exists>r'. run_of t' k = Some r' \<and> ar_spec r' = ar_spec r"
    and "run_of t' k = None \<longleftrightarrow> run_of t k = None"
    and "queue_of t' = queue_of t"
proof -
  have k: "map_option ar_spec (run_of t' k) = map_option ar_spec (run_of t k)" for k
    using assms by (simp add: same_spec_def)
  show "run_of t' k = Some r' \<Longrightarrow> \<exists>r. run_of t k = Some r \<and> ar_spec r' = ar_spec r"
    using k [of k] by (cases "run_of t k") auto
  show "run_of t k = Some r \<Longrightarrow> \<exists>r'. run_of t' k = Some r' \<and> ar_spec r' = ar_spec r"
    using k [of k] by (cases "run_of t' k") auto
  show "run_of t' k = None \<longleftrightarrow> run_of t k = None"
    using k [of k] by (metis option.map_disc_iff)
  show "queue_of t' = queue_of t" using assms by (simp add: same_spec_def)
qed

lemma spec_eq_fields:
  "ar_spec r' = ar_spec r \<Longrightarrow>
   kind_of r' = kind_of r \<and> guru_of r' = guru_of r \<and> target_of r' = target_of r \<and>
   slot_of r' = slot_of r"
  by (simp add: run_defs slot_of_def)

lemma worker_ids_spec:
  "worker_ids t = {k. \<exists>s. map_option ar_spec (run_of t k) = Some s \<and> rs_kind s = Chat_Run}"
  by (auto simp: worker_ids_def kind_of_def)

lemma table_inv_same_spec:
  assumes inv: "table_inv t" and same: "same_spec t t'"
  shows "table_inv t'"
proof -
  note D = same_specD [OF same] and F = spec_eq_fields
  have m: "map_inv t" using inv by (simp add: table_inv_def)
  then have m': "map_inv t'" using same by (simp add: same_spec_def)
  have "ids_ok t'"
    using inv by (auto simp: table_inv_def ids_ok_def dest!: D(1))
  moreover have "slots_ok t'"
    unfolding slots_ok_def
  proof (intro allI impI)
    fix k r k' r'
    assume "run_of t' k = Some r" "run_of t' k' = Some r'" "slot_of r = slot_of r'"
    then show "k = k'"
      using inv F [of r] F [of r'] unfolding table_inv_def slots_ok_def by (metis D(1))
  qed
  moreover have "queues_ok t'"
    unfolding queues_ok_def D(4)
  proof (intro conjI allI impI)
    show "distinct (queue_of t g)" for g using inv by (simp add: table_inv_def queues_ok_def)
    fix g w
    assume "w \<in> set (queue_of t g)"
    then obtain r where "run_of t w = Some r" "kind_of r = Memory_Write_Run" "guru_of r = g"
      using inv queue_members_run [of t w g] by (auto simp: table_inv_def)
    moreover from this(1) obtain r' where "run_of t' w = Some r'" "ar_spec r' = ar_spec r"
      using D(2) by blast
    ultimately show "\<exists>r. run_of t' w = Some r \<and> kind_of r = Memory_Write_Run \<and> guru_of r = g"
      using F [of r' r] by auto
  qed
  moreover have "separated t'"
    unfolding separated_def unqueued_def D(4)
  proof (intro allI impI)
    fix k r k' r'
    assume k: "run_of t' k = Some r"
      "kind_of r = Memory_Write_Run \<and> k \<notin> set (queue_of t (guru_of r))"
      "run_of t' k' = Some r'" "guru_of r' = guru_of r" "k' \<noteq> k"
    obtain q q' where "run_of t k = Some q" "ar_spec r = ar_spec q"
      "run_of t k' = Some q'" "ar_spec r' = ar_spec q'"
      using D(1) [OF k(1)] D(1) [OF k(3)] by blast
    then show "k' \<in> set (queue_of t (guru_of r))"
      using inv k F [of r q] F [of r' q'] by (auto simp: table_inv_def separated_def unqueued_def)
  qed
  moreover have "worker_ids t' = worker_ids t"
    using same by (simp add: worker_ids_spec same_spec_def)
  then have "workers_ok t'"
    using inv model_workers_card(1) [OF m] model_workers_card(1) [OF m']
    by (simp add: table_inv_def workers_ok_def)
  ultimately show ?thesis using m' by (simp add: table_inv_def)
qed

lemma table_inv_default [simp]: "table_inv run_table_default"
  by (simp add: table_inv_def run_table_default_def map_inv_def ids_ok_def slots_ok_def queues_ok_def
      separated_def workers_ok_def model_workers_def active_values_def run_of_def queue_of_def)

lemma table_inv_step: "table_inv t \<Longrightarrow> table_inv (table_step e t)"
  by (cases e)
    (auto simp: keep_error_def table_inv_unlist table_inv_same_spec [OF _ same_spec_terminal(1)]
      table_inv_same_spec [OF _ same_spec_terminal(2)]
      intro: table_inv_register table_inv_reserve split: sum.split)

lemma table_inv_exec: "table_inv t \<Longrightarrow> table_inv (table_exec es t)"
  by (induction es arbitrary: t) (simp_all add: table_inv_step)

subsection \<open>Waiting writers\<close>

text \<open>The runs a queued writer waits for.\<close>

definition blockers :: "run_table \<Rightarrow> ustr \<Rightarrow> ustr \<Rightarrow> ustr set" where
  "blockers t g w =
     {k. \<exists>r. run_of t k = Some r \<and> guru_of r = g \<and> is_reader r} \<union>
     set (takeWhile (\<lambda>v. v \<noteq> w) (queue_of t g))"

lemma takeWhile_neq_Nil: "takeWhile (\<lambda>v. v \<noteq> w) xs = [] \<longleftrightarrow> xs = [] \<or> hd xs = w"
  by (cases xs) auto

lemma writer_ready_iff:
  assumes "map_inv t" "w \<in> set (queue_of t g)"
  shows "writer_ready t g w \<longleftrightarrow> blockers t g w = {}"
  using assms
  by (cases "queue_of t g")
    (auto simp: writer_ready_def blockers_def queue_head_eq readers_drained_iff takeWhile_neq_Nil)

lemma takeWhile_filter_other:
  "v \<noteq> w \<Longrightarrow> takeWhile (\<lambda>x. x \<noteq> w) (filter (\<lambda>x. x \<noteq> v) xs) =
     filter (\<lambda>x. x \<noteq> v) (takeWhile (\<lambda>x. x \<noteq> w) xs)"
  by (induction xs) auto

lemma admit_behind_writer:
  assumes inv: "table_inv t" and w: "w \<in> set (queue_of t g)" and adm: "admit t spec = Inr ()"
  shows "rs_guru_id spec \<noteq> g"
proof -
  obtain r where "run_of t w = Some r" "kind_of r = Memory_Write_Run" "guru_of r = g"
    using inv w queue_members_run [of t w g] by (auto simp: table_inv_def)
  then show ?thesis
    using adm inv by (auto simp: admit_iff table_inv_def is_reader_def)
qed

lemma same_spec_sym: "same_spec t t' \<Longrightarrow> map_inv t \<Longrightarrow> same_spec t' t"
  by (simp add: same_spec_def)

lemma blockers_same_spec:
  assumes same: "same_spec t t'"
  shows "blockers t' g w \<subseteq> blockers t g w"
proof
  fix k
  assume k: "k \<in> blockers t' g w"
  show "k \<in> blockers t g w"
  proof (cases "k \<in> set (takeWhile (\<lambda>v. v \<noteq> w) (queue_of t' g))")
    case False
    then obtain r' where "run_of t' k = Some r'" "guru_of r' = g" "is_reader r'"
      using k by (auto simp: blockers_def)
    moreover from this(1) obtain r where "run_of t k = Some r" "ar_spec r' = ar_spec r"
      using same_specD(1) [OF same] by blast
    ultimately show ?thesis
      using spec_eq_fields [of r' r] by (auto simp: blockers_def is_reader_def)
  qed (simp add: blockers_def same_specD(4) [OF same])
qed

lemma blockers_step:
  assumes inv: "table_inv t" and w: "w \<in> set (queue_of t g)" and e: "e \<noteq> Drop_Event w"
  shows "w \<in> set (queue_of (table_step e t) g) \<and>
    blockers (table_step e t) g w \<subseteq> blockers t g w - {k. e = Drop_Event k}"
proof (cases e)
  case (Register_Event spec control available now)
  show ?thesis
  proof (cases "register_section spec control available now t")
    case (Inr t')
    then have "admit t spec = Inr ()"
      and t': "t' = t\<lparr>runs := bt_insert (rs_run_id spec) (new_run spec now control) (runs t)\<rparr>"
      by (auto simp: register_section_Inr)
    then have "rs_guru_id spec \<noteq> g" using admit_behind_writer [OF inv w] by blast
    moreover have "queue_of t' = queue_of t" by (simp add: t' queue_of_def fun_eq_iff)
    ultimately show ?thesis
      using w Register_Event Inr by (auto simp: keep_error_def blockers_def t' run_of_insert split: if_splits)
  qed (use w Register_Event in \<open>simp add: keep_error_def\<close>)
next
  case (Reserve_Event spec available now)
  show ?thesis
  proof (cases "reserve_section spec available now t")
    case (Inr t')
    let ?r = "new_run spec now None"
    have t': "t' = t\<lparr>runs := bt_insert (rs_run_id spec) ?r (runs t),
        writer_queues := bt_entry [] (\<lambda>queue. queue @ [rs_run_id spec]) (rs_guru_id spec)
          (writer_queues t)\<rparr>"
      using Inr by (auto simp: reserve_section_Inr)
    have maps: "run_of t' = (run_of t)(rs_run_id spec := Some ?r)"
      "queue_of t' = (queue_of t)(rs_guru_id spec := queue_of t (rs_guru_id spec) @ [rs_run_id spec])"
      using reserved_maps [where t = t and spec = spec and r = ?r] by (simp_all add: t')
    show ?thesis
      using w Reserve_Event Inr
      by (auto simp: keep_error_def blockers_def maps is_reader_def split: if_splits)
  qed (use w Reserve_Event in \<open>simp add: keep_error_def\<close>)
next
  case (Drop_Event k)
  then have "k \<noteq> w" using e by simp
  moreover have "map_inv t" "queues_ok t" using inv by (auto simp: table_inv_def)
  ultimately show ?thesis
    using w Drop_Event unlist_maps [of t k]
    by (auto simp: blockers_def takeWhile_filter_other split: if_splits)
next
  case (Cancel_Event k kind)
  note same = same_spec_terminal(1) [of t k kind]
  show ?thesis
    using w Cancel_Event blockers_same_spec [OF same] same_specD(4) [OF same] by auto
next
  case (Claim_Event k kind)
  note same = same_spec_terminal(2) [of t k kind]
  show ?thesis
    using w Claim_Event blockers_same_spec [OF same] same_specD(4) [OF same] by auto
qed

text \<open>Only a dropped lease takes a run out of the way of a queued writer.\<close>

lemma blockers_mono:
  assumes inv: "table_inv t" and w: "w \<in> set (queue_of t g)" and e: "\<forall>k. e \<noteq> Drop_Event k"
  shows "blockers t g w \<subseteq> blockers (table_step e t) g w"
proof (cases e)
  case (Register_Event spec control available now)
  show ?thesis
  proof (cases "register_section spec control available now t")
    case (Inr t')
    then have "run_of t (rs_run_id spec) = None"
      and t': "t' = t\<lparr>runs := bt_insert (rs_run_id spec) (new_run spec now control) (runs t)\<rparr>"
      using inv by (auto simp: register_section_Inr admit_iff table_inv_def)
    moreover have "queue_of t' = queue_of t" by (simp add: t' queue_of_def fun_eq_iff)
    ultimately show ?thesis
      using Register_Event Inr by (auto simp: keep_error_def blockers_def t' run_of_insert)
  qed (use Register_Event in \<open>simp add: keep_error_def\<close>)
next
  case (Reserve_Event spec available now)
  show ?thesis
  proof (cases "reserve_section spec available now t")
    case (Inr t')
    let ?r = "new_run spec now None"
    have t': "t' = t\<lparr>runs := bt_insert (rs_run_id spec) ?r (runs t),
        writer_queues := bt_entry [] (\<lambda>queue. queue @ [rs_run_id spec]) (rs_guru_id spec)
          (writer_queues t)\<rparr>"
      and "run_of t (rs_run_id spec) = None"
      using Inr inv by (auto simp: reserve_section_Inr admit_waiting_iff table_inv_def)
    moreover have "run_of t' = (run_of t)(rs_run_id spec := Some ?r)"
      "queue_of t' = (queue_of t)(rs_guru_id spec := queue_of t (rs_guru_id spec) @ [rs_run_id spec])"
      using reserved_maps [where t = t and spec = spec and r = ?r] by (simp_all add: t')
    ultimately show ?thesis
      using w Reserve_Event Inr by (auto simp: keep_error_def blockers_def)
  qed (use Reserve_Event in \<open>simp add: keep_error_def\<close>)
next
  case (Cancel_Event k kind)
  then show ?thesis
    using blockers_same_spec [OF same_spec_sym [OF same_spec_terminal(1) [of t k kind]]] inv
      table_inv_step [OF inv, of e] by (simp add: table_inv_def)
next
  case (Claim_Event k kind)
  then show ?thesis
    using blockers_same_spec [OF same_spec_sym [OF same_spec_terminal(2) [of t k kind]]] inv
      table_inv_step [OF inv, of e] by (simp add: table_inv_def)
qed (use e in simp)

lemma blockers_exec:
  assumes "table_inv t" "w \<in> set (queue_of t g)" "Drop_Event w \<notin> set es"
  shows "w \<in> set (queue_of (table_exec es t) g) \<and>
    blockers (table_exec es t) g w \<subseteq> blockers t g w - {k. Drop_Event k \<in> set es}"
  using assms
proof (induction es arbitrary: t)
  case (Cons e es)
  have "table_inv (table_step e t)" using Cons.prems by (simp add: table_inv_step)
  moreover have "w \<in> set (queue_of (table_step e t) g)"
    and "blockers (table_step e t) g w \<subseteq> blockers t g w - {k. e = Drop_Event k}"
    using blockers_step [of t w g e] Cons.prems by auto
  ultimately show ?case using Cons.IH [of "table_step e t"] Cons.prems by auto
qed simp

subsection \<open>Terminal states\<close>

datatype terminal_outcome = Stop_Acknowledged | Commit_Granted

fun outcome_of :: "ustr \<Rightarrow> table_event \<Rightarrow> run_table \<Rightarrow> terminal_outcome list" where
  "outcome_of run_id (Cancel_Event k kind) t =
     (if k = run_id \<and> is_ok (fst (cancel k kind t)) then [Stop_Acknowledged] else [])"
| "outcome_of run_id (Claim_Event k kind) t =
     (if k = run_id \<and> fst (claim_completion k kind t) = Inr True then [Commit_Granted] else [])"
| "outcome_of run_id e t = []"

fun outcomes :: "ustr \<Rightarrow> table_event list \<Rightarrow> run_table \<Rightarrow> terminal_outcome list" where
  "outcomes run_id [] t = []"
| "outcomes run_id (e # es) t = outcome_of run_id e t @ outcomes run_id es (table_step e t)"

definition terminal_of :: "run_table \<Rightarrow> ustr \<Rightarrow> terminal_state option" where
  "terminal_of t k = map_option ar_terminal (run_of t k)"

lemma terminal_kept:
  assumes inv: "table_inv t" and e: "e \<noteq> Drop_Event k" and s: "terminal_of t k = Some s"
    and no: "outcome_of k e t = []"
  shows "terminal_of (table_step e t) k = Some s"
proof -
  have m: "map_inv t" "queues_ok t" using inv by (auto simp: table_inv_def)
  show ?thesis
  proof (cases e)
    case (Register_Event spec control available now)
    then show ?thesis
      using s m
      by (auto simp: keep_error_def register_section_Inr terminal_of_def run_of_insert admit_iff
          split: sum.split)
  next
    case (Reserve_Event spec available now)
    then show ?thesis
      using s m
      by (auto simp: keep_error_def reserve_section_Inr terminal_of_def reserved_maps
          admit_waiting_iff split: sum.split)
  next
    case (Drop_Event k')
    then show ?thesis using s m e by (auto simp: terminal_of_def unlist_maps)
  next
    case (Cancel_Event k' kind)
    then show ?thesis
      using s no
      by (auto simp: cancel_def terminal_of_def run_of_def split: option.splits if_splits)
  next
    case (Claim_Event k' kind)
    then show ?thesis
      using s no
      by (auto simp: claim_completion_def terminal_of_def run_of_def
          split: option.splits if_splits terminal_state.splits)
  qed
qed

lemma outcome_cases:
  assumes "outcome_of k e t \<noteq> []"
  shows "outcome_of k e t = [Stop_Acknowledged] \<and> terminal_of t k \<noteq> Some Completion_Claimed \<and>
      terminal_of (table_step e t) k = Some Cancel_Requested \<or>
    outcome_of k e t = [Commit_Granted] \<and> terminal_of t k = Some Running \<and>
      terminal_of (table_step e t) k = Some Completion_Claimed"
  using assms
  by (cases e)
    (auto simp: cancel_def claim_completion_def terminal_of_def run_of_def
      split: option.splits if_splits terminal_state.splits)

lemma outcomes_from:
  assumes "table_inv t" "Drop_Event k \<notin> set es"
  shows "(terminal_of t k = Some Completion_Claimed \<longrightarrow> outcomes k es t = []) \<and>
    (terminal_of t k = Some Cancel_Requested \<longrightarrow> set (outcomes k es t) \<subseteq> {Stop_Acknowledged}) \<and>
    (outcomes k es t = [Commit_Granted] \<or> set (outcomes k es t) \<subseteq> {Stop_Acknowledged})"
  using assms
proof (induction es arbitrary: t)
  case (Cons e es)
  have inv: "table_inv (table_step e t)" and drop: "e \<noteq> Drop_Event k" "Drop_Event k \<notin> set es"
    using Cons.prems by (auto simp: table_inv_step)
  show ?case
  proof (cases "outcome_of k e t = []")
    case True
    then show ?thesis
      using Cons.IH [OF inv drop(2)] terminal_kept [OF Cons.prems(1) drop(1) _ True] by simp
  next
    case False
    then show ?thesis
      using Cons.IH [OF inv drop(2)] outcome_cases [OF False] by auto
  qed
qed simp

subsection \<open>What holds of every table the coordinator reaches\<close>

definition reached_table :: "table_event list \<Rightarrow> run_table" where
  "reached_table es = table_exec es run_table_default"

lemma reached_inv: "table_inv (reached_table es)"
  by (simp add: reached_table_def table_inv_exec)

text \<open>A schedule: a Chat is registered and a Memory writer of the same Guru reserves its place.\<close>

definition sample_spec :: "string \<Rightarrow> run_kind \<Rightarrow> run_spec" where
  "sample_spec name kind =
     \<lparr>rs_run_id = lit name, rs_guru_id = lit ''guru-a'', rs_kind = kind,
      rs_target = (if kind = Memory_Write_Run then Memory_Write_Session (lit name)
        else Chat_Thread (lit name))\<rparr>"

definition sample_events :: "table_event list" where
  "sample_events =
     [Register_Event (sample_spec ''chat-a'' Chat_Run) (Some 1) (Inr ()) 5,
      Reserve_Event (sample_spec ''writer-a'' Memory_Write_Run) (Inr ()) 6]"

lemma run_in_values:
  assumes "table_inv t"
  shows "r \<in> set (active_values t) \<longleftrightarrow> run_of t (rs_run_id (ar_spec r)) = Some r"
  using assms active_values_iff [of t r] by (auto simp: table_inv_def ids_ok_def)

lemma distinct_map_values:
  assumes inv: "table_inv t"
    and inj: "\<And>k r k' r'. run_of t k = Some r \<Longrightarrow> run_of t k' = Some r' \<Longrightarrow> f r = f r' \<Longrightarrow> k = k'"
  shows "distinct (map f (active_values t))"
proof -
  have m: "bt_inv (runs t)" using inv by (simp add: table_inv_def map_inv_def)
  have mem: "(k, r) \<in> set (runs t) \<Longrightarrow> run_of t k = Some r" for k r
    using bt_entries [OF m] by (simp add: run_of_def)
  have keys: "distinct (map fst (runs t))"
    using m by (simp add: bt_inv_def strict_sorted_iff)
  have "inj_on (f \<circ> snd) (set (runs t))"
  proof (rule inj_onI)
    fix x y
    assume xy: "x \<in> set (runs t)" "y \<in> set (runs t)" "(f \<circ> snd) x = (f \<circ> snd) y"
    moreover obtain k r k' r' where "x = (k, r)" "y = (k', r')" by (cases x, cases y)
    ultimately have "fst x = fst y"
      using mem [of k r] mem [of k' r'] inj [of k r k' r'] by simp
    moreover have "inj_on fst (set (runs t))" using keys by (simp add: distinct_map)
    ultimately show "x = y" using xy by (auto dest: inj_onD)
  qed
  then have "distinct (map (f \<circ> snd) (runs t))"
    using keys by (simp add: distinct_map)
  then show ?thesis by (simp add: active_values_def)
qed

text \<open>
  C9: Whatever is registered, reserved, cancelled, completed and dropped, in whatever order: at
  most four Chats run, no two active runs have the same identifier or the same target of a Guru,
  and a writer queue holds active Memory writers of its Guru, each once.
\<close>

theorem run_table_limits:
  "let t = reached_table es in
   model_workers t \<le> max_model_workers \<and>
   distinct (map slot_of (active_values t)) \<and>
   distinct (map (\<lambda>r. rs_run_id (ar_spec r)) (active_values t)) \<and>
   list_all (\<lambda>(g, queue). distinct queue \<and>
      set queue \<subseteq> (\<lambda>r. rs_run_id (ar_spec r)) ` {r \<in> set (active_values t).
        guru_of r = g \<and> kind_of r = Memory_Write_Run}) (writer_queues t)"
proof -
  let ?t = "reached_table es"
  note inv = reached_inv [of es]
  have q: "queues_ok ?t" and m: "map_inv ?t" using inv by (auto simp: table_inv_def)
  have "model_workers ?t \<le> max_model_workers"
    using inv by (simp add: table_inv_def workers_ok_def)
  moreover have "distinct (map slot_of (active_values ?t))"
    using inv by (intro distinct_map_values) (auto simp: table_inv_def slots_ok_def)
  moreover have "distinct (map (\<lambda>r. rs_run_id (ar_spec r)) (active_values ?t))"
    using inv by (intro distinct_map_values) (auto simp: table_inv_def ids_ok_def)
  moreover have "distinct queue \<and> set queue \<subseteq> (\<lambda>r. rs_run_id (ar_spec r)) `
      {r \<in> set (active_values ?t). guru_of r = g \<and> kind_of r = Memory_Write_Run}"
    if "(g, queue) \<in> set (writer_queues ?t)" for g queue
  proof -
    have "queue_of ?t g = queue"
      using that m by (simp add: queue_of_def map_inv_def bt_entries)
    then have "distinct queue" and mem: "w \<in> set queue \<Longrightarrow>
        \<exists>r. run_of ?t w = Some r \<and> kind_of r = Memory_Write_Run \<and> guru_of r = g" for w
      using q queue_members_run [OF q, of w g] by (auto simp: queues_ok_def)
    moreover have "w \<in> (\<lambda>r. rs_run_id (ar_spec r)) ` {r \<in> set (active_values ?t).
        guru_of r = g \<and> kind_of r = Memory_Write_Run}" if "w \<in> set queue" for w
      using mem [OF that] inv run_in_values [OF inv] by (force simp: table_inv_def ids_ok_def)
    ultimately show ?thesis by blast
  qed
  ultimately show ?thesis by (auto simp: Let_def list_all_iff)
qed

text \<open>A registration passes admission exactly when its identifier is free, a worker is free if it
  is a Chat, and no active run of its Guru has the same target or is a Memory writer, nor any
  is active at all if it is a Memory writer itself. The order of the table plays no part.
\<close>

lemma admission_exact:
  "admit (reached_table es) spec = Inr () \<longleftrightarrow>
     (let active = active_values (reached_table es) in
      rs_run_id spec \<notin> (\<lambda>r. rs_run_id (ar_spec r)) ` set active \<and>
      \<not> (rs_kind spec = Chat_Run \<and>
         max_model_workers \<le> length (filter (\<lambda>r. kind_of r = Chat_Run) active)) \<and>
      {r \<in> set active. guru_of r = rs_guru_id spec \<and>
         (target_of r = rs_target spec \<or> kind_of r = Memory_Write_Run \<or>
          rs_kind spec = Memory_Write_Run)} = {})"
proof -
  note inv = reached_inv [of es]
  have m: "map_inv (reached_table es)" using inv by (simp add: table_inv_def)
  have id: "rs_run_id spec \<in> (\<lambda>r. rs_run_id (ar_spec r)) ` set (active_values (reached_table es)) \<longleftrightarrow>
      run_of (reached_table es) (rs_run_id spec) \<noteq> None"
  proof
    assume "run_of (reached_table es) (rs_run_id spec) \<noteq> None"
    then obtain r where "run_of (reached_table es) (rs_run_id spec) = Some r" by auto
    moreover from this have "rs_run_id (ar_spec r) = rs_run_id spec"
      using inv by (simp add: table_inv_def ids_ok_def)
    ultimately show "rs_run_id spec \<in>
        (\<lambda>r. rs_run_id (ar_spec r)) ` set (active_values (reached_table es))"
      using active_values_iff [OF m] by (metis imageI)
  qed (auto simp: run_in_values [OF inv])
  have "(\<forall>k r. run_of (reached_table es) k = Some r \<longrightarrow> guru_of r = rs_guru_id spec \<longrightarrow>
        target_of r \<noteq> rs_target spec \<and> is_reader r \<and> rs_kind spec \<noteq> Memory_Write_Run) \<longleftrightarrow>
      {r \<in> set (active_values (reached_table es)). guru_of r = rs_guru_id spec \<and>
         (target_of r = rs_target spec \<or> kind_of r = Memory_Write_Run \<or>
          rs_kind spec = Memory_Write_Run)} = {}"
    unfolding active_values_iff [OF m] is_reader_def by blast
  moreover have "model_workers (reached_table es) =
      length (filter (\<lambda>r. kind_of r = Chat_Run) (active_values (reached_table es)))"
    by (simp add: model_workers_def consumes_model_slot_def)
  ultimately show ?thesis
    unfolding admit_iff [OF m] Let_def id by (simp add: not_le)
qed

text \<open>
  C11: While a Memory writer waits in the queue of a Guru, no run of that Guru is registered, so no
  reader passes it; and when its wait is over, no reader of the Guru is active, and of the
  writers at most one is not in the queue behind it: the recovery of the Guru, which is registered
  without taking a place in the queue.
\<close>

theorem writer_barrier:
  assumes "w \<in> set (queue_of (reached_table es) g)"
  shows "(rs_guru_id spec = g \<longrightarrow>
      \<not> is_ok (register_section spec control available now (reached_table es))) \<and>
    (writer_ready (reached_table es) g w \<longrightarrow>
      filter (\<lambda>r. guru_of r = g \<and> is_reader r) (active_values (reached_table es)) = [] \<and>
      hd (queue_of (reached_table es) g) = w \<and>
      card {r \<in> set (active_values (reached_table es)). guru_of r = g \<and>
        rs_run_id (ar_spec r) \<notin> set (queue_of (reached_table es) g)} \<le> 1)"
proof -
  let ?t = "reached_table es"
  note inv = reached_inv [of es]
  have m: "map_inv ?t" and sep: "separated ?t" using inv by (auto simp: table_inv_def)
  let ?U = "{r \<in> set (active_values ?t). guru_of r = g \<and> rs_run_id (ar_spec r) \<notin> set (queue_of ?t g)}"
  have "card ?U \<le> 1" if "writer_ready ?t g w"
  proof -
    have drained: "\<not> is_reader r" if "r \<in> ?U" for r
      using that \<open>writer_ready ?t g w\<close> m active_values_iff [OF m]
      by (auto simp: writer_ready_def readers_drained_iff)
    have "\<forall>r\<in>?U. \<forall>r'\<in>?U. r = r'"
    proof (intro ballI, rule ccontr)
      fix r r'
      assume that: "r \<in> ?U" "r' \<in> ?U" and "r \<noteq> r'"
      moreover have run: "run_of ?t (rs_run_id (ar_spec r)) = Some r"
          "run_of ?t (rs_run_id (ar_spec r')) = Some r'"
        using that run_in_values [OF inv] by auto
      ultimately have "rs_run_id (ar_spec r') \<noteq> rs_run_id (ar_spec r)" by auto
      then have "rs_run_id (ar_spec r') \<in> set (queue_of ?t (guru_of r))"
        using that drained [OF that(1)]
        by (intro separatedD [OF sep run(1) _ run(2)]) (auto simp: unqueued_def is_reader_def)
      then show False using that by simp
    qed
    then show ?thesis using card_le_Suc0_iff_eq [of ?U] by simp
  qed
  moreover have "\<not> is_ok (register_section spec control available now ?t)" if "rs_guru_id spec = g"
    using admit_behind_writer [OF inv assms] that
    by (auto simp: is_ok_iff register_section_Inr)
  moreover have "filter (\<lambda>r. guru_of r = g \<and> is_reader r) (active_values ?t) = [] \<and>
      hd (queue_of ?t g) = w" if "writer_ready ?t g w"
    using that m active_values_iff [OF m]
    by (auto simp: writer_ready_def readers_drained_iff filter_empty_conv queue_head_eq
        split: list.splits)
  ultimately show ?thesis by blast
qed

lemma writer_barrier_witness:
  "\<not> is_ok (register_section (sample_spec ''chat-b'' Chat_Run) None (Inr ()) 7
     (reached_table (sample_events @ [Drop_Event (lit ''chat-a'')]))) \<and>
   card {r \<in> set (active_values (reached_table (sample_events @ [Drop_Event (lit ''chat-a'')]))).
     guru_of r = lit ''guru-a'' \<and>
     rs_run_id (ar_spec r) \<notin> set (queue_of (reached_table (sample_events @
       [Drop_Event (lit ''chat-a'')])) (lit ''guru-a''))} \<le> 1"
proof -
  have "lit ''writer-a'' \<in> set (queue_of (reached_table (sample_events @
      [Drop_Event (lit ''chat-a'')])) (lit ''guru-a''))"
    and "writer_ready (reached_table (sample_events @ [Drop_Event (lit ''chat-a'')]))
      (lit ''guru-a'') (lit ''writer-a'')"
    and "rs_guru_id (sample_spec ''chat-b'' Chat_Run) = lit ''guru-a''"
    by code_simp+
  then show ?thesis
    using writer_barrier [of "lit ''writer-a''" "sample_events @ [Drop_Event (lit ''chat-a'')]"
        "lit ''guru-a''" "sample_spec ''chat-b'' Chat_Run" None "Inr ()" 7] by blast
qed

text \<open>
  C10: A reserved Memory writer does not starve: as long as its own lease is kept, it is ready once
  the runs that were active readers of the Guru or queued before it have been dropped,
  whatever else was registered, reserved, cancelled and dropped meanwhile; and it stays ready.
\<close>

theorem writer_becomes_ready:
  assumes "w \<in> set (queue_of (reached_table es) g)"
    and "Drop_Event w \<notin> set later"
    and "blockers (reached_table es) g w \<subseteq> {k. Drop_Event k \<in> set later}"
  shows "writer_ready (table_exec later (reached_table es)) g w"
proof -
  have "w \<in> set (queue_of (table_exec later (reached_table es)) g)"
    and "blockers (table_exec later (reached_table es)) g w = {}"
    using blockers_exec [OF reached_inv assms(1,2)] assms(3) by auto
  moreover have "map_inv (table_exec later (reached_table es))"
    using table_inv_exec [OF reached_inv] by (simp add: table_inv_def)
  ultimately show ?thesis by (simp add: writer_ready_iff)
qed

lemma writer_becomes_ready_witness:
  "writer_ready (table_exec [Reserve_Event (sample_spec ''writer-b'' Memory_Write_Run) (Inr ()) 8,
     Drop_Event (lit ''chat-a'')] (reached_table sample_events)) (lit ''guru-a'') (lit ''writer-a'')"
proof (rule writer_becomes_ready)
  show "lit ''writer-a'' \<in> set (queue_of (reached_table sample_events) (lit ''guru-a''))"
    by code_simp
  have "map fst (filter (\<lambda>(k, r). guru_of r = lit ''guru-a'' \<and> is_reader r)
      (runs (reached_table sample_events))) = [lit ''chat-a'']"
    and "queue_of (reached_table sample_events) (lit ''guru-a'') = [lit ''writer-a'']"
    by code_simp+
  moreover have "bt_inv (runs (reached_table sample_events))"
    using reached_inv [of sample_events] by (simp add: table_inv_def map_inv_def)
  ultimately show "blockers (reached_table sample_events) (lit ''guru-a'') (lit ''writer-a'') \<subseteq>
      {k. Drop_Event k \<in> set [Reserve_Event (sample_spec ''writer-b'' Memory_Write_Run) (Inr ()) 8,
        Drop_Event (lit ''chat-a'')]}"
    by (force simp: blockers_def run_of_def bt_entries [symmetric] filter_eq_Cons_iff
        simp flip: set_map dest: arg_cong [where f = set])
qed simp

text \<open>
  C12: While a run keeps its lease, its completion is granted at most once, and never together
  with an acknowledged cancellation, in whatever order the calls come.
\<close>

theorem one_terminal_outcome:
  assumes "Drop_Event run_id \<notin> set later"
  shows "outcomes run_id later (reached_table es) \<in>
    {[Commit_Granted]} \<union> lists {Stop_Acknowledged}"
  using outcomes_from [OF reached_inv assms] by (auto simp: in_lists_conv_set)

lemma one_terminal_outcome_witness:
  "outcomes (lit ''chat-a'')
     [Claim_Event (lit ''chat-a'') Chat_Run, Cancel_Event (lit ''chat-a'') Chat_Run,
      Claim_Event (lit ''chat-a'') Chat_Run] (reached_table sample_events) \<in>
     {[Commit_Granted]} \<union> lists {Stop_Acknowledged} \<and>
   outcomes (lit ''chat-a'')
     [Claim_Event (lit ''chat-a'') Chat_Run, Cancel_Event (lit ''chat-a'') Chat_Run,
      Claim_Event (lit ''chat-a'') Chat_Run] (reached_table sample_events) = [Commit_Granted]"
proof (rule conjI)
  show "outcomes (lit ''chat-a'')
     [Claim_Event (lit ''chat-a'') Chat_Run, Cancel_Event (lit ''chat-a'') Chat_Run,
      Claim_Event (lit ''chat-a'') Chat_Run] (reached_table sample_events) \<in>
     {[Commit_Granted]} \<union> lists {Stop_Acknowledged}"
    by (rule one_terminal_outcome) simp
qed code_simp

end
