(* ===== verification/App_Access.thy ===== *)
theory App_Access
  imports Run_Invariants
begin

text \<open>
  The availability of Gurus and the entry points of the runs (\<^theory_text>\<open>app.rs\<close>). A Guru is quarantined
  by a deletion or by an interrupted Memory write; every entry point checks the quarantine, and the
  coordinator checks it again under the lock of the run table.

  The store and the file system are not modelled here: \<open>lookup\<close> is the store's answer for the
  profile of a Guru (its Memory root), and \<open>owned\<close> compares that root with the
  workspace of the Guru below the data directory of the application.
\<close>

subsection \<open>Quarantine\<close>

datatype quarantine_source = Deletion_Source | Memory_Write_Source

text \<open>The sources are keys of a map, so they are ordered, in the order of their declaration.\<close>

instantiation quarantine_source :: linorder
begin

definition less_eq_quarantine_source :: "quarantine_source \<Rightarrow> quarantine_source \<Rightarrow> bool" where
  "less_eq_quarantine_source a b \<longleftrightarrow> a = Deletion_Source \<or> b = Memory_Write_Source"

definition less_quarantine_source :: "quarantine_source \<Rightarrow> quarantine_source \<Rightarrow> bool" where
  "less_quarantine_source a b \<longleftrightarrow> a = Deletion_Source \<and> b = Memory_Write_Source"

instance
proof
  fix a b c :: quarantine_source
  show "a < b \<longleftrightarrow> a \<le> b \<and> \<not> b \<le> a" "a \<le> a" "a \<le> b \<Longrightarrow> b \<le> c \<Longrightarrow> a \<le> c"
    "a \<le> b \<Longrightarrow> b \<le> a \<Longrightarrow> a = b" "a \<le> b \<or> b \<le> a"
    by (cases a; cases b; cases c;
      simp add: less_eq_quarantine_source_def less_quarantine_source_def)+
qed

end

datatype recovery_action = Recover_Memory

datatype recovery_reason = Interrupted_Memory_Update

datatype guru_availability = Available | Recovery_Required recovery_reason recovery_action

datatype guru_access_state = Visible guru_availability | Hidden

type_synonym quarantines = "(ustr, (quarantine_source, ustr) btree) btree"

definition quarantine_guru :: "ustr \<Rightarrow> quarantine_source \<Rightarrow> ustr \<Rightarrow> quarantines \<Rightarrow> quarantines" where
  "quarantine_guru guru source reason q = bt_entry [] (bt_insert source reason) guru q"

definition clear_guru_quarantine :: "ustr \<Rightarrow> quarantine_source \<Rightarrow> quarantines \<Rightarrow> quarantines" where
  "clear_guru_quarantine guru source q =
     (case bt_get q guru of
        None \<Rightarrow> q
      | Some sources \<Rightarrow>
          let rest = bt_remove source sources in
          if rest = [] then bt_remove guru q else bt_insert guru rest q)"

definition is_guru_quarantined :: "ustr \<Rightarrow> quarantines \<Rightarrow> bool" where
  "is_guru_quarantined guru q \<longleftrightarrow> bt_get q guru \<noteq> None"

definition guru_access :: "ustr \<Rightarrow> quarantines \<Rightarrow> guru_access_state" where
  "guru_access guru q =
     (case bt_get q guru of
        None \<Rightarrow> Visible Available
      | Some sources \<Rightarrow>
          if bt_get sources Deletion_Source \<noteq> None then Hidden
          else if bt_get sources Memory_Write_Source \<noteq> None then
            Visible (Recovery_Required Interrupted_Memory_Update Recover_Memory)
          else Hidden)"

definition ensure_guru_available ::
  "(ustr \<Rightarrow> command_error + ustr option) \<Rightarrow> (ustr \<Rightarrow> ustr \<Rightarrow> bool) \<Rightarrow> ustr \<Rightarrow> quarantines \<Rightarrow>
   command_error + unit" where
  "ensure_guru_available lookup owned guru q =
     (case guru_access guru q of
        Visible Available \<Rightarrow>
          (case lookup guru of
             Inl e \<Rightarrow> Inl e
           | Inr None \<Rightarrow> Inr ()
           | Inr (Some memory_root) \<Rightarrow>
               if owned guru memory_root then Inr ()
               else Inl (command_error_new (lit ''guru_storage_unavailable'')
                 (lit ''Guru storage is not owned by this Guru Terminal installation'')))
      | Visible (Recovery_Required _ _) \<Rightarrow>
          Inl (command_error_new (lit ''guru_recovery_required'')
            (lit ''Guru requires recovery before it can be used''))
      | Hidden \<Rightarrow>
          Inl (command_error_new (lit ''guru_storage_unavailable'')
            (lit ''Guru storage is unavailable'')))"

definition recovery_available :: "ustr \<Rightarrow> recovery_action \<Rightarrow> quarantines \<Rightarrow> command_error + unit" where
  "recovery_available guru action q =
     (case guru_access guru q of
        Visible (Recovery_Required _ required) \<Rightarrow>
          if action = required then Inr ()
          else Inl (err_invalid (lit ''requested Guru recovery action is not available''))
      | Visible Available \<Rightarrow>
          Inl (err_conflict (lit ''Guru does not currently require recovery''))
      | Hidden \<Rightarrow>
          Inl (command_error_new (lit ''guru_storage_unavailable'')
            (lit ''Guru storage is unavailable'')))"

lemmas access_defs =
  guru_access_def ensure_guru_available_def recovery_available_def is_guru_quarantined_def

subsection \<open>Entry points\<close>

record app_state =
  app_coordinator :: run_coordinator
  app_quarantined :: quarantines

text \<open>Runs an operation of the coordinator on the state of the application.\<close>

definition on_coordinator ::
  "(run_coordinator \<Rightarrow> 'r \<times> run_coordinator) \<Rightarrow> app_state \<Rightarrow> 'r \<times> app_state" where
  "on_coordinator f s = (case f (app_coordinator s) of (r, c) \<Rightarrow> (r, s\<lparr>app_coordinator := c\<rparr>))"

text \<open>The check before the call and the check under the lock.\<close>

definition checked ::
  "(command_error + unit) \<Rightarrow> (app_state \<Rightarrow> (command_error + 'r) \<times> app_state) \<Rightarrow> app_state \<Rightarrow>
   (command_error + 'r) \<times> app_state" where
  "checked available f s = (case available of Inl e \<Rightarrow> (Inl e, s) | Inr _ \<Rightarrow> f s)"

definition register_run ::
  "(ustr \<Rightarrow> command_error + ustr option) \<Rightarrow> (ustr \<Rightarrow> ustr \<Rightarrow> bool) \<Rightarrow> run_spec \<Rightarrow> int \<Rightarrow> app_state \<Rightarrow>
   (command_error + run_lease) \<times> app_state" where
  "register_run lookup owned spec now s =
     (let available = ensure_guru_available lookup owned (rs_guru_id spec) (app_quarantined s) in
      checked available (on_coordinator (register_run_spec spec available now)) s)"

definition app_reserve_memory_write ::
  "(ustr \<Rightarrow> command_error + ustr option) \<Rightarrow> (ustr \<Rightarrow> ustr \<Rightarrow> bool) \<Rightarrow> ustr \<Rightarrow> ustr \<Rightarrow> run_target \<Rightarrow> int \<Rightarrow>
   app_state \<Rightarrow> (command_error + run_lease) \<times> app_state" where
  "app_reserve_memory_write lookup owned run_id guru target now s =
     (let available = ensure_guru_available lookup owned guru (app_quarantined s) in
      checked available (on_coordinator (reserve_memory_write
        \<lparr>rs_run_id = run_id, rs_guru_id = guru, rs_kind = Memory_Write_Run, rs_target = target\<rparr>
        available now)) s)"

definition register_guru_recovery ::
  "ustr \<Rightarrow> ustr \<Rightarrow> recovery_action \<Rightarrow> int \<Rightarrow> app_state \<Rightarrow> (command_error + run_lease) \<times> app_state" where
  "register_guru_recovery run_id guru action now s =
     on_coordinator (register_run_spec
       \<lparr>rs_run_id = run_id, rs_guru_id = guru, rs_kind = Memory_Write_Run,
        rs_target = Memory_Write_Session (lit ''pending-recovery'')\<rparr>
       (recovery_available guru action (app_quarantined s)) now) s"

definition register_chat_run ::
  "(ustr \<Rightarrow> command_error + ustr option) \<Rightarrow> (ustr \<Rightarrow> ustr \<Rightarrow> bool) \<Rightarrow> ustr \<Rightarrow> ustr \<Rightarrow> ustr \<Rightarrow> nat \<Rightarrow> int \<Rightarrow>
   app_state \<Rightarrow> (command_error + run_lease) \<times> app_state" where
  "register_chat_run lookup owned run_id guru thread control now s =
     (let available = ensure_guru_available lookup owned guru (app_quarantined s) in
      checked available (on_coordinator (register_chat
        \<lparr>rs_run_id = run_id, rs_guru_id = guru, rs_kind = Chat_Run, rs_target = Chat_Thread thread\<rparr>
        control available now)) s)"

definition begin_guru_deletion :: "ustr \<Rightarrow> app_state \<Rightarrow> (command_error + unit) \<times> app_state" where
  "begin_guru_deletion guru s =
     begin_guru_mutation guru
       (\<lambda>s. s\<lparr>app_quarantined := quarantine_guru guru Deletion_Source
          (lit ''Guru deletion is in progress'') (app_quarantined s)\<rparr>)
       (rc_table (app_coordinator s)) s"

definition forget_guru :: "ustr \<Rightarrow> app_state \<Rightarrow> app_state" where
  "forget_guru guru s =
     s\<lparr>app_quarantined := clear_guru_quarantine guru Deletion_Source (app_quarantined s)\<rparr>"

subsection \<open>The quarantine as a set of sources\<close>

definition sources_of :: "quarantines \<Rightarrow> ustr \<Rightarrow> quarantine_source set" where
  "sources_of q guru =
     (case bt_get q guru of None \<Rightarrow> {} | Some sources \<Rightarrow> {s. bt_get sources s \<noteq> None})"

definition quarantines_inv :: "quarantines \<Rightarrow> bool" where
  "quarantines_inv q \<longleftrightarrow> bt_inv q \<and> (\<forall>guru sources. bt_get q guru = Some sources \<longrightarrow> bt_inv sources)"

lemma quarantines_inv_simps [simp]:
  "quarantines_inv []"
  "quarantines_inv q \<Longrightarrow> quarantines_inv (quarantine_guru g s r q)"
  "quarantines_inv q \<Longrightarrow> quarantines_inv (clear_guru_quarantine g s q)"
  by (auto simp: quarantines_inv_def quarantine_guru_def clear_guru_quarantine_def Let_def
      split: option.split)

lemma sources_of_quarantine:
  "sources_of (quarantine_guru g s r q) g' =
     (if g' = g then insert s (sources_of q g) else sources_of q g')"
  by (auto simp: sources_of_def quarantine_guru_def split: option.split)

lemma bt_get_not_None_Nil: "bt_get m k = Some v \<Longrightarrow> m \<noteq> []"
  by auto

lemma sources_of_clear:
  assumes "quarantines_inv q"
  shows "sources_of (clear_guru_quarantine g s q) g' =
     (if g' = g then sources_of q g - {s} else sources_of q g')"
proof (cases "bt_get q g")
  case (Some sources)
  then have "bt_inv q" "bt_inv sources" using assms by (auto simp: quarantines_inv_def)
  then have get: "bt_get (bt_remove s sources) x = (if x = s then None else bt_get sources x)" for x
    by simp
  show ?thesis
  proof (cases "bt_remove s sources = []")
    case True
    have "x = s" if "bt_get sources x \<noteq> None" for x
    proof (rule ccontr)
      assume "x \<noteq> s"
      then have "bt_get sources x = bt_get [] x" using get [of x] by (simp only: True if_False)
      then show False using that by simp
    qed
    then have "{x. bt_get sources x \<noteq> None} - {s} = {}" by (simp add: subset_iff)
    then show ?thesis
      using Some True \<open>bt_inv q\<close> by (simp add: sources_of_def clear_guru_quarantine_def)
  next
    case False
    then show ?thesis
      using Some get by (auto simp: sources_of_def clear_guru_quarantine_def Let_def)
  qed
qed (auto simp: sources_of_def clear_guru_quarantine_def)

lemma guru_access_Hidden: "Deletion_Source \<in> sources_of q g \<Longrightarrow> guru_access g q = Hidden"
  by (auto simp: sources_of_def guru_access_def split: option.splits)

lemma deletion_hides:
  assumes "Deletion_Source \<in> sources_of q g"
  shows "\<not> is_ok (ensure_guru_available lookup owned g q)" "\<not> is_ok (recovery_available g a q)"
  using guru_access_Hidden [OF assms] by (simp_all add: ensure_guru_available_def recovery_available_def)

end
