(* ===== verification/Host_System.thy ===== *)
theory Host_System
  imports App_Access
begin

text \<open>
  The maintenance gate, the run table and the quarantine together, with the threads that use them.
  Every step is one critical section of the code: a registration first takes its maintenance lease
  and enters the table later, a dropped lease leaves the table, then notifies the writers that wait,
  then gives its maintenance lease back, and any other step may come between. \<open>host_reaches n s\<close>
  says that \<open>s\<close> is reached in \<open>n\<close> steps.
\<close>

subsection \<open>States\<close>

datatype entry =
  Entry_Run run_spec "nat option"
| Entry_Recovery run_spec recovery_action
| Entry_Reserve run_spec

fun entry_spec :: "entry \<Rightarrow> run_spec" where
  "entry_spec (Entry_Run spec _) = spec"
| "entry_spec (Entry_Recovery spec _) = spec"
| "entry_spec (Entry_Reserve spec) = spec"

fun entry_blocker :: "entry \<Rightarrow> maintenance_blocker" where
  "entry_blocker (Entry_Reserve spec) = run_blocker (lit ''Pending '') spec"
| "entry_blocker e = run_blocker (lit ''Active '') (entry_spec e)"

fun entry_available ::
  "(ustr \<Rightarrow> command_error + ustr option) \<Rightarrow> (ustr \<Rightarrow> ustr \<Rightarrow> bool) \<Rightarrow> entry \<Rightarrow> quarantines \<Rightarrow>
   command_error + unit" where
  "entry_available lookup owned (Entry_Recovery spec action) q =
     recovery_available (rs_guru_id spec) action q"
| "entry_available lookup owned e q =
     ensure_guru_available lookup owned (rs_guru_id (entry_spec e)) q"

fun entry_section ::
  "entry \<Rightarrow> (command_error + unit) \<Rightarrow> int \<Rightarrow> run_table \<Rightarrow> command_error + run_table" where
  "entry_section (Entry_Run spec control) available now t = register_section spec control available now t"
| "entry_section (Entry_Recovery spec _) available now t = register_section spec None available now t"
| "entry_section (Entry_Reserve spec) available now t =
     (if rs_kind spec = Memory_Write_Run then reserve_section spec available now t
      else Inl (err_internal (lit ''only Memory writes may reserve the writer queue'')))"

text \<open>A writer that waits: the version of the channel it has seen, and whether it is parked on it.\<close>

record waiter =
  wt_guru :: ustr
  wt_run :: ustr
  wt_seen :: nat
  wt_parked :: bool

record host =
  h_maintenance :: maintenance_state
  h_table :: run_table
  h_version :: nat
  h_quarantined :: quarantines
  h_deleting :: "ustr set"
  h_entering :: "(64 word \<times> entry) list"
  h_leases :: "run_lease list"
  h_unlisted :: "64 word list"
  h_leaving :: "64 word list"
  h_tasks :: "64 word list"
  h_updating :: bool
  h_waiting :: "waiter list"

text \<open>At the start Gurus may be quarantined by what the recovery of the last session found.\<close>

definition host_start :: "quarantines \<Rightarrow> host" where
  "host_start q =
     \<lparr>h_maintenance = maintenance_default, h_table = run_table_default, h_version = 0,
      h_quarantined = q, h_deleting = {}, h_entering = [], h_leases = [], h_unlisted = [],
      h_leaving = [], h_tasks = [], h_updating = False, h_waiting = []\<rparr>"

subsection \<open>Steps\<close>

inductive host_step ::
  "(ustr \<Rightarrow> command_error + ustr option) \<Rightarrow> (ustr \<Rightarrow> ustr \<Rightarrow> bool) \<Rightarrow> host \<Rightarrow> host \<Rightarrow> bool"
  for lookup :: "ustr \<Rightarrow> command_error + ustr option" and owned :: "ustr \<Rightarrow> ustr \<Rightarrow> bool" where
  enter:
    "admit_activity (entry_blocker e) (h_maintenance s) = (Inr i, m) \<Longrightarrow>
     host_step lookup owned s (s\<lparr>h_maintenance := m, h_entering := (i, e) # h_entering s\<rparr>)"
| enrol:
    "h_entering s = xs @ (i, e) # ys \<Longrightarrow>
     entry_section e (entry_available lookup owned e (h_quarantined s)) now (h_table s) = Inr t \<Longrightarrow>
     host_step lookup owned s (s\<lparr>h_table := t, h_entering := xs @ ys,
       h_leases := \<lparr>rl_run_id = rs_run_id (entry_spec e), rl_activity = i\<rparr> # h_leases s\<rparr>)"
| reject:
    "h_entering s = xs @ (i, e) # ys \<Longrightarrow>
     \<not> is_ok (entry_section e (entry_available lookup owned e (h_quarantined s)) now (h_table s)) \<Longrightarrow>
     host_step lookup owned s
       (s\<lparr>h_maintenance := drop_activity i (h_maintenance s), h_entering := xs @ ys\<rparr>)"
| unlist:
    "h_leases s = xs @ l # ys \<Longrightarrow> \<forall>w\<in>set (h_waiting s). wt_run w \<noteq> rl_run_id l \<Longrightarrow>
     host_step lookup owned s (s\<lparr>h_table := unlist_run (rl_run_id l) (h_table s),
       h_leases := xs @ ys, h_unlisted := rl_activity l # h_unlisted s\<rparr>)"
| notify:
    "h_unlisted s = xs @ i # ys \<Longrightarrow>
     host_step lookup owned s (s\<lparr>h_version := h_version s + 1, h_unlisted := xs @ ys,
       h_leaving := i # h_leaving s\<rparr>)"
| leave:
    "h_leaving s = xs @ i # ys \<Longrightarrow>
     host_step lookup owned s
       (s\<lparr>h_maintenance := drop_activity i (h_maintenance s), h_leaving := xs @ ys\<rparr>)"
| start_task:
    "admit_kind kind (h_maintenance s) = (Inr i, m) \<Longrightarrow>
     host_step lookup owned s (s\<lparr>h_maintenance := m, h_tasks := i # h_tasks s\<rparr>)"
| end_task:
    "h_tasks s = xs @ i # ys \<Longrightarrow>
     host_step lookup owned s
       (s\<lparr>h_maintenance := drop_activity i (h_maintenance s), h_tasks := xs @ ys\<rparr>)"
| start_update:
    "begin_update (h_maintenance s) = (Inr (), m) \<Longrightarrow>
     host_step lookup owned s (s\<lparr>h_maintenance := m, h_updating := True\<rparr>)"
| end_update:
    "h_updating s \<Longrightarrow>
     host_step lookup owned s
       (s\<lparr>h_maintenance := drop_maintenance (h_maintenance s), h_updating := False\<rparr>)"
| cancel_run:
    "host_step lookup owned s (s\<lparr>h_table := snd (cancel run_id kind (h_table s))\<rparr>)"
| claim_run:
    "host_step lookup owned s (s\<lparr>h_table := snd (claim_completion run_id kind (h_table s))\<rparr>)"
| start_deletion:
    "begin_guru_mutation g
       (quarantine_guru g Deletion_Source (lit ''Guru deletion is in progress''))
       (h_table s) (h_quarantined s) = (Inr (), q) \<Longrightarrow>
     host_step lookup owned s (s\<lparr>h_quarantined := q, h_deleting := insert g (h_deleting s)\<rparr>)"
| quarantine:
    "host_step lookup owned s (s\<lparr>h_quarantined := quarantine_guru g source reason (h_quarantined s)\<rparr>)"
| clear_quarantine:
    "host_step lookup owned s
       (s\<lparr>h_quarantined := clear_guru_quarantine g source (h_quarantined s),
          h_deleting := (if source = Deletion_Source then h_deleting s - {g} else h_deleting s)\<rparr>)"
| start_wait:
    "run_id \<in> set (queue_of (h_table s) g) \<Longrightarrow>
     host_step lookup owned s (s\<lparr>h_waiting :=
       \<lparr>wt_guru = g, wt_run = run_id, wt_seen = h_version s, wt_parked = False\<rparr> # h_waiting s\<rparr>)"
| check_ready:
    "h_waiting s = xs @ w # ys \<Longrightarrow> \<not> wt_parked w \<Longrightarrow>
     writer_ready (h_table s) (wt_guru w) (wt_run w) \<Longrightarrow>
     host_step lookup owned s (s\<lparr>h_waiting := xs @ ys\<rparr>)"
| check_park:
    "h_waiting s = xs @ w # ys \<Longrightarrow> \<not> wt_parked w \<Longrightarrow>
     \<not> writer_ready (h_table s) (wt_guru w) (wt_run w) \<Longrightarrow>
     host_step lookup owned s (s\<lparr>h_waiting := xs @ w\<lparr>wt_parked := True\<rparr> # ys\<rparr>)"
| wake:
    "h_waiting s = xs @ w # ys \<Longrightarrow> wt_parked w \<Longrightarrow> wt_seen w \<noteq> h_version s \<Longrightarrow>
     host_step lookup owned s
       (s\<lparr>h_waiting := xs @ w\<lparr>wt_seen := h_version s, wt_parked := False\<rparr> # ys\<rparr>)"
| abandon:
    "h_waiting s = xs @ w # ys \<Longrightarrow> host_step lookup owned s (s\<lparr>h_waiting := xs @ ys\<rparr>)"

inductive host_reaches ::
  "(ustr \<Rightarrow> command_error + ustr option) \<Rightarrow> (ustr \<Rightarrow> ustr \<Rightarrow> bool) \<Rightarrow> quarantines \<Rightarrow> nat \<Rightarrow> host \<Rightarrow> bool"
  for lookup owned q where
  start: "host_reaches lookup owned q 0 (host_start q)"
| step: "host_reaches lookup owned q n s \<Longrightarrow> host_step lookup owned s s' \<Longrightarrow>
    host_reaches lookup owned q (Suc n) s'"

lemma host_reaches_induct [consumes 1, case_names start step]:
  assumes "host_reaches lookup owned q n s" and "P (host_start q)"
    and "\<And>s s'. P s \<Longrightarrow> host_step lookup owned s s' \<Longrightarrow> P s'"
  shows "P s"
  using assms(1)
proof induction
  case (step n s s')
  from step.IH step.hyps(2) show ?case by (rule assms(3))
qed (rule assms(2))

subsection \<open>The table and the gate keep their invariants\<close>

definition gates_inv :: "host \<Rightarrow> bool" where
  "gates_inv s \<longleftrightarrow> table_inv (h_table s) \<and> maintenance_inv (h_maintenance s) \<and>
     (h_updating s \<longleftrightarrow> installing_update (h_maintenance s))"

lemma entry_section_inv:
  "table_inv t \<Longrightarrow> entry_section e available now t = Inr t' \<Longrightarrow> table_inv t'"
  by (cases e) (auto dest: table_inv_register table_inv_reserve split: if_splits)

lemma maintenance_admit_Inr:
  "maintenance_admit b s = (Inr i, s') \<longleftrightarrow>
     \<not> installing_update s \<and> i = next_id (next_activity_id s) \<and>
     s' = s\<lparr>next_activity_id := i, activities := bt_insert i (b i) (activities s)\<rparr>"
  by (auto simp: maintenance_admit_def Let_def)

lemma begin_update_Inr:
  "begin_update s = (Inr (), s') \<longleftrightarrow>
     \<not> installing_update s \<and> activities s = [] \<and> s' = s\<lparr>installing_update := True\<rparr>"
  by (auto simp: begin_update_def)

lemmas gate_steps =
  maintenance_admit_Inr admit_activity_def admit_kind_def begin_update_Inr

lemma gates_step: "host_step lookup owned s s' \<Longrightarrow> gates_inv s \<Longrightarrow> gates_inv s'"
proof (induction rule: host_step.induct)
  case (cancel_run s run_id kind)
  then show ?case
    using table_inv_same_spec [OF _ same_spec_terminal(1)] by (simp add: gates_inv_def)
next
  case (claim_run s run_id kind)
  then show ?case
    using table_inv_same_spec [OF _ same_spec_terminal(2)] by (simp add: gates_inv_def)
qed (auto simp: gates_inv_def gate_steps maintenance_inv_def drop_activity_def drop_maintenance_def
    table_inv_unlist dest: entry_section_inv)

lemma gates_reached: "host_reaches lookup owned q n s \<Longrightarrow> gates_inv s"
proof (induction rule: host_reaches_induct)
  case start
  then show ?case
    by (simp add: gates_inv_def host_start_def) (simp add: maintenance_default_def)
qed (rule gates_step)

subsection \<open>Every lease has its entry in the gate\<close>

definition live_ids :: "host \<Rightarrow> 64 word multiset" where
  "live_ids s = mset (map fst (h_entering s)) + mset (map rl_activity (h_leases s)) +
     mset (h_unlisted s) + mset (h_leaving s) + mset (h_tasks s)"

definition ids_inv :: "nat \<Rightarrow> host \<Rightarrow> bool" where
  "ids_inv n s \<longleftrightarrow> live_ids s = mset (activity_ids (h_maintenance s)) \<and>
     (\<forall>i\<in>set (activity_ids (h_maintenance s)). i \<le> next_activity_id (h_maintenance s)) \<and>
     unat (next_activity_id (h_maintenance s)) \<le> n"

lemma mset_bt_insert:
  "k \<notin> fst ` set m \<Longrightarrow> mset (map fst (bt_insert k v m)) = add_mset k (mset (map fst m))"
  by (induction m) auto

lemma mset_bt_remove: "mset (map fst (bt_remove k m)) = mset (map fst m) - {#k#}"
  by (induction k m rule: bt_remove.induct) auto

lemma set_bt_remove_fst: "fst ` set (bt_remove k m) \<subseteq> fst ` set m"
  using set_bt_remove [of k m] by (rule image_mono)

lemma next_id_fresh:
  assumes "ids_inv n s" "n + 1 < 2 ^ 64"
  shows "next_id (next_activity_id (h_maintenance s)) \<notin> fst ` set (activities (h_maintenance s))"
    and "\<forall>i\<in>set (activity_ids (h_maintenance s)). i \<le> next_id (next_activity_id (h_maintenance s))"
    and "unat (next_id (next_activity_id (h_maintenance s))) \<le> n + 1"
proof -
  let ?n = "next_activity_id (h_maintenance s)"
  have next_eq: "unat (next_id ?n) = unat ?n + 1"
    using assms by (intro unat_next_id) (simp add: ids_inv_def)
  then show "unat (next_id ?n) \<le> n + 1" using assms by (simp add: ids_inv_def)
  have "?n < next_id ?n" using next_eq by (simp add: word_less_nat_alt)
  then show "\<forall>i\<in>set (activity_ids (h_maintenance s)). i \<le> next_id ?n"
    and "next_id ?n \<notin> fst ` set (activities (h_maintenance s))"
    using assms(1) by (auto simp: ids_inv_def activity_ids_def)
qed

lemma ids_admit:
  assumes "ids_inv n s" "n + 1 < 2 ^ 64" "maintenance_admit b (h_maintenance s) = (Inr i, m)"
    and "h_maintenance s' = m" "live_ids s' = add_mset i (live_ids s)"
  shows "ids_inv (n + 1) s'"
  using assms next_id_fresh [OF assms(1,2)]
  by (auto simp: ids_inv_def maintenance_admit_Inr activity_ids_def mset_bt_insert fst_bt_insert
      simp del: mset_map)

lemma ids_drop:
  assumes "ids_inv n s" "h_maintenance s' = drop_activity i (h_maintenance s)"
    and "live_ids s = add_mset i (live_ids s')"
  shows "ids_inv (n + 1) s'"
proof -
  have "set (activity_ids (h_maintenance s')) \<subseteq> set (activity_ids (h_maintenance s))"
    using set_bt_remove_fst by (simp add: assms(2) activity_ids_def drop_activity_def)
  moreover have "mset (activity_ids (h_maintenance s')) = mset (activity_ids (h_maintenance s)) - {#i#}"
    using mset_bt_remove by (simp add: assms(2) activity_ids_def drop_activity_def)
  moreover have "live_ids s' = live_ids s - {#i#}" using assms(3) by simp
  ultimately show ?thesis
    using assms(1,2) by (auto simp: ids_inv_def drop_activity_def)
qed

lemma ids_step:
  assumes "host_step lookup owned s s'" "ids_inv n s" "n + 1 < 2 ^ 64"
  shows "ids_inv (n + 1) s'"
  using assms
proof (induction rule: host_step.induct)
  case (enter e s i m)
  then show ?case
    by (intro ids_admit [of n s _ i m]) (auto simp: admit_activity_def live_ids_def)
next
  case (reject s xs i e ys now)
  then show ?case by (intro ids_drop [of n s]) (auto simp: live_ids_def)
next
  case (leave s xs i ys)
  then show ?case by (intro ids_drop [of n s]) (auto simp: live_ids_def)
next
  case (start_task kind s i m)
  then show ?case
    by (intro ids_admit [of n s _ i m]) (auto simp: admit_kind_def live_ids_def)
next
  case (end_task s xs i ys)
  then show ?case by (intro ids_drop [of n s]) (auto simp: live_ids_def)
qed (auto simp: ids_inv_def live_ids_def activity_ids_def begin_update_Inr drop_maintenance_def)

lemma ids_reached: "host_reaches lookup owned q n s \<Longrightarrow> n < 2 ^ 64 \<Longrightarrow> ids_inv n s"
proof (induction rule: host_reaches.induct)
  case start
  then show ?case
    by (simp add: ids_inv_def host_start_def live_ids_def) (simp add: maintenance_default_def activity_ids_def)
next
  case (step n s s')
  then show ?case using ids_step [of lookup owned s s' n] by simp
qed

subsection \<open>Leases and runs\<close>

definition lease_inv :: "host \<Rightarrow> bool" where
  "lease_inv s \<longleftrightarrow> mset (map rl_run_id (h_leases s)) = mset (map fst (runs (h_table s)))"

lemma map_fst_bt_update: "bt_inv m \<Longrightarrow> bt_get m k \<noteq> None \<Longrightarrow> map fst (bt_insert k v m) = map fst m"
proof (induction m)
  case (Cons kv m)
  then show ?case
    using bt_get_None_iff [of m k] by (cases kv) (auto simp: bt_inv_def)
qed simp

lemma runs_terminal:
  assumes "table_inv t"
  shows "map fst (runs (snd (cancel k kind t))) = map fst (runs t)"
    and "map fst (runs (snd (claim_completion k kind t))) = map fst (runs t)"
  using assms
  by (auto simp: table_inv_def map_inv_def cancel_def claim_completion_def map_fst_bt_update
      split: option.split terminal_state.split)

lemma bt_remove_absent: "bt_get m k = None \<Longrightarrow> bt_remove k m = m"
  by (induction m) (auto split: if_splits)

lemma runs_unlist: "map fst (runs (unlist_run k t)) = map fst (bt_remove k (runs t))"
proof (cases "bt_get (runs t) k")
  case None
  then show ?thesis by (simp add: unlist_run_def bt_remove_absent)
qed (auto simp: unlist_run_def Let_def split: option.split)

lemma entry_section_runs:
  assumes "table_inv t" "entry_section e available now t = Inr t'"
  shows "mset (map fst (runs t')) = add_mset (rs_run_id (entry_spec e)) (mset (map fst (runs t)))"
proof -
  have m: "map_inv t" using assms by (simp add: table_inv_def)
  have "bt_get (runs t) (rs_run_id (entry_spec e)) = None"
    using assms(2) admit_iff [OF m] admit_waiting_iff [OF m]
    by (cases e) (auto simp: register_section_Inr reserve_section_Inr run_of_def split: if_splits)
  then have fresh: "rs_run_id (entry_spec e) \<notin> fst ` set (runs t)" by (simp add: bt_get_None_iff)
  obtain r where "runs t' = bt_insert (rs_run_id (entry_spec e)) r (runs t)"
    using assms(2) by (cases e) (auto simp: register_section_Inr reserve_section_Inr split: if_splits)
  then show ?thesis using mset_bt_insert [OF fresh] by (simp del: mset_map)
qed

lemma lease_step:
  assumes "host_step lookup owned s s'" "lease_inv s" "gates_inv s"
  shows "lease_inv s'"
  using assms
proof (induction rule: host_step.induct)
  case (enrol s xs i e ys now t)
  then show ?case
    using entry_section_runs [of "h_table s" e _ now t]
    by (simp add: lease_inv_def gates_inv_def del: mset_map)
next
  case (unlist s xs l ys)
  have "mset (map fst (runs (unlist_run (rl_run_id l) (h_table s)))) =
      mset (map fst (runs (h_table s))) - {#rl_run_id l#}"
    by (simp only: runs_unlist mset_bt_remove)
  moreover have "add_mset (rl_run_id l) (mset (map rl_run_id (xs @ ys))) =
      mset (map fst (runs (h_table s)))"
    using unlist by (simp add: lease_inv_def)
  ultimately show ?case by (simp add: lease_inv_def del: mset_map) (metis add_mset_remove_trivial)
qed (auto simp: lease_inv_def gates_inv_def runs_terminal simp del: mset_map)

lemma lease_reached: "host_reaches lookup owned q n s \<Longrightarrow> lease_inv s"
proof (induction rule: host_reaches.induct)
  case start
  then show ?case by (simp add: lease_inv_def host_start_def run_table_default_def)
next
  case (step n s s')
  then show ?case using lease_step gates_reached by blast
qed

subsection \<open>Gurus that are being deleted\<close>

definition deletion_inv :: "host \<Rightarrow> bool" where
  "deletion_inv s \<longleftrightarrow> quarantines_inv (h_quarantined s) \<and>
     (\<forall>g\<in>h_deleting s. Deletion_Source \<in> sources_of (h_quarantined s) g) \<and>
     (\<forall>k r. run_of (h_table s) k = Some r \<longrightarrow> guru_of r \<notin> h_deleting s)"

lemma entry_section_run:
  assumes "entry_section e available now t = Inr t'" "run_of t' k = Some r"
  shows "run_of t k = Some r \<or> guru_of r = rs_guru_id (entry_spec e)"
  using assms
  by (cases e)
    (auto simp: register_section_Inr reserve_section_Inr run_of_insert reserved_maps split: if_splits)

lemma entry_section_available:
  "entry_section e available now t = Inr t' \<Longrightarrow> is_ok available"
  by (cases e) (auto simp: register_section_Inr reserve_section_Inr split: if_splits)

lemma entry_available_deleting:
  assumes "Deletion_Source \<in> sources_of q (rs_guru_id (entry_spec e))"
  shows "\<not> is_ok (entry_available lookup owned e q)"
  using assms by (cases e) (simp_all add: deletion_hides)

lemma begin_guru_mutation_Inr:
  assumes "begin_guru_mutation g f t q = (Inr (), q')" "map_inv t"
  shows "q' = f q" "run_of t k = Some r \<Longrightarrow> guru_of r \<noteq> g"
  using assms
  by (auto simp: begin_guru_mutation_def list_ex_iff active_values_iff split: if_splits)

lemma run_of_terminal:
  "run_of (snd (cancel k kind t)) k' = Some r' \<Longrightarrow>
     \<exists>r. run_of t k' = Some r \<and> guru_of r' = guru_of r"
  "run_of (snd (claim_completion k kind t)) k' = Some r' \<Longrightarrow>
     \<exists>r. run_of t k' = Some r \<and> guru_of r' = guru_of r"
  using same_specD(1) [OF same_spec_terminal(1)] same_specD(1) [OF same_spec_terminal(2)]
  by (metis guru_of_def)+

lemma deletion_step:
  assumes "host_step lookup owned s s'" "deletion_inv s" "gates_inv s"
  shows "deletion_inv s'"
  using assms
proof (induction rule: host_step.induct)
  case (enrol s xs i e ys now t)
  have "rs_guru_id (entry_spec e) \<notin> h_deleting s"
    using entry_section_available [OF enrol(2)] entry_available_deleting enrol(3)
    by (auto simp: deletion_inv_def)
  then show ?case
    using enrol(3) entry_section_run [OF enrol(2)] by (auto simp: deletion_inv_def) metis
next
  case (unlist s xs l ys)
  then have "map_inv (h_table s)" "queues_ok (h_table s)"
    by (auto simp: gates_inv_def table_inv_def)
  then show ?case
    using unlist by (auto simp: deletion_inv_def unlist_maps split: if_splits)
next
  case (cancel_run s run_id kind)
  then show ?case
    by (auto simp: deletion_inv_def dest!: run_of_terminal(1))
next
  case (claim_run s run_id kind)
  then show ?case
    by (auto simp: deletion_inv_def dest!: run_of_terminal(2))
next
  case (start_deletion g s q)
  then have "map_inv (h_table s)" by (simp add: gates_inv_def table_inv_def)
  note del = begin_guru_mutation_Inr [OF start_deletion(1) this]
  show ?case
    using start_deletion(2) del by (auto simp: deletion_inv_def sources_of_quarantine)
next
  case (quarantine s g source reason)
  then show ?case by (auto simp: deletion_inv_def sources_of_quarantine)
next
  case (clear_quarantine s g source)
  then show ?case
    by (cases source) (auto simp: deletion_inv_def sources_of_clear)
qed (auto simp: deletion_inv_def)

lemma deletion_reached:
  "host_reaches lookup owned q n s \<Longrightarrow> quarantines_inv q \<Longrightarrow> deletion_inv s"
proof (induction rule: host_reaches.induct)
  case start
  then show ?case by (simp add: deletion_inv_def host_start_def)
next
  case (step n s s')
  then show ?case using deletion_step gates_reached by blast
qed

subsection \<open>Writers that wait\<close>

definition waiting_ok :: "host \<Rightarrow> waiter \<Rightarrow> bool" where
  "waiting_ok s w \<longleftrightarrow>
     wt_run w \<in> set (queue_of (h_table s) (wt_guru w)) \<and> wt_seen w \<le> h_version s \<and>
     (wt_parked w \<longrightarrow> writer_ready (h_table s) (wt_guru w) (wt_run w) \<longrightarrow>
        wt_seen w < h_version s \<or> h_unlisted s \<noteq> [])"

definition waiting_inv :: "host \<Rightarrow> bool" where
  "waiting_inv s \<longleftrightarrow> (\<forall>w\<in>set (h_waiting s). waiting_ok s w)"

text \<open>Only a dropped lease can make a queued writer ready.\<close>

lemma ready_before:
  assumes inv: "table_inv t" and w: "w \<in> set (queue_of t g)" and e: "\<forall>k. e \<noteq> Drop_Event k"
    and ready: "writer_ready (table_step e t) g w"
  shows "writer_ready t g w"
proof -
  have step: "w \<in> set (queue_of (table_step e t) g)"
    using blockers_step [OF inv w] e by blast
  have m: "map_inv t" and m': "map_inv (table_step e t)"
    using inv table_inv_step [OF inv, of e] by (auto simp: table_inv_def)
  have "blockers (table_step e t) g w = {}"
    using ready writer_ready_iff [OF m' step] by simp
  moreover have "blockers t g w \<subseteq> blockers (table_step e t) g w"
    using blockers_mono [OF inv w e] .
  ultimately show ?thesis using writer_ready_iff [OF m w] by simp
qed

lemma entry_section_step:
  assumes "entry_section e available now t = Inr t'"
  shows "\<exists>ev. table_step ev t = t' \<and> (\<forall>k. ev \<noteq> Drop_Event k)"
proof (cases e)
  case (Entry_Run spec control)
  then have "table_step (Register_Event spec control available now) t = t'"
    using assms by (simp add: keep_error_def)
  then show ?thesis by blast
next
  case (Entry_Recovery spec action)
  then have "table_step (Register_Event spec None available now) t = t'"
    using assms by (simp add: keep_error_def)
  then show ?thesis by blast
next
  case (Entry_Reserve spec)
  then have "table_step (Reserve_Event spec available now) t = t'"
    using assms by (simp add: keep_error_def split: if_splits)
  then show ?thesis by blast
qed

lemma waiting_table_step:
  assumes inv: "waiting_inv s" and gates: "gates_inv s" and ev: "\<forall>k. ev \<noteq> Drop_Event k"
    and s': "h_waiting s' = h_waiting s" "h_version s' = h_version s" "h_unlisted s' = h_unlisted s"
      "h_table s' = table_step ev (h_table s)"
  shows "waiting_inv s'"
  unfolding waiting_inv_def
proof
  fix w
  assume "w \<in> set (h_waiting s')"
  then have w: "waiting_ok s w" using inv s' by (simp add: waiting_inv_def)
  have t: "table_inv (h_table s)" using gates by (simp add: gates_inv_def)
  have q: "wt_run w \<in> set (queue_of (h_table s) (wt_guru w))" using w by (simp add: waiting_ok_def)
  have "wt_run w \<in> set (queue_of (h_table s') (wt_guru w))"
    using blockers_step [OF t q, of ev] ev s'(4) by simp
  moreover have "writer_ready (h_table s') (wt_guru w) (wt_run w) \<Longrightarrow>
      writer_ready (h_table s) (wt_guru w) (wt_run w)"
    using ready_before [OF t q ev] s' by simp
  ultimately show "waiting_ok s' w" using w s' by (auto simp: waiting_ok_def)
qed

lemma waiting_step:
  assumes "host_step lookup owned s s'" "waiting_inv s" "gates_inv s"
  shows "waiting_inv s'"
  using assms
proof (induction rule: host_step.induct)
  case (enrol s xs i e ys now t)
  obtain ev where "table_step ev (h_table s) = t" "\<forall>k. ev \<noteq> Drop_Event k"
    using entry_section_step [OF enrol(2)] by blast
  with enrol(3,4) show ?case by - (rule waiting_table_step [of s ev], simp_all)
next
  case (cancel_run s run_id kind)
  then show ?case
    by - (rule waiting_table_step [of s "Cancel_Event run_id kind"], simp_all)
next
  case (claim_run s run_id kind)
  then show ?case
    by - (rule waiting_table_step [of s "Claim_Event run_id kind"], simp_all)
next
  case (unlist s xs l ys)
  then have "map_inv (h_table s)" "queues_ok (h_table s)"
    by (auto simp: gates_inv_def table_inv_def)
  then show ?case
    using unlist by (auto simp: waiting_inv_def waiting_ok_def unlist_maps)
next
  case (notify s xs i ys)
  then show ?case by (fastforce simp: waiting_inv_def waiting_ok_def)
qed (auto simp: waiting_inv_def waiting_ok_def)

lemma waiting_reached: "host_reaches lookup owned q n s \<Longrightarrow> waiting_inv s"
proof (induction rule: host_reaches.induct)
  case start
  then show ?case by (simp add: waiting_inv_def host_start_def)
next
  case (step n s s')
  then show ?case using waiting_step gates_reached by blast
qed

subsection \<open>A run of the system\<close>

text \<open>
  A Chat is registered, a Memory writer of the same Guru reserves its place, waits, finds the Chat
  active and parks; then the Chat's lease is dropped.
\<close>

abbreviation no_store :: "ustr \<Rightarrow> command_error + ustr option" where
  "no_store \<equiv> (\<lambda>_. Inr None)"

abbreviation any_root :: "ustr \<Rightarrow> ustr \<Rightarrow> bool" where
  "any_root \<equiv> (\<lambda>_ _. True)"

definition sample_chat :: entry where
  "sample_chat = Entry_Run (sample_spec ''chat-a'' Chat_Run) (Some 1)"

definition sample_writer :: entry where
  "sample_writer = Entry_Reserve (sample_spec ''writer-a'' Memory_Write_Run)"

definition sample_enter :: "entry \<Rightarrow> 64 word \<Rightarrow> host \<Rightarrow> host" where
  "sample_enter e i s = s\<lparr>h_maintenance := snd (admit_activity (entry_blocker e) (h_maintenance s)),
     h_entering := (i, e) # h_entering s\<rparr>"

definition sample_enrol :: "entry \<Rightarrow> 64 word \<Rightarrow> host \<Rightarrow> host" where
  "sample_enrol e i s = s\<lparr>h_table := keep_error (h_table s) (entry_section e
       (entry_available no_store any_root e (h_quarantined s)) 5 (h_table s)),
     h_entering := [] @ [],
     h_leases := \<lparr>rl_run_id = rs_run_id (entry_spec e), rl_activity = i\<rparr> # h_leases s\<rparr>"

definition sample_reserved :: host where
  "sample_reserved = sample_enrol sample_writer 2 (sample_enter sample_writer 2
     (sample_enrol sample_chat 1 (sample_enter sample_chat 1 (host_start []))))"

lemma sample_enter_step:
  assumes "host_reaches no_store any_root q n s"
    and "fst (admit_activity (entry_blocker e) (h_maintenance s)) = Inr i"
  shows "host_reaches no_store any_root q (Suc n) (sample_enter e i s)"
  unfolding sample_enter_def
  by (rule host_reaches.step [OF assms(1)], rule host_step.enter) (metis assms(2) prod.collapse)

lemma sample_enrol_step:
  assumes "host_reaches no_store any_root q n s" and "h_entering s = [(i, e)]"
    and "is_ok (entry_section e (entry_available no_store any_root e (h_quarantined s)) 5 (h_table s))"
  shows "host_reaches no_store any_root q (Suc n) (sample_enrol e i s)"
  unfolding sample_enrol_def
  by (rule host_reaches.step [OF assms(1)], rule host_step.enrol)
    (use assms(2,3) in \<open>auto simp: is_ok_iff keep_error_def\<close>)

lemma sample_reserved_reached: "host_reaches no_store any_root [] 4 sample_reserved"
proof -
  let ?s1 = "sample_enter sample_chat 1 (host_start [])"
  let ?s2 = "sample_enrol sample_chat 1 ?s1"
  let ?s3 = "sample_enter sample_writer 2 ?s2"
  have "host_reaches no_store any_root [] (Suc 0) ?s1"
    by (rule sample_enter_step [OF host_reaches.start]) code_simp
  then have "host_reaches no_store any_root [] (Suc (Suc 0)) ?s2"
    by (rule sample_enrol_step) code_simp+
  then have "host_reaches no_store any_root [] (Suc (Suc (Suc 0))) ?s3"
    by (rule sample_enter_step) code_simp
  then have "host_reaches no_store any_root [] (Suc (Suc (Suc (Suc 0)))) sample_reserved"
    unfolding sample_reserved_def by (rule sample_enrol_step) code_simp+
  then show ?thesis by (simp add: numeral_eq_Suc)
qed

subsection \<open>What holds in every reachable state\<close>

text \<open>
  C13: While an update is being installed nothing else is under way: no run is active or being
  registered, no lease is still being given back, and no native command is running. The
  identifiers of the gate are 64 bit and wrap, so this is stated for less than \<open>2^64\<close> steps.
\<close>

theorem update_excludes_work:
  assumes "host_reaches lookup owned q n s" and "n < 2 ^ 64" and "h_updating s"
  shows "runs (h_table s) = [] \<and> h_entering s = [] \<and> h_leases s = [] \<and> h_unlisted s = [] \<and>
    h_leaving s = [] \<and> h_tasks s = []"
proof -
  have "activities (h_maintenance s) = []"
    using gates_reached [OF assms(1)] assms(3) by (auto simp: gates_inv_def maintenance_inv_def)
  then have "live_ids s = {#}"
    using ids_reached [OF assms(1,2)] by (simp add: ids_inv_def activity_ids_def)
  then have "h_entering s = []" "h_leases s = []" "h_unlisted s = []" "h_leaving s = []" "h_tasks s = []"
    by (simp_all add: live_ids_def)
  moreover from this have "runs (h_table s) = []"
    using lease_reached [OF assms(1)] by (simp add: lease_inv_def)
  ultimately show ?thesis by blast
qed

lemma update_excludes_work_witness:
  "\<exists>s. host_reaches no_store any_root [] 1 s \<and> h_updating s \<and> runs (h_table s) = []"
proof -
  let ?s = "(host_start [])\<lparr>h_maintenance := maintenance_default\<lparr>installing_update := True\<rparr>,
    h_updating := True\<rparr>"
  have "begin_update (h_maintenance (host_start [])) =
      (Inr (), maintenance_default\<lparr>installing_update := True\<rparr>)"
    by code_simp
  then have "host_reaches no_store any_root [] (Suc 0) ?s"
    by (intro host_reaches.step [OF host_reaches.start] host_step.start_update)
  moreover from this have "runs (h_table ?s) = []"
    using update_excludes_work [of no_store any_root "[]" "Suc 0" ?s] by simp
  ultimately show ?thesis by (intro exI [of _ ?s]) simp
qed

text \<open>
  C14: From the moment a Guru's deletion has begun until its quarantine is cleared, no run of the
  Guru is active: neither one that was registered before, nor one whose registration was already
  past the maintenance gate.
\<close>

theorem deletion_excludes_runs:
  assumes "host_reaches lookup owned q n s" and "quarantines_inv q" and "g \<in> h_deleting s"
  shows "filter (\<lambda>r. guru_of r = g) (active_values (h_table s)) = [] \<and>
    guru_access g (h_quarantined s) = Hidden"
proof -
  have "map_inv (h_table s)"
    using gates_reached [OF assms(1)] by (simp add: gates_inv_def table_inv_def)
  then show ?thesis
    using deletion_reached [OF assms(1,2)] assms(3)
    by (auto simp: deletion_inv_def filter_empty_conv active_values_iff guru_access_Hidden)
qed

lemma deletion_excludes_runs_witness:
  "\<exists>s. host_reaches no_store any_root [] 5 s \<and> lit ''guru-b'' \<in> h_deleting s \<and>
     guru_access (lit ''guru-b'') (h_quarantined s) = Hidden"
proof -
  let ?q = "quarantine_guru (lit ''guru-b'') Deletion_Source (lit ''Guru deletion is in progress'')
    (h_quarantined sample_reserved)"
  let ?s = "sample_reserved\<lparr>h_quarantined := ?q,
    h_deleting := insert (lit ''guru-b'') (h_deleting sample_reserved)\<rparr>"
  have "begin_guru_mutation (lit ''guru-b'')
      (quarantine_guru (lit ''guru-b'') Deletion_Source (lit ''Guru deletion is in progress''))
      (h_table sample_reserved) (h_quarantined sample_reserved) = (Inr (), ?q)"
    by code_simp
  then have r: "host_reaches no_store any_root [] (Suc 4) ?s"
    by (intro host_reaches.step [OF sample_reserved_reached] host_step.start_deletion)
  have "guru_access (lit ''guru-b'') (h_quarantined ?s) = Hidden"
    using deletion_excludes_runs [OF r, of "lit ''guru-b''"] by simp
  then show ?thesis using r by (intro exI [of _ ?s]) simp
qed

text \<open>
  C15: No wake-up is lost: a Memory writer that is parked on the channel although it has become
  ready has either missed a version of the channel, so that it is woken, or the lease whose drop
  made it ready is just about to notify the channel.
\<close>

theorem no_lost_wakeup:
  assumes "host_reaches lookup owned q n s"
    and "w \<in> set (h_waiting s)" and "wt_parked w"
    and "writer_ready (h_table s) (wt_guru w) (wt_run w)"
  shows "wt_seen w < h_version s \<or> h_unlisted s \<noteq> []"
  using waiting_reached [OF assms(1)] assms(2-) by (auto simp: waiting_inv_def waiting_ok_def)

lemma no_lost_wakeup_witness:
  "\<exists>s w. host_reaches no_store any_root [] 7 s \<and> w \<in> set (h_waiting s) \<and> wt_parked w \<and>
     writer_ready (h_table s) (wt_guru w) (wt_run w) \<and>
     (wt_seen w < h_version s \<or> h_unlisted s \<noteq> [])"
proof -
  let ?l = "\<lparr>rl_run_id = lit ''chat-a'', rl_activity = 1\<rparr>"
  let ?w = "\<lparr>wt_guru = lit ''guru-a'', wt_run = lit ''writer-a'',
    wt_seen = h_version sample_reserved, wt_parked = False\<rparr>"
  let ?s1 = "sample_reserved\<lparr>h_waiting := ?w # h_waiting sample_reserved\<rparr>"
  let ?s2 = "?s1\<lparr>h_waiting := [] @ ?w\<lparr>wt_parked := True\<rparr> # []\<rparr>"
  let ?s3 = "?s2\<lparr>h_table := unlist_run (rl_run_id ?l) (h_table ?s2),
    h_leases := [\<lparr>rl_run_id = lit ''writer-a'', rl_activity = 2\<rparr>] @ [],
    h_unlisted := rl_activity ?l # h_unlisted ?s2\<rparr>"
  have r1: "host_reaches no_store any_root [] (Suc 4) ?s1"
    by (rule host_reaches.step [OF sample_reserved_reached], rule host_step.start_wait) code_simp
  have "h_waiting ?s1 = [] @ ?w # []" "\<not> wt_parked ?w"
      "\<not> writer_ready (h_table ?s1) (wt_guru ?w) (wt_run ?w)"
    by code_simp+
  then have r2: "host_reaches no_store any_root [] (Suc (Suc 4)) ?s2"
    by (rule host_reaches.step [OF r1 host_step.check_park])
  have "h_leases ?s2 = [\<lparr>rl_run_id = lit ''writer-a'', rl_activity = 2\<rparr>] @ ?l # []"
      "\<forall>w\<in>set (h_waiting ?s2). wt_run w \<noteq> rl_run_id ?l"
    by code_simp+
  then have r3: "host_reaches no_store any_root [] (Suc (Suc (Suc 4))) ?s3"
    by (rule host_reaches.step [OF r2 host_step.unlist])
  let ?w' = "?w\<lparr>wt_parked := True\<rparr>"
  have w: "?w' \<in> set (h_waiting ?s3)" "wt_parked ?w'"
      "writer_ready (h_table ?s3) (wt_guru ?w') (wt_run ?w')"
    by code_simp+
  have "wt_seen ?w' < h_version ?s3 \<or> h_unlisted ?s3 \<noteq> []"
    by (rule no_lost_wakeup [OF r3 w])
  then show ?thesis
    using r3 w by (intro exI [of _ ?s3] exI [of _ ?w'] conjI) (simp_all add: numeral_eq_Suc)
qed

subsection \<open>The operations of the application are sequences of steps\<close>

definition app_view :: "host \<Rightarrow> app_state" where
  "app_view s = \<lparr>app_coordinator = \<lparr>rc_maintenance = h_maintenance s, rc_table = h_table s,
     rc_changes = word_of_nat (h_version s)\<rparr>, app_quarantined = h_quarantined s\<rparr>"

lemma entry_steps:
  assumes "with_activity (entry_blocker e) (rs_run_id (entry_spec e))
      (entry_section e (entry_available lookup owned e (h_quarantined s)) now)
      (app_coordinator (app_view s)) = (Inr lease, c)"
  shows "\<exists>s1 s2. host_step lookup owned s s1 \<and> host_step lookup owned s1 s2 \<and>
    h_leases s2 = lease # h_leases s \<and> app_view s2 = (app_view s)\<lparr>app_coordinator := c\<rparr>"
proof -
  obtain i m where adm: "admit_activity (entry_blocker e) (h_maintenance s) = (Inr i, m)"
    using assms by (auto simp: with_activity_def app_view_def split: prod.splits sum.splits)
  then obtain t where sec: "entry_section e (entry_available lookup owned e (h_quarantined s)) now
      (h_table s) = Inr t"
    using assms by (auto simp: with_activity_def app_view_def split: sum.splits)
  let ?s1 = "s\<lparr>h_maintenance := m, h_entering := (i, e) # h_entering s\<rparr>"
  let ?s2 = "?s1\<lparr>h_table := t, h_entering := [] @ h_entering s,
    h_leases := \<lparr>rl_run_id = rs_run_id (entry_spec e), rl_activity = i\<rparr> # h_leases ?s1\<rparr>"
  have "host_step lookup owned s ?s1" using adm by (rule host_step.enter)
  moreover have "host_step lookup owned ?s1 ?s2"
    by (rule host_step.enrol [where now = now]) (use sec in simp_all)
  moreover have "h_leases ?s2 = lease # h_leases s \<and> app_view ?s2 = (app_view s)\<lparr>app_coordinator := c\<rparr>"
    using assms adm sec by (auto simp: with_activity_def app_view_def)
  ultimately show ?thesis by blast
qed

lemma entry_section_fun:
  "entry_section (Entry_Run spec control) a now = register_section spec control a now"
  "entry_section (Entry_Recovery spec action) a now = register_section spec None a now"
  "rs_kind spec = Memory_Write_Run \<Longrightarrow> entry_section (Entry_Reserve spec) a now = reserve_section spec a now"
  by (simp_all add: fun_eq_iff)

lemma on_coordinator_Inr:
  "on_coordinator f s = (Inr r, s') \<longleftrightarrow>
     f (app_coordinator s) = (Inr r, app_coordinator s') \<and> s' = s\<lparr>app_coordinator := app_coordinator s'\<rparr>"
  by (cases "f (app_coordinator s)") (auto simp: on_coordinator_def)

lemma checked_Inr: "checked a f s = (Inr r, s') \<longleftrightarrow> is_ok a \<and> f s = (Inr r, s')"
  by (auto simp: checked_def split: sum.splits)

text \<open>A Chat, a Chat mutation, a Memory writer and a recovery that the application registers are
  each registered by two steps of the system, so whatever holds in every reachable state holds
  after them, however they interleave with other threads.
\<close>

lemma registrations_are_steps:
  assumes "register_chat_run lookup owned run_id guru thread control now (app_view s) = (Inr lease, a) \<or>
    register_run lookup owned spec now (app_view s) = (Inr lease, a) \<or>
    app_reserve_memory_write lookup owned run_id guru target now (app_view s) = (Inr lease, a) \<or>
    register_guru_recovery run_id guru action now (app_view s) = (Inr lease, a)"
  shows "\<exists>s1 s2. host_step lookup owned s s1 \<and> host_step lookup owned s1 s2 \<and>
    h_leases s2 = lease # h_leases s \<and> app_view s2 = a"
proof -
  have q: "app_quarantined (app_view s) = h_quarantined s" by (simp add: app_view_def)
  have "\<exists>e c. with_activity (entry_blocker e) (rs_run_id (entry_spec e))
      (entry_section e (entry_available lookup owned e (h_quarantined s)) now)
      (app_coordinator (app_view s)) = (Inr lease, c) \<and> a = (app_view s)\<lparr>app_coordinator := c\<rparr>"
    using assms
  proof (elim disjE)
    assume "register_chat_run lookup owned run_id guru thread control now (app_view s) = (Inr lease, a)"
    then show ?thesis
      by (intro exI [of _ "Entry_Run \<lparr>rs_run_id = run_id, rs_guru_id = guru, rs_kind = Chat_Run,
          rs_target = Chat_Thread thread\<rparr> (Some control)"] exI [of _ "app_coordinator a"])
        (auto simp: register_chat_run_def Let_def checked_Inr on_coordinator_Inr register_chat_def
          register_with_controls_def entry_section_fun q)
  next
    assume "register_run lookup owned spec now (app_view s) = (Inr lease, a)"
    then show ?thesis
      by (intro exI [of _ "Entry_Run spec None"] exI [of _ "app_coordinator a"])
        (auto simp: register_run_def Let_def checked_Inr on_coordinator_Inr register_run_spec_def
          register_with_controls_def entry_section_fun q)
  next
    assume "app_reserve_memory_write lookup owned run_id guru target now (app_view s) = (Inr lease, a)"
    then show ?thesis
      by (intro exI [of _ "Entry_Reserve \<lparr>rs_run_id = run_id, rs_guru_id = guru,
          rs_kind = Memory_Write_Run, rs_target = target\<rparr>"] exI [of _ "app_coordinator a"])
        (auto simp: app_reserve_memory_write_def Let_def checked_Inr on_coordinator_Inr
          reserve_memory_write_def entry_section_fun q)
  next
    assume "register_guru_recovery run_id guru action now (app_view s) = (Inr lease, a)"
    then show ?thesis
      by (intro exI [of _ "Entry_Recovery \<lparr>rs_run_id = run_id, rs_guru_id = guru,
          rs_kind = Memory_Write_Run, rs_target = Memory_Write_Session (lit ''pending-recovery'')\<rparr>
          action"] exI [of _ "app_coordinator a"])
        (auto simp: register_guru_recovery_def on_coordinator_Inr register_run_spec_def
          register_with_controls_def entry_section_fun q)
  qed
  then show ?thesis using entry_steps by blast
qed

lemma registrations_are_steps_witness:
  "\<exists>s1 s2. host_step no_store any_root (host_start []) s1 \<and> host_step no_store any_root s1 s2 \<and>
     h_leases s2 = [\<lparr>rl_run_id = lit ''chat-a'', rl_activity = 1\<rparr>] \<and>
     app_view s2 = snd (register_chat_run no_store any_root (lit ''chat-a'') (lit ''guru-a'')
       (lit ''thread-a'') 1 5 (app_view (host_start [])))"
proof -
  let ?r = "register_chat_run no_store any_root (lit ''chat-a'') (lit ''guru-a'') (lit ''thread-a'') 1 5
    (app_view (host_start []))"
  have "fst ?r = Inr \<lparr>rl_run_id = lit ''chat-a'', rl_activity = 1\<rparr>"
    by code_simp
  then have "?r = (Inr \<lparr>rl_run_id = lit ''chat-a'', rl_activity = 1\<rparr>, snd ?r)"
    by (metis prod.collapse)
  then have "\<exists>s1 s2. host_step no_store any_root (host_start []) s1 \<and>
      host_step no_store any_root s1 s2 \<and>
      h_leases s2 = \<lparr>rl_run_id = lit ''chat-a'', rl_activity = 1\<rparr> # h_leases (host_start []) \<and>
      app_view s2 = snd ?r"
    by (intro registrations_are_steps) blast
  then show ?thesis by (simp add: host_start_def)
qed

end
