(* ===== verification/Broker.thy ===== *)
theory Broker
  imports Host_Base Utf8
begin

text \<open>
  The tool broker (\<^theory_text>\<open>broker.rs\<close>): the methods a model may call, the policy of a turn, the
  cardinality of its transactions, the bounded framing, and the life of one connection from the
  request to the commit barrier.

  JSON is \<^theory_text>\<open>serde_json\<close>'s and the tools are the executor's: the parsers, the serializer and the
  executor's answers are parameters. A serializer is given by the pieces it writes and by whether
  it ends without an error of its own.
\<close>

unbundle bit_operations_syntax

subsection \<open>Methods\<close>

datatype tool_method =
  Guru_Search | Guru_Read | Guru_Read_Previous | Finance_Sources | Finance_Macro_Data
| Finance_Market_Data | Finance_Company_Data | Finance_Filings | Finance_Calculate
| Finance_Resolve_Entity | Mcp_Connect | Mcp_Call | Run_Results_List | Compute_Run | Web_Search
| Web_Fetch | Decision_Submit | Evidence_Create | Memory_Patch_Propose | Artifact_List
| Artifact_Read | Artifact_Publish | Chart_Query | Chart_Publish | Workbench_Read
| Workbench_Write | Workbench_Edit | Workbench_List | Workbench_Find | Workbench_Grep

definition tool_methods :: "(ustr \<times> tool_method) list" where
  "tool_methods =
     [(lit ''guru.search'', Guru_Search), (lit ''guru.read'', Guru_Read),
      (lit ''guru.read_previous'', Guru_Read_Previous), (lit ''finance.sources'', Finance_Sources),
      (lit ''finance.macro_data'', Finance_Macro_Data),
      (lit ''finance.market_data'', Finance_Market_Data),
      (lit ''finance.company_data'', Finance_Company_Data),
      (lit ''finance.filings'', Finance_Filings), (lit ''finance.calculate'', Finance_Calculate),
      (lit ''finance.resolve_entity'', Finance_Resolve_Entity),
      (lit ''mcp.connect'', Mcp_Connect), (lit ''mcp.call'', Mcp_Call),
      (lit ''run.results.list'', Run_Results_List), (lit ''compute.run'', Compute_Run),
      (lit ''web.search'', Web_Search), (lit ''web.fetch'', Web_Fetch),
      (lit ''decision.submit'', Decision_Submit), (lit ''evidence.create'', Evidence_Create),
      (lit ''memory.patch.propose'', Memory_Patch_Propose),
      (lit ''artifact.list'', Artifact_List), (lit ''artifact.read'', Artifact_Read),
      (lit ''artifact.publish'', Artifact_Publish), (lit ''chart.query'', Chart_Query),
      (lit ''chart.publish'', Chart_Publish), (lit ''workbench.read'', Workbench_Read),
      (lit ''workbench.write'', Workbench_Write), (lit ''workbench.edit'', Workbench_Edit),
      (lit ''workbench.ls'', Workbench_List), (lit ''workbench.find'', Workbench_Find),
      (lit ''workbench.grep'', Workbench_Grep)]"

definition tool_method_parse :: "ustr \<Rightarrow> tool_method option" where
  "tool_method_parse value = map_of tool_methods value"

subsection \<open>Errors and policy\<close>

datatype broker_error =
  Broker_Io ustr | Method_Denied | Memory_Disabled | Proposal_Disabled | Malformed | Authentication
| Frame_Too_Large | Execution ustr | Budget_Exceeded

fun broker_error_message :: "broker_error \<Rightarrow> ustr" where
  "broker_error_message (Broker_Io e) = lit ''tool broker I/O failed: '' @ e"
| "broker_error_message Method_Denied = lit ''tool is not in the Guru Terminal allowlist''"
| "broker_error_message Memory_Disabled = lit ''Guru Memory use is disabled for this turn''"
| "broker_error_message Proposal_Disabled = lit ''memory proposals are disabled for this turn''"
| "broker_error_message Malformed = lit ''tool request is malformed''"
| "broker_error_message Authentication = lit ''tool broker authentication failed''"
| "broker_error_message Frame_Too_Large = lit ''tool frame exceeded the size limit''"
| "broker_error_message (Execution e) = lit ''tool execution failed: '' @ e"
| "broker_error_message Budget_Exceeded =
     lit ''transaction cardinality for this run is exhausted''"

fun error_code :: "broker_error \<Rightarrow> ustr" where
  "error_code Method_Denied = lit ''method_denied''"
| "error_code Memory_Disabled = lit ''memory_disabled''"
| "error_code Proposal_Disabled = lit ''proposal_disabled''"
| "error_code Authentication = lit ''authentication_failed''"
| "error_code Frame_Too_Large = lit ''frame_too_large''"
| "error_code Malformed = lit ''malformed_request''"
| "error_code (Execution _) = lit ''execution_failed''"
| "error_code Budget_Exceeded = lit ''transaction_limit''"
| "error_code (Broker_Io _) = lit ''io_failed''"

record tool_policy =
  tp_guru_id :: ustr
  tp_session_id :: ustr
  use_memory :: bool
  propose_memory_updates :: bool
  memory_proposal_budget :: "8 word"
  tp_as_of :: "ustr option"

definition default_memory_proposal_budget :: "8 word" where
  "default_memory_proposal_budget = 1"

definition max_memory_proposals :: "8 word" where
  "max_memory_proposals = 8"

definition max_chat_turn_artifacts :: nat where
  "max_chat_turn_artifacts = 4"

definition max_frame_bytes :: nat where
  "max_frame_bytes = 5 * 1024 * 1024"

definition broker_protocol :: ustr where
  "broker_protocol = lit ''guruterminal-tool/1''"

definition enforce_policy :: "tool_policy \<Rightarrow> tool_method \<Rightarrow> broker_error + unit" where
  "enforce_policy policy m =
     (if m \<in> set [Guru_Search, Guru_Read, Guru_Read_Previous] \<and> \<not> use_memory policy then
        Inl Memory_Disabled
      else if m = Memory_Patch_Propose \<and> \<not> propose_memory_updates policy then
        Inl Proposal_Disabled
      else Inr ())"

text \<open>The check of a policy when a broker is started.\<close>

definition start_policy :: "tool_policy \<Rightarrow> broker_error + unit" where
  "start_policy policy =
     (if max_memory_proposals < memory_proposal_budget policy \<or>
         propose_memory_updates policy \<and> memory_proposal_budget policy = 0
      then Inl Malformed else Inr ())"

subsection \<open>Cardinality of transactions\<close>

record transaction_cardinality =
  decisions :: "8 word"
  evidence_creations :: "8 word"
  proposals :: "8 word"
  artifact_publishes :: "8 word"

definition cardinality_default :: transaction_cardinality where
  "cardinality_default =
     \<lparr>decisions = 0, evidence_creations = 0, proposals = 0, artifact_publishes = 0\<rparr>"

definition exhausted :: "tool_method \<Rightarrow> tool_policy \<Rightarrow> transaction_cardinality \<Rightarrow> bool" where
  "exhausted m policy c =
     (case m of
        Decision_Submit \<Rightarrow> 1 \<le> decisions c
      | Evidence_Create \<Rightarrow> 3 \<le> evidence_creations c
      | Memory_Patch_Propose \<Rightarrow> memory_proposal_budget policy \<le> proposals c
      | Artifact_Publish \<Rightarrow> word_of_nat max_chat_turn_artifacts \<le> artifact_publishes c
      | Chart_Publish \<Rightarrow> word_of_nat max_chat_turn_artifacts \<le> artifact_publishes c
      | _ \<Rightarrow> False)"

definition consume ::
  "tool_method \<Rightarrow> tool_policy \<Rightarrow> transaction_cardinality \<Rightarrow> broker_error + transaction_cardinality" where
  "consume m policy c =
     (if exhausted m policy c then Inl Budget_Exceeded
      else Inr
        (case m of
           Decision_Submit \<Rightarrow> c\<lparr>decisions := decisions c + 1\<rparr>
         | Evidence_Create \<Rightarrow> c\<lparr>evidence_creations := evidence_creations c + 1\<rparr>
         | Memory_Patch_Propose \<Rightarrow> c\<lparr>proposals := proposals c + 1\<rparr>
         | Artifact_Publish \<Rightarrow> c\<lparr>artifact_publishes := artifact_publishes c + 1\<rparr>
         | Chart_Publish \<Rightarrow> c\<lparr>artifact_publishes := artifact_publishes c + 1\<rparr>
         | _ \<Rightarrow> c))"

definition saturating_pred :: "8 word \<Rightarrow> 8 word" where
  "saturating_pred w = (if w = 0 then 0 else w - 1)"

definition rollback :: "tool_method \<Rightarrow> transaction_cardinality \<Rightarrow> transaction_cardinality" where
  "rollback m c =
     (case m of
        Decision_Submit \<Rightarrow> c\<lparr>decisions := saturating_pred (decisions c)\<rparr>
      | Evidence_Create \<Rightarrow> c\<lparr>evidence_creations := saturating_pred (evidence_creations c)\<rparr>
      | Memory_Patch_Propose \<Rightarrow> c\<lparr>proposals := saturating_pred (proposals c)\<rparr>
      | Artifact_Publish \<Rightarrow> c\<lparr>artifact_publishes := saturating_pred (artifact_publishes c)\<rparr>
      | Chart_Publish \<Rightarrow> c\<lparr>artifact_publishes := saturating_pred (artifact_publishes c)\<rparr>
      | _ \<Rightarrow> c)"

subsection \<open>Tokens\<close>

text \<open>\<^theory_text>\<open>constant_time_eq\<close>: no early exit after the lengths.\<close>

definition constant_time_eq :: "8 word list \<Rightarrow> 8 word list \<Rightarrow> bool" where
  "constant_time_eq left right =
     (if length left \<noteq> length right then False
      else fold (\<lambda>(l, r) difference. difference OR (l XOR r)) (zip left right) 0 = 0)"

lemma or_eq_0: "(a OR b = (0 :: 'a::len word)) \<longleftrightarrow> a = 0 \<and> b = 0"
  by (metis or.right_neutral or_eq_0_iff)

lemma xor_eq_0: "(a XOR b = (0 :: 'a::len word)) \<longleftrightarrow> a = b"
  by (metis xor.assoc xor.left_neutral xor_self_eq)

text \<open>The bytes of a string, as \<^theory_text>\<open>u8\<close> values.\<close>

definition as_bytes :: "ustr \<Rightarrow> 8 word list" where
  "as_bytes s = map word_of_nat (utf8_encode s)"

subsection \<open>Frames\<close>

record bounded_buffer =
  bb_bytes :: bytes
  bb_limit :: nat
  bb_overflowed :: bool

definition bounded_buffer_new :: "nat \<Rightarrow> bounded_buffer" where
  "bounded_buffer_new limit = \<lparr>bb_bytes = [], bb_limit = limit, bb_overflowed = False\<rparr>"

text \<open>\<^theory_text>\<open>write\<close>: the piece is kept, or the buffer overflows and the write fails.\<close>

definition bounded_write :: "bytes \<Rightarrow> bounded_buffer \<Rightarrow> bool \<times> bounded_buffer" where
  "bounded_write piece buf =
     (if bb_limit buf < length (bb_bytes buf) + length piece then
        (False, buf\<lparr>bb_overflowed := True\<rparr>)
      else (True, buf\<lparr>bb_bytes := bb_bytes buf @ piece\<rparr>))"

fun write_pieces :: "bytes list \<Rightarrow> bounded_buffer \<Rightarrow> bool \<times> bounded_buffer" where
  "write_pieces [] buf = (True, buf)"
| "write_pieces (piece # pieces) buf =
     (case bounded_write piece buf of
        (False, buf') \<Rightarrow> (False, buf')
      | (True, buf') \<Rightarrow> write_pieces pieces buf')"

record 'j broker_response =
  br_protocol :: ustr
  br_id :: ustr
  br_ok :: bool
  br_result :: "'j option"
  br_error :: "'j option"

definition encode_response ::
  "('j broker_response \<Rightarrow> bytes list \<times> bool) \<Rightarrow> 'j broker_response \<Rightarrow> broker_error + bytes" where
  "encode_response serialize response =
     (case write_pieces (fst (serialize response)) (bounded_buffer_new (max_frame_bytes - 1)) of
        (written, buf) \<Rightarrow>
          if written \<and> snd (serialize response) then Inr (bb_bytes buf @ [10])
          else Inl (if bb_overflowed buf then Frame_Too_Large else Malformed))"

definition encode_response_or_bounded_error ::
  "('j broker_response \<Rightarrow> bytes list \<times> bool) \<Rightarrow> (ustr \<Rightarrow> ustr \<Rightarrow> 'j) \<Rightarrow> 'j broker_response \<Rightarrow>
   broker_error + bytes \<times> bool" where
  "encode_response_or_bounded_error serialize error_json response =
     (case encode_response serialize response of
        Inr frame \<Rightarrow> Inr (frame, br_ok response)
      | Inl Frame_Too_Large \<Rightarrow>
          (case encode_response serialize
             \<lparr>br_protocol = broker_protocol, br_id = br_id response, br_ok = False, br_result = None,
              br_error = Some (error_json (lit ''frame_too_large'')
                (lit ''tool response exceeded the bounded broker frame''))\<rparr> of
             Inr frame \<Rightarrow> Inr (frame, False)
           | Inl e \<Rightarrow> Inl e)
      | Inl e \<Rightarrow> Inl e)"

text \<open>The barrier is serialized whole; \<open>barrier\<close> is what \<^theory_text>\<open>to_vec\<close> gives for the identifier.\<close>

definition encode_commit_barrier :: "(ustr \<Rightarrow> bytes option) \<Rightarrow> ustr \<Rightarrow> broker_error + bytes" where
  "encode_commit_barrier barrier i =
     (case barrier i of
        None \<Rightarrow> Inl Malformed
      | Some frame \<Rightarrow>
          if max_frame_bytes \<le> length frame then Inl Frame_Too_Large else Inr (frame @ [10]))"

text \<open>
  \<^theory_text>\<open>read_until\<close> a newline on the first \<^theory_text>\<open>MAX_FRAME_BYTES + 1\<close> bytes the peer sends, then the checks that the request and
  the acknowledgement share. The rest of the stream stays in the reader.
\<close>

definition read_until_newline :: "bytes \<Rightarrow> bytes" where
  "read_until_newline stream =
     (let limited = take (max_frame_bytes + 1) stream in
      takeWhile (\<lambda>b. b \<noteq> 10) limited @ (if 10 \<in> set limited then [10] else []))"

definition read_frame :: "ustr option \<Rightarrow> bytes \<Rightarrow> broker_error + bytes \<times> bytes" where
  "read_frame failure stream =
     (case failure of
        Some e \<Rightarrow> Inl (Broker_Io e)
      | None \<Rightarrow>
          let frame = read_until_newline stream in
          if frame = [] \<or> last frame \<noteq> 10 then Inl Malformed
          else if max_frame_bytes < length frame then Inl Frame_Too_Large
          else
            let line = butlast frame in
            Inr (if line \<noteq> [] \<and> last line = 13 then butlast line else line,
                 drop (length frame) stream))"

subsection \<open>Requests\<close>

record 'j broker_request =
  rq_protocol :: ustr
  rq_id :: ustr
  rq_token :: ustr
  rq_method :: ustr
  rq_params :: 'j

record broker_ack =
  ak_protocol :: ustr
  ak_id :: ustr
  ak_delivered :: bool

text \<open>
  What \<^theory_text>\<open>execute_request\<close> does before it calls the executor: the checks of the request and the
  reservation of the transaction.
\<close>

definition admit_request ::
  "'j broker_request \<Rightarrow> ustr \<Rightarrow> tool_policy \<Rightarrow> transaction_cardinality \<Rightarrow>
   ustr \<times> broker_error + tool_method \<times> transaction_cardinality" where
  "admit_request request expected_token policy c =
     (let i = rq_id request in
      if i = [] \<or> 256 < byte_len i \<or> list_ex (\<lambda>ch. ch \<in> {10, 13, 0}) i then
        Inl (lit ''invalid-request-id'', Malformed)
      else if rq_protocol request \<noteq> broker_protocol then Inl (i, Malformed)
      else if \<not> constant_time_eq (as_bytes (rq_token request)) (as_bytes expected_token) then
        Inl (i, Authentication)
      else
        (case tool_method_parse (rq_method request) of
           None \<Rightarrow> Inl (i, Method_Denied)
         | Some m \<Rightarrow>
             (case enforce_policy policy m of
                Inl e \<Rightarrow> Inl (i, e)
              | Inr _ \<Rightarrow>
                  (case consume m policy c of
                     Inl e \<Rightarrow> Inl (i, e)
                   | Inr c' \<Rightarrow> Inr (m, c')))))"

definition read_delivery_ack ::
  "(bytes \<Rightarrow> broker_ack option) \<Rightarrow> ustr option \<Rightarrow> bytes \<Rightarrow> ustr \<Rightarrow> broker_error + unit" where
  "read_delivery_ack parse_ack failure stream expected_id =
     (case read_frame failure stream of
        Inl e \<Rightarrow> Inl e
      | Inr (line, _) \<Rightarrow>
          (case parse_ack line of
             None \<Rightarrow> Inl Malformed
           | Some ack \<Rightarrow>
               if ak_protocol ack \<noteq> broker_protocol \<or> ak_id ack \<noteq> expected_id \<or> \<not> ak_delivered ack
               then Inl Malformed else Inr ()))"

subsection \<open>One connection\<close>

text \<open>
  What a connection meets: what the peer sends, whether the peer goes away before the executor has
  answered, the executor's answer, and the failures of reading and writing (timeouts
  included).
\<close>

record 'j connection =
  cn_stream :: bytes
  cn_request_failure :: "ustr option"
  cn_disconnected :: bool
  cn_answer :: "broker_error + 'j"
  cn_write_failure :: "ustr option"
  cn_ack_failure :: "ustr option"
  cn_barrier_failure :: "ustr option"

datatype conn_event =
  Executed tool_method | Delivery_Discarded | Delivery_Committed | Response_Written bool | Barrier_Written

datatype reservation_outcome =
  Not_Reserved | Reservation_Committed tool_method | Reservation_Rolled_Back tool_method

text \<open>The end of a connection once the response has been chosen.\<close>

definition finish_connection ::
  "(bytes \<Rightarrow> broker_ack option) \<Rightarrow> (ustr \<Rightarrow> bytes option) \<Rightarrow> 'j connection \<Rightarrow> bytes \<Rightarrow> ustr \<Rightarrow> bool \<Rightarrow>
   tool_method option \<Rightarrow> (broker_error + unit) \<times> conn_event list \<times> reservation_outcome" where
  "finish_connection parse_ack barrier cn rest response_id delivered_success held =
     (let events = (if delivered_success then [] else [Delivery_Discarded]);
          transaction = (if delivered_success then held else None);
          dropped = (case held of None \<Rightarrow> Not_Reserved | Some m \<Rightarrow> Reservation_Rolled_Back m) in
      case cn_write_failure cn of
        Some e \<Rightarrow> (Inl (Broker_Io e), events @ [Delivery_Discarded], dropped)
      | None \<Rightarrow>
          let events = events @ [Response_Written delivered_success] in
          (case read_delivery_ack parse_ack (cn_ack_failure cn) rest response_id of
             Inl e \<Rightarrow> (Inl e, events @ [Delivery_Discarded], dropped)
           | Inr _ \<Rightarrow>
               let events = events @ (if transaction = None then [] else [Delivery_Committed]);
                   outcome = (case transaction of
                      None \<Rightarrow> dropped | Some m \<Rightarrow> Reservation_Committed m) in
               (case encode_commit_barrier barrier response_id of
                  Inl e \<Rightarrow> (Inl e, events, outcome)
                | Inr _ \<Rightarrow>
                    (case cn_barrier_failure cn of
                       Some e \<Rightarrow> (Inl (Broker_Io e), events, outcome)
                     | None \<Rightarrow> (Inr (), events @ [Barrier_Written], outcome)))))"

definition deliver_response ::
  "(bytes \<Rightarrow> broker_ack option) \<Rightarrow> ('j broker_response \<Rightarrow> bytes list \<times> bool) \<Rightarrow>
   (ustr \<Rightarrow> ustr \<Rightarrow> 'j) \<Rightarrow> (ustr \<Rightarrow> bytes option) \<Rightarrow> 'j connection \<Rightarrow> bytes \<Rightarrow> 'j broker_response \<Rightarrow>
   tool_method option \<Rightarrow> (broker_error + unit) \<times> conn_event list \<times> reservation_outcome" where
  "deliver_response parse_ack serialize error_json barrier cn rest response held =
     (case encode_response_or_bounded_error serialize error_json response of
        Inl e \<Rightarrow> (Inl e, [Delivery_Discarded],
          (case held of None \<Rightarrow> Not_Reserved | Some m \<Rightarrow> Reservation_Rolled_Back m))
      | Inr (_, delivered_success) \<Rightarrow>
          finish_connection parse_ack barrier cn rest (br_id response) delivered_success held)"

definition error_response :: "(ustr \<Rightarrow> ustr \<Rightarrow> 'j) \<Rightarrow> ustr \<Rightarrow> broker_error \<Rightarrow> 'j broker_response" where
  "error_response error_json i e =
     \<lparr>br_protocol = broker_protocol, br_id = i, br_ok = False, br_result = None,
      br_error = Some (error_json (error_code e) (broker_error_message e))\<rparr>"

definition success_response :: "ustr \<Rightarrow> 'j \<Rightarrow> 'j broker_response" where
  "success_response i v =
     \<lparr>br_protocol = broker_protocol, br_id = i, br_ok = True, br_result = Some v, br_error = None\<rparr>"

text \<open>
  A peer that goes away only matters while the executor is working: a refused request is answered
  at once.
\<close>

definition handle_connection ::
  "(bytes \<Rightarrow> 'j broker_request option) \<Rightarrow> (bytes \<Rightarrow> broker_ack option) \<Rightarrow>
   ('j broker_response \<Rightarrow> bytes list \<times> bool) \<Rightarrow> (ustr \<Rightarrow> ustr \<Rightarrow> 'j) \<Rightarrow> (ustr \<Rightarrow> bytes option) \<Rightarrow>
   ustr \<Rightarrow> tool_policy \<Rightarrow> transaction_cardinality \<Rightarrow> 'j connection \<Rightarrow>
   (broker_error + unit) \<times> conn_event list \<times> reservation_outcome" where
  "handle_connection parse_request parse_ack serialize error_json barrier expected_token policy c cn =
     (case read_frame (cn_request_failure cn) (cn_stream cn) of
        Inl e \<Rightarrow> (Inl e, [], Not_Reserved)
      | Inr (line, rest) \<Rightarrow>
          (case parse_request line of
             None \<Rightarrow> (Inl Malformed, [], Not_Reserved)
           | Some request \<Rightarrow>
               (case admit_request request expected_token policy c of
                  Inl (i, e) \<Rightarrow>
                    (case deliver_response parse_ack serialize error_json barrier cn rest
                        (error_response error_json i e) None of
                       (res, later, outcome) \<Rightarrow> (res, Delivery_Discarded # later, outcome))
                | Inr (m, _) \<Rightarrow>
                    if cn_disconnected cn then
                      (Inr (), [Executed m, Delivery_Discarded], Reservation_Rolled_Back m)
                    else
                      (case cn_answer cn of
                         Inl e \<Rightarrow>
                           (case deliver_response parse_ack serialize error_json barrier cn rest
                               (error_response error_json (rq_id request) e) None of
                              (res, later, _) \<Rightarrow>
                                (res, Executed m # Delivery_Discarded # later,
                                 Reservation_Rolled_Back m))
                       | Inr v \<Rightarrow>
                           (case deliver_response parse_ack serialize error_json barrier cn rest
                               (success_response (rq_id request) v) (Some m) of
                              (res, later, outcome) \<Rightarrow> (res, Executed m # later, outcome))))))"

end
