(* ===== verification/Broker_Safety.thy ===== *)
theory Broker_Safety
  imports Broker
begin

text \<open>
  What holds of the tool broker: the token comparison is equality, the bounded encoder is the
  serializer cut at the frame limit, no budget is exceeded however the connections of a turn
  interleave, the executor is only reached through every check, and a delivery is committed or
  discarded, never both, and committed with its reservation.
\<close>

subsection \<open>Tokens\<close>

lemma fold_difference:
  "length l = length r \<Longrightarrow>
   fold (\<lambda>(l, r) difference. difference OR (l XOR r)) (zip l r) d = 0 \<longleftrightarrow> d = (0 :: 'a::len word) \<and> l = r"
  by (induction l r arbitrary: d rule: list_induct2) (auto simp: or_eq_0 xor_eq_0)

lemma constant_time_eq_iff: "constant_time_eq left right \<longleftrightarrow> left = right"
  by (auto simp: constant_time_eq_def fold_difference)

lemma utf8_char_byte: "is_scalar c \<Longrightarrow> b \<in> set (utf8_char c) \<Longrightarrow> b < 256"
  by (auto simp: utf8_char_def is_scalar_def split: if_splits)

lemma utf8_encode_byte: "list_all is_scalar s \<Longrightarrow> b \<in> set (utf8_encode s) \<Longrightarrow> b < 256"
  by (auto simp: utf8_encode_def list_all_iff intro: utf8_char_byte)

lemma inj_on_byte: "inj_on (word_of_nat :: nat \<Rightarrow> 8 word) {b. b < 256}"
proof (rule inj_onI)
  fix a b :: nat
  assume "a \<in> {b. b < 256}" "b \<in> {b. b < 256}" "(word_of_nat a :: 8 word) = word_of_nat b"
  then show "a = b"
    by (simp add: word_of_nat_eq_iff take_bit_nat_def)
qed

lemma as_bytes_inj:
  assumes "list_all is_scalar s" "list_all is_scalar t"
  shows "as_bytes s = as_bytes t \<longleftrightarrow> s = t"
proof
  assume "as_bytes s = as_bytes t"
  moreover have "inj_on (word_of_nat :: nat \<Rightarrow> 8 word) (set (utf8_encode s) \<union> set (utf8_encode t))"
    using utf8_encode_byte [OF assms(1)] utf8_encode_byte [OF assms(2)]
    by (intro inj_on_subset [OF inj_on_byte]) auto
  ultimately have "utf8_encode s = utf8_encode t"
    by (simp add: as_bytes_def map_inj_on)
  then show "s = t" using utf8_encode_inj [OF assms] by simp
qed simp

text \<open>The comparison of tokens, which never stops early, accepts exactly the expected token.
\<close>

lemma token_comparison_exact:
  assumes "list_all is_scalar token" and "list_all is_scalar expected"
  shows "constant_time_eq (as_bytes token) (as_bytes expected) \<longleftrightarrow> token = expected"
  by (simp add: constant_time_eq_iff as_bytes_inj [OF assms])

lemma token_comparison_exact_witness:
  "\<not> constant_time_eq (as_bytes (lit ''0123'')) (as_bytes (lit ''0124''))"
  using token_comparison_exact [of "lit ''0123''" "lit ''0124''"]
  by (simp add: lit_def is_scalar_def)

subsection \<open>Frames\<close>

lemma write_pieces_ok:
  "length (bb_bytes buf) + length (concat pieces) \<le> bb_limit buf \<Longrightarrow>
   write_pieces pieces buf = (True, buf\<lparr>bb_bytes := bb_bytes buf @ concat pieces\<rparr>)"
  by (induction pieces arbitrary: buf) (auto simp: bounded_write_def)

lemma write_pieces_overflow:
  "bb_limit buf < length (bb_bytes buf) + length (concat pieces) \<Longrightarrow>
   length (bb_bytes buf) \<le> bb_limit buf \<Longrightarrow>
   \<exists>buf'. write_pieces pieces buf = (False, buf') \<and> bb_overflowed buf'"
  by (induction pieces arbitrary: buf) (auto simp: bounded_write_def)

lemma write_pieces_flag:
  "length (bb_bytes buf) + length (concat pieces) \<le> bb_limit buf \<Longrightarrow>
   bb_overflowed (snd (write_pieces pieces buf)) = bb_overflowed buf"
  by (simp add: write_pieces_ok)

text \<open>The response is what the serializer writes followed by a newline when the whole fits the frame
  limit, and is refused as too large otherwise, wherever the pieces it is written in are cut;
  so a frame is never longer than the limit.
\<close>

lemma encode_response_bounded:
  "encode_response serialize response =
     (let payload = concat (fst (serialize response)) in
      if max_frame_bytes \<le> length payload then Inl Frame_Too_Large
      else if snd (serialize response) then Inr (payload @ [10]) else Inl Malformed)"
proof (cases "max_frame_bytes \<le> length (concat (fst (serialize response)))")
  case True
  moreover have "0 < max_frame_bytes" by (simp add: max_frame_bytes_def)
  ultimately have "bb_limit (bounded_buffer_new (max_frame_bytes - 1)) <
      length (bb_bytes (bounded_buffer_new (max_frame_bytes - 1))) +
      length (concat (fst (serialize response)))"
    unfolding bounded_buffer_new_def by simp
  from write_pieces_overflow [OF this] True show ?thesis
    by (auto simp: encode_response_def bounded_buffer_new_def Let_def)
next
  case False
  then show ?thesis
    using write_pieces_ok [of "bounded_buffer_new (max_frame_bytes - 1)" "fst (serialize response)"]
    by (simp add: encode_response_def bounded_buffer_new_def Let_def)
qed

subsection \<open>Budgets under interleaving\<close>

text \<open>
  A budget: \<open>used\<close> counts the transactions of one class that are held or committed. Taking one
  is refused at the limit, giving one back lowers the count.
\<close>

locale budget =
  fixes used :: "'c \<Rightarrow> nat"
    and counts :: "'m \<Rightarrow> bool"
    and limit :: nat
    and consume1 :: "'m \<Rightarrow> 'c \<Rightarrow> 'e + 'c"
    and rollback1 :: "'m \<Rightarrow> 'c \<Rightarrow> 'c"
  assumes consume_used: "consume1 m c = Inr c' \<Longrightarrow> used c' = (if counts m then used c + 1 else used c)"
    and consume_limit: "consume1 m c = Inr c' \<Longrightarrow> counts m \<Longrightarrow> used c < limit"
    and rollback_used: "used (rollback1 m c) = (if counts m then used c - 1 else used c)"
begin

definition accounted :: "'c \<Rightarrow> 'm list \<Rightarrow> 'm list \<Rightarrow> bool" where
  "accounted c held committed \<longleftrightarrow>
     used c = length (filter counts held) + length (filter counts committed) \<and> used c \<le> limit"

lemma accounted_reserve:
  "accounted c held committed \<Longrightarrow> consume1 m c = Inr c' \<Longrightarrow> accounted c' (m # held) committed"
  using consume_used [of m c c'] consume_limit [of m c c'] by (auto simp: accounted_def)

lemma accounted_commit:
  "accounted c (xs @ m # ys) committed \<Longrightarrow> accounted c (xs @ ys) (m # committed)"
  by (cases "counts m") (auto simp: accounted_def)

lemma accounted_rollback:
  "accounted c (xs @ m # ys) committed \<Longrightarrow> accounted (rollback1 m c) (xs @ ys) committed"
  by (cases "counts m") (auto simp: accounted_def rollback_used)

end

lemma unat_saturating_pred: "unat (saturating_pred w) = unat w - 1"
  by (auto simp: saturating_pred_def unat_minus_one)

lemma unat_add1: "unat (w :: 8 word) < k \<Longrightarrow> k \<le> 255 \<Longrightarrow> unat (w + 1) = Suc (unat w)"
  by (simp add: unat_word_ariths)

lemma byte_limit: "unat (w :: 8 word) \<le> 255"
proof -
  have "unat w < 2 ^ 8" using unsigned_less [of w] by simp
  then show ?thesis by simp
qed

lemma unat_zero_add1: "unat (w :: 8 word) = 0 \<Longrightarrow> unat (w + 1) = Suc 0"
  using unat_add1 [of w 1] by simp

interpretation decision_budget:
  budget "\<lambda>c. unat (decisions c)" "\<lambda>m. m = Decision_Submit" 1 "\<lambda>m. consume m policy" rollback
  for policy
  by unfold_locales
    (auto simp: consume_def exhausted_def rollback_def unat_saturating_pred not_le word_less_nat_alt
      split: if_splits tool_method.splits intro: unat_zero_add1)

interpretation evidence_budget:
  budget "\<lambda>c. unat (evidence_creations c)" "\<lambda>m. m = Evidence_Create" 3 "\<lambda>m. consume m policy" rollback
  for policy
  by unfold_locales
    (auto simp: consume_def exhausted_def rollback_def unat_saturating_pred not_le word_less_nat_alt
      split: if_splits tool_method.splits intro: unat_add1 [of _ 3])

interpretation proposal_budget:
  budget "\<lambda>c. unat (proposals c)" "\<lambda>m. m = Memory_Patch_Propose" "unat (memory_proposal_budget policy)"
    "\<lambda>m. consume m policy" rollback
  for policy
  by unfold_locales
    (auto simp: consume_def exhausted_def rollback_def unat_saturating_pred not_le word_less_nat_alt
      split: if_splits tool_method.splits intro: unat_add1 [OF _ byte_limit])

interpretation publish_budget:
  budget "\<lambda>c. unat (artifact_publishes c)" "\<lambda>m. m = Artifact_Publish \<or> m = Chart_Publish"
    max_chat_turn_artifacts "\<lambda>m. consume m policy" rollback
  for policy
  by unfold_locales
    (auto simp: consume_def exhausted_def rollback_def unat_saturating_pred not_le word_less_nat_alt
      max_chat_turn_artifacts_def split: if_splits tool_method.splits intro: unat_add1 [of _ 4])

text \<open>
  The connections of one turn share the cardinality under a mutex: reserving, committing and rolling
  back are atomic, and the connections do them in any order.
\<close>

record broker_turn =
  bt_cardinality :: transaction_cardinality
  bt_held :: "tool_method list"
  bt_committed :: "tool_method list"

inductive turn_step :: "tool_policy \<Rightarrow> broker_turn \<Rightarrow> broker_turn \<Rightarrow> bool" for policy where
  reserve: "consume m policy (bt_cardinality s) = Inr c \<Longrightarrow>
    turn_step policy s (s\<lparr>bt_cardinality := c, bt_held := m # bt_held s\<rparr>)"
| commit: "bt_held s = xs @ m # ys \<Longrightarrow>
    turn_step policy s (s\<lparr>bt_held := xs @ ys, bt_committed := m # bt_committed s\<rparr>)"
| give_back: "bt_held s = xs @ m # ys \<Longrightarrow>
    turn_step policy s (s\<lparr>bt_cardinality := rollback m (bt_cardinality s), bt_held := xs @ ys\<rparr>)"

definition turn_start :: broker_turn where
  "turn_start = \<lparr>bt_cardinality = cardinality_default, bt_held = [], bt_committed = []\<rparr>"

definition turn_reaches :: "tool_policy \<Rightarrow> broker_turn \<Rightarrow> bool" where
  "turn_reaches policy = (turn_step policy)\<^sup>*\<^sup>* turn_start"

inductive_cases turn_stepE: "turn_step policy s s'"

definition turn_inv :: "tool_policy \<Rightarrow> broker_turn \<Rightarrow> bool" where
  "turn_inv policy s \<longleftrightarrow>
     decision_budget.accounted (bt_cardinality s) (bt_held s) (bt_committed s) \<and>
     evidence_budget.accounted (bt_cardinality s) (bt_held s) (bt_committed s) \<and>
     proposal_budget.accounted policy (bt_cardinality s) (bt_held s) (bt_committed s) \<and>
     publish_budget.accounted (bt_cardinality s) (bt_held s) (bt_committed s)"

lemmas accounted_defs =
  decision_budget.accounted_def evidence_budget.accounted_def proposal_budget.accounted_def
  publish_budget.accounted_def

lemma turn_inv_start: "turn_inv policy turn_start"
  unfolding turn_inv_def turn_start_def accounted_defs cardinality_default_def by simp

lemma turn_inv_step: "turn_step policy s s' \<Longrightarrow> turn_inv policy s \<Longrightarrow> turn_inv policy s'"
proof (induction rule: turn_step.induct)
  case (reserve m s c)
  then show ?case
    using decision_budget.accounted_reserve [where policy = policy]
      evidence_budget.accounted_reserve [where policy = policy]
      proposal_budget.accounted_reserve [where policy = policy]
      publish_budget.accounted_reserve [where policy = policy]
    by (simp add: turn_inv_def) blast
next
  case (commit s xs m ys)
  then show ?case
    using decision_budget.accounted_commit evidence_budget.accounted_commit
      proposal_budget.accounted_commit publish_budget.accounted_commit
    by (simp add: turn_inv_def)
next
  case (give_back s xs m ys)
  then show ?case
    using decision_budget.accounted_rollback evidence_budget.accounted_rollback
      proposal_budget.accounted_rollback publish_budget.accounted_rollback
    by (simp add: turn_inv_def)
qed

lemma turn_inv_reached: "turn_reaches policy s \<Longrightarrow> turn_inv policy s"
  unfolding turn_reaches_def
  by (induction rule: rtranclp_induct) (simp_all add: turn_inv_start turn_inv_step)

text \<open>
  C16: However the connections of a turn interleave, what they hold and have committed together
  stays within the budgets: one decision, three pieces of evidence, the Memory proposals of the
  policy and four published artifacts; and each counter is exactly what is held or committed, so a
  transaction that was rolled back can be tried again.
\<close>

theorem budgets_respected:
  assumes "turn_reaches policy s"
  shows "let held_or_committed = (\<lambda>P. length (filter P (bt_held s @ bt_committed s))) in
    held_or_committed (\<lambda>m. m = Decision_Submit) \<le> 1 \<and>
    held_or_committed (\<lambda>m. m = Evidence_Create) \<le> 3 \<and>
    held_or_committed (\<lambda>m. m = Memory_Patch_Propose) \<le> unat (memory_proposal_budget policy) \<and>
    held_or_committed (\<lambda>m. m = Artifact_Publish \<or> m = Chart_Publish) \<le> max_chat_turn_artifacts \<and>
    unat (decisions (bt_cardinality s)) = held_or_committed (\<lambda>m. m = Decision_Submit) \<and>
    unat (evidence_creations (bt_cardinality s)) = held_or_committed (\<lambda>m. m = Evidence_Create) \<and>
    unat (proposals (bt_cardinality s)) = held_or_committed (\<lambda>m. m = Memory_Patch_Propose) \<and>
    unat (artifact_publishes (bt_cardinality s)) =
      held_or_committed (\<lambda>m. m = Artifact_Publish \<or> m = Chart_Publish)"
  using turn_inv_reached [OF assms] unfolding turn_inv_def accounted_defs Let_def by simp

definition sample_policy :: tool_policy where
  "sample_policy = \<lparr>tp_guru_id = lit ''guru-a'', tp_session_id = lit ''chat-a'', use_memory = True,
     propose_memory_updates = True, memory_proposal_budget = 1, tp_as_of = None\<rparr>"

lemma budgets_respected_witness:
  "\<exists>s. turn_reaches sample_policy s \<and> bt_committed s = [Decision_Submit] \<and>
     unat (decisions (bt_cardinality s)) = 1"
proof -
  let ?c = "cardinality_default\<lparr>decisions := 1\<rparr>"
  let ?s1 = "turn_start\<lparr>bt_cardinality := ?c, bt_held := Decision_Submit # bt_held turn_start\<rparr>"
  let ?s2 = "?s1\<lparr>bt_held := [] @ [], bt_committed := Decision_Submit # bt_committed ?s1\<rparr>"
  have "consume Decision_Submit sample_policy (bt_cardinality turn_start) = Inr ?c"
    by code_simp
  then have s1: "turn_step sample_policy turn_start ?s1" by (rule turn_step.reserve)
  have s2: "turn_step sample_policy ?s1 ?s2"
    by (rule turn_step.commit) (simp add: turn_start_def)
  have r: "turn_reaches sample_policy ?s2"
    unfolding turn_reaches_def
    by (rule rtranclp.rtrancl_into_rtrancl [OF r_into_rtranclp [of "turn_step sample_policy", OF s1] s2])
  have "unat (decisions (bt_cardinality ?s2)) = 1"
    using budgets_respected [OF r] by (simp add: Let_def turn_start_def)
  then show ?thesis using r by (intro exI [of _ ?s2]) (simp add: turn_start_def)
qed

subsection \<open>One connection\<close>

lemma admit_request_Inr:
  "admit_request request expected policy c = Inr (m, c') \<Longrightarrow>
   rq_id request \<noteq> [] \<and> byte_len (rq_id request) \<le> 256 \<and> rq_protocol request = broker_protocol \<and>
   as_bytes (rq_token request) = as_bytes expected \<and>
   tool_method_parse (rq_method request) = Some m \<and> enforce_policy policy m = Inr () \<and>
   consume m policy c = Inr c'"
  unfolding admit_request_def Let_def constant_time_eq_iff
  by (simp split: if_split_asm option.split_asm sum.split_asm)

lemma finish_connection_events:
  assumes "finish_connection parse_ack barrier cn rest i ok held = (res, events, outcome)"
  shows "(\<forall>m. Executed m \<notin> set events) \<and>
    (held = None \<longrightarrow> outcome = Not_Reserved \<and> Delivery_Committed \<notin> set events) \<and>
    (\<forall>m. held = Some m \<longrightarrow>
       outcome = Reservation_Committed m \<and> Delivery_Discarded \<notin> set events \<and>
         Response_Written True \<in> set events \<and> count_list events Delivery_Committed = 1 \<or>
       outcome = Reservation_Rolled_Back m \<and> Delivery_Discarded \<in> set events \<and>
         Delivery_Committed \<notin> set events)"
  using assms
  by (auto simp: finish_connection_def Let_def split: option.splits sum.splits if_splits)

lemma deliver_response_events:
  assumes "deliver_response parse_ack serialize error_json barrier cn rest response held =
    (res, events, outcome)"
  shows "(\<forall>m. Executed m \<notin> set events) \<and>
    (held = None \<longrightarrow> outcome = Not_Reserved \<and> Delivery_Committed \<notin> set events) \<and>
    (\<forall>m. held = Some m \<longrightarrow>
       outcome = Reservation_Committed m \<and> Delivery_Discarded \<notin> set events \<and>
         Response_Written True \<in> set events \<and> count_list events Delivery_Committed = 1 \<or>
       outcome = Reservation_Rolled_Back m \<and> Delivery_Discarded \<in> set events \<and>
         Delivery_Committed \<notin> set events)"
  using assms finish_connection_events
  by (fastforce simp: deliver_response_def split: sum.splits prod.splits option.splits)

lemma handle_connection_cases:
  assumes "handle_connection parse_request parse_ack serialize error_json barrier expected policy c cn =
    (res, events, outcome)"
  obtains (refused) "Delivery_Committed \<notin> set events" "outcome = Not_Reserved"
      "\<forall>m. Executed m \<notin> set events"
  | (ran) line rest request m c' later where
      "read_frame (cn_request_failure cn) (cn_stream cn) = Inr (line, rest)"
      "parse_request line = Some request"
      "admit_request request expected policy c = Inr (m, c')"
      "events = Executed m # later" "\<forall>m. Executed m \<notin> set later"
      "outcome = Reservation_Committed m \<and> Delivery_Discarded \<notin> set events \<and>
         Response_Written True \<in> set events \<and> count_list events Delivery_Committed = 1 \<or>
       outcome = Reservation_Rolled_Back m \<and> Delivery_Discarded \<in> set events \<and>
         Delivery_Committed \<notin> set events"
proof -
  note d = deliver_response_events
  show thesis
  proof (cases "read_frame (cn_request_failure cn) (cn_stream cn)")
    case (Inr lr)
    obtain line rest where lr: "lr = (line, rest)" by (cases lr)
    show thesis
    proof (cases "parse_request line")
      case (Some request)
      show thesis
      proof (cases "admit_request request expected policy c")
        case (Inl ie)
        obtain i e where "ie = (i, e)" by (cases ie)
        then show thesis
          using assms Inr lr Some Inl d [of parse_ack serialize error_json barrier cn rest
              "error_response error_json i e" None] refused
          by (auto simp: handle_connection_def split: prod.splits)
      next
        case adm: (Inr mc)
        obtain m c' where mc: "mc = (m, c')" by (cases mc)
        note run = ran [OF Inr [unfolded lr] Some adm [unfolded mc]]
        show thesis
        proof (cases "cn_disconnected cn")
          case True
          then show thesis
            using assms Inr lr Some adm mc
            by (intro run [of "[Delivery_Discarded]"]) (auto simp: handle_connection_def)
        next
          case False
          then show thesis
          proof (cases "cn_answer cn")
            case (Inl e)
            obtain r later out where dr: "deliver_response parse_ack serialize error_json barrier cn rest
                (error_response error_json (rq_id request) e) None = (r, later, out)"
              by (metis prod.exhaust)
            show thesis
              using assms Inr lr Some adm mc False Inl dr d [OF dr]
              by (intro run [of "Delivery_Discarded # later"]) (auto simp: handle_connection_def)
          next
            case ok: (Inr v)
            obtain r later out where dr: "deliver_response parse_ack serialize error_json barrier cn rest
                (success_response (rq_id request) v) (Some m) = (r, later, out)"
              by (metis prod.exhaust)
            show thesis
              using assms Inr lr Some adm mc False ok dr d [OF dr]
              by (intro run [of later]) (auto simp: handle_connection_def)
          qed
        qed
      qed
    qed (use assms Inr lr refused in \<open>auto simp: handle_connection_def\<close>)
  qed (use assms refused in \<open>auto simp: handle_connection_def\<close>)
qed

text \<open>
  C17: A delivery is committed at most once, and exactly when the connection's reservation is kept;
  then the executor ran, its response was written whole and nothing was discarded. A connection
  whose tool ran without being committed discards the delivery and gives the reservation back. The
  tool runs only for a request with the expected token and protocol, an allowed
  method, a policy that permits it and a budget that is not exhausted.
\<close>

theorem delivery_exactly_once:
  assumes "handle_connection parse_request parse_ack serialize error_json barrier expected policy c cn =
    (res, events, outcome)"
  shows "(Delivery_Committed \<in> set events \<longleftrightarrow> (\<exists>m. outcome = Reservation_Committed m)) \<and>
    count_list events Delivery_Committed \<le> 1 \<and>
    (Delivery_Committed \<in> set events \<longrightarrow>
       Delivery_Discarded \<notin> set events \<and> Response_Written True \<in> set events) \<and>
    (\<forall>m. Executed m \<in> set events \<longrightarrow>
       outcome = Reservation_Committed m \<or>
       outcome = Reservation_Rolled_Back m \<and> Delivery_Discarded \<in> set events) \<and>
    (\<forall>m. Executed m \<in> set events \<longrightarrow>
       (\<exists>line rest request. read_frame None (cn_stream cn) = Inr (line, rest) \<and>
          parse_request line = Some request \<and>
          as_bytes (rq_token request) = as_bytes expected \<and> rq_protocol request = broker_protocol \<and>
          tool_method_parse (rq_method request) = Some m \<and> enforce_policy policy m = Inr () \<and>
          \<not> exhausted m policy c))"
  using assms
proof (cases rule: handle_connection_cases)
  case (ran line rest request m c' later)
  then have adm: "as_bytes (rq_token request) = as_bytes expected" "rq_protocol request = broker_protocol"
      "tool_method_parse (rq_method request) = Some m" "enforce_policy policy m = Inr ()"
      "\<not> exhausted m policy c"
    using admit_request_Inr by (fastforce simp: consume_def split: if_splits)+
  have "cn_request_failure cn = None"
    using ran(1) by (cases "cn_request_failure cn") (auto simp: read_frame_def)
  then have read: "read_frame None (cn_stream cn) = Inr (line, rest)" using ran(1) by simp
  have only: "Executed m' \<in> set events \<longleftrightarrow> m' = m" for m' using ran(4,5) by auto
  have ex: "\<exists>line rest request. read_frame None (cn_stream cn) = Inr (line, rest) \<and>
      parse_request line = Some request \<and>
      as_bytes (rq_token request) = as_bytes expected \<and> rq_protocol request = broker_protocol \<and>
      tool_method_parse (rq_method request) = Some m \<and> enforce_policy policy m = Inr () \<and>
      \<not> exhausted m policy c"
    using adm read ran(2) by blast
  have in_set: "Delivery_Committed \<in> set events \<longleftrightarrow> count_list events Delivery_Committed \<noteq> 0"
    by (simp add: count_list_0_iff)
  show ?thesis
    using ran(6)
  proof (elim disjE conjE)
    assume "outcome = Reservation_Committed m" "Delivery_Discarded \<notin> set events"
      "Response_Written True \<in> set events" "count_list events Delivery_Committed = 1"
    then show ?thesis using ex by (simp add: only in_set)
  next
    assume "outcome = Reservation_Rolled_Back m" "Delivery_Discarded \<in> set events"
      "Delivery_Committed \<notin> set events"
    then show ?thesis using ex by (simp add: only count_list_0_iff)
  qed
qed (simp add: count_list_0_iff)

text \<open>A connection that calls \<open>web.search\<close> and acknowledges the answer; the format is one number per field.\<close>

definition sample_connection :: "nat connection" where
  "sample_connection = \<lparr>cn_stream = [1, 10, 2, 10], cn_request_failure = None, cn_disconnected = False,
     cn_answer = Inr 7, cn_write_failure = None, cn_ack_failure = None, cn_barrier_failure = None\<rparr>"

definition sample_request :: "nat broker_request" where
  "sample_request = \<lparr>rq_protocol = broker_protocol, rq_id = lit ''call-1'', rq_token = lit ''secret'',
     rq_method = lit ''web.search'', rq_params = 0\<rparr>"

lemma delivery_exactly_once_witness:
  "let run = handle_connection (\<lambda>_. Some sample_request)
       (\<lambda>_. Some \<lparr>ak_protocol = broker_protocol, ak_id = lit ''call-1'', ak_delivered = True\<rparr>)
       (\<lambda>_. ([[0]], True)) (\<lambda>_ _. 0) (\<lambda>_. Some [0]) (lit ''secret'') sample_policy
       cardinality_default sample_connection in
   fst (snd run) = [Executed Web_Search, Response_Written True, Delivery_Committed, Barrier_Written] \<and>
   snd (snd run) = Reservation_Committed Web_Search"
proof -
  let ?run = "handle_connection (\<lambda>_. Some sample_request)
       (\<lambda>_. Some \<lparr>ak_protocol = broker_protocol, ak_id = lit ''call-1'', ak_delivered = True\<rparr>)
       (\<lambda>_. ([[0]], True)) (\<lambda>_ _. 0) (\<lambda>_. Some [0]) (lit ''secret'') sample_policy
       cardinality_default sample_connection"
  have events: "fst (snd ?run) = [Executed Web_Search, Response_Written True, Delivery_Committed,
      Barrier_Written]"
    by code_simp
  moreover have "\<exists>m. snd (snd ?run) = Reservation_Committed m"
    using delivery_exactly_once [of _ _ _ _ _ _ _ _ _ "fst ?run" "fst (snd ?run)" "snd (snd ?run)"]
      events by (metis list.set_intros(1,2) prod.collapse)
  moreover have "snd (snd ?run) = Reservation_Committed Web_Search"
    by code_simp
  ultimately show ?thesis by (simp add: Let_def)
qed

end
