(* ===== verification/Memory_Files.thy ===== *)
theory Memory_Files
  imports Host_Base Memory_Kind Memory_Tree
begin

text \<open>
  The files that a Memory transaction works on (the Unix half of \<^theory_text>\<open>runtime/memory_apply.rs\<close>): the
  canonical Memory files, which anybody may edit at any time, and the artifacts of the transaction
  directory, which are private to the application.

  Every system call takes one \<open>turn\<close> of a script: what others wrote to Memory files before it,
  and whether it fails. A script that has run out stands for no interference and no failure. A
  rename that fails has had no effect; a write that fails may leave a prefix; a failed \<^theory_text>\<open>fsync\<close>
  leaves the files as they are. Two ghost fields record what the code destroyed for good, and
  whether a directory failed to sync.
\<close>

subsection \<open>Errors\<close>

datatype errno = Errno_Exist | Errno_Noent | Errno_Other ustr

datatype runtime_error =
  Missing_Runtime | Untrusted_Runtime | Not_Initialized | Invalid_Target | Before_Hash_Mismatch
| Proposed_Hash_Mismatch | Rollback_Conflict | Pending_Artifact | Runtime_Failed ustr
| Runtime_Timeout | Output_Too_Large | Memory_Boundary | Runtime_Io errno | Pinned_Root ustr
| Malformed_Output

subsection \<open>Files and system calls\<close>

datatype file_entry = Regular bytes | Symlink_Entry | Special_Entry

record turn =
  tn_edits :: "(ustr list \<times> file_entry option) list"
  tn_failure :: "ustr option"
  tn_partial :: nat

record memory_world =
  mw_targets :: "(ustr list, file_entry) btree"
  mw_artifacts :: "(ustr, file_entry) btree"
  mw_turns :: "turn list"
  mw_destroyed :: "bytes list"
  mw_sync_failed :: bool

definition set_entry ::
  "'k::linorder \<Rightarrow> file_entry option \<Rightarrow> ('k, file_entry) btree \<Rightarrow> ('k, file_entry) btree" where
  "set_entry k e m = (case e of None \<Rightarrow> bt_remove k m | Some x \<Rightarrow> bt_insert k x m)"

definition apply_edits ::
  "(ustr list \<times> file_entry option) list \<Rightarrow> memory_world \<Rightarrow> memory_world" where
  "apply_edits edits w =
     w\<lparr>mw_targets := fold (\<lambda>(path, entry). set_entry path entry) edits (mw_targets w)\<rparr>"

text \<open>A system call: its effect when it runs, and what a failure leaves behind.\<close>

definition sys ::
  "(nat \<Rightarrow> memory_world \<Rightarrow> memory_world) \<Rightarrow> (memory_world \<Rightarrow> (errno + 'a) \<times> memory_world) \<Rightarrow>
   memory_world \<Rightarrow> (errno + 'a) \<times> memory_world" where
  "sys broken call w =
     (case mw_turns w of
        [] \<Rightarrow> call w
      | t # ts \<Rightarrow>
          let w1 = apply_edits (tn_edits t) (w\<lparr>mw_turns := ts\<rparr>) in
          (case tn_failure t of
             Some e \<Rightarrow> (Inl (Errno_Other e), broken (tn_partial t) w1)
           | None \<Rightarrow> call w1))"

definition intact :: "nat \<Rightarrow> memory_world \<Rightarrow> memory_world" where
  "intact n w = w"

subsection \<open>Sequencing\<close>

definition bind_act :: "(memory_world \<Rightarrow> 'r \<times> memory_world) \<Rightarrow>
    ('r \<Rightarrow> memory_world \<Rightarrow> 's \<times> memory_world) \<Rightarrow> memory_world \<Rightarrow> 's \<times> memory_world" where
  "bind_act m f w = (case m w of (r, w') \<Rightarrow> f r w')"

definition ret :: "'r \<Rightarrow> memory_world \<Rightarrow> 'r \<times> memory_world" where
  "ret r w = (r, w)"

text \<open>The \<^theory_text>\<open>?\<close> operator.\<close>

definition try_act :: "(memory_world \<Rightarrow> (runtime_error + 'a) \<times> memory_world) \<Rightarrow>
    ('a \<Rightarrow> memory_world \<Rightarrow> (runtime_error + 'b) \<times> memory_world) \<Rightarrow>
    memory_world \<Rightarrow> (runtime_error + 'b) \<times> memory_world" where
  "try_act m f = bind_act m (\<lambda>r. case r of Inl e \<Rightarrow> ret (Inl e) | Inr x \<Rightarrow> f x)"

definition sys_try :: "(memory_world \<Rightarrow> (errno + 'a) \<times> memory_world) \<Rightarrow>
    ('a \<Rightarrow> memory_world \<Rightarrow> (runtime_error + 'b) \<times> memory_world) \<Rightarrow>
    memory_world \<Rightarrow> (runtime_error + 'b) \<times> memory_world" where
  "sys_try m f = bind_act m (\<lambda>r. case r of Inl e \<Rightarrow> ret (Inl (Runtime_Io e)) | Inr x \<Rightarrow> f x)"

subsection \<open>The system calls of a transaction\<close>

record memory_transaction =
  tx_target :: "ustr list"
  tx_artifact :: ustr

definition target_of_tx :: "memory_transaction \<Rightarrow> memory_world \<Rightarrow> file_entry option" where
  "target_of_tx tx w = bt_get (mw_targets w) (tx_target tx)"

definition artifact_of_tx :: "memory_transaction \<Rightarrow> memory_world \<Rightarrow> file_entry option" where
  "artifact_of_tx tx w = bt_get (mw_artifacts w) (tx_artifact tx)"

definition put_target :: "memory_transaction \<Rightarrow> file_entry option \<Rightarrow> memory_world \<Rightarrow> memory_world" where
  "put_target tx e w = w\<lparr>mw_targets := set_entry (tx_target tx) e (mw_targets w)\<rparr>"

definition put_artifact :: "memory_transaction \<Rightarrow> file_entry option \<Rightarrow> memory_world \<Rightarrow> memory_world" where
  "put_artifact tx e w = w\<lparr>mw_artifacts := set_entry (tx_artifact tx) e (mw_artifacts w)\<rparr>"

definition max_memory_file_bytes :: nat where
  "max_memory_file_bytes = 8 * 1024 * 1024"

text \<open>\<^theory_text>\<open>read_regular_at\<close>: opened without following a link, and bounded.\<close>

definition read_regular :: "file_entry option \<Rightarrow> runtime_error + bytes option" where
  "read_regular e =
     (case e of
        None \<Rightarrow> Inr None
      | Some Symlink_Entry \<Rightarrow> Inl (Runtime_Io (Errno_Other (lit ''ELOOP'')))
      | Some Special_Entry \<Rightarrow> Inl Invalid_Target
      | Some (Regular content) \<Rightarrow>
          if max_memory_file_bytes < length content then Inl Invalid_Target
          else Inr (Some content))"

definition read_target ::
  "memory_transaction \<Rightarrow> memory_world \<Rightarrow> (runtime_error + bytes option) \<times> memory_world" where
  "read_target tx = sys_try (sys intact (\<lambda>w. (Inr (target_of_tx tx w), w))) (\<lambda>e. ret (read_regular e))"

definition read_artifact ::
  "memory_transaction \<Rightarrow> memory_world \<Rightarrow> (runtime_error + bytes option) \<times> memory_world" where
  "read_artifact tx =
     sys_try (sys intact (\<lambda>w. (Inr (artifact_of_tx tx w), w))) (\<lambda>e. ret (read_regular e))"

definition sys_sync :: "memory_world \<Rightarrow> (errno + unit) \<times> memory_world" where
  "sys_sync = sys intact (\<lambda>w. (Inr (), w))"

text \<open>Syncing a directory; the ghost field remembers a failure.\<close>

definition sys_sync_dir :: "memory_world \<Rightarrow> (errno + unit) \<times> memory_world" where
  "sys_sync_dir = sys (\<lambda>_ w. w\<lparr>mw_sync_failed := True\<rparr>) (\<lambda>w. (Inr (), w))"

definition sys_create ::
  "memory_transaction \<Rightarrow> memory_world \<Rightarrow> (errno + unit) \<times> memory_world" where
  "sys_create tx = sys intact (\<lambda>w.
     if artifact_of_tx tx w \<noteq> None then (Inl Errno_Exist, w)
     else (Inr (), put_artifact tx (Some (Regular [])) w))"

definition sys_write ::
  "memory_transaction \<Rightarrow> bytes \<Rightarrow> memory_world \<Rightarrow> (errno + unit) \<times> memory_world" where
  "sys_write tx content = sys (\<lambda>n. put_artifact tx (Some (Regular (take n content))))
     (\<lambda>w. (Inr (), put_artifact tx (Some (Regular content)) w))"

definition destroyed_content :: "file_entry option \<Rightarrow> bytes list" where
  "destroyed_content e = (case e of Some (Regular content) \<Rightarrow> [content] | _ \<Rightarrow> [])"

definition sys_unlink_artifact ::
  "memory_transaction \<Rightarrow> memory_world \<Rightarrow> (errno + unit) \<times> memory_world" where
  "sys_unlink_artifact tx = sys intact (\<lambda>w.
     case artifact_of_tx tx w of
       None \<Rightarrow> (Inl Errno_Noent, w)
     | Some e \<Rightarrow> (Inr (), (put_artifact tx None w)
         \<lparr>mw_destroyed := destroyed_content (Some e) @ mw_destroyed w\<rparr>))"

text \<open>\<^theory_text>\<open>renameat_with\<close>: publishing an artifact or taking a target without replacing, and exchanging.\<close>

definition sys_publish ::
  "memory_transaction \<Rightarrow> memory_world \<Rightarrow> (errno + unit) \<times> memory_world" where
  "sys_publish tx = sys intact (\<lambda>w.
     case artifact_of_tx tx w of
       None \<Rightarrow> (Inl Errno_Noent, w)
     | Some e \<Rightarrow>
         if target_of_tx tx w \<noteq> None then (Inl Errno_Exist, w)
         else (Inr (), put_artifact tx None (put_target tx (Some e) w)))"

definition sys_take ::
  "memory_transaction \<Rightarrow> memory_world \<Rightarrow> (errno + unit) \<times> memory_world" where
  "sys_take tx = sys intact (\<lambda>w.
     case target_of_tx tx w of
       None \<Rightarrow> (Inl Errno_Noent, w)
     | Some e \<Rightarrow>
         if artifact_of_tx tx w \<noteq> None then (Inl Errno_Exist, w)
         else (Inr (), put_target tx None (put_artifact tx (Some e) w)))"

definition sys_exchange ::
  "memory_transaction \<Rightarrow> memory_world \<Rightarrow> (errno + unit) \<times> memory_world" where
  "sys_exchange tx = sys intact (\<lambda>w.
     case (artifact_of_tx tx w, target_of_tx tx w) of
       (Some a, Some t) \<Rightarrow> (Inr (), put_artifact tx (Some t) (put_target tx (Some a) w))
     | _ \<Rightarrow> (Inl Errno_Noent, w))"

definition write_artifact ::
  "memory_transaction \<Rightarrow> bytes \<Rightarrow> memory_world \<Rightarrow> (runtime_error + unit) \<times> memory_world" where
  "write_artifact tx content =
     bind_act (sys_create tx) (\<lambda>r. case r of
       Inl Errno_Exist \<Rightarrow> ret (Inl Pending_Artifact)
     | Inl e \<Rightarrow> ret (Inl (Runtime_Io e))
     | Inr _ \<Rightarrow> sys_try (sys_write tx content) (\<lambda>_. sys_try sys_sync (\<lambda>_. sys_try sys_sync (\<lambda>_. ret (Inr ())))))"

definition remove_artifact ::
  "memory_transaction \<Rightarrow> memory_world \<Rightarrow> (runtime_error + unit) \<times> memory_world" where
  "remove_artifact tx =
     bind_act (sys_unlink_artifact tx) (\<lambda>r. case r of
       Inl Errno_Noent \<Rightarrow> ret (Inr ())
     | Inl e \<Rightarrow> ret (Inl (Runtime_Io e))
     | Inr _ \<Rightarrow> sys_try sys_sync (\<lambda>_. ret (Inr ())))"

definition sync_directories :: "memory_world \<Rightarrow> (runtime_error + unit) \<times> memory_world" where
  "sync_directories = sys_try sys_sync_dir (\<lambda>_. sys_try sys_sync_dir (\<lambda>_. ret (Inr ())))"

definition exchange ::
  "memory_transaction \<Rightarrow> memory_world \<Rightarrow> (runtime_error + unit) \<times> memory_world" where
  "exchange tx = sys_try (sys_exchange tx) (\<lambda>_. sync_directories)"

end
