(* ===== verification/Memory_Apply.thy ===== *)
theory Memory_Apply
  imports Memory_Files
begin

text \<open>
  Applying a set of Memory changes and rolling it back (\<^theory_text>\<open>runtime/memory_apply.rs\<close> on Unix, through
  the pinned root of a Guru). A change is staged as an artifact, published by an atomic rename or
  exchange, and only then is what it displaced compared with what the writer had read; a set is
  rolled back in reverse order when a change or the final validation fails.

  \<open>digest\<close> stands for SHA-256, \<open>present\<close> for the directories that exist below the root, and
  \<open>valid\<close> for the verdict of the Runtime on the tree.
\<close>

record staged_change =
  sc_guru_id :: ustr
  sc_session_id :: ustr
  sc_relative_path :: ustr
  sc_before_sha256 :: "ustr option"
  sc_before_markdown :: "ustr option"
  sc_proposed_sha256 :: ustr
  sc_proposed_markdown :: ustr
  sc_delete :: bool

record applied_change =
  ac_absolute_path :: ustr
  ac_before_sha256 :: "ustr option"
  ac_after_sha256 :: ustr

subsection \<open>Validation of staged changes\<close>

text \<open>\<^theory_text>\<open>Path::components\<close> of a Unix path.\<close>

datatype path_component = Root_Dir | Cur_Dir | Parent_Dir | Normal_Component ustr

definition component_of :: "ustr \<Rightarrow> path_component list" where
  "component_of part =
     (if part = [] \<or> part = lit ''.'' then []
      else if part = lit ''..'' then [Parent_Dir] else [Normal_Component part])"

definition path_components :: "ustr \<Rightarrow> path_component list" where
  "path_components path =
     (case split_on 47 path of
        [] \<Rightarrow> []
      | first # rest \<Rightarrow>
          (if path \<noteq> [] \<and> hd path = 47 then [Root_Dir]
           else if first = lit ''.'' then [Cur_Dir] else component_of first) @
          concat (map component_of rest))"

fun normal_names :: "path_component list \<Rightarrow> ustr list option" where
  "normal_names [] = Some []"
| "normal_names (Normal_Component n # cs) = map_option ((#) n) (normal_names cs)"
| "normal_names (_ # cs) = None"

text \<open>
  The names of a path all of whose components are normal; \<^theory_text>\<open>is_absolute\<close> is a root component, and
  the extension is that of the last name.
\<close>

definition validate_memory_relative_path :: "ustr \<Rightarrow> runtime_error + ustr list" where
  "validate_memory_relative_path relative =
     (case normal_names (path_components relative) of
        None \<Rightarrow> Inl Invalid_Target
      | Some names \<Rightarrow>
          if names = [] \<or> extension (last names) \<noteq> Some (lit ''md'') then Inl Invalid_Target
          else if length names < 3 \<or> names ! 0 \<noteq> lit ''guruterminal'' \<or> from_slug (names ! 1) = None then
            Inl Invalid_Target
          else Inr names)"

definition validate_approved_content ::
  "(bytes \<Rightarrow> ustr) \<Rightarrow> staged_change \<Rightarrow> runtime_error + ustr" where
  "validate_approved_content digest approved =
     (if sc_delete approved \<and>
         (sc_before_markdown approved = None \<or> sc_proposed_markdown approved \<noteq> []) then
        Inl Invalid_Target
      else
        let proposed_hash = digest (utf8_encode (sc_proposed_markdown approved)) in
        if proposed_hash \<noteq> sc_proposed_sha256 approved then Inl Proposed_Hash_Mismatch
        else if map_option (\<lambda>m. digest (utf8_encode m)) (sc_before_markdown approved) \<noteq>
                sc_before_sha256 approved then Inl Before_Hash_Mismatch
        else Inr proposed_hash)"

fun validate_changes ::
  "(bytes \<Rightarrow> ustr) \<Rightarrow> ustr \<Rightarrow> ustr \<Rightarrow> path_component list list \<Rightarrow> staged_change list \<Rightarrow>
   runtime_error + unit" where
  "validate_changes digest guru session paths [] = Inr ()"
| "validate_changes digest guru session paths (change # rest) =
     (let path = path_components (sc_relative_path change) in
      if sc_guru_id change \<noteq> guru \<or> sc_session_id change \<noteq> session \<or> path \<in> set paths then
        Inl Invalid_Target
      else
        (case validate_memory_relative_path (sc_relative_path change) of
           Inl e \<Rightarrow> Inl e
         | Inr _ \<Rightarrow>
             (case validate_approved_content digest change of
                Inl e \<Rightarrow> Inl e
              | Inr _ \<Rightarrow> validate_changes digest guru session (path # paths) rest)))"

definition validate_approved_change_set ::
  "(bytes \<Rightarrow> ustr) \<Rightarrow> staged_change list \<Rightarrow> runtime_error + unit" where
  "validate_approved_change_set digest approved =
     (if approved = [] \<or> 24 < length approved then Inl Invalid_Target
      else validate_changes digest (sc_guru_id (hd approved)) (sc_session_id (hd approved)) [] approved)"

subsection \<open>One transaction\<close>

definition artifact_name :: "(bytes \<Rightarrow> ustr) \<Rightarrow> staged_change \<Rightarrow> ustr" where
  "artifact_name digest approved =
     lit ''memory-'' @
     take 32 (digest (utf8_encode (sc_guru_id approved @ [0] @ sc_session_id approved @ [0] @
       sc_relative_path approved))) @ lit ''.swap''"

text \<open>The directories of a name path, from the first below the root to the parent of the file.\<close>

definition parent_directories :: "ustr list \<Rightarrow> ustr list list" where
  "parent_directories names = map (\<lambda>n. take n names) [1..<length names]"

definition open_transaction ::
  "(bytes \<Rightarrow> ustr) \<Rightarrow> (ustr list \<Rightarrow> bool) \<Rightarrow> staged_change \<Rightarrow> runtime_error + memory_transaction" where
  "open_transaction digest present approved =
     (case validate_memory_relative_path (sc_relative_path approved) of
        Inl e \<Rightarrow> Inl e
      | Inr names \<Rightarrow>
          if list_all present ([lit ''.guruterminal''] # parent_directories names) then
            Inr \<lparr>tx_target = names, tx_artifact = artifact_name digest approved\<rparr>
          else Inl (Runtime_Io Errno_Noent))"

definition has_digest :: "(bytes \<Rightarrow> ustr) \<Rightarrow> ustr \<Rightarrow> bytes option \<Rightarrow> bool" where
  "has_digest digest expected content = (map_option digest content = Some expected)"

definition try_restore_exchange ::
  "(bytes \<Rightarrow> ustr) \<Rightarrow> memory_transaction \<Rightarrow> ustr \<Rightarrow> memory_world \<Rightarrow> (runtime_error + bool) \<times> memory_world" where
  "try_restore_exchange digest tx published =
     try_act (read_target tx) (\<lambda>current.
       if \<not> has_digest digest published current then ret (Inr False)
       else try_act (exchange tx) (\<lambda>_. try_act (read_artifact tx) (\<lambda>restored.
         case restored of
           None \<Rightarrow> ret (Inl Rollback_Conflict)
         | Some content \<Rightarrow>
             if digest content \<noteq> published then ret (Inl Rollback_Conflict)
             else try_act (remove_artifact tx) (\<lambda>_. ret (Inr True)))))"

definition commit_proposed ::
  "(bytes \<Rightarrow> ustr) \<Rightarrow> memory_transaction \<Rightarrow> ustr option \<Rightarrow> ustr \<Rightarrow> memory_world \<Rightarrow>
   (runtime_error + unit) \<times> memory_world" where
  "commit_proposed digest tx expected_before proposed_digest =
     (case expected_before of
        None \<Rightarrow>
          bind_act (sys_publish tx) (\<lambda>r. case r of
            Inr _ \<Rightarrow> sync_directories
          | Inl (Errno_Other e) \<Rightarrow>
              bind_act (remove_artifact tx) (\<lambda>_. ret (Inl (Runtime_Io (Errno_Other e))))
          | Inl _ \<Rightarrow> try_act (remove_artifact tx) (\<lambda>_. ret (Inl Before_Hash_Mismatch)))
      | Some expected \<Rightarrow>
          bind_act (exchange tx) (\<lambda>r. case r of
            Inl e \<Rightarrow> bind_act (remove_artifact tx) (\<lambda>_. ret (Inl e))
          | Inr _ \<Rightarrow> try_act (read_artifact tx) (\<lambda>displaced.
              case displaced of
                None \<Rightarrow> ret (Inl Rollback_Conflict)
              | Some content \<Rightarrow>
                  if digest content = expected then remove_artifact tx
                  else try_act (try_restore_exchange digest tx proposed_digest) (\<lambda>restored.
                    ret (Inl (if restored then Before_Hash_Mismatch else Rollback_Conflict))))))"

text \<open>
  Taking a target into the artifact and looking at it, the shared shape of a deletion and of the
  rollback of a creation: what differs is the error.
\<close>

definition take_target ::
  "(bytes \<Rightarrow> ustr) \<Rightarrow> memory_transaction \<Rightarrow> ustr \<Rightarrow> runtime_error \<Rightarrow> memory_world \<Rightarrow>
   (runtime_error + unit) \<times> memory_world" where
  "take_target digest tx expected conflict =
     bind_act (sys_take tx) (\<lambda>r. case r of
       Inl Errno_Noent \<Rightarrow> ret (Inl conflict)
     | Inl Errno_Exist \<Rightarrow> ret (Inl Pending_Artifact)
     | Inl e \<Rightarrow> ret (Inl (Runtime_Io e))
     | Inr _ \<Rightarrow> try_act sync_directories (\<lambda>_. try_act (read_artifact tx) (\<lambda>displaced.
         case displaced of
           None \<Rightarrow> ret (Inl Rollback_Conflict)
         | Some content \<Rightarrow>
             if digest content = expected then remove_artifact tx
             else try_act (read_target tx) (\<lambda>current.
               if current = None then
                 sys_try (sys_publish tx) (\<lambda>_. try_act sync_directories (\<lambda>_. ret (Inl conflict)))
               else ret (Inl conflict)))))"

definition commit_delete ::
  "(bytes \<Rightarrow> ustr) \<Rightarrow> memory_transaction \<Rightarrow> ustr \<Rightarrow> memory_world \<Rightarrow> (runtime_error + unit) \<times> memory_world" where
  "commit_delete digest tx expected =
     try_act (read_artifact tx) (\<lambda>pending.
       if pending \<noteq> None then ret (Inl Pending_Artifact)
       else take_target digest tx expected Before_Hash_Mismatch)"

definition restore_deleted ::
  "memory_transaction \<Rightarrow> staged_change \<Rightarrow> memory_world \<Rightarrow> (runtime_error + unit) \<times> memory_world" where
  "restore_deleted tx approved =
     try_act (read_target tx) (\<lambda>current. if current \<noteq> None then ret (Inl Rollback_Conflict) else
     try_act (read_artifact tx) (\<lambda>pending. if pending \<noteq> None then ret (Inl Rollback_Conflict) else
       (case sc_before_markdown approved of
          None \<Rightarrow> ret (Inl Rollback_Conflict)
        | Some before \<Rightarrow>
            try_act (write_artifact tx (utf8_encode before)) (\<lambda>_.
              bind_act (sys_publish tx) (\<lambda>r. case r of
                Inr _ \<Rightarrow> sync_directories
              | Inl e \<Rightarrow> bind_act (remove_artifact tx) (\<lambda>_. ret (Inl (Runtime_Io e))))))))"

definition rollback_change ::
  "(bytes \<Rightarrow> ustr) \<Rightarrow> memory_transaction \<Rightarrow> staged_change \<Rightarrow> memory_world \<Rightarrow>
   (runtime_error + unit) \<times> memory_world" where
  "rollback_change digest tx approved =
     try_act (read_artifact tx) (\<lambda>pending. if pending \<noteq> None then ret (Inl Pending_Artifact) else
       (case sc_before_markdown approved of
          Some before \<Rightarrow>
            try_act (write_artifact tx (utf8_encode before)) (\<lambda>_.
            try_act (exchange tx) (\<lambda>_.
            try_act (read_artifact tx) (\<lambda>displaced.
              case displaced of
                None \<Rightarrow> ret (Inl Rollback_Conflict)
              | Some content \<Rightarrow>
                  if digest content = sc_proposed_sha256 approved then remove_artifact tx
                  else
                    (case sc_before_sha256 approved of
                       None \<Rightarrow> ret (Inl Rollback_Conflict)
                     | Some before_digest \<Rightarrow>
                         try_act (try_restore_exchange digest tx before_digest)
                           (\<lambda>_. ret (Inl Rollback_Conflict))))))
        | None \<Rightarrow> take_target digest tx (sc_proposed_sha256 approved) Rollback_Conflict))"

definition reconcile_artifact ::
  "(bytes \<Rightarrow> ustr) \<Rightarrow> memory_transaction \<Rightarrow> staged_change \<Rightarrow> bool \<Rightarrow> memory_world \<Rightarrow>
   (runtime_error + unit) \<times> memory_world" where
  "reconcile_artifact digest tx approved target_is_proposed =
     try_act (read_artifact tx) (\<lambda>pending.
       case pending of
         None \<Rightarrow> ret (Inr ())
       | Some artifact \<Rightarrow>
           (case (if target_is_proposed then sc_before_markdown approved
                  else Some (sc_proposed_markdown approved)) of
              None \<Rightarrow> ret (Inl Rollback_Conflict)
            | Some expected \<Rightarrow>
                if digest artifact \<noteq> digest (utf8_encode expected) then ret (Inl Rollback_Conflict)
                else remove_artifact tx))"

subsection \<open>A set of changes\<close>

text \<open>Opens the transaction of a change and goes on with it.\<close>

definition with_transaction ::
  "(bytes \<Rightarrow> ustr) \<Rightarrow> (ustr list \<Rightarrow> bool) \<Rightarrow> staged_change \<Rightarrow>
   (memory_transaction \<Rightarrow> memory_world \<Rightarrow> (runtime_error + 'a) \<times> memory_world) \<Rightarrow>
   memory_world \<Rightarrow> (runtime_error + 'a) \<times> memory_world" where
  "with_transaction digest present approved body =
     (case open_transaction digest present approved of
        Inl e \<Rightarrow> ret (Inl e)
      | Inr tx \<Rightarrow> body tx)"

definition reconcile_memory_artifact_at ::
  "(bytes \<Rightarrow> ustr) \<Rightarrow> (ustr list \<Rightarrow> bool) \<Rightarrow> staged_change \<Rightarrow> bool \<Rightarrow> memory_world \<Rightarrow>
   (runtime_error + unit) \<times> memory_world" where
  "reconcile_memory_artifact_at digest present approved target_is_proposed =
     (case validate_approved_content digest approved of
        Inl e \<Rightarrow> ret (Inl e)
      | Inr _ \<Rightarrow> with_transaction digest present approved
          (\<lambda>tx. reconcile_artifact digest tx approved target_is_proposed))"

definition preflight_approved_target ::
  "(bytes \<Rightarrow> ustr) \<Rightarrow> (ustr list \<Rightarrow> bool) \<Rightarrow> staged_change \<Rightarrow> bool \<Rightarrow> memory_world \<Rightarrow>
   (runtime_error + unit) \<times> memory_world" where
  "preflight_approved_target digest present approved expect_proposed =
     with_transaction digest present approved (\<lambda>tx. try_act (read_target tx) (\<lambda>actual.
       let expected =
         (if expect_proposed \<and> sc_delete approved then None
          else if expect_proposed then Some (sc_proposed_sha256 approved)
          else sc_before_sha256 approved) in
       if map_option digest actual \<noteq> expected then
         ret (Inl (if expect_proposed then Rollback_Conflict else Before_Hash_Mismatch))
       else ret (Inr ())))"

fun preflight_all ::
  "(bytes \<Rightarrow> ustr) \<Rightarrow> (ustr list \<Rightarrow> bool) \<Rightarrow> bool \<Rightarrow> staged_change list \<Rightarrow> memory_world \<Rightarrow>
   (runtime_error + unit) \<times> memory_world" where
  "preflight_all digest present expect_proposed [] = ret (Inr ())"
| "preflight_all digest present expect_proposed (change # rest) =
     try_act (preflight_approved_target digest present change expect_proposed)
       (\<lambda>_. preflight_all digest present expect_proposed rest)"

definition commit_in_transaction ::
  "(bytes \<Rightarrow> ustr) \<Rightarrow> staged_change \<Rightarrow> ustr \<Rightarrow> memory_transaction \<Rightarrow> memory_world \<Rightarrow>
   (runtime_error + unit) \<times> memory_world" where
  "commit_in_transaction digest approved proposed_hash tx =
     (if sc_delete approved then
        (case sc_before_sha256 approved of
           None \<Rightarrow> ret (Inl Before_Hash_Mismatch)
         | Some before \<Rightarrow> commit_delete digest tx before)
      else
        try_act (write_artifact tx (utf8_encode (sc_proposed_markdown approved)))
          (\<lambda>_. commit_proposed digest tx (sc_before_sha256 approved) proposed_hash))"

definition commit_approved_change ::
  "(bytes \<Rightarrow> ustr) \<Rightarrow> (ustr list \<Rightarrow> bool) \<Rightarrow> ustr \<Rightarrow> staged_change \<Rightarrow> memory_world \<Rightarrow>
   (runtime_error + applied_change) \<times> memory_world" where
  "commit_approved_change digest present root approved =
     (case validate_memory_relative_path (sc_relative_path approved) of
        Inl e \<Rightarrow> ret (Inl e)
      | Inr _ \<Rightarrow>
          (case validate_approved_content digest approved of
             Inl e \<Rightarrow> ret (Inl e)
           | Inr proposed_hash \<Rightarrow>
               try_act (preflight_approved_target digest present approved False) (\<lambda>_.
                 try_act (with_transaction digest present approved
                     (commit_in_transaction digest approved proposed_hash)) (\<lambda>_.
                   ret (Inr \<lparr>ac_absolute_path = root @ [47] @ sc_relative_path approved,
                     ac_before_sha256 = sc_before_sha256 approved,
                     ac_after_sha256 = proposed_hash\<rparr>)))))"

definition rollback_one ::
  "(bytes \<Rightarrow> ustr) \<Rightarrow> (ustr list \<Rightarrow> bool) \<Rightarrow> staged_change \<Rightarrow> memory_world \<Rightarrow>
   (runtime_error + unit) \<times> memory_world" where
  "rollback_one digest present change =
     with_transaction digest present change (\<lambda>tx.
       if sc_delete change then restore_deleted tx change else rollback_change digest tx change)"

fun rollback_all ::
  "(bytes \<Rightarrow> ustr) \<Rightarrow> (ustr list \<Rightarrow> bool) \<Rightarrow> staged_change list \<Rightarrow> memory_world \<Rightarrow>
   (runtime_error + unit) \<times> memory_world" where
  "rollback_all digest present [] = ret (Inr ())"
| "rollback_all digest present (change # rest) =
     try_act (rollback_one digest present change) (\<lambda>_. rollback_all digest present rest)"

definition rollback_applied_prefix ::
  "(bytes \<Rightarrow> ustr) \<Rightarrow> (ustr list \<Rightarrow> bool) \<Rightarrow> staged_change list \<Rightarrow> nat \<Rightarrow> memory_world \<Rightarrow>
   (runtime_error + unit) \<times> memory_world" where
  "rollback_applied_prefix digest present approved applied_len =
     rollback_all digest present (rev (take applied_len approved))"

text \<open>The loop over the changes; \<open>applied\<close> are the ones already committed.\<close>

fun commit_all ::
  "(bytes \<Rightarrow> ustr) \<Rightarrow> (ustr list \<Rightarrow> bool) \<Rightarrow> ustr \<Rightarrow> staged_change list \<Rightarrow> applied_change list \<Rightarrow>
   staged_change list \<Rightarrow> memory_world \<Rightarrow> (runtime_error + applied_change list) \<times> memory_world" where
  "commit_all digest present root approved applied [] = ret (Inr applied)"
| "commit_all digest present root approved applied (change # rest) =
     bind_act (commit_approved_change digest present root change) (\<lambda>r. case r of
       Inr item \<Rightarrow> commit_all digest present root approved (applied @ [item]) rest
     | Inl error \<Rightarrow>
         try_act (rollback_applied_prefix digest present approved (length applied))
           (\<lambda>_. ret (Inl error)))"

definition run_validation ::
  "(memory_world \<Rightarrow> runtime_error + unit) \<Rightarrow> memory_world \<Rightarrow> (runtime_error + unit) \<times> memory_world" where
  "run_validation valid w = (valid w, w)"

definition apply_memory_markdown_set ::
  "(bytes \<Rightarrow> ustr) \<Rightarrow> (ustr list \<Rightarrow> bool) \<Rightarrow> (memory_world \<Rightarrow> runtime_error + unit) \<Rightarrow> ustr \<Rightarrow>
   staged_change list \<Rightarrow> memory_world \<Rightarrow> (runtime_error + applied_change list) \<times> memory_world" where
  "apply_memory_markdown_set digest present valid root approved =
     (case validate_approved_change_set digest approved of
        Inl e \<Rightarrow> ret (Inl e)
      | Inr _ \<Rightarrow>
          try_act (run_validation valid) (\<lambda>_.
          try_act (preflight_all digest present False approved) (\<lambda>_.
          try_act (commit_all digest present root approved [] approved) (\<lambda>applied.
          bind_act (run_validation valid) (\<lambda>r. case r of
            Inr _ \<Rightarrow> ret (Inr applied)
          | Inl error \<Rightarrow>
              try_act (rollback_applied_prefix digest present approved (length applied)) (\<lambda>_.
              try_act (run_validation valid) (\<lambda>_. ret (Inl error))))))))"

definition rollback_memory_markdown_set ::
  "(bytes \<Rightarrow> ustr) \<Rightarrow> (ustr list \<Rightarrow> bool) \<Rightarrow> runtime_error + unit \<Rightarrow>
   (memory_world \<Rightarrow> runtime_error + unit) \<Rightarrow> staged_change list \<Rightarrow> memory_world \<Rightarrow>
   (runtime_error + unit) \<times> memory_world" where
  "rollback_memory_markdown_set digest present layout valid approved =
     (case validate_approved_change_set digest approved of
        Inl e \<Rightarrow> ret (Inl e)
      | Inr _ \<Rightarrow>
          (case layout of
             Inl e \<Rightarrow> ret (Inl e)
           | Inr _ \<Rightarrow>
               try_act (preflight_all digest present True approved) (\<lambda>_.
               try_act (rollback_applied_prefix digest present approved (length approved)) (\<lambda>_.
               run_validation valid))))"

end
