(* ===== verification/Memory_Safety.thy ===== *)
theory Memory_Safety
  imports Memory_Apply
begin

text \<open>
  What holds of Memory transactions. With others editing the files between any two system calls and
  with system calls that fail, a transaction destroys only contents with a digest it was prepared
  for, so nobody's edit is lost, unless a directory fails to sync (and then it can be). Without interference
  a set of changes is applied as a whole or not at all.
\<close>

subsection \<open>Triples\<close>

definition hoare ::
  "(memory_world \<Rightarrow> bool) \<Rightarrow> (memory_world \<Rightarrow> 'r \<times> memory_world) \<Rightarrow> ('r \<Rightarrow> memory_world \<Rightarrow> bool) \<Rightarrow> bool" where
  "hoare P m Q \<longleftrightarrow> (\<forall>w. P w \<longrightarrow> (case m w of (r, w') \<Rightarrow> Q r w'))"

lemma hoareI: "(\<And>w r w'. P w \<Longrightarrow> m w = (r, w') \<Longrightarrow> Q r w') \<Longrightarrow> hoare P m Q"
  by (auto simp: hoare_def)

lemma hoareD: "hoare P m Q \<Longrightarrow> P w \<Longrightarrow> m w = (r, w') \<Longrightarrow> Q r w'"
  by (fastforce simp: hoare_def)

lemma hoare_pre: "hoare P' m Q \<Longrightarrow> (\<And>w. P w \<Longrightarrow> P' w) \<Longrightarrow> hoare P m Q"
  by (auto simp: hoare_def)

lemma hoare_post: "hoare P m Q' \<Longrightarrow> (\<And>r w. Q' r w \<Longrightarrow> Q r w) \<Longrightarrow> hoare P m Q"
  by (fastforce simp: hoare_def)

lemma hoare_ret: "(\<And>w. P w \<Longrightarrow> Q r w) \<Longrightarrow> hoare P (ret r) Q"
  by (simp add: hoare_def ret_def)

lemma hoare_bind: "hoare P m Q \<Longrightarrow> (\<And>r. hoare (Q r) (f r) R) \<Longrightarrow> hoare P (bind_act m f) R"
  by (fastforce simp: hoare_def bind_act_def split: prod.splits)

lemma hoare_try:
  assumes "hoare P m Q" and "\<And>e w. Q (Inl e) w \<Longrightarrow> R (Inl e) w" and "\<And>x. hoare (Q (Inr x)) (f x) R"
  shows "hoare P (try_act m f) R"
  unfolding try_act_def
  by (rule hoare_bind [OF assms(1)]) (auto split: sum.split intro!: hoare_ret assms)

lemma hoare_sys_try:
  assumes "hoare P m Q" and "\<And>e w. Q (Inl e) w \<Longrightarrow> R (Inl (Runtime_Io e)) w"
    and "\<And>x. hoare (Q (Inr x)) (f x) R"
  shows "hoare P (sys_try m f) R"
  unfolding sys_try_def
  by (rule hoare_bind [OF assms(1)]) (auto split: sum.split intro!: hoare_ret assms)

text \<open>A call keeps a condition when its effect and its failure do; edits touch targets only.\<close>

lemma hoare_sys:
  assumes edits: "\<And>w es ts. P w \<Longrightarrow> P (apply_edits es (w\<lparr>mw_turns := ts\<rparr>))"
    and broken: "\<And>n w e. P w \<Longrightarrow> Q (Inl (Errno_Other e)) (broken n w)"
    and call: "hoare P call Q"
  shows "hoare P (sys broken call) Q"
proof (rule hoareI)
  fix w r w'
  assume P: "P w" and run: "sys broken call w = (r, w')"
  show "Q r w'"
  proof (cases "mw_turns w")
    case Nil
    then show ?thesis using run hoareD [OF call P] by (simp add: sys_def)
  next
    case (Cons t ts)
    then show ?thesis
      using run broken [OF edits [OF P]] hoareD [OF call edits [OF P]]
      by (auto simp: sys_def Let_def split: option.splits)
  qed
qed

subsection \<open>What is destroyed\<close>

text \<open>
  Since the world had destroyed \<open>before\<close>, only contents that satisfy \<open>good\<close> were destroyed, or a
  directory failed to sync.
\<close>

definition spared :: "(bytes \<Rightarrow> bool) \<Rightarrow> bytes list \<Rightarrow> memory_world \<Rightarrow> bool" where
  "spared good before w \<longleftrightarrow>
     mw_sync_failed w \<or> (\<exists>ds. mw_destroyed w = ds @ before \<and> list_all good ds)"

definition removable :: "(bytes \<Rightarrow> bool) \<Rightarrow> memory_transaction \<Rightarrow> memory_world \<Rightarrow> bool" where
  "removable good tx w \<longleftrightarrow>
     mw_sync_failed w \<or> list_all good (destroyed_content (artifact_of_tx tx w))"

lemma spared_fields [simp]:
  "spared good before (w\<lparr>mw_turns := ts\<rparr>) = spared good before w"
  "spared good before (apply_edits es w) = spared good before w"
  "spared good before (put_target tx e w) = spared good before w"
  "spared good before (put_artifact tx e w) = spared good before w"
  "removable good tx (w\<lparr>mw_turns := ts\<rparr>) = removable good tx w"
  "removable good tx (apply_edits es w) = removable good tx w"
  "removable good tx (put_target tx e w) = removable good tx w"
  "artifact_of_tx tx (w\<lparr>mw_turns := ts\<rparr>) = artifact_of_tx tx w"
  "artifact_of_tx tx (apply_edits es w) = artifact_of_tx tx w"
  "artifact_of_tx tx (put_target tx e w) = artifact_of_tx tx w"
  "spared good before (w\<lparr>mw_sync_failed := True\<rparr>)"
  "removable good tx (w\<lparr>mw_sync_failed := True\<rparr>)"
  by (simp_all add: spared_def removable_def apply_edits_def put_target_def put_artifact_def
      artifact_of_tx_def)

lemma artifact_put_artifact [simp]:
  "artifact_of_tx tx (put_artifact tx (Some e) w) = Some e"
  by (simp add: artifact_of_tx_def put_artifact_def set_entry_def)

text \<open>The calls that only look keep everything.\<close>

lemma spared_read_target:
  "hoare (\<lambda>w. spared g b w \<and> removable g tx w) (read_target tx)
     (\<lambda>r w. spared g b w \<and> removable g tx w)"
  unfolding read_target_def
  by (rule hoare_sys_try [where Q = "\<lambda>r w. spared g b w \<and> removable g tx w"], rule hoare_sys)
    (auto simp: hoare_def intact_def ret_def)

lemma spared_read_target_only: "hoare (spared g b) (read_target tx) (\<lambda>r. spared g b)"
  unfolding read_target_def
  by (rule hoare_sys_try [where Q = "\<lambda>r. spared g b"], rule hoare_sys)
    (auto simp: hoare_def intact_def ret_def)

lemma spared_read_artifact:
  "hoare (spared g b) (read_artifact tx)
     (\<lambda>r w. spared g b w \<and> (\<forall>c. r = Inr (Some c) \<longrightarrow> artifact_of_tx tx w = Some (Regular c)))"
  unfolding read_artifact_def
  by (rule hoare_sys_try [where Q = "\<lambda>r w. spared g b w \<and> (\<forall>e. r = Inr e \<longrightarrow> artifact_of_tx tx w = e)"],
      rule hoare_sys)
    (auto simp: hoare_def intact_def ret_def read_regular_def split: option.splits file_entry.splits
      if_splits)

lemma spared_sys_sync: "hoare (\<lambda>w. spared g b w \<and> P (artifact_of_tx tx w)) sys_sync
    (\<lambda>r w. spared g b w \<and> P (artifact_of_tx tx w))"
  unfolding sys_sync_def by (rule hoare_sys) (auto simp: hoare_def intact_def)

lemma spared_sys_sync_dir:
  "hoare (spared g b) sys_sync_dir (\<lambda>r w. spared g b w \<and> (\<forall>e. r = Inl e \<longrightarrow> mw_sync_failed w))"
  unfolding sys_sync_dir_def by (rule hoare_sys) (auto simp: hoare_def)

lemma spared_sync_directories:
  "hoare (spared g b) sync_directories
     (\<lambda>r w. spared g b w \<and> (\<forall>e. r = Inl e \<longrightarrow> mw_sync_failed w))"
  unfolding sync_directories_def
proof (rule hoare_sys_try [OF spared_sys_sync_dir])
  show "hoare (\<lambda>w. spared g b w \<and> (\<forall>e. Inr x = Inl e \<longrightarrow> mw_sync_failed w))
      (sys_try sys_sync_dir (\<lambda>_. ret (Inr ())))
      (\<lambda>r w. spared g b w \<and> (\<forall>e. r = Inl e \<longrightarrow> mw_sync_failed w))" for x :: unit
    by (rule hoare_sys_try [where Q = "\<lambda>r w. spared g b w \<and> (\<forall>e. r = Inl e \<longrightarrow> mw_sync_failed w)"],
        rule hoare_pre [OF spared_sys_sync_dir]; simp add: hoare_ret)
qed auto

lemma spared_remove_artifact:
  "hoare (\<lambda>w. spared g b w \<and> removable g tx w) (remove_artifact tx) (\<lambda>r. spared g b)"
  unfolding remove_artifact_def
proof (rule hoare_bind [where Q = "\<lambda>r. spared g b"])
  show "hoare (\<lambda>w. spared g b w \<and> removable g tx w) (sys_unlink_artifact tx) (\<lambda>r. spared g b)"
    unfolding sys_unlink_artifact_def
  proof (rule hoare_sys)
    show "hoare (\<lambda>w. spared g b w \<and> removable g tx w)
      (\<lambda>w. case artifact_of_tx tx w of None \<Rightarrow> (Inl Errno_Noent, w)
         | Some e \<Rightarrow> (Inr (), (put_artifact tx None w)
             \<lparr>mw_destroyed := destroyed_content (Some e) @ mw_destroyed w\<rparr>)) (\<lambda>r. spared g b)"
      by (auto simp: hoare_def spared_def removable_def put_artifact_def split: option.split)
  qed (auto simp: intact_def)
  have sync: "hoare (spared g b) sys_sync (\<lambda>r. spared g b)"
    using spared_sys_sync [of g b "\<lambda>_. True" tx] by simp
  show "hoare (spared g b) (case r of Inl Errno_Noent \<Rightarrow> ret (Inr ())
      | Inl e \<Rightarrow> ret (Inl (Runtime_Io e)) | Inr _ \<Rightarrow> sys_try sys_sync (\<lambda>_. ret (Inr ())))
      (\<lambda>r. spared g b)" for r
    by (auto split: sum.split errno.split intro!: hoare_ret hoare_sys_try [OF sync])
qed

text \<open>Moving files about destroys nothing; a failed move leaves the artifact.\<close>

lemma spared_publish:
  "hoare (\<lambda>w. spared g b w \<and> removable g tx w) (sys_publish tx)
     (\<lambda>r w. spared g b w \<and> (\<forall>e. r = Inl e \<longrightarrow> removable g tx w))"
  unfolding sys_publish_def
  by (rule hoare_sys) (auto simp: hoare_def intact_def split: option.split)

lemma spared_publish_only: "hoare (spared g b) (sys_publish tx) (\<lambda>r. spared g b)"
  unfolding sys_publish_def
  by (rule hoare_sys) (auto simp: hoare_def intact_def split: option.split)

lemma spared_take: "hoare (spared g b) (sys_take tx) (\<lambda>r. spared g b)"
  unfolding sys_take_def
  by (rule hoare_sys) (auto simp: hoare_def intact_def split: option.split)

lemma spared_exchange:
  "hoare (\<lambda>w. spared g b w \<and> removable g tx w) (exchange tx)
     (\<lambda>r w. spared g b w \<and> (\<forall>e. r = Inl e \<longrightarrow> removable g tx w))"
  unfolding exchange_def
proof (rule hoare_sys_try [where Q = "\<lambda>r w. spared g b w \<and> (\<forall>e. r = Inl e \<longrightarrow> removable g tx w)"])
  show "hoare (\<lambda>w. spared g b w \<and> removable g tx w) (sys_exchange tx)
      (\<lambda>r w. spared g b w \<and> (\<forall>e. r = Inl e \<longrightarrow> removable g tx w))"
    unfolding sys_exchange_def
    by (rule hoare_sys) (auto simp: hoare_def intact_def split: option.split)
  show "hoare (\<lambda>w. spared g b w \<and> (\<forall>e. Inr x = Inl e \<longrightarrow> removable g tx w)) sync_directories
      (\<lambda>r w. spared g b w \<and> (\<forall>e. r = Inl e \<longrightarrow> removable g tx w))" for x :: unit
    by (rule hoare_post [OF hoare_pre [OF spared_sync_directories]]) (auto simp: removable_def)
qed auto

lemma spared_exchange_only: "hoare (spared g b) (exchange tx) (\<lambda>r. spared g b)"
  unfolding exchange_def
proof (rule hoare_sys_try [where Q = "\<lambda>r. spared g b"])
  show "hoare (spared g b) (sys_exchange tx) (\<lambda>r. spared g b)"
    unfolding sys_exchange_def
    by (rule hoare_sys) (auto simp: hoare_def intact_def split: option.split)
  show "hoare (spared g b) sync_directories (\<lambda>r. spared g b)"
    by (rule hoare_post [OF spared_sync_directories]) simp
qed simp

lemma spared_write_artifact:
  assumes "good content"
  shows "hoare (spared good b) (write_artifact tx content)
     (\<lambda>r w. spared good b w \<and> (r = Inr () \<longrightarrow> removable good tx w))"
  unfolding write_artifact_def
proof (rule hoare_bind [where Q = "\<lambda>r. spared good b"])
  show "hoare (spared good b) (sys_create tx) (\<lambda>r. spared good b)"
    unfolding sys_create_def by (rule hoare_sys) (auto simp: hoare_def intact_def)
  have written: "hoare (spared good b) (sys_write tx content)
      (\<lambda>r w. spared good b w \<and> (r = Inr () \<longrightarrow> artifact_of_tx tx w = Some (Regular content)))"
    unfolding sys_write_def by (rule hoare_sys) (auto simp: hoare_def)
  note sync = spared_sys_sync [of good b "\<lambda>a. a = Some (Regular content)" tx]
  show "hoare (spared good b) (case r of Inl Errno_Exist \<Rightarrow> ret (Inl Pending_Artifact)
      | Inl e \<Rightarrow> ret (Inl (Runtime_Io e))
      | Inr _ \<Rightarrow> sys_try (sys_write tx content) (\<lambda>_. sys_try sys_sync (\<lambda>_. sys_try sys_sync (\<lambda>_. ret (Inr ())))))
      (\<lambda>r w. spared good b w \<and> (r = Inr () \<longrightarrow> removable good tx w))" for r
  proof (cases r)
    case (Inl e)
    then show ?thesis by (cases e) (auto intro!: hoare_ret)
  next
    case (Inr x)
    have "hoare (\<lambda>w. spared good b w \<and> artifact_of_tx tx w = Some (Regular content))
        (sys_try sys_sync (\<lambda>_. sys_try sys_sync (\<lambda>_. ret (Inr ()))))
        (\<lambda>r w. spared good b w \<and> (r = Inr () \<longrightarrow> removable good tx w))"
      by (rule hoare_sys_try [OF sync], simp, rule hoare_sys_try [OF sync], simp, rule hoare_ret)
        (use assms in \<open>simp add: removable_def destroyed_content_def\<close>)
    then show ?thesis
      using Inr by (auto intro!: hoare_sys_try [OF written] elim: hoare_pre)
  qed
qed

text \<open>
  The idiom of every operation: look at the artifact, and remove it only when it has the expected
  digest.
\<close>

lemma removable_regular:
  "artifact_of_tx tx w = Some (Regular c) \<Longrightarrow> good c \<Longrightarrow> removable good tx w"
  by (simp add: removable_def destroyed_content_def)

lemma spared_remove_seen:
  assumes "good c"
  shows "hoare (\<lambda>w. spared good b w \<and> artifact_of_tx tx w = Some (Regular c)) (remove_artifact tx)
    (\<lambda>r. spared good b)"
  by (rule hoare_pre [OF spared_remove_artifact]) (simp add: removable_regular assms)

lemma spared_look_at_artifact:
  assumes none: "hoare (spared good b) (f None) (\<lambda>r. spared good b)"
    and some: "\<And>c. hoare (\<lambda>w. spared good b w \<and> artifact_of_tx tx w = Some (Regular c)) (f (Some c))
      (\<lambda>r. spared good b)"
  shows "hoare (spared good b) (try_act (read_artifact tx) f) (\<lambda>r. spared good b)"
proof (rule hoare_try [OF spared_read_artifact])
  show "hoare (\<lambda>w. spared good b w \<and>
      (\<forall>c. Inr x = Inr (Some c) \<longrightarrow> artifact_of_tx tx w = Some (Regular c))) (f x) (\<lambda>r. spared good b)" for x
    using none some by (cases x) (auto elim: hoare_pre)
qed simp

lemma hoare_spared_conj:
  "hoare (spared g b) m Q \<Longrightarrow> hoare (\<lambda>w. spared g b w \<and> R w) m Q"
  by (auto elim: hoare_pre)

lemma spared_ret [simp, intro]: "hoare (spared g b) (ret r) (\<lambda>r. spared g b)"
  by (rule hoare_ret)

lemma spared_try:
  "hoare P m (\<lambda>r. spared g b) \<Longrightarrow> (\<And>x. hoare (spared g b) (f x) (\<lambda>r. spared g b)) \<Longrightarrow>
   hoare P (try_act m f) (\<lambda>r. spared g b)"
  by (rule hoare_try)

lemma spared_sync: "hoare (spared g b) sync_directories (\<lambda>r. spared g b)"
  by (rule hoare_post [OF spared_sync_directories]) simp

subsection \<open>Each operation destroys only what it was prepared for\<close>

lemma spared_try_restore:
  assumes "\<And>c. digest c = published \<Longrightarrow> good c"
  shows "hoare (spared good b) (try_restore_exchange digest tx published) (\<lambda>r. spared good b)"
  unfolding try_restore_exchange_def
proof (rule spared_try [OF spared_read_target_only])
  have "hoare (spared good b)
      (try_act (exchange tx) (\<lambda>_. try_act (read_artifact tx) (\<lambda>restored.
         case restored of None \<Rightarrow> ret (Inl Rollback_Conflict)
         | Some content \<Rightarrow> if digest content \<noteq> published then ret (Inl Rollback_Conflict)
             else try_act (remove_artifact tx) (\<lambda>_. ret (Inr True))))) (\<lambda>r. spared good b)"
    by (rule spared_try [OF spared_exchange_only], rule spared_look_at_artifact)
      (auto intro!: hoare_spared_conj [OF spared_ret] spared_try [OF spared_remove_seen] assms)
  then show "hoare (spared good b) (if \<not> has_digest digest published current then ret (Inr False)
      else try_act (exchange tx) (\<lambda>_. try_act (read_artifact tx) (\<lambda>restored.
         case restored of None \<Rightarrow> ret (Inl Rollback_Conflict)
         | Some content \<Rightarrow> if digest content \<noteq> published then ret (Inl Rollback_Conflict)
             else try_act (remove_artifact tx) (\<lambda>_. ret (Inr True))))) (\<lambda>r. spared good b)" for current
    by simp
qed

text \<open>The end of an exchange: the displaced content is the expected one, or it is put back.\<close>

lemma spared_settle_exchange:
  assumes "\<And>c. digest c = expected \<Longrightarrow> good c" and "hoare (spared good b) restore (\<lambda>r. spared good b)"
  shows "hoare (spared good b) (try_act (read_artifact tx) (\<lambda>displaced.
      case displaced of None \<Rightarrow> ret (Inl Rollback_Conflict)
      | Some content \<Rightarrow> if digest content = expected then remove_artifact tx else restore))
    (\<lambda>r. spared good b)"
  by (rule spared_look_at_artifact)
    (auto intro!: hoare_spared_conj [OF assms(2)] spared_remove_seen assms(1))

lemma spared_commit_proposed:
  assumes "\<And>c. expected = Some (digest c) \<Longrightarrow> good c" and "\<And>c. digest c = proposed \<Longrightarrow> good c"
  shows "hoare (\<lambda>w. spared good b w \<and> removable good tx w)
    (commit_proposed digest tx expected proposed) (\<lambda>r. spared good b)"
proof (cases expected)
  case None
  then show ?thesis
    unfolding commit_proposed_def None option.case
    by (intro hoare_bind [OF spared_publish])
      (auto split: sum.split errno.split
        intro!: hoare_bind [OF spared_remove_artifact] spared_try [OF spared_remove_artifact] spared_sync)
next
  case (Some e)
  have settle: "hoare (spared good b) (try_act (read_artifact tx) (\<lambda>displaced.
      case displaced of None \<Rightarrow> ret (Inl Rollback_Conflict)
      | Some content \<Rightarrow> if digest content = e then remove_artifact tx
          else try_act (try_restore_exchange digest tx proposed) (\<lambda>restored.
            ret (Inl (if restored then Before_Hash_Mismatch else Rollback_Conflict)))))
    (\<lambda>r. spared good b)"
    using assms Some by (intro spared_settle_exchange spared_try [OF spared_try_restore]) auto
  show ?thesis
    unfolding commit_proposed_def Some option.case
    by (rule hoare_bind [OF spared_exchange])
      (auto split: sum.split intro!: hoare_bind [OF spared_remove_artifact] settle)
qed

lemma spared_take_target:
  assumes "\<And>c. digest c = expected \<Longrightarrow> good c"
  shows "hoare (spared good b) (take_target digest tx expected conflict) (\<lambda>r. spared good b)"
proof -
  have publish: "hoare (spared good b)
      (sys_try (sys_publish tx) (\<lambda>_. try_act sync_directories (\<lambda>_. ret (Inl conflict)))) (\<lambda>r. spared good b)"
    by (rule hoare_sys_try [OF spared_publish_only]) (auto intro!: spared_try [OF spared_sync])
  have "hoare (spared good b) (try_act (read_target tx) (\<lambda>current.
      if current = None then sys_try (sys_publish tx) (\<lambda>_. try_act sync_directories (\<lambda>_. ret (Inl conflict)))
      else ret (Inl conflict))) (\<lambda>r. spared good b)"
    by (rule spared_try [OF spared_read_target_only]) (auto intro: publish)
  then have "hoare (spared good b) (try_act (read_artifact tx) (\<lambda>displaced.
      case displaced of None \<Rightarrow> ret (Inl Rollback_Conflict)
      | Some content \<Rightarrow> if digest content = expected then remove_artifact tx
          else try_act (read_target tx) (\<lambda>current.
            if current = None then sys_try (sys_publish tx) (\<lambda>_. try_act sync_directories (\<lambda>_. ret (Inl conflict)))
            else ret (Inl conflict)))) (\<lambda>r. spared good b)"
    using assms by (rule spared_settle_exchange [rotated])
  then show ?thesis
    unfolding take_target_def
    by (intro hoare_bind [OF spared_take])
      (auto split: sum.split errno.split intro!: spared_try [OF spared_sync])
qed

lemma spared_commit_delete:
  assumes "\<And>c. digest c = expected \<Longrightarrow> good c"
  shows "hoare (spared good b) (commit_delete digest tx expected) (\<lambda>r. spared good b)"
  unfolding commit_delete_def
  by (rule spared_look_at_artifact) (auto intro!: hoare_spared_conj spared_take_target assms)

lemma spared_restore_deleted:
  assumes "\<And>before. sc_before_markdown change = Some before \<Longrightarrow> good (utf8_encode before)"
  shows "hoare (spared good b) (restore_deleted tx change) (\<lambda>r. spared good b)"
proof -
  have publish: "hoare (\<lambda>w. spared good b w \<and> removable good tx w)
      (bind_act (sys_publish tx) (\<lambda>r. case r of Inr _ \<Rightarrow> sync_directories
         | Inl e \<Rightarrow> bind_act (remove_artifact tx) (\<lambda>_. ret (Inl (Runtime_Io e))))) (\<lambda>r. spared good b)"
    by (rule hoare_bind [OF spared_publish])
      (auto split: sum.split intro!: spared_sync hoare_bind [OF spared_remove_artifact])
  have "hoare (spared good b) (try_act (write_artifact tx (utf8_encode before)) (\<lambda>_.
      bind_act (sys_publish tx) (\<lambda>r. case r of Inr _ \<Rightarrow> sync_directories
         | Inl e \<Rightarrow> bind_act (remove_artifact tx) (\<lambda>_. ret (Inl (Runtime_Io e)))))) (\<lambda>r. spared good b)"
    if "sc_before_markdown change = Some before" for before
    by (rule hoare_try [OF spared_write_artifact [of good, OF assms [OF that]]]) (auto intro: hoare_pre [OF publish])
  then show ?thesis
    unfolding restore_deleted_def
    by (intro spared_try [OF spared_read_target_only])
      (auto split: option.split intro!: spared_look_at_artifact hoare_spared_conj)
qed

lemma spared_rollback_change:
  assumes "\<And>before. sc_before_markdown change = Some before \<Longrightarrow> good (utf8_encode before)"
    and "\<And>c. sc_before_sha256 change = Some (digest c) \<Longrightarrow> good c"
    and "\<And>c. digest c = sc_proposed_sha256 change \<Longrightarrow> good c"
  shows "hoare (spared good b) (rollback_change digest tx change) (\<lambda>r. spared good b)"
proof -
  define restore where "restore =
    (case sc_before_sha256 change of None \<Rightarrow> ret (Inl Rollback_Conflict)
     | Some before_digest \<Rightarrow> try_act (try_restore_exchange digest tx before_digest)
         (\<lambda>_. ret (Inl Rollback_Conflict :: runtime_error + unit)))"
  have restore: "hoare (spared good b) restore (\<lambda>r. spared good b)"
    unfolding restore_def using assms(2)
    by (auto split: option.split intro!: spared_try [OF spared_try_restore])
  have exchanged: "hoare (spared good b) (try_act (exchange tx) (\<lambda>_. try_act (read_artifact tx) (\<lambda>displaced.
      case displaced of None \<Rightarrow> ret (Inl Rollback_Conflict)
      | Some content \<Rightarrow> if digest content = sc_proposed_sha256 change then remove_artifact tx else restore)))
    (\<lambda>r. spared good b)"
    using assms(3) by (intro spared_try [OF spared_exchange_only] spared_settle_exchange restore)
  have written: "hoare (spared good b) (write_artifact tx (utf8_encode before)) (\<lambda>r. spared good b)"
    if "sc_before_markdown change = Some before" for before
    by (rule hoare_post [OF spared_write_artifact [of good, OF assms(1) [OF that]]]) simp
  show ?thesis
    unfolding rollback_change_def restore_def [symmetric]
    by (rule spared_look_at_artifact)
      (auto split: option.split intro!: hoare_spared_conj spared_try [OF written] exchanged
        spared_take_target assms(3))
qed

lemma spared_reconcile_artifact:
  assumes "\<And>c before. sc_before_markdown change = Some before \<Longrightarrow>
      digest c = digest (utf8_encode before) \<Longrightarrow> good c"
    and "\<And>c. digest c = digest (utf8_encode (sc_proposed_markdown change)) \<Longrightarrow> good c"
  shows "hoare (spared good b) (reconcile_artifact digest tx change proposed) (\<lambda>r. spared good b)"
  unfolding reconcile_artifact_def
  by (rule spared_look_at_artifact)
    (auto split: option.split intro!: hoare_spared_conj [OF spared_ret] spared_remove_seen intro: assms)

subsection \<open>A set of changes\<close>

text \<open>The contents a set of changes was prepared for.\<close>

definition prepared :: "(bytes \<Rightarrow> ustr) \<Rightarrow> staged_change list \<Rightarrow> bytes \<Rightarrow> bool" where
  "prepared digest approved content =
     list_ex (\<lambda>change. digest content = sc_proposed_sha256 change \<or>
       Some (digest content) = sc_before_sha256 change) approved"

lemma preparedI:
  "change \<in> set approved \<Longrightarrow> digest c = sc_proposed_sha256 change \<Longrightarrow> prepared digest approved c"
  "change \<in> set approved \<Longrightarrow> Some (digest c) = sc_before_sha256 change \<Longrightarrow> prepared digest approved c"
  by (auto simp: prepared_def list_ex_iff)

definition content_ok :: "(bytes \<Rightarrow> ustr) \<Rightarrow> staged_change \<Rightarrow> bool" where
  "content_ok digest change \<longleftrightarrow> (\<exists>h. validate_approved_content digest change = Inr h)"

lemma content_okD:
  assumes "content_ok digest change"
  shows "digest (utf8_encode (sc_proposed_markdown change)) = sc_proposed_sha256 change"
    and "sc_before_sha256 change = map_option (\<lambda>m. digest (utf8_encode m)) (sc_before_markdown change)"
    and "sc_delete change \<Longrightarrow> sc_before_markdown change \<noteq> None"
    and "validate_approved_content digest change = Inr (sc_proposed_sha256 change)"
  using assms
  by (auto simp: content_ok_def validate_approved_content_def Let_def split: if_splits)

lemma validate_changes_content:
  "validate_changes digest guru session paths changes = Inr () \<Longrightarrow> list_all (content_ok digest) changes"
  by (induction digest guru session paths changes rule: validate_changes.induct)
    (auto simp: Let_def content_ok_def split: if_splits sum.splits)

lemma validated_content:
  "validate_approved_change_set digest approved = Inr () \<Longrightarrow> list_all (content_ok digest) approved"
  by (auto simp: validate_approved_change_set_def split: if_splits intro: validate_changes_content)

abbreviation keeps ::
  "(bytes \<Rightarrow> ustr) \<Rightarrow> staged_change list \<Rightarrow> bytes list \<Rightarrow> (memory_world \<Rightarrow> 'r \<times> memory_world) \<Rightarrow> bool" where
  "keeps digest approved b m \<equiv>
     hoare (spared (prepared digest approved) b) m (\<lambda>r. spared (prepared digest approved) b)"

lemma before_prepared:
  "content_ok digest change \<Longrightarrow> change \<in> set approved \<Longrightarrow> sc_before_markdown change = Some before \<Longrightarrow>
   prepared digest approved (utf8_encode before)"
  using content_okD(2) [of digest change] by (auto intro: preparedI)

lemma spared_with_transaction:
  "(\<And>tx. keeps digest approved b (body tx)) \<Longrightarrow>
   keeps digest approved b (with_transaction digest present change body)"
  by (auto simp: with_transaction_def split: sum.split)

lemma spared_preflight: "keeps digest approved b (preflight_approved_target digest present change p)"
  unfolding preflight_approved_target_def
  by (rule spared_with_transaction, rule spared_try [OF spared_read_target_only]) (auto simp: Let_def)

lemma spared_preflight_all: "keeps digest approved b (preflight_all digest present p changes)"
  by (induction changes) (auto intro!: spared_try [OF spared_preflight])

lemma spared_commit:
  assumes "change \<in> set approved" and ok: "content_ok digest change"
  shows "keeps digest approved b (commit_approved_change digest present root change)"
proof -
  note prep = preparedI [OF assms(1)]
  have commit: "hoare (\<lambda>w. spared (prepared digest approved) b w \<and> removable (prepared digest approved) tx w)
      (commit_proposed digest tx (sc_before_sha256 change) (sc_proposed_sha256 change))
      (\<lambda>r. spared (prepared digest approved) b)" for tx
    by (rule spared_commit_proposed) (auto intro: prep)
  have written: "keeps digest approved b (try_act (write_artifact tx (utf8_encode (sc_proposed_markdown change)))
      (\<lambda>_. commit_proposed digest tx (sc_before_sha256 change) (sc_proposed_sha256 change)))" for tx
    using content_okD(1) [OF ok]
    by (intro hoare_try [OF spared_write_artifact])
      (auto intro: prep hoare_pre [OF commit])
  have "keeps digest approved b (commit_in_transaction digest change (sc_proposed_sha256 change) tx)" for tx
  proof (cases "sc_delete change")
    case True
    then show ?thesis
      by (auto simp: commit_in_transaction_def split: option.split intro!: spared_commit_delete prep)
  next
    case False
    then show ?thesis using written by (simp add: commit_in_transaction_def)
  qed
  then show ?thesis
    using content_okD(4) [OF ok]
    by (auto simp: commit_approved_change_def split: sum.split
        intro!: spared_try [OF spared_preflight] spared_try [OF spared_with_transaction])
qed

lemma spared_rollback_one:
  assumes "change \<in> set approved" and ok: "content_ok digest change"
  shows "keeps digest approved b (rollback_one digest present change)"
  unfolding rollback_one_def
  using before_prepared [OF ok assms(1)] preparedI [OF assms(1)]
  by (intro spared_with_transaction) (auto intro!: spared_restore_deleted spared_rollback_change)

lemma spared_rollback_all:
  "list_all (content_ok digest) approved \<Longrightarrow> set changes \<subseteq> set approved \<Longrightarrow>
   keeps digest approved b (rollback_all digest present changes)"
  by (induction changes) (auto simp: list_all_iff intro!: spared_try [OF spared_rollback_one])

lemma spared_rollback_prefix:
  "list_all (content_ok digest) approved \<Longrightarrow>
   keeps digest approved b (rollback_applied_prefix digest present approved n)"
  unfolding rollback_applied_prefix_def by (rule spared_rollback_all) (auto dest: in_set_takeD)

lemma spared_commit_all:
  "list_all (content_ok digest) approved \<Longrightarrow> set changes \<subseteq> set approved \<Longrightarrow>
   keeps digest approved b (commit_all digest present root approved applied changes)"
proof (induction changes arbitrary: applied)
  case (Cons change changes)
  then have "content_ok digest change" and "change \<in> set approved" by (auto simp: list_all_iff)
  then show ?case using Cons
    by (auto split: sum.split intro!: hoare_bind [OF spared_commit] spared_try [OF spared_rollback_prefix])
qed simp

lemma spared_validation: "keeps digest approved b (run_validation valid)"
  by (simp add: hoare_def run_validation_def)

lemma spared_apply:
  "list_all (content_ok digest) approved \<Longrightarrow>
   keeps digest approved b (apply_memory_markdown_set digest present valid root approved)"
  unfolding apply_memory_markdown_set_def
  by (auto split: sum.split intro!: spared_try [OF spared_validation] spared_try [OF spared_preflight_all]
      spared_try [OF spared_commit_all] hoare_bind [OF spared_validation] spared_try [OF spared_rollback_prefix])

lemma spared_rollback_set:
  "list_all (content_ok digest) approved \<Longrightarrow>
   keeps digest approved b (rollback_memory_markdown_set digest present layout valid approved)"
  unfolding rollback_memory_markdown_set_def
  by (auto split: sum.split intro!: spared_try [OF spared_preflight_all]
      spared_try [OF spared_rollback_prefix] spared_validation)

lemma spared_now: "spared good (mw_destroyed w) w"
  by (simp add: spared_def)

lemma spared_run:
  "(validate_approved_change_set digest approved = Inr () \<Longrightarrow>
      hoare (spared good (mw_destroyed w)) m (\<lambda>r. spared good (mw_destroyed w))) \<Longrightarrow>
   (validate_approved_change_set digest approved \<noteq> Inr () \<Longrightarrow> snd (m w) = w) \<Longrightarrow>
   spared good (mw_destroyed w) (snd (m w))"
  by (cases "m w"; cases "validate_approved_change_set digest approved = Inr ()")
    (auto dest: hoareD [OF _ spared_now] intro: spared_now)

text \<open>
  C18: Whatever others write to the Memory files between two system calls, and whichever calls
  fail, applying a set of Memory changes and rolling it back destroy only contents whose digest is
  the one of a proposed content or of a content that the writer had read; every other content is
  still in a file, unless a directory failed to sync.
\<close>
theorem only_prepared_contents_destroyed:
  "spared (prepared digest approved) (mw_destroyed w)
     (snd (apply_memory_markdown_set digest present valid root approved w)) \<and>
   spared (prepared digest approved) (mw_destroyed w)
     (snd (rollback_memory_markdown_set digest present layout valid approved w))"
proof (rule conjI; rule spared_run)
  show "snd (apply_memory_markdown_set digest present valid root approved w) = w"
    and "snd (rollback_memory_markdown_set digest present layout valid approved w) = w"
    if "validate_approved_change_set digest approved \<noteq> Inr ()"
    using that by (auto simp: apply_memory_markdown_set_def rollback_memory_markdown_set_def ret_def
        split: sum.split)
qed (auto intro!: spared_apply spared_rollback_set validated_content)

text \<open>
  C20: The exception is real. Somebody saves \<open>edit\<close> over the target after the writer looked at
  it; the exchange publishes the proposal and moves \<open>edit\<close> into the artifact; the \<^theory_text>\<open>fsync\<close> that
  follows fails. The commit then unlinks the artifact without comparing its digest: the edit is in no
  file any more, and the proposal stays published although an error is returned.
\<close>
theorem failed_sync_loses_edit:
  "commit_proposed digest tx (Some expected) published
     \<lparr>mw_targets = [(tx_target tx, Regular before)],
      mw_artifacts = [(tx_artifact tx, Regular proposed)],
      mw_turns = [\<lparr>tn_edits = [(tx_target tx, Some (Regular edit))], tn_failure = None, tn_partial = 0\<rparr>,
                  \<lparr>tn_edits = [], tn_failure = Some reason, tn_partial = 0\<rparr>],
      mw_destroyed = [], mw_sync_failed = False\<rparr> =
   (Inl (Runtime_Io (Errno_Other reason)),
     \<lparr>mw_targets = [(tx_target tx, Regular proposed)], mw_artifacts = [], mw_turns = [],
      mw_destroyed = [edit], mw_sync_failed = True\<rparr>)"
  by (simp add: commit_proposed_def exchange_def sys_exchange_def sync_directories_def sys_sync_dir_def
      remove_artifact_def sys_unlink_artifact_def sys_sync_def sys_try_def bind_act_def ret_def sys_def
      apply_edits_def set_entry_def artifact_of_tx_def target_of_tx_def put_artifact_def put_target_def
      intact_def destroyed_content_def Let_def)

end
