(* ===== verification/Memory_Atomic.thy ===== *)
theory Memory_Atomic
  imports Memory_Safety
begin

text \<open>
  Memory transactions without interference: a set of changes is applied as a whole or not at all,
  and rolling an applied set back gives the files it started from. \<open>quiet\<close> worlds have an empty
  script; \<open>effect\<close> says what an operation does to the two directories, seen as functions.
\<close>

type_synonym targets = "ustr list \<Rightarrow> file_entry option"
type_synonym artifacts = "ustr \<Rightarrow> file_entry option"

definition quiet :: "targets \<Rightarrow> artifacts \<Rightarrow> memory_world \<Rightarrow> bool" where
  "quiet T A w \<longleftrightarrow> mw_turns w = [] \<and> bt_inv (mw_targets w) \<and> bt_inv (mw_artifacts w) \<and>
     bt_get (mw_targets w) = T \<and> bt_get (mw_artifacts w) = A"

definition effect ::
  "targets \<Rightarrow> artifacts \<Rightarrow> (memory_world \<Rightarrow> 'r \<times> memory_world) \<Rightarrow> 'r \<Rightarrow> targets \<Rightarrow> artifacts \<Rightarrow> bool" where
  "effect T A m r T' A' \<longleftrightarrow> (\<forall>w. quiet T A w \<longrightarrow> (\<exists>w'. m w = (r, w') \<and> quiet T' A' w'))"

lemma effectD:
  assumes "effect T A m r T' A'" and "quiet T A w"
  obtains w' where "m w = (r, w')" and "quiet T' A' w'"
  using assms by (auto simp: effect_def)

lemma effect_ret: "effect T A (ret r) r T A"
  by (simp add: effect_def ret_def)

lemma effect_bind:
  "effect T A m r T1 A1 \<Longrightarrow> effect T1 A1 (f r) s T2 A2 \<Longrightarrow> effect T A (bind_act m f) s T2 A2"
  by (fastforce simp: effect_def bind_act_def)

lemma effect_try:
  assumes "effect T A m (Inr x) T1 A1" and "effect T1 A1 (f x) s T2 A2"
  shows "effect T A (try_act m f) s T2 A2"
  unfolding try_act_def by (rule effect_bind [OF assms(1)]) (simp add: assms(2))

lemma effect_sys_try:
  assumes "effect T A m (Inr x) T1 A1" and "effect T1 A1 (f x) s T2 A2"
  shows "effect T A (sys_try m f) s T2 A2"
  unfolding sys_try_def by (rule effect_bind [OF assms(1)]) (simp add: assms(2))

lemma quiet_sys: "quiet T A w \<Longrightarrow> sys broken call w = call w"
  by (simp add: quiet_def sys_def)

lemma quiet_get:
  "quiet T A w \<Longrightarrow> target_of_tx tx w = T (tx_target tx)"
  "quiet T A w \<Longrightarrow> artifact_of_tx tx w = A (tx_artifact tx)"
  by (auto simp: quiet_def target_of_tx_def artifact_of_tx_def)

lemma set_entry_get: "bt_inv m \<Longrightarrow> bt_get (set_entry k e m) = (bt_get m)(k := e)"
  by (auto simp: set_entry_def split: option.split)

lemma set_entry_inv: "bt_inv m \<Longrightarrow> bt_inv (set_entry k e m)"
  by (auto simp: set_entry_def split: option.split)

lemma quiet_put:
  "quiet T A w \<Longrightarrow> quiet (T(tx_target tx := e)) A (put_target tx e w)"
  "quiet T A w \<Longrightarrow> quiet T (A(tx_artifact tx := e)) (put_artifact tx e w)"
  by (auto simp: quiet_def put_target_def put_artifact_def set_entry_get set_entry_inv)

lemma quiet_destroyed: "quiet T A (w\<lparr>mw_destroyed := ds\<rparr>) = quiet T A w"
  by (simp add: quiet_def)

text \<open>A call that succeeds in a quiet world, given the world it makes.\<close>

lemma effect_sys:
  assumes "\<And>w. quiet T A w \<Longrightarrow> call w = (r, next w)" and "\<And>w. quiet T A w \<Longrightarrow> quiet T' A' (next w)"
  shows "effect T A (sys broken call) r T' A'"
  using assms by (simp add: effect_def quiet_sys)

subsection \<open>The operations on quiet worlds\<close>

lemma effect_reads:
  "effect T A (read_target tx) (read_regular (T (tx_target tx))) T A"
  "effect T A (read_artifact tx) (read_regular (A (tx_artifact tx))) T A"
  unfolding read_target_def read_artifact_def
  by (rule effect_sys_try [OF effect_sys effect_ret]; simp add: quiet_get)+

lemma effect_sync: "effect T A sync_directories (Inr ()) T A"
  unfolding sync_directories_def sys_sync_dir_def
  by (rule effect_sys_try [OF effect_sys effect_sys_try [OF effect_sys effect_ret]]) simp_all

lemma effect_sys_sync: "effect T A sys_sync (Inr ()) T A"
  unfolding sys_sync_def by (rule effect_sys) simp_all

lemma effect_write:
  assumes "A (tx_artifact tx) = None"
  shows "effect T A (write_artifact tx content) (Inr ()) T (A(tx_artifact tx \<mapsto> Regular content))"
proof -
  let ?B = "A(tx_artifact tx \<mapsto> Regular [])"
  have "effect T A (sys_create tx) (Inr ()) T ?B"
    unfolding sys_create_def using assms by (rule_tac effect_sys) (simp add: quiet_get, rule quiet_put)
  moreover have "effect T ?B (sys_write tx content) (Inr ()) T (?B(tx_artifact tx \<mapsto> Regular content))"
    unfolding sys_write_def by (rule effect_sys) (simp, rule quiet_put)
  ultimately show ?thesis
    unfolding write_artifact_def
    by (elim effect_bind) (auto intro!: effect_sys_try [OF _ effect_sys_try [OF effect_sys_sync
        effect_sys_try [OF effect_sys_sync effect_ret]]])
qed

lemma effect_remove: "effect T A (remove_artifact tx) (Inr ()) T (A(tx_artifact tx := None))"
proof (cases "A (tx_artifact tx)")
  case None
  then have "effect T A (sys_unlink_artifact tx) (Inl Errno_Noent) T A"
    unfolding sys_unlink_artifact_def by (rule_tac effect_sys) (simp add: quiet_get)
  then show ?thesis
    unfolding remove_artifact_def using None by (elim effect_bind) (simp add: effect_ret fun_upd_idem)
next
  case (Some e)
  have "effect T A (sys_unlink_artifact tx) (Inr ()) T (A(tx_artifact tx := None))"
    unfolding sys_unlink_artifact_def
    by (rule effect_sys) (simp add: quiet_get Some, simp only: quiet_destroyed, rule quiet_put)
  then show ?thesis
    unfolding remove_artifact_def
    by (elim effect_bind) (simp, rule effect_sys_try [OF effect_sys_sync effect_ret])
qed

lemma effect_publish:
  "A (tx_artifact tx) = Some e \<Longrightarrow> T (tx_target tx) = None \<Longrightarrow>
   effect T A (sys_publish tx) (Inr ()) (T(tx_target tx \<mapsto> e)) (A(tx_artifact tx := None))"
  unfolding sys_publish_def by (rule effect_sys) (simp add: quiet_get, intro quiet_put)

lemma effect_take:
  "T (tx_target tx) = Some e \<Longrightarrow> A (tx_artifact tx) = None \<Longrightarrow>
   effect T A (sys_take tx) (Inr ()) (T(tx_target tx := None)) (A(tx_artifact tx \<mapsto> e))"
  unfolding sys_take_def by (rule effect_sys) (simp add: quiet_get, intro quiet_put)

lemma effect_exchange:
  assumes "A (tx_artifact tx) = Some a" and "T (tx_target tx) = Some t"
  shows "effect T A (exchange tx) (Inr ()) (T(tx_target tx \<mapsto> a)) (A(tx_artifact tx \<mapsto> t))"
proof -
  have "effect T A (sys_exchange tx) (Inr ()) (T(tx_target tx \<mapsto> a)) (A(tx_artifact tx \<mapsto> t))"
    unfolding sys_exchange_def using assms by (rule_tac effect_sys) (simp add: quiet_get, intro quiet_put)
  then show ?thesis
    unfolding exchange_def by (rule effect_sys_try [OF _ effect_sync])
qed

subsection \<open>One change\<close>

definition before_entry :: "staged_change \<Rightarrow> file_entry option" where
  "before_entry change = map_option (\<lambda>m. Regular (utf8_encode m)) (sc_before_markdown change)"

definition proposed_entry :: "staged_change \<Rightarrow> file_entry option" where
  "proposed_entry change =
     (if sc_delete change then None else Some (Regular (utf8_encode (sc_proposed_markdown change))))"

text \<open>The two contents of a change can be read back.\<close>

definition readable :: "staged_change \<Rightarrow> bool" where
  "readable change \<longleftrightarrow>
     length (utf8_encode (sc_proposed_markdown change)) \<le> max_memory_file_bytes \<and>
     pred_option (\<lambda>m. length (utf8_encode m) \<le> max_memory_file_bytes) (sc_before_markdown change)"

lemma read_regular_readable [simp]:
  "length c \<le> max_memory_file_bytes \<Longrightarrow> read_regular (Some (Regular c)) = Inr (Some c)"
  "read_regular None = Inr None"
  by (simp_all add: read_regular_def)

lemma effect_settle:
  assumes "A (tx_artifact tx) = Some (Regular c)" and "length c \<le> max_memory_file_bytes"
    and "digest c = expected" and "A(tx_artifact tx := None) = A'"
  shows "effect T A (try_act (read_artifact tx) (\<lambda>displaced.
      case displaced of None \<Rightarrow> ret (Inl Rollback_Conflict)
      | Some content \<Rightarrow> if digest content = expected then remove_artifact tx else restore content))
    (Inr ()) T A'"
  using effect_reads(2) [of T A tx] effect_remove [of T A tx] assms by (intro effect_try) auto

lemma effect_take_target:
  assumes "A (tx_artifact tx) = None" and "T (tx_target tx) = Some (Regular c)"
    and "length c \<le> max_memory_file_bytes" and "digest c = expected"
  shows "effect T A (take_target digest tx expected conflict) (Inr ()) (T(tx_target tx := None)) A"
proof -
  have "effect T A (take_target digest tx expected conflict) (Inr ())
      (T(tx_target tx := None)) (A(tx_artifact tx \<mapsto> Regular c, tx_artifact tx := None))"
    unfolding take_target_def
    by (rule effect_bind [OF effect_take], rule assms, rule assms, simp, rule effect_try [OF effect_sync])
      (use assms in \<open>auto intro!: effect_settle\<close>)
  then show ?thesis using assms(1) by (simp add: fun_upd_idem)
qed

lemma effect_no_pending:
  assumes "A (tx_artifact tx) = None" and "effect T A (f None) r T' A'"
  shows "effect T A (try_act (read_artifact tx) f) r T' A'"
  using effect_reads(2) [of T A tx] assms by (intro effect_try) auto

lemma effect_no_target:
  assumes "T (tx_target tx) = None" and "effect T A (f None) r T' A'"
  shows "effect T A (try_act (read_target tx) f) r T' A'"
  using effect_reads(1) [of T A tx] assms by (intro effect_try) auto

lemma effect_staged_publish:
  assumes "A (tx_artifact tx) = None" and "T (tx_target tx) = None"
    and "\<And>B. effect (T(tx_target tx \<mapsto> Regular content)) B (f (Inr ())) r T' B"
  shows "effect T A (try_act (write_artifact tx content) (\<lambda>_. bind_act (sys_publish tx) f)) r T' A"
proof -
  let ?B = "A(tx_artifact tx \<mapsto> Regular content)"
  have "effect T ?B (bind_act (sys_publish tx) f) r T' (?B(tx_artifact tx := None))"
    using assms(2,3) by (intro effect_bind [OF effect_publish]) auto
  then show ?thesis
    using assms(1) by (intro effect_try [OF effect_write]) (auto simp: fun_upd_idem)
qed

lemma effect_commit:
  assumes free: "A (tx_artifact tx) = None" and before: "T (tx_target tx) = before_entry change"
    and ok: "content_ok digest change" and small: "readable change"
  shows "effect T A (commit_in_transaction digest change (sc_proposed_sha256 change) tx) (Inr ())
    (T(tx_target tx := proposed_entry change)) A"
proof (cases "sc_before_markdown change")
  case None
  then have "\<not> sc_delete change" and "sc_before_sha256 change = None"
    using content_okD [OF ok] by auto
  moreover have "effect T A (try_act (write_artifact tx (utf8_encode (sc_proposed_markdown change)))
      (\<lambda>_. commit_proposed digest tx None (sc_proposed_sha256 change))) (Inr ())
      (T(tx_target tx := proposed_entry change)) A"
    unfolding commit_proposed_def option.case using None calculation free before
    by (intro effect_staged_publish) (auto simp: before_entry_def proposed_entry_def effect_sync)
  ultimately show ?thesis by (simp add: commit_in_transaction_def)
next
  case (Some m)
  let ?new = "Regular (utf8_encode (sc_proposed_markdown change))"
  have sha: "sc_before_sha256 change = Some (digest (utf8_encode m))"
    and target: "T (tx_target tx) = Some (Regular (utf8_encode m))"
    and size: "length (utf8_encode m) \<le> max_memory_file_bytes"
    using Some content_okD(2) [OF ok] before small by (auto simp: before_entry_def readable_def)
  show ?thesis
  proof (cases "sc_delete change")
    case True
    then show ?thesis
      unfolding commit_in_transaction_def commit_delete_def using sha target size free
      by (auto simp: proposed_entry_def intro!: effect_no_pending effect_take_target)
  next
    case False
    have "effect T (A(tx_artifact tx \<mapsto> ?new))
        (commit_proposed digest tx (Some (digest (utf8_encode m))) (sc_proposed_sha256 change)) (Inr ())
        (T(tx_target tx \<mapsto> ?new))
        (A(tx_artifact tx \<mapsto> ?new, tx_artifact tx \<mapsto> Regular (utf8_encode m), tx_artifact tx := None))"
      unfolding commit_proposed_def option.case using target size
      by (intro effect_bind [OF effect_exchange]) (auto intro!: effect_settle)
    then show ?thesis
      using False sha free
      by (auto simp: commit_in_transaction_def proposed_entry_def fun_upd_idem
          intro!: effect_try [OF effect_write])
  qed
qed

definition undo_change ::
  "(bytes \<Rightarrow> ustr) \<Rightarrow> memory_transaction \<Rightarrow> staged_change \<Rightarrow> memory_world \<Rightarrow> (runtime_error + unit) \<times> memory_world" where
  "undo_change digest tx change =
     (if sc_delete change then restore_deleted tx change else rollback_change digest tx change)"

lemma effect_undo:
  assumes free: "A (tx_artifact tx) = None" and proposed: "T (tx_target tx) = proposed_entry change"
    and ok: "content_ok digest change" and small: "readable change"
  shows "effect T A (undo_change digest tx change) (Inr ()) (T(tx_target tx := before_entry change)) A"
proof (cases "sc_delete change")
  case True
  then obtain m where m: "sc_before_markdown change = Some m"
    using content_okD(3) [OF ok] by auto
  have "effect T A (try_act (write_artifact tx (utf8_encode m)) (\<lambda>_. bind_act (sys_publish tx) (\<lambda>r. case r of
      Inr _ \<Rightarrow> sync_directories
    | Inl e \<Rightarrow> bind_act (remove_artifact tx) (\<lambda>_. ret (Inl (Runtime_Io e)))))) (Inr ())
      (T(tx_target tx := before_entry change)) A"
    using True m free proposed
    by (intro effect_staged_publish) (auto simp: before_entry_def proposed_entry_def effect_sync)
  then show ?thesis
    unfolding undo_change_def restore_deleted_def
    using True m free proposed
    by (auto simp: proposed_entry_def intro!: effect_no_target effect_no_pending)
next
  case False
  let ?new = "Regular (utf8_encode (sc_proposed_markdown change))"
  have target: "T (tx_target tx) = Some ?new"
    and size: "length (utf8_encode (sc_proposed_markdown change)) \<le> max_memory_file_bytes"
    using False proposed small by (auto simp: proposed_entry_def readable_def)
  note sha = content_okD(1) [OF ok]
  show ?thesis
  proof (cases "sc_before_markdown change")
    case None
    then show ?thesis
      unfolding undo_change_def rollback_change_def using False target size sha free
      by (auto simp: before_entry_def intro!: effect_no_pending effect_take_target)
  next
    case (Some m)
    let ?B = "A(tx_artifact tx \<mapsto> Regular (utf8_encode m))"
    have "effect T ?B (try_act (exchange tx) (\<lambda>_. try_act (read_artifact tx) (\<lambda>displaced.
        case displaced of None \<Rightarrow> ret (Inl Rollback_Conflict)
        | Some content \<Rightarrow> if digest content = sc_proposed_sha256 change then remove_artifact tx
            else restore content))) (Inr ())
        (T(tx_target tx \<mapsto> Regular (utf8_encode m))) (?B(tx_artifact tx \<mapsto> ?new, tx_artifact tx := None))" for restore
      using target size sha by (intro effect_try [OF effect_exchange]) (auto intro!: effect_settle)
    then show ?thesis
      unfolding undo_change_def rollback_change_def using False Some free
      by (auto simp: before_entry_def fun_upd_idem intro!: effect_no_pending effect_try [OF effect_write])
  qed
qed

subsection \<open>A set of changes\<close>

definition change_names :: "staged_change \<Rightarrow> ustr list" where
  "change_names change =
     (case validate_memory_relative_path (sc_relative_path change) of Inl _ \<Rightarrow> [] | Inr names \<Rightarrow> names)"

definition apply_spec :: "staged_change list \<Rightarrow> targets \<Rightarrow> targets" where
  "apply_spec changes T = foldl (\<lambda>U c. U(change_names c := proposed_entry c)) T changes"

lemma apply_spec_simps [simp]:
  "apply_spec [] T = T"
  "apply_spec (changes @ [c]) T = (apply_spec changes T)(change_names c := proposed_entry c)"
  by (simp_all add: apply_spec_def)

lemma apply_spec_Cons: "apply_spec (c # changes) T = apply_spec changes (T(change_names c := proposed_entry c))"
  by (simp add: apply_spec_def)

lemma apply_spec_other: "names \<notin> change_names ` set changes \<Longrightarrow> apply_spec changes T names = T names"
  by (induction changes rule: rev_induct) auto

lemma apply_spec_names:
  "distinct (map change_names changes) \<Longrightarrow> c \<in> set changes \<Longrightarrow>
   apply_spec changes T (change_names c) = proposed_entry c"
proof (induction changes rule: rev_induct)
  case (snoc x xs)
  have "change_names c \<noteq> change_names x" if "c \<in> set xs"
  proof -
    have "change_names x \<notin> change_names ` set xs" using snoc.prems(1) by simp
    then show ?thesis using that by (metis image_eqI)
  qed
  then show ?case using snoc by (cases "c = x") auto
qed simp

text \<open>Validated changes are about different files.\<close>

lemma normal_names_inj: "normal_names cs = Some ns \<Longrightarrow> cs = map Normal_Component ns"
  by (induction cs arbitrary: ns rule: normal_names.induct) auto

lemma validate_path_names:
  "validate_memory_relative_path path = Inr names \<Longrightarrow> path_components path = map Normal_Component names"
  by (auto simp: validate_memory_relative_path_def split: option.splits if_splits dest: normal_names_inj)

lemma validate_changes_names:
  "validate_changes digest guru session paths changes = Inr () \<Longrightarrow>
   distinct (map change_names changes) \<and>
   (\<forall>c\<in>set changes. path_components (sc_relative_path c) \<notin> set paths \<and>
      validate_memory_relative_path (sc_relative_path c) = Inr (change_names c))"
proof (induction digest guru session paths changes rule: validate_changes.induct)
  case (2 digest guru session paths c changes)
  let ?path = "path_components (sc_relative_path c)"
  have fresh: "?path \<notin> set paths"
    using "2.prems" by (simp add: Let_def split: if_splits)
  obtain names where valid: "validate_memory_relative_path (sc_relative_path c) = Inr names"
    using "2.prems" by (auto simp: Let_def split: if_splits sum.splits)
  have "validate_changes digest guru session (?path # paths) changes = Inr ()"
    using "2.prems" by (simp add: Let_def split: if_splits sum.splits)
  moreover obtain hash where "validate_approved_content digest c = Inr hash"
    using "2.prems" by (auto simp: Let_def split: if_splits sum.splits)
  moreover have "\<not> (sc_guru_id c \<noteq> guru \<or> sc_session_id c \<noteq> session \<or> ?path \<in> set paths)"
    using "2.prems" by (simp add: Let_def split: if_splits)
  ultimately have rest: "distinct (map change_names changes)"
      "\<forall>x\<in>set changes. path_components (sc_relative_path x) \<notin> set (?path # paths) \<and>
        validate_memory_relative_path (sc_relative_path x) = Inr (change_names x)"
    using "2.IH" [OF refl _ valid] by blast+
  have names: "change_names c = names" using valid by (simp add: change_names_def)
  have "change_names x \<noteq> names" if "x \<in> set changes" for x
    using rest(2) that validate_path_names [OF valid]
      validate_path_names [of "sc_relative_path x" "change_names x"] by auto
  then have "names \<notin> change_names ` set changes" by blast
  then show ?case using valid fresh rest names by simp
qed simp

lemma validated_names:
  assumes "validate_approved_change_set digest approved = Inr ()"
  shows "distinct (map change_names approved)"
    and "\<And>c. c \<in> set approved \<Longrightarrow> validate_memory_relative_path (sc_relative_path c) = Inr (change_names c)"
  using assms
  by (auto simp: validate_approved_change_set_def split: if_splits dest: validate_changes_names)

lemma opened_transaction:
  "open_transaction digest present c = Inr tx \<Longrightarrow>
   tx_target tx = change_names c \<and> tx_artifact tx = artifact_name digest c"
  by (auto simp: open_transaction_def change_names_def split: sum.splits if_splits)

text \<open>A change that can be committed, and one that can be undone.\<close>

definition sound_change ::
  "(bytes \<Rightarrow> ustr) \<Rightarrow> (ustr list \<Rightarrow> bool) \<Rightarrow> artifacts \<Rightarrow> staged_change \<Rightarrow> bool" where
  "sound_change digest present A c \<longleftrightarrow>
     (\<exists>tx. open_transaction digest present c = Inr tx) \<and> content_ok digest c \<and> readable c \<and>
     A (artifact_name digest c) = None"

lemma effect_with_transaction:
  assumes "sound_change digest present A c"
    and "\<And>tx. tx_target tx = change_names c \<Longrightarrow> tx_artifact tx = artifact_name digest c \<Longrightarrow>
      effect T A (body tx) r T' A'"
  shows "effect T A (with_transaction digest present c body) r T' A'"
  using assms opened_transaction [of digest present c]
  by (auto simp: with_transaction_def sound_change_def)

lemma effect_rollback_one:
  assumes "sound_change digest present A c" and "T (change_names c) = proposed_entry c"
  shows "effect T A (rollback_one digest present c) (Inr ()) (T(change_names c := before_entry c)) A"
  unfolding rollback_one_def undo_change_def [symmetric]
proof (rule effect_with_transaction [OF assms(1)])
  fix tx :: memory_transaction
  assume "tx_target tx = change_names c" and "tx_artifact tx = artifact_name digest c"
  then show "effect T A (undo_change digest tx c) (Inr ()) (T(change_names c := before_entry c)) A"
    using assms effect_undo [of A tx T c digest] by (simp add: sound_change_def)
qed

lemma effect_rollback_all:
  assumes "list_all (sound_change digest present A) changes" and "distinct (map change_names changes)"
    and "\<And>c. c \<in> set changes \<Longrightarrow> T (change_names c) = before_entry c"
  shows "effect (apply_spec changes T) A (rollback_all digest present (rev changes)) (Inr ()) T A"
  using assms
proof (induction changes rule: rev_induct)
  case (snoc c changes)
  let ?U = "apply_spec changes T"
  have "?U (change_names c) = before_entry c"
    using snoc.prems by (simp add: apply_spec_other)
  then have "?U(change_names c := before_entry c) = ?U" by (simp add: fun_upd_idem)
  then have "effect (apply_spec (changes @ [c]) T) A (rollback_one digest present c) (Inr ()) ?U A"
    using snoc.prems effect_rollback_one [of digest present A c "apply_spec (changes @ [c]) T"] by simp
  moreover have "effect ?U A (rollback_all digest present (rev changes)) (Inr ()) T A"
    using snoc.prems by (intro snoc.IH) auto
  ultimately show ?case unfolding rev_append by (simp add: effect_try del: apply_spec_simps)
qed (simp add: effect_ret)

text \<open>The check before a change, which only looks.\<close>

lemma effect_preflight:
  assumes "sound_change digest present A c" and "read_regular (T (change_names c)) = Inr content"
    and "map_option digest content =
      (if p \<and> sc_delete c then None else if p then Some (sc_proposed_sha256 c) else sc_before_sha256 c)"
  shows "effect T A (preflight_approved_target digest present c p) (Inr ()) T A"
  unfolding preflight_approved_target_def
proof (rule effect_with_transaction [OF assms(1)])
  fix tx :: memory_transaction
  assume "tx_target tx = change_names c"
  then show "effect T A (try_act (read_target tx) (\<lambda>actual.
       let expected = (if p \<and> sc_delete c then None else if p then Some (sc_proposed_sha256 c)
          else sc_before_sha256 c) in
       if map_option digest actual \<noteq> expected then
         ret (Inl (if p then Rollback_Conflict else Before_Hash_Mismatch))
       else ret (Inr ()))) (Inr ()) T A"
    using effect_reads(1) [of T A tx] assms(2,3) by (intro effect_try) (auto simp: effect_ret)
qed

lemma effect_preflight_before:
  assumes "sound_change digest present A c" and "T (change_names c) = before_entry c"
  shows "effect T A (preflight_approved_target digest present c False) (Inr ()) T A"
proof (rule effect_preflight [OF assms(1)])
  show "read_regular (T (change_names c)) = Inr (map_option utf8_encode (sc_before_markdown c))"
    using assms by (cases "sc_before_markdown c") (auto simp: before_entry_def sound_change_def readable_def)
  show "map_option digest (map_option utf8_encode (sc_before_markdown c)) =
    (if False \<and> sc_delete c then None else if False then Some (sc_proposed_sha256 c) else sc_before_sha256 c)"
    using assms content_okD(2) [of digest c] by (auto simp: sound_change_def option.map_comp comp_def)
qed

lemma effect_preflight_proposed:
  assumes "sound_change digest present A c" and "T (change_names c) = proposed_entry c"
  shows "effect T A (preflight_approved_target digest present c True) (Inr ()) T A"
proof (rule effect_preflight [OF assms(1)])
  let ?content = "if sc_delete c then None else Some (utf8_encode (sc_proposed_markdown c))"
  show "read_regular (T (change_names c)) = Inr ?content"
    using assms by (auto simp: proposed_entry_def sound_change_def readable_def)
  show "map_option digest ?content =
    (if True \<and> sc_delete c then None else if True then Some (sc_proposed_sha256 c) else sc_before_sha256 c)"
    using assms content_okD(1) [of digest c] by (auto simp: sound_change_def)
qed

lemma effect_preflight_all:
  "(\<And>c. c \<in> set changes \<Longrightarrow> effect T A (preflight_approved_target digest present c p) (Inr ()) T A) \<Longrightarrow>
   effect T A (preflight_all digest present p changes) (Inr ()) T A"
  by (induction changes) (auto intro: effect_ret effect_try)

definition applied_item :: "ustr \<Rightarrow> staged_change \<Rightarrow> applied_change" where
  "applied_item root c = \<lparr>ac_absolute_path = root @ [47] @ sc_relative_path c,
     ac_before_sha256 = sc_before_sha256 c, ac_after_sha256 = sc_proposed_sha256 c\<rparr>"

lemma effect_commit_change:
  assumes "sound_change digest present A c" and "T (change_names c) = before_entry c"
    and "validate_memory_relative_path (sc_relative_path c) = Inr (change_names c)"
  shows "effect T A (commit_approved_change digest present root c) (Inr (applied_item root c))
    (T(change_names c := proposed_entry c)) A"
proof -
  have "effect T A (with_transaction digest present c
      (commit_in_transaction digest c (sc_proposed_sha256 c))) (Inr ()) (T(change_names c := proposed_entry c)) A"
  proof (rule effect_with_transaction [OF assms(1)])
    fix tx :: memory_transaction
    assume "tx_target tx = change_names c" and "tx_artifact tx = artifact_name digest c"
    then show "effect T A (commit_in_transaction digest c (sc_proposed_sha256 c) tx) (Inr ())
        (T(change_names c := proposed_entry c)) A"
      using assms(1,2) effect_commit [of A tx T c digest] by (simp add: sound_change_def)
  qed
  then show ?thesis
    unfolding commit_approved_change_def
    using assms content_okD(4) [of digest c] effect_preflight_before [of digest present A c T]
    by (auto simp: sound_change_def applied_item_def intro!: effect_try effect_ret)
qed

lemma effect_commit_all:
  assumes "list_all (sound_change digest present A) changes" and "distinct (map change_names changes)"
    and "\<And>c. c \<in> set changes \<Longrightarrow> T (change_names c) = before_entry c"
    and "\<And>c. c \<in> set changes \<Longrightarrow> validate_memory_relative_path (sc_relative_path c) = Inr (change_names c)"
  shows "effect T A (commit_all digest present root approved applied changes)
    (Inr (applied @ map (applied_item root) changes)) (apply_spec changes T) A"
  using assms
proof (induction changes arbitrary: T applied)
  case (Cons c changes)
  have "effect T A (commit_approved_change digest present root c) (Inr (applied_item root c))
      (T(change_names c := proposed_entry c)) A"
    using Cons.prems by (intro effect_commit_change) auto
  moreover have "effect (T(change_names c := proposed_entry c)) A
      (commit_all digest present root approved (applied @ [applied_item root c]) changes)
      (Inr ((applied @ [applied_item root c]) @ map (applied_item root) changes))
      (apply_spec (c # changes) T) A"
    unfolding apply_spec_Cons
  proof (rule Cons.IH)
    show "(T(change_names c := proposed_entry c)) (change_names d) = before_entry d"
      if "d \<in> set changes" for d
    proof -
      have "change_names d \<noteq> change_names c"
        using that Cons.prems(2) by (metis distinct.simps(2) image_eqI list.set_map list.simps(9))
      then show ?thesis using that Cons.prems(3) by simp
    qed
  qed (use Cons.prems in auto)
  ultimately show ?case by (auto intro: effect_bind)
qed (simp add: effect_ret)

subsection \<open>The whole set\<close>

text \<open>No other content of a target has the digest of the content the change replaces.\<close>

definition no_collision :: "(bytes \<Rightarrow> ustr) \<Rightarrow> targets \<Rightarrow> staged_change \<Rightarrow> bool" where
  "no_collision digest T c \<longleftrightarrow>
     (\<forall>content m. T (change_names c) = Some (Regular content) \<longrightarrow> sc_before_markdown c = Some m \<longrightarrow>
        digest content = digest (utf8_encode m) \<longrightarrow> content = utf8_encode m)"

lemma read_regular_Inr:
  "read_regular e = Inr None \<Longrightarrow> e = None"
  "read_regular e = Inr (Some c) \<Longrightarrow> e = Some (Regular c)"
  by (auto simp: read_regular_def split: option.splits file_entry.splits if_splits)

lemma preflight_sees:
  assumes quiet: "quiet T A w" and valid: "validate_memory_relative_path (sc_relative_path c) = Inr (change_names c)"
    and ok: "content_ok digest c" and free: "no_collision digest T c"
    and passed: "preflight_approved_target digest present c False w = (Inr (), w')"
  shows "(\<exists>tx. open_transaction digest present c = Inr tx) \<and> T (change_names c) = before_entry c"
proof -
  obtain tx where tx: "open_transaction digest present c = Inr tx"
    using passed by (auto simp: preflight_approved_target_def with_transaction_def ret_def split: sum.splits)
  then have names: "tx_target tx = change_names c" by (simp add: opened_transaction)
  obtain w1 where "read_target tx w = (read_regular (T (change_names c)), w1)"
    using effectD [OF effect_reads(1) quiet, of tx] names by metis
  with passed tx obtain content where content: "read_regular (T (change_names c)) = Inr content"
    and digest: "map_option digest content = sc_before_sha256 c"
    by (auto simp: preflight_approved_target_def with_transaction_def try_act_def bind_act_def ret_def Let_def
        split: sum.splits if_splits)
  have "T (change_names c) = before_entry c"
  proof (cases content)
    case None
    then show ?thesis
      using content digest content_okD(2) [OF ok] read_regular_Inr(1) [of "T (change_names c)"]
      by (simp add: before_entry_def)
  next
    case (Some seen)
    then obtain m where "sc_before_markdown c = Some m" and "digest seen = digest (utf8_encode m)"
      using digest content_okD(2) [OF ok] by (auto simp: map_option_case split: option.splits)
    then show ?thesis
      using read_regular_Inr(2) [of "T (change_names c)" seen] content Some free
      by (simp add: before_entry_def no_collision_def)
  qed
  with tx show ?thesis by simp
qed

lemma preflight_quiet:
  assumes "quiet T A w"
  shows "snd (preflight_approved_target digest present c p w) = w"
  by (auto simp: quiet_sys [OF assms] preflight_approved_target_def with_transaction_def read_target_def sys_try_def try_act_def
      bind_act_def ret_def Let_def split: sum.split)

lemma preflight_all_sees:
  assumes "quiet T A w"
    and "\<And>c. c \<in> set changes \<Longrightarrow> validate_memory_relative_path (sc_relative_path c) = Inr (change_names c) \<and>
      content_ok digest c \<and> no_collision digest T c"
  shows "snd (preflight_all digest present False changes w) = w \<and>
    (fst (preflight_all digest present False changes w) = Inr () \<longrightarrow>
      (\<forall>c\<in>set changes. (\<exists>tx. open_transaction digest present c = Inr tx) \<and> T (change_names c) = before_entry c))"
  using assms(2)
proof (induction changes)
  case (Cons c changes)
  obtain r where run: "preflight_approved_target digest present c False w = (r, w)"
    using preflight_quiet [OF assms(1)] by (metis prod.collapse)
  then have "r = Inr () \<longrightarrow>
      (\<exists>tx. open_transaction digest present c = Inr tx) \<and> T (change_names c) = before_entry c"
    using preflight_sees [OF assms(1)] Cons.prems by fastforce
  then show ?case
    using Cons.IH Cons.prems run by (cases r) (auto simp: try_act_def bind_act_def ret_def)
qed (simp add: ret_def)

text \<open>What the caller has to know of a set: no artifact of it is pending, and it can be read back.\<close>

definition fair_set :: "(bytes \<Rightarrow> ustr) \<Rightarrow> targets \<Rightarrow> artifacts \<Rightarrow> staged_change list \<Rightarrow> bool" where
  "fair_set digest T A approved \<longleftrightarrow>
     (\<forall>c\<in>set approved. A (artifact_name digest c) = None \<and> readable c \<and> no_collision digest T c)"

lemma apply_cases:
  assumes quiet: "quiet T A w" and fair: "fair_set digest T A approved"
    and run: "apply_memory_markdown_set digest present valid root approved w = (r, w')"
  shows "(\<exists>e. r = Inl e) \<and> quiet T A w' \<or>
    r = Inr (map (applied_item root) approved) \<and> quiet (apply_spec approved T) A w' \<and> valid w' = Inr () \<and>
    list_all (sound_change digest present A) approved \<and> distinct (map change_names approved) \<and>
    (\<forall>c\<in>set approved. T (change_names c) = before_entry c) \<and>
    validate_approved_change_set digest approved = Inr ()"
proof (cases "validate_approved_change_set digest approved = Inr () \<and> valid w = Inr () \<and>
    fst (preflight_all digest present False approved w) = Inr ()")
  case False
  have "snd (preflight_all digest present False approved w) = w"
    if "validate_approved_change_set digest approved = Inr ()"
    using preflight_all_sees [OF quiet, of approved digest] that validated_names validated_content fair
    by (auto simp: fair_set_def list_all_iff)
  then show ?thesis
    using False quiet run
    by (auto simp: apply_memory_markdown_set_def try_act_def bind_act_def ret_def run_validation_def
        split: sum.splits prod.splits)
next
  case True
  then have names: "distinct (map change_names approved)"
    and valid_names: "\<And>c. c \<in> set approved \<Longrightarrow>
      validate_memory_relative_path (sc_relative_path c) = Inr (change_names c)"
    and contents: "list_all (content_ok digest) approved"
    using validated_names validated_content by auto
  have seen: "snd (preflight_all digest present False approved w) = w"
      "\<forall>c\<in>set approved. (\<exists>tx. open_transaction digest present c = Inr tx) \<and> T (change_names c) = before_entry c"
    using preflight_all_sees [OF quiet, of approved digest present] True valid_names contents fair
    by (auto simp: fair_set_def list_all_iff)
  then have before: "\<And>c. c \<in> set approved \<Longrightarrow> T (change_names c) = before_entry c" by simp
  have sound: "list_all (sound_change digest present A) approved"
    using seen(2) contents fair by (auto simp: sound_change_def fair_set_def list_all_iff)
  obtain w1 where commit: "commit_all digest present root approved [] approved w =
      (Inr (map (applied_item root) approved), w1)" and w1: "quiet (apply_spec approved T) A w1"
    using effectD [OF effect_commit_all [OF sound names before valid_names] quiet] by (metis append_Nil)
  obtain w2 where undo: "rollback_applied_prefix digest present approved (length approved) w1 = (Inr (), w2)"
    and w2: "quiet T A w2"
    using effectD [OF effect_rollback_all [OF sound names before] w1]
    by (auto simp: rollback_applied_prefix_def)
  have preflight: "preflight_all digest present False approved w = (Inr (), w)"
    using True seen(1) by (metis prod.collapse)
  show ?thesis
    using run True preflight commit undo w1 w2 sound names before
    by (auto simp: apply_memory_markdown_set_def try_act_def bind_act_def ret_def run_validation_def
        split: sum.splits)
qed

subsection \<open>An example\<close>

text \<open>An edit, a new page and a deletion, on three pages of a Memory.\<close>

definition example_change :: "string \<Rightarrow> ustr option \<Rightarrow> ustr \<Rightarrow> bool \<Rightarrow> staged_change" where
  "example_change name before proposed gone =
     \<lparr>sc_guru_id = lit ''g'', sc_session_id = lit ''s'', sc_relative_path = lit (''guruterminal/wiki/'' @ name),
      sc_before_sha256 = map_option utf8_encode before, sc_before_markdown = before,
      sc_proposed_sha256 = utf8_encode proposed, sc_proposed_markdown = proposed, sc_delete = gone\<rparr>"

definition example_set :: "staged_change list" where
  "example_set =
     [example_change ''a.md'' (Some (lit ''one'')) (lit ''two'') False,
      example_change ''b.md'' None (lit ''new'') False,
      example_change ''c.md'' (Some (lit ''old'')) [] True]"

definition example_world :: memory_world where
  "example_world =
     \<lparr>mw_targets = [([lit ''guruterminal'', lit ''wiki'', lit ''a.md''], Regular (lit ''one'')),
                    ([lit ''guruterminal'', lit ''wiki'', lit ''c.md''], Regular (lit ''old''))],
      mw_artifacts = [], mw_turns = [], mw_destroyed = [], mw_sync_failed = False\<rparr>"

lemma example_quiet: "quiet (bt_get (mw_targets example_world)) (bt_get []) example_world"
proof -
  have "bt_inv (mw_targets example_world)" unfolding bt_inv_def by code_simp
  then show ?thesis by (simp add: quiet_def example_world_def)
qed

lemma example_fair: "fair_set (\<lambda>c. c) (bt_get (mw_targets example_world)) (bt_get []) example_set"
  by (simp add: fair_set_def no_collision_def example_set_def example_change_def readable_def
      max_memory_file_bytes_def) code_simp

lemma example_applied:
  "fst (apply_memory_markdown_set (\<lambda>c. c) (\<lambda>_. True) (\<lambda>_. Inr ()) (lit ''/m'') example_set example_world) =
   Inr (map (applied_item (lit ''/m'')) example_set)"
  by code_simp



text \<open>The rollback of a set that was applied.\<close>

lemma rollback_applied_set:
  assumes sound: "list_all (sound_change digest present A) approved" and names: "distinct (map change_names approved)"
    and before: "\<And>c. c \<in> set approved \<Longrightarrow> T (change_names c) = before_entry c"
    and valid: "validate_approved_change_set digest approved = Inr ()" and w1: "quiet (apply_spec approved T) A w1"
  shows "\<exists>w2. rollback_memory_markdown_set digest present (Inr ()) valid_tree approved w1 = (valid_tree w2, w2) \<and> quiet T A w2"
proof -
  have "effect (apply_spec approved T) A (preflight_all digest present True approved) (Inr ())
      (apply_spec approved T) A"
    using sound names
    by (intro effect_preflight_all effect_preflight_proposed) (auto simp: list_all_iff apply_spec_names)
  then obtain w0 where "preflight_all digest present True approved w1 = (Inr (), w0)"
    and w0: "quiet (apply_spec approved T) A w0"
    using effectD w1 by metis
  moreover obtain w2 where "rollback_applied_prefix digest present approved (length approved) w0 = (Inr (), w2)"
    and "quiet T A w2"
    using effectD [OF effect_rollback_all [OF sound names before] w0] by (auto simp: rollback_applied_prefix_def)
  ultimately show ?thesis
    using valid by (simp add: rollback_memory_markdown_set_def try_act_def bind_act_def run_validation_def)
qed

text \<open>Rolling back a set right after it was applied gives every file the content it had before,
  and the verdict of the Runtime on that tree.
\<close>
lemma rollback_undoes_apply:
  assumes "quiet T A w" and "fair_set digest T A approved"
    and "apply_memory_markdown_set digest present valid root approved w = (Inr applied, w1)"
  shows "\<exists>w2. rollback_memory_markdown_set digest present (Inr ()) valid approved w1 = (valid w2, w2) \<and>
    quiet T A w2"
  using apply_cases [OF assms] by (auto intro: rollback_applied_set)

theorem rollback_undoes_apply_witness:
  "\<exists>w2. rollback_memory_markdown_set (\<lambda>c. c) (\<lambda>_. True) (Inr ()) (\<lambda>_. Inr ()) example_set
      (snd (apply_memory_markdown_set (\<lambda>c. c) (\<lambda>_. True) (\<lambda>_. Inr ()) (lit ''/m'') example_set example_world)) =
      (Inr (), w2) \<and> quiet (bt_get (mw_targets example_world)) (bt_get []) w2"
proof -
  have "apply_memory_markdown_set (\<lambda>c. c) (\<lambda>_. True) (\<lambda>_. Inr ()) (lit ''/m'') example_set example_world =
      (Inr (map (applied_item (lit ''/m'')) example_set),
       snd (apply_memory_markdown_set (\<lambda>c. c) (\<lambda>_. True) (\<lambda>_. Inr ()) (lit ''/m'') example_set example_world))"
    using example_applied by (metis prod.collapse)
  from rollback_undoes_apply [OF example_quiet example_fair this] show ?thesis by simp
qed

end
