(* ===== verification/Deletion.thy ===== *)
theory Deletion
  imports Host_Base "HOL-Library.Word"
begin

text \<open>
  Deleting a Chat or a Guru (\<^theory_text>\<open>deletion.rs\<close>, the operations of \<^theory_text>\<open>secure_delete.rs\<close> and
  \<^theory_text>\<open>store.rs\<close> it calls): the private files are renamed to tombstones, the row is deleted, the
  tombstones are removed, and a journal row lets the next start finish or undo what a crash left.

  Every operation on the files or the database takes one \<open>fault\<close> of a script: it may fail or the
  process may die, before or after its effect; removing a tree may be left half done. A failing
  statement leaves the database unchanged. Private paths are lists of names; that these are
  ordinary follows from the identifiers they are made of. Nobody else writes below the private
  root, and the entry of a Guru is one entry, whatever it holds.
\<close>

subsection \<open>Journals\<close>

record root_identity =
  ri_device :: "64 word"
  ri_inode :: "64 word"

datatype deletion_kind = Delete_Chat | Delete_Guru

datatype deletion_phase = Prepared | Detached

record deletion_journal =
  dj_id :: ustr
  dj_kind :: deletion_kind
  dj_guru_id :: ustr
  dj_target_id :: ustr
  dj_expected_source_identity :: "root_identity option"
  dj_phase :: deletion_phase
  dj_created_at_ms :: int
  dj_updated_at_ms :: int

definition require_identifier :: "ustr \<Rightarrow> string \<Rightarrow> command_error + unit" where
  "require_identifier value message =
     (if value = [] \<or> \<not> list_all (\<lambda>c. is_ascii_alphanumeric c \<or> c = 45 \<or> c = 95) value then
        Inl (err_internal (lit (''invalid domain value: '' @ message)))
      else Inr ())"

definition journal_validate :: "deletion_journal \<Rightarrow> command_error + unit" where
  "journal_validate j =
     (case require_identifier (dj_id j) ''deletion journal id is empty or unsafe'' of Inl e \<Rightarrow> Inl e | Inr _ \<Rightarrow>
     (case require_identifier (dj_guru_id j) ''deletion journal Guru id is empty or unsafe'' of Inl e \<Rightarrow> Inl e | Inr _ \<Rightarrow>
     (case require_identifier (dj_target_id j) ''deletion journal target id is empty or unsafe'' of Inl e \<Rightarrow> Inl e | Inr _ \<Rightarrow>
       if dj_kind j = Delete_Guru \<and> dj_target_id j \<noteq> dj_guru_id j then
         Inl (err_internal (lit ''invalid domain value: Guru deletion journal target is invalid''))
       else if (dj_kind j = Delete_Guru) \<noteq> (dj_expected_source_identity j \<noteq> None) then
         Inl (err_internal (lit ''invalid domain value: deletion journal source identity is invalid''))
       else if dj_created_at_ms j < 0 \<or> dj_updated_at_ms j < dj_created_at_ms j then
         Inl (err_internal (lit ''invalid domain value: deletion journal timestamps are invalid''))
       else Inr ())))"

subsection \<open>The world\<close>

record storage_entry =
  se_identity :: root_identity
  se_directory :: bool
  se_files :: "ustr list"

text \<open>A row of the journal table; its JSON may be unreadable.\<close>

record journal_row =
  jr_guru_id :: ustr
  jr_target_id :: ustr
  jr_updated_at_ms :: int
  jr_json :: "deletion_journal option"

text \<open>The rows of a Chat and of a Guru; \<open>data\<close> stands for the fields deletion does not look at.\<close>

record chat_row =
  ch_id :: ustr
  ch_guru_id :: ustr
  ch_data :: ustr

record guru_row =
  gr_id :: ustr
  gr_root_filesystem_identity :: "root_identity option"
  gr_data :: ustr

datatype fault = No_Fault | Fails command_error nat | Dies nat

record deletion_world =
  dw_storage :: "(ustr list, storage_entry) btree"
  dw_journals :: "(ustr, journal_row) btree"
  dw_chats :: "(ustr, chat_row) btree"
  dw_gurus :: "(ustr, guru_row) btree"
  dw_faults :: "fault list"

datatype 'a outcome = Finished 'a | Stopped command_error | Crashed

type_synonym 'a deletion = "deletion_world \<Rightarrow> 'a outcome \<times> deletion_world"

definition of_result :: "(command_error + 'a) \<times> deletion_world \<Rightarrow> 'a outcome \<times> deletion_world" where
  "of_result rw = (case rw of (Inl e, w) \<Rightarrow> (Stopped e, w) | (Inr x, w) \<Rightarrow> (Finished x, w))"

text \<open>An operation: what it does, what a failure leaves, and what a crash leaves.\<close>

definition operation ::
  "(nat \<Rightarrow> deletion_world \<Rightarrow> deletion_world) \<Rightarrow> (nat \<Rightarrow> deletion_world \<Rightarrow> deletion_world) \<Rightarrow>
   (deletion_world \<Rightarrow> (command_error + 'a) \<times> deletion_world) \<Rightarrow> 'a deletion" where
  "operation broken crashed call w =
     (case dw_faults w of
        [] \<Rightarrow> of_result (call w)
      | f # fs \<Rightarrow>
          let w1 = w\<lparr>dw_faults := fs\<rparr> in
          (case f of
             No_Fault \<Rightarrow> of_result (call w1)
           | Fails e n \<Rightarrow> (Stopped e, broken n w1)
           | Dies n \<Rightarrow> (Crashed, crashed n w1)))"

definition finish :: "'a \<Rightarrow> 'a deletion" where
  "finish x w = (Finished x, w)"

definition stop :: "command_error \<Rightarrow> 'a deletion" where
  "stop e w = (Stopped e, w)"

text \<open>The \<^theory_text>\<open>?\<close> operator, and a match on the result.\<close>

definition and_then :: "'a deletion \<Rightarrow> ('a \<Rightarrow> 'b deletion) \<Rightarrow> 'b deletion" where
  "and_then m f w =
     (case m w of (Finished x, w') \<Rightarrow> f x w' | (Stopped e, w') \<Rightarrow> (Stopped e, w') | (Crashed, w') \<Rightarrow> (Crashed, w'))"

definition attempt :: "'a deletion \<Rightarrow> ((command_error + 'a) \<Rightarrow> 'b deletion) \<Rightarrow> 'b deletion" where
  "attempt m f w =
     (case m w of (Finished x, w') \<Rightarrow> f (Inr x) w' | (Stopped e, w') \<Rightarrow> f (Inl e) w' | (Crashed, w') \<Rightarrow> (Crashed, w'))"

definition untouched :: "nat \<Rightarrow> deletion_world \<Rightarrow> deletion_world" where
  "untouched n w = w"

text \<open>An effect that happened, or did not, before the call broke off.\<close>

definition perhaps ::
  "(deletion_world \<Rightarrow> (command_error + 'a) \<times> deletion_world) \<Rightarrow> nat \<Rightarrow> deletion_world \<Rightarrow> deletion_world" where
  "perhaps call n w = (if n = 0 then w else snd (call w))"

subsection \<open>Private storage\<close>

definition look :: "ustr list \<Rightarrow> deletion_world \<Rightarrow> storage_entry option" where
  "look path w = bt_get (dw_storage w) path"

definition place :: "ustr list \<Rightarrow> storage_entry option \<Rightarrow> deletion_world \<Rightarrow> deletion_world" where
  "place path e w = w\<lparr>dw_storage :=
     (case e of None \<Rightarrow> bt_remove path (dw_storage w) | Some x \<Rightarrow> bt_insert path x (dw_storage w))\<rparr>"

definition entry_exists :: "ustr list \<Rightarrow> bool deletion" where
  "entry_exists path = operation untouched untouched (\<lambda>w. (Inr (look path w \<noteq> None), w))"

definition boundary_error :: command_error where
  "boundary_error = err_internal (lit ''private directory crosses an untrusted filesystem boundary'')"

definition directory_identity :: "ustr list \<Rightarrow> root_identity option deletion" where
  "directory_identity path = operation untouched untouched (\<lambda>w.
     (case look path w of
        None \<Rightarrow> Inr None
      | Some e \<Rightarrow> if se_directory e then Inr (Some (se_identity e)) else Inl boundary_error, w))"

definition open_expected :: "root_identity option \<Rightarrow> storage_entry \<Rightarrow> command_error + unit" where
  "open_expected expected e =
     (case expected of
        None \<Rightarrow> Inr ()
      | Some i \<Rightarrow>
          if \<not> se_directory e then Inl boundary_error
          else if se_identity e \<noteq> i then
            Inl (err_conflict (lit ''private storage identity changed before deletion''))
          else Inr ())"

definition rename_call ::
  "ustr list \<Rightarrow> ustr list \<Rightarrow> root_identity option \<Rightarrow> deletion_world \<Rightarrow> (command_error + bool) \<times> deletion_world" where
  "rename_call source destination expected w =
     (if butlast source \<noteq> butlast destination then
        (Inl (err_internal (lit ''deletion rename must stay in one pinned parent'')), w)
      else
        (case look source w of
           None \<Rightarrow> (Inr False, w)
         | Some e \<Rightarrow>
             (case open_expected expected e of
                Inl error \<Rightarrow> (Inl error, w)
              | Inr _ \<Rightarrow>
                  if look destination w \<noteq> None then
                    (Inl (err_internal (lit ''secure deletion boundary failed: File exists'')), w)
                  else (Inr True, place source None (place destination (Some e) w)))))"

definition rename_sibling_expected ::
  "ustr list \<Rightarrow> ustr list \<Rightarrow> root_identity option \<Rightarrow> bool deletion" where
  "rename_sibling_expected source destination expected =
     operation (perhaps (rename_call source destination expected))
       (perhaps (rename_call source destination expected)) (rename_call source destination expected)"

text \<open>Removing a tree; a removal that breaks off after \<open>n\<close> entries leaves the others.\<close>

definition remove_check :: "root_identity option \<Rightarrow> storage_entry \<Rightarrow> command_error + unit" where
  "remove_check expected e =
     (if expected \<noteq> None \<and> expected \<noteq> Some (se_identity e) then
        Inl (err_conflict (lit ''private storage identity changed before cleanup''))
      else Inr ())"

definition remove_call ::
  "ustr list \<Rightarrow> root_identity option \<Rightarrow> deletion_world \<Rightarrow> (command_error + unit) \<times> deletion_world" where
  "remove_call path expected w =
     (case look path w of
        None \<Rightarrow> (Inr (), w)
      | Some e \<Rightarrow>
          (case remove_check expected e of
             Inl error \<Rightarrow> (Inl error, w)
           | Inr _ \<Rightarrow> (Inr (), place path None w)))"

definition remove_broken ::
  "ustr list \<Rightarrow> root_identity option \<Rightarrow> nat \<Rightarrow> deletion_world \<Rightarrow> deletion_world" where
  "remove_broken path expected n w =
     (case look path w of
        None \<Rightarrow> w
      | Some e \<Rightarrow>
          (case remove_check expected e of
             Inl _ \<Rightarrow> w
           | Inr _ \<Rightarrow>
               place path (if n \<le> length (se_files e) then Some (e\<lparr>se_files := drop n (se_files e)\<rparr>) else None) w))"

definition remove_tree_expected :: "ustr list \<Rightarrow> root_identity option \<Rightarrow> unit deletion" where
  "remove_tree_expected path expected =
     operation (remove_broken path expected) (remove_broken path expected) (remove_call path expected)"

subsection \<open>The store\<close>

text \<open>A statement that fails has no effect; a crash may come before or after it.\<close>

definition store_call :: "(deletion_world \<Rightarrow> (command_error + 'a) \<times> deletion_world) \<Rightarrow> 'a deletion" where
  "store_call call = operation untouched (perhaps call) call"

text \<open>\<^theory_text>\<open>map_store(StoreError::Invalid(..))\<close> of a journal that is not valid.\<close>

definition store_valid ::
  "deletion_journal \<Rightarrow> (deletion_world \<Rightarrow> (command_error + 'a) \<times> deletion_world) \<Rightarrow>
   deletion_world \<Rightarrow> (command_error + 'a) \<times> deletion_world" where
  "store_valid j call w =
     (case journal_validate j of
        Inl e \<Rightarrow> (Inl (err_internal (lit ''invalid object: '' @ err_message e)), w)
      | Inr _ \<Rightarrow> call w)"

definition conflict_of :: "string \<Rightarrow> command_error" where
  "conflict_of message = err_conflict (lit message)"

definition row_of :: "deletion_journal \<Rightarrow> journal_row" where
  "row_of j = \<lparr>jr_guru_id = dj_guru_id j, jr_target_id = dj_target_id j,
     jr_updated_at_ms = dj_updated_at_ms j, jr_json = Some j\<rparr>"

definition set_journals :: "(ustr, journal_row) btree \<Rightarrow> deletion_world \<Rightarrow> deletion_world" where
  "set_journals js w = w\<lparr>dw_journals := js\<rparr>"

definition insert_journal :: "deletion_journal \<Rightarrow> deletion_world \<Rightarrow> (command_error + unit) \<times> deletion_world" where
  "insert_journal j w =
     (if bt_get (dw_journals w) (dj_id j) \<noteq> None \<or>
         list_ex (\<lambda>(key, row). jr_guru_id row = dj_guru_id j \<and> jr_target_id row = dj_target_id j) (dw_journals w) then
        (Inl (conflict_of ''deletion journal creation''), w)
      else (Inr (), set_journals (bt_insert (dj_id j) (row_of j) (dw_journals w)) w))"

definition create_deletion_journal :: "deletion_journal \<Rightarrow> unit deletion" where
  "create_deletion_journal j = store_call (store_valid j (insert_journal j))"

definition update_journal ::
  "deletion_journal \<Rightarrow> deletion_journal \<Rightarrow> deletion_world \<Rightarrow> (command_error + unit) \<times> deletion_world" where
  "update_journal expected j w =
     (if dj_id expected \<noteq> dj_id j \<or> dj_guru_id expected \<noteq> dj_guru_id j \<or>
         dj_target_id expected \<noteq> dj_target_id j \<or> dj_updated_at_ms j < dj_updated_at_ms expected then
        (Inl (err_internal (lit ''invalid object: deletion journal replacement identity is invalid'')), w)
      else
        (case bt_get (dw_journals w) (dj_id j) of
           Some row \<Rightarrow>
             if jr_guru_id row = dj_guru_id j \<and> jr_target_id row = dj_target_id j \<and> jr_json row = Some expected then
               (Inr (), set_journals (bt_insert (dj_id j)
                  (row\<lparr>jr_updated_at_ms := dj_updated_at_ms j, jr_json := Some j\<rparr>) (dw_journals w)) w)
             else (Inl (conflict_of ''deletion journal changed''), w)
         | None \<Rightarrow> (Inl (conflict_of ''deletion journal changed''), w)))"

definition replace_deletion_journal :: "deletion_journal \<Rightarrow> deletion_journal \<Rightarrow> unit deletion" where
  "replace_deletion_journal expected j =
     store_call (store_valid expected (store_valid j (update_journal expected j)))"

definition remove_journal :: "deletion_journal \<Rightarrow> deletion_world \<Rightarrow> (command_error + unit) \<times> deletion_world" where
  "remove_journal expected w =
     (if map_option jr_json (bt_get (dw_journals w) (dj_id expected)) = Some (Some expected) then
        (Inr (), set_journals (bt_remove (dj_id expected) (dw_journals w)) w)
      else (Inl (conflict_of ''deletion journal changed''), w))"

definition delete_deletion_journal :: "deletion_journal \<Rightarrow> unit deletion" where
  "delete_deletion_journal expected = store_call (store_valid expected (remove_journal expected))"

datatype deletion_journal_record =
  Valid_Journal deletion_journal
| Invalid_Journal ustr ustr ustr

definition journal_record :: "ustr \<times> journal_row \<Rightarrow> deletion_journal_record" where
  "journal_record entry =
     (case entry of (key, row) \<Rightarrow>
        (case jr_json row of
           None \<Rightarrow> Invalid_Journal key (jr_guru_id row) (lit ''deletion journal JSON is invalid'')
         | Some j \<Rightarrow>
             if is_ok (journal_validate j) then Valid_Journal j
             else Invalid_Journal key (jr_guru_id row) (lit ''deletion journal failed domain validation'')))"

definition list_deletion_journals :: "deletion_journal_record list deletion" where
  "list_deletion_journals = store_call (\<lambda>w.
     (Inr (map journal_record (sort_key (\<lambda>(key, row). (jr_updated_at_ms row, key)) (dw_journals w))), w))"

definition get_chat :: "ustr \<Rightarrow> chat_row option deletion" where
  "get_chat key = store_call (\<lambda>w. (Inr (bt_get (dw_chats w) key), w))"

definition get_guru :: "ustr \<Rightarrow> guru_row option deletion" where
  "get_guru key = store_call (\<lambda>w. (Inr (bt_get (dw_gurus w) key), w))"

definition store_delete_chat :: "chat_row \<Rightarrow> unit deletion" where
  "store_delete_chat expected = store_call (\<lambda>w.
     if bt_get (dw_chats w) (ch_id expected) = Some expected then
       (Inr (), w\<lparr>dw_chats := bt_remove (ch_id expected) (dw_chats w)\<rparr>)
     else (Inl (conflict_of ''Chat changed before deletion''), w))"

definition store_delete_guru :: "guru_row \<Rightarrow> unit deletion" where
  "store_delete_guru expected = store_call (\<lambda>w.
     if bt_get (dw_gurus w) (gr_id expected) = Some expected then
       (Inr (), w\<lparr>dw_gurus := bt_remove (gr_id expected) (dw_gurus w),
          dw_chats := filter (\<lambda>(key, chat). ch_guru_id chat \<noteq> gr_id expected) (dw_chats w)\<rparr>)
     else (Inl (conflict_of ''Guru changed before deletion''), w))"

subsection \<open>The paths of a journal\<close>

record deletion_path =
  dp_source :: "ustr list"
  dp_tombstone :: "ustr list"
  dp_required :: bool
  dp_expected_identity :: "root_identity option"

definition deleting_name :: "ustr \<Rightarrow> ustr" where
  "deleting_name key = lit ''.deleting-'' @ key"

definition path_in :: "ustr list \<Rightarrow> ustr \<Rightarrow> bool \<Rightarrow> root_identity option \<Rightarrow> deletion_path" where
  "path_in parent key required expected =
     \<lparr>dp_source = parent @ [key], dp_tombstone = parent @ [deleting_name key],
      dp_required = required, dp_expected_identity = expected\<rparr>"

definition journal_paths :: "deletion_journal \<Rightarrow> command_error + deletion_path list" where
  "journal_paths j =
     (case journal_validate j of
        Inl e \<Rightarrow> Inl e
      | Inr _ \<Rightarrow>
          (case dj_kind j of
             Delete_Chat \<Rightarrow>
               let guru = [lit ''gurus'', dj_guru_id j] in
               Inr (map (\<lambda>parent. path_in parent (dj_target_id j) False None)
                 [guru @ [lit ''pi-sessions''], guru @ [lit ''pi-runtime''],
                  guru @ [lit ''workbench'', lit ''attachments'']])
           | Delete_Guru \<Rightarrow>
               Inr [path_in [lit ''gurus''] (dj_guru_id j) True (dj_expected_source_identity j),
                    path_in [lit ''runs''] (dj_guru_id j) False None]))"

subsection \<open>Detaching, rolling back, cleaning up\<close>

fun rollback_detached :: "deletion_path list \<Rightarrow> unit deletion" where
  "rollback_detached [] = finish ()"
| "rollback_detached (p # ps) =
     and_then (rename_sibling_expected (dp_tombstone p) (dp_source p) (dp_expected_identity p)) (\<lambda>moved.
       if moved then rollback_detached ps
       else stop (err_internal (lit ''deletion rollback lost a detached private-storage entry'')))"

text \<open>\<open>detached\<close> holds the paths already detached, the last one first.\<close>

fun detach_from :: "deletion_path list \<Rightarrow> deletion_path list \<Rightarrow> unit deletion" where
  "detach_from detached [] = finish ()"
| "detach_from detached (p # ps) =
     and_then (entry_exists (dp_tombstone p)) (\<lambda>occupied.
       if occupied then
         and_then (rollback_detached detached) (\<lambda>_.
           stop (err_conflict (lit ''private-storage deletion tombstone already exists'')))
       else
         attempt (rename_sibling_expected (dp_source p) (dp_tombstone p) (dp_expected_identity p)) (\<lambda>r.
           case r of
             Inr True \<Rightarrow> detach_from (p # detached) ps
           | Inr False \<Rightarrow>
               if \<not> dp_required p then detach_from detached ps
               else and_then (rollback_detached detached) (\<lambda>_.
                 stop (err_conflict (lit ''required private storage disappeared during deletion'')))
           | Inl error \<Rightarrow> and_then (rollback_detached detached) (\<lambda>_. stop error)))"

definition detach_paths :: "deletion_path list \<Rightarrow> unit deletion" where
  "detach_paths paths = detach_from [] paths"

definition check_live :: "deletion_path \<Rightarrow> unit deletion" where
  "check_live p =
     (case dp_expected_identity p of
        None \<Rightarrow> finish ()
      | Some expected \<Rightarrow>
          and_then (directory_identity (dp_source p)) (\<lambda>observed.
            case observed of
              None \<Rightarrow> stop (err_internal (lit ''required private storage disappeared during identity recovery''))
            | Some i \<Rightarrow>
                if i \<noteq> expected then
                  stop (err_conflict (lit ''required private storage identity changed during recovery''))
                else finish ()))"

definition rollback_path :: "deletion_path \<Rightarrow> unit deletion" where
  "rollback_path p =
     and_then (entry_exists (dp_source p)) (\<lambda>live.
     and_then (entry_exists (dp_tombstone p)) (\<lambda>tombstone.
     and_then (if live then check_live p else finish ()) (\<lambda>_.
       if live \<and> tombstone then
         stop (err_internal (lit ''deletion rollback found both live and tombstone storage''))
       else if \<not> live \<and> tombstone then
         and_then (rename_sibling_expected (dp_tombstone p) (dp_source p) (dp_expected_identity p)) (\<lambda>moved.
           if moved then finish ()
           else stop (err_internal (lit ''deletion rollback lost a tombstone storage entry'')))
       else if \<not> live \<and> \<not> tombstone \<and> dp_required p then
         stop (err_internal (lit ''required private storage is missing during deletion recovery''))
       else finish ())))"

fun for_each :: "('a \<Rightarrow> unit deletion) \<Rightarrow> 'a list \<Rightarrow> unit deletion" where
  "for_each f [] = finish ()"
| "for_each f (x # xs) = and_then (f x) (\<lambda>_. for_each f xs)"

definition rollback_paths :: "deletion_path list \<Rightarrow> unit deletion" where
  "rollback_paths paths = for_each rollback_path (rev paths)"

definition cleanup_paths :: "deletion_path list \<Rightarrow> unit deletion" where
  "cleanup_paths paths =
     for_each (\<lambda>p. remove_tree_expected (dp_tombstone p) (dp_expected_identity p)) paths"

subsection \<open>A deletion\<close>

definition lift_result :: "command_error + 'a \<Rightarrow> 'a deletion" where
  "lift_result r = (case r of Inl e \<Rightarrow> stop e | Inr x \<Rightarrow> finish x)"

text \<open>Undo the renames, drop the journal if that worked, and fail with \<open>error\<close>.\<close>

definition back_out :: "deletion_journal \<Rightarrow> deletion_path list \<Rightarrow> command_error \<Rightarrow> unit deletion" where
  "back_out j paths error =
     attempt (rollback_paths paths) (\<lambda>r.
       case r of
         Inr _ \<Rightarrow> and_then (delete_deletion_journal j) (\<lambda>_. stop error)
       | Inl _ \<Rightarrow> stop error)"

definition i64_max :: int where
  "i64_max = 2 ^ 63 - 1"

definition detached_journal :: "deletion_journal \<Rightarrow> deletion_journal" where
  "detached_journal j =
     j\<lparr>dj_phase := Detached, dj_updated_at_ms := min (dj_updated_at_ms j + 1) i64_max\<rparr>"

definition execute_deletion :: "deletion_journal \<Rightarrow> unit deletion \<Rightarrow> unit deletion" where
  "execute_deletion prepared delete_target =
     and_then (lift_result (journal_validate prepared)) (\<lambda>_.
     and_then (create_deletion_journal prepared) (\<lambda>_.
     and_then (lift_result (journal_paths prepared)) (\<lambda>paths.
     attempt (detach_paths paths) (\<lambda>r. case r of
       Inl error \<Rightarrow> back_out prepared paths error
     | Inr _ \<Rightarrow>
         attempt (replace_deletion_journal prepared (detached_journal prepared)) (\<lambda>r. case r of
           Inl error \<Rightarrow> back_out prepared paths error
         | Inr _ \<Rightarrow>
             attempt delete_target (\<lambda>r. case r of
               Inl error \<Rightarrow> back_out (detached_journal prepared) paths error
             | Inr _ \<Rightarrow>
                 and_then (cleanup_paths paths) (\<lambda>_.
                   delete_deletion_journal (detached_journal prepared))))))))"

definition chat_journal :: "chat_row \<Rightarrow> int \<Rightarrow> deletion_journal" where
  "chat_journal expected timestamp =
     \<lparr>dj_id = lit ''delete-chat-'' @ ch_id expected, dj_kind = Delete_Chat, dj_guru_id = ch_guru_id expected,
      dj_target_id = ch_id expected, dj_expected_source_identity = None, dj_phase = Prepared,
      dj_created_at_ms = timestamp, dj_updated_at_ms = timestamp\<rparr>"

definition delete_chat :: "chat_row \<Rightarrow> int \<Rightarrow> unit deletion" where
  "delete_chat expected timestamp =
     execute_deletion (chat_journal expected timestamp) (store_delete_chat expected)"

definition guru_journal :: "guru_row \<Rightarrow> root_identity \<Rightarrow> int \<Rightarrow> deletion_journal" where
  "guru_journal expected identity timestamp =
     \<lparr>dj_id = lit ''delete-guru-'' @ gr_id expected, dj_kind = Delete_Guru, dj_guru_id = gr_id expected,
      dj_target_id = gr_id expected, dj_expected_source_identity = Some identity, dj_phase = Prepared,
      dj_created_at_ms = timestamp, dj_updated_at_ms = timestamp\<rparr>"

definition delete_guru :: "guru_row \<Rightarrow> int \<Rightarrow> unit deletion" where
  "delete_guru expected timestamp =
     (let source = [lit ''gurus'', gr_id expected] in
      case gr_root_filesystem_identity expected of
        None \<Rightarrow> stop (err_conflict (lit ''Guru workspace identity is not sealed''))
      | Some sealed \<Rightarrow>
          and_then (directory_identity (source @ [lit ''workspace''])) (\<lambda>observed. case observed of
            None \<Rightarrow> stop (err_conflict (lit ''Guru workspace disappeared before deletion''))
          | Some workspace \<Rightarrow>
              if workspace \<noteq> sealed then
                stop (err_conflict (lit ''Guru workspace identity changed before deletion''))
              else and_then (directory_identity source) (\<lambda>found. case found of
                None \<Rightarrow> stop (err_conflict (lit ''Guru storage disappeared before deletion''))
              | Some identity \<Rightarrow>
                  execute_deletion (guru_journal expected identity timestamp) (store_delete_guru expected))))"

subsection \<open>Recovery at the next start\<close>

text \<open>The Gurus to quarantine, with the reason.\<close>

type_synonym quarantined = "(ustr, ustr) btree"

text \<open>Whether the target of a journal still has its row; \<open>Inl\<close> is a reason for quarantine.\<close>

definition target_state :: "deletion_journal \<Rightarrow> (ustr + bool) deletion" where
  "target_state j =
     (case dj_kind j of
        Delete_Chat \<Rightarrow>
          attempt (get_chat (dj_target_id j)) (\<lambda>r. finish (case r of
            Inr (Some chat) \<Rightarrow>
              if ch_guru_id chat = dj_guru_id j then Inr True
              else Inl (lit ''pending Chat deletion belongs to another Guru'')
          | Inr None \<Rightarrow> Inr False
          | Inl error \<Rightarrow> Inl (err_message error)))
      | Delete_Guru \<Rightarrow>
          attempt (get_guru (dj_guru_id j)) (\<lambda>r. finish (case r of
            Inr profile \<Rightarrow> Inr (profile \<noteq> None)
          | Inl error \<Rightarrow> Inl (err_message error))))"

definition reconcile :: "deletion_journal \<Rightarrow> deletion_path list \<Rightarrow> bool \<Rightarrow> quarantined \<Rightarrow> quarantined deletion" where
  "reconcile j paths target_exists q =
     attempt (if target_exists then rollback_paths paths else cleanup_paths paths) (\<lambda>r. case r of
       Inl error \<Rightarrow> finish (if target_exists then bt_insert (dj_guru_id j) (err_message error) q else q)
     | Inr _ \<Rightarrow>
         attempt (delete_deletion_journal j) (\<lambda>r. case r of
           Inl error \<Rightarrow> finish (if target_exists then bt_insert (dj_guru_id j) (err_message error) q else q)
         | Inr _ \<Rightarrow> finish q))"

definition quarantine_known :: "ustr \<Rightarrow> ustr \<Rightarrow> quarantined \<Rightarrow> quarantined deletion" where
  "quarantine_known guru reason q =
     and_then (get_guru guru) (\<lambda>profile.
       finish (if profile \<noteq> None then bt_insert guru reason q else q))"

definition recover_record :: "deletion_journal_record \<Rightarrow> quarantined \<Rightarrow> quarantined deletion" where
  "recover_record record q =
     (case record of
        Invalid_Journal key guru reason \<Rightarrow>
          quarantine_known guru
            (lit ''pending deletion journal '' @ key @ lit '' is invalid: '' @ reason) q
      | Valid_Journal j \<Rightarrow>
          (case journal_paths j of
             Inl error \<Rightarrow> quarantine_known (dj_guru_id j) (err_message error) q
           | Inr paths \<Rightarrow>
               and_then (target_state j) (\<lambda>state. case state of
                 Inl reason \<Rightarrow> finish (bt_insert (dj_guru_id j) reason q)
               | Inr target_exists \<Rightarrow> reconcile j paths target_exists q)))"

fun recover_records :: "deletion_journal_record list \<Rightarrow> quarantined \<Rightarrow> quarantined deletion" where
  "recover_records [] q = finish q"
| "recover_records (record # records) q =
     and_then (recover_record record q) (recover_records records)"

definition recover :: "quarantined deletion" where
  "recover = and_then list_deletion_journals (\<lambda>records. recover_records records [])"

definition has_pending_for :: "ustr \<Rightarrow> ustr \<Rightarrow> bool deletion" where
  "has_pending_for guru target =
     and_then list_deletion_journals (\<lambda>records. finish (list_ex (\<lambda>record. case record of
       Valid_Journal j \<Rightarrow> dj_guru_id j = guru \<and> dj_target_id j = target
     | Invalid_Journal key stored_guru reason \<Rightarrow> stored_guru = guru) records))"

end
