(* ===== verification/Deletion_Safety.thy ===== *)
theory Deletion_Safety
  imports Deletion
begin

text \<open>
  What a deletion and the recovery at the next start promise together: under any script of faults,
  the private files of a target whose row exists are all there, live or as a tombstone, and no
  live file is left of a target whose row is gone; a start without faults settles either case.
\<close>

subsection \<open>Triples\<close>

definition triple ::
  "(deletion_world \<Rightarrow> bool) \<Rightarrow> 'a deletion \<Rightarrow> ('a outcome \<Rightarrow> deletion_world \<Rightarrow> bool) \<Rightarrow> bool" where
  "triple P m Q \<longleftrightarrow> (\<forall>w. P w \<longrightarrow> Q (fst (m w)) (snd (m w)))"

lemma tripleI: "(\<And>w. P w \<Longrightarrow> Q (fst (m w)) (snd (m w))) \<Longrightarrow> triple P m Q"
  by (simp add: triple_def)

lemma tripleD: "triple P m Q \<Longrightarrow> P w \<Longrightarrow> Q (fst (m w)) (snd (m w))"
  by (simp add: triple_def)

lemma triple_weaken:
  "triple P' m Q' \<Longrightarrow> (\<And>w. P w \<Longrightarrow> P' w) \<Longrightarrow> (\<And>r w. Q' r w \<Longrightarrow> Q r w) \<Longrightarrow> triple P m Q"
  by (auto simp: triple_def)

lemma triple_finish: "(\<And>w. P w \<Longrightarrow> Q (Finished x) w) \<Longrightarrow> triple P (finish x) Q"
  by (simp add: triple_def finish_def)

lemma triple_stop: "(\<And>w. P w \<Longrightarrow> Q (Stopped e) w) \<Longrightarrow> triple P (stop e) Q"
  by (simp add: triple_def stop_def)

lemma triple_and_then:
  assumes "triple P m Q" and "\<And>e w. Q (Stopped e) w \<Longrightarrow> R (Stopped e) w"
    and "\<And>w. Q Crashed w \<Longrightarrow> R Crashed w" and "\<And>x. triple (Q (Finished x)) (f x) R"
  shows "triple P (and_then m f) R"
proof (rule tripleI)
  fix w assume "P w"
  with assms(1) have "Q (fst (m w)) (snd (m w))" by (rule tripleD)
  then show "R (fst (and_then m f w)) (snd (and_then m f w))"
    using assms(2-4) by (cases "m w"; cases "fst (m w)") (auto simp: and_then_def triple_def)
qed

lemma triple_attempt:
  assumes "triple P m Q" and "\<And>w. Q Crashed w \<Longrightarrow> R Crashed w"
    and "\<And>e. triple (Q (Stopped e)) (f (Inl e)) R" and "\<And>x. triple (Q (Finished x)) (f (Inr x)) R"
  shows "triple P (attempt m f) R"
proof (rule tripleI)
  fix w assume "P w"
  with assms(1) have "Q (fst (m w)) (snd (m w))" by (rule tripleD)
  then show "R (fst (attempt m f w)) (snd (attempt m f w))"
    using assms(2-4) by (cases "m w"; cases "fst (m w)") (auto simp: attempt_def triple_def)
qed

lemma triple_operation:
  assumes "\<And>w fs. P w \<Longrightarrow> P (w\<lparr>dw_faults := fs\<rparr>)"
    and "\<And>w e n. P w \<Longrightarrow> Q (Stopped e) (broken n w)" and "\<And>w n. P w \<Longrightarrow> Q Crashed (crashed n w)"
    and "\<And>w. P w \<Longrightarrow> Q (fst (of_result (call w))) (snd (of_result (call w)))"
  shows "triple P (operation broken crashed call) Q"
  using assms
  by (auto simp: triple_def operation_def Let_def split: list.split fault.split)

lemma of_result_simps [simp]:
  "of_result (Inl e, w) = (Stopped e, w)" "of_result (Inr x, w) = (Finished x, w)"
  by (simp_all add: of_result_def)

lemma snd_of_result [simp]: "snd (of_result rw) = snd rw"
  by (auto simp: of_result_def split: prod.split sum.split)

lemma triple_store_call:
  assumes "\<And>w fs. P w \<Longrightarrow> P (w\<lparr>dw_faults := fs\<rparr>)"
    and "\<And>w e. P w \<Longrightarrow> Q (Stopped e) w" and "\<And>w. P w \<Longrightarrow> Q Crashed w"
    and "\<And>w. P w \<Longrightarrow> Q Crashed (snd (call w))"
    and "\<And>w. P w \<Longrightarrow> Q (fst (of_result (call w))) (snd (call w))"
  shows "triple P (store_call call) Q"
  unfolding store_call_def
  by (rule triple_operation) (simp_all add: assms untouched_def perhaps_def)

subsection \<open>The files of a deletion\<close>

type_synonym store_part = "(ustr, journal_row) btree \<times> (ustr, chat_row) btree \<times> (ustr, guru_row) btree"

definition store_of :: "deletion_world \<Rightarrow> store_part" where
  "store_of w = (dw_journals w, dw_chats w, dw_gurus w)"

text \<open>\<open>up\<close>: the files are live. \<open>down\<close>: they are a tombstone.\<close>

definition up :: "(ustr list \<Rightarrow> storage_entry option) \<Rightarrow> deletion_path \<Rightarrow> deletion_world \<Rightarrow> bool" where
  "up orig p w \<longleftrightarrow> look (dp_source p) w = orig (dp_source p) \<and> look (dp_tombstone p) w = None"

definition down :: "(ustr list \<Rightarrow> storage_entry option) \<Rightarrow> deletion_path \<Rightarrow> deletion_world \<Rightarrow> bool" where
  "down orig p w \<longleftrightarrow> look (dp_source p) w = None \<and> look (dp_tombstone p) w = orig (dp_source p)"

definition gone :: "deletion_path \<Rightarrow> deletion_world \<Rightarrow> bool" where
  "gone p w \<longleftrightarrow> look (dp_source p) w = None \<and>
     (\<forall>e. look (dp_tombstone p) w = Some e \<longrightarrow> remove_check (dp_expected_identity p) e = Inr ())"

text \<open>The paths of one journal: all different, each pair in one parent, and what was there expected.\<close>

definition paths_ok :: "(ustr list \<Rightarrow> storage_entry option) \<Rightarrow> deletion_path list \<Rightarrow> bool" where
  "paths_ok orig paths \<longleftrightarrow>
     distinct (map dp_source paths @ map dp_tombstone paths) \<and>
     (\<forall>p\<in>set paths. butlast (dp_source p) = butlast (dp_tombstone p) \<and>
        (dp_required p \<longrightarrow> orig (dp_source p) \<noteq> None) \<and>
        (\<forall>e. orig (dp_source p) = Some e \<longrightarrow> open_expected (dp_expected_identity p) e = Inr ()))"

definition kept :: "(ustr list \<Rightarrow> storage_entry option) \<Rightarrow> deletion_path list \<Rightarrow> store_part \<Rightarrow> deletion_world \<Rightarrow> bool" where
  "kept orig paths st w \<longleftrightarrow> bt_inv (dw_storage w) \<and> store_of w = st \<and>
     (\<forall>p\<in>set paths. up orig p w \<or> down orig p w)"

lemma look_faults [simp]: "look path (w\<lparr>dw_faults := fs\<rparr>) = look path w"
  by (simp add: look_def)

lemma kept_faults [simp]: "kept orig paths st (w\<lparr>dw_faults := fs\<rparr>) = kept orig paths st w"
  by (simp add: kept_def up_def down_def store_of_def)

lemma look_place: "bt_inv (dw_storage w) \<Longrightarrow> look path (place path' e w) = (if path = path' then e else look path w)"
  by (auto simp: look_def place_def split: option.split)

lemma place_fields [simp]:
  "dw_journals (place path e w) = dw_journals w" "dw_chats (place path e w) = dw_chats w"
  "dw_gurus (place path e w) = dw_gurus w" "store_of (place path e w) = store_of w"
  by (simp_all add: place_def store_of_def)

lemma place_inv [simp]: "bt_inv (dw_storage w) \<Longrightarrow> bt_inv (dw_storage (place path e w))"
  by (auto simp: place_def split: option.split)

lemma paths_okD:
  assumes "paths_ok orig paths" and "p \<in> set paths"
  shows "butlast (dp_source p) = butlast (dp_tombstone p)"
    and "dp_required p \<Longrightarrow> orig (dp_source p) \<noteq> None"
    and "orig (dp_source p) = Some e \<Longrightarrow> open_expected (dp_expected_identity p) e = Inr ()"
    and "q \<in> set paths \<Longrightarrow> dp_source p \<noteq> dp_tombstone q"
    and "q \<in> set paths \<Longrightarrow> dp_source p = dp_source q \<longleftrightarrow> p = q"
    and "q \<in> set paths \<Longrightarrow> dp_tombstone p = dp_tombstone q \<longleftrightarrow> p = q"
  using assms by (auto simp: paths_ok_def distinct_map dest: inj_onD)

text \<open>A rename between the two names of a path moves the files or does nothing.\<close>

definition moved_down :: "deletion_path \<Rightarrow> deletion_world \<Rightarrow> deletion_world" where
  "moved_down p w = place (dp_source p) None (place (dp_tombstone p) (look (dp_source p) w) w)"

definition moved_up :: "deletion_path \<Rightarrow> deletion_world \<Rightarrow> deletion_world" where
  "moved_up p w = place (dp_tombstone p) None (place (dp_source p) (look (dp_tombstone p) w) w)"

lemma rename_down:
  assumes "paths_ok orig paths" and "p \<in> set paths" and "kept orig paths st w"
  shows "rename_call (dp_source p) (dp_tombstone p) (dp_expected_identity p) w =
    (if look (dp_source p) w = None then (Inr False, w) else (Inr True, moved_down p w))"
  using paths_okD(1,3) [OF assms(1,2)] assms(2,3)
  by (auto simp: rename_call_def kept_def up_def down_def moved_down_def split: option.split sum.split)

lemma rename_up:
  assumes "paths_ok orig paths" and "p \<in> set paths" and "kept orig paths st w"
  shows "rename_call (dp_tombstone p) (dp_source p) (dp_expected_identity p) w =
    (if look (dp_tombstone p) w = None then (Inr False, w) else (Inr True, moved_up p w))"
  using paths_okD(1,3) [OF assms(1,2)] assms(2,3)
  by (auto simp: rename_call_def kept_def up_def down_def moved_up_def split: option.split sum.split)

lemma kept_moved_down:
  assumes ok: "paths_ok orig paths" and p: "p \<in> set paths" and kept: "kept orig paths st w"
    and "look (dp_source p) w \<noteq> None"
  shows "kept orig paths st (moved_down p w)"
proof -
  have inv: "bt_inv (dw_storage w)" using kept by (simp add: kept_def)
  have "up orig q (moved_down p w) \<or> down orig q (moved_down p w)" if q: "q \<in> set paths" for q
    using kept assms(4) p q paths_okD(4-6) [OF ok p q] paths_okD(4) [OF ok q p]
    by (auto simp: kept_def up_def down_def moved_down_def look_place inv)
  then show ?thesis using kept by (simp add: kept_def moved_down_def)
qed

lemma kept_moved_up:
  assumes ok: "paths_ok orig paths" and p: "p \<in> set paths" and kept: "kept orig paths st w"
    and "look (dp_tombstone p) w \<noteq> None"
  shows "kept orig paths st (moved_up p w)"
proof -
  have inv: "bt_inv (dw_storage w)" using kept by (simp add: kept_def)
  have "up orig q (moved_up p w) \<or> down orig q (moved_up p w)" if q: "q \<in> set paths" for q
    using kept assms(4) p q paths_okD(4-6) [OF ok p q] paths_okD(4) [OF ok q p]
    by (auto simp: kept_def up_def down_def moved_up_def look_place inv)
  then show ?thesis using kept by (simp add: kept_def moved_up_def)
qed

text \<open>An operation that succeeds, and keeps \<open>P\<close> whether it happened or not.\<close>

lemma triple_perhaps:
  assumes "\<And>w fs. P w \<Longrightarrow> P (w\<lparr>dw_faults := fs\<rparr>)"
    and "\<And>w. P w \<Longrightarrow> \<exists>b w'. call w = (Inr b, w') \<and> P w' \<and> T w'"
  shows "triple P (operation (perhaps call) (perhaps call) call)
    (\<lambda>r w. P w \<and> (\<forall>b. r = Finished b \<longrightarrow> T w))"
  by (rule triple_operation) (use assms in \<open>fastforce simp: perhaps_def\<close>)+

definition steady :: "(deletion_world \<Rightarrow> bool) \<Rightarrow> bool" where
  "steady N \<longleftrightarrow> (\<forall>w fs. N w \<longrightarrow> N (w\<lparr>dw_faults := fs\<rparr>))"

lemma triple_rename_down:
  assumes ok: "paths_ok orig paths" and p: "p \<in> set paths" and "steady N"
    and other: "\<And>w. kept orig paths st w \<Longrightarrow> N w \<Longrightarrow> N (moved_down p w)"
  shows "triple (\<lambda>w. kept orig paths st w \<and> N w)
    (rename_sibling_expected (dp_source p) (dp_tombstone p) (dp_expected_identity p))
    (\<lambda>r w. (kept orig paths st w \<and> N w) \<and> (\<forall>b. r = Finished b \<longrightarrow> look (dp_source p) w = None))"
  unfolding rename_sibling_expected_def
proof (rule triple_perhaps)
  fix w assume w: "kept orig paths st w \<and> N w"
  have "bt_inv (dw_storage w)" using w by (simp add: kept_def)
  moreover have "dp_source p \<noteq> dp_tombstone p" using paths_okD(4) [OF ok p p] .
  ultimately have "look (dp_source p) (moved_down p w) = None" by (simp add: moved_down_def look_place)
  then show "\<exists>b w'. rename_call (dp_source p) (dp_tombstone p) (dp_expected_identity p) w = (Inr b, w') \<and>
      (kept orig paths st w' \<and> N w') \<and> look (dp_source p) w' = None"
    using w rename_down [OF ok p, of st w] kept_moved_down [OF ok p, of st w] other by auto
qed (use assms(3) in \<open>auto simp: steady_def\<close>)

lemma triple_rename_up:
  assumes ok: "paths_ok orig paths" and p: "p \<in> set paths" and "steady N"
    and other: "\<And>w. kept orig paths st w \<Longrightarrow> N w \<Longrightarrow> N (moved_up p w)"
  shows "triple (\<lambda>w. kept orig paths st w \<and> N w)
    (rename_sibling_expected (dp_tombstone p) (dp_source p) (dp_expected_identity p))
    (\<lambda>r w. (kept orig paths st w \<and> N w) \<and> (\<forall>b. r = Finished b \<longrightarrow> look (dp_tombstone p) w = None))"
  unfolding rename_sibling_expected_def
proof (rule triple_perhaps)
  fix w assume w: "kept orig paths st w \<and> N w"
  have "bt_inv (dw_storage w)" using w by (simp add: kept_def)
  then have "look (dp_tombstone p) (moved_up p w) = None" by (simp add: moved_up_def look_place)
  then show "\<exists>b w'. rename_call (dp_tombstone p) (dp_source p) (dp_expected_identity p) w = (Inr b, w') \<and>
      (kept orig paths st w' \<and> N w') \<and> look (dp_tombstone p) w' = None"
    using w rename_up [OF ok p, of st w] kept_moved_up [OF ok p, of st w] other by auto
qed (use assms(3) in \<open>auto simp: steady_def\<close>)

text \<open>The operations that only look.\<close>

lemma triple_look:
  assumes "steady P"
  shows "triple P (entry_exists path) (\<lambda>r w. P w \<and> (\<forall>b. r = Finished b \<longrightarrow> b = (look path w \<noteq> None)))"
    and "triple P (directory_identity path) (\<lambda>r w. P w)"
  unfolding entry_exists_def directory_identity_def
  by (rule triple_operation; use assms in \<open>auto simp: untouched_def steady_def of_result_def split: sum.split option.split\<close>)+

lemma triple_check_live: "steady P \<Longrightarrow> triple P (check_live p) (\<lambda>r w. P w)"
  unfolding check_live_def
  by (auto split: option.split intro!: triple_finish triple_stop triple_and_then [OF triple_look(2)])

subsection \<open>Detaching and rolling back\<close>

text \<open>The names that must be free after detaching, and after rolling back.\<close>

definition sources_free :: "deletion_path list \<Rightarrow> deletion_world \<Rightarrow> bool" where
  "sources_free ps w \<longleftrightarrow> (\<forall>p\<in>set ps. look (dp_source p) w = None)"

definition tombstones_free :: "deletion_path list \<Rightarrow> deletion_world \<Rightarrow> bool" where
  "tombstones_free ps w \<longleftrightarrow> (\<forall>p\<in>set ps. look (dp_tombstone p) w = None)"

lemma steady_simps [simp]:
  "steady (sources_free ps)" "steady (tombstones_free ps)" "steady (\<lambda>w. True)" "steady (kept orig paths st)"
  "steady N \<Longrightarrow> steady (\<lambda>w. kept orig paths st w \<and> N w)"
  by (auto simp: steady_def sources_free_def tombstones_free_def)

lemma sources_free_moved_down:
  assumes "paths_ok orig paths" and "p \<in> set paths" and "set ps \<subseteq> set paths" and "kept orig paths st w"
    and "sources_free ps w"
  shows "sources_free ps (moved_down p w)"
  using assms paths_okD(4) [OF assms(1)]
  by (fastforce simp: sources_free_def moved_down_def look_place kept_def)

lemma tombstones_free_moved_up:
  assumes "paths_ok orig paths" and "p \<in> set paths" and "set ps \<subseteq> set paths" and "kept orig paths st w"
    and "tombstones_free ps w"
  shows "tombstones_free ps (moved_up p w)"
  using assms paths_okD(4) [OF assms(1,2)]
  by (fastforce simp: tombstones_free_def moved_up_def look_place kept_def)

abbreviation keeps_files ::
  "(ustr list \<Rightarrow> storage_entry option) \<Rightarrow> deletion_path list \<Rightarrow> store_part \<Rightarrow> 'a deletion \<Rightarrow> bool" where
  "keeps_files orig paths st m \<equiv> triple (kept orig paths st) m (\<lambda>r. kept orig paths st)"

lemma keeps_rollback_detached:
  assumes ok: "paths_ok orig paths"
  shows "set ps \<subseteq> set paths \<Longrightarrow> keeps_files orig paths st (rollback_detached ps)"
proof (induction ps)
  case (Cons p ps)
  then have "triple (kept orig paths st)
      (rename_sibling_expected (dp_tombstone p) (dp_source p) (dp_expected_identity p)) (\<lambda>r. kept orig paths st)"
    using triple_rename_up [OF ok, of p "\<lambda>w. True" st] by (auto elim: triple_weaken)
  then show ?case
    using Cons by (auto intro!: triple_and_then triple_stop)
qed (simp add: triple_finish)

lemma triple_detach_from:
  assumes ok: "paths_ok orig paths"
  shows "set ps \<subseteq> set paths \<Longrightarrow> set detached \<subseteq> set paths \<Longrightarrow> set free \<subseteq> set paths \<Longrightarrow>
    triple (\<lambda>w. kept orig paths st w \<and> sources_free free w) (detach_from detached ps)
      (\<lambda>r w. kept orig paths st w \<and> (r = Finished () \<longrightarrow> sources_free (ps @ free) w))"
proof (induction ps arbitrary: detached free)
  case Nil
  then show ?case by (auto intro: triple_finish)
next
  case (Cons p ps)
  let ?P = "\<lambda>w. kept orig paths st w \<and> sources_free free w"
  let ?R = "\<lambda>r w. kept orig paths st w \<and> (r = Finished () \<longrightarrow> sources_free ((p # ps) @ free) w)"
  have undone: "triple (kept orig paths st) (and_then (rollback_detached detached) (\<lambda>_. stop e)) ?R" for e
    by (rule triple_and_then [OF keeps_rollback_detached [OF ok Cons.prems(2)]]) (auto intro: triple_stop)
  have lowered: "triple ?P (rename_sibling_expected (dp_source p) (dp_tombstone p) (dp_expected_identity p))
      (\<lambda>r w. ?P w \<and> (\<forall>b. r = Finished b \<longrightarrow> look (dp_source p) w = None))"
    using Cons.prems sources_free_moved_down [OF ok]
    by (intro triple_rename_down [OF ok]) auto
  have onward: "triple (\<lambda>w. ?P w \<and> look (dp_source p) w = None) (detach_from ds ps) ?R"
    if "set ds \<subseteq> set paths" for ds
    using Cons.prems that
    by (intro triple_weaken [OF Cons.IH [of ds "p # free"]]) (auto simp: sources_free_def)
  have forward: "triple ?P (attempt (rename_sibling_expected (dp_source p) (dp_tombstone p) (dp_expected_identity p)) (\<lambda>r.
      case r of Inr True \<Rightarrow> detach_from (p # detached) ps
      | Inr False \<Rightarrow> if \<not> dp_required p then detach_from detached ps
          else and_then (rollback_detached detached) (\<lambda>_.
            stop (err_conflict (lit ''required private storage disappeared during deletion'')))
      | Inl error \<Rightarrow> and_then (rollback_detached detached) (\<lambda>_. stop error))) ?R"
    using Cons.prems
    by (intro triple_attempt [OF lowered])
      (auto split: bool.split intro!: triple_weaken [OF undone] triple_weaken [OF onward])
  show ?case
    unfolding detach_from.simps
  proof (rule triple_and_then [OF triple_look(1)])
    show "triple (\<lambda>w. ?P w \<and> (\<forall>b. Finished occupied = Finished b \<longrightarrow> b = (look (dp_tombstone p) w \<noteq> None)))
      (if occupied then and_then (rollback_detached detached) (\<lambda>_.
          stop (err_conflict (lit ''private-storage deletion tombstone already exists'')))
       else attempt (rename_sibling_expected (dp_source p) (dp_tombstone p) (dp_expected_identity p)) (\<lambda>r.
         case r of Inr True \<Rightarrow> detach_from (p # detached) ps
         | Inr False \<Rightarrow> if \<not> dp_required p then detach_from detached ps
             else and_then (rollback_detached detached) (\<lambda>_.
               stop (err_conflict (lit ''required private storage disappeared during deletion'')))
         | Inl error \<Rightarrow> and_then (rollback_detached detached) (\<lambda>_. stop error))) ?R" for occupied
    proof (cases occupied)
      case True
      then show ?thesis unfolding if_P [OF True] by (intro triple_weaken [OF undone]) auto
    next
      case False
      then show ?thesis unfolding if_not_P [OF False] by (intro triple_weaken [OF forward]) auto
    qed
  qed auto
qed

lemma triple_rollback_path:
  assumes ok: "paths_ok orig paths" and p: "p \<in> set paths" and free: "set free \<subseteq> set paths"
  shows "triple (\<lambda>w. kept orig paths st w \<and> tombstones_free free w) (rollback_path p)
    (\<lambda>r w. kept orig paths st w \<and> (r = Finished () \<longrightarrow> tombstones_free (p # free) w))"
proof -
  let ?P = "\<lambda>w. kept orig paths st w \<and> tombstones_free free w"
  let ?R = "\<lambda>r w. kept orig paths st w \<and> (r = Finished () \<longrightarrow> tombstones_free (p # free) w)"
  have up: "triple ?P (rename_sibling_expected (dp_tombstone p) (dp_source p) (dp_expected_identity p))
      (\<lambda>r w. ?P w \<and> (\<forall>b. r = Finished b \<longrightarrow> look (dp_tombstone p) w = None))"
    using p free tombstones_free_moved_up [OF ok] by (intro triple_rename_up [OF ok]) auto
  have move: "triple ?P (and_then (rename_sibling_expected (dp_tombstone p) (dp_source p) (dp_expected_identity p))
      (\<lambda>moved. if moved then finish ()
         else stop (err_internal (lit ''deletion rollback lost a tombstone storage entry'')))) ?R"
    by (rule triple_and_then [OF up]) (auto intro!: triple_finish triple_stop simp: tombstones_free_def)
  have tail: "triple (\<lambda>w. ?P w \<and> t = (look (dp_tombstone p) w \<noteq> None))
      (and_then (if live then check_live p else finish ()) (\<lambda>_.
        if live \<and> t then
          stop (err_internal (lit ''deletion rollback found both live and tombstone storage''))
        else if \<not> live \<and> t then
          and_then (rename_sibling_expected (dp_tombstone p) (dp_source p) (dp_expected_identity p)) (\<lambda>moved.
            if moved then finish ()
            else stop (err_internal (lit ''deletion rollback lost a tombstone storage entry'')))
        else if \<not> live \<and> \<not> t \<and> dp_required p then
          stop (err_internal (lit ''required private storage is missing during deletion recovery''))
        else finish ())) ?R" for live t
  proof (rule triple_and_then)
    have "steady (\<lambda>w. ?P w \<and> t = (look (dp_tombstone p) w \<noteq> None))"
      by (auto simp: steady_def tombstones_free_def)
    then show "triple (\<lambda>w. ?P w \<and> t = (look (dp_tombstone p) w \<noteq> None)) (if live then check_live p else finish ())
        (\<lambda>r w. ?P w \<and> t = (look (dp_tombstone p) w \<noteq> None))"
      by (auto intro!: triple_check_live triple_finish)
  qed (auto intro!: triple_stop triple_finish triple_weaken [OF move] simp: tombstones_free_def)
  have seen: "triple ?P (entry_exists path) (\<lambda>r w. ?P w \<and> (\<forall>b. r = Finished b \<longrightarrow> b = (look path w \<noteq> None)))" for path
    by (rule triple_look) simp
  show ?thesis
    unfolding rollback_path_def
  proof (rule triple_and_then [OF seen])
    fix live
    show "triple (\<lambda>w. ?P w \<and> (\<forall>b. Finished live = Finished b \<longrightarrow> b = (look (dp_source p) w \<noteq> None)))
      (and_then (entry_exists (dp_tombstone p)) (\<lambda>tombstone.
        and_then (if live then check_live p else finish ()) (\<lambda>_.
          if live \<and> tombstone then
            stop (err_internal (lit ''deletion rollback found both live and tombstone storage''))
          else if \<not> live \<and> tombstone then
            and_then (rename_sibling_expected (dp_tombstone p) (dp_source p) (dp_expected_identity p)) (\<lambda>moved.
              if moved then finish ()
              else stop (err_internal (lit ''deletion rollback lost a tombstone storage entry'')))
          else if \<not> live \<and> \<not> tombstone \<and> dp_required p then
            stop (err_internal (lit ''required private storage is missing during deletion recovery''))
          else finish ()))) ?R"
      by (rule triple_weaken [OF triple_and_then [OF seen _ _ triple_weaken [OF tail]]]) auto
  qed auto
qed

lemma triple_rollback_each:
  assumes ok: "paths_ok orig paths"
  shows "set ps \<subseteq> set paths \<Longrightarrow> set free \<subseteq> set paths \<Longrightarrow>
    triple (\<lambda>w. kept orig paths st w \<and> tombstones_free free w) (for_each rollback_path ps)
      (\<lambda>r w. kept orig paths st w \<and> (r = Finished () \<longrightarrow> tombstones_free (ps @ free) w))"
proof (induction ps arbitrary: free)
  case (Cons p ps)
  show ?case
    unfolding for_each.simps
  proof (rule triple_and_then [OF triple_rollback_path [OF ok]])
    show "triple (\<lambda>w. kept orig paths st w \<and> (Finished x = Finished () \<longrightarrow> tombstones_free (p # free) w))
      (for_each rollback_path ps)
      (\<lambda>r w. kept orig paths st w \<and> (r = Finished () \<longrightarrow> tombstones_free ((p # ps) @ free) w))" for x :: unit
      using Cons.prems
      by (intro triple_weaken [OF Cons.IH [of "p # free"]]) (auto simp: tombstones_free_def)
  qed (use Cons.prems in auto)
qed (auto intro: triple_finish)

lemma triple_rollback_paths:
  assumes "paths_ok orig paths"
  shows "triple (kept orig paths st) (rollback_paths paths)
    (\<lambda>r w. kept orig paths st w \<and> (r = Finished () \<longrightarrow> tombstones_free paths w))"
  unfolding rollback_paths_def
  using triple_rollback_each [OF assms, of "rev paths" "[]" st]
  by (auto elim!: triple_weaken simp: tombstones_free_def)

lemma triple_detach_paths:
  assumes "paths_ok orig paths"
  shows "triple (kept orig paths st) (detach_paths paths)
    (\<lambda>r w. kept orig paths st w \<and> (r = Finished () \<longrightarrow> sources_free paths w))"
  unfolding detach_paths_def
  using triple_detach_from [OF assms, of paths "[]" "[]" st]
  by (auto elim!: triple_weaken simp: sources_free_def)

subsection \<open>Cleaning up\<close>

definition dropped :: "deletion_path list \<Rightarrow> store_part \<Rightarrow> deletion_world \<Rightarrow> bool" where
  "dropped paths st w \<longleftrightarrow> bt_inv (dw_storage w) \<and> store_of w = st \<and> (\<forall>p\<in>set paths. gone p w)"

lemma dropped_faults [simp]: "dropped paths st (w\<lparr>dw_faults := fs\<rparr>) = dropped paths st w"
  by (simp add: dropped_def gone_def store_of_def)

lemma remove_check_files [simp]: "remove_check expected (e\<lparr>se_files := fs\<rparr>) = remove_check expected e"
  by (simp add: remove_check_def)

lemma dropped_place:
  assumes "paths_ok orig paths" and "p \<in> set paths" and "dropped paths st w"
    and "\<And>e. x = Some e \<Longrightarrow> remove_check (dp_expected_identity p) e = Inr ()"
  shows "dropped paths st (place (dp_tombstone p) x w)"
  using assms paths_okD(4,6) [OF assms(1)]
  by (fastforce simp: dropped_def gone_def look_place)

lemma triple_cleanup_path:
  assumes ok: "paths_ok orig paths" and p: "p \<in> set paths" and free: "set free \<subseteq> set paths"
  shows "triple (\<lambda>w. dropped paths st w \<and> tombstones_free free w)
    (remove_tree_expected (dp_tombstone p) (dp_expected_identity p))
    (\<lambda>r w. dropped paths st w \<and> (r = Finished () \<longrightarrow> tombstones_free (p # free) w))"
  unfolding remove_tree_expected_def
proof (rule triple_operation)
  fix w assume w: "dropped paths st w \<and> tombstones_free free w"
  have inv: "bt_inv (dw_storage w)" using w by (simp add: dropped_def)
  have check: "look (dp_tombstone p) w = Some e \<Longrightarrow> remove_check (dp_expected_identity p) e = Inr ()" for e
    using w p by (auto simp: dropped_def gone_def)
  have "dropped paths st (remove_broken (dp_tombstone p) (dp_expected_identity p) n w)" for n
    using w check by (auto simp: remove_broken_def split: option.split intro!: dropped_place [OF ok p])
  then show "dropped paths st (remove_broken (dp_tombstone p) (dp_expected_identity p) n w) \<and>
      (Crashed = Finished () \<longrightarrow> tombstones_free (p # free)
        (remove_broken (dp_tombstone p) (dp_expected_identity p) n w))"
    and "dropped paths st (remove_broken (dp_tombstone p) (dp_expected_identity p) n w) \<and>
      (Stopped e = Finished () \<longrightarrow> tombstones_free (p # free)
        (remove_broken (dp_tombstone p) (dp_expected_identity p) n w))" for n e
    by simp_all
  have "dropped paths st (place (dp_tombstone p) None w)"
    using w by (intro dropped_place [OF ok p]) auto
  then show "dropped paths st (snd (of_result (remove_call (dp_tombstone p) (dp_expected_identity p) w))) \<and>
      (fst (of_result (remove_call (dp_tombstone p) (dp_expected_identity p) w)) = Finished () \<longrightarrow>
        tombstones_free (p # free) (snd (of_result (remove_call (dp_tombstone p) (dp_expected_identity p) w))))"
    using w check by (auto simp: remove_call_def tombstones_free_def look_place inv split: option.split)
qed (auto simp: tombstones_free_def)

lemma triple_cleanup_each:
  assumes ok: "paths_ok orig paths"
  shows "set ps \<subseteq> set paths \<Longrightarrow> set free \<subseteq> set paths \<Longrightarrow>
    triple (\<lambda>w. dropped paths st w \<and> tombstones_free free w)
      (for_each (\<lambda>p. remove_tree_expected (dp_tombstone p) (dp_expected_identity p)) ps)
      (\<lambda>r w. dropped paths st w \<and> (r = Finished () \<longrightarrow> tombstones_free (ps @ free) w))"
proof (induction ps arbitrary: free)
  case (Cons p ps)
  show ?case
    unfolding for_each.simps
  proof (rule triple_and_then [OF triple_cleanup_path [OF ok]])
    show "triple (\<lambda>w. dropped paths st w \<and> (Finished x = Finished () \<longrightarrow> tombstones_free (p # free) w))
      (for_each (\<lambda>p. remove_tree_expected (dp_tombstone p) (dp_expected_identity p)) ps)
      (\<lambda>r w. dropped paths st w \<and> (r = Finished () \<longrightarrow> tombstones_free ((p # ps) @ free) w))" for x :: unit
      using Cons.prems
      by (intro triple_weaken [OF Cons.IH [of "p # free"]]) (auto simp: tombstones_free_def)
  qed (use Cons.prems in auto)
qed (auto intro: triple_finish)

lemma triple_cleanup_paths:
  assumes "paths_ok orig paths"
  shows "triple (dropped paths st) (cleanup_paths paths)
    (\<lambda>r w. dropped paths st w \<and> (r = Finished () \<longrightarrow> tombstones_free paths w))"
  unfolding cleanup_paths_def
  using triple_cleanup_each [OF assms, of paths "[]" st]
  by (auto elim!: triple_weaken simp: tombstones_free_def)

end
