(* ===== verification/Deletion_Recovery.thy ===== *)
theory Deletion_Recovery
  imports Deletion_Safety
begin

text \<open>
  A deletion, the crashes, and the recoveries that follow: \<open>consistent\<close> relates the row of the
  target, the journal and the private files; every operation keeps it under every script, and a
  recovery without faults settles it.
\<close>

subsection \<open>The state between two operations\<close>

definition target_there :: "deletion_journal \<Rightarrow> deletion_world \<Rightarrow> bool" where
  "target_there j w \<longleftrightarrow>
     (case dj_kind j of
        Delete_Chat \<Rightarrow> pred_option (\<lambda>chat. ch_guru_id chat = dj_guru_id j) (bt_get (dw_chats w) (dj_target_id j)) \<and>
          bt_get (dw_chats w) (dj_target_id j) \<noteq> None
      | Delete_Guru \<Rightarrow> bt_get (dw_gurus w) (dj_guru_id j) \<noteq> None)"

definition target_gone :: "deletion_journal \<Rightarrow> deletion_world \<Rightarrow> bool" where
  "target_gone j w \<longleftrightarrow>
     (case dj_kind j of
        Delete_Chat \<Rightarrow> bt_get (dw_chats w) (dj_target_id j) = None
      | Delete_Guru \<Rightarrow> bt_get (dw_gurus w) (dj_guru_id j) = None)"

definition journal_entry :: "deletion_journal \<Rightarrow> (ustr, journal_row) btree" where
  "journal_entry j = [(dj_id j, row_of j)]"

definition journal_known :: "deletion_journal \<Rightarrow> (ustr, journal_row) btree \<Rightarrow> bool" where
  "journal_known j js \<longleftrightarrow> js = [] \<or> js = journal_entry j \<or> js = journal_entry (detached_journal j)"

definition intact_target ::
  "(ustr list \<Rightarrow> storage_entry option) \<Rightarrow> deletion_path list \<Rightarrow> deletion_journal \<Rightarrow> deletion_world \<Rightarrow> bool" where
  "intact_target orig paths j w \<longleftrightarrow> target_there j w \<and> kept orig paths (store_of w) w \<and>
     bt_inv (dw_chats w) \<and> bt_inv (dw_gurus w)"

definition deleted_target :: "deletion_path list \<Rightarrow> deletion_journal \<Rightarrow> deletion_world \<Rightarrow> bool" where
  "deleted_target paths j w \<longleftrightarrow> target_gone j w \<and> dropped paths (store_of w) w"

definition consistent ::
  "(ustr list \<Rightarrow> storage_entry option) \<Rightarrow> deletion_path list \<Rightarrow> deletion_journal \<Rightarrow> deletion_world \<Rightarrow> bool" where
  "consistent orig paths j w \<longleftrightarrow>
     journal_known j (dw_journals w) \<and>
     (intact_target orig paths j w \<or> deleted_target paths j w) \<and>
     (dw_journals w = [] \<longrightarrow> tombstones_free paths w)"

lemma target_faults [simp]:
  "target_there j (w\<lparr>dw_faults := fs\<rparr>) = target_there j w"
  "target_gone j (w\<lparr>dw_faults := fs\<rparr>) = target_gone j w"
  "store_of (w\<lparr>dw_faults := fs\<rparr>) = store_of w"
  "tombstones_free paths (w\<lparr>dw_faults := fs\<rparr>) = tombstones_free paths w"
  "sources_free paths (w\<lparr>dw_faults := fs\<rparr>) = sources_free paths w"
  "intact_target orig paths j (w\<lparr>dw_faults := fs\<rparr>) = intact_target orig paths j w"
  "deleted_target paths j (w\<lparr>dw_faults := fs\<rparr>) = deleted_target paths j w"
  "consistent orig paths j (w\<lparr>dw_faults := fs\<rparr>) = consistent orig paths j w"
  by (simp_all add: target_there_def target_gone_def store_of_def tombstones_free_def sources_free_def
      intact_target_def deleted_target_def consistent_def cong: deletion_kind.case_cong)

text \<open>The state of the target depends on the database only.\<close>

lemma target_store:
  "dw_chats w = dw_chats w' \<Longrightarrow> dw_gurus w = dw_gurus w' \<Longrightarrow>
   target_there j w = target_there j w' \<and> target_gone j w = target_gone j w'"
  by (simp add: target_there_def target_gone_def cong: deletion_kind.case_cong)

lemma target_exclusive: "target_there j w \<Longrightarrow> \<not> target_gone j w"
  by (auto simp: target_there_def target_gone_def split: deletion_kind.splits)

lemma detached_fields [simp]:
  "dj_id (detached_journal j) = dj_id j" "dj_kind (detached_journal j) = dj_kind j"
  "dj_expected_source_identity (detached_journal j) = dj_expected_source_identity j"
  "dj_guru_id (detached_journal j) = dj_guru_id j" "dj_target_id (detached_journal j) = dj_target_id j"
  "target_there (detached_journal j) w = target_there j w" "target_gone (detached_journal j) w = target_gone j w"
  by (simp_all add: detached_journal_def target_there_def target_gone_def cong: deletion_kind.case_cong)

lemma detached_valid:
  assumes "journal_validate j = Inr ()" and "dj_updated_at_ms j \<le> i64_max"
  shows "journal_validate (detached_journal j) = Inr ()"
  using assms by (auto simp: journal_validate_def detached_journal_def split: sum.splits if_splits)

lemma detached_paths:
  assumes "journal_validate j = Inr ()" and "dj_updated_at_ms j \<le> i64_max"
  shows "journal_paths (detached_journal j) = journal_paths j"
  using assms detached_valid [OF assms]
  by (simp add: journal_paths_def cong: deletion_kind.case_cong)

text \<open>Statements on the journal touch nothing else.\<close>

lemma set_journals_simps [simp]:
  "dw_journals (set_journals js w) = js" "dw_chats (set_journals js w) = dw_chats w"
  "dw_gurus (set_journals js w) = dw_gurus w" "dw_storage (set_journals js w) = dw_storage w"
  "target_there j (set_journals js w) = target_there j w" "target_gone j (set_journals js w) = target_gone j w"
  "look path (set_journals js w) = look path w" "tombstones_free ps (set_journals js w) = tombstones_free ps w"
  "up orig p (set_journals js w) = up orig p w" "down orig p (set_journals js w) = down orig p w"
  "gone p (set_journals js w) = gone p w"
  by (simp_all add: set_journals_def target_there_def target_gone_def look_def tombstones_free_def
      up_def down_def gone_def cong: deletion_kind.case_cong)

lemma intact_set_journals [simp]:
  "intact_target orig paths j (set_journals js w) = intact_target orig paths j w"
  "deleted_target paths j (set_journals js w) = deleted_target paths j w"
  by (simp_all add: intact_target_def deleted_target_def kept_def dropped_def)

lemma consistentI:
  "journal_known j (dw_journals w) \<Longrightarrow> intact_target orig paths j w \<or> deleted_target paths j w \<Longrightarrow>
   dw_journals w \<noteq> [] \<or> tombstones_free paths w \<Longrightarrow> consistent orig paths j w"
  by (auto simp: consistent_def)

text \<open>Deleting the journal of a settled target.\<close>

lemma triple_delete_journal:
  assumes "journal_validate j' = Inr ()" and "journal_known j (journal_entry j')"
    and "\<And>w. P w \<Longrightarrow> dw_journals w = journal_entry j' \<and> tombstones_free paths w \<and>
      (intact_target orig paths j w \<or> deleted_target paths j w)"
    and "\<And>w fs. P w \<Longrightarrow> P (w\<lparr>dw_faults := fs\<rparr>)"
  shows "triple P (delete_deletion_journal j')
    (\<lambda>r w. consistent orig paths j w \<and> (r = Finished () \<longrightarrow> dw_journals w = []))"
  unfolding delete_deletion_journal_def
proof (rule triple_store_call)
  fix w assume P: "P w"
  have there: "dw_journals w = journal_entry j'" "tombstones_free paths w"
      "intact_target orig paths j w \<or> deleted_target paths j w"
    using assms(3) [OF P] by auto
  have call: "store_valid j' (remove_journal j') w = (Inr (), set_journals [] w)"
    using assms(1) there(1) by (simp add: store_valid_def remove_journal_def journal_entry_def row_of_def)
  have kept: "consistent orig paths j w"
    by (rule consistentI) (use assms(2) there in auto)
  have dropped: "consistent orig paths j (set_journals [] w)"
    by (rule consistentI) (use there in \<open>auto simp: journal_known_def\<close>)
  show "consistent orig paths j w \<and> (Stopped e = Finished () \<longrightarrow> dw_journals w = [])" for e
    using kept by simp
  show "consistent orig paths j w \<and> (Crashed = Finished () \<longrightarrow> dw_journals w = [])"
    using kept by simp
  show "consistent orig paths j (snd (store_valid j' (remove_journal j') w)) \<and>
      (Crashed = Finished () \<longrightarrow> dw_journals (snd (store_valid j' (remove_journal j') w)) = [])"
    using dropped call by simp
  show "consistent orig paths j (snd (store_valid j' (remove_journal j') w)) \<and>
      (fst (of_result (store_valid j' (remove_journal j') w)) = Finished () \<longrightarrow>
        dw_journals (snd (store_valid j' (remove_journal j') w)) = [])"
    using dropped call by simp
qed (rule assms(4))

text \<open>The file operations, with the database as it is.\<close>

lemma triple_on_intact:
  assumes "\<And>st. triple (kept orig paths st) m (\<lambda>r w. kept orig paths st w \<and> (r = Finished () \<longrightarrow> F w))"
  shows "triple (\<lambda>w. intact_target orig paths j w \<and> dw_journals w = js) m
    (\<lambda>r w. intact_target orig paths j w \<and> dw_journals w = js \<and> (r = Finished () \<longrightarrow> F w))"
proof (rule tripleI)
  fix w assume w: "intact_target orig paths j w \<and> dw_journals w = js"
  then have "kept orig paths (store_of w) (snd (m w)) \<and> (fst (m w) = Finished () \<longrightarrow> F (snd (m w)))"
    using tripleD [OF assms [of "store_of w"], of w] by (simp add: intact_target_def)
  moreover from this have "store_of (snd (m w)) = store_of w" by (simp add: kept_def)
  ultimately show "intact_target orig paths j (snd (m w)) \<and> dw_journals (snd (m w)) = js \<and>
      (fst (m w) = Finished () \<longrightarrow> F (snd (m w)))"
    using w target_store [of w "snd (m w)" j] by (simp add: intact_target_def store_of_def)
qed

lemma triple_on_deleted:
  assumes "\<And>st. triple (dropped paths st) m (\<lambda>r w. dropped paths st w \<and> (r = Finished () \<longrightarrow> F w))"
  shows "triple (\<lambda>w. deleted_target paths j w \<and> dw_journals w = js) m
    (\<lambda>r w. deleted_target paths j w \<and> dw_journals w = js \<and> (r = Finished () \<longrightarrow> F w))"
proof (rule tripleI)
  fix w assume w: "deleted_target paths j w \<and> dw_journals w = js"
  then have "dropped paths (store_of w) (snd (m w)) \<and> (fst (m w) = Finished () \<longrightarrow> F (snd (m w)))"
    using tripleD [OF assms [of "store_of w"], of w] by (simp add: deleted_target_def)
  moreover from this have "store_of (snd (m w)) = store_of w" by (simp add: dropped_def)
  ultimately show "deleted_target paths j (snd (m w)) \<and> dw_journals (snd (m w)) = js \<and>
      (fst (m w) = Finished () \<longrightarrow> F (snd (m w)))"
    using w target_store [of w "snd (m w)" j] by (simp add: deleted_target_def store_of_def)
qed

subsection \<open>The deletion itself\<close>

lemma entry_not_Nil [simp]: "journal_entry j \<noteq> []"
  by (simp add: journal_entry_def)

lemma intact_consistent:
  "intact_target orig paths j w \<Longrightarrow> dw_journals w = journal_entry j' \<Longrightarrow>
   journal_known j (journal_entry j') \<Longrightarrow> consistent orig paths j w"
  by (simp add: consistent_def)

lemma deleted_consistent:
  "deleted_target paths j w \<Longrightarrow> dw_journals w = journal_entry j' \<Longrightarrow>
   journal_known j (journal_entry j') \<Longrightarrow> consistent orig paths j w"
  by (simp add: consistent_def)

lemma triple_back_out:
  assumes ok: "paths_ok orig paths" and valid: "journal_validate j' = Inr ()"
    and known: "journal_known j (journal_entry j')"
  shows "triple (\<lambda>w. intact_target orig paths j w \<and> dw_journals w = journal_entry j') (back_out j' paths e)
    (\<lambda>r w. consistent orig paths j w \<and> r \<noteq> Finished ())"
  unfolding back_out_def
proof (rule triple_attempt [OF triple_on_intact [OF triple_rollback_paths [OF ok]]])
  let ?P = "\<lambda>w. intact_target orig paths j w \<and> dw_journals w = journal_entry j' \<and> tombstones_free paths w"
  have "triple ?P (and_then (delete_deletion_journal j') (\<lambda>_. stop e))
      (\<lambda>r w. consistent orig paths j w \<and> r \<noteq> Finished ())"
    by (rule triple_and_then [OF triple_delete_journal [OF valid known]]) (auto intro: triple_stop)
  then show "triple (\<lambda>w. intact_target orig paths j w \<and> dw_journals w = journal_entry j' \<and>
      (Finished x = Finished () \<longrightarrow> tombstones_free paths w))
    (case Inr x of Inl _ \<Rightarrow> stop e | Inr _ \<Rightarrow> and_then (delete_deletion_journal j') (\<lambda>_. stop e))
    (\<lambda>r w. consistent orig paths j w \<and> r \<noteq> Finished ())" for x :: unit
    by simp
  show "triple (\<lambda>w. intact_target orig paths j w \<and> dw_journals w = journal_entry j' \<and>
      (Stopped d = Finished () \<longrightarrow> tombstones_free paths w))
    (case Inl d of Inl _ \<Rightarrow> stop e | Inr _ \<Rightarrow> and_then (delete_deletion_journal j') (\<lambda>_. stop e))
    (\<lambda>r w. consistent orig paths j w \<and> r \<noteq> Finished ())" for d
    by (auto intro!: triple_stop intact_consistent [OF _ _ known])
qed (auto intro: intact_consistent [OF _ _ known])

text \<open>The statement that deletes the row of the target.\<close>

definition deletes_target ::
  "(ustr list \<Rightarrow> storage_entry option) \<Rightarrow> deletion_path list \<Rightarrow> deletion_journal \<Rightarrow> unit deletion \<Rightarrow> bool" where
  "deletes_target orig paths j m \<longleftrightarrow> (\<forall>js.
     triple (\<lambda>w. intact_target orig paths j w \<and> dw_journals w = js \<and> sources_free paths w) m
       (\<lambda>r w. dw_journals w = js \<and>
          (case r of Finished _ \<Rightarrow> deleted_target paths j w
             | Stopped _ \<Rightarrow> intact_target orig paths j w
             | Crashed \<Rightarrow> intact_target orig paths j w \<or> deleted_target paths j w)))"

lemma triple_replace_journal:
  assumes valid: "journal_validate j = Inr ()" and small: "dj_updated_at_ms j \<le> i64_max"
  shows "triple (\<lambda>w. intact_target orig paths j w \<and> dw_journals w = journal_entry j \<and> sources_free paths w)
    (replace_deletion_journal j (detached_journal j))
    (\<lambda>r w. intact_target orig paths j w \<and> sources_free paths w \<and>
      (case r of Finished _ \<Rightarrow> dw_journals w = journal_entry (detached_journal j)
         | Stopped _ \<Rightarrow> dw_journals w = journal_entry j
         | Crashed \<Rightarrow> dw_journals w = journal_entry j \<or> dw_journals w = journal_entry (detached_journal j)))"
  unfolding replace_deletion_journal_def
proof (rule triple_store_call)
  let ?call = "store_valid j (store_valid (detached_journal j) (update_journal j (detached_journal j)))"
  fix w assume w: "intact_target orig paths j w \<and> dw_journals w = journal_entry j \<and> sources_free paths w"
  have "dj_updated_at_ms j \<le> dj_updated_at_ms (detached_journal j)"
    using small by (simp add: detached_journal_def)
  then have "?call w = (Inr (), set_journals (journal_entry (detached_journal j)) w)"
    using w valid detached_valid [OF valid small]
    by (simp add: store_valid_def update_journal_def journal_entry_def row_of_def)
  moreover have "sources_free paths (set_journals js w) = sources_free paths w" for js
    by (simp add: sources_free_def)
  ultimately show
    "intact_target orig paths j (snd (?call w)) \<and> sources_free paths (snd (?call w)) \<and>
      (case fst (of_result (?call w)) of
         Finished _ \<Rightarrow> dw_journals (snd (?call w)) = journal_entry (detached_journal j)
       | Stopped _ \<Rightarrow> dw_journals (snd (?call w)) = journal_entry j
       | Crashed \<Rightarrow> dw_journals (snd (?call w)) = journal_entry j \<or>
           dw_journals (snd (?call w)) = journal_entry (detached_journal j))"
    and "intact_target orig paths j (snd (?call w)) \<and> sources_free paths (snd (?call w)) \<and>
      (case Crashed of
         Finished _ \<Rightarrow> dw_journals (snd (?call w)) = journal_entry (detached_journal j)
       | Stopped _ \<Rightarrow> dw_journals (snd (?call w)) = journal_entry j
       | Crashed \<Rightarrow> dw_journals (snd (?call w)) = journal_entry j \<or>
           dw_journals (snd (?call w)) = journal_entry (detached_journal j))"
    using w by simp_all
qed auto

lemma triple_create_journal:
  assumes valid: "journal_validate j = Inr ()"
  shows "triple (\<lambda>w. intact_target orig paths j w \<and> tombstones_free paths w \<and> dw_journals w = [])
    (create_deletion_journal j)
    (\<lambda>r w. consistent orig paths j w \<and>
      (r = Finished () \<longrightarrow> intact_target orig paths j w \<and> dw_journals w = journal_entry j))"
  unfolding create_deletion_journal_def
proof (rule triple_store_call)
  fix w assume w: "intact_target orig paths j w \<and> tombstones_free paths w \<and> dw_journals w = []"
  have call: "store_valid j (insert_journal j) w = (Inr (), set_journals (journal_entry j) w)"
    using w valid by (simp add: store_valid_def insert_journal_def journal_entry_def)
  have "consistent orig paths j w" using w by (simp add: consistent_def journal_known_def)
  then show "consistent orig paths j w \<and>
      (Stopped e = Finished () \<longrightarrow> intact_target orig paths j w \<and> dw_journals w = journal_entry j)"
    and "consistent orig paths j w \<and>
      (Crashed = Finished () \<longrightarrow> intact_target orig paths j w \<and> dw_journals w = journal_entry j)" for e
    by simp_all
  have "consistent orig paths j (set_journals (journal_entry j) w)"
    using w by (simp add: consistent_def journal_known_def)
  then show "consistent orig paths j (snd (store_valid j (insert_journal j) w)) \<and>
      (Crashed = Finished () \<longrightarrow> intact_target orig paths j (snd (store_valid j (insert_journal j) w)) \<and>
        dw_journals (snd (store_valid j (insert_journal j) w)) = journal_entry j)"
    and "consistent orig paths j (snd (store_valid j (insert_journal j) w)) \<and>
      (fst (of_result (store_valid j (insert_journal j) w)) = Finished () \<longrightarrow>
        intact_target orig paths j (snd (store_valid j (insert_journal j) w)) \<and>
        dw_journals (snd (store_valid j (insert_journal j) w)) = journal_entry j)"
    using w call by simp_all
qed auto

lemma kept_free_dropped:
  assumes "paths_ok orig paths" and "kept orig paths st w" and "sources_free paths w"
  shows "dropped paths st w"
proof -
  have "gone p w" if p: "p \<in> set paths" for p
  proof -
    have "look (dp_tombstone p) w = Some e \<Longrightarrow> orig (dp_source p) = Some e" for e
      using assms(2,3) p by (auto simp: kept_def sources_free_def up_def down_def)
    then have "look (dp_tombstone p) w = Some e \<Longrightarrow> remove_check (dp_expected_identity p) e = Inr ()" for e
      using paths_okD(3) [OF assms(1) p]
      by (fastforce simp: open_expected_def remove_check_def split: option.splits if_splits)
    then show ?thesis using assms(3) p by (simp add: gone_def sources_free_def)
  qed
  then show ?thesis using assms(2) by (simp add: dropped_def kept_def)
qed

lemma and_then_finish [simp]: "and_then (finish x) f = f x"
  by (simp add: fun_eq_iff and_then_def finish_def)

lemma triple_execute:
  assumes ok: "paths_ok orig paths" and valid: "journal_validate j = Inr ()"
    and small: "dj_updated_at_ms j \<le> i64_max" and paths: "journal_paths j = Inr paths"
    and target: "deletes_target orig paths j m"
  shows "triple (\<lambda>w. intact_target orig paths j w \<and> tombstones_free paths w \<and> dw_journals w = [])
    (execute_deletion j m)
    (\<lambda>r w. consistent orig paths j w \<and> (r = Finished () \<longrightarrow> deleted_target paths j w \<and> dw_journals w = []))"
    (is "triple ?P _ ?R")
proof -
  let ?d = "detached_journal j"
  note known = journal_known_def
  have backed: "triple (\<lambda>w. intact_target orig paths j w \<and> dw_journals w = journal_entry j') (back_out j' paths e) ?R"
    if "j' = j \<or> j' = ?d" for j' e
    using triple_back_out [OF ok, of j' j e] that valid detached_valid [OF valid small]
    by (auto simp: known elim!: triple_weaken)
  have removed: "triple (\<lambda>w. deleted_target paths j w \<and> dw_journals w = journal_entry ?d \<and> tombstones_free paths w)
      (delete_deletion_journal ?d) ?R"
  proof (rule tripleI)
    fix w assume w: "deleted_target paths j w \<and> dw_journals w = journal_entry ?d \<and> tombstones_free paths w"
    let ?w' = "snd (delete_deletion_journal ?d w)"
    have "consistent orig paths j ?w' \<and> (fst (delete_deletion_journal ?d w) = Finished () \<longrightarrow> dw_journals ?w' = [])"
      using w tripleD [OF triple_delete_journal [OF detached_valid [OF valid small],
          where P = "\<lambda>w. deleted_target paths j w \<and> dw_journals w = journal_entry ?d \<and> tombstones_free paths w"
            and j = j and orig = orig and paths = paths], of w]
      by (simp add: known)
    moreover have "deleted_target paths j ?w'"
      using w tripleD [OF triple_store_call [where P = "deleted_target paths j" and Q = "\<lambda>r. deleted_target paths j"
          and call = "store_valid ?d (remove_journal ?d)"]]
      by (auto simp: delete_deletion_journal_def store_valid_def remove_journal_def split: sum.splits)
    ultimately show "?R (fst (delete_deletion_journal ?d w)) ?w'" by simp
  qed
  have cleaned: "triple (\<lambda>w. deleted_target paths j w \<and> dw_journals w = journal_entry ?d)
      (and_then (cleanup_paths paths) (\<lambda>_. delete_deletion_journal ?d)) ?R"
    by (rule triple_and_then [OF triple_on_deleted [OF triple_cleanup_paths [OF ok]]])
      (auto intro: deleted_consistent simp: known intro!: triple_weaken [OF removed])
  have deleted: "triple (\<lambda>w. intact_target orig paths j w \<and> dw_journals w = journal_entry ?d \<and> sources_free paths w)
      (attempt m (\<lambda>r. case r of Inl error \<Rightarrow> back_out ?d paths error
        | Inr _ \<Rightarrow> and_then (cleanup_paths paths) (\<lambda>_. delete_deletion_journal ?d))) ?R"
    by (rule triple_attempt [OF target [unfolded deletes_target_def, rule_format]])
      (auto simp: known intro: intact_consistent deleted_consistent
        intro!: triple_weaken [OF cleaned] triple_weaken [OF backed [of ?d]])
  have replaced: "triple (\<lambda>w. intact_target orig paths j w \<and> dw_journals w = journal_entry j \<and> sources_free paths w)
      (attempt (replace_deletion_journal j ?d) (\<lambda>r. case r of Inl error \<Rightarrow> back_out j paths error
        | Inr _ \<Rightarrow> attempt m (\<lambda>r. case r of Inl error \<Rightarrow> back_out ?d paths error
          | Inr _ \<Rightarrow> and_then (cleanup_paths paths) (\<lambda>_. delete_deletion_journal ?d)))) ?R"
    by (rule triple_attempt [OF triple_replace_journal [OF valid small]])
      (auto simp: known intro: intact_consistent
        intro!: triple_weaken [OF deleted] triple_weaken [OF backed [of j]])
  have detached: "triple (\<lambda>w. intact_target orig paths j w \<and> dw_journals w = journal_entry j)
      (attempt (detach_paths paths) (\<lambda>r. case r of Inl error \<Rightarrow> back_out j paths error
        | Inr _ \<Rightarrow> attempt (replace_deletion_journal j ?d) (\<lambda>r. case r of Inl error \<Rightarrow> back_out j paths error
          | Inr _ \<Rightarrow> attempt m (\<lambda>r. case r of Inl error \<Rightarrow> back_out ?d paths error
            | Inr _ \<Rightarrow> and_then (cleanup_paths paths) (\<lambda>_. delete_deletion_journal ?d))))) ?R"
    by (rule triple_attempt [OF triple_on_intact [OF triple_detach_paths [OF ok]]])
      (auto simp: known intro: intact_consistent
        intro!: triple_weaken [OF replaced] triple_weaken [OF backed [of j]])
  show ?thesis
    unfolding execute_deletion_def valid lift_result_def paths
    by (auto intro!: triple_and_then [OF triple_create_journal [OF valid]] triple_weaken [OF detached])
qed

subsection \<open>Recovery\<close>

lemma known_journal:
  assumes "journal_validate j = Inr ()" and "dj_updated_at_ms j \<le> i64_max" and "journal_paths j = Inr paths"
    and "j' = j \<or> j' = detached_journal j"
  shows "journal_validate j' = Inr ()" and "journal_paths j' = Inr paths" and "journal_known j (journal_entry j')"
    and "target_there j' w = target_there j w" and "target_gone j' w = target_gone j w"
  using assms detached_valid [of j] detached_paths [of j] by (auto simp: journal_known_def)

lemma triple_target_state:
  assumes "\<And>w fs. P w \<Longrightarrow> P (w\<lparr>dw_faults := fs\<rparr>)" and "\<And>w. P w \<Longrightarrow> target_there j w \<or> target_gone j w"
  shows "triple P (target_state j)
    (\<lambda>r w. P w \<and> (\<forall>b. r = Finished (Inr b) \<longrightarrow> (if b then target_there j w else target_gone j w)))"
proof (cases "dj_kind j")
  case Delete_Chat
  have "triple P (get_chat (dj_target_id j)) (\<lambda>r w. P w \<and> (\<forall>c. r = Finished c \<longrightarrow> bt_get (dw_chats w) (dj_target_id j) = c))"
    unfolding get_chat_def by (rule triple_store_call) (auto simp: assms)
  then show ?thesis
    unfolding target_state_def Delete_Chat deletion_kind.case
    by (rule triple_attempt) (use assms(2) in \<open>auto intro!: triple_finish simp: target_there_def target_gone_def Delete_Chat
        split: option.splits if_splits\<close>)
next
  case Delete_Guru
  have "triple P (get_guru (dj_guru_id j)) (\<lambda>r w. P w \<and> (\<forall>c. r = Finished c \<longrightarrow> bt_get (dw_gurus w) (dj_guru_id j) = c))"
    unfolding get_guru_def by (rule triple_store_call) (auto simp: assms)
  then show ?thesis
    unfolding target_state_def Delete_Guru deletion_kind.case
    by (rule triple_attempt) (use assms(2) in \<open>auto intro!: triple_finish simp: target_there_def target_gone_def Delete_Guru
        split: option.splits if_splits\<close>)
qed

lemma triple_reconcile:
  assumes ok: "paths_ok orig paths" and valid: "journal_validate j = Inr ()"
    and small: "dj_updated_at_ms j \<le> i64_max" and paths: "journal_paths j = Inr paths"
    and j': "j' = j \<or> j' = detached_journal j"
  shows "triple (\<lambda>w. consistent orig paths j w \<and> dw_journals w = journal_entry j' \<and>
      (if b then target_there j w else target_gone j w)) (reconcile j' paths b q) (\<lambda>r. consistent orig paths j)"
proof -
  note k = known_journal [OF valid small paths j']
  have finish: "triple (consistent orig paths j) (finish x) (\<lambda>r. consistent orig paths j)" for x :: quarantined
    by (rule triple_finish)
  have dropped: "triple (\<lambda>w. (intact_target orig paths j w \<or> deleted_target paths j w) \<and>
      dw_journals w = journal_entry j' \<and> tombstones_free paths w)
      (attempt (delete_deletion_journal j') (\<lambda>r. case r of
        Inl error \<Rightarrow> finish (f error) | Inr _ \<Rightarrow> finish q)) (\<lambda>r. consistent orig paths j)" for f
    by (rule triple_attempt [OF triple_delete_journal [OF k(1,3)]]) (auto intro!: triple_finish)
  have retried: "triple (\<lambda>w. (intact_target orig paths j w \<or> deleted_target paths j w) \<and>
      dw_journals w = journal_entry j' \<and> tombstones_free paths w)
      (attempt (delete_deletion_journal j') (\<lambda>r. finish q)) (\<lambda>r. consistent orig paths j)"
    by (rule triple_attempt [OF triple_delete_journal [OF k(1,3)]]) (auto intro!: triple_finish)
  show ?thesis
  proof (cases b)
    case True
    have "triple (\<lambda>w. intact_target orig paths j w \<and> dw_journals w = journal_entry j') (reconcile j' paths True q)
        (\<lambda>r. consistent orig paths j)"
      unfolding reconcile_def if_True
      by (rule triple_attempt [OF triple_on_intact [OF triple_rollback_paths [OF ok]]])
        (use True in \<open>auto intro: intact_consistent [OF _ _ k(3)] intro!: triple_finish triple_weaken [OF dropped]\<close>)
    then have "triple (\<lambda>w. consistent orig paths j w \<and> dw_journals w = journal_entry j' \<and> target_there j w)
        (reconcile j' paths True q) (\<lambda>r. consistent orig paths j)"
      by (rule triple_weaken) (use True in \<open>auto simp: consistent_def deleted_target_def dest: target_exclusive\<close>)
    then show ?thesis using True by simp
  next
    case False
    have "triple (\<lambda>w. deleted_target paths j w \<and> dw_journals w = journal_entry j') (reconcile j' paths False q)
        (\<lambda>r. consistent orig paths j)"
      unfolding reconcile_def if_False
      by (rule triple_attempt [OF triple_on_deleted [OF triple_cleanup_paths [OF ok]]])
        (use False in \<open>auto intro: deleted_consistent [OF _ _ k(3)] intro!: triple_finish triple_weaken [OF retried]\<close>)
    then have "triple (\<lambda>w. consistent orig paths j w \<and> dw_journals w = journal_entry j' \<and> target_gone j w)
        (reconcile j' paths False q) (\<lambda>r. consistent orig paths j)"
      by (rule triple_weaken) (use False in \<open>auto simp: consistent_def intact_target_def dest: target_exclusive\<close>)
    then show ?thesis using False by simp
  qed
qed

lemma consistent_target: "consistent orig paths j w \<Longrightarrow> target_there j w \<or> target_gone j w"
  by (auto simp: consistent_def intact_target_def deleted_target_def)

lemma recover_listing:
  assumes "journal_validate j = Inr ()" and "dj_updated_at_ms j \<le> i64_max" and "journal_known j js"
  shows "map journal_record (sort_key (\<lambda>(key, row). (jr_updated_at_ms row, key)) js) =
    (if js = [] then [] else if js = journal_entry j then [Valid_Journal j]
     else [Valid_Journal (detached_journal j)])"
  using assms detached_valid [of j]
  by (auto simp: journal_known_def journal_entry_def journal_record_def row_of_def)

lemma triple_recover:
  assumes ok: "paths_ok orig paths" and valid: "journal_validate j = Inr ()"
    and small: "dj_updated_at_ms j \<le> i64_max" and paths: "journal_paths j = Inr paths"
  shows "triple (consistent orig paths j) recover (\<lambda>r. consistent orig paths j)"
proof -
  let ?list = "\<lambda>w. map journal_record (sort_key (\<lambda>(key, row). (jr_updated_at_ms row, key)) (dw_journals w))"
  have listed: "triple (consistent orig paths j) list_deletion_journals
      (\<lambda>r w. consistent orig paths j w \<and> (\<forall>rs. r = Finished rs \<longrightarrow> rs = ?list w))"
    unfolding list_deletion_journals_def by (rule triple_store_call) auto
  have one: "triple (\<lambda>w. consistent orig paths j w \<and> dw_journals w = journal_entry j')
      (recover_record (Valid_Journal j') q) (\<lambda>r. consistent orig paths j)" if j': "j' = j \<or> j' = detached_journal j" for j' q
  proof -
    note k = known_journal [OF valid small paths j']
    let ?P = "\<lambda>w. consistent orig paths j w \<and> dw_journals w = journal_entry j'"
    have "triple ?P (target_state j')
        (\<lambda>r w. ?P w \<and> (\<forall>b. r = Finished (Inr b) \<longrightarrow> (if b then target_there j' w else target_gone j' w)))"
      by (rule triple_target_state) (use consistent_target in \<open>auto simp: k(4,5)\<close>)
    then have "triple ?P (and_then (target_state j') (\<lambda>state. case state of
          Inl reason \<Rightarrow> finish (bt_insert (dj_guru_id j') reason q)
        | Inr target_exists \<Rightarrow> reconcile j' paths target_exists q)) (\<lambda>r. consistent orig paths j)"
    proof (rule triple_and_then)
      show "triple (\<lambda>w. ?P w \<and> (\<forall>b. Finished state = Finished (Inr b) \<longrightarrow>
            (if b then target_there j' w else target_gone j' w)))
          (case state of Inl reason \<Rightarrow> finish (bt_insert (dj_guru_id j') reason q)
           | Inr target_exists \<Rightarrow> reconcile j' paths target_exists q) (\<lambda>r. consistent orig paths j)" for state
      proof (cases state)
        case (Inl reason)
        then show ?thesis by (auto intro: triple_finish)
      next
        case (Inr b)
        then show ?thesis
          using triple_weaken [OF triple_reconcile [OF ok valid small paths j', of b q]] k(4,5)
          by simp
      qed
    qed auto
    then show ?thesis by (simp add: recover_record_def k(2))
  qed
  have records: "triple (\<lambda>w. consistent orig paths j w \<and> rs = ?list w) (recover_records rs q)
      (\<lambda>r. consistent orig paths j)" for rs q
  proof (rule tripleI)
    fix w assume w: "consistent orig paths j w \<and> rs = ?list w"
    then have known: "journal_known j (dw_journals w)" by (simp add: consistent_def)
    show "consistent orig paths j (snd (recover_records rs q w))"
    proof (cases "dw_journals w = []")
      case True
      then show ?thesis using w by (simp add: finish_def)
    next
      case False
      define j' where "j' = (if dw_journals w = journal_entry j then j else detached_journal j)"
      have j': "j' = j \<or> j' = detached_journal j" "dw_journals w = journal_entry j'"
        using known False by (auto simp: j'_def journal_known_def)
      have rs: "rs = [Valid_Journal j']"
        using w recover_listing [OF valid small known] False by (simp add: j'_def)
      have "triple (\<lambda>w. consistent orig paths j w \<and> dw_journals w = journal_entry j') (recover_records rs q)
          (\<lambda>r. consistent orig paths j)"
        unfolding rs recover_records.simps
        by (rule triple_and_then [OF one [OF j'(1)]]) (auto intro: triple_finish)
      then show ?thesis using tripleD [of _ _ "\<lambda>r. consistent orig paths j" w] w j' by blast
    qed
  qed
  show ?thesis
    unfolding recover_def
    by (rule triple_and_then [OF listed]) (auto intro: triple_weaken [OF records])
qed

end
