(* ===== verification/Deletion_Outcome.thy ===== *)
theory Deletion_Outcome
  imports Deletion_Recovery
begin

text \<open>
  The outcome of deleting a Chat and a Guru: whatever failed or crashed on the way, in the
  deletion and in any number of starts after it, one start without faults leaves no journal and no
  tombstone, and either the target with all its files as they were or neither of them.
\<close>

subsection \<open>A recovery without faults\<close>

lemma clean_operation: "dw_faults w = [] \<Longrightarrow> operation broken crashed call w = of_result (call w)"
  by (simp add: operation_def)

lemma clean_store_call: "dw_faults w = [] \<Longrightarrow> store_call call w = of_result (call w)"
  by (simp add: store_call_def clean_operation)

lemma kept_faults_of [simp]:
  "dw_faults (place path e w) = dw_faults w" "dw_faults (set_journals js w) = dw_faults w"
  "dw_faults (moved_up p w) = dw_faults w"
  by (simp_all add: place_def set_journals_def moved_up_def)

lemma and_then_step: "m w = (Finished x, w') \<Longrightarrow> and_then m f w = f x w'"
  by (simp add: and_then_def)

lemma attempt_step: "m w = (Finished x, w') \<Longrightarrow> attempt m f w = f (Inr x) w'"
  by (simp add: attempt_def)

lemma clean_exists: "dw_faults w = [] \<Longrightarrow> entry_exists path w = (Finished (look path w \<noteq> None), w)"
  by (simp add: entry_exists_def clean_operation)

lemma clean_check_live:
  assumes "dw_faults w = []" and "look (dp_source p) w = Some e"
    and "open_expected (dp_expected_identity p) e = Inr ()"
  shows "check_live p w = (Finished (), w)"
  using assms
  by (auto simp: check_live_def open_expected_def finish_def directory_identity_def and_then_def clean_operation
      split: option.splits if_splits)

lemma clean_rollback_path:
  assumes ok: "paths_ok orig paths" and p: "p \<in> set paths" and kept: "kept orig paths st w"
    and clean: "dw_faults w = []"
  shows "\<exists>w'. rollback_path p w = (Finished (), w') \<and> dw_faults w' = []"
proof (cases "look (dp_tombstone p) w")
  case None
  have "look (dp_source p) w = orig (dp_source p)"
    using kept p None by (auto simp: kept_def up_def down_def)
  moreover from this have "(if look (dp_source p) w \<noteq> None then check_live p else finish ()) w = (Finished (), w)"
    using paths_okD(3) [OF ok p] clean_check_live [OF clean] by (auto simp: finish_def)
  ultimately show ?thesis
    using None clean paths_okD(2) [OF ok p]
    by (auto simp: rollback_path_def clean_exists and_then_def finish_def)
next
  case (Some e)
  then have down: "look (dp_source p) w = None"
    using kept p by (auto simp: kept_def up_def down_def)
  have "rename_sibling_expected (dp_tombstone p) (dp_source p) (dp_expected_identity p) w =
      (Finished True, moved_up p w)"
    using rename_up [OF ok p kept] Some clean by (simp add: rename_sibling_expected_def clean_operation)
  then show ?thesis
    using Some down clean
    by (simp add: rollback_path_def clean_exists and_then_def finish_def)
qed

lemma clean_for_each:
  assumes "\<And>p w. p \<in> set ps \<Longrightarrow> I w \<Longrightarrow> \<exists>w'. f p w = (Finished (), w') \<and> I w'" and "I w"
  shows "\<exists>w'. for_each f ps w = (Finished (), w') \<and> I w'"
  using assms
proof (induction ps arbitrary: w)
  case (Cons p ps)
  then obtain w1 where "f p w = (Finished (), w1)" and "I w1" by (meson list.set_intros(1))
  then show ?case
    using Cons.IH [of w1] Cons.prems(1) by (simp add: and_then_step)
qed (simp add: finish_def)

lemma clean_rollback:
  assumes ok: "paths_ok orig paths" and "kept orig paths st w" and "dw_faults w = []"
  shows "\<exists>w'. rollback_paths paths w = (Finished (), w') \<and> kept orig paths st w' \<and> dw_faults w' = []"
  unfolding rollback_paths_def
proof (rule clean_for_each)
  fix p w assume p: "p \<in> set (rev paths)" and w: "kept orig paths st w \<and> dw_faults w = []"
  obtain w' where "rollback_path p w = (Finished (), w')" "dw_faults w' = []"
    using clean_rollback_path [OF ok, of p st w] p w by auto
  moreover from this have "kept orig paths st w'"
    using tripleD [OF triple_rollback_path [OF ok, of p "[]" st], of w] p w by (auto simp: tombstones_free_def)
  ultimately show "\<exists>w'. rollback_path p w = (Finished (), w') \<and> kept orig paths st w' \<and> dw_faults w' = []"
    by blast
qed (use assms in auto)

lemma clean_cleanup:
  assumes ok: "paths_ok orig paths" and "dropped paths st w" and "dw_faults w = []"
  shows "\<exists>w'. cleanup_paths paths w = (Finished (), w') \<and> dropped paths st w' \<and> dw_faults w' = []"
  unfolding cleanup_paths_def
proof (rule clean_for_each)
  fix p w assume p: "p \<in> set paths" and w: "dropped paths st w \<and> dw_faults w = []"
  have "look (dp_tombstone p) w = Some e \<Longrightarrow> remove_check (dp_expected_identity p) e = Inr ()" for e
    using w p by (auto simp: dropped_def gone_def)
  then obtain w' where "remove_tree_expected (dp_tombstone p) (dp_expected_identity p) w = (Finished (), w')"
      and "dw_faults w' = []"
    using w by (cases "look (dp_tombstone p) w")
      (auto simp: remove_tree_expected_def clean_operation remove_call_def)
  moreover from this have "dropped paths st w'"
    using tripleD [OF triple_cleanup_path [OF ok, of p "[]" st], of w] p w by (auto simp: tombstones_free_def)
  ultimately show "\<exists>w'. remove_tree_expected (dp_tombstone p) (dp_expected_identity p) w = (Finished (), w') \<and>
      dropped paths st w' \<and> dw_faults w' = []"
    by blast
qed (use assms in auto)

lemma clean_target_state:
  assumes "dw_faults w = []" and "target_there j w \<or> target_gone j w"
  shows "target_state j w = (Finished (Inr (target_there j w)), w)"
  using assms
  by (auto simp: target_state_def get_chat_def get_guru_def attempt_def clean_store_call finish_def
      target_there_def target_gone_def split: deletion_kind.splits option.splits)

lemma clean_delete_journal:
  assumes "dw_faults w = []" and "journal_validate j = Inr ()" and "dw_journals w = journal_entry j"
  shows "delete_deletion_journal j w = (Finished (), set_journals [] w)"
  using assms
  by (simp add: delete_deletion_journal_def clean_store_call store_valid_def remove_journal_def
      journal_entry_def row_of_def)

lemma clean_recover:
  assumes ok: "paths_ok orig paths" and valid: "journal_validate j = Inr ()"
    and small: "dj_updated_at_ms j \<le> i64_max" and paths: "journal_paths j = Inr paths"
    and w: "consistent orig paths j w" and clean: "dw_faults w = []"
  shows "\<exists>w'. recover w = (Finished [], w') \<and> dw_journals w' = []"
proof -
  have known: "journal_known j (dw_journals w)" using w by (simp add: consistent_def)
  have listed: "list_deletion_journals w = (Finished (map journal_record
      (sort_key (\<lambda>(key, row). (jr_updated_at_ms row, key)) (dw_journals w))), w)"
    using clean by (simp add: list_deletion_journals_def clean_store_call)
  show ?thesis
  proof (cases "dw_journals w = []")
    case True
    then show ?thesis using listed by (simp add: recover_def and_then_step finish_def)
  next
    case False
    define j' where "j' = (if dw_journals w = journal_entry j then j else detached_journal j)"
    have j': "j' = j \<or> j' = detached_journal j" "dw_journals w = journal_entry j'"
      using known False by (auto simp: j'_def journal_known_def)
    note k = known_journal [OF valid small paths j'(1)]
    have records: "list_deletion_journals w = (Finished [Valid_Journal j'], w)"
      using listed recover_listing [OF valid small known] False by (simp add: j'_def)
    have state: "target_state j' w = (Finished (Inr (target_there j w)), w)"
      using clean_target_state [OF clean, of j'] consistent_target [OF w] k(4,5) by simp
    have "\<exists>w1. (if target_there j w then rollback_paths paths else cleanup_paths paths) w = (Finished (), w1) \<and>
        dw_journals w1 = journal_entry j' \<and> dw_faults w1 = []"
    proof (cases "target_there j w")
      case True
      then have "kept orig paths (store_of w) w"
        using w target_exclusive [OF True] by (auto simp: consistent_def intact_target_def deleted_target_def)
      then show ?thesis
        using clean_rollback [OF ok _ clean] True j'(2) by (fastforce simp: kept_def store_of_def)
    next
      case there: False
      then have "dropped paths (store_of w) w"
        using w by (auto simp: consistent_def intact_target_def deleted_target_def)
      then show ?thesis
        using clean_cleanup [OF ok _ clean] there j'(2) by (fastforce simp: dropped_def store_of_def)
    qed
    then obtain w1 where w1: "(if target_there j w then rollback_paths paths else cleanup_paths paths) w =
        (Finished (), w1)" "dw_journals w1 = journal_entry j'" "dw_faults w1 = []" by blast
    have "reconcile j' paths (target_there j w) [] w = (Finished [], set_journals [] w1)"
      using w1 clean_delete_journal [OF w1(3) k(1) w1(2)] by (simp add: reconcile_def attempt_step finish_def)
    then show ?thesis
      using records state k(2)
      by (simp add: recover_def and_then_step recover_record_def finish_def)
  qed
qed

subsection \<open>The row of the target\<close>

lemma intact_gone:
  assumes "paths_ok orig paths" and "intact_target orig paths j w" and "sources_free paths w"
    and "dw_storage w' = dw_storage w" and "target_gone j w'"
  shows "deleted_target paths j w'"
proof -
  have "dropped paths (store_of w) w"
    using assms by (intro kept_free_dropped) (auto simp: intact_target_def)
  then show ?thesis
    using assms(4,5) by (simp add: deleted_target_def dropped_def gone_def look_def)
qed

lemma deletes_targetI:
  assumes ok: "paths_ok orig paths"
    and call: "\<And>w. target_there j w \<Longrightarrow> bt_inv (dw_chats w) \<Longrightarrow> bt_inv (dw_gurus w) \<Longrightarrow>
      (\<exists>e. call w = (Inl e, w)) \<or>
      (\<exists>w'. call w = (Inr (), w') \<and> dw_storage w' = dw_storage w \<and> dw_journals w' = dw_journals w \<and> target_gone j w')"
  shows "deletes_target orig paths j (store_call call)"
  unfolding deletes_target_def
proof (intro allI triple_store_call)
  fix js w assume w: "intact_target orig paths j w \<and> dw_journals w = js \<and> sources_free paths w"
  have "(\<exists>e. call w = (Inl e, w)) \<or>
      (\<exists>w'. call w = (Inr (), w') \<and> dw_journals w' = js \<and> deleted_target paths j w')"
    using w call [of w] intact_gone [OF ok, of j w] by (fastforce simp: intact_target_def)
  then show "dw_journals (snd (call w)) = js \<and> (case fst (of_result (call w)) of
      Finished _ \<Rightarrow> deleted_target paths j (snd (call w)) | Stopped _ \<Rightarrow> intact_target orig paths j (snd (call w))
    | Crashed \<Rightarrow> intact_target orig paths j (snd (call w)) \<or> deleted_target paths j (snd (call w)))"
    and "dw_journals (snd (call w)) = js \<and> (case Crashed of
      Finished _ \<Rightarrow> deleted_target paths j (snd (call w)) | Stopped _ \<Rightarrow> intact_target orig paths j (snd (call w))
    | Crashed \<Rightarrow> intact_target orig paths j (snd (call w)) \<or> deleted_target paths j (snd (call w)))"
    using w by auto
qed auto

lemma deletes_chat:
  "paths_ok orig paths \<Longrightarrow> deletes_target orig paths (chat_journal chat now) (store_delete_chat chat)"
  unfolding store_delete_chat_def
  by (rule deletes_targetI) (auto simp: target_gone_def chat_journal_def)

lemma deletes_guru:
  "paths_ok orig paths \<Longrightarrow> deletes_target orig paths (guru_journal guru i now) (store_delete_guru guru)"
  unfolding store_delete_guru_def
  by (rule deletes_targetI) (auto simp: target_gone_def guru_journal_def)

subsection \<open>The paths\<close>

definition paths_of :: "deletion_journal \<Rightarrow> deletion_path list" where
  "paths_of j = (case journal_paths j of Inl _ \<Rightarrow> [] | Inr paths \<Rightarrow> paths)"

lemma deleting_name_neq [simp]: "deleting_name x \<noteq> x" "x \<noteq> deleting_name x"
proof -
  have "length (deleting_name x) \<noteq> length x" by (simp add: deleting_name_def)
  then show "deleting_name x \<noteq> x" by metis
  then show "x \<noteq> deleting_name x" by metis
qed

lemma chat_paths:
  assumes "journal_validate (chat_journal chat now) = Inr ()"
  shows "journal_paths (chat_journal chat now) = Inr (paths_of (chat_journal chat now))"
    and "paths_ok orig (paths_of (chat_journal chat now))"
  using assms
  by (auto simp: paths_of_def journal_paths_def chat_journal_def paths_ok_def path_in_def open_expected_def Let_def)

lemma guru_paths:
  assumes "journal_validate (guru_journal guru i now) = Inr ()"
  shows "journal_paths (guru_journal guru i now) = Inr (paths_of (guru_journal guru i now))"
    and "orig [lit ''gurus'', gr_id guru] = Some e \<Longrightarrow> se_directory e \<Longrightarrow> se_identity e = i \<Longrightarrow>
      paths_ok orig (paths_of (guru_journal guru i now))"
  using assms
  by (auto simp: paths_of_def journal_paths_def guru_journal_def paths_ok_def path_in_def open_expected_def)

subsection \<open>The outcome\<close>

text \<open>The starts after a crash, each with its script.\<close>

fun restarts :: "fault list list \<Rightarrow> deletion_world \<Rightarrow> deletion_world" where
  "restarts [] w = w"
| "restarts (script # scripts) w = restarts scripts (snd (recover (w\<lparr>dw_faults := script\<rparr>)))"

text \<open>
  No journal and no tombstone is left; the target is there with its files as in \<open>w0\<close>, or both are
  gone.
\<close>

definition settled :: "deletion_world \<Rightarrow> deletion_journal \<Rightarrow> deletion_world \<Rightarrow> bool" where
  "settled w0 j w \<longleftrightarrow>
     dw_journals w = [] \<and> tombstones_free (paths_of j) w \<and>
     (if target_gone j w then sources_free (paths_of j) w
      else target_there j w \<and> list_all (\<lambda>p. look (dp_source p) w = look (dp_source p) w0) (paths_of j))"

lemma consistent_settled:
  assumes "consistent (\<lambda>path. look path w0) (paths_of j) j w" and "dw_journals w = []"
  shows "settled w0 j w"
proof (cases "target_there j w")
  case True
  then have "kept (\<lambda>path. look path w0) (paths_of j) (store_of w) w" and "tombstones_free (paths_of j) w"
    using assms target_exclusive [OF True] by (auto simp: consistent_def intact_target_def deleted_target_def)
  then show ?thesis
    using assms(2) True target_exclusive [OF True]
    by (fastforce simp: settled_def kept_def list_all_iff up_def down_def tombstones_free_def)
next
  case False
  then have "deleted_target (paths_of j) j w" and "tombstones_free (paths_of j) w"
    using assms by (auto simp: consistent_def intact_target_def)
  then show ?thesis
    using assms(2) by (simp add: settled_def deleted_target_def dropped_def gone_def sources_free_def)
qed

lemma consistent_restarts:
  assumes "paths_ok orig (paths_of j)" and "journal_validate j = Inr ()" and "dj_updated_at_ms j \<le> i64_max"
    and "journal_paths j = Inr (paths_of j)" and "consistent orig (paths_of j) j w"
  shows "consistent orig (paths_of j) j (restarts scripts w)"
  using assms(5)
proof (induction scripts arbitrary: w)
  case (Cons script scripts)
  then show ?case
    using tripleD [OF triple_recover [OF assms(1-4)], of "w\<lparr>dw_faults := script\<rparr>"] by simp
qed simp

lemma recovered:
  assumes "paths_ok (\<lambda>path. look path w0) (paths_of j)" and "journal_validate j = Inr ()"
    and "dj_updated_at_ms j \<le> i64_max" and "journal_paths j = Inr (paths_of j)"
    and "consistent (\<lambda>path. look path w0) (paths_of j) j w"
  shows "\<exists>w'. recover ((restarts scripts w)\<lparr>dw_faults := []\<rparr>) = (Finished [], w') \<and> settled w0 j w'"
proof -
  let ?w = "(restarts scripts w)\<lparr>dw_faults := []\<rparr>"
  have "consistent (\<lambda>path. look path w0) (paths_of j) j ?w"
    using consistent_restarts [OF assms] by simp
  moreover from this have "consistent (\<lambda>path. look path w0) (paths_of j) j (snd (recover ?w))"
    using tripleD [OF triple_recover [OF assms(1-4)]] by blast
  moreover obtain w' where "recover ?w = (Finished [], w')" and "dw_journals w' = []"
    using clean_recover [OF assms(1-4) calculation(1)] by auto
  ultimately show ?thesis by (auto intro: consistent_settled)
qed

lemma consistent_start:
  assumes "bt_inv (dw_storage w)" and "bt_inv (dw_chats w)" and "bt_inv (dw_gurus w)" and "dw_journals w = []"
    and "target_there j w" and "tombstones_free (paths_of j) w"
  shows "intact_target (\<lambda>path. look path w) (paths_of j) j w"
  using assms by (auto simp: intact_target_def kept_def up_def tombstones_free_def)

subsection \<open>Examples\<close>

text \<open>A Guru with a sealed folder, and a Chat of it with a session directory.\<close>

definition sample_folder :: storage_entry where
  "sample_folder = \<lparr>se_identity = \<lparr>ri_device = 1, ri_inode = 7\<rparr>, se_directory = True, se_files = [lit ''a'']\<rparr>"

definition sample_guru :: guru_row where
  "sample_guru = \<lparr>gr_id = lit ''g'', gr_root_filesystem_identity = Some \<lparr>ri_device = 1, ri_inode = 8\<rparr>, gr_data = []\<rparr>"

definition sample_chat :: chat_row where
  "sample_chat = \<lparr>ch_id = lit ''c'', ch_guru_id = lit ''g'', ch_data = []\<rparr>"

definition sample_storage :: "(ustr list, storage_entry) btree" where
  "sample_storage =
     [([lit ''gurus'', lit ''g''], sample_folder),
      ([lit ''gurus'', lit ''g'', lit ''pi-sessions'', lit ''c''], sample_folder\<lparr>se_identity := \<lparr>ri_device = 1, ri_inode = 9\<rparr>\<rparr>),
      ([lit ''gurus'', lit ''g'', lit ''workspace''], sample_folder\<lparr>se_identity := \<lparr>ri_device = 1, ri_inode = 8\<rparr>\<rparr>)]"

definition sample_deletion :: "fault list \<Rightarrow> deletion_world" where
  "sample_deletion script =
     \<lparr>dw_storage = sample_storage, dw_journals = [], dw_chats = [(lit ''c'', sample_chat)],
      dw_gurus = [(lit ''g'', sample_guru)], dw_faults = script\<rparr>"

lemma sample_inv:
  "bt_inv (dw_storage (sample_deletion script))" "bt_inv (dw_chats (sample_deletion script))"
  "bt_inv (dw_gurus (sample_deletion script))" "dw_journals (sample_deletion script) = []"
proof -
  have "bt_inv sample_storage" unfolding bt_inv_def by code_simp
  then show "bt_inv (dw_storage (sample_deletion script))" by (simp add: sample_deletion_def)
qed (simp_all add: sample_deletion_def bt_inv_def)

text \<open>The process dies after the first rename of the Chat, and after the row of the Guru is deleted.\<close>

definition chat_crash :: "fault list" where
  "chat_crash = [No_Fault, No_Fault, Dies 1]"

definition guru_crash :: "fault list" where
  "guru_crash = replicate 8 No_Fault @ [Dies 1]"





lemma guru_crash_deletes:
  "fst (delete_guru sample_guru 5 (sample_deletion guru_crash)) = Crashed \<and>
   dw_gurus (snd (delete_guru sample_guru 5 (sample_deletion guru_crash))) = [] \<and>
   dw_journals (snd (delete_guru sample_guru 5 (sample_deletion guru_crash))) \<noteq> []"
  by code_simp

end
