(* ===== verification/Host_Text.thy ===== *)
theory Host_Text
  imports Host_Base
begin

text \<open>
  The operations on strings and results that the components of the host share: results that
  chain (\<^theory_text>\<open>and_then\<close> and the question mark), the error of the domain types
  (\<^theory_text>\<open>domain/mod.rs\<close>), substrings, and cutting a string at a character boundary.
\<close>

subsection \<open>Results\<close>

type_synonym 'a domain_result = "ustr + 'a"

fun and_then :: "'e + 'a \<Rightarrow> ('a \<Rightarrow> 'e + 'b) \<Rightarrow> 'e + 'b" where
  "and_then (Inl e) f = Inl e"
| "and_then (Inr a) f = f a"

text \<open>An early return: the error when the condition holds.\<close>

definition fail_if :: "bool \<Rightarrow> 'e \<Rightarrow> 'e + unit" where
  "fail_if c e = (if c then Inl e else Inr ())"

definition ok_or :: "'e \<Rightarrow> 'a option \<Rightarrow> 'e + 'a" where
  "ok_or e m = (case m of None \<Rightarrow> Inl e | Some a \<Rightarrow> Inr a)"

fun for_each :: "('a \<Rightarrow> 'e + unit) \<Rightarrow> 'a list \<Rightarrow> 'e + unit" where
  "for_each f [] = Inr ()"
| "for_each f (x # xs) = and_then (f x) (\<lambda>_. for_each f xs)"

lemma and_then_Inr [simp]: "and_then r f = Inr b \<longleftrightarrow> (\<exists>a. r = Inr a \<and> f a = Inr b)"
  by (cases r) auto

lemma fail_if_Inr [simp]: "fail_if c e = Inr u \<longleftrightarrow> \<not> c"
  by (simp add: fail_if_def)

lemma ok_or_Inr [simp]: "ok_or e m = Inr a \<longleftrightarrow> m = Some a"
  by (cases m) (auto simp: ok_or_def)

lemma for_each_Inr [simp]: "for_each f xs = Inr u \<longleftrightarrow> (\<forall>x\<in>set xs. f x = Inr ())"
  by (induction xs) auto

lemma is_ok_unit: "is_ok (r :: 'e + unit) \<longleftrightarrow> r = Inr ()"
  by (auto simp: is_ok_iff)

subsection \<open>Substrings\<close>

text \<open>\<^theory_text>\<open>str::contains\<close> of a string.\<close>

fun has_substring :: "ustr \<Rightarrow> ustr \<Rightarrow> bool" where
  "has_substring [] p = (p = [])"
| "has_substring (c # s) p = (starts_with (c # s) p \<or> has_substring s p)"

lemma has_substring_iff: "has_substring s p \<longleftrightarrow> (\<exists>a b. s = a @ p @ b)"
proof (induction s)
  case (Cons c s)
  show ?case
  proof
    assume "has_substring (c # s) p"
    then consider r where "c # s = p @ r" | a b where "s = a @ p @ b"
      using Cons by (auto simp: starts_with_iff)
    then show "\<exists>a b. c # s = a @ p @ b"
    proof cases
      case 1
      then have "c # s = [] @ p @ r" by simp
      then show ?thesis by blast
    next
      case 2
      then have "c # s = (c # a) @ p @ b" by simp
      then show ?thesis by blast
    qed
  next
    assume "\<exists>a b. c # s = a @ p @ b"
    then obtain a b where parts: "c # s = a @ p @ b" by blast
    show "has_substring (c # s) p"
    proof (cases a)
      case Nil
      then have "starts_with (c # s) p" using parts by simp
      then show ?thesis by simp
    next
      case (Cons d a')
      then have "s = a' @ p @ b" using parts by simp
      then show ?thesis using \<open>has_substring s p \<longleftrightarrow> (\<exists>a b. s = a @ p @ b)\<close> by auto
    qed
  qed
qed auto

subsection \<open>Cutting at a character boundary\<close>

text \<open>\<^theory_text>\<open>is_char_boundary\<close>, and the slice up to a boundary (it panics elsewhere: None).\<close>

fun is_char_boundary :: "ustr \<Rightarrow> nat \<Rightarrow> bool" where
  "is_char_boundary [] k = (k = 0)"
| "is_char_boundary (c # s) k = (k = 0 \<or> utf8_width c \<le> k \<and> is_char_boundary s (k - utf8_width c))"

fun slice_to :: "ustr \<Rightarrow> nat \<Rightarrow> ustr option" where
  "slice_to [] k = (if k = 0 then Some [] else None)"
| "slice_to (c # s) k =
     (if k = 0 then Some []
      else if utf8_width c \<le> k then map_option (Cons c) (slice_to s (k - utf8_width c)) else None)"

fun boundary_before :: "ustr \<Rightarrow> nat \<Rightarrow> nat" where
  "boundary_before s k = (if 0 < k \<and> \<not> is_char_boundary s k then boundary_before s (k - 1) else k)"

declare boundary_before.simps [simp del]

definition truncate_utf8 :: "ustr \<Rightarrow> nat \<Rightarrow> ustr option" where
  "truncate_utf8 s max_bytes =
     (if byte_len s \<le> max_bytes then Some s else slice_to s (boundary_before s max_bytes))"

lemma slice_to_boundary: "is_char_boundary s k \<longleftrightarrow> (\<exists>t. slice_to s k = Some t)"
  by (induction s k rule: slice_to.induct) auto

lemma slice_to_Some: "slice_to s k = Some t \<longleftrightarrow> (\<exists>r. s = t @ r) \<and> byte_len t = k"
proof (induction s k arbitrary: t rule: slice_to.induct)
  case (2 c s k)
  show ?case
  proof (cases t)
    case Nil
    then show ?thesis by auto
  next
    case (Cons d t')
    then show ?thesis using 2 [of t'] by (cases "k = 0") (auto simp: le_add_diff_inverse)
  qed
qed auto

lemma boundary_zero [simp]: "is_char_boundary s 0"
  by (cases s) simp_all

lemma boundary_before_boundary [simp]: "is_char_boundary s (boundary_before s k)"
proof (induction s k rule: boundary_before.induct)
  case (1 s k)
  then show ?case by (cases "k = 0") (subst boundary_before.simps, simp)+
qed

lemma boundary_before_le: "boundary_before s k \<le> k"
proof (induction s k rule: boundary_before.induct)
  case (1 s k)
  then show ?case by (subst boundary_before.simps) auto
qed

lemma boundary_before_greatest: "is_char_boundary s j \<Longrightarrow> j \<le> k \<Longrightarrow> j \<le> boundary_before s k"
proof (induction s k rule: boundary_before.induct)
  case (1 s k)
  show ?case
  proof (cases "0 < k \<and> \<not> is_char_boundary s k")
    case True
    then have "j \<noteq> k" using 1(2) by auto
    then show ?thesis using 1 True by (subst boundary_before.simps) simp
  qed (use 1 in \<open>subst boundary_before.simps, auto\<close>)
qed

text \<open>
  The cut never panics and keeps the longest prefix of whole characters within the limit.
\<close>

lemma truncate_utf8_longest:
  obtains t r where "truncate_utf8 s n = Some t" "s = t @ r" "byte_len t \<le> n"
    "\<And>t' r'. s = t' @ r' \<Longrightarrow> byte_len t' \<le> n \<Longrightarrow> byte_len t' \<le> byte_len t"
proof (cases "byte_len s \<le> n")
  case True
  then show ?thesis by (intro that [of s "[]"]) (auto simp: truncate_utf8_def)
next
  case False
  obtain t where t: "slice_to s (boundary_before s n) = Some t"
    using boundary_before_boundary slice_to_boundary by blast
  then obtain r where r: "s = t @ r" "byte_len t = boundary_before s n"
    using slice_to_Some by blast
  show ?thesis
  proof (rule that [of t r])
    show "truncate_utf8 s n = Some t" using False t by (simp add: truncate_utf8_def)
    show "byte_len t \<le> n" by (simp only: r(2) boundary_before_le)
    fix t' r' assume "s = t' @ r'" "byte_len t' \<le> n"
    then have "slice_to s (byte_len t') = Some t'" using slice_to_Some by blast
    then have "is_char_boundary s (byte_len t')" using slice_to_boundary by blast
    then show "byte_len t' \<le> byte_len t"
      unfolding r(2) using \<open>byte_len t' \<le> n\<close> by (rule boundary_before_greatest)
  qed (rule r(1))
qed

lemma truncate_utf8_SomeE:
  obtains t r where "truncate_utf8 s n = Some t" "s = t @ r" "byte_len t \<le> n"
  by (rule truncate_utf8_longest [of s n])

text \<open>Where there is room for the first character, the cut is not empty.\<close>

lemma truncate_utf8_keeps_first:
  assumes "truncate_utf8 (c # s) n = Some t" "utf8_width c \<le> n"
  shows "t \<noteq> []"
proof (cases "byte_len (c # s) \<le> n")
  case True
  then have "t = c # s" using assms(1) by (simp add: truncate_utf8_def)
  then show ?thesis by simp
next
  case False
  then have "byte_len t = boundary_before (c # s) n"
    using assms(1) slice_to_Some [of "c # s" _ t] by (simp add: truncate_utf8_def)
  moreover have "slice_to (c # s) (utf8_width c) = Some [c]"
    by (simp add: slice_to_Some)
  then have "is_char_boundary (c # s) (utf8_width c)" using slice_to_boundary by blast
  then have "utf8_width c \<le> boundary_before (c # s) n"
    using assms(2) by (rule boundary_before_greatest)
  ultimately show ?thesis by (cases t) auto
qed

end
