(* ===== verification/Json_Value.thy ===== *)
theory Json_Value
  imports Guru_Prelude Utf8
begin

text \<open>
  JSON values (\<^theory_text>\<open>serde_json::Value\<close>, the library's type, as far as the host looks into values),
  the accessors the host uses, and the check of JSON pointers (\<^theory_text>\<open>json_pointer.rs\<close>).
\<close>

subsection \<open>Values\<close>

datatype json_number = Pos_Int nat | Neg_Int int | Float_Text ustr

datatype json =
  JNull
| JBool bool
| JNumber json_number
| JString ustr
| JArray "json list"
| JObject "(ustr \<times> json) list"

text \<open>Objects are ordered maps; \<open>object_insert\<close> replaces.\<close>

fun jget :: "ustr \<Rightarrow> json \<Rightarrow> json option" where
  "jget key (JObject members) = bt_get members key"
| "jget key value = None"

fun as_str :: "json \<Rightarrow> ustr option" where
  "as_str (JString s) = Some s"
| "as_str value = None"

fun as_array :: "json \<Rightarrow> json list option" where
  "as_array (JArray items) = Some items"
| "as_array value = None"

fun as_object :: "json \<Rightarrow> (ustr \<times> json) list option" where
  "as_object (JObject members) = Some members"
| "as_object value = None"

fun as_bool :: "json \<Rightarrow> bool option" where
  "as_bool (JBool b) = Some b"
| "as_bool value = None"

fun as_u64 :: "json \<Rightarrow> nat option" where
  "as_u64 (JNumber (Pos_Int n)) = Some n"
| "as_u64 value = None"

text \<open>\<^theory_text>\<open>value.get(key).and_then(Value::as_str)\<close> and the like.\<close>

definition get_str :: "ustr \<Rightarrow> json \<Rightarrow> ustr option" where
  "get_str key value = Option.bind (jget key value) as_str"

definition get_array :: "ustr \<Rightarrow> json \<Rightarrow> json list option" where
  "get_array key value = Option.bind (jget key value) as_array"

definition or_insert :: "ustr \<Rightarrow> json \<Rightarrow> (ustr \<times> json) list \<Rightarrow> (ustr \<times> json) list" where
  "or_insert key value members = (if bt_get members key = None then bt_insert key value members else members)"

subsection \<open>JSON pointers\<close>

text \<open>The loop over the bytes after the first: an escape is a tilde followed by a zero or a one.\<close>

fun escapes_ok :: "bytes \<Rightarrow> bool" where
  "escapes_ok [] = True"
| "escapes_ok (b # bs) =
     (if b \<noteq> 126 then escapes_ok bs
      else case bs of [] \<Rightarrow> False | c # cs \<Rightarrow> (c = 48 \<or> c = 49) \<and> escapes_ok cs)"

definition valid_json_pointer :: "ustr \<Rightarrow> nat \<Rightarrow> bool \<Rightarrow> bool" where
  "valid_json_pointer value max_bytes allow_root =
     (if byte_len value > max_bytes \<or> contains_any [0, 10, 13] value then False
      else if value = [] then allow_root
      else if \<not> starts_with value (lit ''/'') then False
      else escapes_ok (tl (utf8_encode value)))"

text \<open>Reference: the tokens of RFC 6901, escaped and joined.\<close>

definition escape_token :: "ustr \<Rightarrow> ustr" where
  "escape_token token = concat (map (\<lambda>c. if c = 126 then [126, 48] else if c = 47 then [126, 49] else [c]) token)"

definition pointer_of :: "ustr list \<Rightarrow> ustr" where
  "pointer_of tokens = concat (map (\<lambda>t. 47 # escape_token t) tokens)"

lemma pointer_of_simps [simp]:
  "pointer_of [] = []" "pointer_of (t # ts) = 47 # escape_token t @ pointer_of ts"
  "escape_token [] = []"
  "escape_token (c # cs) = (if c = 126 then [126, 48] else if c = 47 then [126, 49] else [c]) @ escape_token cs"
  by (simp_all add: pointer_of_def escape_token_def)

lemma escapes_ok_skip: "126 \<notin> set bs \<Longrightarrow> escapes_ok (bs @ cs) = escapes_ok cs"
  by (induction bs) auto

lemma utf8_char_plain: "c \<noteq> 126 \<Longrightarrow> 126 \<notin> set (utf8_char c)"
proof -
  assume other: "c \<noteq> 126"
  have high: "126 \<noteq> m + n" if "127 \<le> (m::nat)" for m n using that by linarith
  show ?thesis using other
    by (simp only: utf8_char_def split: if_splits) (simp add: high)
qed

lemma utf8_char_first: "\<exists>b bs. utf8_char c = b # bs \<and> (b = 48 \<or> b = 49 \<longleftrightarrow> c = 48 \<or> c = 49) \<and>
    (b = 48 \<or> b = 49 \<longrightarrow> bs = [])"
proof (cases "c < 0x80")
  case True
  then show ?thesis by (simp add: utf8_char_def)
next
  case False
  have first: "hd (utf8_char c) \<ge> 127 + 1"
  proof -
    have "128 \<le> 0xC0 + (n::nat)" "128 \<le> 0xE0 + (n::nat)" "128 \<le> 0xF0 + (n::nat)" for n by simp_all
    then show ?thesis using False by (simp only: utf8_char_def split: if_splits) simp
  qed
  obtain b bs where "utf8_char c = b # bs" by (cases "utf8_char c") auto
  then show ?thesis using first False by (intro exI [of _ b] exI [of _ bs]) simp
qed

lemma escapes_ok_utf8: "escapes_ok (utf8_encode s) = escapes_ok s"
proof (induction s rule: escapes_ok.induct)
  case (2 b bs)
  show ?case
  proof (cases "b = 126")
    case False
    then show ?thesis using 2 by (simp add: escapes_ok_skip utf8_char_plain)
  next
    case tilde: True
    then have char: "utf8_char b = [126]" by (simp add: utf8_char_def)
    show ?thesis
    proof (cases bs)
      case (Cons c cs)
      obtain d ds where "utf8_char c = d # ds" "d = 48 \<or> d = 49 \<longleftrightarrow> c = 48 \<or> c = 49"
          "d = 48 \<or> d = 49 \<longrightarrow> ds = []"
        using utf8_char_first [of c] by (elim exE conjE) (rule that)
      then show ?thesis using 2(2) [of c cs] tilde char Cons by auto
    qed (simp add: tilde utf8_char_def)
  qed
qed simp

lemma escapes_ok_pointer: "escapes_ok (escape_token t @ pointer_of ts)"
proof (induction ts arbitrary: t)
  case Nil
  show ?case by (induction t) auto
next
  case (Cons t' ts)
  show ?case using Cons.IH [of t'] by (induction t) auto
qed

lemma escapes_ok_tokens: "escapes_ok s \<Longrightarrow> \<exists>t ts. s = escape_token t @ pointer_of ts"
proof (induction s rule: escapes_ok.induct)
  case 1
  have "[] = escape_token [] @ pointer_of []" by simp
  then show ?case by blast
next
  case (2 b bs)
  show ?case
  proof (cases "b = 126")
    case True
    then obtain c cs where cs: "bs = c # cs" "c = 48 \<or> c = 49" "escapes_ok cs"
      using "2.prems" by (cases bs) auto
    then obtain t ts where "cs = escape_token t @ pointer_of ts" using 2(2) [OF _ cs(1)] True by auto
    then have "b # bs = escape_token ((if c = 48 then 126 else 47) # t) @ pointer_of ts"
      using True cs by auto
    then show ?thesis by blast
  next
    case False
    then obtain t ts where bs: "bs = escape_token t @ pointer_of ts" using 2 by auto
    show ?thesis
    proof (cases "b = 47")
      case True
      then have "b # bs = escape_token [] @ pointer_of (t # ts)" using bs by simp
      then show ?thesis by blast
    next
      case other: False
      then have "b # bs = escape_token (b # t) @ pointer_of ts" using bs False by simp
      then show ?thesis by blast
    qed
  qed
qed

text \<open>
  A pointer is accepted exactly when it is the escaped form of a list of tokens, the empty list
  only where the root is allowed, within the size limit and without the three control characters.
\<close>

lemma json_pointers_exact:
  "valid_json_pointer value max_bytes allow_root \<longleftrightarrow>
     byte_len value \<le> max_bytes \<and> \<not> contains_any [0, 10, 13] value \<and>
     (if value = [] then allow_root else \<exists>tokens. value = pointer_of tokens)"
proof (cases "value")
  case (Cons c s)
  have "c = 47 \<and> escapes_ok s \<longleftrightarrow> (\<exists>tokens. c # s = pointer_of tokens)"
  proof
    assume "c = 47 \<and> escapes_ok s"
    then obtain t ts where "c # s = pointer_of (t # ts)" using escapes_ok_tokens [of s] by auto
    then show "\<exists>tokens. c # s = pointer_of tokens" by blast
  next
    assume "\<exists>tokens. c # s = pointer_of tokens"
    then obtain tokens where tokens: "c # s = pointer_of tokens" by blast
    then show "c = 47 \<and> escapes_ok s" using escapes_ok_pointer by (cases tokens) auto
  qed
  moreover have "starts_with value (lit ''/'') \<longleftrightarrow> c = 47"
    by (auto simp: Cons starts_with_def ustr_simps)
  moreover have "tl (utf8_encode value) = utf8_encode s" if "c = 47"
    using that by (simp add: Cons utf8_char_def)
  ultimately show ?thesis
    by (auto simp: valid_json_pointer_def Cons escapes_ok_utf8)
qed (simp add: valid_json_pointer_def)

end
