(* ===== verification/Progress_Labels.thy ===== *)
theory Progress_Labels
  imports Host_Text Json_Value
begin

text \<open>
  The items of a Chat's progress and their labels (\<^theory_text>\<open>chat_progress.rs\<close>): the item
  types, their validation, and the presentation of a tool call by a label that is safe to show and
  to store. The URL parser (\<^theory_text>\<open>reqwest::Url\<close>) is the parameter \<open>parse\<close>; a
  parsed URL is the record of what its accessors return. Paths are those of Unix.
\<close>

subsection \<open>Items\<close>

datatype progress_status = Item_Running | Item_Succeeded | Item_Failed | Item_Stopped

datatype progress_category =
  Cat_Web | Cat_Memory | Cat_Capability | Cat_Finance | Cat_Files | Cat_Artifact | Cat_Compute
| Cat_Decision | Cat_System

datatype progress_operation =
  Op_Search | Op_Read | Op_Write | Op_Edit | Op_List | Op_Calculate | Op_Publish | Op_Execute
| Op_Submit | Op_Retry | Op_Compact | Op_Generic

record activity =
  act_category :: progress_category
  act_operation :: progress_operation
  act_action :: ustr
  act_target :: "ustr option"
  act_href :: "ustr option"
  act_status :: progress_status
  act_started :: int
  act_finished :: "int option"

datatype progress_item =
  Commentary ustr ustr
| Tool_Item ustr activity
| System_Item ustr activity

fun item_id :: "progress_item \<Rightarrow> ustr" where
  "item_id (Commentary i body) = i"
| "item_id (Tool_Item i a) = i"
| "item_id (System_Item i a) = i"

record chat_progress =
  pg_started :: int
  pg_finished :: "int option"
  pg_items :: "progress_item list"

record parsed_url =
  url_scheme :: ustr
  url_host :: "ustr option"
  url_username :: ustr
  url_password :: "ustr option"
  url_port :: "nat option"
  url_text :: ustr

record web_source =
  src_title :: ustr
  src_url :: ustr

subsection \<open>Validation\<close>

definition byte_at :: "ustr \<Rightarrow> nat \<Rightarrow> nat option" where
  "byte_at s k = (let bs = utf8_encode s in if k < length bs then Some (bs ! k) else None)"

definition looks_absolute_path :: "ustr \<Rightarrow> bool" where
  "looks_absolute_path value =
     (let v = trim value in
      starts_with v [47] \<or> starts_with v [126] \<or> starts_with v [92] \<or> byte_at v 1 = Some 58)"

definition validate_id :: "ustr \<Rightarrow> unit domain_result" where
  "validate_id value =
     fail_if (value = [] \<or> byte_len value > 128 \<or>
         \<not> list_all (\<lambda>b. is_ascii_alphanumeric b \<or> b = 45 \<or> b = 95) (utf8_encode value))
       (lit ''chat progress item id is unsafe'')"

definition validate_text :: "ustr \<Rightarrow> nat \<Rightarrow> ustr \<Rightarrow> unit domain_result" where
  "validate_text value limit message =
     fail_if (trim value = [] \<or> byte_len value > limit \<or> contains_any [0] value) message"

definition max_progress_text_bytes :: nat where "max_progress_text_bytes = 512 * 1024"
definition max_progress_label_bytes :: nat where "max_progress_label_bytes = 512"
definition max_progress_href_bytes :: nat where "max_progress_href_bytes = 8 * 1024"

lemmas progress_limits =
  max_progress_text_bytes_def max_progress_label_bytes_def max_progress_href_bytes_def

definition port_is_allowed :: "parsed_url \<Rightarrow> bool" where
  "port_is_allowed url \<longleftrightarrow>
     url_scheme url = lit ''http'' \<and> (url_port url = None \<or> url_port url = Some 80) \<or>
     url_scheme url = lit ''https'' \<and> (url_port url = None \<or> url_port url = Some 443)"

definition validate_progress_href ::
  "(ustr \<Rightarrow> parsed_url option) \<Rightarrow> ustr \<Rightarrow> progress_category \<Rightarrow> progress_operation \<Rightarrow> ustr option
     \<Rightarrow> unit domain_result" where
  "validate_progress_href parse href category operation target =
     and_then (fail_if (byte_len href > max_progress_href_bytes \<or> category \<noteq> Cat_Web \<or>
         operation \<noteq> Op_Read \<or> target = None) (lit ''chat progress link is invalid'')) (\<lambda>_.
     and_then (ok_or (lit ''chat progress link is invalid'') (parse href)) (\<lambda>url.
     fail_if ((url_scheme url \<noteq> lit ''http'' \<and> url_scheme url \<noteq> lit ''https'') \<or> url_host url = None \<or>
         url_username url \<noteq> [] \<or> url_password url \<noteq> None \<or> \<not> port_is_allowed url)
       (lit ''chat progress link is unsafe'')))"

definition validate_target :: "ustr option \<Rightarrow> unit domain_result" where
  "validate_target target = (case target of
     None \<Rightarrow> Inr ()
   | Some t \<Rightarrow>
       and_then (validate_text t max_progress_label_bytes (lit ''chat progress target is invalid'')) (\<lambda>_.
       fail_if (contains_any [0] t \<or> length (lines t) \<noteq> 1 \<or> looks_absolute_path t)
         (lit ''chat progress target is unsafe'')))"

text \<open>The arm the tool and the system items share; \<open>system\<close> tells them apart.\<close>

definition validate_activity ::
  "(ustr \<Rightarrow> parsed_url option) \<Rightarrow> bool \<Rightarrow> bool \<Rightarrow> activity \<Rightarrow> unit domain_result" where
  "validate_activity parse durable system a =
     and_then (validate_text (act_action a) max_progress_label_bytes
       (lit ''chat progress action is invalid'')) (\<lambda>_.
     and_then (validate_target (act_target a)) (\<lambda>_.
     and_then (case act_href a of None \<Rightarrow> Inr ()
       | Some href \<Rightarrow>
           validate_progress_href parse href (act_category a) (act_operation a) (act_target a)) (\<lambda>_.
     and_then (fail_if (system \<and> (act_category a \<noteq> Cat_System \<or>
         (act_operation a \<noteq> Op_Retry \<and> act_operation a \<noteq> Op_Compact \<and> act_operation a \<noteq> Op_Generic) \<or>
         act_href a \<noteq> None))
       (lit ''chat progress system presentation is invalid'')) (\<lambda>_.
     and_then (fail_if (act_started a < 0 \<or>
         (case act_finished a of None \<Rightarrow> False | Some finished \<Rightarrow> finished < act_started a))
       (lit ''chat progress item timestamps are invalid'')) (\<lambda>_.
     and_then (fail_if (durable \<and> act_status a = Item_Running)
       (lit ''durable chat progress contains a running item'')) (\<lambda>_.
     fail_if (durable \<and> act_finished a = None)
       (lit ''durable chat progress is missing an item finish time'')))))))"

definition validate_item ::
  "(ustr \<Rightarrow> parsed_url option) \<Rightarrow> bool \<Rightarrow> progress_item \<Rightarrow> unit domain_result" where
  "validate_item parse durable item =
     and_then (validate_id (item_id item)) (\<lambda>_.
       case item of
         Commentary i body \<Rightarrow>
           validate_text body max_progress_text_bytes (lit ''chat progress commentary is invalid'')
       | Tool_Item i a \<Rightarrow> validate_activity parse durable False a
       | System_Item i a \<Rightarrow> validate_activity parse durable True a)"

fun validate_items ::
  "(ustr \<Rightarrow> parsed_url option) \<Rightarrow> bool \<Rightarrow> ustr set \<Rightarrow> progress_item list \<Rightarrow> unit domain_result" where
  "validate_items parse durable ids [] = Inr ()"
| "validate_items parse durable ids (item # items) =
     and_then (validate_item parse durable item) (\<lambda>_.
     and_then (fail_if (item_id item \<in> ids) (lit ''chat progress item id is duplicated'')) (\<lambda>_.
     validate_items parse durable (insert (item_id item) ids) items))"

definition validate_progress ::
  "(ustr \<Rightarrow> parsed_url option) \<Rightarrow> bool \<Rightarrow> chat_progress \<Rightarrow> unit domain_result" where
  "validate_progress parse durable progress =
     and_then (fail_if (pg_started progress < 0 \<or>
         (case pg_finished progress of None \<Rightarrow> False | Some t \<Rightarrow> t < pg_started progress) \<or>
         (durable \<and> pg_finished progress = None))
       (lit ''chat progress timestamps are invalid'')) (\<lambda>_.
     validate_items parse durable {} (pg_items progress))"

lemma validate_items_ok:
  "validate_items parse durable ids items = Inr () \<longleftrightarrow>
     (\<forall>item\<in>set items. validate_item parse durable item = Inr ()) \<and> distinct (map item_id items) \<and>
     ids \<inter> item_id ` set items = {}"
  by (induction items arbitrary: ids) auto

subsection \<open>Safe labels\<close>

fun find_map :: "('a \<Rightarrow> 'b option) \<Rightarrow> 'a list \<Rightarrow> 'b option" where
  "find_map f [] = None"
| "find_map f (x # xs) = (case f x of None \<Rightarrow> find_map f xs | Some y \<Rightarrow> Some y)"

fun filter_map :: "('a \<Rightarrow> 'b option) \<Rightarrow> 'a list \<Rightarrow> 'b list" where
  "filter_map f [] = []"
| "filter_map f (x # xs) = (case f x of None \<Rightarrow> filter_map f xs | Some y \<Rightarrow> y # filter_map f xs)"

definition or_else :: "'a option \<Rightarrow> 'a option \<Rightarrow> 'a option" where
  "or_else m n = (case m of None \<Rightarrow> n | Some a \<Rightarrow> Some a)"

definition secret_markers :: "ustr list" where
  "secret_markers =
     [lit ''api_key'', lit ''apikey'', lit ''authorization'', lit ''bearer '', lit ''credential'',
      lit ''password'', lit ''secret'', lit ''token='']"

text \<open>The cut never panics (\<open>truncate_utf8_longest\<close>), so its option is the caller's.\<close>

definition safe_value :: "ustr \<Rightarrow> ustr option" where
  "safe_value value =
     (let v = trim value; lowercase = to_ascii_lowercase v in
      if v = [] \<or> contains_any [0, 10, 13] v \<or> looks_absolute_path v \<or>
         list_ex (has_substring lowercase) secret_markers
      then None else truncate_utf8 v 160)"

definition safe_relative_path :: "ustr \<Rightarrow> ustr option" where
  "safe_relative_path value =
     (let v = trim value in
      if v = [] \<or> looks_absolute_path v \<or> lit ''..'' \<in> set (split_on 47 v) \<or> starts_with v [47]
      then None else safe_value v)"

definition safe_web_title :: "ustr \<Rightarrow> ustr option" where
  "safe_web_title value = safe_value (filter (\<lambda>c. \<not> is_control c) value)"

definition dot :: ustr where
  "dot = [32, 183, 32]"

definition safe_web_source :: "(ustr \<Rightarrow> parsed_url option) \<Rightarrow> web_source \<Rightarrow> (ustr \<times> ustr) option" where
  "safe_web_source parse source =
     Option.bind (parse (src_url source)) (\<lambda>url.
     Option.bind (url_host url) (\<lambda>host.
     (case validate_progress_href parse (src_url source) Cat_Web Op_Read (Some (lit ''source'')) of
        Inl e \<Rightarrow> None
      | Inr u \<Rightarrow>
          let title = (case safe_web_title (src_title source) of None \<Rightarrow> host | Some t \<Rightarrow> t) in
          Some (title @ dot @ host, src_url source))))"

definition safe_tool_name :: "ustr \<Rightarrow> ustr" where
  "safe_tool_name value =
     (let name = replace_char 45 32 (replace_char 95 32
        (take 64 (filter (\<lambda>c. is_ascii_alphanumeric c \<or> c = 95 \<or> c = 45) value))) in
      if trim name = [] then lit ''Used a tool'' else lit ''Ran '' @ name)"

fun number_text :: "json_number \<Rightarrow> ustr" where
  "number_text (Pos_Int n) = decimal n"
| "number_text (Neg_Int i) = 45 # decimal (nat (- i))"
| "number_text (Float_Text s) = s"

definition flatten_params :: "json \<Rightarrow> json" where
  "flatten_params args =
     (case Option.bind (jget (lit ''params'') args) as_object of
        None \<Rightarrow> args
      | Some params \<Rightarrow>
          (case args of
             JObject members \<Rightarrow> JObject (fold (\<lambda>(key, value). or_insert key value) params members)
           | other \<Rightarrow> other))"

fun value_label :: "json \<Rightarrow> ustr option" where
  "value_label (JString s) = safe_value s"
| "value_label (JNumber n) = Some (number_text n)"
| "value_label value = None"

definition joined_label :: "ustr \<Rightarrow> ustr list \<Rightarrow> ustr option" where
  "joined_label sep values = (if values = [] then None else truncate_utf8 (join sep values) 480)"

definition join_values :: "json \<Rightarrow> ustr list \<Rightarrow> ustr option" where
  "join_values args keys = joined_label dot (filter_map value_label (filter_map (\<lambda>key. jget key args) keys))"

definition first_str :: "json \<Rightarrow> ustr list \<Rightarrow> ustr option" where
  "first_str args keys = find_map (\<lambda>key. get_str key args) keys"

definition string_label :: "json \<Rightarrow> ustr list \<Rightarrow> ustr option" where
  "string_label args keys = Option.bind (first_str args keys) safe_value"

definition path_label :: "json \<Rightarrow> ustr option" where
  "path_label args =
     Option.bind (first_str args [lit ''path'', lit ''file'', lit ''directory'']) safe_relative_path"

definition finance_calculate_target :: "json \<Rightarrow> ustr option" where
  "finance_calculate_target value =
     (let args = flatten_params value in
      or_else (string_label args [lit ''operation'', lit ''calculation'', lit ''kind''])
        (Option.bind (get_array (lit ''operations'') args) (\<lambda>items.
           joined_label dot
             (filter_map safe_value (filter_map (get_str (lit ''operation'')) items)))))"

definition package_names :: "json \<Rightarrow> ustr option" where
  "package_names args =
     Option.bind (get_array (lit ''packages'') args) (\<lambda>items.
       joined_label (lit '', '') (take 12 (filter_map safe_value (filter_map as_str items))))"

subsection \<open>A web source of a given address\<close>

text \<open>\<^theory_text>\<open>web.rs\<close>: the source the host shows for an address that a tool call names itself.\<close>

definition validate_url_shape :: "parsed_url \<Rightarrow> bool" where
  "validate_url_shape url \<longleftrightarrow>
     \<not> ((url_scheme url \<noteq> lit ''http'' \<and> url_scheme url \<noteq> lit ''https'') \<or> url_username url \<noteq> [] \<or>
        url_password url \<noteq> None \<or> url_host url = None \<or> \<not> port_is_allowed url)"

definition validate_source_url :: "(ustr \<Rightarrow> parsed_url option) \<Rightarrow> ustr \<Rightarrow> parsed_url option" where
  "validate_source_url parse value =
     Option.bind (parse value) (\<lambda>url. if validate_url_shape url then Some url else None)"

definition source_from_url :: "(ustr \<Rightarrow> parsed_url option) \<Rightarrow> ustr \<Rightarrow> web_source option" where
  "source_from_url parse value =
     map_option (\<lambda>url.
       \<lparr>src_title = (case url_host url of
            Some host \<Rightarrow> if host \<noteq> [] then host else lit ''Untitled source''
          | None \<Rightarrow> lit ''Untitled source''),
        src_url = url_text url\<rparr>) (validate_source_url parse value)"

subsection \<open>Tool calls\<close>

record tool_presentation =
  pres_category :: progress_category
  pres_operation :: progress_operation
  pres_action :: ustr
  pres_target :: "ustr option"
  pres_href :: "ustr option"

definition presentation ::
  "progress_category \<Rightarrow> progress_operation \<Rightarrow> ustr \<Rightarrow> ustr option \<Rightarrow> tool_presentation" where
  "presentation category operation action target =
     \<lparr>pres_category = category, pres_operation = operation, pres_action = action,
      pres_target = target, pres_href = None\<rparr>"

definition summarize_tool ::
  "(ustr \<Rightarrow> parsed_url option) \<Rightarrow> ustr \<Rightarrow> json \<Rightarrow> web_source option \<Rightarrow> tool_presentation" where
  "summarize_tool parse tool_name args source =
    (if tool_name = lit ''memory_search'' then
       presentation Cat_Memory Op_Search (lit ''Searched Memory'')
         (string_label args [lit ''query''])
     else if tool_name = lit ''memory_read'' then
       presentation Cat_Memory Op_Read (lit ''Read Memory'')
         (string_label args [lit ''section''])
     else if tool_name = lit ''memory_previous'' then
       presentation Cat_Memory Op_Read (lit ''Read previous Memory'')
         (string_label args [lit ''id''])
     else if tool_name = lit ''capability_search'' then
       presentation Cat_Capability Op_Search (lit ''Searched tools'')
         (string_label args [lit ''query''])
     else if tool_name = lit ''capability_load'' then
       presentation Cat_Capability Op_Read (lit ''Opened a tool'')
         (string_label args [lit ''id''])
     else if tool_name = lit ''web_search'' then
       presentation Cat_Web Op_Search (lit ''Searched the web'')
         (string_label args [lit ''query''])
     else if tool_name = lit ''web_fetch'' then
       (let link = Option.bind source (safe_web_source parse) in
         \<lparr>pres_category = Cat_Web, pres_operation = Op_Read, pres_action = lit ''Read a web source'',
          pres_target = map_option fst link, pres_href = map_option snd link\<rparr>)
     else if tool_name = lit ''finance_sources'' then
       presentation Cat_Finance Op_List (lit ''Checked finance sources'')
         (string_label args [lit ''provider''])
     else if tool_name = lit ''finance_macro_data'' then
       presentation Cat_Finance Op_Read (lit ''Read macro data'')
         (join_values args [lit ''provider'', lit ''economy'', lit ''indicator'',
           lit ''start_year'', lit ''end_year'', lit ''series'', lit ''series_id'', lit ''start'',
           lit ''end''])
     else if tool_name = lit ''finance_market_data'' \<or> tool_name = lit ''finance_company_data'' \<or>
         tool_name = lit ''finance_filings'' then
       presentation Cat_Finance Op_Read (lit ''Read financial data'')
         (join_values (flatten_params args) [lit ''provider'', lit ''operation_id'',
           lit ''symbol'', lit ''ticker'', lit ''series'', lit ''cik'', lit ''corp_code'',
           lit ''start'', lit ''end''])
     else if tool_name = lit ''finance_calculate'' then
       presentation Cat_Finance Op_Calculate (lit ''Calculated financial data'')
         (finance_calculate_target args)
     else if tool_name = lit ''finance_resolve_entity'' then
       presentation Cat_Finance Op_Search (lit ''Resolved a finance entity'')
         (string_label args [lit ''query''])
     else if tool_name = lit ''run_results_list'' then
       presentation Cat_Finance Op_List (lit ''Listed current-run results'')
         None
     else if tool_name = lit ''artifact_list'' then
       presentation Cat_Artifact Op_List (lit ''Listed Chat artifacts'')
         None
     else if tool_name = lit ''artifact_read'' then
       presentation Cat_Artifact Op_Read (lit ''Read a Chat artifact'')
         (join_values args [lit ''artifact_id'', lit ''id'', lit ''revision''])
     else if tool_name = lit ''artifact_publish'' then
       presentation Cat_Artifact Op_Publish (lit ''Published a Chat artifact'')
         (join_values args [lit ''title'', lit ''artifact_id'', lit ''id'', lit ''mode'',
           lit ''action''])
     else if tool_name = lit ''chart_query'' then
       presentation Cat_Artifact Op_Read (lit ''Read chart data'')
         (join_values args [lit ''artifact_id'', lit ''revision''])
     else if tool_name = lit ''chart_publish'' then
       presentation Cat_Artifact Op_Publish (lit ''Published a chart'')
         (join_values args [lit ''title'', lit ''artifact_id'', lit ''mode''])
     else if tool_name = lit ''memory_patch_propose'' then
       presentation Cat_Memory Op_Edit (lit ''Drafted a Memory update'')
         (string_label args [lit ''section''])
     else if tool_name = lit ''read'' then
       presentation Cat_Files Op_Read (lit ''Read a file'') (path_label args)
     else if tool_name = lit ''write'' then
       presentation Cat_Files Op_Write (lit ''Wrote a file'')
         (path_label args)
     else if tool_name = lit ''edit'' then
       presentation Cat_Files Op_Edit (lit ''Edited a file'')
         (path_label args)
     else if tool_name = lit ''ls'' then
       presentation Cat_Files Op_List (lit ''Listed files'')
         (path_label args)
     else if tool_name = lit ''find'' then
       presentation Cat_Files Op_Search (lit ''Searched files'')
         (or_else (path_label args) (string_label args [lit ''pattern'', lit ''query'']))
     else if tool_name = lit ''grep'' then
       presentation Cat_Files Op_Search (lit ''Searched file contents'')
         (or_else (path_label args) (string_label args [lit ''pattern'', lit ''query'']))
     else if tool_name = lit ''compute_run'' then
       presentation Cat_Compute Op_Execute (lit ''Ran a sandboxed calculation'')
         (or_else (package_names args) (string_label args [lit ''language'']))
     else if tool_name = lit ''decision_submit'' then
       presentation Cat_Decision Op_Submit (lit ''Submitted a decision'')
         None
     else if tool_name = lit ''evidence_create'' then
       presentation Cat_Memory Op_Publish (lit ''Created evidence'')
         (string_label args [lit ''title''])
     else if starts_with tool_name (lit ''mcp__'') then
       presentation Cat_Finance Op_Read (lit ''Read market data'')
         (join_values (flatten_params args) [lit ''symbol'', lit ''ticker'', lit ''provider'', lit ''query'', lit ''cik'', lit ''start'', lit ''end''])
     else presentation Cat_Capability Op_Generic (safe_tool_name tool_name) None)"

text \<open>The activity \<^theory_text>\<open>start_tool\<close> pushes.\<close>

definition running_tool :: "tool_presentation \<Rightarrow> int \<Rightarrow> activity" where
  "running_tool p at_ms =
     \<lparr>act_category = pres_category p, act_operation = pres_operation p, act_action = pres_action p,
      act_target = pres_target p, act_href = pres_href p, act_status = Item_Running,
      act_started = max at_ms 0, act_finished = None\<rparr>"

end
