(* ===== verification/Chat_Progress.thy ===== *)
theory Chat_Progress
  imports Progress_Labels
begin

text \<open>
  The progress of a Chat run as the host projects it (\<^theory_text>\<open>chat_progress.rs\<close>): the items,
  which of them the renderer has, and the patches that bring it up to date; and what the renderer
  does with a patch and with a snapshot (\<^theory_text>\<open>chat/ai-sdk.ts\<close>).

  The hash maps are partial functions and the hash sets are sets. An operation that would index out of
  range panics in the source and is None here. \<open>next_item\<close> is a \<^theory_text>\<open>usize\<close> of 64 bits:
  a release build wraps it around.
\<close>

record projection =
  progress :: chat_progress
  next_item :: nat
  next_patch_sequence :: nat
  active_commentary :: "ustr option"
  tool_items :: "ustr \<Rightarrow> ustr option"
  system_items :: "ustr \<Rightarrow> ustr option"
  item_indices :: "ustr \<Rightarrow> nat option"
  dirty_item_ids :: "ustr list"
  dirty_item_set :: "ustr set"
  published_item_ids :: "ustr set"
  pending_remove_item_ids :: "ustr list"
  pending_finished_at_ms :: "int option"

record patch =
  pt_sequence :: nat
  pt_upsert_items :: "progress_item list"
  pt_remove_item_ids :: "ustr list"
  pt_finished_at_ms :: "int option"

abbreviation items_of :: "projection \<Rightarrow> progress_item list" where
  "items_of p \<equiv> pg_items (progress p)"

definition set_items :: "progress_item list \<Rightarrow> projection \<Rightarrow> projection" where
  "set_items items p = p\<lparr>progress := (progress p)\<lparr>pg_items := items\<rparr>\<rparr>"

definition new_projection :: "int \<Rightarrow> projection" where
  "new_projection started_at_ms =
     \<lparr>progress = \<lparr>pg_started = started_at_ms, pg_finished = None, pg_items = []\<rparr>,
      next_item = 1, next_patch_sequence = 1, active_commentary = None, tool_items = Map.empty,
      system_items = Map.empty, item_indices = Map.empty, dirty_item_ids = [], dirty_item_set = {},
      published_item_ids = {}, pending_remove_item_ids = [], pending_finished_at_ms = None\<rparr>"

definition close_commentary :: "projection \<Rightarrow> projection" where
  "close_commentary p = p\<lparr>active_commentary := None\<rparr>"

definition start_assistant_turn :: "projection \<Rightarrow> projection" where
  "start_assistant_turn p = close_commentary p"

definition mark_dirty :: "ustr \<Rightarrow> projection \<Rightarrow> projection" where
  "mark_dirty i p =
     (if i \<in> dirty_item_set p then p
      else p\<lparr>dirty_item_set := insert i (dirty_item_set p), dirty_item_ids := dirty_item_ids p @ [i]\<rparr>)"

definition next_item_id :: "ustr \<Rightarrow> projection \<Rightarrow> ustr \<times> projection" where
  "next_item_id prefix p =
     (prefix @ [45] @ decimal (next_item p), p\<lparr>next_item := (next_item p + 1) mod 2 ^ 64\<rparr>)"

text \<open>The four lines the start operations share: push the item, index it, under its new identifier.\<close>

definition push_item :: "ustr \<Rightarrow> (ustr \<Rightarrow> progress_item) \<Rightarrow> projection \<Rightarrow> ustr \<times> projection" where
  "push_item prefix item p =
     (let index = length (items_of p); (i, p) = next_item_id prefix p in
      (i, (set_items (items_of p @ [item i]) p)\<lparr>item_indices := (item_indices p)(i \<mapsto> index)\<rparr>))"

fun push_str :: "ustr \<Rightarrow> progress_item \<Rightarrow> progress_item" where
  "push_str delta (Commentary i body) = Commentary i (body @ delta)"
| "push_str delta item = item"

definition append_commentary :: "ustr \<Rightarrow> projection \<Rightarrow> projection option" where
  "append_commentary delta p =
     (if delta = [] then Some p
      else
        let (i, p) = (case active_commentary p of
             Some i \<Rightarrow> (i, p)
           | None \<Rightarrow>
               let (i, p) = push_item (lit ''commentary'') (\<lambda>i. Commentary i []) p in
               (i, p\<lparr>active_commentary := Some i\<rparr>)) in
        case item_indices p i of
          None \<Rightarrow> None
        | Some index \<Rightarrow>
            if index < length (items_of p)
            then Some (mark_dirty i (set_items ((items_of p)[index := push_str delta (items_of p ! index)]) p))
            else None)"

definition remove_item :: "ustr \<Rightarrow> projection \<Rightarrow> projection option" where
  "remove_item i p =
     (case item_indices p i of
        None \<Rightarrow> Some p
      | Some index \<Rightarrow>
          if index < length (items_of p) then
            let items = take index (items_of p) @ List.drop (Suc index) (items_of p);
                indices = fold (\<lambda>(k, item) m. m(item_id item \<mapsto> k))
                  (List.drop index (enumerate 0 items)) ((item_indices p)(i := None));
                p = (set_items items p)\<lparr>item_indices := indices,
                  dirty_item_set := dirty_item_set p - {i},
                  dirty_item_ids := filter (\<lambda>d. d \<noteq> i) (dirty_item_ids p)\<rparr> in
            Some (if i \<in> published_item_ids p
              then p\<lparr>published_item_ids := published_item_ids p - {i},
                     pending_remove_item_ids := pending_remove_item_ids p @ [i]\<rparr>
              else p)
          else None)"

definition finish_assistant_turn :: "bool \<Rightarrow> projection \<Rightarrow> projection option" where
  "finish_assistant_turn is_final p =
     (if is_final
      then (case active_commentary p of
              None \<Rightarrow> Some p
            | Some i \<Rightarrow> remove_item i (p\<lparr>active_commentary := None\<rparr>))
      else Some (close_commentary p))"

definition start_tool ::
  "(ustr \<Rightarrow> parsed_url option) \<Rightarrow> ustr \<Rightarrow> ustr \<Rightarrow> json \<Rightarrow> web_source option \<Rightarrow> int \<Rightarrow>
     projection \<Rightarrow> projection" where
  "start_tool parse tool_call_id tool_name args source at_ms p =
     (let p = close_commentary p;
          t = summarize_tool parse tool_name args source;
          (i, p) = push_item (lit ''tool'') (\<lambda>i. Tool_Item i (running_tool t at_ms)) p in
      mark_dirty i (p\<lparr>tool_items := (tool_items p)(tool_call_id \<mapsto> i)\<rparr>))"

definition finished_activity :: "bool \<Rightarrow> int \<Rightarrow> activity \<Rightarrow> activity" where
  "finished_activity failed at_ms a =
     a\<lparr>act_status := (if failed then Item_Failed else Item_Succeeded),
       act_finished := Some (max at_ms (act_started a))\<rparr>"

fun finish_tool_item :: "bool \<Rightarrow> int \<Rightarrow> progress_item \<Rightarrow> progress_item" where
  "finish_tool_item failed at_ms (Tool_Item i a) = Tool_Item i (finished_activity failed at_ms a)"
| "finish_tool_item failed at_ms item = item"

fun finish_system_item :: "bool \<Rightarrow> int \<Rightarrow> progress_item \<Rightarrow> progress_item" where
  "finish_system_item failed at_ms (System_Item i a) = System_Item i (finished_activity failed at_ms a)"
| "finish_system_item failed at_ms item = item"

text \<open>\<^theory_text>\<open>get_mut(index)\<close>: nothing happens out of range.\<close>

definition modify_at :: "nat \<Rightarrow> ('a \<Rightarrow> 'a) \<Rightarrow> 'a list \<Rightarrow> 'a list" where
  "modify_at k f xs = (if k < length xs then xs[k := f (xs ! k)] else xs)"

definition finish_tool :: "ustr \<Rightarrow> bool \<Rightarrow> int \<Rightarrow> projection \<Rightarrow> projection" where
  "finish_tool tool_call_id failed at_ms p =
     (case tool_items p tool_call_id of
        None \<Rightarrow> p
      | Some i \<Rightarrow>
          let p = p\<lparr>tool_items := (tool_items p)(tool_call_id := None)\<rparr> in
          case item_indices p i of
            None \<Rightarrow> p
          | Some index \<Rightarrow>
              mark_dirty i (set_items (modify_at index (finish_tool_item failed at_ms) (items_of p)) p))"

definition start_system ::
  "ustr \<Rightarrow> progress_operation \<Rightarrow> ustr \<Rightarrow> ustr option \<Rightarrow> int \<Rightarrow> projection \<Rightarrow> projection" where
  "start_system key operation action target at_ms p =
     (let p = close_commentary p;
          (i, p) = push_item (lit ''system'') (\<lambda>i. System_Item i
            \<lparr>act_category = Cat_System, act_operation = operation, act_action = action,
             act_target = target, act_href = None, act_status = Item_Running,
             act_started = max at_ms 0, act_finished = None\<rparr>) p in
      mark_dirty i (p\<lparr>system_items := (system_items p)(key \<mapsto> i)\<rparr>))"

definition finish_system :: "ustr \<Rightarrow> bool \<Rightarrow> int \<Rightarrow> projection \<Rightarrow> projection" where
  "finish_system key failed at_ms p =
     (case system_items p key of
        None \<Rightarrow> p
      | Some i \<Rightarrow>
          let p = p\<lparr>system_items := (system_items p)(key := None)\<rparr> in
          case item_indices p i of
            None \<Rightarrow> p
          | Some index \<Rightarrow>
              mark_dirty i (set_items (modify_at index (finish_system_item failed at_ms) (items_of p)) p))"

definition latest_patch_sequence :: "projection \<Rightarrow> nat" where
  "latest_patch_sequence p = next_patch_sequence p - 1"

text \<open>The loop of \<^theory_text>\<open>take_patch\<close> over the dirty identifiers.\<close>

fun collect_upserts :: "ustr list \<Rightarrow> projection \<Rightarrow> progress_item list \<times> projection" where
  "collect_upserts [] p = ([], p)"
| "collect_upserts (i # ids) p =
     (let p = p\<lparr>dirty_item_set := dirty_item_set p - {i}\<rparr> in
      case item_indices p i of
        None \<Rightarrow> collect_upserts ids p
      | Some index \<Rightarrow>
          if index < length (items_of p) then
            let (items, p') =
              collect_upserts ids (p\<lparr>published_item_ids := insert i (published_item_ids p)\<rparr>) in
            (items_of p ! index # items, p')
          else collect_upserts ids p)"

definition take_patch :: "projection \<Rightarrow> patch option \<times> projection" where
  "take_patch p =
     (let ids = dirty_item_ids p;
          (upserts, p) = collect_upserts ids (p\<lparr>dirty_item_ids := []\<rparr>);
          removes = pending_remove_item_ids p;
          finished = pending_finished_at_ms p;
          p = p\<lparr>pending_remove_item_ids := [], pending_finished_at_ms := None\<rparr> in
      if upserts = [] \<and> removes = [] \<and> finished = None then (None, p)
      else
        (Some \<lparr>pt_sequence = next_patch_sequence p, pt_upsert_items = upserts,
               pt_remove_item_ids = removes, pt_finished_at_ms = finished\<rparr>,
         p\<lparr>next_patch_sequence := min (2 ^ 64 - 1) (next_patch_sequence p + 1)\<rparr>))"

text \<open>The loop of \<^theory_text>\<open>finish\<close>: the item and whether it changed.\<close>

definition close_activity :: "int \<Rightarrow> bool \<Rightarrow> activity \<Rightarrow> activity \<times> bool" where
  "close_activity closed_at stopped a =
     (let running = act_status a = Item_Running;
          a1 = (if running then a\<lparr>act_status := (if stopped then Item_Stopped else Item_Failed)\<rparr> else a);
          unfinished = act_finished a = None;
          a2 = (if unfinished then a1\<lparr>act_finished := Some (max closed_at (act_started a))\<rparr> else a1) in
      (a2, running \<or> unfinished))"

fun close_item :: "int \<Rightarrow> bool \<Rightarrow> progress_item \<Rightarrow> progress_item \<times> bool" where
  "close_item closed_at stopped (Tool_Item i a) = map_prod (Tool_Item i) id (close_activity closed_at stopped a)"
| "close_item closed_at stopped (System_Item i a) = map_prod (System_Item i) id (close_activity closed_at stopped a)"
| "close_item closed_at stopped item = (item, False)"

definition finish_progress :: "int \<Rightarrow> bool \<Rightarrow> projection \<Rightarrow> chat_progress option \<times> projection" where
  "finish_progress finished_at_ms stopped p =
     (let p = close_commentary p;
          closed_at = max finished_at_ms (pg_started (progress p));
          closed = map (close_item closed_at stopped) (items_of p);
          changed = map (\<lambda>(item, c). item_id item) (filter snd closed);
          p = p\<lparr>progress := (progress p)\<lparr>pg_finished := Some closed_at, pg_items := map fst closed\<rparr>\<rparr>;
          p = fold mark_dirty changed p;
          p = p\<lparr>pending_finished_at_ms := Some closed_at\<rparr> in
      (if items_of p = [] then None else Some (progress p), p))"

subsection \<open>A run\<close>

text \<open>
  What the event loop of a run calls (\<^theory_text>\<open>commands/chat_runtime.rs\<close>); \<open>Emit\<close> sends the patch
  to the renderer.
\<close>

datatype progress_op =
  Start_Turn
| Append ustr
| Finish_Turn bool
| Start_Tool ustr ustr json "web_source option" int
| Finish_Tool ustr bool int
| Start_System ustr progress_operation ustr "ustr option" int
| Finish_System ustr bool int
| Finish int bool
| Emit

fun progress_step ::
  "(ustr \<Rightarrow> parsed_url option) \<Rightarrow> progress_op \<Rightarrow> projection \<Rightarrow> (patch list \<times> projection) option" where
  "progress_step parse Start_Turn p = Some ([], start_assistant_turn p)"
| "progress_step parse (Append delta) p = map_option (Pair []) (append_commentary delta p)"
| "progress_step parse (Finish_Turn is_final) p = map_option (Pair []) (finish_assistant_turn is_final p)"
| "progress_step parse (Start_Tool call tool args source at_ms) p =
     Some ([], start_tool parse call tool args source at_ms p)"
| "progress_step parse (Finish_Tool call failed at_ms) p = Some ([], finish_tool call failed at_ms p)"
| "progress_step parse (Start_System key operation action target at_ms) p =
     Some ([], start_system key operation action target at_ms p)"
| "progress_step parse (Finish_System key failed at_ms) p = Some ([], finish_system key failed at_ms p)"
| "progress_step parse (Finish at_ms stopped) p = Some ([], snd (finish_progress at_ms stopped p))"
| "progress_step parse Emit p =
     (case take_patch p of (None, p) \<Rightarrow> Some ([], p) | (Some patch, p) \<Rightarrow> Some ([patch], p))"

fun run_progress ::
  "(ustr \<Rightarrow> parsed_url option) \<Rightarrow> progress_op list \<Rightarrow> projection \<Rightarrow> (patch list \<times> projection) option" where
  "run_progress parse [] p = Some ([], p)"
| "run_progress parse (oper # opers) p =
     Option.bind (progress_step parse oper p) (\<lambda>(patches, p).
     Option.bind (run_progress parse opers p) (\<lambda>(more, p). Some (patches @ more, p)))"

subsection \<open>The renderer\<close>

record stream_state =
  st_progress :: chat_progress
  st_sequence :: nat

definition apply_snapshot :: "stream_state option \<Rightarrow> chat_progress \<Rightarrow> nat \<Rightarrow> stream_state" where
  "apply_snapshot state snapshot sequence =
     (case state of
        Some st \<Rightarrow> if sequence \<le> st_sequence st then st
          else \<lparr>st_progress = snapshot, st_sequence = sequence\<rparr>
      | None \<Rightarrow> \<lparr>st_progress = snapshot, st_sequence = sequence\<rparr>)"

definition upsert_item ::
  "progress_item \<Rightarrow> progress_item list \<times> (ustr \<Rightarrow> nat option) \<Rightarrow> progress_item list \<times> (ustr \<Rightarrow> nat option)" where
  "upsert_item item = (\<lambda>(items, indices).
     case indices (item_id item) of
       None \<Rightarrow> (items @ [item], indices(item_id item \<mapsto> length items))
     | Some index \<Rightarrow> (items[index := item], indices))"

definition index_items :: "progress_item list \<Rightarrow> ustr \<Rightarrow> nat option" where
  "index_items items = fold (\<lambda>(k, item) m. m(item_id item \<mapsto> k)) (enumerate 0 items) Map.empty"

definition apply_patch :: "patch \<Rightarrow> stream_state \<Rightarrow> stream_state" where
  "apply_patch patch st =
     (if pt_sequence patch \<noteq> st_sequence st + 1 then st
      else
        let kept = filter (\<lambda>item. item_id item \<notin> set (pt_remove_item_ids patch)) (pg_items (st_progress st));
            (items, indices) = fold upsert_item (pt_upsert_items patch) (kept, index_items kept) in
        \<lparr>st_progress = (st_progress st)
           \<lparr>pg_finished := (case pt_finished_at_ms patch of
                None \<Rightarrow> pg_finished (st_progress st) | Some t \<Rightarrow> Some t),
            pg_items := items\<rparr>,
         st_sequence = pt_sequence patch\<rparr>)"

end
