(* ===== verification/Progress_Replay.thy ===== *)
theory Progress_Replay
  imports Chat_Progress "HOL-Library.Sublist"
begin

text \<open>
  The renderer's view of a run's progress. The invariant of the projection says that its indices are
  those of the items, that identifiers are fresh, and that an item the renderer does not have is
  dirty; the simulation says what the renderer has. Every operation keeps both, so the patches rebuild
  the progress and none of the operations panics.
\<close>

subsection \<open>Items by identifier\<close>

abbreviation ids :: "progress_item list \<Rightarrow> ustr list" where
  "ids \<equiv> map item_id"

definition idx_ok :: "progress_item list \<Rightarrow> (ustr \<Rightarrow> nat option) \<Rightarrow> bool" where
  "idx_ok items idx \<longleftrightarrow> (\<forall>i k. idx i = Some k \<longleftrightarrow> k < length items \<and> item_id (items ! k) = i)"

lemma idx_ok_distinct:
  assumes "idx_ok items idx"
  shows "distinct (ids items)"
  unfolding distinct_conv_nth
proof (intro allI impI)
  fix j k assume bounds: "j < length (ids items)" "k < length (ids items)" and "j \<noteq> k"
  have "idx (item_id (items ! j)) = Some j" "idx (item_id (items ! k)) = Some k"
    using assms bounds by (simp_all add: idx_ok_def)
  then have "item_id (items ! j) \<noteq> item_id (items ! k)" using \<open>j \<noteq> k\<close> by (intro notI) simp
  then show "ids items ! j \<noteq> ids items ! k" using bounds by simp
qed

lemma idx_ok_None:
  assumes "idx_ok items idx"
  shows "idx i = None \<longleftrightarrow> i \<notin> set (ids items)"
proof -
  have "i \<in> set (ids items) \<longleftrightarrow> (\<exists>k<length items. item_id (items ! k) = i)"
    by (auto simp: in_set_conv_nth simp del: set_map)
  also have "\<dots> \<longleftrightarrow> (\<exists>k. idx i = Some k)" using assms by (simp add: idx_ok_def)
  finally show ?thesis by (cases "idx i") auto
qed

lemma idx_ok_Some: "idx_ok items idx \<Longrightarrow> idx i = Some k \<Longrightarrow> k < length items \<and> item_id (items ! k) = i"
  by (simp add: idx_ok_def)

lemma idx_ok_append:
  assumes "idx_ok items idx" "item_id item \<notin> set (ids items)"
  shows "idx_ok (items @ [item]) (idx(item_id item \<mapsto> length items))"
  using assms idx_ok_None [OF assms(1)]
  by (auto simp: idx_ok_def nth_append less_Suc_eq) (metis image_eqI nth_mem)

lemma idx_ok_same_ids: "idx_ok items idx \<Longrightarrow> ids items' = ids items \<Longrightarrow> idx_ok items' idx"
  unfolding idx_ok_def by (metis length_map nth_map)

text \<open>The loop that indexes items again.\<close>

lemma fold_index:
  assumes "distinct (map (\<lambda>p. item_id (snd p)) ps)"
  shows "fold (\<lambda>(k, item) m. m(item_id item \<mapsto> k)) ps m i = Some k \<longleftrightarrow>
    (\<exists>item. (k, item) \<in> set ps \<and> item_id item = i) \<or>
    i \<notin> item_id ` snd ` set ps \<and> m i = Some k"
  using assms
proof (induction ps arbitrary: m)
  case (Cons p ps)
  obtain j x where p: "p = (j, x)" by fastforce
  have x: "item_id x \<notin> item_id ` snd ` set ps" and d: "distinct (map (\<lambda>p. item_id (snd p)) ps)"
    using Cons.prems p by (simp_all add: image_image)
  show ?case
    unfolding p using x by (subst fold_Cons, simp only: comp_apply case_prod_conv Cons.IH [OF d]) (auto simp: rev_image_eqI)
qed simp

lemma map_snd_enumerate: "map (\<lambda>p. f (snd p)) (enumerate n xs) = map f xs"
  by (induction xs arbitrary: n) auto

lemma in_drop_enumerate:
  "(k, x) \<in> set (List.drop j (enumerate 0 xs)) \<longleftrightarrow> j \<le> k \<and> k < length xs \<and> x = xs ! k"
proof -
  have "(k, x) \<in> set (List.drop j (enumerate 0 xs)) \<longleftrightarrow>
      (\<exists>n<length xs - j. (k, x) = List.drop j (enumerate 0 xs) ! n)"
    by (auto simp: in_set_conv_nth)
  also have "\<dots> \<longleftrightarrow> (\<exists>n<length xs - j. k = j + n \<and> x = xs ! (j + n))"
    by (intro ex_cong) (auto simp: nth_enumerate_eq)
  also have "\<dots> \<longleftrightarrow> j \<le> k \<and> k < length xs \<and> x = xs ! k"
    by (auto intro!: exI [of _ "k - j"])
  finally show ?thesis .
qed

lemma index_items_ok:
  assumes "distinct (ids items)"
  shows "idx_ok items (index_items items)"
proof -
  have "distinct (map (\<lambda>p. item_id (snd p)) (enumerate 0 items))"
    using assms by (simp add: map_snd_enumerate)
  from fold_index [OF this] show ?thesis
    by (auto simp: idx_ok_def index_items_def in_set_enumerate_eq)
qed

definition without :: "nat \<Rightarrow> 'a list \<Rightarrow> 'a list" where
  "without k xs = take k xs @ List.drop (Suc k) xs"

lemma without_filter:
  assumes "distinct (ids items)" "k < length items" "item_id (items ! k) = i"
  shows "without k items = filter (\<lambda>item. item_id item \<noteq> i) items"
proof -
  have parts: "items = take k items @ items ! k # List.drop (Suc k) items"
    using assms(2) by (rule id_take_nth_drop)
  then have "i \<notin> set (ids (take k items)) \<union> set (ids (List.drop (Suc k) items))"
    using assms(1,3) by (metis (no_types, lifting) UnE distinct.simps(2) distinct_append
        disjoint_iff list.set_intros(1) list.simps(9) map_append)
  then have "filter (\<lambda>item. item_id item \<noteq> i) (take k items) = take k items"
      "filter (\<lambda>item. item_id item \<noteq> i) (List.drop (Suc k) items) = List.drop (Suc k) items"
    by (auto simp: filter_id_conv)
  moreover have "filter (\<lambda>item. item_id item \<noteq> i) items =
      filter (\<lambda>item. item_id item \<noteq> i) (take k items) @
      filter (\<lambda>item. item_id item \<noteq> i) (List.drop (Suc k) items)"
    using assms(3) by (subst parts) simp
  ultimately show ?thesis by (simp add: without_def)
qed

lemma remove_index_ok:
  assumes ok: "idx_ok items idx" and i: "idx i = Some index"
  defines "items' \<equiv> without index items"
  shows "idx_ok items' (fold (\<lambda>(k, item) m. m(item_id item \<mapsto> k))
    (List.drop index (enumerate 0 items')) (idx(i := None)))"
proof -
  have index: "index < length items" "item_id (items ! index) = i" using idx_ok_Some [OF ok i] by auto
  have len: "length items' = length items - 1" using index(1) by (simp add: items'_def without_def)
  have nth: "items' ! k = (if k < index then items ! k else items ! Suc k)" if "k < length items'" for k
    using that index(1) by (simp add: items'_def without_def nth_append)
  have d: "distinct (ids items)" using ok by (rule idx_ok_distinct)
  have d': "distinct (ids items')" "i \<notin> set (ids items')"
    using d without_filter [OF d index] by (auto simp: items'_def distinct_map_filter)
  have "distinct (map (\<lambda>p. item_id (snd p)) (List.drop index (enumerate 0 items')))"
    using d' by (simp add: map_snd_enumerate flip: drop_map)
  note fold = fold_index [OF this]
  have nth_ids: "j = k" if "j < length items'" "k < length items'" "item_id (items' ! j) = item_id (items' ! k)" for j k
    using nth_eq_iff_index_eq [OF d'(1), where i = j and j = k] that by simp
  have in_later: "j \<in> item_id ` snd ` set (List.drop index (enumerate 0 items')) \<longleftrightarrow>
      (\<exists>k. index \<le> k \<and> k < length items' \<and> item_id (items' ! k) = j)" for j
  proof -
    have "j \<in> item_id ` snd ` set (List.drop index (enumerate 0 items')) \<longleftrightarrow>
        (\<exists>k item. (k, item) \<in> set (List.drop index (enumerate 0 items')) \<and> item_id item = j)"
      by (auto simp: image_image intro: rev_image_eqI; blast)
    then show ?thesis by (auto simp: in_drop_enumerate)
  qed
  have goal: "(\<exists>item. (k, item) \<in> set (List.drop index (enumerate 0 items')) \<and> item_id item = j) \<or>
      j \<notin> item_id ` snd ` set (List.drop index (enumerate 0 items')) \<and> (idx(i := None)) j = Some k \<longleftrightarrow>
      k < length items' \<and> item_id (items' ! k) = j" (is "?later \<or> ?missing \<and> ?old \<longleftrightarrow> ?r") for j k
  proof
    assume "?later \<or> ?missing \<and> ?old"
    then show ?r
    proof
      assume missing: "?missing \<and> ?old"
      then have k: "j \<noteq> i" "k < length items" "item_id (items ! k) = j"
        using idx_ok_Some [OF ok, of j k] by (auto split: if_splits)
      then have "k \<noteq> index" using index by auto
      moreover have "\<not> index < k"
      proof
        assume "index < k"
        then have "index \<le> k - 1" "k - 1 < length items'" "item_id (items' ! (k - 1)) = j"
          using k nth [of "k - 1"] len by auto
        then show False using missing in_later by blast
      qed
      ultimately have "k < index" by simp
      then show ?r using k index(1) len nth [of k] by simp
    qed (auto simp: in_drop_enumerate)
  next
    assume r: ?r
    show "?later \<or> ?missing \<and> ?old"
    proof (cases "index \<le> k")
      case True
      then show ?thesis using r by (auto simp: in_drop_enumerate)
    next
      case False
      then have "item_id (items ! k) = j" "k < length items" using r nth [of k] len by auto
      then have "idx j = Some k" using ok by (simp add: idx_ok_def)
      moreover have "j \<noteq> i" using r d'(2) by auto
      moreover have ?missing using r False nth_ids [of _ k] in_later by auto
      ultimately show ?thesis by simp
    qed
  qed
  show ?thesis
    unfolding idx_ok_def
  proof (intro allI)
    fix j k
    show "fold (\<lambda>(k, item) m. m(item_id item \<mapsto> k)) (List.drop index (enumerate 0 items')) (idx(i := None)) j = Some k \<longleftrightarrow>
        k < length items' \<and> item_id (items' ! k) = j"
      unfolding fold by (rule goal)
  qed
qed

lemma same_ids_eq:
  assumes "ids xs = ids ys" "distinct (ids ys)" "set xs \<subseteq> set ys"
  shows "xs = ys"
proof (rule nth_equalityI)
  show len: "length xs = length ys" using assms(1) by (rule map_eq_imp_length_eq)
  fix k assume k: "k < length xs"
  have "xs ! k \<in> set ys" using assms(3) k by auto
  then obtain j where j: "j < length ys" "ys ! j = xs ! k" by (auto simp: in_set_conv_nth)
  moreover have "item_id (xs ! k) = item_id (ys ! k)"
    using arg_cong [OF assms(1), of "\<lambda>l. l ! k"] k len by simp
  ultimately have "ids ys ! j = ids ys ! k" using k len by simp
  then show "xs ! k = ys ! k" using nth_eq_iff_index_eq [OF assms(2), where i = j and j = k] j k len by simp
qed

subsection \<open>What the renderer does with the items of a patch\<close>

lemma upsert_item_effect:
  assumes "idx_ok xs idx" "upsert_item item (xs, idx) = (ys, idx')"
  shows "idx_ok ys idx'"
    and "ids ys = (if item_id item \<in> set (ids xs) then ids xs else ids xs @ [item_id item])"
    and "set ys = insert item {x \<in> set xs. item_id x \<noteq> item_id item}"
proof -
  have "idx_ok ys idx' \<and>
      ids ys = (if item_id item \<in> set (ids xs) then ids xs else ids xs @ [item_id item]) \<and>
      set ys = insert item {x \<in> set xs. item_id x \<noteq> item_id item}"
  proof (cases "idx (item_id item)")
    case None
    then have new: "item_id item \<notin> set (ids xs)" using idx_ok_None [OF assms(1)] by blast
    have "ys = xs @ [item]" "idx' = idx(item_id item \<mapsto> length xs)"
      using assms(2) None by (auto simp: upsert_item_def)
    then show ?thesis using new idx_ok_append [OF assms(1) new] by (auto intro: rev_image_eqI)
  next
    case (Some k)
    then have k: "k < length xs" "item_id (xs ! k) = item_id item"
      using idx_ok_Some [OF assms(1)] by auto
    have ys: "ys = xs[k := item]" "idx' = idx" using assms(2) Some by (auto simp: upsert_item_def)
    have old: "item_id item \<in> set (ids xs)" using k by (auto simp flip: k(2))
    have same: "ids ys = ids xs"
      using k by (simp add: ys map_update flip: k(2)) (simp add: list_update_same_conv)
    have d: "distinct (ids xs)" using assms(1) by (rule idx_ok_distinct)
    have "set ys = insert item {x \<in> set xs. item_id x \<noteq> item_id item}"
    proof -
      have "xs = take k xs @ xs ! k # List.drop (Suc k) xs" using k(1) by (rule id_take_nth_drop)
      moreover have "set ys = insert item (set (without k xs))"
        using k(1) by (auto simp: ys without_def upd_conv_take_nth_drop)
      ultimately show ?thesis using without_filter [OF d k] by auto
    qed
    then show ?thesis using same old idx_ok_same_ids [OF assms(1) same] ys by simp
  qed
  then show "idx_ok ys idx'"
    "ids ys = (if item_id item \<in> set (ids xs) then ids xs else ids xs @ [item_id item])"
    "set ys = insert item {x \<in> set xs. item_id x \<noteq> item_id item}"
    by blast+
qed

lemma upserts_effect:
  assumes "idx_ok xs idx" "distinct (ids us)" "fold upsert_item us (xs, idx) = (ys, idx')"
  shows "ids ys = ids xs @ filter (\<lambda>i. i \<notin> set (ids xs)) (ids us)"
    and "set ys = set us \<union> {x \<in> set xs. item_id x \<notin> set (ids us)}"
proof -
  have "ids ys = ids xs @ filter (\<lambda>i. i \<notin> set (ids xs)) (ids us) \<and>
      set ys = set us \<union> {x \<in> set xs. item_id x \<notin> set (ids us)}"
    using assms
  proof (induction us arbitrary: xs idx)
    case (Cons u us)
    obtain zs idx1 where step: "upsert_item u (xs, idx) = (zs, idx1)" by fastforce
    note effect = upsert_item_effect [OF Cons.prems(1) step]
    have rest: "ids ys = ids zs @ filter (\<lambda>i. i \<notin> set (ids zs)) (ids us) \<and>
        set ys = set us \<union> {x \<in> set zs. item_id x \<notin> set (ids us)}"
      using Cons.prems step by (intro Cons.IH [OF effect(1)]) auto
    have "filter (\<lambda>i. i \<notin> set (ids zs)) (ids us) = filter (\<lambda>i. i \<notin> set (ids xs)) (ids us)"
      using Cons.prems(2) effect(2) by (intro filter_cong) (auto intro: rev_image_eqI)
    moreover have "item_id u \<notin> set (ids us)" using Cons.prems(2) by simp
    ultimately show ?case using rest effect(2,3) by auto
  qed simp
  then show "ids ys = ids xs @ filter (\<lambda>i. i \<notin> set (ids xs)) (ids us)"
    "set ys = set us \<union> {x \<in> set xs. item_id x \<notin> set (ids us)}"
    by blast+
qed

subsection \<open>The invariant and the simulation\<close>

definition key_ids :: "nat \<Rightarrow> ustr set" where
  "key_ids n = {pre @ [45] @ decimal k | pre k.
     pre \<in> {lit ''commentary'', lit ''tool'', lit ''system''} \<and> k < n}"

definition progress_inv :: "projection \<Rightarrow> bool" where
  "progress_inv p \<longleftrightarrow>
     idx_ok (items_of p) (item_indices p) \<and>
     set (ids (items_of p)) \<union> set (pending_remove_item_ids p) \<subseteq> key_ids (next_item p) \<and>
     set (pending_remove_item_ids p) \<inter> set (ids (items_of p)) = {} \<and>
     dirty_item_set p = set (dirty_item_ids p) \<and> distinct (dirty_item_ids p) \<and>
     set (dirty_item_ids p) \<subseteq> set (ids (items_of p)) \<and>
     published_item_ids p \<subseteq> set (ids (items_of p)) \<and>
     ids (items_of p) = filter (\<lambda>i. i \<in> published_item_ids p) (ids (items_of p)) @
       filter (\<lambda>i. i \<notin> published_item_ids p) (dirty_item_ids p) \<and>
     (\<forall>i. active_commentary p = Some i \<longrightarrow> i \<in> set (ids (items_of p)))"

definition kept_items :: "projection \<Rightarrow> stream_state \<Rightarrow> progress_item list" where
  "kept_items p st =
     filter (\<lambda>item. item_id item \<notin> set (pending_remove_item_ids p)) (pg_items (st_progress st))"

definition progress_sim :: "projection \<Rightarrow> stream_state \<Rightarrow> bool" where
  "progress_sim p st \<longleftrightarrow>
     st_sequence st + 1 = next_patch_sequence p \<and>
     pg_started (st_progress st) = pg_started (progress p) \<and>
     pg_finished (progress p) = or_else (pending_finished_at_ms p) (pg_finished (st_progress st)) \<and>
     ids (kept_items p st) = filter (\<lambda>i. i \<in> published_item_ids p) (ids (items_of p)) \<and>
     (\<forall>item\<in>set (kept_items p st). item_id item \<notin> dirty_item_set p \<longrightarrow> item \<in> set (items_of p))"

abbreviation view :: "projection \<Rightarrow> stream_state \<Rightarrow> bool" where
  "view p st \<equiv> progress_inv p \<and> progress_sim p st"

lemmas view_defs = progress_inv_def progress_sim_def kept_items_def

lemma number_of_key:
  assumes "pre @ [45] @ decimal k = pre' @ [45] @ decimal k'" "45 \<notin> set pre" "45 \<notin> set pre'"
  shows "k = k'"
proof -
  have "split_once 45 (pre @ 45 # decimal k) = split_once 45 (pre' @ 45 # decimal k')"
    using assms(1) by simp
  then show ?thesis using assms(2,3) by (simp add: decimal_inj)
qed

lemma fresh_key:
  assumes "pre \<in> {lit ''commentary'', lit ''tool'', lit ''system''}"
  shows "pre @ [45] @ decimal n \<notin> key_ids n" "pre @ [45] @ decimal n \<in> key_ids (Suc n)"
proof -
  have "45 \<notin> set (lit ''commentary'')" "45 \<notin> set (lit ''tool'')" "45 \<notin> set (lit ''system'')"
    by (simp_all add: lit_def)
  then have plain: "\<forall>q\<in>{lit ''commentary'', lit ''tool'', lit ''system''}. 45 \<notin> set q" by simp
  show "pre @ [45] @ decimal n \<notin> key_ids n"
    using assms plain number_of_key [of pre n] unfolding key_ids_def by blast
  show "pre @ [45] @ decimal n \<in> key_ids (Suc n)" using assms unfolding key_ids_def by blast
qed

lemma key_ids_mono: "m \<le> n \<Longrightarrow> key_ids m \<subseteq> key_ids n"
  unfolding key_ids_def by fastforce

subsection \<open>Updates of the projection keep the view\<close>

lemma set_items_simps [simp]:
  "items_of (set_items xs p) = xs" "pg_started (progress (set_items xs p)) = pg_started (progress p)"
  "pg_finished (progress (set_items xs p)) = pg_finished (progress p)"
  "next_item (set_items xs p) = next_item p" "next_patch_sequence (set_items xs p) = next_patch_sequence p"
  "active_commentary (set_items xs p) = active_commentary p"
  "item_indices (set_items xs p) = item_indices p" "dirty_item_ids (set_items xs p) = dirty_item_ids p"
  "dirty_item_set (set_items xs p) = dirty_item_set p"
  "published_item_ids (set_items xs p) = published_item_ids p"
  "pending_remove_item_ids (set_items xs p) = pending_remove_item_ids p"
  "pending_finished_at_ms (set_items xs p) = pending_finished_at_ms p"
  by (simp_all add: set_items_def)

lemma mark_dirty_simps [simp]:
  "progress (mark_dirty i p) = progress p" "next_item (mark_dirty i p) = next_item p"
  "next_patch_sequence (mark_dirty i p) = next_patch_sequence p"
  "active_commentary (mark_dirty i p) = active_commentary p" "item_indices (mark_dirty i p) = item_indices p"
  "published_item_ids (mark_dirty i p) = published_item_ids p"
  "pending_remove_item_ids (mark_dirty i p) = pending_remove_item_ids p"
  "pending_finished_at_ms (mark_dirty i p) = pending_finished_at_ms p"
  "dirty_item_set (mark_dirty i p) = insert i (dirty_item_set p)"
  by (auto simp: mark_dirty_def)

lemma mark_dirty_commutes:
  "mark_dirty i (set_items xs p) = set_items xs (mark_dirty i p)"
  "mark_dirty i (p\<lparr>active_commentary := a\<rparr>) = (mark_dirty i p)\<lparr>active_commentary := a\<rparr>"
  "mark_dirty i (p\<lparr>tool_items := t\<rparr>) = (mark_dirty i p)\<lparr>tool_items := t\<rparr>"
  "mark_dirty i (p\<lparr>system_items := t\<rparr>) = (mark_dirty i p)\<lparr>system_items := t\<rparr>"
  by (simp_all add: mark_dirty_def set_items_def)

lemma view_unseen [simp]:
  "progress_inv (p\<lparr>tool_items := t\<rparr>) = progress_inv p" "progress_sim (p\<lparr>tool_items := t\<rparr>) st = progress_sim p st"
  "progress_inv (p\<lparr>system_items := t\<rparr>) = progress_inv p" "progress_sim (p\<lparr>system_items := t\<rparr>) st = progress_sim p st"
  "progress_sim (p\<lparr>active_commentary := a\<rparr>) st = progress_sim p st"
  by (simp_all add: view_defs)

lemma inv_active:
  "progress_inv p \<Longrightarrow> a = None \<or> the a \<in> set (ids (items_of p)) \<Longrightarrow> progress_inv (p\<lparr>active_commentary := a\<rparr>)"
  by (auto simp: progress_inv_def)

lemma unpublished_dirty:
  assumes "progress_inv p" "i \<in> set (ids (items_of p))"
  shows "i \<in> published_item_ids p \<or> i \<in> set (dirty_item_ids p)"
proof -
  have "ids (items_of p) = filter (\<lambda>i. i \<in> published_item_ids p) (ids (items_of p)) @
      filter (\<lambda>i. i \<notin> published_item_ids p) (dirty_item_ids p)"
    using assms(1) by (simp only: progress_inv_def)
  from arg_cong [OF this, of set] show ?thesis using assms(2) by auto
qed

lemma view_mark_dirty:
  assumes "view p st" "i \<in> set (ids (items_of p))"
  shows "view (mark_dirty i p) st"
proof (cases "i \<in> dirty_item_set p")
  case False
  then have pub: "i \<in> published_item_ids p"
    using assms unpublished_dirty [of p i] by (auto simp: progress_inv_def)
  have marked: "dirty_item_ids (mark_dirty i p) = dirty_item_ids p @ [i]" using False by (simp add: mark_dirty_def)
  have "progress_inv (mark_dirty i p)" using assms False pub marked by (simp add: progress_inv_def)
  moreover have "progress_sim (mark_dirty i p) st" using assms by (simp add: progress_sim_def kept_items_def)
  ultimately show ?thesis by blast
qed (use assms in \<open>simp add: mark_dirty_def\<close>)

lemma view_set_items:
  assumes "view p st" "ids xs = ids (items_of p)"
    and "\<And>item. item \<in> set (items_of p) \<Longrightarrow> item \<in> set xs \<or> item_id item \<in> dirty_item_set p"
  shows "view (set_items xs p) st"
proof
  show "progress_inv (set_items xs p)"
    using assms(1) idx_ok_same_ids [of "items_of p" "item_indices p" xs] assms(2)
    by (simp add: progress_inv_def)
  show "progress_sim (set_items xs p) st"
    using assms by (auto simp: progress_sim_def kept_items_def)
qed

lemma push_itemE:
  assumes "push_item pre item p = (i, q)"
  shows "i = pre @ [45] @ decimal (next_item p)"
    and "q = (set_items (items_of p @ [item i]) p)
      \<lparr>next_item := (next_item p + 1) mod 2 ^ 64, item_indices := (item_indices p)(i \<mapsto> length (items_of p))\<rparr>"
  using assms by (auto simp: push_item_def next_item_id_def set_items_def)

lemma view_push:
  assumes v: "view p st" and push: "push_item pre item p = (i, q)"
    and pre: "pre \<in> {lit ''commentary'', lit ''tool'', lit ''system''}"
    and item: "\<And>i. item_id (item i) = i" and bound: "next_item p + 1 < 2 ^ 64"
  shows "view (mark_dirty i q) st"
proof -
  note i = push_itemE(1) [OF push] and q = push_itemE(2) [OF push]
  have fresh: "i \<notin> key_ids (next_item p)" "i \<in> key_ids (next_item p + 1)"
    using fresh_key [OF pre] by (simp_all add: i)
  then have new: "i \<notin> set (ids (items_of p))" "i \<notin> set (pending_remove_item_ids p)"
      "i \<notin> set (dirty_item_ids p)" "i \<notin> published_item_ids p"
    using v unfolding progress_inv_def by blast+
  have marked: "dirty_item_ids (mark_dirty i q) = dirty_item_ids p @ [i]"
    using new v by (simp add: mark_dirty_def q progress_inv_def)
  have idx: "idx_ok (items_of p @ [item i]) ((item_indices p)(i \<mapsto> length (items_of p)))"
    using idx_ok_append [of "items_of p" "item_indices p" "item i"] v new item by (simp add: progress_inv_def)
  have keys: "set (ids (items_of p)) \<union> set (pending_remove_item_ids p) \<subseteq> key_ids (next_item p + 1)"
    using v key_ids_mono [of "next_item p" "next_item p + 1"] unfolding progress_inv_def by auto
  have next_eq: "next_item q = next_item p + 1" using bound by (simp add: q)
  have "progress_inv (mark_dirty i q)"
    unfolding progress_inv_def marked mark_dirty_simps next_eq
    using v new fresh idx keys item by (auto simp: q progress_inv_def)
  moreover have "progress_sim (mark_dirty i q) st"
    using v new item by (auto simp: progress_sim_def kept_items_def q progress_inv_def)
  ultimately show ?thesis by blast
qed

lemma without_remove: "remove_item i p = (case item_indices p i of
    None \<Rightarrow> Some p
  | Some index \<Rightarrow>
      if index < length (items_of p) then
        let items = without index (items_of p);
            q = (set_items items p)\<lparr>item_indices := fold (\<lambda>(k, item) m. m(item_id item \<mapsto> k))
                (List.drop index (enumerate 0 items)) ((item_indices p)(i := None)),
              dirty_item_set := dirty_item_set p - {i},
              dirty_item_ids := filter (\<lambda>d. d \<noteq> i) (dirty_item_ids p)\<rparr> in
        Some (if i \<in> published_item_ids p
          then q\<lparr>published_item_ids := published_item_ids p - {i},
                 pending_remove_item_ids := pending_remove_item_ids p @ [i]\<rparr>
          else q)
      else None)"
  by (simp add: remove_item_def without_def Let_def set_items_def cong: if_cong option.case_cong)

lemma ids_without: "ids (filter (\<lambda>item. item_id item \<noteq> i) xs) = filter (\<lambda>j. j \<noteq> i) (ids xs)"
  by (induction xs) auto

lemma view_remove:
  assumes v: "view p st" and inactive: "active_commentary p = None"
  shows "\<exists>q. remove_item i p = Some q \<and> view q st \<and> next_item q = next_item p \<and>
    next_patch_sequence q = next_patch_sequence p"
proof (cases "item_indices p i")
  case (Some index)
  have ok: "idx_ok (items_of p) (item_indices p)" using v by (simp add: progress_inv_def)
  note index = idx_ok_Some [OF ok Some]
  define items where "items = without index (items_of p)"
  define idx where "idx = fold (\<lambda>(k, item) m. m(item_id item \<mapsto> k))
    (List.drop index (enumerate 0 items)) ((item_indices p)(i := None))"
  define q where "q = (set_items items p)\<lparr>item_indices := idx, dirty_item_set := dirty_item_set p - {i},
    dirty_item_ids := filter (\<lambda>d. d \<noteq> i) (dirty_item_ids p)\<rparr>"
  define r where "r = (if i \<in> published_item_ids p
    then q\<lparr>published_item_ids := published_item_ids p - {i},
           pending_remove_item_ids := pending_remove_item_ids p @ [i]\<rparr> else q)"
  have result: "remove_item i p = Some r"
    using Some index by (simp add: without_remove Let_def items_def idx_def q_def r_def)
  have d: "distinct (ids (items_of p))" using ok by (rule idx_ok_distinct)
  have items: "items = filter (\<lambda>item. item_id item \<noteq> i) (items_of p)"
    unfolding items_def using without_filter [OF d] index by blast
  then have ids_items: "ids items = filter (\<lambda>j. j \<noteq> i) (ids (items_of p))" by (simp add: ids_without)
  have idx: "idx_ok items idx" unfolding items_def idx_def by (rule remove_index_ok [OF ok Some])
  have member: "i \<in> set (ids (items_of p))" using index by auto
  have pub: "published_item_ids r = published_item_ids p - {i}" by (simp add: r_def q_def)
  have fields: "items_of r = items" "item_indices r = idx" "dirty_item_set r = dirty_item_set p - {i}"
      "dirty_item_ids r = filter (\<lambda>d. d \<noteq> i) (dirty_item_ids p)" "active_commentary r = None"
      "next_item r = next_item p" "next_patch_sequence r = next_patch_sequence p"
      "pending_finished_at_ms r = pending_finished_at_ms p" "pg_finished (progress r) = pg_finished (progress p)"
      "pg_started (progress r) = pg_started (progress p)"
    using inactive by (simp_all add: r_def q_def)
  have rem: "pending_remove_item_ids r =
      (if i \<in> published_item_ids p then pending_remove_item_ids p @ [i] else pending_remove_item_ids p)"
    by (simp add: r_def q_def)
  have order: "ids items = filter (\<lambda>j. j \<in> published_item_ids r) (ids items) @
      filter (\<lambda>j. j \<notin> published_item_ids r) (dirty_item_ids r)"
  proof -
    have split_ids: "ids (items_of p) = filter (\<lambda>j. j \<in> published_item_ids p) (ids (items_of p)) @
        filter (\<lambda>j. j \<notin> published_item_ids p) (dirty_item_ids p)"
      using v by (simp only: progress_inv_def)
    have base: "filter (\<lambda>j. j \<noteq> i) (ids (items_of p)) =
        filter (\<lambda>j. j \<noteq> i) (filter (\<lambda>j. j \<in> published_item_ids p) (ids (items_of p))) @
        filter (\<lambda>j. j \<noteq> i) (filter (\<lambda>j. j \<notin> published_item_ids p) (dirty_item_ids p))"
      using arg_cong [OF split_ids, of "filter (\<lambda>j. j \<noteq> i)"] by (simp only: filter_append)
    have swap: "filter (\<lambda>j. j \<in> A - {i}) (filter (\<lambda>j. j \<noteq> i) js) = filter (\<lambda>j. j \<noteq> i) (filter (\<lambda>j. j \<in> A) js)"
        "filter (\<lambda>j. j \<notin> A - {i}) (filter (\<lambda>j. j \<noteq> i) js) = filter (\<lambda>j. j \<noteq> i) (filter (\<lambda>j. j \<notin> A) js)"
      for A and js :: "ustr list"
      by (induction js) auto
    show ?thesis unfolding ids_items pub fields swap by (rule base)
  qed
  have facts: "set (ids (items_of p)) \<union> set (pending_remove_item_ids p) \<subseteq> key_ids (next_item p)"
      "set (pending_remove_item_ids p) \<inter> set (ids (items_of p)) = {}"
      "dirty_item_set p = set (dirty_item_ids p)" "distinct (dirty_item_ids p)"
      "set (dirty_item_ids p) \<subseteq> set (ids (items_of p))" "published_item_ids p \<subseteq> set (ids (items_of p))"
    using v unfolding progress_inv_def by blast+
  have set_ids: "set (ids items) = set (ids (items_of p)) - {i}" unfolding ids_items by auto
  have "progress_inv r"
    unfolding progress_inv_def fields
    by (intro conjI idx order [unfolded fields])
       (use facts member in \<open>auto simp: set_ids pub rem simp del: set_map split: if_splits\<close>)
  moreover have "progress_sim r st"
  proof -
    have kept_ids: "ids (kept_items p st) = filter (\<lambda>j. j \<in> published_item_ids p) (ids (items_of p))"
      using v by (simp add: progress_sim_def)
    have kept: "kept_items r st = filter (\<lambda>item. item_id item \<noteq> i) (kept_items p st)"
    proof (cases "i \<in> published_item_ids p")
      case False
      then have "i \<notin> set (ids (kept_items p st))" using kept_ids by simp
      then have "filter (\<lambda>item. item_id item \<noteq> i) (kept_items p st) = kept_items p st"
        by (auto simp: filter_id_conv)
      moreover have "kept_items r st = kept_items p st" using False rem by (simp add: kept_items_def)
      ultimately show ?thesis by simp
    qed (auto simp: kept_items_def rem intro!: filter_cong)
    show ?thesis
      using v by (auto simp: progress_sim_def fields kept pub ids_without kept_ids ids_items items conj_commute
          intro!: filter_cong)
  qed
  ultimately show ?thesis using result fields by blast
qed (use v in \<open>simp add: remove_item_def\<close>)

subsection \<open>The operations\<close>

abbreviation advances :: "projection \<Rightarrow> projection \<Rightarrow> bool" where
  "advances p q \<equiv> next_item q \<le> next_item p + 1 \<and>
     next_patch_sequence p \<le> next_patch_sequence q \<and> next_patch_sequence q \<le> next_patch_sequence p + 1"

lemma view_close: "view p st \<Longrightarrow> view (close_commentary p) st"
  by (simp add: close_commentary_def inv_active)

lemma push_next:
  assumes "push_item pre item p = (i, q)" "next_item p + 1 < 2 ^ 64"
  shows "next_item q = next_item p + 1 \<and> next_patch_sequence q = next_patch_sequence p \<and>
    items_of q = items_of p @ [item i] \<and> item_indices q i = Some (length (items_of p))"
  using push_itemE(2) [OF assms(1)] assms(2) by simp

lemma close_simps [simp]:
  "items_of (close_commentary p) = items_of p" "next_item (close_commentary p) = next_item p"
  "next_patch_sequence (close_commentary p) = next_patch_sequence p"
  by (simp_all add: close_commentary_def)

lemma view_start_tool:
  assumes "view p st" "next_item p + 1 < 2 ^ 64"
  shows "view (start_tool parse call tool args source at_ms p) st \<and> advances p (start_tool parse call tool args source at_ms p)"
proof -
  obtain i q where push: "push_item (lit ''tool'')
      (\<lambda>i. Tool_Item i (running_tool (summarize_tool parse tool args source) at_ms)) (close_commentary p) = (i, q)"
    by fastforce
  then have "view (mark_dirty i q) st" using assms by (intro view_push [OF view_close push]) simp_all
  then show ?thesis using push push_next [OF push] assms
    by (simp add: start_tool_def mark_dirty_commutes)
qed

lemma view_start_system:
  assumes "view p st" "next_item p + 1 < 2 ^ 64"
  shows "view (start_system key operation action target at_ms p) st \<and>
    advances p (start_system key operation action target at_ms p)"
proof -
  obtain i q where push: "push_item (lit ''system'') (\<lambda>i. System_Item i
            \<lparr>act_category = Cat_System, act_operation = operation, act_action = action,
             act_target = target, act_href = None, act_status = Item_Running,
             act_started = max at_ms 0, act_finished = None\<rparr>) (close_commentary p) = (i, q)"
    by fastforce
  then have "view (mark_dirty i q) st" using assms by (intro view_push [OF view_close push]) simp_all
  then show ?thesis using push push_next [OF push] assms
    by (simp add: start_system_def mark_dirty_commutes)
qed

text \<open>Changing one item, which keeps its identifier, and marking it dirty.\<close>

lemma view_modify:
  assumes v: "view p st" and i: "item_indices p i = Some index" and f: "\<And>item. item_id (f item) = item_id item"
  shows "view (mark_dirty i (set_items ((items_of p)[index := f (items_of p ! index)]) p)) st"
proof -
  have ok: "idx_ok (items_of p) (item_indices p)" using v by (simp add: progress_inv_def)
  note index = idx_ok_Some [OF ok i]
  let ?xs = "(items_of p)[index := f (items_of p ! index)]"
  have same: "ids ?xs = ids (items_of p)"
    using index f by (simp add: map_update list_update_same_conv)
  have "view (mark_dirty i p) st" using v index by (intro view_mark_dirty) auto
  then have "view (set_items ?xs (mark_dirty i p)) st"
  proof (rule view_set_items)
    show "ids ?xs = ids (items_of (mark_dirty i p))" using same by simp
    fix item assume "item \<in> set (items_of (mark_dirty i p))"
    then obtain k where k: "k < length (items_of p)" "items_of p ! k = item" by (auto simp: in_set_conv_nth)
    show "item \<in> set ?xs \<or> item_id item \<in> dirty_item_set (mark_dirty i p)"
    proof (cases "k = index")
      case False
      then have "?xs ! k = item" "k < length ?xs" using k by auto
      then show ?thesis using nth_mem by blast
    qed (use index k in simp)
  qed
  then show ?thesis by (simp add: mark_dirty_commutes)
qed

lemma finish_item_ids [simp]:
  "item_id (finish_tool_item failed at_ms item) = item_id item"
  "item_id (finish_system_item failed at_ms item) = item_id item"
  "item_id (push_str delta item) = item_id item"
  "item_id (fst (close_item closed_at stopped item)) = item_id item"
  by (cases item; simp)+

lemma view_finish_tool:
  assumes v: "view p st"
  shows "view (finish_tool call failed at_ms p) st \<and> advances p (finish_tool call failed at_ms p)"
proof (cases "tool_items p call")
  case (Some i)
  let ?p = "p\<lparr>tool_items := (tool_items p)(call := None)\<rparr>"
  show ?thesis
  proof (cases "item_indices p i")
    case index: (Some index)
    have "index < length (items_of p)" using v index by (auto simp: progress_inv_def idx_ok_def)
    moreover have "view ?p st" using v by simp
    ultimately show ?thesis
      using Some index view_modify [of ?p st i index "finish_tool_item failed at_ms"]
      by (simp add: finish_tool_def modify_at_def)
  qed (use Some v in \<open>simp add: finish_tool_def\<close>)
qed (use v in \<open>simp add: finish_tool_def\<close>)

lemma view_finish_system:
  assumes v: "view p st"
  shows "view (finish_system key failed at_ms p) st \<and> advances p (finish_system key failed at_ms p)"
proof (cases "system_items p key")
  case (Some i)
  let ?p = "p\<lparr>system_items := (system_items p)(key := None)\<rparr>"
  show ?thesis
  proof (cases "item_indices p i")
    case index: (Some index)
    have "index < length (items_of p)" using v index by (auto simp: progress_inv_def idx_ok_def)
    moreover have "view ?p st" using v by simp
    ultimately show ?thesis
      using Some index view_modify [of ?p st i index "finish_system_item failed at_ms"]
      by (simp add: finish_system_def modify_at_def)
  qed (use Some v in \<open>simp add: finish_system_def\<close>)
qed (use v in \<open>simp add: finish_system_def\<close>)

lemma view_append:
  assumes v: "view p st" and bound: "next_item p + 1 < 2 ^ 64"
  shows "\<exists>q. append_commentary delta p = Some q \<and> view q st \<and> advances p q"
proof (cases "delta = []")
  case False
  show ?thesis
  proof (cases "active_commentary p")
    case None
    obtain i q where push: "push_item (lit ''commentary'') (\<lambda>i. Commentary i []) p = (i, q)" by fastforce
    note q = push_next [OF push bound]
    have "view (mark_dirty i q) st" using v bound by (intro view_push [OF v push]) simp_all
    then have "view (mark_dirty i (q\<lparr>active_commentary := Some i\<rparr>)) st"
      using q by (simp add: mark_dirty_commutes inv_active)
    then have "view (mark_dirty i (set_items
        ((items_of q)[length (items_of p) := push_str delta (items_of q ! length (items_of p))])
        (mark_dirty i (q\<lparr>active_commentary := Some i\<rparr>)))) st"
      using view_modify [of "mark_dirty i (q\<lparr>active_commentary := Some i\<rparr>)" st i "length (items_of p)" "push_str delta"] q
      by simp
    moreover have "mark_dirty i (mark_dirty i r) = mark_dirty i r" for r by (simp add: mark_dirty_def)
    ultimately show ?thesis using None False push q
      by (simp add: append_commentary_def mark_dirty_commutes)
  next
    case (Some i)
    then have "i \<in> set (ids (items_of p))" using v by (simp add: progress_inv_def)
    then obtain index where index: "item_indices p i = Some index"
      using v idx_ok_None [of "items_of p" "item_indices p" i] by (auto simp: progress_inv_def)
    then have "index < length (items_of p)" using v by (auto simp: progress_inv_def idx_ok_def)
    then show ?thesis using view_modify [OF v index, of "push_str delta"] Some index False
      by (simp add: append_commentary_def)
  qed
qed (use v in \<open>simp add: append_commentary_def\<close>)

lemma view_finish_turn:
  assumes v: "view p st"
  shows "\<exists>q. finish_assistant_turn is_final p = Some q \<and> view q st \<and> advances p q"
proof -
  have "view (p\<lparr>active_commentary := None\<rparr>) st" using v by (simp add: inv_active)
  then show ?thesis using v view_remove [of "p\<lparr>active_commentary := None\<rparr>" st]
    by (auto simp: finish_assistant_turn_def view_close split: option.split) fastforce
qed

lemma fold_mark_dirty:
  "view p st \<Longrightarrow> set is \<subseteq> set (ids (items_of p)) \<Longrightarrow>
    view (fold mark_dirty is p) st \<and> progress (fold mark_dirty is p) = progress p \<and>
    dirty_item_set (fold mark_dirty is p) = set is \<union> dirty_item_set p \<and>
    next_item (fold mark_dirty is p) = next_item p \<and>
    next_patch_sequence (fold mark_dirty is p) = next_patch_sequence p"
proof (induction "is" arbitrary: p)
  case (Cons i "is")
  have "view (mark_dirty i p) st" using Cons.prems by (intro view_mark_dirty) auto
  then show ?case using Cons.IH [of "mark_dirty i p"] Cons.prems by auto
qed simp

lemma fold_mark_dirty_progress:
  "fold mark_dirty is (p\<lparr>progress := g\<rparr>) = (fold mark_dirty is p)\<lparr>progress := g\<rparr>"
proof (induction "is" arbitrary: p)
  case (Cons i "is")
  have "mark_dirty i (p\<lparr>progress := g\<rparr>) = (mark_dirty i p)\<lparr>progress := g\<rparr>" by (simp add: mark_dirty_def)
  then show ?case by (simp add: Cons.IH)
qed simp

lemma filter_map_changed:
  "map (\<lambda>(item, c). item_id item) (filter snd (map f items)) = map (\<lambda>item. item_id (fst (f item))) (filter (\<lambda>item. snd (f item)) items)"
  by (induction items) (auto simp: case_prod_beta)

lemma close_item_unchanged: "\<not> snd (close_item t stopped item) \<Longrightarrow> fst (close_item t stopped item) = item"
  by (cases item) (auto simp: close_activity_def Let_def split: if_splits)

lemma view_finished_at:
  assumes "view p st"
  shows "view (p\<lparr>progress := (progress p)\<lparr>pg_finished := Some t\<rparr>, pending_finished_at_ms := Some t\<rparr>) st"
proof
  show "progress_inv (p\<lparr>progress := (progress p)\<lparr>pg_finished := Some t\<rparr>, pending_finished_at_ms := Some t\<rparr>)"
    using conjunct1 [OF assms] by (simp only: progress_inv_def) simp
  show "progress_sim (p\<lparr>progress := (progress p)\<lparr>pg_finished := Some t\<rparr>, pending_finished_at_ms := Some t\<rparr>) st"
    using conjunct2 [OF assms] by (simp add: progress_sim_def kept_items_def or_else_def)
qed

lemma pg_updates: "g\<lparr>pg_finished := a, pg_items := b\<rparr> = g\<lparr>pg_items := b, pg_finished := a\<rparr>"
  by (cases g) simp

lemma view_finish:
  assumes v: "view p st"
  shows "view (snd (finish_progress at_ms stopped p)) st \<and> advances p (snd (finish_progress at_ms stopped p))"
proof -
  let ?p = "close_commentary p"
  define t where "t = max at_ms (pg_started (progress p))"
  define closed where "closed = map (close_item t stopped) (items_of p)"
  define changed where "changed = map (\<lambda>(item, c). item_id item) (filter snd closed)"
  have p: "view ?p st" using v by (rule view_close)
  have sub: "set changed \<subseteq> set (ids (items_of ?p))"
    by (auto simp: changed_def closed_def filter_map_changed)
  note fold = fold_mark_dirty [OF p sub]
  let ?q = "fold mark_dirty changed ?p"
  have "view (set_items (map fst closed) ?q) st"
  proof (rule view_set_items)
    show "view ?q st" using fold by blast
    show "ids (map fst closed) = ids (items_of ?q)" using fold by (simp add: closed_def)
    fix item assume "item \<in> set (items_of ?q)"
    then have item: "item \<in> set (items_of p)" using fold by simp
    show "item \<in> set (map fst closed) \<or> item_id item \<in> dirty_item_set ?q"
    proof (cases "snd (close_item t stopped item)")
      case True
      then have "item_id item \<in> set changed"
        using item by (auto simp: changed_def closed_def filter_map_changed intro: rev_image_eqI)
      then show ?thesis using fold by blast
    next
      case False
      then have "fst (close_item t stopped item) = item" by (rule close_item_unchanged)
      then show ?thesis using item by (force simp: closed_def)
    qed
  qed
  moreover have "snd (finish_progress at_ms stopped p) =
      ?q\<lparr>progress := (progress p)\<lparr>pg_finished := Some t, pg_items := map fst closed\<rparr>,
        pending_finished_at_ms := Some t\<rparr>"
  proof -
    have "progress ?q = progress ?p" using fold by blast
    then show ?thesis
      by (simp add: finish_progress_def Let_def t_def closed_def changed_def fold_mark_dirty_progress
          close_commentary_def)
  qed
  moreover have "?q\<lparr>progress := (progress p)\<lparr>pg_finished := Some t, pg_items := map fst closed\<rparr>,
        pending_finished_at_ms := Some t\<rparr> =
      (set_items (map fst closed) ?q)\<lparr>progress := (progress (set_items (map fst closed) ?q))\<lparr>pg_finished := Some t\<rparr>,
        pending_finished_at_ms := Some t\<rparr>"
    using fold by (simp add: set_items_def close_commentary_def pg_updates)
  ultimately show ?thesis using fold view_finished_at [of "set_items (map fst closed) ?q" st t] by simp
qed

text \<open>A patch: everything that is dirty, everything that was removed, and the finish time.\<close>

lemma collect_upserts_all:
  assumes "idx_ok (items_of p) (item_indices p)" "set is \<subseteq> set (ids (items_of p))"
  shows "ids (fst (collect_upserts is p)) = is \<and> set (fst (collect_upserts is p)) \<subseteq> set (items_of p) \<and>
    snd (collect_upserts is p) =
      p\<lparr>dirty_item_set := dirty_item_set p - set is, published_item_ids := published_item_ids p \<union> set is\<rparr>"
  using assms
proof (induction "is" arbitrary: p)
  case (Cons i "is")
  let ?q = "p\<lparr>dirty_item_set := dirty_item_set p - {i}, published_item_ids := insert i (published_item_ids p)\<rparr>"
  obtain index where i: "item_indices p i = Some index"
    using Cons.prems idx_ok_None [OF Cons.prems(1), of i] by auto
  note index = idx_ok_Some [OF Cons.prems(1) i]
  have rest: "ids (fst (collect_upserts is ?q)) = is \<and> set (fst (collect_upserts is ?q)) \<subseteq> set (items_of ?q) \<and>
      snd (collect_upserts is ?q) = ?q\<lparr>dirty_item_set := dirty_item_set ?q - set is,
        published_item_ids := published_item_ids ?q \<union> set is\<rparr>"
    using Cons.prems by (intro Cons.IH) auto
  obtain us r where us: "collect_upserts is ?q = (us, r)" by fastforce
  have "collect_upserts (i # is) p = (items_of p ! index # us, r)"
    using i index us by (simp add: Let_def)
  moreover have "dirty_item_set p - {i} - set is = dirty_item_set p - set (i # is)"
      "insert i (published_item_ids p) \<union> set is = published_item_ids p \<union> set (i # is)"
    by auto
  ultimately show ?case using rest us index by simp
qed simp

lemma view_take_patch:
  assumes v: "view p st" and bound: "next_patch_sequence p + 1 < 2 ^ 64" and take: "take_patch p = (sent, q)"
  defines "st' \<equiv> (case sent of None \<Rightarrow> st | Some patch \<Rightarrow> apply_patch patch st)"
  shows "view q st'" "advances p q" "st_progress st' = progress q" "progress q = progress p"
    "sent = Some patch \<Longrightarrow> pt_sequence patch = next_patch_sequence p \<and> next_patch_sequence q = next_patch_sequence p + 1"
    "sent = None \<Longrightarrow> next_patch_sequence q = next_patch_sequence p"
proof -
  let ?upserts = "fst (collect_upserts (dirty_item_ids p) (p\<lparr>dirty_item_ids := []\<rparr>))"
  have ok: "idx_ok (items_of p) (item_indices p)" and dirty: "dirty_item_set p = set (dirty_item_ids p)"
      "distinct (dirty_item_ids p)" "set (dirty_item_ids p) \<subseteq> set (ids (items_of p))"
    and pub: "published_item_ids p \<subseteq> set (ids (items_of p))"
    and order: "ids (items_of p) = filter (\<lambda>i. i \<in> published_item_ids p) (ids (items_of p)) @
       filter (\<lambda>i. i \<notin> published_item_ids p) (dirty_item_ids p)"
    and keys: "set (ids (items_of p)) \<union> set (pending_remove_item_ids p) \<subseteq> key_ids (next_item p)"
    using v unfolding progress_inv_def by blast+
  have "published_item_ids p \<union> set (dirty_item_ids p) = set (ids (items_of p))"
    using unpublished_dirty [of p] v pub dirty(3) by blast
  then have collect: "ids ?upserts = dirty_item_ids p" "set ?upserts \<subseteq> set (items_of p)"
      "snd (collect_upserts (dirty_item_ids p) (p\<lparr>dirty_item_ids := []\<rparr>)) =
        p\<lparr>dirty_item_ids := [], dirty_item_set := {}, published_item_ids := set (ids (items_of p))\<rparr>"
    using collect_upserts_all [of "p\<lparr>dirty_item_ids := []\<rparr>" "dirty_item_ids p"] ok dirty by simp_all
  define r where "r = p\<lparr>dirty_item_ids := [], dirty_item_set := {}, published_item_ids := set (ids (items_of p)),
    pending_remove_item_ids := [], pending_finished_at_ms := None\<rparr>"
  have taken: "take_patch p = (if ?upserts = [] \<and> pending_remove_item_ids p = [] \<and> pending_finished_at_ms p = None
      then (None, r)
      else (Some \<lparr>pt_sequence = next_patch_sequence p, pt_upsert_items = ?upserts,
              pt_remove_item_ids = pending_remove_item_ids p, pt_finished_at_ms = pending_finished_at_ms p\<rparr>,
            r\<lparr>next_patch_sequence := next_patch_sequence p + 1\<rparr>))"
    using collect(3) bound by (simp add: take_patch_def Let_def r_def case_prod_beta)
  have inv_r: "progress_inv r"
    unfolding progress_inv_def r_def using ok keys v by (auto simp: progress_inv_def filter_id_conv)
  have q_items: "progress q = progress p" "progress_inv q"
    using taken take inv_r by (auto simp: r_def progress_inv_def split: if_splits)
  have kept_all: "kept_items q s = pg_items (st_progress s)" for s
    using taken take by (auto simp: kept_items_def r_def filter_id_conv split: if_splits)
  have caught_up: "progress_sim q s"
    if "st_progress s = progress q" "st_sequence s + 1 = next_patch_sequence q" for s
    using that taken take unfolding progress_sim_def kept_all
    by (auto simp: r_def or_else_def filter_id_conv split: if_splits)
  define kept where "kept = kept_items p st"
  have kept: "ids kept = filter (\<lambda>i. i \<in> published_item_ids p) (ids (items_of p))"
      "\<And>item. item \<in> set kept \<Longrightarrow> item_id item \<notin> set (dirty_item_ids p) \<Longrightarrow> item \<in> set (items_of p)"
    using v dirty(1) unfolding progress_sim_def kept_def by auto
  have d: "distinct (ids (items_of p))" using ok by (rule idx_ok_distinct)
  then have idx: "idx_ok kept (index_items kept)"
    by (intro index_items_ok) (simp add: kept(1) distinct_filter del: filter_map)
  obtain ys idx' where ys: "fold upsert_item ?upserts (kept, index_items kept) = (ys, idx')" by fastforce
  have "distinct (ids ?upserts)" using collect(1) dirty(2) by simp
  note effect = upserts_effect [OF idx this ys]
  have "filter (\<lambda>i. i \<notin> set (ids kept)) (dirty_item_ids p) = filter (\<lambda>i. i \<notin> published_item_ids p) (dirty_item_ids p)"
    using dirty(3) unfolding kept(1) by (intro filter_cong) auto
  then have "ids ys = ids (items_of p)" unfolding effect(1) collect(1) kept(1) using order by simp
  then have ys_items: "ys = items_of p"
    using d by (rule same_ids_eq) (use effect(2) collect(1,2) kept(2) in auto)
  show "progress q = progress p" by (rule q_items)
  show "advances p q" using taken take by (auto simp: r_def split: if_splits)
  show "sent = None \<Longrightarrow> next_patch_sequence q = next_patch_sequence p"
    using taken take by (auto simp: r_def split: if_splits)
  show "sent = Some patch \<Longrightarrow> pt_sequence patch = next_patch_sequence p \<and> next_patch_sequence q = next_patch_sequence p + 1"
    using taken take by (auto simp: r_def split: if_splits)
  have st: "st_sequence st + 1 = next_patch_sequence p" "pg_started (st_progress st) = pg_started (progress p)"
      "pg_finished (progress p) = or_else (pending_finished_at_ms p) (pg_finished (st_progress st))"
    using v unfolding progress_sim_def by blast+
  have final: "st_progress st' = progress q \<and> st_sequence st' + 1 = next_patch_sequence q"
  proof (cases "?upserts = [] \<and> pending_remove_item_ids p = [] \<and> pending_finished_at_ms p = None")
    case True
    then have "sent = None" "q = r" using taken take by auto
    moreover have "pg_items (st_progress st) = items_of p"
      using True ys ys_items by (simp add: kept_def kept_items_def)
    moreover have "pg_finished (st_progress st) = pg_finished (progress p)" using st(3) True by (simp add: or_else_def)
    ultimately show ?thesis using st(1,2) unfolding st'_def r_def
      by (cases "st_progress st"; cases "progress p") simp
  next
    case False
    then have sent: "sent = Some \<lparr>pt_sequence = next_patch_sequence p, pt_upsert_items = ?upserts,
          pt_remove_item_ids = pending_remove_item_ids p, pt_finished_at_ms = pending_finished_at_ms p\<rparr>"
        "q = r\<lparr>next_patch_sequence := next_patch_sequence p + 1\<rparr>"
      using taken take by auto
    have "st' = \<lparr>st_progress = (st_progress st)\<lparr>pg_finished := (case pending_finished_at_ms p of
          None \<Rightarrow> pg_finished (st_progress st) | Some t \<Rightarrow> Some t), pg_items := items_of p\<rparr>,
        st_sequence = next_patch_sequence p\<rparr>"
      using st(1) ys ys_items by (simp add: st'_def sent apply_patch_def Let_def kept_def kept_items_def)
    then have "st_progress st' = progress p" "st_sequence st' = next_patch_sequence p"
      using st(2,3) by (simp_all add: or_else_def)
    then show ?thesis using q_items(1) sent(2) by simp
  qed
  then show "st_progress st' = progress q" by blast
  show "view q st'" using q_items(2) caught_up final by blast
qed

subsection \<open>Runs\<close>

abbreviation numbered :: "patch list \<Rightarrow> projection \<Rightarrow> projection \<Rightarrow> bool" where
  "numbered patches p q \<equiv> map pt_sequence patches = [next_patch_sequence p..<next_patch_sequence q]"

lemma same_number: "progress_sim p st \<Longrightarrow> progress_sim q st \<Longrightarrow> next_patch_sequence q = next_patch_sequence p"
  by (simp add: progress_sim_def)

lemma view_step:
  assumes v: "view p st" and bounds: "next_item p + 1 < 2 ^ 64" "next_patch_sequence p + 1 < 2 ^ 64"
  shows "\<exists>patches q. progress_step parse oper p = Some (patches, q) \<and> view q (fold apply_patch patches st) \<and>
    advances p q \<and> numbered patches p q"
proof -
  have silent: "\<exists>patches q. r = Some (patches, q) \<and> view q (fold apply_patch patches st) \<and> advances p q \<and> numbered patches p q"
    if "r = Some ([], q)" "view q st \<and> advances p q" for r q
    using that same_number [of p st q] v by simp
  show ?thesis
  proof (cases oper)
    case Start_Turn
    have "view (start_assistant_turn p) st \<and> advances p (start_assistant_turn p)"
      using view_close [OF v] by (simp add: start_assistant_turn_def)
    then show ?thesis by (intro silent) (simp_all add: Start_Turn)
  next
    case (Append delta)
    obtain q where "append_commentary delta p = Some q" "view q st \<and> advances p q"
      using view_append [OF v bounds(1), of delta] by blast
    then show ?thesis by (intro silent [of _ q]) (simp_all add: Append)
  next
    case (Finish_Turn is_final)
    obtain q where "finish_assistant_turn is_final p = Some q" "view q st \<and> advances p q"
      using view_finish_turn [OF v, of is_final] by blast
    then show ?thesis by (intro silent [of _ q]) (simp_all add: Finish_Turn)
  next
    case (Start_Tool call tool args source at_ms)
    then show ?thesis using view_start_tool [OF v bounds(1)] by (intro silent) simp_all
  next
    case (Finish_Tool call failed at_ms)
    then show ?thesis using view_finish_tool [OF v] by (intro silent) simp_all
  next
    case (Start_System key operation action target at_ms)
    then show ?thesis using view_start_system [OF v bounds(1)] by (intro silent) simp_all
  next
    case (Finish_System key failed at_ms)
    then show ?thesis using view_finish_system [OF v] by (intro silent) simp_all
  next
    case (Finish at_ms stopped)
    then show ?thesis using view_finish [OF v] by (intro silent) simp_all
  next
    case Emit
    obtain sent q where taken: "take_patch p = (sent, q)" by fastforce
    note effect = view_take_patch [OF v bounds(2) taken]
    show ?thesis
    proof (cases sent)
      case None
      then show ?thesis using effect(1,2,6) taken Emit by simp
    next
      case (Some patch)
      then show ?thesis using effect(1,2) effect(5) [OF Some] taken Emit by simp
    qed
  qed
qed

lemma upt_join: "i \<le> j \<Longrightarrow> j \<le> k \<Longrightarrow> [i..<j] @ [j..<k] = [i..<k]"
  using upt_add_eq_append [of i j "k - j"] by simp

lemma view_run:
  assumes "view p st" "next_item p + length opers < 2 ^ 64" "next_patch_sequence p + length opers < 2 ^ 64"
  shows "\<exists>patches q. run_progress parse opers p = Some (patches, q) \<and> view q (fold apply_patch patches st) \<and>
    numbered patches p q \<and> next_patch_sequence p \<le> next_patch_sequence q \<and>
    next_patch_sequence q \<le> next_patch_sequence p + length opers \<and> next_item q \<le> next_item p + length opers"
  using assms
proof (induction opers arbitrary: p st)
  case (Cons oper opers)
  obtain patches q where step: "progress_step parse oper p = Some (patches, q)"
      "view q (fold apply_patch patches st)" "advances p q" "numbered patches p q"
    using view_step [OF Cons.prems(1), of parse oper] Cons.prems(2,3) by auto
  obtain more r where run: "run_progress parse opers q = Some (more, r)"
      "view r (fold apply_patch more (fold apply_patch patches st))" "numbered more q r"
      "next_patch_sequence q \<le> next_patch_sequence r" "next_patch_sequence r \<le> next_patch_sequence q + length opers"
      "next_item r \<le> next_item q + length opers"
    using Cons.IH [OF step(2)] Cons.prems(2,3) step(3) by auto
  have "numbered (patches @ more) p r"
    using step(3,4) run(3,4)
    by (simp add: upt_join)
  then show ?case using step run by simp
qed simp

lemma view_new:
  "view (new_projection t) \<lparr>st_progress = progress (new_projection t), st_sequence = 0\<rparr>"
  by (simp add: new_projection_def progress_inv_def progress_sim_def kept_items_def idx_ok_def or_else_def)

text \<open>The states a renderer can be in: some first patches, applied; the others it ignored.\<close>

lemma subsequence_state:
  assumes "map pt_sequence patches = [st_sequence st + 1..<st_sequence st + 1 + length patches]"
    and "subseq delivered patches"
  shows "\<exists>k\<le>length patches. fold apply_patch delivered st = fold apply_patch (take k patches) st \<and>
    st_sequence (fold apply_patch (take k patches) st) = st_sequence st + k"
  using assms(2,1)
proof (induction delivered patches arbitrary: st rule: list_emb.induct)
  case (list_emb_Nil patches)
  show ?case by (intro exI [of _ 0]) simp
next
  case (list_emb_Cons delivered patches patch)
  have later: "pt_sequence p > st_sequence st + 1" if "p \<in> set patches" for p
  proof -
    have "pt_sequence p \<in> set (map pt_sequence patches)" using that by simp
    moreover have "map pt_sequence patches = [st_sequence st + 2..<st_sequence st + 2 + length patches]"
      using list_emb_Cons.prems by (simp del: upt_Suc add: upt_conv_Cons)
    ultimately show ?thesis by (simp del: upt_Suc)
  qed
  then have "apply_patch p st = st" if "p \<in> set patches" for p
    using later [OF that] by (simp add: apply_patch_def)
  then have "fold apply_patch ds st = st" if "set ds \<subseteq> set patches" for ds
    using that by (induction ds) auto
  moreover have "set delivered \<subseteq> set patches"
    using list_emb_set [OF list_emb_Cons.hyps(1)] by blast
  ultimately show ?case by (intro exI [of _ 0]) simp
next
  case (list_emb_Cons2 x y delivered patches)
  let ?st = "apply_patch y st"
  have y: "pt_sequence y = st_sequence st + 1"
    and rest: "map pt_sequence patches = [st_sequence st + 2..<st_sequence st + 2 + length patches]"
    using list_emb_Cons2.prems by (simp_all del: upt_Suc add: upt_conv_Cons)
  have seq: "st_sequence ?st = st_sequence st + 1"
    using y by (simp add: apply_patch_def Let_def case_prod_beta)
  then obtain k where k: "k \<le> length patches" "fold apply_patch delivered ?st = fold apply_patch (take k patches) ?st"
      "st_sequence (fold apply_patch (take k patches) ?st) = st_sequence ?st + k"
    using list_emb_Cons2.IH [of ?st] rest by auto
  then show ?case using list_emb_Cons2.hyps(1) seq by (intro exI [of _ "Suc k"]) simp
qed

abbreviation first_state :: "int \<Rightarrow> stream_state" where
  "first_state t \<equiv> apply_snapshot None (progress (new_projection t)) 0"

lemma run_append:
  "run_progress parse (opers @ [oper]) p = Option.bind (run_progress parse opers p) (\<lambda>(patches, q).
     Option.bind (progress_step parse oper q) (\<lambda>(more, r). Some (patches @ more, r)))"
  by (induction opers arbitrary: p) (auto split: Option.bind_splits)

lemma emitted_run:
  assumes "length opers + 1 < 2 ^ 53"
  obtains patches p where
    "run_progress parse (opers @ [Emit]) (new_projection t) = Some (patches, p)"
    "fold apply_patch patches (first_state t) = \<lparr>st_progress = progress p, st_sequence = latest_patch_sequence p\<rparr>"
    "map pt_sequence patches = [1..<1 + length patches]" "latest_patch_sequence p = length patches"
proof -
  have first: "first_state t = \<lparr>st_progress = progress (new_projection t), st_sequence = 0\<rparr>"
    by (simp add: apply_snapshot_def)
  have new: "next_item (new_projection t) = 1" "next_patch_sequence (new_projection t) = 1"
    by (simp_all add: new_projection_def)
  have small: "(2::nat) ^ 53 + 2 < 2 ^ 64" by simp
  then have bound: "1 + length opers + 1 < (2::nat) ^ 64" using assms by linarith
  obtain ps q where run: "run_progress parse opers (new_projection t) = Some (ps, q)"
      "view q (fold apply_patch ps (first_state t))" "numbered ps (new_projection t) q"
      "next_patch_sequence q \<le> 1 + length opers" "1 \<le> next_patch_sequence q"
    using view_run [OF view_new [of t], of opers parse] bound unfolding first new by auto
  have next_bound: "next_patch_sequence q + 1 < 2 ^ 64" using run(4) bound by linarith
  obtain sent p where taken: "take_patch q = (sent, p)" by fastforce
  note effect = view_take_patch [OF run(2) next_bound taken]
  define patches where "patches = (case sent of None \<Rightarrow> ps | Some patch \<Rightarrow> ps @ [patch])"
  have result: "run_progress parse (opers @ [Emit]) (new_projection t) = Some (patches, p)"
    using run(1) taken by (cases sent) (simp_all add: run_append patches_def)
  have last: "fold apply_patch patches (first_state t) =
      (case sent of None \<Rightarrow> fold apply_patch ps (first_state t)
       | Some patch \<Rightarrow> apply_patch patch (fold apply_patch ps (first_state t)))"
    by (cases sent) (simp_all add: patches_def)
  have numbers: "map pt_sequence patches = [1..<next_patch_sequence p]"
  proof (cases sent)
    case None
    then show ?thesis using effect(6) run(3) new by (simp add: patches_def)
  next
    case (Some patch)
    then show ?thesis using effect(5) [OF Some] run(3,5) new by (simp add: patches_def)
  qed
  have len: "next_patch_sequence p = 1 + length patches"
    using arg_cong [OF numbers, of length] effect(2) run(5) by simp
  have state: "st_progress (fold apply_patch patches (first_state t)) = progress p"
      "st_sequence (fold apply_patch patches (first_state t)) + 1 = next_patch_sequence p"
    unfolding last using effect(1,3,4) by (auto simp: progress_sim_def)
  show ?thesis
  proof (rule that [OF result])
    show "fold apply_patch patches (first_state t) = \<lparr>st_progress = progress p, st_sequence = latest_patch_sequence p\<rparr>"
      using state by (intro stream_state.equality) (simp_all add: latest_patch_sequence_def)
    show "map pt_sequence patches = [1..<1 + length patches]" using numbers len by simp
    show "latest_patch_sequence p = length patches" using len by (simp add: latest_patch_sequence_def)
  qed
qed

text \<open>
  C29: The patches rebuild the progress. Whatever a run does, none of its operations panics, and a
  renderer that starts from the first snapshot and applies every patch sent so far has exactly the items
  of the host, in the order of the host, and its finish time.
\<close>

theorem patches_rebuild_progress:
  assumes "length opers + 1 < 2 ^ 53"
  shows "\<exists>patches p. run_progress parse (opers @ [Emit]) (new_projection t) = Some (patches, p) \<and>
    fold apply_patch patches (first_state t) =
      \<lparr>st_progress = progress p, st_sequence = latest_patch_sequence p\<rparr>"
  by (rule emitted_run [OF assms, of parse t]) blast

lemma patches_rebuild_progress_witness:
  "\<exists>patches p. run_progress (\<lambda>_. None)
      ([Start_Turn, Append (lit ''Let me see.''), Emit, Start_Tool (lit ''c1'') (lit ''read'') JNull None 5, Emit,
        Finish_Turn True, Finish_Tool (lit ''c1'') False 9] @ [Emit]) (new_projection 1) = Some (patches, p) \<and>
    fold apply_patch patches (first_state 1) =
      \<lparr>st_progress = progress p, st_sequence = latest_patch_sequence p\<rparr>"
  by (rule patches_rebuild_progress) simp

text \<open>
  C28: The last snapshot brings every renderer up to date. A renderer that missed patches, whichever
  they were, ignores the ones after the gap; the snapshot a run ends with gives it the progress of
  the host, and a renderer that missed none keeps what it has, which is the same.
\<close>

theorem terminal_snapshot_resynchronizes:
  assumes "length opers + 2 < 2 ^ 53"
  shows "\<exists>patches p. run_progress parse ((opers @ [Finish at_ms stopped]) @ [Emit]) (new_projection t) = Some (patches, p) \<and>
    (\<forall>delivered. subseq delivered patches \<longrightarrow>
       apply_snapshot (Some (fold apply_patch delivered (first_state t))) (progress p) (latest_patch_sequence p) =
         \<lparr>st_progress = progress p, st_sequence = latest_patch_sequence p\<rparr>)"
proof -
  have "length (opers @ [Finish at_ms stopped]) + 1 < 2 ^ 53" using assms by simp
  then obtain patches p where run:
      "run_progress parse ((opers @ [Finish at_ms stopped]) @ [Emit]) (new_projection t) = Some (patches, p)"
      "fold apply_patch patches (first_state t) = \<lparr>st_progress = progress p, st_sequence = latest_patch_sequence p\<rparr>"
      "map pt_sequence patches = [1..<1 + length patches]" "latest_patch_sequence p = length patches"
    by (rule emitted_run)
  have "apply_snapshot (Some (fold apply_patch delivered (first_state t))) (progress p) (latest_patch_sequence p) =
      \<lparr>st_progress = progress p, st_sequence = latest_patch_sequence p\<rparr>" if sub: "subseq delivered patches" for delivered
  proof -
    have "st_sequence (first_state t) = 0" by (simp add: apply_snapshot_def)
    then obtain k where k: "k \<le> length patches"
        "fold apply_patch delivered (first_state t) = fold apply_patch (take k patches) (first_state t)"
        "st_sequence (fold apply_patch (take k patches) (first_state t)) = k"
      using subsequence_state [OF _ sub, of "first_state t"] run(3) by auto
    show ?thesis
    proof (cases "k = length patches")
      case True
      then show ?thesis using k run(2,4) by (simp add: apply_snapshot_def)
    next
      case False
      then show ?thesis using k run(4) by (simp add: apply_snapshot_def)
    qed
  qed
  then show ?thesis using run(1) by blast
qed

lemma terminal_snapshot_resynchronizes_witness:
  "\<exists>patches p. run_progress (\<lambda>_. None)
      (([Append (lit ''a''), Emit, Start_Tool (lit ''c1'') (lit ''read'') JNull None 5, Emit] @
        [Finish 9 True]) @ [Emit]) (new_projection 1) = Some (patches, p) \<and>
    (\<forall>delivered. subseq delivered patches \<longrightarrow>
       apply_snapshot (Some (fold apply_patch delivered (first_state 1))) (progress p) (latest_patch_sequence p) =
         \<lparr>st_progress = progress p, st_sequence = latest_patch_sequence p\<rparr>)"
  by (rule terminal_snapshot_resynchronizes) simp

end
