(* ===== verification/Label_Safety.thy ===== *)
theory Label_Safety
  imports Progress_Labels
begin

text \<open>
  The label of a tool call is one line, not a path, within its limit: the item of every call
  passes the validation of stored progress, provided the host of a fetched page is a DNS name.
  A page whose host is an IPv6 literal is the exception, and a Chat that fetches one cannot be stored.
\<close>

subsection \<open>Safe labels\<close>

definition safe_label :: "ustr \<Rightarrow> bool" where
  "safe_label t \<longleftrightarrow>
     t \<noteq> [] \<and> \<not> is_whitespace (hd t) \<and> \<not> contains_any [0, 10] t \<and> hd t \<notin> {47, 126, 92} \<and>
     byte_at t 1 \<noteq> Some 58"

lemma contains_any_append [simp]:
  "contains_any cs (a @ b) \<longleftrightarrow> contains_any cs a \<or> contains_any cs b"
  "\<not> contains_any cs []" "contains_any cs (c # a) \<longleftrightarrow> c \<in> set cs \<or> contains_any cs a"
  by (auto simp: contains_any_def)

lemma byte_at_append: "byte_at t k = Some b \<Longrightarrow> byte_at (t @ r) k = Some b"
  by (auto simp: byte_at_def Let_def nth_append split: if_splits)

lemma safe_label_prefix:
  assumes "safe_label (t @ r)" "t \<noteq> []"
  shows "safe_label t"
  using assms byte_at_append [of t 1 58 r] by (auto simp: safe_label_def)

lemma trim_prefix:
  assumes "safe_label t"
  obtains r where "t = trim t @ r" "trim t \<noteq> []"
proof -
  have "trim_start t = t" using assms trim_start_hd unfolding safe_label_def by blast
  then have "trim t = trim_end t" by (simp add: trim_def)
  moreover have "trim t \<noteq> []" using assms by (auto simp: trim_eq_Nil safe_label_def)
  ultimately show ?thesis using that trim_end_prefix [of t] by metis
qed

lemma safe_label_path: "safe_label t \<Longrightarrow> \<not> looks_absolute_path t"
proof -
  assume t: "safe_label t"
  then obtain r where "t = trim t @ r" "trim t \<noteq> []" by (rule trim_prefix)
  then have v: "safe_label (trim t)" using t safe_label_prefix by metis
  then obtain c s where "trim t = c # s" by (cases "trim t") (auto simp: safe_label_def)
  with v show ?thesis
    by (auto simp: looks_absolute_path_def Let_def safe_label_def starts_with_def)
qed

lemma safe_label_target:
  assumes "safe_label t" "byte_len t \<le> 512"
  shows "validate_target (Some t) = Inr ()"
proof -
  have "trim t \<noteq> []" using assms(1) by (rule trim_prefix)
  moreover have "lines t = [strip_line_end t]"
    using assms(1) by (auto simp: lines_def split_inclusive_none safe_label_def contains_any_def)
  moreover have "\<not> contains_any [0] t" using assms(1) by (auto simp: safe_label_def contains_any_def)
  ultimately show ?thesis
    using assms safe_label_path [of t]
    by (simp add: validate_target_def validate_text_def progress_limits)
qed

text \<open>A label may be continued by a text that starts with a space or a comma, and be cut.\<close>

lemma safe_label_append:
  assumes "safe_label t" "\<not> contains_any [0, 10] r" "r = [] \<or> hd r = 32 \<or> hd r = 44"
  shows "safe_label (t @ r)"
proof (cases r)
  case (Cons d s)
  obtain c t' where t: "t = c # t'" using assms(1) by (cases t) (auto simp: safe_label_def)
  have d: "utf8_char d = [d]" "d \<noteq> 58" using assms(3) Cons by (auto simp: utf8_char_def)
  have "byte_at (t @ r) 1 \<noteq> Some 58"
  proof (cases "1 < length (utf8_encode t)")
    case True
    then have "byte_at (t @ r) 1 = byte_at t 1" by (simp add: byte_at_def Let_def nth_append)
    then show ?thesis using assms(1) by (simp add: safe_label_def)
  next
    case False
    obtain b bs where "utf8_encode t = b # bs" using t by (cases "utf8_encode t") auto
    then have "utf8_encode t = [b]" using False by (cases bs) auto
    then show ?thesis using d Cons by (simp add: byte_at_def Let_def)
  qed
  then show ?thesis using assms by (auto simp: safe_label_def t)
qed (use assms in simp)

lemma utf8_width_le: "utf8_width c \<le> 4"
  by (simp add: utf8_width_def)

lemma truncate_safe_label:
  assumes "safe_label s" "4 \<le> n" "truncate_utf8 s n = Some t"
  shows "safe_label t \<and> byte_len t \<le> n"
proof -
  obtain t' r where t': "truncate_utf8 s n = Some t'" "s = t' @ r" "byte_len t' \<le> n"
    by (rule truncate_utf8_SomeE)
  obtain c s' where s: "s = c # s'" using assms(1) by (cases s) (auto simp: safe_label_def)
  have "utf8_width c \<le> n" using utf8_width_le [of c] assms(2) by simp
  then have "t \<noteq> []" using truncate_utf8_keeps_first assms(3) unfolding s by blast
  then show ?thesis using t' assms safe_label_prefix [of t' r] by auto
qed

subsection \<open>Every label the host builds is safe\<close>

lemma safe_value_label:
  assumes "safe_value value = Some t"
  shows "safe_label t \<and> byte_len t \<le> 160"
proof -
  let ?v = "trim value"
  have v: "?v \<noteq> []" "\<not> contains_any [0, 10, 13] ?v" "\<not> looks_absolute_path ?v"
    "truncate_utf8 ?v 160 = Some t"
    using assms by (auto simp: safe_value_def Let_def split: if_splits)
  moreover have "\<not> is_whitespace (hd ?v)" using v(1) trimmed_trim [of "value"] by (auto simp: trimmed_def)
  moreover obtain c s where "?v = c # s" using v(1) by (cases ?v) auto
  moreover from this have "trim (c # s) = c # s" using trim_idem [of "value"] by simp
  ultimately have "safe_label ?v"
    by (auto simp: safe_label_def looks_absolute_path_def Let_def starts_with_def contains_any_def)
  from truncate_safe_label [OF this _ v(4)] show ?thesis by simp
qed

lemma join_safe_label:
  assumes "\<forall>v\<in>set vs. safe_label v" "vs \<noteq> []" "hd sep = 32 \<or> hd sep = 44" "sep \<noteq> []"
    "\<not> contains_any [0, 10] sep"
  shows "safe_label (join sep vs)"
proof -
  have clean: "\<forall>v\<in>set us. safe_label v \<Longrightarrow> \<not> contains_any [0, 10] (join sep us)" for us
    using assms(5) by (induction sep us rule: join.induct) (auto simp: safe_label_def)
  obtain v us where vs: "vs = v # us" using assms(2) by (cases vs) auto
  show ?thesis
  proof (cases us)
    case (Cons u ws)
    have "safe_label (v @ (sep @ join sep us))"
      using assms vs clean [of us] by (intro safe_label_append) auto
    then show ?thesis using vs Cons by simp
  qed (use assms vs in simp)
qed

lemma joined_label_safe:
  assumes "\<forall>v\<in>set vs. safe_label v" "hd sep = 32 \<or> hd sep = 44" "sep \<noteq> []"
    "\<not> contains_any [0, 10] sep" "joined_label sep vs = Some t"
  shows "safe_label t \<and> byte_len t \<le> 480"
proof -
  have "vs \<noteq> []" "truncate_utf8 (join sep vs) 480 = Some t"
    using assms(5) by (simp_all add: joined_label_def split: if_splits)
  moreover from this(1) have "safe_label (join sep vs)" using assms by (intro join_safe_label)
  ultimately show ?thesis using truncate_safe_label [of "join sep vs" 480 t] by simp
qed

definition target_ok :: "ustr option \<Rightarrow> bool" where
  "target_ok target \<longleftrightarrow> (case target of None \<Rightarrow> True | Some t \<Rightarrow> safe_label t \<and> byte_len t \<le> 512)"

lemma target_ok_simps [simp]: "target_ok None" "target_ok (Some t) \<longleftrightarrow> safe_label t \<and> byte_len t \<le> 512"
  by (simp_all add: target_ok_def)

lemma target_okI: "(\<And>t. target = Some t \<Longrightarrow> safe_label t \<and> byte_len t \<le> 512) \<Longrightarrow> target_ok target"
  by (cases target) simp_all

lemma target_ok_validates: "target_ok target \<Longrightarrow> validate_target target = Inr ()"
  by (cases target) (simp_all add: safe_label_target, simp add: validate_target_def)

lemma target_ok_or_else: "target_ok m \<Longrightarrow> target_ok n \<Longrightarrow> target_ok (or_else m n)"
  by (cases m) (auto simp: or_else_def)

lemma target_ok_safe_value: "target_ok (safe_value v)"
  using safe_value_label [of v] by (intro target_okI) fastforce

lemma target_ok_bind: "(\<And>v. m = Some v \<Longrightarrow> target_ok (f v)) \<Longrightarrow> target_ok (Option.bind m f)"
  by (cases m) auto

lemma target_ok_string: "target_ok (string_label args keys)"
  by (simp add: string_label_def target_ok_bind target_ok_safe_value)

lemma target_ok_path: "target_ok (path_label args)"
  by (auto simp: path_label_def safe_relative_path_def Let_def target_ok_safe_value intro!: target_ok_bind)

lemma set_filter_map: "y \<in> set (filter_map f xs) \<longleftrightarrow> (\<exists>x\<in>set xs. f x = Some y)"
  by (induction xs) (auto split: option.splits)

lemma dot_sep: "hd dot = 32" "dot \<noteq> []" "\<not> contains_any [0, 10] dot"
  by (simp_all add: dot_def)

lemma target_ok_joined:
  assumes "\<forall>v\<in>set vs. safe_label v" "hd sep = 32 \<or> hd sep = 44" "sep \<noteq> []" "\<not> contains_any [0, 10] sep"
  shows "target_ok (joined_label sep vs)"
  using joined_label_safe [OF assms] by (intro target_okI) fastforce

lemma target_ok_packages: "target_ok (package_names args)"
  unfolding package_names_def
  by (intro target_ok_bind target_ok_joined)
     (auto simp: set_filter_map lit_def dest!: in_set_takeD dest: safe_value_label)

lemma target_ok_calculate: "target_ok (finance_calculate_target args)"
  unfolding finance_calculate_target_def Let_def
  by (intro target_ok_or_else target_ok_string target_ok_bind target_ok_joined)
     (auto simp: set_filter_map dot_sep dest: safe_value_label)

subsection \<open>Numbers\<close>

text \<open>
  The text \<^theory_text>\<open>serde_json\<close> prints for a floating-point number: digits, signs, the
  decimal point and the exponent.
\<close>

definition float_text_wf :: "ustr \<Rightarrow> bool" where
  "float_text_wf s \<longleftrightarrow> s \<noteq> [] \<and> (\<forall>c\<in>set s. is_ascii_digit c \<or> c \<in> {43, 45, 46, 101})"

fun numbers_wf :: "json \<Rightarrow> bool" where
  "numbers_wf (JNumber (Float_Text s)) = float_text_wf s"
| "numbers_wf (JArray items) = list_all numbers_wf items"
| "numbers_wf (JObject members) = list_all (\<lambda>(key, value). numbers_wf value) members"
| "numbers_wf value = True"

lemma decimal_digits: "c \<in> set (decimal n) \<Longrightarrow> is_ascii_digit c"
proof (induction n rule: decimal.induct)
  case (1 n)
  then show ?case by (subst (asm) (2) decimal.simps) (auto simp: is_ascii_digit_def split: if_splits)
qed

lemma utf8_encode_ascii: "\<forall>c\<in>set s. c < 128 \<Longrightarrow> utf8_encode s = s"
  by (induction s) (auto simp: utf8_char_def)

lemma float_text_label:
  assumes "float_text_wf s"
  shows "safe_label s"
proof -
  have chars: "\<forall>c\<in>set s. (48 \<le> c \<and> c \<le> 57) \<or> c \<in> {43, 45, 46, 101}" and ne: "s \<noteq> []"
    using assms by (auto simp: float_text_wf_def is_ascii_digit_def)
  then have "\<forall>c\<in>set s. c < 128" by fastforce
  then have enc: "utf8_encode s = s" by (rule utf8_encode_ascii)
  have "58 \<notin> set s" "0 \<notin> set s" "10 \<notin> set s" using chars by fastforce+
  moreover from this(1) have "s ! 1 \<noteq> 58" if "1 < length s" using nth_mem [OF that] by metis
  ultimately have "byte_at s 1 \<noteq> Some 58" "\<not> contains_any [0, 10] s"
    by (auto simp: byte_at_def Let_def enc contains_any_def intro: gr0I)
  moreover have "hd s \<in> set s" using ne by simp
  then have "\<not> is_whitespace (hd s)" "hd s \<notin> {47, 126, 92}"
    using chars by (fastforce simp: is_whitespace_def)+
  ultimately show ?thesis using ne by (simp add: safe_label_def)
qed

lemma number_label: "numbers_wf (JNumber n) \<Longrightarrow> safe_label (number_text n)"
  using decimal_digits by (cases n) (auto intro!: float_text_label simp: float_text_wf_def)

lemma value_label_safe: "numbers_wf v \<Longrightarrow> value_label v = Some t \<Longrightarrow> safe_label t"
  by (cases v) (auto simp: number_label dest: safe_value_label)

lemma bt_get_member: "bt_get m k = Some v \<Longrightarrow> (k, v) \<in> set m"
  by (auto simp: bt_get_def dest: map_of_SomeD)

lemma jget_numbers: "numbers_wf v \<Longrightarrow> jget k v = Some w \<Longrightarrow> numbers_wf w"
  by (cases v) (auto simp: list_all_iff dest!: bt_get_member)

lemma target_ok_join_values: "numbers_wf args \<Longrightarrow> target_ok (join_values args keys)"
  unfolding join_values_def
  by (intro target_ok_joined) (use value_label_safe jget_numbers in \<open>fastforce simp: set_filter_map dot_sep\<close>)+

lemma bt_insert_members: "set (bt_insert k v m) \<subseteq> insert (k, v) (set m)"
  by (induction m) (auto split: if_splits)

lemma or_insert_numbers:
  "list_all (\<lambda>(k, v). numbers_wf v) m \<Longrightarrow> numbers_wf v \<Longrightarrow> list_all (\<lambda>(k, v). numbers_wf v) (or_insert k v m)"
  using bt_insert_members [of k v m] by (fastforce simp: or_insert_def list_all_iff)

lemma flatten_numbers: "numbers_wf args \<Longrightarrow> numbers_wf (flatten_params args)"
proof (cases "Option.bind (jget (lit ''params'') args) as_object")
  case (Some params)
  assume wf: "numbers_wf args"
  obtain v where v: "jget (lit ''params'') args = Some v" "as_object v = Some params"
    using Some by (auto simp: bind_eq_Some_conv)
  then have "list_all (\<lambda>(k, v). numbers_wf v) params"
    using jget_numbers [OF wf v(1)] v(2) by (cases v) auto
  moreover obtain members where args: "args = JObject members" using v(1) by (cases args) auto
  moreover have "list_all (\<lambda>(k, v). numbers_wf v) m \<Longrightarrow> list_all (\<lambda>(k, v). numbers_wf v) ps \<Longrightarrow>
      list_all (\<lambda>(k, v). numbers_wf v) (fold (\<lambda>(key, value). or_insert key value) ps m)" for m ps
    by (induction ps arbitrary: m) (auto simp: or_insert_numbers)
  ultimately show ?thesis using wf Some by (simp add: flatten_params_def)
qed (simp add: flatten_params_def)

subsection \<open>The item of a tool call\<close>

definition action_ok :: "ustr \<Rightarrow> bool" where
  "action_ok a \<longleftrightarrow> trim a \<noteq> [] \<and> byte_len a \<le> 512 \<and> \<not> contains_any [0] a"

definition presentation_ok :: "(ustr \<Rightarrow> parsed_url option) \<Rightarrow> tool_presentation \<Rightarrow> bool" where
  "presentation_ok parse p \<longleftrightarrow> (\<forall>at_ms. validate_activity parse False False (running_tool p at_ms) = Inr ())"

lemma presentation_ok_plain:
  assumes "action_ok a" "target_ok t"
  shows "presentation_ok parse (presentation c oper a t)"
  using assms target_ok_validates [of t]
  by (simp add: presentation_ok_def presentation_def running_tool_def validate_activity_def action_ok_def
      validate_text_def progress_limits)

lemma presentation_ok_if:
  "(c \<Longrightarrow> presentation_ok parse p) \<Longrightarrow> (\<not> c \<Longrightarrow> presentation_ok parse q) \<Longrightarrow>
     presentation_ok parse (if c then p else q)"
  by simp

lemma safe_tool_name_ok: "action_ok (safe_tool_name n)"
proof -
  let ?kept = "take 64 (filter (\<lambda>c. is_ascii_alphanumeric c \<or> c = 95 \<or> c = 45) n)"
  let ?name = "replace_char 45 32 (replace_char 95 32 ?kept)"
  have chars: "\<forall>c\<in>set ?name. 0 < c \<and> c < 128"
    by (auto simp: replace_char_def ascii_defs dest!: in_set_takeD)
  then have "byte_len ?name = length ?name" by (intro byte_len_ascii) blast
  also have "length ?name \<le> 64" by (simp add: replace_char_def)
  finally have len: "byte_len ?name \<le> 64" .
  have "byte_len (lit ''Used a tool'') = 11" "byte_len (lit ''Ran '') = 4" by code_simp+
  moreover have "trim (lit ''Used a tool'') \<noteq> []" "\<not> contains_any [0] (lit ''Used a tool'')"
      "\<not> contains_any [0] (lit ''Ran '')"
    by code_simp+
  moreover have "\<not> contains_any [0] ?name" using chars by (auto simp: contains_any_def)
  moreover have "trim (lit ''Ran '' @ s) \<noteq> []" for s
    by (simp add: trim_eq_Nil lit_def is_whitespace_def)
  ultimately show ?thesis using len
    by (auto simp: safe_tool_name_def Let_def action_ok_def)
qed

text \<open>A host that can be the name of a server: a DNS name is at most 253 bytes long.\<close>

definition host_ok :: "ustr \<Rightarrow> bool" where
  "host_ok h \<longleftrightarrow> safe_label h \<and> byte_len h \<le> 253"

lemma safe_web_source_ok:
  assumes "safe_web_source parse s = Some (target, href)"
    and "\<And>url h. parse (src_url s) = Some url \<Longrightarrow> url_host url = Some h \<Longrightarrow> host_ok h"
  shows "target_ok (Some target) \<and> validate_progress_href parse href Cat_Web Op_Read (Some target) = Inr ()"
proof -
  obtain url host where url: "parse (src_url s) = Some url" "url_host url = Some host"
      "validate_progress_href parse (src_url s) Cat_Web Op_Read (Some (lit ''source'')) = Inr ()"
      "href = src_url s"
      "target = (case safe_web_title (src_title s) of None \<Rightarrow> host | Some t \<Rightarrow> t) @ dot @ host"
    using assms(1)
    by (cases "validate_progress_href parse (src_url s) Cat_Web Op_Read (Some (lit ''source''))")
       (auto simp: safe_web_source_def bind_eq_Some_conv Let_def)
  have host: "safe_label host" "byte_len host \<le> 253" using assms(2) [OF url(1,2)] by (auto simp: host_ok_def)
  let ?title = "case safe_web_title (src_title s) of None \<Rightarrow> host | Some t \<Rightarrow> t"
  have title: "safe_label ?title" "byte_len ?title \<le> 253"
    using host by (auto simp: safe_web_title_def dest: safe_value_label split: option.splits)
  have "safe_label (?title @ (dot @ host))"
    using title(1) host(1) by (intro safe_label_append) (auto simp: dot_def safe_label_def)
  moreover have "byte_len (dot @ host) = 4 + byte_len host" by (simp add: dot_def utf8_width_def)
  ultimately have "target_ok (Some target)" using title(2) host(2) url(5) by simp
  moreover have "validate_progress_href parse href Cat_Web Op_Read (Some target) = Inr ()"
    using url(3,4) by (auto simp: validate_progress_href_def)
  ultimately show ?thesis by blast
qed

lemma presentation_ok_fetch:
  assumes "\<And>s url h. source = Some s \<Longrightarrow> parse (src_url s) = Some url \<Longrightarrow> url_host url = Some h \<Longrightarrow> host_ok h"
  shows "presentation_ok parse
    (let link = Option.bind source (safe_web_source parse) in
     \<lparr>pres_category = Cat_Web, pres_operation = Op_Read, pres_action = lit ''Read a web source'',
      pres_target = map_option fst link, pres_href = map_option snd link\<rparr>)"
proof -
  have action: "validate_text (lit ''Read a web source'') max_progress_label_bytes m = Inr ()" for m
    by (simp add: validate_text_def progress_limits) code_simp
  show ?thesis
  proof (cases "Option.bind source (safe_web_source parse)")
    case None
    then show ?thesis using action
      by (simp add: presentation_ok_def running_tool_def validate_activity_def validate_target_def)
  next
    case (Some link)
    obtain target href where link: "link = (target, href)" by fastforce
    obtain s where s: "source = Some s" "safe_web_source parse s = Some (target, href)"
      using Some link by (auto simp: bind_eq_Some_conv)
    have "target_ok (Some target)" "validate_progress_href parse href Cat_Web Op_Read (Some target) = Inr ()"
      using safe_web_source_ok [OF s(2)] assms [OF s(1)] by blast+
    then show ?thesis using action Some link target_ok_validates [of "Some target"]
      by (simp add: presentation_ok_def running_tool_def validate_activity_def)
  qed
qed

lemma action_ok_literals:
  "list_all (\<lambda>a. action_ok (lit a))
    [''Searched Memory'', ''Read Memory'', ''Read previous Memory'', ''Searched tools'', ''Opened a tool'',
     ''Searched the web'', ''Checked finance sources'', ''Read macro data'', ''Read financial data'',
     ''Calculated financial data'', ''Resolved a finance entity'', ''Listed current-run results'',
     ''Listed Chat artifacts'', ''Read a Chat artifact'', ''Published a Chat artifact'', ''Read chart data'',
     ''Published a chart'', ''Drafted a Memory update'', ''Read a file'', ''Wrote a file'', ''Edited a file'',
     ''Listed files'', ''Searched files'', ''Searched file contents'', ''Ran a sandboxed calculation'',
     ''Submitted a decision'', ''Created evidence'', ''Read market data'']"
  by code_simp

lemmas action_oks = action_ok_literals [unfolded list.pred_inject simp_thms]

lemmas target_oks =
  target_ok_string target_ok_path target_ok_or_else target_ok_packages target_ok_calculate
  target_ok_join_values flatten_numbers

lemma summarize_ok:
  assumes "numbers_wf args"
    and "\<And>s url h. source = Some s \<Longrightarrow> parse (src_url s) = Some url \<Longrightarrow> url_host url = Some h \<Longrightarrow> host_ok h"
  shows "presentation_ok parse (summarize_tool parse tool_name args source)"
  unfolding summarize_tool_def
  by (intro presentation_ok_if presentation_ok_fetch presentation_ok_plain safe_tool_name_ok
      target_oks target_ok_simps assms) (simp_all add: action_oks assms)

text \<open>The item of a tool call that starts is valid progress: whatever the tool and its arguments,
  its label is one line within its limit that is no path, and its link is checked; for a fetched page
  this holds when the host of its address can be a DNS name.
\<close>

lemma tool_items_validate:
  assumes "validate_id i = Inr ()" "numbers_wf args"
    and "\<And>s url h. source = Some s \<Longrightarrow> parse (src_url s) = Some url \<Longrightarrow> url_host url = Some h \<Longrightarrow> host_ok h"
  shows "validate_item parse False (Tool_Item i (running_tool (summarize_tool parse tool_name args source) at_ms)) = Inr ()"
  using assms summarize_ok [of args source parse tool_name]
  by (simp add: validate_item_def presentation_ok_def)

definition example_url :: parsed_url where
  "example_url = \<lparr>url_scheme = lit ''https'', url_host = Some (lit ''example.com''), url_username = [],
     url_password = None, url_port = None, url_text = lit ''https://example.com/a''\<rparr>"

lemma tool_items_validate_witness:
  "validate_item (\<lambda>_. Some example_url) False
     (Tool_Item (lit ''tool-1'') (running_tool (summarize_tool (\<lambda>_. Some example_url) (lit ''web_fetch'') JNull
        (source_from_url (\<lambda>_. Some example_url) (lit ''https://example.com/a''))) 5)) = Inr ()"
proof (rule tool_items_validate)
  show "validate_id (lit ''tool-1'') = Inr ()" by code_simp
  fix s url h assume "Some example_url = Some url" "url_host url = Some h"
  then have "h = lit ''example.com''" by (auto simp: example_url_def)
  moreover have "host_ok (lit ''example.com'')" by code_simp
  ultimately show "host_ok h" by simp
qed simp

subsection \<open>A page with an IPv6 address\<close>

lemma trim_keeps_two:
  assumes "\<not> is_whitespace c" "\<not> is_whitespace d"
  shows "\<exists>s'. trim (c # d # s) = c # d # s'"
proof -
  have "trim (c # d # s) = trim_end (c # d # s)" using assms by (simp add: trim_def trim_start_def)
  moreover obtain ws where "c # d # s = trim_end (c # d # s) @ ws" "\<forall>c\<in>set ws. is_whitespace c"
    using trim_end_prefix by blast
  ultimately show ?thesis using assms
    by (cases "trim_end (c # d # s)"; cases "tl (trim_end (c # d # s))") (fastforce simp: Cons_eq_append_conv)+
qed

lemma bracket_colon_absolute: "looks_absolute_path (91 # 58 # r)"
proof -
  obtain s' where "trim (91 # 58 # r) = 91 # 58 # s'"
    using trim_keeps_two [of 91 58 r] by (auto simp: is_whitespace_def)
  then show ?thesis by (simp add: looks_absolute_path_def Let_def byte_at_def utf8_char_def)
qed

text \<open>A Chat that fetches a page whose host is an IPv6 literal such as \<open>[::1]\<close> cannot be
  stored: the label repeats the host, whose second byte is a colon, and the validation takes
  it for the path of a drive.
\<close>

lemma ipv6_page_item_invalid:
  assumes "validate_source_url parse u = Some url" "url_host url = Some (lit ''[:'' @ r)"
    and "parse (url_text url) = Some url" "byte_len (url_text url) \<le> 8192"
  shows "validate_item parse durable (Tool_Item i (running_tool
           (summarize_tool parse (lit ''web_fetch'') args (source_from_url parse u)) at_ms)) \<noteq> Inr ()"
proof -
  let ?host = "91 # 58 # r"
  have host: "url_host url = Some ?host" using assms(2) by (simp add: lit_def)
  have source: "source_from_url parse u = Some \<lparr>src_title = ?host, src_url = url_text url\<rparr>"
    using assms(1) host by (simp add: source_from_url_def)
  have "validate_url_shape url"
    using assms(1) by (auto simp: validate_source_url_def bind_eq_Some_conv split: if_splits)
  then have href: "validate_progress_href parse (url_text url) Cat_Web Op_Read (Some (lit ''source'')) = Inr ()"
    using assms(3,4) by (simp add: validate_progress_href_def validate_url_shape_def progress_limits)
  have "\<not> is_control 91" "\<not> is_control 58" "\<not> is_whitespace 91" "\<not> is_whitespace 58"
    by (simp_all add: is_control_def is_whitespace_def)
  then obtain s' where "trim (filter (\<lambda>c. \<not> is_control c) ?host) = 91 # 58 # s'"
    using trim_keeps_two [of 91 58 "filter (\<lambda>c. \<not> is_control c) r"] by auto
  then have "safe_web_title ?host = None"
    by (simp add: safe_web_title_def safe_value_def Let_def bracket_colon_absolute)
  then have "safe_web_source parse \<lparr>src_title = ?host, src_url = url_text url\<rparr> =
      Some (?host @ dot @ ?host, url_text url)"
    using assms(3) host href by (simp add: safe_web_source_def)
  then have "act_target (running_tool (summarize_tool parse (lit ''web_fetch'') args (source_from_url parse u)) at_ms) =
      Some (?host @ dot @ ?host)"
    by (simp add: summarize_tool_def running_tool_def source)
  moreover have "looks_absolute_path (?host @ dot @ ?host)" using bracket_colon_absolute by simp
  ultimately show ?thesis
    by (auto simp: validate_item_def validate_activity_def validate_target_def)
qed

definition loopback_url :: parsed_url where
  "loopback_url = \<lparr>url_scheme = lit ''http'', url_host = Some (lit ''[::1]''), url_username = [],
     url_password = None, url_port = None, url_text = lit ''http://[::1]/''\<rparr>"

lemma ipv6_page_item_invalid_witness:
  "validate_item (\<lambda>_. Some loopback_url) True (Tool_Item (lit ''tool-1'') (running_tool
     (summarize_tool (\<lambda>_. Some loopback_url) (lit ''web_fetch'') JNull
        (source_from_url (\<lambda>_. Some loopback_url) (lit ''http://[::1]''))) 5)) \<noteq> Inr ()"
proof (rule ipv6_page_item_invalid)
  show "validate_source_url (\<lambda>_. Some loopback_url) (lit ''http://[::1]'') = Some loopback_url"
    by code_simp
  show "url_host loopback_url = Some (lit ''[:'' @ lit '':1]'')" by code_simp
  show "byte_len (url_text loopback_url) \<le> 8192" by code_simp
qed simp

end
