(* ===== verification/Progress_Storage.thy ===== *)
theory Progress_Storage
  imports Progress_Replay Label_Safety
begin

text \<open>
  When the progress of a finished run can be stored. Everything the host writes into it is valid by
  construction; what is left is the text of the model: a Chat whose model sent only white
  space before a tool call cannot be stored.
\<close>

subsection \<open>Identifiers are valid\<close>

lemma decimal_length: "n < 10 ^ k \<Longrightarrow> 0 < k \<Longrightarrow> length (decimal n) \<le> k"
proof (induction k arbitrary: n)
  case (Suc k)
  show ?case
  proof (cases "n < 10")
    case True
    then show ?thesis by (subst decimal.simps) simp
  next
    case False
    then have "0 < k" using Suc.prems(1) by (cases k) auto
    moreover have "n div 10 < 10 ^ k" using Suc.prems(1) by (simp add: less_mult_imp_div_less mult.commute)
    ultimately have "length (decimal (n div 10)) \<le> k" by (rule Suc.IH [rotated])
    then show ?thesis using False by (subst decimal.simps) simp
  qed
qed simp

lemma key_id_valid:
  assumes "i \<in> key_ids n" "n \<le> 2 ^ 64"
  shows "validate_id i = Inr ()"
proof -
  obtain pre k where i: "i = pre @ [45] @ decimal k" "k < n"
      "pre \<in> {lit ''commentary'', lit ''tool'', lit ''system''}"
    using assms(1) unfolding key_ids_def by blast
  have "(2::nat) ^ 64 < 10 ^ 20" by simp
  then have "k < 10 ^ 20" using i(2) assms(2) by linarith
  then have digits: "length (decimal k) \<le> 20" by (intro decimal_length) simp_all
  have pre: "length pre \<le> 10" "\<forall>c\<in>set pre. is_ascii_lowercase c"
    using i(3) by (auto simp: lit_def is_ascii_lowercase_def)
  have chars: "\<forall>c\<in>set i. c < 128 \<and> (is_ascii_alphanumeric c \<or> c = 45)"
    using pre(2) decimal_digits [of _ k] unfolding i(1) by (fastforce simp: ascii_defs)
  then have "utf8_encode i = i" "byte_len i = length i"
    by (simp_all add: utf8_encode_ascii byte_len_ascii)
  then show ?thesis
    using chars pre(1) digits i(1) by (auto simp: validate_id_def fail_if_def list_all_iff)
qed

subsection \<open>The items of a run\<close>

fun item_ok :: "(ustr \<Rightarrow> parsed_url option) \<Rightarrow> progress_item \<Rightarrow> bool" where
  "item_ok parse (Commentary i body) = True"
| "item_ok parse (Tool_Item i a) = (validate_activity parse False False a = Inr ())"
| "item_ok parse (System_Item i a) = (validate_activity parse False True a = Inr ())"

text \<open>What the event loop passes on: arguments that are JSON, hosts that can be DNS names, its own labels.\<close>

fun op_ok :: "(ustr \<Rightarrow> parsed_url option) \<Rightarrow> progress_op \<Rightarrow> bool" where
  "op_ok parse (Start_Tool call tool args source at_ms) =
     (numbers_wf args \<and> (case source of None \<Rightarrow> True | Some s \<Rightarrow>
        (case parse (src_url s) of None \<Rightarrow> True | Some url \<Rightarrow>
          (case url_host url of None \<Rightarrow> True | Some h \<Rightarrow> host_ok h))))"
| "op_ok parse (Start_System key operation action target at_ms) =
     (operation \<in> {Op_Retry, Op_Compact, Op_Generic} \<and> action_ok action \<and> target_ok target)"
| "op_ok parse oper = True"

abbreviation items_ok :: "(ustr \<Rightarrow> parsed_url option) \<Rightarrow> projection \<Rightarrow> bool" where
  "items_ok parse p \<equiv> \<forall>item\<in>set (items_of p). item_ok parse item"

lemma activity_finish:
  "validate_activity parse False system a = Inr () \<Longrightarrow>
     validate_activity parse False system (finished_activity failed at_ms a) = Inr ()"
  by (auto simp: validate_activity_def finished_activity_def cong: option.case_cong)

lemma activity_close:
  "validate_activity parse False system a = Inr () \<Longrightarrow>
     validate_activity parse True system (fst (close_activity t stopped a)) = Inr ()"
  by (auto simp: validate_activity_def close_activity_def Let_def cong: option.case_cong)

lemma activity_durable:
  "validate_activity parse True system a = Inr () \<Longrightarrow> validate_activity parse False system a = Inr ()"
  by (auto simp: validate_activity_def)

lemma item_ok_updates:
  "item_ok parse item \<Longrightarrow> item_ok parse (finish_tool_item failed at_ms item)"
  "item_ok parse item \<Longrightarrow> item_ok parse (finish_system_item failed at_ms item)"
  "item_ok parse item \<Longrightarrow> item_ok parse (push_str delta item)"
  "item_ok parse item \<Longrightarrow> item_ok parse (fst (close_item t stopped item))"
  by (cases item; simp add: activity_finish activity_close activity_durable)+

lemma items_ok_modify:
  "\<forall>item\<in>set items. P item \<Longrightarrow> (\<And>item. P item \<Longrightarrow> P (f item)) \<Longrightarrow> \<forall>item\<in>set (modify_at k f items). P item"
  by (auto simp: modify_at_def dest!: set_update_subset_insert [THEN subsetD])

lemma push_items: "push_item pre item p = (i, q) \<Longrightarrow> items_of q = items_of p @ [item i]"
  using push_itemE(2) [of pre item p i q] by simp

lemma finish_keeps_ok:
  assumes "items_ok parse p"
  shows "items_ok parse (snd (finish_progress at_ms stopped p))"
proof -
  have "items_of (fold mark_dirty is q) = items_of q" for "is" q
    by (induction "is" arbitrary: q) simp_all
  then have "items_of (snd (finish_progress at_ms stopped p)) = map fst (map (close_item (max at_ms (pg_started (progress p))) stopped) (items_of p))"
    by (simp add: finish_progress_def Let_def close_commentary_def)
  then show ?thesis using assms by (auto intro: item_ok_updates)
qed

lemma collect_keeps_items: "items_of (snd (collect_upserts is p)) = items_of p"
  by (induction "is" p rule: collect_upserts.induct) (auto simp: Let_def split: option.splits prod.splits)

lemma append_keeps_ok:
  assumes "items_ok parse p" "append_commentary delta p = Some q"
  shows "items_ok parse q"
proof (cases "delta = []")
  case False
  obtain i r where r: "(case active_commentary p of
         Some i \<Rightarrow> (i, p)
       | None \<Rightarrow>
           let (i, p) = push_item (lit ''commentary'') (\<lambda>i. Commentary i []) p in
           (i, p\<lparr>active_commentary := Some i\<rparr>)) = (i, r)" by fastforce
  have "items_ok parse r"
    using r assms(1) by (auto simp: Let_def push_items split: option.splits prod.splits)
  moreover obtain index where "index < length (items_of r)"
      "q = mark_dirty i (set_items ((items_of r)[index := push_str delta (items_of r ! index)]) r)"
    using assms(2) False r by (auto simp: append_commentary_def Let_def split: option.splits if_splits)
  ultimately show ?thesis
    by (auto dest!: set_update_subset_insert [THEN subsetD] intro: item_ok_updates)
qed (use assms in \<open>simp add: append_commentary_def\<close>)

lemma remove_keeps_ok: "items_ok parse p \<Longrightarrow> remove_item i p = Some q \<Longrightarrow> items_ok parse q"
  by (auto simp: without_remove without_def Let_def split: option.splits if_splits
      dest!: in_set_takeD in_set_dropD)

lemma step_keeps_ok:
  assumes ok: "items_ok parse p" "op_ok parse oper" and step: "progress_step parse oper p = Some (patches, q)"
  shows "items_ok parse q"
proof (cases oper)
  case Start_Turn
  then show ?thesis using step ok by (auto simp: start_assistant_turn_def)
next
  case (Append delta)
  then show ?thesis using step append_keeps_ok [OF ok(1)] by auto
next
  case (Finish_Turn is_final)
  show ?thesis
  proof (cases "is_final \<and> active_commentary p \<noteq> None")
    case True
    then show ?thesis using step Finish_Turn ok(1) remove_keeps_ok [of "p\<lparr>active_commentary := None\<rparr>" parse]
      by (auto simp: finish_assistant_turn_def)
  qed (use step Finish_Turn ok(1) in \<open>auto simp: finish_assistant_turn_def split: if_splits\<close>)
next
  case (Start_Tool call tool args source at_ms)
  have "presentation_ok parse (summarize_tool parse tool args source)"
    using ok(2) Start_Tool by (intro summarize_ok) auto
  then have "items_ok parse (start_tool parse call tool args source at_ms p)"
    using ok(1) by (auto simp: start_tool_def push_items presentation_ok_def split: prod.splits)
  then show ?thesis using step Start_Tool by auto
next
  case (Finish_Tool call failed at_ms)
  have "items_of (finish_tool call failed at_ms p) = items_of p \<or>
      (\<exists>k. items_of (finish_tool call failed at_ms p) = modify_at k (finish_tool_item failed at_ms) (items_of p))"
    by (auto simp: finish_tool_def Let_def split: option.splits)
  moreover have "\<forall>item\<in>set (modify_at k (finish_tool_item failed at_ms) (items_of p)). item_ok parse item" for k
    using ok(1) item_ok_updates(1) by (rule items_ok_modify)
  ultimately have "items_ok parse (finish_tool call failed at_ms p)" using ok(1) by auto
  then show ?thesis using step Finish_Tool by simp
next
  case (Start_System key operation action target at_ms)
  then have "items_ok parse (start_system key operation action target at_ms p)"
    using ok target_ok_validates [of target]
    by (auto simp: start_system_def push_items validate_activity_def action_ok_def validate_text_def progress_limits
        split: prod.splits)
  then show ?thesis using step Start_System by auto
next
  case (Finish_System key failed at_ms)
  have "items_of (finish_system key failed at_ms p) = items_of p \<or>
      (\<exists>k. items_of (finish_system key failed at_ms p) = modify_at k (finish_system_item failed at_ms) (items_of p))"
    by (auto simp: finish_system_def Let_def split: option.splits)
  moreover have "\<forall>item\<in>set (modify_at k (finish_system_item failed at_ms) (items_of p)). item_ok parse item" for k
    using ok(1) item_ok_updates(2) by (rule items_ok_modify)
  ultimately have "items_ok parse (finish_system key failed at_ms p)" using ok(1) by auto
  then show ?thesis using step Finish_System by simp
next
  case (Finish at_ms stopped)
  then show ?thesis using step finish_keeps_ok [OF ok(1)] by auto
next
  case Emit
  then show ?thesis using step ok(1) collect_keeps_items [of "dirty_item_ids p" "p\<lparr>dirty_item_ids := []\<rparr>"]
    by (auto simp: take_patch_def Let_def split: prod.splits option.splits if_splits)
qed

lemma run_keeps_ok:
  "items_ok parse p \<Longrightarrow> \<forall>oper\<in>set opers. op_ok parse oper \<Longrightarrow> run_progress parse opers p = Some (patches, q) \<Longrightarrow>
     items_ok parse q"
proof (induction opers arbitrary: p patches)
  case (Cons oper opers)
  obtain ps r more where "progress_step parse oper p = Some (ps, r)" "run_progress parse opers r = Some (more, q)"
    using Cons.prems(3) by (auto simp: bind_eq_Some_conv)
  then show ?case using Cons.IH [of r more] step_keeps_ok [of p parse oper ps r] Cons.prems(1,2) by auto
qed simp

lemma patches_keep_start: "pg_started (st_progress (fold apply_patch patches st)) = pg_started (st_progress st)"
proof (induction patches arbitrary: st)
  case (Cons patch patches)
  have "pg_started (st_progress (apply_patch patch st)) = pg_started (st_progress st)"
    by (simp add: apply_patch_def Let_def case_prod_beta)
  then show ?case using Cons by simp
qed simp

lemma fold_mark_progress: "progress (fold mark_dirty is q) = progress q"
  by (induction "is" arbitrary: q) simp_all

lemma finished_fields:
  assumes "fst (finish_progress at_ms stopped p) = Some pr"
  shows "pg_started pr = pg_started (progress p)"
    "pg_finished pr = Some (max at_ms (pg_started (progress p)))"
    "pg_items pr = map (\<lambda>item. fst (close_item (max at_ms (pg_started (progress p))) stopped item)) (items_of p)"
  using assms by (auto simp: finish_progress_def Let_def close_commentary_def fold_mark_progress split: if_splits)

lemma closed_item_durable:
  assumes "item_ok parse item" "validate_id (item_id item) = Inr ()"
  shows "validate_item parse True (fst (close_item t stopped item)) = Inr () \<longleftrightarrow>
    (\<forall>i body. item = Commentary i body \<longrightarrow>
       validate_text body max_progress_text_bytes (lit ''chat progress commentary is invalid'') = Inr ())"
  using assms by (cases item) (auto simp: validate_item_def activity_close)

lemma closed_commentary: "fst (close_item t stopped item) = Commentary i body \<longleftrightarrow> item = Commentary i body"
  by (cases item) auto

subsection \<open>Storing the progress\<close>


text \<open>A turn as the model sends it: white space, a call of the tool, and the answer.\<close>

definition blank_turn :: "progress_op list" where
  "blank_turn =
     [Start_Turn, Append [10, 10], Finish_Turn False,
      Start_Tool (lit ''c1'') (lit ''read'') JNull None 5, Finish_Tool (lit ''c1'') False 9,
      Start_Turn, Append (lit ''Done.''), Finish_Turn True, Emit]"

definition stored_result ::
  "(ustr \<Rightarrow> parsed_url option) \<Rightarrow> progress_op list \<Rightarrow> int \<Rightarrow> int \<Rightarrow> unit domain_result option" where
  "stored_result parse opers started_at finished_at =
     Option.bind (run_progress parse opers (new_projection started_at)) (\<lambda>(patches, p).
     map_option (validate_progress parse True) (fst (finish_progress finished_at False p)))"


text \<open>
  A run whose model sends two line feeds before it calls a tool cannot be stored: the line
  feeds become an item of the progress, and the validation of the stored progress refuses it.
\<close>

theorem blank_commentary_not_stored:
  "stored_result (\<lambda>_. None) blank_turn 1 20 = Some (Inl (lit ''chat progress commentary is invalid''))"
  by code_simp

end
