(* ===== verification/Pi_Response.thy ===== *)
theory Pi_Response
  imports Host_Text Json_Value
begin

text \<open>
  The answer of an assistant turn (\<^theory_text>\<open>pi_response.rs\<close>): the text the model streams is
  checked against the message that ends it, and only the text of a last message that stopped is the
  answer. The payloads are JSON values; an error leaves the capture as it was.
\<close>

subsection \<open>The capture\<close>

record capture =
  cap_active :: bool
  cap_streamed_text :: ustr
  cap_completed_text :: "ustr option"
  cap_last_stop_reason :: "ustr option"

definition capture_default :: capture where
  "capture_default = \<lparr>cap_active = False, cap_streamed_text = [], cap_completed_text = None,
     cap_last_stop_reason = None\<rparr>"

datatype assistant_turn_end = End_Stop ustr | End_Tool_Use ustr | End_Length | End_Error | End_Aborted

definition saturating_add64 :: "nat \<Rightarrow> nat \<Rightarrow> nat" where
  "saturating_add64 a b = min (2 ^ 64 - 1) (a + b)"

definition is_assistant :: "json \<Rightarrow> bool" where
  "is_assistant message \<longleftrightarrow> get_str (lit ''role'') message = Some (lit ''assistant'')"

fun is_object :: "json \<Rightarrow> bool" where
  "is_object (JObject members) = True"
| "is_object value = False"

definition observe_message_start :: "json \<Rightarrow> capture \<Rightarrow> ustr + capture" where
  "observe_message_start payload c =
     (case jget (lit ''message'') payload of
        None \<Rightarrow> Inl (lit ''Pi message_start omitted its message'')
      | Some message \<Rightarrow>
          if \<not> is_assistant message then Inr c
          else if cap_active c
          then Inl (lit ''Pi started an assistant message before ending the previous message'')
          else Inr (c\<lparr>cap_active := True, cap_streamed_text := []\<rparr>))"

definition observe_text_delta :: "ustr \<Rightarrow> nat \<Rightarrow> capture \<Rightarrow> ustr + capture" where
  "observe_text_delta delta max_output_bytes c =
     (if \<not> cap_active c then Inl (lit ''Pi streamed assistant text outside a message'')
      else if saturating_add64 (byte_len (cap_streamed_text c)) (byte_len delta) > max_output_bytes
      then Inl (lit ''Pi assistant message exceeded its output limit'')
      else Inr (c\<lparr>cap_streamed_text := cap_streamed_text c @ delta\<rparr>))"

fun assistant_blocks :: "nat \<Rightarrow> json list \<Rightarrow> ustr \<Rightarrow> ustr + ustr" where
  "assistant_blocks max_output_bytes [] body = Inr body"
| "assistant_blocks max_output_bytes (block # blocks) body =
     (let kind = get_str (lit ''type'') block in
      if kind = Some (lit ''text'') then
        (case get_str (lit ''text'') block of
           None \<Rightarrow> Inl (lit ''Pi assistant text block is malformed'')
         | Some v \<Rightarrow>
             if saturating_add64 (byte_len body) (byte_len v) > max_output_bytes
             then Inl (lit ''Pi assistant message exceeded its output limit'')
             else assistant_blocks max_output_bytes blocks (body @ v))
      else if kind = Some (lit ''thinking'') then
        (if get_str (lit ''thinking'') block = None
         then Inl (lit ''Pi assistant thinking block is malformed'')
         else assistant_blocks max_output_bytes blocks body)
      else if kind = Some (lit ''toolCall'') then
        (if get_str (lit ''id'') block = None \<or> get_str (lit ''name'') block = None \<or>
            \<not> (case jget (lit ''arguments'') block of None \<Rightarrow> False | Some v \<Rightarrow> is_object v)
         then Inl (lit ''Pi assistant tool call is malformed'')
         else assistant_blocks max_output_bytes blocks body)
      else Inl (lit ''Pi assistant message contains an unknown content block''))"

definition assistant_text :: "json \<Rightarrow> nat \<Rightarrow> ustr + ustr" where
  "assistant_text message max_output_bytes =
     (case get_array (lit ''content'') message of
        None \<Rightarrow> Inl (lit ''Pi assistant message content is malformed'')
      | Some blocks \<Rightarrow> assistant_blocks max_output_bytes blocks [])"

definition stop_reasons :: "ustr list" where
  "stop_reasons = [lit ''stop'', lit ''length'', lit ''toolUse'', lit ''error'', lit ''aborted'']"

definition observe_message_end ::
  "json \<Rightarrow> nat \<Rightarrow> capture \<Rightarrow> ustr + assistant_turn_end option \<times> capture" where
  "observe_message_end payload max_output_bytes c =
     (case jget (lit ''message'') payload of
        None \<Rightarrow> Inl (lit ''Pi message_end omitted its message'')
      | Some message \<Rightarrow>
          if \<not> is_assistant message then Inr (None, c)
          else if \<not> cap_active c
          then Inl (lit ''Pi ended an assistant message that was not started'')
          else and_then (assistant_text message max_output_bytes) (\<lambda>authoritative.
            if cap_streamed_text c \<noteq> authoritative
            then Inl (lit ''Pi streamed assistant text did not match message_end'')
            else and_then (ok_or (lit ''Pi assistant message omitted its stop reason'')
                (get_str (lit ''stopReason'') message)) (\<lambda>reason.
              if reason \<notin> set stop_reasons
              then Inl (lit ''Pi assistant message used an unknown stop reason'')
              else
                let c = c\<lparr>cap_active := False, cap_last_stop_reason := Some reason\<rparr> in
                if reason = lit ''stop'' then
                  Inr (Some (End_Stop authoritative), c\<lparr>cap_completed_text := Some authoritative\<rparr>)
                else if reason = lit ''toolUse'' then Inr (Some (End_Tool_Use authoritative), c)
                else if reason = lit ''length'' then Inr (Some End_Length, c)
                else if reason = lit ''error'' then Inr (Some End_Error, c)
                else if reason = lit ''aborted'' then Inr (Some End_Aborted, c)
                else Inl (lit ''Pi assistant message used an unknown stop reason''))))"

definition finish_settled :: "capture \<Rightarrow> ustr + ustr" where
  "finish_settled c =
     (if cap_active c then Inl (lit ''Pi settled with an unfinished assistant message'')
      else case cap_last_stop_reason c of
        None \<Rightarrow> Inl (lit ''Pi settled without an assistant message'')
      | Some reason \<Rightarrow>
          if reason = lit ''stop'' then
            ok_or (lit ''Pi settled without authoritative assistant text'') (cap_completed_text c)
          else if reason = lit ''length'' then Inl (lit ''Pi assistant response reached its length limit'')
          else if reason = lit ''toolUse'' then Inl (lit ''Pi settled with an incomplete tool request'')
          else if reason = lit ''error'' then Inl (lit ''Pi provider turn failed'')
          else if reason = lit ''aborted'' then Inl (lit ''Pi assistant turn was aborted'')
          else Inl (lit ''Pi assistant message used an unknown stop reason''))"

subsection \<open>A turn\<close>

datatype turn_event = Message_Start json | Text_Delta ustr | Message_End json

fun observe :: "nat \<Rightarrow> turn_event \<Rightarrow> capture \<Rightarrow> ustr + capture" where
  "observe limit (Message_Start payload) c = observe_message_start payload c"
| "observe limit (Text_Delta delta) c = observe_text_delta delta limit c"
| "observe limit (Message_End payload) c = and_then (observe_message_end payload limit c) (\<lambda>(e, c). Inr c)"

fun observe_all :: "nat \<Rightarrow> turn_event list \<Rightarrow> capture \<Rightarrow> ustr + capture" where
  "observe_all limit [] c = Inr c"
| "observe_all limit (e # es) c = and_then (observe limit e c) (observe_all limit es)"

text \<open>The reference: the assistant's messages as they stand in the sequence of events.\<close>

definition assistant_message :: "json \<Rightarrow> json option" where
  "assistant_message payload =
     (case jget (lit ''message'') payload of
        None \<Rightarrow> None | Some message \<Rightarrow> if is_assistant message then Some message else None)"

fun quiet :: "turn_event \<Rightarrow> bool" where
  "quiet (Message_Start payload) = (assistant_message payload = None)"
| "quiet (Text_Delta delta) = False"
| "quiet (Message_End payload) = (assistant_message payload = None)"

fun in_message :: "turn_event \<Rightarrow> bool" where
  "in_message (Text_Delta delta) = True"
| "in_message e = quiet e"

fun delta_of :: "turn_event \<Rightarrow> ustr" where
  "delta_of (Text_Delta delta) = delta"
| "delta_of e = []"

definition streamed :: "turn_event list \<Rightarrow> ustr" where
  "streamed es = concat (map delta_of es)"

definition message_so_far :: "turn_event list \<Rightarrow> ustr \<Rightarrow> bool" where
  "message_so_far es body \<longleftrightarrow> (\<exists>before payload inner. es = before @ Message_Start payload # inner \<and>
     assistant_message payload \<noteq> None \<and> list_all in_message inner \<and> streamed inner = body)"

definition last_message :: "turn_event list \<Rightarrow> ustr \<Rightarrow> ustr \<Rightarrow> bool" where
  "last_message es reason body \<longleftrightarrow> (\<exists>before payload message after.
     es = before @ Message_End payload # after \<and> message_so_far before body \<and>
     assistant_message payload = Some message \<and> get_str (lit ''stopReason'') message = Some reason \<and>
     list_all quiet after)"

lemma observe_all_append:
  "observe_all limit (es @ fs) c = and_then (observe_all limit es c) (observe_all limit fs)"
proof (induction es arbitrary: c)
  case (Cons e es)
  then show ?case by (cases "observe limit e c") simp_all
qed simp

lemma quiet_observe: "quiet e \<Longrightarrow> observe limit e c = Inr c' \<Longrightarrow> c' = c"
  by (cases e) (auto simp: observe_message_start_def observe_message_end_def assistant_message_def
      split: option.splits if_splits)

lemma observe_start:
  assumes "observe limit (Message_Start payload) c = Inr c'" "assistant_message payload \<noteq> None"
  shows "\<not> cap_active c" "c' = c\<lparr>cap_active := True, cap_streamed_text := []\<rparr>"
  using assms by (auto simp: observe_message_start_def assistant_message_def split: option.splits if_splits)

lemma observe_end:
  assumes "observe limit (Message_End payload) c = Inr c'" "assistant_message payload = Some message"
  obtains reason where "cap_active c" "assistant_text message limit = Inr (cap_streamed_text c)"
    "get_str (lit ''stopReason'') message = Some reason"
    "c' = (if reason = lit ''stop''
       then c\<lparr>cap_active := False, cap_last_stop_reason := Some reason, cap_completed_text := Some (cap_streamed_text c)\<rparr>
       else c\<lparr>cap_active := False, cap_last_stop_reason := Some reason\<rparr>)"
  using assms
  by (auto simp: observe_message_end_def assistant_message_def Let_def split: option.splits if_splits)

lemma message_so_far_extend:
  "message_so_far es body \<Longrightarrow> in_message e \<Longrightarrow> message_so_far (es @ [e]) (body @ delta_of e)"
  unfolding message_so_far_def streamed_def by fastforce

lemma last_message_extend: "last_message es reason body \<Longrightarrow> quiet e \<Longrightarrow> last_message (es @ [e]) reason body"
  unfolding last_message_def by fastforce

text \<open>What the capture knows after the events.\<close>

definition capture_inv :: "nat \<Rightarrow> turn_event list \<Rightarrow> capture \<Rightarrow> bool" where
  "capture_inv limit es c \<longleftrightarrow>
     (if cap_active c then message_so_far es (cap_streamed_text c)
      else case cap_last_stop_reason c of
        None \<Rightarrow> list_all quiet es
      | Some reason \<Rightarrow> \<exists>body. last_message es reason body \<and> byte_len body \<le> limit \<and>
          (reason = lit ''stop'' \<longrightarrow> cap_completed_text c = Some body)) \<and>
     byte_len (cap_streamed_text c) \<le> limit"

lemma capture_inv_step:
  assumes inv: "capture_inv limit es c" and step: "observe limit e c = Inr c'" and limit: "limit < 2 ^ 64 - 1"
  shows "capture_inv limit (es @ [e]) c'"
proof (cases "quiet e")
  case True
  have same: "c' = c" "in_message e" "delta_of e = []"
    using quiet_observe [OF True step] True by simp (use True in \<open>cases e; simp\<close>)+
  show ?thesis
  proof (cases "cap_active c")
    case active: True
    then show ?thesis using inv same message_so_far_extend [of es "cap_streamed_text c" e]
      by (simp add: capture_inv_def)
  next
    case inactive: False
    show ?thesis
    proof (cases "cap_last_stop_reason c")
      case None
      then show ?thesis using inv inactive same True by (simp add: capture_inv_def)
    next
      case (Some reason)
      then obtain body where "last_message es reason body" "byte_len body \<le> limit"
          "reason = lit ''stop'' \<longrightarrow> cap_completed_text c = Some body"
        using inv inactive by (auto simp: capture_inv_def)
      then show ?thesis using inv inactive same Some last_message_extend [OF _ True]
        by (auto simp: capture_inv_def)
    qed
  qed
next
  case False
  show ?thesis
  proof (cases e)
    case (Message_Start payload)
    then have payload: "assistant_message payload \<noteq> None" using False by simp
    note start = observe_start [OF step [unfolded Message_Start] payload]
    have "message_so_far (es @ [e]) []"
      unfolding message_so_far_def streamed_def using Message_Start payload by fastforce
    then show ?thesis by (simp add: capture_inv_def start(2))
  next
    case (Text_Delta delta)
    have "cap_active c" "c' = c\<lparr>cap_streamed_text := cap_streamed_text c @ delta\<rparr>"
        "byte_len (cap_streamed_text c) + byte_len delta \<le> limit"
      using step limit Text_Delta
      by (auto simp: observe_text_delta_def saturating_add64_def split: if_splits)
    then show ?thesis
      using inv message_so_far_extend [of es "cap_streamed_text c" e] Text_Delta
      by (simp add: capture_inv_def)
  next
    case (Message_End payload)
    then obtain message where message: "assistant_message payload = Some message" using False by auto
    obtain reason where e: "cap_active c" "get_str (lit ''stopReason'') message = Some reason"
        "c' = (if reason = lit ''stop''
           then c\<lparr>cap_active := False, cap_last_stop_reason := Some reason, cap_completed_text := Some (cap_streamed_text c)\<rparr>
           else c\<lparr>cap_active := False, cap_last_stop_reason := Some reason\<rparr>)"
      by (rule observe_end [OF step [unfolded Message_End] message])
    have "last_message (es @ [e]) reason (cap_streamed_text c)"
      unfolding last_message_def using inv e message Message_End
      by (intro exI [of _ es] exI [of _ payload] exI [of _ message] exI [of _ "[]"]) (simp add: capture_inv_def)
    then show ?thesis using inv e by (auto simp: capture_inv_def)
  qed
qed

lemma capture_inv_all:
  assumes "observe_all limit es capture_default = Inr c" "limit < 2 ^ 64 - 1"
  shows "capture_inv limit es c"
  using assms(1)
proof (induction es arbitrary: c rule: rev_induct)
  case Nil
  then show ?case by (auto simp: capture_inv_def capture_default_def)
next
  case (snoc e es)
  then obtain b where "observe_all limit es capture_default = Inr b" "observe limit e b = Inr c"
    by (auto simp: observe_all_append)
  then show ?case using capture_inv_step [OF snoc.IH] assms(2) by blast
qed

lemma finish_settled_Inr:
  "finish_settled c = Inr body \<longleftrightarrow>
     \<not> cap_active c \<and> cap_last_stop_reason c = Some (lit ''stop'') \<and> cap_completed_text c = Some body"
  by (auto simp: finish_settled_def split: option.splits)

text \<open>
  C31: The answer of a turn. When the events of a turn were accepted, the turn settles with an
  answer only if its last assistant message ended with the reason to stop; the answer is the text
  streamed in that message, whole and within the limit.
\<close>

theorem settled_text_is_last_message:
  assumes "observe_all limit es capture_default = Inr c" "finish_settled c = Inr body" "limit < 2 ^ 64 - 1"
  shows "last_message es (lit ''stop'') body \<and> byte_len body \<le> limit"
  using capture_inv_all [OF assms(1,3)] assms(2)
  by (auto simp: finish_settled_Inr capture_inv_def split: if_splits)

definition sample_turn :: "turn_event list" where
  "sample_turn =
    (let assistant = (lit ''role'', JString (lit ''assistant''));
         message = (\<lambda>body reason. JObject [(lit ''message'', JObject [assistant,
           (lit ''content'', JArray [JObject [(lit ''type'', JString (lit ''text'')), (lit ''text'', JString body)]]),
           (lit ''stopReason'', JString reason)])]);
         begin = JObject [(lit ''message'', JObject [assistant])] in
     [Message_Start begin, Text_Delta (lit ''Let me see.''), Message_End (message (lit ''Let me see.'') (lit ''toolUse'')),
      Message_Start begin, Text_Delta (lit ''Do''), Text_Delta (lit ''ne.''),
      Message_End (message (lit ''Done.'') (lit ''stop''))])"

lemma settled_text_is_last_message_witness:
  "last_message sample_turn (lit ''stop'') (lit ''Done.'') \<and> byte_len (lit ''Done.'') \<le> 100"
proof -
  have "case observe_all 100 sample_turn capture_default of Inl e \<Rightarrow> False | Inr c \<Rightarrow> finish_settled c = Inr (lit ''Done.'')"
    by code_simp
  then obtain c where "observe_all 100 sample_turn capture_default = Inr c" "finish_settled c = Inr (lit ''Done.'')"
    by (auto split: sum.splits)
  then show ?thesis by (rule settled_text_is_last_message) simp
qed

end
