(* ===== verification/World_Monad.thy ===== *)
theory World_Monad
  imports Host_Base
begin

text \<open>
  Code that acts on a world: an action returns, raises an error or dies with the process, and leaves
  a world. The rules of \<open>holds\<close> prove what an action guarantees in each of the three cases.
\<close>

datatype ('e, 'a) ending = Returned 'a | Raised 'e | Died

type_synonym ('w, 'e, 'a) action = "'w \<Rightarrow> ('e, 'a) ending \<times> 'w"

definition ret :: "'a \<Rightarrow> ('w, 'e, 'a) action" where
  "ret x w = (Returned x, w)"

definition raise :: "'e \<Rightarrow> ('w, 'e, 'a) action" where
  "raise e w = (Raised e, w)"

text \<open>The \<^theory_text>\<open>?\<close> operator, and a match on the result.\<close>

definition then_do :: "('w, 'e, 'a) action \<Rightarrow> ('a \<Rightarrow> ('w, 'e, 'b) action) \<Rightarrow> ('w, 'e, 'b) action" where
  "then_do m f w =
     (case m w of (Returned x, w') \<Rightarrow> f x w' | (Raised e, w') \<Rightarrow> (Raised e, w') | (Died, w') \<Rightarrow> (Died, w'))"

definition match_result ::
  "('w, 'e, 'a) action \<Rightarrow> ('e + 'a \<Rightarrow> ('w, 'f, 'b) action) \<Rightarrow> ('w, 'f, 'b) action" where
  "match_result m f w =
     (case m w of (Returned x, w') \<Rightarrow> f (Inr x) w' | (Raised e, w') \<Rightarrow> f (Inl e) w' | (Died, w') \<Rightarrow> (Died, w'))"

definition of_sum :: "'e + 'a \<Rightarrow> ('w, 'e, 'a) action" where
  "of_sum r = (case r of Inl e \<Rightarrow> raise e | Inr x \<Rightarrow> ret x)"

fun do_each :: "('a \<Rightarrow> ('w, 'e, unit) action) \<Rightarrow> 'a list \<Rightarrow> ('w, 'e, unit) action" where
  "do_each f [] = ret ()"
| "do_each f (x # xs) = then_do (f x) (\<lambda>_. do_each f xs)"

lemma of_sum_simps [simp]: "of_sum (Inl e) = raise e" "of_sum (Inr x) = ret x"
  by (simp_all add: of_sum_def)

subsection \<open>Triples\<close>

definition holds ::
  "('w \<Rightarrow> bool) \<Rightarrow> ('w, 'e, 'a) action \<Rightarrow> (('e, 'a) ending \<Rightarrow> 'w \<Rightarrow> bool) \<Rightarrow> bool" where
  "holds P m Q \<longleftrightarrow> (\<forall>w. P w \<longrightarrow> Q (fst (m w)) (snd (m w)))"

lemma holdsI: "(\<And>w. P w \<Longrightarrow> Q (fst (m w)) (snd (m w))) \<Longrightarrow> holds P m Q"
  by (simp add: holds_def)

lemma holdsD: "holds P m Q \<Longrightarrow> P w \<Longrightarrow> m w = (r, w') \<Longrightarrow> Q r w'"
  by (force simp: holds_def)

lemma holds_weaken:
  "holds P' m Q' \<Longrightarrow> (\<And>w. P w \<Longrightarrow> P' w) \<Longrightarrow> (\<And>r w. Q' r w \<Longrightarrow> Q r w) \<Longrightarrow> holds P m Q"
  by (auto simp: holds_def)

lemma holds_ret: "(\<And>w. P w \<Longrightarrow> Q (Returned x) w) \<Longrightarrow> holds P (ret x) Q"
  by (simp add: holds_def ret_def)

lemma holds_raise: "(\<And>w. P w \<Longrightarrow> Q (Raised e) w) \<Longrightarrow> holds P (raise e) Q"
  by (simp add: holds_def raise_def)

lemma holds_then:
  assumes "holds P m Q" and "\<And>e w. Q (Raised e) w \<Longrightarrow> R (Raised e) w"
    and "\<And>w. Q Died w \<Longrightarrow> R Died w" and "\<And>x. holds (Q (Returned x)) (f x) R"
  shows "holds P (then_do m f) R"
proof (rule holdsI)
  fix w assume "P w"
  with assms(1) have "Q (fst (m w)) (snd (m w))" by (simp add: holds_def)
  then show "R (fst (then_do m f w)) (snd (then_do m f w))"
    using assms(2-4) by (cases "m w"; cases "fst (m w)") (auto simp: then_do_def holds_def)
qed

lemma holds_match:
  assumes "holds P m Q" and "\<And>w. Q Died w \<Longrightarrow> R Died w"
    and "\<And>e. holds (Q (Raised e)) (f (Inl e)) R" and "\<And>x. holds (Q (Returned x)) (f (Inr x)) R"
  shows "holds P (match_result m f) R"
proof (rule holdsI)
  fix w assume "P w"
  with assms(1) have "Q (fst (m w)) (snd (m w))" by (simp add: holds_def)
  then show "R (fst (match_result m f w)) (snd (match_result m f w))"
    using assms(2-4) by (cases "m w"; cases "fst (m w)") (auto simp: match_result_def holds_def)
qed

lemma holds_if:
  "(c \<Longrightarrow> holds P m Q) \<Longrightarrow> (\<not> c \<Longrightarrow> holds P n Q) \<Longrightarrow> holds P (if c then m else n) Q"
  by simp

lemma holds_conj: "holds P m Q \<Longrightarrow> holds P m R \<Longrightarrow> holds P m (\<lambda>r w. Q r w \<and> R r w)"
  by (simp add: holds_def)

lemma holds_pure: "(\<And>w. P w \<Longrightarrow> c) \<Longrightarrow> (c \<Longrightarrow> holds P m Q) \<Longrightarrow> holds P m Q"
  by (auto simp: holds_def)

lemma holds_of_sum: "holds P (of_sum s) (\<lambda>r w. P w \<and> (\<forall>x. r = Returned x \<longrightarrow> s = Inr x))"
  by (cases s) (simp_all add: holds_ret holds_raise)

text \<open>The usual step: an invariant is kept, and the value returned is known something about.\<close>

lemma holds_step:
  assumes "holds P m (\<lambda>r w. P w \<and> (\<forall>x. r = Returned x \<longrightarrow> A x w))"
    and "\<And>e w. P w \<Longrightarrow> R (Raised e) w" "\<And>w. P w \<Longrightarrow> R Died w"
    and "\<And>x. holds (\<lambda>w. P w \<and> A x w) (f x) R"
  shows "holds P (then_do m f) R"
  by (rule holds_then [OF assms(1)]) (simp_all add: assms(2-4))

text \<open>An invariant that every step of a loop keeps, whatever its ending.\<close>

lemma holds_each:
  assumes "\<And>x. x \<in> set xs \<Longrightarrow> holds P (f x) (\<lambda>r. P)"
  shows "holds P (do_each f xs) (\<lambda>r. P)"
  using assms
proof (induction xs)
  case (Cons x xs)
  show ?case unfolding do_each.simps
    by (rule holds_then [where Q = "\<lambda>r. P"]) (use Cons in auto)
qed (simp add: holds_ret)

end
