(* ===== verification/Process_Lease.thy ===== *)
theory Process_Lease
  imports World_Monad Host_Text
begin

text \<open>
  The leases of child processes (\<^theory_text>\<open>process_lease.rs\<close>, on Linux): a child-led process
  group is recorded in a file before it is used, and the next start stops what a crash left running.

  Every call of the system takes one event of a script: processes may exit or become zombies before
  it, it may fail, with or without its effect, and this process may die, before or after the effect. While
  one of these functions runs, no other process takes over a recorded identifier; between starts
  anything may happen to the table of processes. A signal is logged; what it does to its group
  are events. \<open>nonce\<close> stands for the random name of a new record.
\<close>

subsection \<open>Records and the world\<close>

record start_identity =
  si_source :: ustr
  si_primary :: nat
  si_secondary :: nat

record executable_identity =
  ei_device :: nat
  ei_inode :: nat
  ei_path_sha256 :: ustr

datatype process_kind = Kind_Pi | Kind_Finance | Kind_Compute | Kind_Mcp

record lease_record =
  lr_schema :: nat
  lr_nonce :: ustr
  lr_kind :: process_kind
  lr_leader_pid :: int
  lr_process_group_id :: int
  lr_start :: start_identity
  lr_executable :: executable_identity

record process =
  pr_group :: int
  pr_start :: start_identity
  pr_executable :: executable_identity
  pr_zombie :: bool

datatype lease_error =
  Lease_Io | Unsafe_Filesystem_Entry | Invalid_Record | Limit_Exceeded | Identity_Mismatch
| Unknown_Process_Group | Stop_Timeout

text \<open>What is in a file of the directory: a private regular file with a record, or something else.\<close>

datatype lease_file = Not_Private | Oversized | Not_A_Record | Holds lease_record

datatype os_event =
  Calm | Exits "int list" | Zombies "int list" | Fails lease_error bool | Dies bool

record process_world =
  pw_processes :: "(int \<times> process) list"
  pw_files :: "(ustr \<times> lease_file) list"
  pw_signals :: "(int \<times> nat) list"
  pw_clock :: nat
  pw_events :: "os_event list"

type_synonym 'a lease_action = "(process_world, lease_error, 'a) action"

fun happen :: "os_event \<Rightarrow> process_world \<Rightarrow> process_world" where
  "happen (Exits pids) w = w\<lparr>pw_processes := filter (\<lambda>(pid, p). pid \<notin> set pids) (pw_processes w)\<rparr>"
| "happen (Zombies pids) w = w\<lparr>pw_processes :=
     map (\<lambda>(pid, p). (pid, if pid \<in> set pids then p\<lparr>pr_zombie := True\<rparr> else p)) (pw_processes w)\<rparr>"
| "happen e w = w"

definition ended :: "(lease_error + 'a) \<times> process_world \<Rightarrow> (lease_error, 'a) ending \<times> process_world" where
  "ended rw = (case rw of (Inl e, w) \<Rightarrow> (Raised e, w) | (Inr x, w) \<Rightarrow> (Returned x, w))"

definition os_call :: "(process_world \<Rightarrow> (lease_error + 'a) \<times> process_world) \<Rightarrow> 'a lease_action" where
  "os_call call w =
     (case pw_events w of
        [] \<Rightarrow> ended (call w)
      | e # es \<Rightarrow>
          let w1 = happen e (w\<lparr>pw_events := es\<rparr>) in
          (case e of
             Fails error after \<Rightarrow> (Raised error, if after then snd (call w1) else w1)
           | Dies after \<Rightarrow> (Died, if after then snd (call w1) else w1)
           | _ \<Rightarrow> ended (call w1)))"

definition observe_os :: "(process_world \<Rightarrow> lease_error + 'a) \<Rightarrow> 'a lease_action" where
  "observe_os f = os_call (\<lambda>w. (f w, w))"

subsection \<open>The state of a process group\<close>

datatype group_state = Gone | Zombies_Only | Live

definition group_members :: "int \<Rightarrow> process_world \<Rightarrow> process list" where
  "group_members g w = filter (\<lambda>p. pr_group p = g) (map snd (pw_processes w))"

definition kernel_process_group_exists :: "int \<Rightarrow> bool lease_action" where
  "kernel_process_group_exists g = observe_os (\<lambda>w. Inr (group_members g w \<noteq> []))"

definition linux_process_group_state :: "int \<Rightarrow> group_state lease_action" where
  "linux_process_group_state g =
     then_do (observe_os (\<lambda>w. Inr (length (group_members g w), list_ex (\<lambda>p. \<not> pr_zombie p) (group_members g w))))
       (\<lambda>(members, live).
          if members > 4096 then raise Limit_Exceeded
          else if live then ret Live
          else if members = 0 then
            then_do (kernel_process_group_exists g) (\<lambda>present.
              if \<not> present then ret Gone else raise Unknown_Process_Group)
          else ret Zombies_Only)"

fun group_state_attempts :: "nat \<Rightarrow> int \<Rightarrow> group_state lease_action" where
  "group_state_attempts 0 g = raise Unknown_Process_Group"
| "group_state_attempts (Suc n) g =
     then_do (kernel_process_group_exists g) (\<lambda>present.
       if \<not> present then ret Gone
       else match_result (linux_process_group_state g) (\<lambda>r.
         if r = Inl Unknown_Process_Group \<and> 0 < n then group_state_attempts n g else of_sum r))"

definition process_group_state :: "int \<Rightarrow> group_state lease_action" where
  "process_group_state g = (if g \<le> 1 then raise Invalid_Record else group_state_attempts 4 g)"

text \<open>
  Waiting: the group is polled until it has gone or the deadline has passed; a sleep takes 25 ms at
  least. The first argument bounds the rounds, None is a loop still running
  (\<open>poll_group_ends\<close> shows that the bound used is enough).
\<close>

definition sleep_poll :: "nat lease_action" where
  "sleep_poll w = (Returned (pw_clock w + 25), w\<lparr>pw_clock := pw_clock w + 25\<rparr>)"

definition now :: "nat lease_action" where
  "now w = (Returned (pw_clock w), w)"

fun poll_group :: "nat \<Rightarrow> int \<Rightarrow> nat \<Rightarrow> bool option lease_action" where
  "poll_group 0 g deadline = ret None"
| "poll_group (Suc rounds) g deadline =
     then_do (process_group_state g) (\<lambda>state.
       if state \<noteq> Live then ret (Some True)
       else then_do now (\<lambda>t.
         if t \<ge> deadline then ret (Some False)
         else then_do sleep_poll (\<lambda>_. poll_group rounds g deadline)))"

definition wait_for_group_exit :: "int \<Rightarrow> nat \<Rightarrow> bool lease_action" where
  "wait_for_group_exit g grace =
     then_do now (\<lambda>t.
     then_do (poll_group (grace div 25 + 2) g (t + grace)) (\<lambda>r. ret (r = Some True)))"

subsection \<open>Queries, signals and files\<close>

definition query_process :: "int \<Rightarrow> process option lease_action" where
  "query_process pid = observe_os (\<lambda>w. Inr (map_of (pw_processes w) pid))"

definition sigterm :: nat where "sigterm = 15"
definition sigkill :: nat where "sigkill = 9"

definition signal_process_group :: "int \<Rightarrow> nat \<Rightarrow> unit lease_action" where
  "signal_process_group g signal =
     (if g \<le> 1 then raise Invalid_Record
      else os_call (\<lambda>w. (Inr (), w\<lparr>pw_signals := pw_signals w @ [(g, signal)]\<rparr>)))"

definition lower_hex :: "ustr \<Rightarrow> bool" where
  "lower_hex s \<longleftrightarrow> list_all (\<lambda>c. is_ascii_digit c \<or> 97 \<le> c \<and> c \<le> 102) s"

definition is_nonce :: "ustr \<Rightarrow> bool" where
  "is_nonce value \<longleftrightarrow> byte_len value = 32 \<and> lower_hex value"

definition is_sha256 :: "ustr \<Rightarrow> bool" where
  "is_sha256 value \<longleftrightarrow> byte_len value = 64 \<and> lower_hex value"

definition lease_file_name :: "ustr \<Rightarrow> ustr" where
  "lease_file_name nonce = lit ''lease-'' @ nonce @ lit ''.json''"

definition nonce_from_file_name :: "ustr \<Rightarrow> ustr option" where
  "nonce_from_file_name name =
     Option.bind (strip_prefix (lit ''lease-'') name) (\<lambda>v.
     Option.bind (strip_suffix (lit ''.json'') v) (\<lambda>nonce.
     if is_nonce nonce then Some nonce else None))"

definition lease_schema :: nat where "lease_schema = 1"
definition max_lease_entries :: nat where "max_lease_entries = 64"

definition linux_source :: ustr where
  "linux_source = lit ''linux_proc_stat_v1''"

definition validate_record :: "lease_record \<Rightarrow> ustr \<Rightarrow> lease_error + unit" where
  "validate_record r file_nonce =
     fail_if (lr_schema r \<noteq> lease_schema \<or> lr_nonce r \<noteq> file_nonce \<or> \<not> is_nonce file_nonce \<or>
         lr_leader_pid r \<le> 1 \<or> lr_process_group_id r \<noteq> lr_leader_pid r \<or>
         si_source (lr_start r) \<noteq> linux_source \<or> ei_device (lr_executable r) = 0 \<or>
         ei_inode (lr_executable r) = 0 \<or> \<not> is_sha256 (ei_path_sha256 (lr_executable r)))
       Invalid_Record"

definition read_record :: "ustr \<Rightarrow> lease_record lease_action" where
  "read_record name = observe_os (\<lambda>w. case map_of (pw_files w) name of
       None \<Rightarrow> Inl Lease_Io
     | Some Not_Private \<Rightarrow> Inl Unsafe_Filesystem_Entry
     | Some Oversized \<Rightarrow> Inl Limit_Exceeded
     | Some Not_A_Record \<Rightarrow> Inl Invalid_Record
     | Some (Holds r) \<Rightarrow> Inr r)"

fun read_records :: "nat \<Rightarrow> ustr list \<Rightarrow> (ustr \<times> lease_record) list lease_action" where
  "read_records n [] = ret []"
| "read_records n (name # names) =
     (if n \<ge> max_lease_entries then raise Limit_Exceeded
      else case nonce_from_file_name name of
        None \<Rightarrow> raise Unsafe_Filesystem_Entry
      | Some nonce \<Rightarrow>
          then_do (read_record name) (\<lambda>r.
          then_do (of_sum (validate_record r nonce)) (\<lambda>_.
          then_do (read_records (Suc n) names) (\<lambda>rest. ret ((name, r) # rest)))))"

definition read_all_records :: "(ustr \<times> lease_record) list lease_action" where
  "read_all_records =
     then_do (observe_os (\<lambda>w. Inr (map fst (pw_files w)))) (\<lambda>names.
     then_do (read_records 0 names) (\<lambda>records. ret (sort_by (\<lambda>a b. compare (fst a) (fst b)) records)))"

definition unlink_file :: "ustr \<Rightarrow> process_world \<Rightarrow> process_world" where
  "unlink_file name w = w\<lparr>pw_files := filter (\<lambda>(n, f). n \<noteq> name) (pw_files w)\<rparr>"

definition sync_directory :: "unit lease_action" where
  "sync_directory = observe_os (\<lambda>w. Inr ())"

definition remove_record :: "ustr \<Rightarrow> unit lease_action" where
  "remove_record name =
     (if nonce_from_file_name name = None then raise Invalid_Record
      else then_do (os_call (\<lambda>w. if map_of (pw_files w) name = None then (Inl Lease_Io, w)
               else (Inr (), unlink_file name w))) (\<lambda>_. sync_directory))"

definition prepare_lease_directory :: "unit lease_action" where
  "prepare_lease_directory = observe_os (\<lambda>w. Inr ())"

subsection \<open>Recovery\<close>

datatype recovery_action = Remove_Lease ustr | Terminate_Group ustr lease_record

definition record_matches :: "lease_record \<Rightarrow> process \<Rightarrow> bool" where
  "record_matches r p \<longleftrightarrow> lr_process_group_id r = pr_group p \<and> lr_start r = pr_start p \<and>
     lr_executable r = pr_executable p"

definition classify_recovery :: "ustr \<Rightarrow> lease_record \<Rightarrow> recovery_action lease_action" where
  "classify_recovery name r =
     then_do (query_process (lr_leader_pid r)) (\<lambda>found. case found of
       Some p \<Rightarrow>
         if \<not> record_matches r p then raise Identity_Mismatch
         else if pr_zombie p then
           then_do (process_group_state (lr_process_group_id r)) (\<lambda>state.
             ret (if state \<noteq> Live then Remove_Lease name else Terminate_Group name r))
         else ret (Terminate_Group name r)
     | None \<Rightarrow>
         then_do (process_group_state (lr_process_group_id r)) (\<lambda>state.
           if state \<noteq> Live then ret (Remove_Lease name) else raise Unknown_Process_Group))"

fun classify_all :: "int set \<Rightarrow> (ustr \<times> lease_record) list \<Rightarrow> recovery_action list lease_action" where
  "classify_all groups [] = ret []"
| "classify_all groups ((name, r) # leases) =
     (if lr_process_group_id r \<in> groups then raise Invalid_Record
      else then_do (classify_recovery name r) (\<lambda>a.
           then_do (classify_all (insert (lr_process_group_id r) groups) leases) (\<lambda>as. ret (a # as))))"

definition stop_group :: "ustr \<Rightarrow> lease_record \<Rightarrow> unit lease_action" where
  "stop_group name r =
     then_do (signal_process_group (lr_process_group_id r) sigterm) (\<lambda>_.
     then_do (wait_for_group_exit (lr_process_group_id r) 1000) (\<lambda>exited.
       if exited then remove_record name
       else
         then_do (signal_process_group (lr_process_group_id r) sigkill) (\<lambda>_.
         then_do (wait_for_group_exit (lr_process_group_id r) 2000) (\<lambda>exited.
           if \<not> exited then raise Stop_Timeout else remove_record name))))"

fun perform :: "recovery_action \<Rightarrow> unit lease_action" where
  "perform (Remove_Lease name) = remove_record name"
| "perform (Terminate_Group name r) =
     then_do (query_process (lr_leader_pid r)) (\<lambda>found. case found of
       Some p \<Rightarrow> if record_matches r p then stop_group name r else raise Identity_Mismatch
     | None \<Rightarrow>
         then_do (process_group_state (lr_process_group_id r)) (\<lambda>state.
           if state \<noteq> Live then remove_record name else raise Unknown_Process_Group))"

definition recover_orphaned_processes :: "unit lease_action" where
  "recover_orphaned_processes =
     then_do prepare_lease_directory (\<lambda>_.
     then_do read_all_records (\<lambda>leases.
     then_do (classify_all {} leases) (\<lambda>actions. do_each perform actions)))"

subsection \<open>Registration\<close>

definition ensure_entry_budget :: "unit lease_action" where
  "ensure_entry_budget = observe_os (\<lambda>w. fail_if (max_lease_entries \<le> length (pw_files w)) Limit_Exceeded)"

definition put_file :: "ustr \<Rightarrow> lease_file \<Rightarrow> process_world \<Rightarrow> process_world" where
  "put_file name f w = w\<lparr>pw_files := (name, f) # filter (\<lambda>(n, f). n \<noteq> name) (pw_files w)\<rparr>"

definition temporary_name :: "ustr \<Rightarrow> ustr" where
  "temporary_name name = [46] @ name @ lit ''.tmp''"

text \<open>The closure: the bytes are written and synced, checked, and renamed into place.\<close>

definition publish_record :: "ustr \<Rightarrow> lease_record \<Rightarrow> unit lease_action" where
  "publish_record name r =
     then_do (os_call (\<lambda>w. (Inr (), put_file (temporary_name name) (Holds r) w))) (\<lambda>_.
     then_do (observe_os (\<lambda>w. Inr ())) (\<lambda>_.
     then_do (os_call (\<lambda>w. (Inr (), put_file name (Holds r) (unlink_file (temporary_name name) w)))) (\<lambda>_.
     sync_directory)))"

definition write_record_atomically :: "ustr \<Rightarrow> lease_record \<Rightarrow> unit lease_action" where
  "write_record_atomically name r =
     then_do ensure_entry_budget (\<lambda>_.
     then_do (os_call (\<lambda>w. if map_of (pw_files w) (temporary_name name) \<noteq> None then (Inl Lease_Io, w)
          else (Inr (), put_file (temporary_name name) Not_A_Record w))) (\<lambda>_.
     match_result (publish_record name r) (\<lambda>result. case result of
       Inr u \<Rightarrow> ret ()
     | Inl e \<Rightarrow>
         match_result (os_call (\<lambda>w. (Inr (), unlink_file (temporary_name name) w))) (\<lambda>_.
         match_result sync_directory (\<lambda>_. raise e)))))"

definition register :: "ustr \<Rightarrow> process_kind \<Rightarrow> int \<Rightarrow> int \<Rightarrow> nat \<times> nat \<Rightarrow> ustr lease_action" where
  "register nonce kind leader_pid process_group_id expected_executable =
     (if leader_pid \<le> 1 \<or> process_group_id \<noteq> leader_pid then raise Invalid_Record
      else
        then_do prepare_lease_directory (\<lambda>_.
        then_do (query_process leader_pid) (\<lambda>found. case found of
          None \<Rightarrow> raise Identity_Mismatch
        | Some p \<Rightarrow>
            if pr_zombie p then raise Identity_Mismatch
            else if pr_group p \<noteq> process_group_id then raise Identity_Mismatch
            else if expected_executable \<noteq> (ei_device (pr_executable p), ei_inode (pr_executable p))
            then raise Identity_Mismatch
            else
              then_do (write_record_atomically (lease_file_name nonce)
                \<lparr>lr_schema = lease_schema, lr_nonce = nonce, lr_kind = kind, lr_leader_pid = leader_pid,
                 lr_process_group_id = process_group_id, lr_start = pr_start p, lr_executable = pr_executable p\<rparr>)
                (\<lambda>_. ret (lease_file_name nonce)))))"

text \<open>\<^theory_text>\<open>complete\<close> of a lease: its record is removed unless its group still runs.\<close>

definition complete_lease :: "ustr \<Rightarrow> int \<Rightarrow> unit lease_action" where
  "complete_lease name g =
     then_do (process_group_state g) (\<lambda>state.
       if state = Live then raise Stop_Timeout else remove_record name)"

end
