(* ===== verification/Process_Recovery.thy ===== *)
theory Process_Recovery
  imports Process_Lease
begin

text \<open>
  What the recovery of processes guarantees: it signals only groups led by the recorded process, and
  none at all when any record is invalid or names another process; it forgets no group that still
  runs; its waiting ends. A registration that dies in the middle blocks every later recovery.
\<close>

subsection \<open>Calls of the system\<close>

definition alive :: "int \<Rightarrow> process_world \<Rightarrow> bool" where
  "alive g w \<longleftrightarrow> list_ex (\<lambda>p. \<not> pr_zombie p) (group_members g w)"

text \<open>Processes only exit or become zombies.\<close>

definition aged :: "process_world \<Rightarrow> process_world \<Rightarrow> bool" where
  "aged w w' \<longleftrightarrow> (\<forall>(pid, p')\<in>set (pw_processes w'). \<exists>p. (pid, p) \<in> set (pw_processes w) \<and>
     (p' = p \<or> p' = p\<lparr>pr_zombie := True\<rparr>))"

lemma aged_refl [simp]: "aged w w"
  by (auto simp: aged_def)

lemma aged_trans: "aged u v \<Longrightarrow> aged v w \<Longrightarrow> aged u w"
  unfolding aged_def by fastforce

lemma aged_happen: "aged w (happen e (w\<lparr>pw_events := es\<rparr>))"
  by (cases e) (auto simp: aged_def)

lemma not_alive_aged: "aged w w' \<Longrightarrow> \<not> alive g w \<Longrightarrow> \<not> alive g w'"
  unfolding alive_def aged_def list_ex_iff group_members_def by fastforce

lemma happen_fields [simp]:
  "pw_files (happen e w) = pw_files w" "pw_signals (happen e w) = pw_signals w" "pw_clock (happen e w) = pw_clock w"
  by (cases e; simp)+

text \<open>What events cannot destroy.\<close>

definition stable :: "(process_world \<Rightarrow> bool) \<Rightarrow> bool" where
  "stable P \<longleftrightarrow> (\<forall>w e es. P w \<longrightarrow> P (happen e (w\<lparr>pw_events := es\<rparr>)))"

lemma stable_happen: "stable P \<Longrightarrow> P w \<Longrightarrow> P (happen e (w\<lparr>pw_events := es\<rparr>))"
  by (simp add: stable_def)

lemma stable_conj: "stable P \<Longrightarrow> stable Q \<Longrightarrow> stable (\<lambda>w. P w \<and> Q w)"
  by (simp add: stable_def)

lemma stable_not_alive: "stable (\<lambda>w. \<not> alive g w)"
  unfolding stable_def using not_alive_aged aged_happen by blast

lemma stable_files: "stable (\<lambda>w. F (pw_files w) (pw_signals w))"
  by (simp add: stable_def)

lemma ended_simps [simp]: "ended (Inl e, w) = (Raised e, w)" "ended (Inr x, w) = (Returned x, w)"
  by (simp_all add: ended_def)

lemma holds_os_call:
  assumes "stable P"
    and "\<And>w e. P w \<Longrightarrow> Q (Raised e) w" "\<And>w e. P w \<Longrightarrow> Q (Raised e) (snd (call w))"
    and "\<And>w. P w \<Longrightarrow> Q Died w" "\<And>w. P w \<Longrightarrow> Q Died (snd (call w))"
    and "\<And>w x w'. P w \<Longrightarrow> call w = (Inr x, w') \<Longrightarrow> Q (Returned x) w'"
  shows "holds P (os_call call) Q"
proof (rule holdsI)
  fix w assume w: "P w"
  have call: "Q (fst (ended (call v))) (snd (ended (call v)))" if "P v" for v
  proof (cases "call v")
    case (Pair r v')
    then show ?thesis using assms(3) [OF that] assms(6) [OF that] by (cases r) auto
  qed
  show "Q (fst (os_call call w)) (snd (os_call call w))"
  proof (cases "pw_events w")
    case Nil
    then show ?thesis using call [OF w] by (simp add: os_call_def)
  next
    case (Cons e es)
    have later: "P (happen e (w\<lparr>pw_events := es\<rparr>))" using assms(1) w by (rule stable_happen)
    then show ?thesis using call [OF later] assms(2-5) Cons
      by (cases e) (auto simp: os_call_def Let_def)
  qed
qed

lemma holds_observe:
  assumes "stable P"
  shows "holds P (observe_os f) (\<lambda>r w. P w \<and> (\<forall>x. r = Returned x \<longrightarrow> f w = Inr x))"
  unfolding observe_os_def by (rule holds_os_call [OF assms]) auto

lemma holds_observe_keep: "stable P \<Longrightarrow> holds P (observe_os f) (\<lambda>r. P)"
  by (rule holds_weaken [OF holds_observe [of P]]) auto

subsection \<open>Groups\<close>

lemma group_members_alive: "group_members g w = [] \<Longrightarrow> \<not> alive g w"
  by (simp add: alive_def)

lemma holds_kernel_exists:
  assumes "stable P"
  shows "holds P (kernel_process_group_exists g) (\<lambda>r w. P w \<and> (r = Returned False \<longrightarrow> \<not> alive g w))"
  unfolding kernel_process_group_exists_def
proof (rule holds_weaken [OF holds_observe [OF assms]])
  fix r w assume "P w \<and> (\<forall>x. r = Returned x \<longrightarrow> Inr (group_members g w \<noteq> []) = Inr x)"
  then show "P w \<and> (r = Returned False \<longrightarrow> \<not> alive g w)"
    using group_members_alive [of g w] by auto
qed

abbreviation tells :: "(process_world \<Rightarrow> bool) \<Rightarrow> int \<Rightarrow> (lease_error, group_state) ending \<Rightarrow> process_world \<Rightarrow> bool" where
  "tells P g \<equiv> \<lambda>r w. P w \<and> (\<forall>s. r = Returned s \<and> s \<noteq> Live \<longrightarrow> \<not> alive g w)"

lemma holds_linux_state:
  assumes "stable P"
  shows "holds P (linux_process_group_state g) (tells P g)"
  unfolding linux_process_group_state_def
proof (rule holds_then [where Q = "\<lambda>r w. P w \<and> (\<forall>x. r = Returned x \<longrightarrow> (\<not> snd x \<longrightarrow> \<not> alive g w))"])
  show "holds P (observe_os (\<lambda>w. Inr (length (group_members g w), list_ex (\<lambda>p. \<not> pr_zombie p) (group_members g w))))
      (\<lambda>r w. P w \<and> (\<forall>x. r = Returned x \<longrightarrow> (\<not> snd x \<longrightarrow> \<not> alive g w)))"
    by (rule holds_weaken [OF holds_observe [OF assms]]) (auto simp: alive_def)
  fix x :: "nat \<times> bool"
  obtain members live where x: "x = (members, live)" by fastforce
  show "holds (\<lambda>w. P w \<and> (\<forall>y. Returned x = Returned y \<longrightarrow> (\<not> snd y \<longrightarrow> \<not> alive g w)))
      (case x of (members, live) \<Rightarrow> if members > 4096 then raise Limit_Exceeded
          else if live then ret Live
          else if members = 0 then
            then_do (kernel_process_group_exists g) (\<lambda>present.
              if \<not> present then ret Gone else raise Unknown_Process_Group)
          else ret Zombies_Only) (tells P g)"
    unfolding x case_prod_conv
  proof (intro holds_if)
    show "holds (\<lambda>w. P w \<and> (\<forall>y. Returned (members, live) = Returned y \<longrightarrow> (\<not> snd y \<longrightarrow> \<not> alive g w)))
        (then_do (kernel_process_group_exists g) (\<lambda>present.
              if \<not> present then ret Gone else raise Unknown_Process_Group)) (tells P g)"
      by (rule holds_then [where Q = "\<lambda>r w. P w \<and> (r = Returned False \<longrightarrow> \<not> alive g w)"])
         (auto intro!: holds_if holds_ret holds_raise holds_weaken [OF holds_kernel_exists [OF assms, of g]])
  qed (auto intro!: holds_ret holds_raise)
qed auto

lemma holds_attempts:
  assumes "stable P"
  shows "holds P (group_state_attempts n g) (tells P g)"
proof (induction n)
  case (Suc n)
  show ?case unfolding group_state_attempts.simps
  proof (rule holds_then [OF holds_kernel_exists [OF assms]])
    fix present
    show "holds (\<lambda>w. P w \<and> (Returned present = Returned False \<longrightarrow> \<not> alive g w))
      (if \<not> present then ret Gone
       else match_result (linux_process_group_state g) (\<lambda>r.
         if r = Inl Unknown_Process_Group \<and> 0 < n then group_state_attempts n g else of_sum r)) (tells P g)"
    proof (intro holds_if)
      show "holds (\<lambda>w. P w \<and> (Returned present = Returned False \<longrightarrow> \<not> alive g w))
        (match_result (linux_process_group_state g) (\<lambda>r.
           if r = Inl Unknown_Process_Group \<and> 0 < n then group_state_attempts n g else of_sum r)) (tells P g)"
        by (rule holds_match [where Q = "tells P g"])
           (auto intro!: holds_ret holds_raise holds_weaken [OF Suc.IH] holds_weaken [OF holds_linux_state [OF assms, of g]])
    qed (auto intro!: holds_ret)
  qed auto
qed (auto intro!: holds_raise)

lemma holds_group_state:
  assumes "stable P"
  shows "holds P (process_group_state g) (tells P g)"
  unfolding process_group_state_def
  by (intro holds_if holds_attempts assms holds_raise) simp

subsection \<open>Waiting\<close>

text \<open>A condition on the processes, the files and the signals does not see the clock.\<close>

definition clockless :: "(process_world \<Rightarrow> bool) \<Rightarrow> bool" where
  "clockless P \<longleftrightarrow> (\<forall>w t. P w \<longrightarrow> P (w\<lparr>pw_clock := t\<rparr>))"

lemma holds_poll:
  assumes "stable P" "clockless P"
  shows "holds P (poll_group n g deadline) (\<lambda>r w. P w \<and> (r = Returned (Some True) \<longrightarrow> \<not> alive g w))"
proof (induction n)
  case (Suc n)
  have sleep: "holds P sleep_poll (\<lambda>r. P)"
    using assms(2) by (simp add: holds_def sleep_poll_def clockless_def)
  have clock: "holds P now (\<lambda>r. P)" by (simp add: holds_def now_def)
  show ?case unfolding poll_group.simps
  proof (rule holds_then [OF holds_group_state [OF assms(1)]])
    fix state
    show "holds (tells P g (Returned state)) (if state \<noteq> Live then ret (Some True)
       else then_do now (\<lambda>t.
         if t \<ge> deadline then ret (Some False)
         else then_do sleep_poll (\<lambda>_. poll_group n g deadline)))
      (\<lambda>r w. P w \<and> (r = Returned (Some True) \<longrightarrow> \<not> alive g w))"
    proof (intro holds_if)
      show "holds (tells P g (Returned state)) (then_do now (\<lambda>t.
         if t \<ge> deadline then ret (Some False)
         else then_do sleep_poll (\<lambda>_. poll_group n g deadline)))
        (\<lambda>r w. P w \<and> (r = Returned (Some True) \<longrightarrow> \<not> alive g w))"
        by (rule holds_then [OF holds_weaken [OF clock]])
           (auto intro!: holds_if holds_ret holds_then [OF sleep] Suc.IH)
    qed (auto intro!: holds_ret)
  qed auto
qed (auto intro!: holds_ret)

lemma holds_wait:
  assumes "stable P" "clockless P"
  shows "holds P (wait_for_group_exit g grace) (\<lambda>r w. P w \<and> (r = Returned True \<longrightarrow> \<not> alive g w))"
  unfolding wait_for_group_exit_def
proof (rule holds_then [where Q = "\<lambda>r. P"])
  show "holds P now (\<lambda>r. P)" by (simp add: holds_def now_def)
  fix t
  show "holds P (then_do (poll_group (grace div 25 + 2) g (t + grace)) (\<lambda>r. ret (r = Some True)))
      (\<lambda>r w. P w \<and> (r = Returned True \<longrightarrow> \<not> alive g w))"
    by (rule holds_then [OF holds_poll [OF assms]]) (auto intro!: holds_ret)
qed auto

lemma state_clock:
  assumes "process_group_state g w = (r, v)"
  shows "pw_clock v = pw_clock w"
proof -
  have "stable (\<lambda>v. pw_clock v = pw_clock w)" by (simp add: stable_def)
  from holdsD [OF holds_group_state [OF this] refl assms] show ?thesis by simp
qed

lemma poll_rounds:
  "deadline \<le> pw_clock w + 25 * n \<Longrightarrow> fst (poll_group (Suc n) g deadline w) \<noteq> Returned None"
proof (induction n arbitrary: w)
  case 0
  obtain r v where state: "process_group_state g w = (r, v)" by fastforce
  then show ?case using 0 state_clock [OF state]
    by (cases r) (auto simp: then_do_def now_def ret_def)
next
  case (Suc n)
  obtain r v where state: "process_group_state g w = (r, v)" by fastforce
  let ?v = "v\<lparr>pw_clock := pw_clock v + 25\<rparr>"
  have "deadline \<le> pw_clock ?v + 25 * n" using Suc.prems state_clock [OF state] by simp
  note later = Suc.IH [OF this]
  show ?case
  proof (cases r)
    case (Returned s)
    then show ?thesis using later state
      by (subst poll_group.simps) (simp add: then_do_def now_def ret_def sleep_poll_def del: poll_group.simps)
  qed (use state in \<open>simp_all add: then_do_def\<close>)
qed

lemma poll_more_rounds:
  "fst (poll_group n g deadline w) \<noteq> Returned None \<Longrightarrow> poll_group (n + k) g deadline w = poll_group n g deadline w"
proof (induction n arbitrary: w)
  case (Suc n)
  obtain r v where state: "process_group_state g w = (r, v)" by fastforce
  show ?case
  proof (cases r)
    case (Returned s)
    then show ?thesis using Suc state
      by (auto simp: then_do_def now_def sleep_poll_def ret_def)
  qed (use Suc state in \<open>auto simp: then_do_def\<close>)
qed (simp add: ret_def)

text \<open>
  C35: Waiting for a group ends: the rounds the wait is given are enough, whatever happens meanwhile,
  since every round sleeps for a poll interval; more rounds change nothing.
\<close>

theorem poll_group_ends:
  assumes "grace div 25 + 2 \<le> rounds"
  shows "poll_group rounds g (pw_clock w + grace) w = poll_group (grace div 25 + 2) g (pw_clock w + grace) w \<and>
    fst (poll_group rounds g (pw_clock w + grace) w) \<noteq> Returned None"
proof -
  have "grace \<le> 25 * (grace div 25 + 1)" by presburger
  then have "fst (poll_group (Suc (grace div 25 + 1)) g (pw_clock w + grace) w) \<noteq> Returned None"
    by (intro poll_rounds) simp
  then have ends: "fst (poll_group (grace div 25 + 2) g (pw_clock w + grace) w) \<noteq> Returned None" by simp
  obtain k where "rounds = grace div 25 + 2 + k" using assms le_Suc_ex by blast
  then show ?thesis using poll_more_rounds [OF ends, of k] ends by simp
qed

subsection \<open>Reading and classifying the records\<close>

definition valid_lease :: "ustr \<Rightarrow> lease_record \<Rightarrow> bool" where
  "valid_lease name r \<longleftrightarrow> (\<exists>nonce. nonce_from_file_name name = Some nonce \<and> validate_record r nonce = Inr ())"

text \<open>While nothing has been done yet.\<close>

definition reading :: "process_world \<Rightarrow> process_world \<Rightarrow> bool" where
  "reading w0 w \<longleftrightarrow> pw_files w = pw_files w0 \<and> pw_signals w = [] \<and> aged w0 w"

lemma stable_aged: "stable (aged w0)"
  unfolding stable_def using aged_trans aged_happen by blast

lemma stable_reading: "stable (reading w0)"
  unfolding reading_def using stable_conj [OF stable_files [of "\<lambda>f s. f = pw_files w0 \<and> s = []"] stable_aged [of w0]]
  by (simp add: conj_assoc)

lemma holds_read_record:
  "holds (reading w0) (read_record name) (\<lambda>r w. reading w0 w \<and>
     (\<forall>x. r = Returned x \<longrightarrow> map_of (pw_files w0) name = Some (Holds x)))"
  unfolding read_record_def
  by (rule holds_weaken [OF holds_observe [OF stable_reading]])
     (auto simp: reading_def split: option.splits lease_file.splits)

abbreviation read_ok :: "process_world \<Rightarrow> (ustr \<times> lease_record) list \<Rightarrow> bool" where
  "read_ok w0 leases \<equiv> \<forall>(name, x)\<in>set leases. map_of (pw_files w0) name = Some (Holds x) \<and> valid_lease name x"

lemma holds_read_records:
  "holds (reading w0) (read_records n names) (\<lambda>r w. reading w0 w \<and>
     (\<forall>leases. r = Returned leases \<longrightarrow> map fst leases = names \<and> read_ok w0 leases))"
proof (induction names arbitrary: n)
  case (Cons name names)
  show ?case
  proof (cases "n \<ge> max_lease_entries \<or> nonce_from_file_name name = None")
    case True
    then show ?thesis by (auto intro!: holds_raise)
  next
    case False
    then obtain nonce where nonce: "nonce_from_file_name name = Some nonce" by auto
    let ?R = "\<lambda>r w. reading w0 w \<and> (\<forall>leases. r = Returned leases \<longrightarrow>
      map fst leases = name # names \<and> read_ok w0 leases)"
    have rest: "holds (reading w0) (then_do (read_records (Suc n) names) (\<lambda>rest. ret ((name, x) # rest))) ?R"
      if "map_of (pw_files w0) name = Some (Holds x)" "validate_record x nonce = Inr ()" for x
      using that nonce
      by (intro holds_step [OF Cons.IH]) (auto intro!: holds_ret simp: valid_lease_def)
    have "holds (reading w0) (then_do (read_record name) (\<lambda>r.
          then_do (of_sum (validate_record r nonce)) (\<lambda>_.
          then_do (read_records (Suc n) names) (\<lambda>rest. ret ((name, r) # rest))))) ?R"
    proof (rule holds_step [OF holds_read_record])
      fix x
      show "holds (\<lambda>w. reading w0 w \<and> map_of (pw_files w0) name = Some (Holds x))
          (then_do (of_sum (validate_record x nonce)) (\<lambda>_.
          then_do (read_records (Suc n) names) (\<lambda>rest. ret ((name, x) # rest)))) ?R"
      proof (rule holds_pure)
        assume known: "map_of (pw_files w0) name = Some (Holds x)"
        show "holds (\<lambda>w. reading w0 w \<and> map_of (pw_files w0) name = Some (Holds x))
          (then_do (of_sum (validate_record x nonce)) (\<lambda>_.
          then_do (read_records (Suc n) names) (\<lambda>rest. ret ((name, x) # rest)))) ?R"
        proof (rule holds_step [OF holds_of_sum])
          fix u
          show "holds (\<lambda>w. (reading w0 w \<and> map_of (pw_files w0) name = Some (Holds x)) \<and> validate_record x nonce = Inr u)
              (then_do (read_records (Suc n) names) (\<lambda>rest. ret ((name, x) # rest))) ?R"
            by (rule holds_pure [where c = "validate_record x nonce = Inr ()"])
               (auto intro: holds_weaken [OF rest [OF known]])
        qed auto
      qed auto
    qed auto
    then show ?thesis using False nonce by simp
  qed
qed (auto intro!: holds_ret)

interpretation lease_order: keyed_order "\<lambda>a b. compare (fst a) (fst b)" "fst :: ustr \<times> lease_record \<Rightarrow> ustr"
  by unfold_locales simp

lemma reading_files: "reading w0 w \<Longrightarrow> pw_files w = pw_files w0"
  by (simp add: reading_def)

lemma holds_read_all:
  "holds (reading w0) read_all_records (\<lambda>r w. reading w0 w \<and>
     (\<forall>leases. r = Returned leases \<longrightarrow> fst ` set leases = fst ` set (pw_files w0) \<and> read_ok w0 leases))"
  unfolding read_all_records_def
proof (rule holds_step)
  show "holds (reading w0) (observe_os (\<lambda>w. Inr (map fst (pw_files w))))
      (\<lambda>r w. reading w0 w \<and> (\<forall>names. r = Returned names \<longrightarrow> names = map fst (pw_files w0)))"
    by (rule holds_weaken [OF holds_observe [OF stable_reading]]) (auto dest: reading_files)
  fix names
  let ?R = "\<lambda>r w. reading w0 w \<and> (\<forall>leases. r = Returned leases \<longrightarrow>
      fst ` set leases = fst ` set (pw_files w0) \<and> read_ok w0 leases)"
  show "holds (\<lambda>w. reading w0 w \<and> names = map fst (pw_files w0))
      (then_do (read_records 0 names) (\<lambda>records. ret (sort_by (\<lambda>a b. compare (fst a) (fst b)) records))) ?R"
  proof (rule holds_pure)
    assume names: "names = map fst (pw_files w0)"
    have "holds (reading w0) (then_do (read_records 0 names) (\<lambda>records. ret (sort_by (\<lambda>a b. compare (fst a) (fst b)) records))) ?R"
    proof (rule holds_step [OF holds_read_records])
      fix records
      show "holds (\<lambda>w. reading w0 w \<and> map fst records = names \<and> read_ok w0 records)
          (ret (sort_by (\<lambda>a b. compare (fst a) (fst b)) records)) ?R"
      proof (rule holds_ret)
        fix w assume w: "reading w0 w \<and> map fst records = names \<and> read_ok w0 records"
        then have "set (map fst records) = set (map fst (pw_files w0))" using names by (simp only:)
        then have "fst ` set records = fst ` set (pw_files w0)" by simp
        then show "?R (Returned (sort_by (\<lambda>a b. compare (fst a) (fst b)) records)) w"
          using w by (simp add: lease_order.set_sort_by)
      qed
    qed auto
    then show "holds (\<lambda>w. reading w0 w \<and> names = map fst (pw_files w0))
      (then_do (read_records 0 names) (\<lambda>records. ret (sort_by (\<lambda>a b. compare (fst a) (fst b)) records))) ?R"
      by (rule holds_weaken) auto
  qed auto
qed auto

text \<open>What an action of the recovery knows.\<close>

fun action_name :: "recovery_action \<Rightarrow> ustr" where
  "action_name (Remove_Lease name) = name"
| "action_name (Terminate_Group name r) = name"

fun action_ok :: "process_world \<Rightarrow> process_world \<Rightarrow> recovery_action \<Rightarrow> bool" where
  "action_ok w0 w (Remove_Lease name) =
     (\<exists>r. map_of (pw_files w0) name = Some (Holds r) \<and> \<not> alive (lr_process_group_id r) w)"
| "action_ok w0 w (Terminate_Group name r) = (map_of (pw_files w0) name = Some (Holds r))"

lemma action_ok_aged: "aged w w' \<Longrightarrow> action_ok w0 w a \<Longrightarrow> action_ok w0 w' a"
  using not_alive_aged by (cases a) auto

lemma stable_actions: "stable (\<lambda>w. \<forall>a\<in>set as. action_ok w0 w a)"
  unfolding stable_def using action_ok_aged aged_happen by blast

lemma holds_query:
  "stable P \<Longrightarrow> holds P (query_process pid) (\<lambda>r w. P w \<and>
     (\<forall>found. r = Returned found \<longrightarrow> map_of (pw_processes w) pid = found))"
  unfolding query_process_def by (rule holds_weaken [OF holds_observe [of P]]) auto

lemma holds_state_step: "stable P \<Longrightarrow>
  holds P (process_group_state g) (\<lambda>r w. P w \<and> (\<forall>s. r = Returned s \<longrightarrow> (s \<noteq> Live \<longrightarrow> \<not> alive g w)))"
  by (rule holds_weaken [OF holds_group_state [of P g]]) auto

lemma holds_classify:
  assumes "map_of (pw_files w0) name = Some (Holds r)" "stable P"
  shows "holds P (classify_recovery name r) (\<lambda>res w. P w \<and>
    (\<forall>a. res = Returned a \<longrightarrow> action_name a = name \<and> action_ok w0 w a))"
  unfolding classify_recovery_def
proof (rule holds_step [OF holds_query [OF assms(2)]])
  fix found
  let ?R = "\<lambda>res w. P w \<and> (\<forall>a. res = Returned a \<longrightarrow> action_name a = name \<and> action_ok w0 w a)"
  have state: "holds P (then_do (process_group_state (lr_process_group_id r)) f) ?R"
    if "\<And>s. holds (\<lambda>w. P w \<and> (s \<noteq> Live \<longrightarrow> \<not> alive (lr_process_group_id r) w)) (f s) ?R" for f
    using that by (intro holds_step [OF holds_state_step [OF assms(2)]]) auto
  have "holds P (case found of
       Some p \<Rightarrow>
         if \<not> record_matches r p then raise Identity_Mismatch
         else if pr_zombie p then
           then_do (process_group_state (lr_process_group_id r)) (\<lambda>state.
             ret (if state \<noteq> Live then Remove_Lease name else Terminate_Group name r))
         else ret (Terminate_Group name r)
     | None \<Rightarrow>
         then_do (process_group_state (lr_process_group_id r)) (\<lambda>state.
           if state \<noteq> Live then ret (Remove_Lease name) else raise Unknown_Process_Group)) ?R"
    using assms(1)
    by (cases found) (auto intro!: holds_if holds_raise holds_ret state split: if_splits)
  then show "holds (\<lambda>w. P w \<and> map_of (pw_processes w) (lr_leader_pid r) = found) (case found of
       Some p \<Rightarrow>
         if \<not> record_matches r p then raise Identity_Mismatch
         else if pr_zombie p then
           then_do (process_group_state (lr_process_group_id r)) (\<lambda>state.
             ret (if state \<noteq> Live then Remove_Lease name else Terminate_Group name r))
         else ret (Terminate_Group name r)
     | None \<Rightarrow>
         then_do (process_group_state (lr_process_group_id r)) (\<lambda>state.
           if state \<noteq> Live then ret (Remove_Lease name) else raise Unknown_Process_Group)) ?R"
    by (rule holds_weaken) auto
qed auto

lemma stable_action: "stable (\<lambda>w. action_ok w0 w a)"
  unfolding stable_def using action_ok_aged aged_happen by blast

lemma holds_classify_all:
  assumes "read_ok w0 leases" "stable P"
  shows "holds P (classify_all groups leases) (\<lambda>res w. P w \<and>
    (\<forall>as. res = Returned as \<longrightarrow> map action_name as = map fst leases \<and> (\<forall>a\<in>set as. action_ok w0 w a)))"
  using assms
proof (induction leases arbitrary: groups P)
  case (Cons lease leases)
  obtain name r where lease: "lease = (name, r)" by fastforce
  let ?R = "\<lambda>res w. P w \<and>
    (\<forall>as. res = Returned as \<longrightarrow> map action_name as = map fst (lease # leases) \<and> (\<forall>a\<in>set as. action_ok w0 w a))"
  have known: "map_of (pw_files w0) name = Some (Holds r)" using Cons.prems(1) lease by simp
  have "holds P (then_do (classify_recovery name r) (\<lambda>a.
       then_do (classify_all (insert (lr_process_group_id r) groups) leases) (\<lambda>as. ret (a # as)))) ?R"
  proof (rule holds_step [OF holds_classify [OF known Cons.prems(2)]])
    fix a
    let ?P = "\<lambda>w. P w \<and> action_name a = name \<and> action_ok w0 w a"
    have "stable ?P" using Cons.prems(2) stable_action [of w0 a] by (auto simp: stable_def)
    with Cons.prems(1) have rest: "holds ?P (classify_all (insert (lr_process_group_id r) groups) leases)
        (\<lambda>res w. ?P w \<and> (\<forall>as. res = Returned as \<longrightarrow>
           map action_name as = map fst leases \<and> (\<forall>a\<in>set as. action_ok w0 w a)))"
      by (intro Cons.IH) simp_all
    show "holds ?P (then_do (classify_all (insert (lr_process_group_id r) groups) leases) (\<lambda>as. ret (a # as))) ?R"
      by (rule holds_step [OF rest]) (auto intro!: holds_ret simp: lease)
  qed auto
  then show ?case by (auto simp: lease intro!: holds_if holds_raise)
qed (auto intro!: holds_ret)

subsection \<open>Acting\<close>

definition all_valid :: "process_world \<Rightarrow> bool" where
  "all_valid w0 \<longleftrightarrow> (\<forall>(name, f)\<in>set (pw_files w0). \<exists>r. f = Holds r \<and> valid_lease name r)"

definition recorded_leader :: "process_world \<Rightarrow> int \<Rightarrow> bool" where
  "recorded_leader w0 g \<longleftrightarrow> (\<exists>name r p. (name, Holds r) \<in> set (pw_files w0) \<and> g = lr_process_group_id r \<and>
     (lr_leader_pid r, p) \<in> set (pw_processes w0) \<and> record_matches r p)"

definition kept :: "process_world \<Rightarrow> process_world \<Rightarrow> bool" where
  "kept w0 w \<longleftrightarrow> (\<forall>name r. (name, Holds r) \<in> set (pw_files w0) \<longrightarrow>
     (name, Holds r) \<in> set (pw_files w) \<or> \<not> alive (lr_process_group_id r) w)"

definition acting :: "process_world \<Rightarrow> process_world \<Rightarrow> bool" where
  "acting w0 w \<longleftrightarrow> kept w0 w \<and> aged w0 w \<and>
     (\<forall>(g, s)\<in>set (pw_signals w). all_valid w0 \<and> recorded_leader w0 g)"

lemma acting_stable: "acting w0 w \<Longrightarrow> aged w v \<Longrightarrow> pw_files v = pw_files w \<Longrightarrow> pw_signals v = pw_signals w \<Longrightarrow> acting w0 v"
  unfolding acting_def kept_def using aged_trans [of w0 w v] not_alive_aged [of w v] by (simp only:) blast

lemma stable_acting: "stable (acting w0)"
  unfolding stable_def using acting_stable aged_happen by fastforce

lemma aged_clock: "aged w (w\<lparr>pw_clock := t\<rparr>)"
  by (auto simp: aged_def)

lemma clockless_acting: "clockless (acting w0)"
  unfolding clockless_def using acting_stable aged_clock by fastforce

lemma aged_unlink: "aged w (unlink_file name w)"
  by (auto simp: aged_def unlink_file_def)

lemma acting_unlink:
  assumes "acting w0 w" "map_of (pw_files w0) name = Some (Holds r)" "\<not> alive (lr_process_group_id r) w"
    and "distinct (map fst (pw_files w0))"
  shows "acting w0 (unlink_file name w)"
proof -
  have "kept w0 (unlink_file name w)"
    unfolding kept_def
  proof (intro allI impI)
    fix n x assume entry: "(n, Holds x) \<in> set (pw_files w0)"
    have dead: "\<not> alive g (unlink_file name w)" if "\<not> alive g w" for g
      using not_alive_aged [OF aged_unlink that] .
    show "(n, Holds x) \<in> set (pw_files (unlink_file name w)) \<or> \<not> alive (lr_process_group_id x) (unlink_file name w)"
    proof (cases "n = name")
      case True
      then have "x = r" using entry assms(2,4) by simp
      then show ?thesis using dead [OF assms(3)] by simp
    next
      case False
      have "(n, Holds x) \<in> set (pw_files w) \<or> \<not> alive (lr_process_group_id x) w"
        using assms(1) entry unfolding acting_def kept_def by blast
      then show ?thesis using False dead by (auto simp: unlink_file_def)
    qed
  qed
  then show ?thesis
    using assms(1) aged_trans [OF _ aged_unlink] unfolding acting_def by (auto simp: unlink_file_def)
qed

lemma holds_remove:
  assumes "distinct (map fst (pw_files w0))" "map_of (pw_files w0) name = Some (Holds r)"
  shows "holds (\<lambda>w. acting w0 w \<and> \<not> alive (lr_process_group_id r) w) (remove_record name) (\<lambda>res. acting w0)"
  unfolding remove_record_def
proof (intro holds_if)
  let ?P = "\<lambda>w. acting w0 w \<and> \<not> alive (lr_process_group_id r) w"
  have stable: "stable ?P" using stable_acting [of w0] stable_not_alive by (rule stable_conj)
  have unlink: "acting w0 (unlink_file name w)" if "?P w" for w
    using acting_unlink [OF _ assms(2) _ assms(1)] that by blast
  have "holds ?P (os_call (\<lambda>w. if map_of (pw_files w) name = None then (Inl Lease_Io, w)
               else (Inr (), unlink_file name w))) (\<lambda>res. acting w0)"
    by (rule holds_os_call [OF stable]) (auto simp: unlink split: if_splits)
  then show "holds ?P (then_do (os_call (\<lambda>w. if map_of (pw_files w) name = None then (Inl Lease_Io, w)
               else (Inr (), unlink_file name w))) (\<lambda>_. sync_directory)) (\<lambda>res. acting w0)"
    by (rule holds_then) (auto simp: sync_directory_def intro: holds_observe_keep stable_acting)
qed (auto intro!: holds_raise)

lemma holds_signal:
  assumes "all_valid w0" "recorded_leader w0 g"
  shows "holds (acting w0) (signal_process_group g signal) (\<lambda>res. acting w0)"
proof -
  have "acting w0 (w\<lparr>pw_signals := pw_signals w @ [(g, signal)]\<rparr>)" if "acting w0 w" for w
  proof -
    have "alive h (w\<lparr>pw_signals := s\<rparr>) = alive h w" for h s by (simp add: alive_def group_members_def)
    then show ?thesis using that assms unfolding acting_def kept_def aged_def by auto
  qed
  then show ?thesis unfolding signal_process_group_def
    by (intro holds_if holds_raise holds_os_call [OF stable_acting]) auto
qed

lemma holds_stop_group:
  assumes "distinct (map fst (pw_files w0))" "map_of (pw_files w0) name = Some (Holds r)"
    and "all_valid w0" "recorded_leader w0 (lr_process_group_id r)"
  shows "holds (acting w0) (stop_group name r) (\<lambda>res. acting w0)"
proof -
  let ?g = "lr_process_group_id r"
  note remove = holds_remove [OF assms(1,2)]
  have wait: "holds (acting w0) (then_do (wait_for_group_exit ?g grace) f) (\<lambda>res. acting w0)"
    if "holds (\<lambda>w. acting w0 w \<and> \<not> alive ?g w) (f True) (\<lambda>res. acting w0)"
      "holds (acting w0) (f False) (\<lambda>res. acting w0)" for f :: "bool \<Rightarrow> unit lease_action" and grace
  proof (rule holds_then [OF holds_wait [OF stable_acting clockless_acting]])
    fix x
    show "holds (\<lambda>w. acting w0 w \<and> (Returned x = Returned True \<longrightarrow> \<not> alive ?g w)) (f x) (\<lambda>res. acting w0)"
      by (cases x) (auto intro: holds_weaken [OF that(1)] holds_weaken [OF that(2)])
  qed auto
  have signal: "holds (acting w0) (then_do (signal_process_group ?g s) f) (\<lambda>res. acting w0)"
    if "\<And>u. holds (acting w0) (f u) (\<lambda>res. acting w0)" for s and f :: "unit \<Rightarrow> unit lease_action"
    by (rule holds_then [OF holds_signal [OF assms(3,4)]]) (auto intro: that)
  show ?thesis unfolding stop_group_def
    by (rule signal, rule wait, simp_all only: if_True if_False not_True_eq_False not_False_eq_True, rule remove,
        rule signal, rule wait, simp_all only: if_True if_False not_True_eq_False not_False_eq_True, rule remove,
        rule holds_raise, assumption)
qed

lemma holds_perform:
  assumes "distinct (map fst (pw_files w0))" "all_valid w0"
  shows "holds (\<lambda>w. acting w0 w \<and> action_ok w0 w a) (perform a) (\<lambda>res. acting w0)"
proof (cases a)
  case (Remove_Lease name)
  show ?thesis
  proof (rule holdsI)
    fix w assume w: "acting w0 w \<and> action_ok w0 w a"
    then obtain r where "map_of (pw_files w0) name = Some (Holds r)" "\<not> alive (lr_process_group_id r) w"
      using Remove_Lease by auto
    then show "acting w0 (snd (perform a w))"
      using holds_remove [OF assms(1)] w Remove_Lease by (auto simp: holds_def)
  qed
next
  case (Terminate_Group name r)
  show ?thesis
  proof (rule holds_pure)
    assume known: "map_of (pw_files w0) name = Some (Holds r)"
    have "holds (acting w0) (perform a) (\<lambda>res. acting w0)"
      unfolding Terminate_Group perform.simps
    proof (rule holds_step [OF holds_query [OF stable_acting]])
      fix found
      show "holds (\<lambda>w. acting w0 w \<and> map_of (pw_processes w) (lr_leader_pid r) = found)
        (case found of
           Some p \<Rightarrow> if record_matches r p then stop_group name r else raise Identity_Mismatch
         | None \<Rightarrow> then_do (process_group_state (lr_process_group_id r)) (\<lambda>state.
             if state \<noteq> Live then remove_record name else raise Unknown_Process_Group)) (\<lambda>res. acting w0)"
      proof (cases found)
        case None
        have "holds (acting w0) (then_do (process_group_state (lr_process_group_id r)) (\<lambda>state.
             if state \<noteq> Live then remove_record name else raise Unknown_Process_Group)) (\<lambda>res. acting w0)"
          by (rule holds_step [OF holds_state_step [OF stable_acting]])
             (auto intro!: holds_raise intro: holds_weaken [OF holds_remove [OF assms(1) known]])
        then show ?thesis unfolding None option.case by (rule holds_weaken) auto
      next
        case (Some p)
        have leader: "recorded_leader w0 (lr_process_group_id r)"
          if seen: "acting w0 w" "map_of (pw_processes w) (lr_leader_pid r) = Some p" "record_matches r p" for w
        proof -
          have "(lr_leader_pid r, p) \<in> set (pw_processes w)" using seen(2) by (rule map_of_SomeD)
          then obtain q where "(lr_leader_pid r, q) \<in> set (pw_processes w0)" "p = q \<or> p = q\<lparr>pr_zombie := True\<rparr>"
            using seen(1) unfolding acting_def aged_def by fastforce
          moreover from this(2) have "record_matches r q" using seen(3) by (auto simp: record_matches_def)
          ultimately show ?thesis using map_of_SomeD [OF known] unfolding recorded_leader_def by blast
        qed
        show ?thesis unfolding Some option.case
        proof (intro holds_if)
          assume matches: "record_matches r p"
          show "holds (\<lambda>w. acting w0 w \<and> map_of (pw_processes w) (lr_leader_pid r) = Some p) (stop_group name r) (\<lambda>res. acting w0)"
          proof (rule holds_pure)
            assume "recorded_leader w0 (lr_process_group_id r)"
            then show "holds (\<lambda>w. acting w0 w \<and> map_of (pw_processes w) (lr_leader_pid r) = Some p) (stop_group name r) (\<lambda>res. acting w0)"
              by (intro holds_weaken [OF holds_stop_group [OF assms(1) known assms(2)]]) auto
          qed (use leader matches in auto)
        qed (auto intro!: holds_raise)
      qed
    qed auto
    then show "holds (\<lambda>w. acting w0 w \<and> action_ok w0 w a) (perform a) (\<lambda>res. acting w0)"
      by (rule holds_weaken) auto
  qed (auto simp: Terminate_Group)
qed

text \<open>What any action keeps: a condition that events, the clock, the log and removals cannot break.\<close>

lemma holds_perform_keep:
  assumes stable: "stable P" and clock: "clockless P"
    and signals: "\<And>w s. P w \<Longrightarrow> P (w\<lparr>pw_signals := s\<rparr>)" and unlink: "\<And>w name. P w \<Longrightarrow> P (unlink_file name w)"
  shows "holds P (perform a) (\<lambda>res. P)"
proof -
  have remove: "holds P (remove_record name) (\<lambda>res. P)" for name
    unfolding remove_record_def sync_directory_def
    by (intro holds_if holds_raise holds_then [where Q = "\<lambda>res. P"] holds_os_call [OF stable]
        holds_observe_keep [OF stable]) (auto simp: unlink split: if_splits)
  have signal: "holds P (signal_process_group g s) (\<lambda>res. P)" for g s
    unfolding signal_process_group_def
    by (intro holds_if holds_raise holds_os_call [OF stable]) (auto simp: signals)
  have wait: "holds P (wait_for_group_exit g t) (\<lambda>res. P)" for g t
    by (rule holds_weaken [OF holds_wait [OF stable clock]]) auto
  have query: "holds P (query_process pid) (\<lambda>res. P)" for pid
    by (rule holds_weaken [OF holds_query [OF stable]]) auto
  have state: "holds P (process_group_state g) (\<lambda>res. P)" for g
    by (rule holds_weaken [OF holds_group_state [OF stable]]) auto
  have step: "holds P (then_do m f) (\<lambda>res. P)" if "holds P m (\<lambda>res. P)" "\<And>x. holds P (f x) (\<lambda>res. P)"
    for m :: "'b lease_action" and f :: "'b \<Rightarrow> unit lease_action"
    by (rule holds_then [OF that(1)]) (auto intro: that(2))
  have stop: "holds P (stop_group name r) (\<lambda>res. P)" for name r
    unfolding stop_group_def by (intro step signal wait holds_if remove holds_raise) auto
  show ?thesis
  proof (cases a)
    case (Terminate_Group name r)
    then show ?thesis
      by (auto intro!: step query state stop remove holds_if holds_raise split: option.split)
  qed (simp add: remove)
qed

lemma aged_signals: "aged v (w\<lparr>pw_signals := s\<rparr>) = aged v w"
  by (simp add: aged_def)

lemma holds_performs:
  assumes "distinct (map fst (pw_files w0))" "all_valid w0"
  shows "holds (\<lambda>w. acting w0 w \<and> (\<forall>a\<in>set as. action_ok w0 w a)) (do_each perform as) (\<lambda>res. acting w0)"
proof (induction as)
  case (Cons a as)
  let ?rest = "\<lambda>w. \<forall>a\<in>set as. action_ok w0 w a"
  have perform: "holds (\<lambda>w. acting w0 w \<and> action_ok w0 w a) (perform a) (\<lambda>res. acting w0)"
    by (rule holds_perform [OF assms])
  have "clockless ?rest" unfolding clockless_def using action_ok_aged aged_clock by blast
  then have rest: "holds ?rest (perform a) (\<lambda>res. ?rest)"
    using action_ok_aged aged_unlink aged_signals
    by (intro holds_perform_keep stable_actions) (blast, metis aged_refl, blast)
  have "holds (\<lambda>w. acting w0 w \<and> (\<forall>a\<in>set (a # as). action_ok w0 w a)) (perform a)
      (\<lambda>res w. acting w0 w \<and> ?rest w)"
    by (rule holds_conj; rule holds_weaken [OF perform] holds_weaken [OF rest]) auto
  then show ?case unfolding do_each.simps
    by (rule holds_then) (auto intro: Cons.IH)
qed (auto intro!: holds_ret)

lemma read_all_valid:
  assumes "fst ` set leases = fst ` set (pw_files w0)" "read_ok w0 leases" "distinct (map fst (pw_files w0))"
  shows "all_valid w0"
  unfolding all_valid_def
proof (clarify)
  fix name f assume entry: "(name, f) \<in> set (pw_files w0)"
  then have "name \<in> fst ` set leases" using assms(1) by force
  then obtain r where "(name, r) \<in> set leases" by auto
  then have "map_of (pw_files w0) name = Some (Holds r)" "valid_lease name r" using assms(2) by auto
  moreover have "map_of (pw_files w0) name = Some f" using entry assms(3) by simp
  ultimately show "\<exists>r. f = Holds r \<and> valid_lease name r" by auto
qed

lemma reading_acting: "reading w0 w \<Longrightarrow> acting w0 w"
  unfolding reading_def acting_def kept_def by simp

lemma holds_recover:
  assumes "distinct (map fst (pw_files w0))"
  shows "holds (reading w0) recover_orphaned_processes (\<lambda>res. acting w0)"
  unfolding recover_orphaned_processes_def
proof (rule holds_then [where Q = "\<lambda>res. reading w0"])
  show "holds (reading w0) prepare_lease_directory (\<lambda>res. reading w0)"
    unfolding prepare_lease_directory_def by (rule holds_observe_keep [OF stable_reading])
  fix u
  show "holds (reading w0) (then_do read_all_records (\<lambda>leases.
      then_do (classify_all {} leases) (\<lambda>actions. do_each perform actions))) (\<lambda>res. acting w0)"
  proof (rule holds_step [OF holds_read_all])
    fix leases
    let ?read = "fst ` set leases = fst ` set (pw_files w0) \<and> read_ok w0 leases"
    show "holds (\<lambda>w. reading w0 w \<and> ?read)
        (then_do (classify_all {} leases) (\<lambda>actions. do_each perform actions)) (\<lambda>res. acting w0)"
    proof (rule holds_pure)
      assume read: ?read
      have "holds (reading w0) (then_do (classify_all {} leases) (\<lambda>actions. do_each perform actions)) (\<lambda>res. acting w0)"
      proof (rule holds_step [OF holds_classify_all [OF conjunct2 [OF read] stable_reading]])
        fix actions
        show "holds (\<lambda>w. reading w0 w \<and> map action_name actions = map fst leases \<and> (\<forall>a\<in>set actions. action_ok w0 w a))
            (do_each perform actions) (\<lambda>res. acting w0)"
          using read_all_valid [OF _ _ assms] read reading_acting
          by (intro holds_weaken [OF holds_performs [OF assms]]) auto
      qed (auto simp: reading_acting)
      then show "holds (\<lambda>w. reading w0 w \<and> ?read)
        (then_do (classify_all {} leases) (\<lambda>actions. do_each perform actions)) (\<lambda>res. acting w0)"
        by (rule holds_weaken) auto
    qed auto
  qed (auto simp: reading_acting)
qed (auto simp: reading_acting)

lemma recover_acting:
  assumes "recover_orphaned_processes w0 = (result, w)" "distinct (map fst (pw_files w0))" "pw_signals w0 = []"
  shows "acting w0 w"
  using holdsD [OF holds_recover [OF assms(2)] _ assms(1)] assms(3) by (simp add: reading_def)


subsection \<open>Completeness\<close>

definition names_in :: "ustr set \<Rightarrow> process_world \<Rightarrow> bool" where
  "names_in N w \<longleftrightarrow> fst ` set (pw_files w) \<subseteq> N"

lemma stable_names: "stable (names_in N)"
  by (simp add: stable_def names_in_def)

lemma clockless_names: "clockless (names_in N)"
  by (simp add: clockless_def names_in_def)

lemma names_unlink: "names_in N w \<Longrightarrow> names_in (N - {name}) (unlink_file name w) \<and> names_in N (unlink_file name w)"
  by (auto simp: names_in_def unlink_file_def)

lemma holds_names_remove:
  "holds (names_in N) (remove_record name) (\<lambda>res w. names_in N w \<and> (res = Returned () \<longrightarrow> names_in (N - {name}) w))"
  unfolding remove_record_def
proof (intro holds_if)
  have "holds (names_in N) (os_call (\<lambda>w. if map_of (pw_files w) name = None then (Inl Lease_Io, w)
               else (Inr (), unlink_file name w)))
      (\<lambda>res w. names_in N w \<and> (\<forall>x. res = Returned x \<longrightarrow> names_in (N - {name}) w))"
    using names_unlink by (intro holds_os_call [OF stable_names]) (auto split: if_splits)
  then show "holds (names_in N) (then_do (os_call (\<lambda>w. if map_of (pw_files w) name = None then (Inl Lease_Io, w)
               else (Inr (), unlink_file name w))) (\<lambda>_. sync_directory))
      (\<lambda>res w. names_in N w \<and> (res = Returned () \<longrightarrow> names_in (N - {name}) w))"
    by (rule holds_step)
       (auto simp: sync_directory_def intro: holds_weaken [OF holds_observe_keep [OF stable_conj [OF stable_names stable_names]]])
qed (auto intro!: holds_raise)

abbreviation removes :: "ustr set \<Rightarrow> ustr \<Rightarrow> (lease_error, unit) ending \<Rightarrow> process_world \<Rightarrow> bool" where
  "removes N name \<equiv> \<lambda>res w. names_in N w \<and> (res = Returned () \<longrightarrow> names_in (N - {name}) w)"

lemma holds_names_perform: "holds (names_in N) (perform a) (removes N (action_name a))"
proof -
  let ?P = "names_in N"
  have signal: "holds ?P (signal_process_group g s) (\<lambda>res. ?P)" for g s
    unfolding signal_process_group_def
    by (intro holds_if holds_raise holds_os_call [OF stable_names]) (force simp: names_in_def)+
  have wait: "holds ?P (wait_for_group_exit g t) (\<lambda>res. ?P)" for g t
    by (rule holds_weaken [OF holds_wait [OF stable_names clockless_names]]) auto
  have query: "holds ?P (query_process pid) (\<lambda>res. ?P)" for pid
    by (rule holds_weaken [OF holds_query [OF stable_names]]) auto
  have state: "holds ?P (process_group_state g) (\<lambda>res. ?P)" for g
    by (rule holds_weaken [OF holds_group_state [OF stable_names]]) auto
  have step: "holds ?P (then_do m f) (removes N name)"
    if "holds ?P m (\<lambda>res. ?P)" "\<And>x. holds ?P (f x) (removes N name)"
    for m :: "'b lease_action" and f :: "'b \<Rightarrow> unit lease_action" and name
    by (rule holds_then [OF that(1)]) (auto intro: that(2))
  have fails: "holds ?P (raise e) (removes N name)" for e name by (rule holds_raise) simp
  have stop: "holds ?P (stop_group name r) (removes N name)" for name r
    unfolding stop_group_def by (intro step signal wait holds_if holds_names_remove fails)
  show ?thesis
  proof (cases a)
    case (Terminate_Group name r)
    show ?thesis unfolding Terminate_Group perform.simps action_name.simps
    proof (rule step [OF query])
      fix found
      show "holds ?P (case found of
           Some p \<Rightarrow> if record_matches r p then stop_group name r else raise Identity_Mismatch
         | None \<Rightarrow> then_do (process_group_state (lr_process_group_id r)) (\<lambda>state.
             if state \<noteq> Live then remove_record name else raise Unknown_Process_Group)) (removes N name)"
        by (cases found) (simp_all only: option.case, (intro step state stop holds_if holds_names_remove fails)+)
    qed
  qed (simp add: holds_names_remove)
qed

lemma holds_names_performs:
  "holds (names_in N) (do_each perform as) (\<lambda>res w. res = Returned () \<longrightarrow> names_in (N - action_name ` set as) w)"
proof (induction as arbitrary: N)
  case (Cons a as)
  show ?case unfolding do_each.simps
  proof (rule holds_then [OF holds_names_perform])
    fix u
    have "N - {action_name a} - action_name ` set as = N - action_name ` set (a # as)" by auto
    then show "holds (removes N (action_name a) (Returned u)) (do_each perform as)
        (\<lambda>res w. res = Returned () \<longrightarrow> names_in (N - action_name ` set (a # as)) w)"
      by (intro holds_weaken [OF Cons.IH [of "N - {action_name a}"]]) auto
  qed auto
qed (auto intro!: holds_ret)

lemma holds_recover_all:
  "holds (reading w0) recover_orphaned_processes (\<lambda>res w. res = Returned () \<longrightarrow> pw_files w = [])"
  unfolding recover_orphaned_processes_def
proof (rule holds_then [where Q = "\<lambda>res. reading w0"])
  show "holds (reading w0) prepare_lease_directory (\<lambda>res. reading w0)"
    unfolding prepare_lease_directory_def by (rule holds_observe_keep [OF stable_reading])
  fix u
  show "holds (reading w0) (then_do read_all_records (\<lambda>leases.
      then_do (classify_all {} leases) (\<lambda>actions. do_each perform actions)))
      (\<lambda>res w. res = Returned () \<longrightarrow> pw_files w = [])"
  proof (rule holds_step [OF holds_read_all])
    fix leases
    let ?read = "fst ` set leases = fst ` set (pw_files w0) \<and> read_ok w0 leases"
    show "holds (\<lambda>w. reading w0 w \<and> ?read)
        (then_do (classify_all {} leases) (\<lambda>actions. do_each perform actions))
        (\<lambda>res w. res = Returned () \<longrightarrow> pw_files w = [])"
    proof (rule holds_pure)
      assume read: ?read
      have "holds (reading w0) (then_do (classify_all {} leases) (\<lambda>actions. do_each perform actions))
          (\<lambda>res w. res = Returned () \<longrightarrow> pw_files w = [])"
      proof (rule holds_step [OF holds_classify_all [OF conjunct2 [OF read] stable_reading]])
        fix actions
        show "holds (\<lambda>w. reading w0 w \<and> map action_name actions = map fst leases \<and> (\<forall>a\<in>set actions. action_ok w0 w a))
            (do_each perform actions) (\<lambda>res w. res = Returned () \<longrightarrow> pw_files w = [])"
        proof (rule holds_pure)
          assume names: "map action_name actions = map fst leases"
          have all: "action_name ` set actions = fst ` set (pw_files w0)"
            using arg_cong [OF names, of set] read by simp
          show "holds (\<lambda>w. reading w0 w \<and> map action_name actions = map fst leases \<and> (\<forall>a\<in>set actions. action_ok w0 w a))
            (do_each perform actions) (\<lambda>res w. res = Returned () \<longrightarrow> pw_files w = [])"
            by (rule holds_weaken [OF holds_names_performs [of "fst ` set (pw_files w0)"]])
               (auto simp: reading_def names_in_def all)
        qed auto
      qed auto
      then show "holds (\<lambda>w. reading w0 w \<and> ?read)
        (then_do (classify_all {} leases) (\<lambda>actions. do_each perform actions))
        (\<lambda>res w. res = Returned () \<longrightarrow> pw_files w = [])"
        by (rule holds_weaken) auto
    qed auto
  qed auto
qed auto

text \<open>
  C32: No orphan is forgotten. However a recovery ends, a recorded group that still has a running
  member keeps its record; after one that succeeds the directory is empty, so no recorded group runs.
\<close>

theorem no_orphan_forgotten:
  assumes "recover_orphaned_processes w0 = (result, w)" "distinct (map fst (pw_files w0))" "pw_signals w0 = []"
    and "(name, Holds r) \<in> set (pw_files w0)" "alive (lr_process_group_id r) w"
  shows "(name, Holds r) \<in> set (pw_files w) \<and> result \<noteq> Returned ()"
proof -
  have kept: "(name, Holds r) \<in> set (pw_files w)"
    using recover_acting [OF assms(1-3)] assms(4,5) unfolding acting_def kept_def by blast
  have "result = Returned () \<longrightarrow> pw_files w = []"
    using holdsD [OF holds_recover_all [of w0] _ assms(1)] assms(3) by (simp add: reading_def)
  with kept show ?thesis by auto
qed

definition sample_nonce :: ustr where
  "sample_nonce = replicate 32 97"

definition sample_start :: start_identity where
  "sample_start = \<lparr>si_source = linux_source, si_primary = 7, si_secondary = 0\<rparr>"

definition sample_executable :: executable_identity where
  "sample_executable = \<lparr>ei_device = 1, ei_inode = 2, ei_path_sha256 = replicate 64 48\<rparr>"

definition sample_lease :: lease_record where
  "sample_lease = \<lparr>lr_schema = 1, lr_nonce = sample_nonce, lr_kind = Kind_Pi, lr_leader_pid = 100,
     lr_process_group_id = 100, lr_start = sample_start, lr_executable = sample_executable\<rparr>"

definition sample_process :: process where
  "sample_process = \<lparr>pr_group = 100, pr_start = sample_start, pr_executable = sample_executable, pr_zombie = False\<rparr>"

text \<open>A leader that ignores the first signal: the second one is sent, and the wait times out.\<close>

definition stubborn_world :: process_world where
  "stubborn_world = \<lparr>pw_processes = [(100, sample_process)], pw_files = [(lease_file_name sample_nonce, Holds sample_lease)],
     pw_signals = [], pw_clock = 0, pw_events = []\<rparr>"

lemma stubborn_run:
  "case recover_orphaned_processes stubborn_world of (result, w) \<Rightarrow>
     result = Raised Stop_Timeout \<and> pw_signals w = [(100, sigterm), (100, sigkill)] \<and> alive 100 w"
  by code_simp


lemma no_orphan_forgotten_witness:
  "\<exists>result w. recover_orphaned_processes stubborn_world = (result, w) \<and>
     (lease_file_name sample_nonce, Holds sample_lease) \<in> set (pw_files w) \<and> result \<noteq> Returned ()"
proof -
  obtain result w where run: "recover_orphaned_processes stubborn_world = (result, w)" by fastforce
  then have "alive 100 w" using stubborn_run by simp
  then have "(lease_file_name sample_nonce, Holds sample_lease) \<in> set (pw_files w) \<and> result \<noteq> Returned ()"
    by (intro no_orphan_forgotten [OF run]) (simp_all add: stubborn_world_def sample_lease_def)
  then show ?thesis using run by blast
qed

lemma poll_group_ends_witness:
  "poll_group 100 100 (pw_clock stubborn_world + 1000) stubborn_world =
     poll_group (1000 div 25 + 2) 100 (pw_clock stubborn_world + 1000) stubborn_world \<and>
   fst (poll_group 100 100 (pw_clock stubborn_world + 1000) stubborn_world) \<noteq> Returned None"
  by (rule poll_group_ends) simp

subsection \<open>A registration that dies\<close>

text \<open>A start: other processes run by then, and other events happen.\<close>

definition restart :: "(int \<times> process) list \<times> os_event list \<Rightarrow> process_world \<Rightarrow> process_world" where
  "restart start w = snd (recover_orphaned_processes
     (w\<lparr>pw_processes := fst start, pw_events := snd start, pw_signals := []\<rparr>))"

lemma not_a_lease_name: "hd name = 46 \<Longrightarrow> nonce_from_file_name name = None"
  by (cases name) (auto simp: nonce_from_file_name_def strip_prefix_def starts_with_def lit_def)

text \<open>A stray file stops the reading, so nothing else happens.\<close>

lemma recover_stray:
  assumes "stray \<in> fst ` set (pw_files w0)" "nonce_from_file_name stray = None" "pw_signals w0 = []"
    and "recover_orphaned_processes w0 = (result, w)"
  shows "result \<noteq> Returned () \<and> pw_files w = pw_files w0 \<and> pw_signals w = []"
proof -
  have "holds (reading w0) recover_orphaned_processes (\<lambda>res w. res \<noteq> Returned () \<and> reading w0 w)"
    unfolding recover_orphaned_processes_def
  proof (rule holds_then [where Q = "\<lambda>res. reading w0"])
    show "holds (reading w0) prepare_lease_directory (\<lambda>res. reading w0)"
      unfolding prepare_lease_directory_def by (rule holds_observe_keep [OF stable_reading])
    fix u
    show "holds (reading w0) (then_do read_all_records (\<lambda>leases.
      then_do (classify_all {} leases) (\<lambda>actions. do_each perform actions)))
      (\<lambda>res w. res \<noteq> Returned () \<and> reading w0 w)"
    proof (rule holds_step [OF holds_read_all])
      fix leases
      show "holds (\<lambda>w. reading w0 w \<and> fst ` set leases = fst ` set (pw_files w0) \<and> read_ok w0 leases)
         (then_do (classify_all {} leases) (\<lambda>actions. do_each perform actions))
         (\<lambda>res w. res \<noteq> Returned () \<and> reading w0 w)"
      proof (rule holds_pure)
        fix w assume "reading w0 w \<and> fst ` set leases = fst ` set (pw_files w0) \<and> read_ok w0 leases"
        then have "stray \<in> fst ` set leases" "read_ok w0 leases" using assms(1) by simp_all
        then obtain r where "valid_lease stray r" by fastforce
        then show False using assms(2) by (simp add: valid_lease_def)
      qed simp
    qed auto
  qed auto
  from holdsD [OF this _ assms(4)] assms(3) show ?thesis by (simp add: reading_def)
qed

text \<open>
  C34: A registration that dies blocks every later start. Once its temporary file has been created and not
  yet renamed, the file stays, whatever happens in the starts after it, and every recovery fails
  without stopping anything, so the orphans of that crash keep running.
\<close>

theorem torn_registration_blocks_recovery:
  assumes "temporary_name (lease_file_name nonce) \<in> fst ` set (pw_files w)"
    and "recover_orphaned_processes ((fold restart starts w)\<lparr>pw_processes := ps, pw_events := es, pw_signals := []\<rparr>) =
      (result, w')"
  shows "result \<noteq> Returned () \<and> pw_signals w' = [] \<and> pw_files w' = pw_files w"
proof -
  let ?stray = "temporary_name (lease_file_name nonce)"
  have name: "nonce_from_file_name ?stray = None"
    by (rule not_a_lease_name) (simp add: temporary_name_def)
  have files: "pw_files (fold restart starts w) = pw_files w"
    using assms(1)
  proof (induction starts arbitrary: w)
    case (Cons start starts)
    obtain res v where run: "recover_orphaned_processes
        (w\<lparr>pw_processes := fst start, pw_events := snd start, pw_signals := []\<rparr>) = (res, v)" by fastforce
    have "pw_files v = pw_files w"
      using recover_stray [OF _ name _ run] Cons.prems by simp
    then have "pw_files (restart start w) = pw_files w" by (simp add: restart_def run)
    then show ?case using Cons.IH [of "restart start w"] Cons.prems by simp
  qed simp
  show ?thesis
    using recover_stray [OF _ name _ assms(2)] assms(1) files by simp
qed

definition dying_register :: "(lease_error, ustr) ending \<times> process_world" where
  "dying_register = register sample_nonce Kind_Pi 100 100 (1, 2)
     \<lparr>pw_processes = [(100, sample_process)], pw_files = [], pw_signals = [], pw_clock = 0,
      pw_events = [Calm, Calm, Calm, Dies True]\<rparr>"

lemma torn_registration_blocks_recovery_witness:
  "fst dying_register = Died \<and>
   fst (recover_orphaned_processes ((fold restart [([(100, sample_process)], [])] (snd dying_register))
     \<lparr>pw_processes := [], pw_events := [], pw_signals := []\<rparr>)) \<noteq> Returned ()"
proof -
  have "fst dying_register = Died" by code_simp
  moreover have stray: "temporary_name (lease_file_name sample_nonce) \<in> fst ` set (pw_files (snd dying_register))" by code_simp
  obtain result w' where run: "recover_orphaned_processes ((fold restart [([(100, sample_process)], [])] (snd dying_register))
     \<lparr>pw_processes := [], pw_events := [], pw_signals := []\<rparr>) = (result, w')" by fastforce
  note torn_registration_blocks_recovery [OF stray run]
  ultimately show ?thesis using run by simp
qed

end
