(* ===== verification/Record_Text.thy ===== *)
theory Record_Text
  imports Host_Text Memory_Kind Frontmatter
begin

text \<open>
  The text of the records the host writes (\<^theory_text>\<open>commands/memory_updates.rs\<close>,
  \<^theory_text>\<open>commands/memory_crud.rs\<close>): quoted scalars, text on one line, the slugs of
  identifiers and of file names, and the first free identifier of a title. The lemmas show what the
  core reads of a quoted scalar and of what characters a slug consists.
\<close>

subsection \<open>Scalars and lines\<close>

definition quote_escape :: "ustr \<Rightarrow> ustr" where
  "quote_escape v = concat (map (\<lambda>c. if c = 39 then [39, 39] else [c]) v)"

definition flatten :: "ustr \<Rightarrow> ustr" where
  "flatten v = map (\<lambda>c. if c \<in> {10, 13, 0} then 32 else c) v"

definition yaml_scalar :: "ustr \<Rightarrow> ustr" where
  "yaml_scalar v = [39] @ flatten (quote_escape v) @ [39]"

text \<open>\<^theory_text>\<open>split_whitespace\<close>, and the words with single blanks between them.\<close>

fun split_words :: "ustr \<Rightarrow> ustr list" where
  "split_words [] = []"
| "split_words (c # s) =
     (if is_whitespace c then split_words s
      else case s of
          [] \<Rightarrow> [[c]]
        | d # s' \<Rightarrow>
            (if is_whitespace d then [c] # split_words s
             else case split_words s of [] \<Rightarrow> [[c]] | w # ws \<Rightarrow> (c # w) # ws))"

definition markdown_inline :: "ustr \<Rightarrow> ustr" where
  "markdown_inline v = join (lit '' '') (split_words (flatten v))"

subsection \<open>Slugs\<close>

text \<open>
  The loop of \<^theory_text>\<open>topic_slug\<close> and of \<^theory_text>\<open>slug\<close>, which differ in the
  characters they keep, and the loop that takes the dashes off the end.
\<close>

fun slug_loop :: "(nat \<Rightarrow> bool) \<Rightarrow> ustr \<Rightarrow> ustr \<Rightarrow> bool \<Rightarrow> ustr" where
  "slug_loop keep [] out separator = out"
| "slug_loop keep (c # cs) out separator =
     (let (out, separator) =
        (if keep c then (out @ [ascii_lower c], False)
         else if \<not> separator \<and> out \<noteq> [] then (out @ [45], True)
         else (out, separator))
      in if 72 \<le> byte_len out then out else slug_loop keep cs out separator)"

definition slug_with :: "(nat \<Rightarrow> bool) \<Rightarrow> ustr \<Rightarrow> ustr" where
  "slug_with keep value =
     (let out = rev (dropWhile (\<lambda>c. c = 45) (rev (slug_loop keep value [] False)))
      in if out = [] then lit ''memory'' else out)"

definition topic_slug :: "ustr \<Rightarrow> ustr" where
  "topic_slug value = slug_with (\<lambda>c. is_ascii_alphanumeric c \<or> c = 45 \<or> c = 95) value"

definition library_slug :: "ustr \<Rightarrow> ustr" where
  "library_slug value = slug_with is_ascii_alphanumeric value"

definition derived_memory_target_path :: "ustr \<Rightarrow> ustr \<Rightarrow> command_error + ustr" where
  "derived_memory_target_path kind record_id =
     (case strip_prefix (kind @ lit '':'') record_id of
        None \<Rightarrow> Inl (err_invalid (lit ''Memory target kind does not match its ID''))
      | Some suffix \<Rightarrow> Inr (lit ''guruterminal/'' @ kind @ lit ''/'' @ topic_slug suffix @ lit ''.md''))"

text \<open>\<^theory_text>\<open>library_memory_create\<close>: the path of a new record.\<close>

definition library_path :: "memory_kind \<Rightarrow> ustr \<Rightarrow> ustr" where
  "library_path kind record_id =
     (let suffix = (case strip_prefix (slug kind @ lit '':'') record_id of None \<Rightarrow> record_id | Some s \<Rightarrow> s)
      in lit ''guruterminal/'' @ slug kind @ lit ''/'' @ library_slug suffix @ lit ''.md'')"

subsection \<open>Free identifiers\<close>

text \<open>The loop over the numbers from two, which gives up after 9999.\<close>

function free_index :: "(nat \<Rightarrow> ustr) \<Rightarrow> ustr set \<Rightarrow> nat \<Rightarrow> nat option" where
  "free_index name existing index =
     (if name index \<notin> existing then Some index
      else if 9999 < index + 1 then None
      else free_index name existing (index + 1))"
  by pat_completeness auto
termination by (relation "measure (\<lambda>(name, existing, index). 10000 - index)") auto

declare free_index.simps [simp del]

definition numbered :: "ustr \<Rightarrow> nat \<Rightarrow> ustr" where
  "numbered base index = base @ lit ''-'' @ decimal index"

text \<open>The identifier, the record it continues, and the identifiers then in use.\<close>

definition allocate_slug_id ::
  "ustr \<Rightarrow> ustr \<Rightarrow> ustr \<Rightarrow> ustr set \<Rightarrow> (ustr \<times> ustr option) \<times> ustr set" where
  "allocate_slug_id kind namespace title existing =
     (let base = kind @ lit '':'' @ namespace @ lit ''/'' @ topic_slug title in
      if base \<notin> existing then ((base, None), insert base existing)
      else case free_index (numbered base) existing 2 of
          Some index \<Rightarrow> ((numbered base index, Some base), insert (numbered base index) existing)
        | None \<Rightarrow> ((base @ lit ''-overflow'', Some base), existing))"

definition allocate_library_id :: "ustr \<Rightarrow> ustr \<Rightarrow> ustr set \<Rightarrow> ustr" where
  "allocate_library_id kind title existing =
     (let base = kind @ lit '':'' @ library_slug title in
      if base \<notin> existing then base
      else case free_index (numbered base) existing 2 of
          Some index \<Rightarrow> numbered base index
        | None \<Rightarrow> base @ lit ''-overflow'')"

subsection \<open>What is read of a quoted scalar\<close>

text \<open>The value the core reads: without the quotes, with the escapes still in it.\<close>

definition stored_scalar :: "ustr \<Rightarrow> ustr" where
  "stored_scalar v = trim (flatten (quote_escape v))"

lemma flatten_simps [simp]:
  "flatten [] = []" "flatten (c # s) = (if c \<in> {10, 13, 0} then 32 else c) # flatten s"
  "flatten (s @ t) = flatten s @ flatten t" "length (flatten s) = length s"
  by (simp_all add: flatten_def)

lemma quote_escape_simps [simp]:
  "quote_escape [] = []" "quote_escape (c # s) = (if c = 39 then [39, 39] else [c]) @ quote_escape s"
  "quote_escape (s @ t) = quote_escape s @ quote_escape t"
  by (simp_all add: quote_escape_def)

lemma set_quote_escape [simp]: "set (quote_escape s) = set s"
  by (induction s) auto

lemma no_line_end_flatten: "c \<in> set (flatten s) \<Longrightarrow> c \<notin> {10, 13, 0}"
  by (auto simp: flatten_def split: if_splits)

lemma quotes_not_whitespace [simp]: "\<not> is_whitespace 39" "\<not> is_whitespace 34"
  by (simp_all add: is_whitespace_def)

lemma raw_yaml_scalar: "raw_value (yaml_scalar v)"
proof -
  have "trim (yaml_scalar v) = yaml_scalar v"
    by (simp add: trim_eq_iff trimmed_def yaml_scalar_def)
  moreover have "10 \<notin> set (yaml_scalar v)"
    using no_line_end_flatten by (auto simp: yaml_scalar_def)
  ultimately show ?thesis by (simp add: raw_value_def yaml_scalar_def)
qed

lemma clean_yaml_scalar: "clean (yaml_scalar v) = stored_scalar v"
proof -
  have t: "trim (yaml_scalar v) = yaml_scalar v" using raw_yaml_scalar by (simp add: raw_value_def)
  have b: "2 \<le> byte_len (yaml_scalar v)"
    by (rule order_trans [OF _ length_le_byte_len]) (simp add: yaml_scalar_def)
  have q: "starts_with (yaml_scalar v) (lit [CHR 0x27]) \<and> ends_with (yaml_scalar v) (lit [CHR 0x27])"
    by (simp add: yaml_scalar_def starts_with_def ends_with_def lit_def)
  have i: "butlast (tl (yaml_scalar v)) = flatten (quote_escape v)"
    by (simp add: yaml_scalar_def)
  show ?thesis using q b unfolding clean_def Let_def t i stored_scalar_def by simp
qed

lemma stored_scalar_not_Nil:
  assumes "trim v \<noteq> []" "0 \<notin> set v"
  shows "stored_scalar v \<noteq> []" "\<not> (\<forall>c\<in>set (stored_scalar v). is_whitespace c)"
proof -
  obtain c where c: "c \<in> set v" "\<not> is_whitespace c" using assms(1) by (auto simp: trim_eq_Nil)
  moreover have "c \<noteq> 0" using c(1) assms(2) by metis
  ultimately have "c \<notin> {10, 13, 0}" by (auto simp: is_whitespace_def)
  with c(1) have "c \<in> set (flatten (quote_escape v))" by (force simp: flatten_def)
  with c(2) have "\<exists>c\<in>set (flatten (quote_escape v)). \<not> is_whitespace c" by blast
  then show ne: "stored_scalar v \<noteq> []" by (simp add: stored_scalar_def trim_eq_Nil)
  then have "trim (stored_scalar v) \<noteq> []" by (simp add: stored_scalar_def)
  then show "\<not> (\<forall>c\<in>set (stored_scalar v). is_whitespace c)" by (simp add: trim_eq_Nil)
qed

lemma stored_scalar_line:
  assumes "trimmed v" "{10, 13, 0} \<inter> set v = {}"
  shows "stored_scalar v = quote_escape v"
proof -
  have f: "flatten (quote_escape v) = quote_escape v"
    unfolding flatten_def
  proof (rule map_idI)
    fix c assume "c \<in> set (quote_escape v)"
    then have "c \<notin> {10, 13, 0}" using assms(2) by (simp only: set_quote_escape) blast
    then show "(if c \<in> {10, 13, 0} then 32 else c) = c" by (simp only: if_False)
  qed
  have "trimmed (quote_escape v)"
  proof (cases "v = []")
    case False
    have "hd (quote_escape v) = hd v" using False by (cases v) auto
    moreover have "last (quote_escape v) = last v" using False by (cases v rule: rev_cases) auto
    moreover have "quote_escape v \<noteq> []" using False by (cases v) auto
    ultimately show ?thesis using assms(1) False by (simp add: trimmed_def)
  qed (simp add: trimmed_def)
  then show ?thesis by (simp add: stored_scalar_def f trim_eq_iff)
qed

subsection \<open>Words\<close>

lemma split_words_word:
  "w \<in> set (split_words s) \<Longrightarrow> w \<noteq> [] \<and> set w \<subseteq> set s \<and> (\<forall>c\<in>set w. \<not> is_whitespace c)"
proof (induction s arbitrary: w)
  case (Cons c s)
  show ?case
  proof (cases "is_whitespace c \<or> s = [] \<or> is_whitespace (hd s)")
    case True
    then have "w = [c] \<and> \<not> is_whitespace c \<or> w \<in> set (split_words s)"
      using Cons.prems by (cases s) (auto split: if_splits)
    then show ?thesis using Cons.IH [of w] by auto
  next
    case False
    then have "split_words (c # s) = (case split_words s of [] \<Rightarrow> [[c]] | w # ws \<Rightarrow> (c # w) # ws)"
      by (cases s) auto
    then consider "w = [c]" | w' where "w = c # w'" "w' \<in> set (split_words s)" | "w \<in> set (split_words s)"
      using Cons.prems by (cases "split_words s") auto
    then show ?thesis using False Cons.IH by cases auto
  qed
qed simp

lemma set_join: "set (join sep ps) \<subseteq> set sep \<union> \<Union> (set ` set ps)"
  by (induction sep ps rule: join.induct) auto

lemma markdown_inline_one_line: "c \<in> set (markdown_inline v) \<Longrightarrow> c = 32 \<or> \<not> is_whitespace c"
  using set_join [of "lit '' ''" "split_words (flatten v)"] split_words_word
  by (fastforce simp: markdown_inline_def lit_def)

subsection \<open>Slugs and identifiers\<close>

definition slug_char :: "nat \<Rightarrow> bool" where
  "slug_char c \<longleftrightarrow> is_ascii_lowercase c \<or> is_ascii_digit c \<or> c = 45 \<or> c = 95"

lemma slug_loop_chars:
  "(\<And>c. keep c \<Longrightarrow> slug_char (ascii_lower c)) \<Longrightarrow> \<forall>c\<in>set out. slug_char c \<Longrightarrow>
   \<forall>c\<in>set (slug_loop keep cs out separator). slug_char c"
proof (induction cs arbitrary: out separator)
  case (Cons c cs)
  define r where "r = (if keep c then (out @ [ascii_lower c], False)
     else if \<not> separator \<and> out \<noteq> [] then (out @ [45], True) else (out, separator))"
  have "slug_char 45" by (simp add: slug_char_def)
  then have out: "\<forall>c\<in>set (fst r). slug_char c" using Cons.prems by (auto simp: r_def)
  have "\<forall>c\<in>set (slug_loop keep cs (fst r) (snd r)). slug_char c"
    by (rule Cons.IH [OF Cons.prems(1) out])
  moreover have "slug_loop keep (c # cs) out separator =
      (if 72 \<le> byte_len (fst r) then fst r else slug_loop keep cs (fst r) (snd r))"
    by (simp add: r_def Let_def)
  ultimately show ?case using out by presburger
qed simp

lemma slug_char_ascii: "slug_char c \<Longrightarrow> c < 128 \<and> \<not> is_whitespace c \<and> c \<notin> {10, 39, 34, 46, 47, 58, 92} \<and> \<not> is_control c"
  by (auto simp: slug_char_def ascii_defs is_whitespace_def is_control_def)

lemma slug_with_chars:
  assumes "\<And>c. keep c \<Longrightarrow> slug_char (ascii_lower c)"
  shows "slug_with keep v \<noteq> [] \<and> (\<forall>c\<in>set (slug_with keep v). slug_char c)"
proof -
  have "\<forall>c\<in>set (slug_loop keep v [] False). slug_char c"
    using assms by (rule slug_loop_chars) simp_all
  then have "\<forall>c\<in>set (rev (dropWhile (\<lambda>c. c = 45) (rev (slug_loop keep v [] False)))). slug_char c"
    by (auto dest: set_dropWhileD)
  moreover have "\<forall>c\<in>set (lit ''memory''). slug_char c"
    by (simp add: lit_def slug_char_def ascii_defs)
  ultimately show ?thesis by (simp add: slug_with_def Let_def)
qed

lemma slug_char_lower: "is_ascii_alphanumeric c \<Longrightarrow> slug_char (ascii_lower c)"
  by (cases "65 \<le> c \<and> c \<le> 90") (simp_all add: slug_char_def ascii_defs ascii_lower_def; linarith)+

lemma topic_slug_chars: "topic_slug v \<noteq> [] \<and> (\<forall>c\<in>set (topic_slug v). slug_char c)"
proof -
  have "slug_char (ascii_lower 45)" "slug_char (ascii_lower 95)"
    by (simp_all add: slug_char_def ascii_defs ascii_lower_def)
  then show ?thesis
    unfolding topic_slug_def using slug_char_lower by (intro slug_with_chars) auto
qed

lemma library_slug_chars: "library_slug v \<noteq> [] \<and> (\<forall>c\<in>set (library_slug v). slug_char c)"
  unfolding library_slug_def by (rule slug_with_chars) (rule slug_char_lower)

lemma free_index_Some:
  "free_index name existing index = Some i \<Longrightarrow> name i \<notin> existing \<and> index \<le> i"
proof (induction "10000 - index" arbitrary: index rule: less_induct)
  case less
  show ?case
  proof (cases "name index \<in> existing")
    case True
    then have "\<not> 9999 < index + 1" "free_index name existing (index + 1) = Some i"
      using less.prems free_index.simps [of name existing index] by (simp_all split: if_splits)
    moreover have "10000 - (index + 1) < 10000 - index" using calculation by linarith
    ultimately have "name i \<notin> existing \<and> index + 1 \<le> i" using less.hyps [of "index + 1"] by blast
    then show ?thesis by linarith
  qed (use less.prems free_index.simps [of name existing index] in simp)
qed

lemma free_index_None:
  "free_index name existing index = None \<Longrightarrow> i \<in> {index..9999} \<Longrightarrow> name i \<in> existing"
proof (induction "10000 - index" arbitrary: index rule: less_induct)
  case less
  have taken: "name index \<in> existing"
    using less.prems(1) free_index.simps [of name existing index] by (simp split: if_splits)
  show ?case
  proof (cases "i = index")
    case False
    then have i: "i \<in> {index + 1..9999}" using less.prems(2) by auto
    then have "free_index name existing (index + 1) = None"
      using less.prems(1) taken free_index.simps [of name existing index] by simp
    then show ?thesis using less.hyps [of "index + 1"] i by auto
  qed (use taken in simp)
qed

lemma allocate_library_id_fresh:
  assumes "card existing \<le> 9998"  "finite existing"
  shows "allocate_library_id kind title existing \<notin> existing"
proof -
  let ?base = "kind @ lit '':'' @ library_slug title"
  have "free_index (numbered ?base) existing 2 \<noteq> None" if taken: "?base \<in> existing"
  proof
    assume "free_index (numbered ?base) existing 2 = None"
    then have all: "\<forall>i\<in>{2..9999}. numbered ?base i \<in> existing" using free_index_None by blast
    have inj: "inj_on (numbered ?base) {2..9999}" by (auto simp: inj_on_def numbered_def decimal_inj)
    have "?base \<notin> numbered ?base ` {2..9999}" by (auto simp: numbered_def lit_def)
    moreover have "insert ?base (numbered ?base ` {2..9999}) \<subseteq> existing" using all taken by blast
    then have "card (insert ?base (numbered ?base ` {2..9999})) \<le> card existing"
      by (rule card_mono [OF assms(2)])
    ultimately show False using assms(1) by (simp add: card_image [OF inj])
  qed
  then show ?thesis
    by (auto simp: allocate_library_id_def Let_def split: option.splits dest: free_index_Some)
qed

end
