(* ===== verification/Record_Markdown.thy ===== *)
theory Record_Markdown
  imports Record_Text Json_Value Document_Model
begin

text \<open>
  The Markdown of the records the host writes: Evidence and Decisions of a Chat
  (\<^theory_text>\<open>evidence_markdown\<close>, \<^theory_text>\<open>decision_markdown\<close> in
  \<^theory_text>\<open>commands/memory_updates.rs\<close>) and the user's Wiki and Lens records
  (\<^theory_text>\<open>draft_markdown\<close> in \<^theory_text>\<open>commands/memory_crud.rs\<close>). Each text is
  shown to be a list of frontmatter entries followed by a body, which is the form the core's parser reads.
  The dates are chrono's: \<open>to_secs\<close> parses a date and writes it to the second,
  \<open>millis_secs\<close> writes a time in milliseconds. The text of a probability is a parameter too.
\<close>

subsection \<open>Dates\<close>

record dates =
  to_secs :: "ustr \<Rightarrow> ustr option"
  millis_secs :: "int \<Rightarrow> ustr option"

definition as_of_or_now :: "dates \<Rightarrow> ustr option \<Rightarrow> int \<Rightarrow> ustr" where
  "as_of_or_now D v timestamp =
     (case Option.bind v (to_secs D) of
        Some s \<Rightarrow> s
      | None \<Rightarrow> (case millis_secs D timestamp of Some s \<Rightarrow> s | None \<Rightarrow> lit ''1970-01-01T00:00:00Z''))"

text \<open>What chrono documents of these functions: they write dates the core accepts, in ASCII.\<close>

definition date_char :: "nat \<Rightarrow> bool" where
  "date_char c \<longleftrightarrow> is_ascii_digit c \<or> c \<in> set (lit ''-T:Z+'')"

definition dates_ok :: "'v platform \<Rightarrow> dates \<Rightarrow> bool" where
  "dates_ok P D \<longleftrightarrow>
     (\<forall>v s. to_secs D v = Some s \<longrightarrow> is_rfc3339_seconds P s \<and> (\<forall>c\<in>set s. date_char c)) \<and>
     (\<forall>t s. millis_secs D t = Some s \<longrightarrow> is_rfc3339_seconds P s \<and> (\<forall>c\<in>set s. date_char c)) \<and>
     is_rfc3339_seconds P (lit ''1970-01-01T00:00:00Z'')"

subsection \<open>Evidence\<close>

record run_producer =
  prod_runtime_id :: ustr
  prod_tool_name :: ustr
  prod_provider :: "ustr option"

record receipt =
  rc_result_ref :: ustr
  rc_producer :: run_producer
  rc_origin :: "ustr option"
  rc_request_digest :: ustr
  rc_response_digest :: ustr
  rc_retrieved_at :: ustr
  rc_warnings :: "ustr list"
  rc_upstream :: "ustr list"

record citation =
  ct_result_ref :: ustr
  ct_note :: "ustr option"
  ct_receipt :: receipt

record staged_evidence =
  ev_id :: ustr
  ev_title :: ustr
  ev_summary :: ustr
  ev_as_of :: ustr
  ev_markdown :: ustr
  ev_source :: "ustr option"
  ev_period :: "ustr option"
  ev_entities :: "ustr list"
  ev_citations :: "citation list"

definition or_else :: "'a option \<Rightarrow> 'a option \<Rightarrow> 'a option" where
  "or_else a b = (case a of None \<Rightarrow> b | Some x \<Rightarrow> Some x)"

definition unwrap_or :: "'a \<Rightarrow> 'a option \<Rightarrow> 'a" where
  "unwrap_or d v = (case v of None \<Rightarrow> d | Some x \<Rightarrow> x)"

definition keep_if :: "('a \<Rightarrow> bool) \<Rightarrow> 'a option \<Rightarrow> 'a option" where
  "keep_if p v = (case v of None \<Rightarrow> None | Some x \<Rightarrow> if p x then Some x else None)"

definition evidence_source_line :: "dates \<Rightarrow> citation \<Rightarrow> ustr" where
  "evidence_source_line D c =
     (let receipt = ct_receipt c; producer = rc_producer receipt;
          label = unwrap_or (prod_tool_name producer) (or_else (ct_note c) (rc_origin receipt));
          retrieved = unwrap_or (markdown_inline (rc_retrieved_at receipt)) (to_secs D (rc_retrieved_at receipt));
          via = (case keep_if (\<lambda>v. v \<noteq> []) (prod_provider producer) of
                   Some provider \<Rightarrow>
                     markdown_inline (prod_tool_name producer) @ lit '' via '' @ markdown_inline provider
                 | None \<Rightarrow> markdown_inline (prod_tool_name producer))
      in if ct_note c = None \<and> rc_origin receipt = None
         then lit ''- '' @ via @ lit '', retrieved '' @ retrieved
         else lit ''- '' @ markdown_inline label @ [32, 8212, 32] @ via @ lit '', retrieved '' @ retrieved)"

definition optional_scalar :: "string \<Rightarrow> ustr option \<Rightarrow> ustr" where
  "optional_scalar name v =
     (case v of None \<Rightarrow> [] | Some x \<Rightarrow> lit name @ lit '': '' @ yaml_scalar x @ [10])"

text \<open>The lines of a list, which is left out when it is empty.\<close>

definition yaml_list :: "ustr \<Rightarrow> ustr list \<Rightarrow> ustr" where
  "yaml_list key values =
     (if values = [] then []
      else key @ lit '':'' @ [10] @ concat (map (\<lambda>v. lit ''  - '' @ yaml_scalar v @ [10]) values))"

definition evidence_markdown :: "dates \<Rightarrow> staged_evidence \<Rightarrow> int \<Rightarrow> ustr" where
  "evidence_markdown D e timestamp =
     (let frontmatter =
            lit ''---'' @ [10] @ lit ''id: '' @ ev_id e @ [10] @
            lit ''title: '' @ yaml_scalar (ev_title e) @ [10] @
            lit ''summary: '' @ yaml_scalar (ev_summary e) @ [10] @
            lit ''as_of: '' @ as_of_or_now D (Some (ev_as_of e)) timestamp @ [10] @
            optional_scalar ''source'' (ev_source e) @
            optional_scalar ''period'' (ev_period e) @
            yaml_list (lit ''entities'') (ev_entities e) @
            lit ''---'' @ [10];
          sources = join [10] (map (evidence_source_line D) (ev_citations e))
      in frontmatter @ [10] @ trim (ev_markdown e) @ [10, 10] @ lit ''# Sources'' @ [10, 10] @ sources @ [10])"

definition evidence_entries :: "dates \<Rightarrow> staged_evidence \<Rightarrow> int \<Rightarrow> fm_entry list" where
  "evidence_entries D e timestamp =
     [Scalar_Entry (lit ''id'') (ev_id e), Scalar_Entry (lit ''title'') (yaml_scalar (ev_title e)),
      Scalar_Entry (lit ''summary'') (yaml_scalar (ev_summary e)),
      Scalar_Entry (lit ''as_of'') (as_of_or_now D (Some (ev_as_of e)) timestamp)] @
     (case ev_source e of None \<Rightarrow> [] | Some v \<Rightarrow> [Scalar_Entry (lit ''source'') (yaml_scalar v)]) @
     (case ev_period e of None \<Rightarrow> [] | Some v \<Rightarrow> [Scalar_Entry (lit ''period'') (yaml_scalar v)]) @
     (if ev_entities e = [] then []
      else [List_Entry (lit ''entities'') (map yaml_scalar (ev_entities e))])"

definition evidence_body :: "dates \<Rightarrow> staged_evidence \<Rightarrow> ustr" where
  "evidence_body D e =
     [10] @ trim (ev_markdown e) @ [10, 10] @ lit ''# Sources'' @ [10, 10] @
     join [10] (map (evidence_source_line D) (ev_citations e)) @ [10]"

lemma entry_text [simp]:
  "concat (map (\<lambda>l. l @ [10]) (entry_lines (Scalar_Entry k v))) = k @ lit '': '' @ v @ [10]"
  "concat (map (\<lambda>l. l @ [10]) (entry_lines (List_Entry k vs))) =
     k @ lit '':'' @ [10] @ concat (map (\<lambda>v. lit ''  - '' @ v @ [10]) vs)"
  "concat (map (\<lambda>l. l @ [10]) (entry_lines (Empty_List k))) = k @ lit '': []'' @ [10]"
  by (simp_all add: comp_def)

lemma concat_map_concat: "concat (map f (concat xss)) = concat (map (\<lambda>xs. concat (map f xs)) xss)"
  by (induction xss) auto

lemma render_entries_text:
  "render_entries es body =
     lit ''---'' @ [10] @ concat (map (\<lambda>e. concat (map (\<lambda>l. l @ [10]) (entry_lines e))) es) @
     lit ''---'' @ [10] @ body"
  unfolding render_entries_def by (simp add: concat_map_concat comp_def)

lemma yaml_list_text:
  "yaml_list key values =
     concat (map (\<lambda>e. concat (map (\<lambda>l. l @ [10]) (entry_lines e)))
       (if values = [] then [] else [List_Entry key (map yaml_scalar values)]))"
  by (simp add: yaml_list_def comp_def)

lemma optional_scalar_text:
  "optional_scalar name v =
     concat (map (\<lambda>e. concat (map (\<lambda>l. l @ [10]) (entry_lines e)))
       (case v of None \<Rightarrow> [] | Some x \<Rightarrow> [Scalar_Entry (lit name) (yaml_scalar x)]))"
  by (simp add: optional_scalar_def split: option.split)

lemma evidence_markdown_entries:
  "evidence_markdown D e timestamp =
     render_entries (evidence_entries D e timestamp) (evidence_body D e)"
  unfolding evidence_markdown_def evidence_entries_def evidence_body_def render_entries_text
    yaml_list_text optional_scalar_text
  by (simp add: Let_def lit_def)

subsection \<open>Decisions\<close>

definition decision_title :: "ustr \<Rightarrow> ustr \<Rightarrow> ustr" where
  "decision_title thesis stance =
     (let line = (case lines thesis of [] \<Rightarrow> thesis | l # _ \<Rightarrow> l);
          from_thesis = join (lit '' '') (take 8 (split_words line))
      in if from_thesis = [] then lit ''Decision '' @ [183, 32] @ stance else from_thesis)"

text \<open>The strings of an array of the payload.\<close>

definition payload_strings :: "string \<Rightarrow> json \<Rightarrow> ustr list" where
  "payload_strings key payload =
     (case get_array (lit key) payload of None \<Rightarrow> [] | Some items \<Rightarrow> List.map_filter as_str items)"

definition id_list :: "string \<Rightarrow> ustr list \<Rightarrow> ustr" where
  "id_list name ids =
     (if ids = [] then lit name @ lit '': []'' @ [10]
      else lit name @ lit '':'' @ [10] @ concat (map (\<lambda>i. lit ''  - '' @ i @ [10]) ids))"

definition bullet_lines :: "string \<Rightarrow> json \<Rightarrow> ustr" where
  "bullet_lines key payload = join [10] (map (\<lambda>v. lit ''- '' @ v) (payload_strings key payload))"

definition trimmed_text :: "string \<Rightarrow> json \<Rightarrow> ustr option" where
  "trimmed_text key payload = keep_if (\<lambda>v. v \<noteq> []) (map_option trim (get_str (lit key) payload))"

definition decision_thesis :: "json \<Rightarrow> ustr" where
  "decision_thesis payload = unwrap_or (lit ''No thesis was recorded.'') (get_str (lit ''thesis'') payload)"

definition decision_stance :: "json \<Rightarrow> ustr" where
  "decision_stance payload = unwrap_or (lit ''abstain'') (get_str (lit ''stance'') payload)"

definition decision_record_title :: "json \<Rightarrow> ustr" where
  "decision_record_title payload =
     unwrap_or (decision_title (decision_thesis payload) (decision_stance payload)) (trimmed_text ''title'' payload)"

definition decision_summary :: "json \<Rightarrow> ustr" where
  "decision_summary payload = unwrap_or (take 240 (decision_thesis payload)) (trimmed_text ''summary'' payload)"

text \<open>\<open>percent\<close> writes the probability of the payload as a percentage.\<close>

definition decision_body :: "(json \<Rightarrow> ustr) \<Rightarrow> json \<Rightarrow> ustr" where
  "decision_body percent payload =
     (let risks = bullet_lines ''risks'' payload;
          invalidation = bullet_lines ''invalidation_conditions'' payload;
          horizon = unwrap_or (lit ''unspecified'') (get_str (lit ''horizon'') payload)
      in [10] @ lit ''# Decision'' @ [10, 10] @ lit ''**Stance:** '' @ decision_stance payload @ [10, 10] @
         lit ''**Horizon:** '' @ horizon @ [10, 10] @ lit ''**Probability:** '' @ percent payload @ [10, 10] @
         decision_thesis payload @ [10, 10] @ lit ''# Material risks'' @ [10, 10] @
         (if risks = [] then lit ''- None recorded'' else risks) @ [10, 10] @
         lit ''# Invalidation conditions'' @ [10, 10] @
         (if invalidation = [] then lit ''- None recorded'' else invalidation) @ [10])"

definition decision_markdown ::
  "(json \<Rightarrow> ustr) \<Rightarrow> dates \<Rightarrow> json \<Rightarrow> ustr \<Rightarrow> int \<Rightarrow> ustr list \<Rightarrow> ustr list \<Rightarrow> ustr" where
  "decision_markdown percent D payload record_id timestamp supports uses =
     lit ''---'' @ [10] @ lit ''id: '' @ record_id @ [10] @
     lit ''title: '' @ yaml_scalar (decision_record_title payload) @ [10] @
     lit ''summary: '' @ yaml_scalar (decision_summary payload) @ [10] @
     lit ''as_of: '' @ as_of_or_now D None timestamp @ [10] @
     id_list ''uses'' uses @ id_list ''supports'' supports @ lit ''---'' @ [10] @ decision_body percent payload"

definition id_entry :: "string \<Rightarrow> ustr list \<Rightarrow> fm_entry" where
  "id_entry name ids = (if ids = [] then Empty_List (lit name) else List_Entry (lit name) ids)"

definition decision_entries ::
  "dates \<Rightarrow> json \<Rightarrow> ustr \<Rightarrow> int \<Rightarrow> ustr list \<Rightarrow> ustr list \<Rightarrow> fm_entry list" where
  "decision_entries D payload record_id timestamp supports uses =
     [Scalar_Entry (lit ''id'') record_id,
      Scalar_Entry (lit ''title'') (yaml_scalar (decision_record_title payload)),
      Scalar_Entry (lit ''summary'') (yaml_scalar (decision_summary payload)),
      Scalar_Entry (lit ''as_of'') (as_of_or_now D None timestamp),
      id_entry ''uses'' uses, id_entry ''supports'' supports]"

lemma id_list_text: "id_list name ids = concat (map (\<lambda>l. l @ [10]) (entry_lines (id_entry name ids)))"
  by (simp add: id_list_def id_entry_def comp_def)

lemma decision_markdown_entries:
  "decision_markdown percent D payload record_id timestamp supports uses =
     render_entries (decision_entries D payload record_id timestamp supports uses) (decision_body percent payload)"
  unfolding decision_markdown_def decision_entries_def render_entries_text id_list_text
  by (simp add: lit_def)

subsection \<open>Drafts of the library\<close>

record library_draft =
  dr_kind :: ustr
  dr_title :: ustr
  dr_summary :: ustr
  dr_as_of :: ustr
  dr_entities :: "ustr list"
  dr_aliases :: "ustr list"
  dr_tags :: "ustr list"
  dr_see_also :: "ustr list"
  dr_scope :: ustr
  dr_assumptions :: ustr
  dr_counterexamples :: ustr
  dr_limits :: ustr
  dr_invalidation :: ustr
  dr_body :: ustr

definition max_body_bytes :: nat where
  "max_body_bytes = 128 * 1024"

definition max_list_items :: nat where
  "max_list_items = 64"

definition require_text :: "ustr \<Rightarrow> ustr \<Rightarrow> nat \<Rightarrow> command_error + ustr" where
  "require_text v what maximum =
     (let v = trim v in
      if v = [] \<or> maximum < byte_len v \<or> 0 \<in> set v
      then Inl (err_invalid (what @ lit '' must contain between 1 and '' @ decimal maximum @ lit '' bytes''))
      else Inr v)"

fun validate_items_loop :: "ustr \<Rightarrow> ustr list \<Rightarrow> ustr list \<Rightarrow> command_error + ustr list" where
  "validate_items_loop what out [] = Inr out"
| "validate_items_loop what out (v # vs) =
     and_then (require_text v what 512) (\<lambda>v.
       if 10 \<in> set v \<or> 13 \<in> set v then Inl (err_invalid (what @ lit '' contains an invalid value''))
       else validate_items_loop what (if v \<in> set out then out else out @ [v]) vs)"

definition validate_items :: "ustr list \<Rightarrow> string \<Rightarrow> command_error + ustr list" where
  "validate_items vs what =
     (if max_list_items < length vs then Inl (err_invalid (lit what @ lit '' has too many values''))
      else validate_items_loop (lit what) [] vs)"

definition editable_kind :: "ustr \<Rightarrow> memory_kind option" where
  "editable_kind what = keep_if (\<lambda>kind. kind = Wiki \<or> kind = Lens) (from_label what)"

definition lens_fields :: "library_draft \<Rightarrow> (ustr \<times> string) list" where
  "lens_fields d =
     [(dr_scope d, ''Lens scope''), (dr_assumptions d, ''Lens assumptions''),
      (dr_counterexamples d, ''Lens counterexamples''), (dr_limits d, ''Lens limits''),
      (dr_invalidation d, ''Lens invalidation conditions'')]"

definition lens_section :: "string \<Rightarrow> ustr \<Rightarrow> ustr" where
  "lens_section heading v = lit ''# '' @ lit heading @ [10, 10] @ trim v @ [10, 10]"

definition draft_body :: "library_draft \<Rightarrow> memory_kind \<Rightarrow> ustr" where
  "draft_body d kind =
     [10] @
     (if kind = Lens
      then lens_section ''Scope'' (dr_scope d) @ lens_section ''Assumptions'' (dr_assumptions d) @
        lens_section ''Counterexamples'' (dr_counterexamples d) @ lens_section ''Limits'' (dr_limits d) @
        lens_section ''Invalidation conditions'' (dr_invalidation d)
      else []) @
     (if trim (dr_body d) \<noteq> [] then trim (dr_body d) @ [10] else [])"

definition draft_text ::
  "library_draft \<Rightarrow> memory_kind \<Rightarrow> ustr \<Rightarrow> ustr \<Rightarrow> ustr \<Rightarrow> ustr \<Rightarrow>
   ustr list \<Rightarrow> ustr list \<Rightarrow> ustr list \<Rightarrow> ustr list \<Rightarrow> ustr" where
  "draft_text d kind record_id title summary as_of entities aliases tags see_also =
     lit ''---'' @ [10] @ lit ''id: '' @ record_id @ [10] @ lit ''title: '' @ yaml_scalar title @ [10] @
     lit ''summary: '' @ yaml_scalar summary @ [10] @ lit ''as_of: '' @ as_of @ [10] @
     yaml_list (lit ''entities'') entities @ yaml_list (lit ''aliases'') aliases @
     yaml_list (lit ''tags'') tags @ yaml_list (lit ''see_also'') see_also @
     lit ''---'' @ [10] @ draft_body d kind"

definition draft_markdown ::
  "dates \<Rightarrow> library_draft \<Rightarrow> ustr \<Rightarrow> command_error + memory_kind \<times> ustr" where
  "draft_markdown D d record_id =
     and_then (ok_or (err_invalid (lit ''Only Wiki and Lens can be edited in Library''))
       (editable_kind (dr_kind d))) (\<lambda>kind.
     and_then (require_text (dr_title d) (lit ''Memory title'') 512) (\<lambda>title.
     and_then (require_text (dr_summary d) (lit ''Memory summary'') 2048) (\<lambda>summary.
     and_then (ok_or (err_invalid (lit ''Memory as_of must be an RFC3339 timestamp''))
       (to_secs D (trim (dr_as_of d)))) (\<lambda>as_of.
     and_then (validate_items (dr_entities d) ''Memory entities'') (\<lambda>entities.
     and_then (validate_items (dr_aliases d) ''Memory aliases'') (\<lambda>aliases.
     and_then (validate_items (dr_tags d) ''Memory tags'') (\<lambda>tags.
     and_then (validate_items (dr_see_also d) ''Memory see_also'') (\<lambda>see_also.
     and_then (fail_if (kind \<noteq> Wiki \<and> see_also \<noteq> []) (err_invalid (lit ''Only Wiki may use see_also''))) (\<lambda>_.
     and_then (require_text (dr_body d) (lit ''Memory body'') max_body_bytes) (\<lambda>_.
     and_then (fail_if (0 \<in> set (dr_body d)) (err_invalid (lit ''Memory body is too large or invalid''))) (\<lambda>_.
     and_then (if kind = Lens
         then for_each (\<lambda>(v, what). map_sum id (\<lambda>_. ()) (require_text v (lit what) (16 * 1024))) (lens_fields d)
         else Inr ()) (\<lambda>_.
       Inr (kind, draft_text d kind record_id title summary as_of entities aliases tags see_also)))))))))))))"

definition list_entries :: "ustr \<Rightarrow> ustr list \<Rightarrow> fm_entry list" where
  "list_entries key values = (if values = [] then [] else [List_Entry key (map yaml_scalar values)])"

definition draft_entries ::
  "ustr \<Rightarrow> ustr \<Rightarrow> ustr \<Rightarrow> ustr \<Rightarrow> ustr list \<Rightarrow> ustr list \<Rightarrow> ustr list \<Rightarrow> ustr list \<Rightarrow> fm_entry list" where
  "draft_entries record_id title summary as_of entities aliases tags see_also =
     [Scalar_Entry (lit ''id'') record_id, Scalar_Entry (lit ''title'') (yaml_scalar title),
      Scalar_Entry (lit ''summary'') (yaml_scalar summary), Scalar_Entry (lit ''as_of'') as_of] @
     list_entries (lit ''entities'') entities @ list_entries (lit ''aliases'') aliases @
     list_entries (lit ''tags'') tags @ list_entries (lit ''see_also'') see_also"

lemma draft_text_entries:
  "draft_text d kind record_id title summary as_of entities aliases tags see_also =
     render_entries (draft_entries record_id title summary as_of entities aliases tags see_also) (draft_body d kind)"
  unfolding draft_text_def draft_entries_def list_entries_def render_entries_text yaml_list_text
  by (simp add: lit_def)

lemma require_text_Inr [simp]:
  "require_text v what maximum = Inr t \<longleftrightarrow> t = trim v \<and> t \<noteq> [] \<and> byte_len t \<le> maximum \<and> 0 \<notin> set t"
  by (auto simp: require_text_def Let_def)

lemma validate_items_loop_Inr:
  "validate_items_loop what out vs = Inr us \<Longrightarrow> distinct out \<Longrightarrow>
   (\<forall>v\<in>set vs. trim v \<noteq> [] \<and> {0, 10, 13} \<inter> set (trim v) = {}) \<and>
   set us = set out \<union> trim ` set vs \<and> distinct us"
proof (induction what out vs rule: validate_items_loop.induct)
  case (2 what out v vs)
  then have v: "trim v \<noteq> []" "0 \<notin> set (trim v)" "10 \<notin> set (trim v)" "13 \<notin> set (trim v)"
    and rest: "validate_items_loop what (if trim v \<in> set out then out else out @ [trim v]) vs = Inr us"
    by (auto split: if_splits)
  have "\<not> (10 \<in> set (trim v) \<or> 13 \<in> set (trim v))" using v by blast
  moreover have "distinct (if trim v \<in> set out then out else out @ [trim v])" using "2.prems"(2) by simp
  ultimately show ?case using "2.IH" [OF _ rest] v by (auto split: if_splits)
qed auto

lemma validate_items_Inr:
  assumes "validate_items vs what = Inr us"
  shows "set us = trim ` set vs" "distinct us" "\<forall>u\<in>set us. trim u \<noteq> [] \<and> {0, 10, 13} \<inter> set u = {} \<and> trimmed u"
  using assms validate_items_loop_Inr [of "lit what" "[]" vs us]
  by (auto simp: validate_items_def split: if_splits)

end
