(* ===== verification/Record_Validity.thy ===== *)
theory Record_Validity
  imports Record_Markdown
begin

text \<open>
  The records the host writes, read by the core: Evidence, Decisions and library drafts parse without an
  error, their fields are the escaped texts, and the core's catalog accepts them. What the escape costs: a
  quote is doubled by the host and never undone, so the title of a record grows with every save.
\<close>

subsection \<open>Entries as documents\<close>

definition scalar_at :: "fm_entry list \<Rightarrow> string \<Rightarrow> ustr option" where
  "scalar_at es k = Option.bind (entry_at es (lit k)) entry_scalar"

definition list_at :: "fm_entry list \<Rightarrow> ustr \<Rightarrow> ustr list" where
  "list_at es k = (case Option.bind (entry_at es k) entry_list of None \<Rightarrow> [] | Some vs \<Rightarrow> vs)"

definition entries_ok :: "fm_entry list \<Rightarrow> bool" where
  "entries_ok es \<longleftrightarrow> (\<forall>e\<in>set es. entry_ok e) \<and> distinct (map entry_key es)"

lemma document_of_entries:
  assumes "entries_ok es"
  shows "document_from_content path (render_entries es body) =
    \<lparr>doc_id = unwrap_or [] (scalar_at es ''id''), doc_kind = slug (fst path),
     doc_title = unwrap_or [] (scalar_at es ''title''), doc_summary = unwrap_or [] (scalar_at es ''summary''),
     doc_as_of = unwrap_or [] (scalar_at es ''as_of''), doc_path = display_path path,
     doc_entities = list_at es (lit ''entities''), doc_aliases = list_at es (lit ''aliases''),
     doc_tags = list_at es (lit ''tags''), doc_see_also = list_at es (lit ''see_also''),
     doc_source = scalar_at es ''source'', doc_period = scalar_at es ''period'',
     doc_status = scalar_at es ''status'', doc_revoked_by = scalar_at es ''revoked_by'',
     doc_relationships = concat (map (\<lambda>kind. map (\<lambda>target. \<lparr>rel_kind = kind, rel_target = target\<rparr>)
       (list_at es kind)) relationship_types),
     doc_content = render_entries es body, doc_body = join [10] (lines body), doc_read_error = None,
     doc_declared_fields = entry_key ` set es, doc_duplicate_fields = {}\<rparr>"
proof -
  have ok: "\<forall>e\<in>set es. entry_ok e" and d: "distinct (map entry_key es)"
    using assms by (simp_all add: entries_ok_def)
  have s: "bt_get (fm_scalar (fold put_entry es empty_frontmatter)) (lit k) = scalar_at es k" for k
    unfolding fold_put_entry_get [OF d] scalar_at_def by (simp add: empty_frontmatter_def split: option.split)
  have l: "bt_get (fm_lists (fold put_entry es empty_frontmatter)) k = Option.bind (entry_at es k) entry_list" for k
    unfolding fold_put_entry_get [OF d] by (simp add: empty_frontmatter_def split: option.split)
  have e: "declared_fields empty_frontmatter = {}" "duplicate_fields empty_frontmatter = {}"
    by (simp_all add: empty_frontmatter_def)
  show ?thesis
    by (simp add: document_from_content_def parse_entries [OF ok d] Let_def scalar_of_def list_of_def s l
        list_at_def unwrap_or_def infer_kind_def fold_put_entry e)
qed

subsection \<open>Identifiers and dates as values\<close>

lemma clean_unquoted:
  assumes "trim v = v" "v \<noteq> []" "hd v \<noteq> 34" "hd v \<noteq> 39"
  shows "clean v = v"
proof -
  have "\<not> starts_with v (lit [CHR 0x22])" "\<not> starts_with v (lit [CHR 0x27])"
    using assms(2-) by (cases v; simp add: starts_with_def lit_def)+
  then show ?thesis by (simp add: clean_def assms(1))
qed

lemma canonical_raw:
  assumes "parse_record_id v = Some (k, s)"
  shows "raw_value v" "clean v = v" "\<not> blank v"
proof -
  have v: "v = slug k @ 58 # s" "trimmed v" and segs: "\<forall>p\<in>set (split_on 47 s). \<not> bad_segment p"
    using assms by (auto simp: parse_record_id_iff lit_def)
  have "c \<in> set (join [47] ps) \<Longrightarrow> c = 47 \<or> (\<exists>p\<in>set ps. c \<in> set p)" for c ps
    by (induction "[47::nat]" ps rule: join.induct) auto
  then have "10 \<in> set s \<Longrightarrow> \<exists>p\<in>set (split_on 47 s). 10 \<in> set p"
    by (metis join_split_on numeral_eq_iff semiring_norm(88) semiring_norm(90))
  moreover have "10 \<notin> set p" if "\<not> bad_segment p" for p
    using that by (auto simp: bad_segment_def is_control_def)
  ultimately have s10: "10 \<notin> set s" using segs by blast
  have "10 \<notin> set (slug k)" using slug_chars by (force simp: ascii_defs)
  with v s10 have "10 \<notin> set v" by simp
  moreover have t: "trim v = v" using v(2) by (simp add: trim_eq_iff)
  moreover have ne: "v \<noteq> []" using v(1) by simp
  ultimately show "raw_value v" by (simp add: raw_value_def)
  have "hd v \<in> set (slug k)" using v(1) by (cases "slug k") auto
  then have "is_ascii_lowercase (hd v)" by (rule slug_chars)
  then show "clean v = v" using t ne by (intro clean_unquoted) (auto simp: ascii_defs)
  show "\<not> blank v" using t ne by (simp add: blank_def)
qed

lemma date_char_plain: "date_char c \<Longrightarrow> \<not> is_whitespace c \<and> c \<notin> {10, 34, 39}"
  by (auto simp: date_char_def ascii_defs is_whitespace_def lit_def)

lemma date_raw:
  assumes "is_rfc3339_seconds P s" "\<forall>c\<in>set s. date_char c"
  shows "raw_value s" "clean s = s" "\<not> blank s"
proof -
  have ne: "s \<noteq> []" using is_rfc3339_seconds_length [OF assms(1)] by auto
  then have h: "date_char (hd s)" "date_char (last s)" using assms(2) by auto
  then have t: "trim s = s" using ne date_char_plain by (intro trim_ends) auto
  have "10 \<notin> set s" using assms(2) date_char_plain by blast
  then show "raw_value s" using ne t by (simp add: raw_value_def)
  show "clean s = s" using t ne date_char_plain [OF h(1)] by (intro clean_unquoted) auto
  show "\<not> blank s" using ne t by (simp add: blank_def)
qed

lemma as_of_ok:
  assumes "dates_ok P D"
  shows "is_rfc3339_seconds P (as_of_or_now D v timestamp)" "\<forall>c\<in>set (as_of_or_now D v timestamp). date_char c"
proof -
  have e: "\<forall>c\<in>set (lit ''1970-01-01T00:00:00Z''). date_char c"
    by (simp add: date_char_def lit_def ascii_defs)
  show "is_rfc3339_seconds P (as_of_or_now D v timestamp)"
    using assms by (auto simp: as_of_or_now_def dates_ok_def bind_eq_Some_conv split: option.splits)
  show "\<forall>c\<in>set (as_of_or_now D v timestamp). date_char c"
    using assms e by (auto simp: as_of_or_now_def dates_ok_def bind_eq_Some_conv split: option.splits)
qed

definition text_ok :: "ustr \<Rightarrow> bool" where
  "text_ok v \<longleftrightarrow> trim v \<noteq> [] \<and> 0 \<notin> set v"

lemma stored_not_blank: "text_ok v \<Longrightarrow> \<not> blank (stored_scalar v) \<and> clean (yaml_scalar v) \<noteq> []"
  using stored_scalar_not_Nil [of v] by (simp add: text_ok_def blank_def clean_yaml_scalar trim_eq_Nil)

subsection \<open>Sections of a body that ends with a known one\<close>

lemma chapters_append:
  "is_heading h \<Longrightarrow> chapters (xs @ h # ys) =
     (fst (chapters xs), snd (chapters xs) @ snd (chapters (h # ys)))"
proof (induction xs)
  case Nil
  then show ?case by (simp add: case_prod_beta)
next
  case (Cons x xs)
  then show ?case by (cases "chapters xs") (simp add: case_prod_beta)
qed

lemma chapters_plain: "\<forall>y\<in>set ys. \<not> is_heading y \<Longrightarrow> chapters ys = (ys, [])"
  by (induction ys) auto

lemma chapter_sections_append:
  "chapter_sections hs (cs @ ds) = chapter_sections hs cs @ chapter_sections (hs @ map fst cs) ds"
  by (induction hs cs rule: chapter_sections.induct) auto

lemma last_section:
  assumes "is_heading h" "\<forall>y\<in>set ys. \<not> is_heading y" "lines body = xs @ h # ys"
    and "trim (join [10] ys) \<noteq> []"
  shows "\<exists>s\<in>set (split_sections body). sec_heading s = snd (heading_of h) \<and> sec_text s = trim (join [10] ys)"
proof -
  let ?cs = "snd (chapters xs)"
  have "chapters (lines body) = (fst (chapters xs), ?cs @ [(heading_of h, ys)])"
    using assms(1-3) by (simp add: chapters_append chapters_plain)
  then have "chapter_section (map fst ?cs @ [heading_of h]) ys \<in> set (split_sections body)"
    using assms(4)
    by (simp add: split_sections_chapters chapter_sections_append nonempty_section_def chapter_section_def)
  then show ?thesis
    by (rule bexI [rotated]) (simp add: chapter_section_def)
qed

text \<open>The lines of a text and of its lines joined.\<close>

definition strip_cr :: "ustr \<Rightarrow> ustr" where
  "strip_cr l = (if l \<noteq> [] \<and> last l = 13 then butlast l else l)"

lemma strip_line_end_line [simp]: "strip_line_end (l @ [10]) = strip_cr l"
  by (simp add: strip_line_end_def strip_cr_def)

lemma lines_append_line: "10 \<notin> set l \<Longrightarrow> lines (l @ 10 # r) = strip_cr l # lines r"
  by (simp add: lines_def)

lemma lines_last: "10 \<notin> set l \<Longrightarrow> l \<noteq> [] \<Longrightarrow> lines l = [l]"
proof -
  assume l: "10 \<notin> set l" "l \<noteq> []"
  then have "last l \<noteq> 10" using last_in_set by metis
  with l show ?thesis by (simp add: lines_def split_inclusive_none strip_line_end_def)
qed

lemma lines_join:
  "\<forall>l\<in>set ls. 10 \<notin> set l \<Longrightarrow> 10 \<notin> set l' \<Longrightarrow> l' \<noteq> [] \<Longrightarrow>
   lines (join [10] (ls @ [l'])) = map strip_cr ls @ [l']"
proof (induction ls)
  case (Cons l ls)
  have "join [10] ((l # ls) @ [l']) = l @ 10 # join [10] (ls @ [l'])"
    by (cases ls) simp_all
  then show ?case using Cons by (simp add: lines_append_line)
qed (simp add: lines_last)

lemma strip_cr_plain: "plain_line l \<Longrightarrow> strip_cr l = l"
  by (auto simp: plain_line_def strip_cr_def)

lemma lines_append: "lines (s @ 10 # r) = lines (s @ [10]) @ lines r"
proof (induction "length s" arbitrary: s rule: less_induct)
  case less
  show ?case
  proof (cases "10 \<in> set s")
    case True
    then obtain l t where s: "s = l @ 10 # t" "10 \<notin> set l" by (meson split_list_first)
    then show ?thesis using less.hyps [of t] by (simp add: lines_append_line)
  qed (simp add: lines_append_line)
qed

lemma join_lines: "ls \<noteq> [] \<Longrightarrow> join [10] ls @ [10] = concat (map (\<lambda>l. l @ [10]) ls)"
  by (induction ls rule: list_nonempty_induct) (simp_all add: join_Cons)

lemma last_trim: "trim v \<noteq> [] \<Longrightarrow> last (trim v) \<noteq> 13 \<and> last (trim v) \<noteq> 10"
  using trimmed_trim [of v] by (auto simp: trimmed_def is_whitespace_def)

subsection \<open>Evidence\<close>

text \<open>What the staging of Evidence guarantees of it.\<close>

definition staged_ok :: "staged_evidence \<Rightarrow> bool" where
  "staged_ok e \<longleftrightarrow>
     text_ok (ev_title e) \<and> text_ok (ev_summary e) \<and>
     (\<forall>v. ev_source e = Some v \<longrightarrow> text_ok v) \<and> (\<forall>v. ev_period e = Some v \<longrightarrow> text_ok v) \<and>
     (\<forall>v\<in>set (ev_entities e). text_ok v) \<and> ev_citations e \<noteq> [] \<and>
     (\<exists>s. parse_record_id (ev_id e) = Some (Evidence, s))"

lemma known_fields [simp]:
  "lit ''id'' \<in> set scalar_fields" "lit ''title'' \<in> set scalar_fields" "lit ''summary'' \<in> set scalar_fields"
  "lit ''as_of'' \<in> set scalar_fields" "lit ''source'' \<in> set scalar_fields" "lit ''period'' \<in> set scalar_fields"
  "lit ''entities'' \<in> set list_fields" "lit ''aliases'' \<in> set list_fields" "lit ''tags'' \<in> set list_fields"
  "lit ''see_also'' \<in> set list_fields" "lit ''uses'' \<in> set list_fields" "lit ''supports'' \<in> set list_fields"
  by (simp_all add: scalar_fields_def list_fields_def)

lemma evidence_entries_ok:
  assumes "dates_ok P D" "staged_ok e"
  shows "entries_ok (evidence_entries D e timestamp)"
proof -
  have "raw_value (as_of_or_now D (Some (ev_as_of e)) timestamp)"
    using as_of_ok [OF assms(1)] date_raw(1) by blast
  moreover have "raw_value (ev_id e)" using assms(2) canonical_raw(1) by (auto simp: staged_ok_def)
  ultimately show ?thesis
    using assms(2) stored_not_blank
    by (auto simp: entries_ok_def evidence_entries_def raw_yaml_scalar staged_ok_def split: option.splits)
qed

lemma source_line_one_line:
  assumes "dates_ok P D"
  shows "\<exists>r. evidence_source_line D c = 45 # r" "10 \<notin> set (evidence_source_line D c)"
    "13 \<notin> set (evidence_source_line D c)"
proof -
  show "\<exists>r. evidence_source_line D c = 45 # r" by (simp add: evidence_source_line_def Let_def lit_def)
  have inl: "10 \<notin> set (markdown_inline v) \<and> 13 \<notin> set (markdown_inline v)" for v
    using markdown_inline_one_line [of _ v] by (fastforce simp: is_whitespace_def)
  have dt: "10 \<notin> set s \<and> 13 \<notin> set s" if "to_secs D v = Some s" for v s
  proof -
    have "\<forall>c\<in>set s. date_char c" using assms that by (auto simp: dates_ok_def)
    then show ?thesis using date_char_plain by (fastforce simp: is_whitespace_def)
  qed
  have r: "10 \<notin> set (unwrap_or (markdown_inline v) (to_secs D v)) \<and> 13 \<notin> set (unwrap_or (markdown_inline v) (to_secs D v))" for v
    using inl dt by (simp add: unwrap_or_def split: option.split)
  show "10 \<notin> set (evidence_source_line D c)" "13 \<notin> set (evidence_source_line D c)"
    using inl r by (auto simp: evidence_source_line_def Let_def lit_def split: option.splits)
qed

lemma evidence_sources_section:
  assumes "dates_ok P D" "ev_citations e \<noteq> []"
  shows "\<exists>s\<in>set (split_sections (join [10] (lines (evidence_body D e)))).
     sec_heading s = lit ''Sources'' \<and> \<not> blank (sec_text s)"
proof -
  define ys where "ys = map (evidence_source_line D) (ev_citations e)"
  have ne: "ys \<noteq> []" using assms(2) by (simp add: ys_def)
  have ys: "plain_line y \<and> \<not> is_heading y \<and> hd y = 45 \<and> y \<noteq> []" if mem: "y \<in> set ys" for y
  proof -
    obtain c where "y = evidence_source_line D c" using mem by (auto simp: ys_def)
    then obtain r where y: "y = 45 # r" "10 \<notin> set y" "13 \<notin> set y"
      using source_line_one_line [OF assms(1), of c] by auto
    then have "last y \<noteq> 13" using last_in_set [of y] by auto
    with y show ?thesis by (auto simp: plain_line_def is_heading_def count_hashes_def)
  qed
  have body: "evidence_body D e =
      ([10] @ trim (ev_markdown e) @ [10]) @ 10 # concat (map (\<lambda>l. l @ [10]) (lit ''# Sources'' # [] # ys))"
  proof -
    have "join [10] ys @ [10] = concat (map (\<lambda>l. l @ [10]) ys)" using ne by (rule join_lines)
    then show ?thesis by (simp add: evidence_body_def ys_def lit_def)
  qed
  let ?first = "[10] @ trim (ev_markdown e) @ [10]" and ?known = "lit ''# Sources'' # [] # ys"
  have known: "\<forall>l\<in>set ?known. plain_line l" using ys by (auto simp: plain_line_def lit_def)
  have "lines (evidence_body D e) = lines (?first @ [10]) @ lines (concat (map (\<lambda>l. l @ [10]) ?known))"
    unfolding body by (rule lines_append)
  also have "lines (concat (map (\<lambda>l. l @ [10]) ?known)) = ?known"
    using lines_plain_lines [OF known, of "[]"] by (simp only: append_Nil2 lines_Nil)
  finally obtain xs where lines: "lines (evidence_body D e) = xs @ ?known" and xs: "\<forall>l\<in>set xs. 10 \<notin> set l"
    using lines_no_newline by blast
  obtain zs z where yz: "ys = zs @ [z]" using ne by (meson rev_exhaust)
  have plain: "plain_line y" if "y \<in> set (lit ''# Sources'' # [] # zs)" for y
    using that ys yz by (auto simp: plain_line_def lit_def)
  have "lines (join [10] ((xs @ lit ''# Sources'' # [] # zs) @ [z])) =
      map strip_cr (xs @ lit ''# Sources'' # [] # zs) @ [z]"
    using xs ys yz plain by (intro lines_join) (auto simp: plain_line_def lit_def)
  then have l: "lines (join [10] (lines (evidence_body D e))) =
      map strip_cr xs @ lit ''# Sources'' # ([] # ys)"
  proof -
    have "map strip_cr zs = zs" using plain strip_cr_plain by (intro map_idI) simp
    moreover have "strip_cr (lit ''# Sources'') = lit ''# Sources''" "strip_cr [] = []"
      using plain strip_cr_plain by simp_all
    ultimately show ?thesis
      using \<open>lines (join [10] _) = _\<close> lines yz by simp
  qed
  have h: "is_heading (lit ''# Sources'')" "heading_of (lit ''# Sources'') = (1, lit ''Sources'')"
    by (simp_all add: is_heading_def heading_of_def count_hashes_def lit_def trim_def trim_start_def trim_end_def
        is_whitespace_def)
  have "45 \<in> set (join [10] ([] # ys))"
  proof -
    have "join [10] ([] # ys) = [10] @ join [10] ys" using ne by (cases ys) simp_all
    moreover have "hd (hd ys) \<in> set (join [10] ys)"
    proof -
      have "hd ys \<noteq> []" using ys ne by simp
      then have "hd (hd ys) \<in> set (hd ys)" by simp
      then show ?thesis using ne by (cases ys rule: list.exhaust; cases "tl ys") auto
    qed
    moreover have "hd (hd ys) = 45" using ys ne by simp
    ultimately show ?thesis by simp
  qed
  moreover have "\<not> is_whitespace 45" by (simp add: is_whitespace_def)
  ultimately have t: "trim (join [10] ([] # ys)) \<noteq> []" by (metis trim_eq_Nil)
  have "\<forall>y\<in>set ([] # ys). \<not> is_heading y" using ys by (auto simp: is_heading_def count_hashes_def)
  from last_section [OF h(1) this l t] h(2) t show ?thesis
    by (auto simp: blank_def)
qed

lemma body_not_blank:
  assumes "s \<in> set (split_sections body)" "\<not> blank (sec_text s)"
  shows "\<not> blank body"
proof
  assume "blank body"
  then have ws: "\<forall>c\<in>set body. is_whitespace c" by (simp add: blank_def trim_eq_Nil)
  have chars: "c \<in> set (concat (lines b)) \<Longrightarrow> c \<in> set b" for c b
  proof -
    assume "c \<in> set (concat (lines b))"
    then obtain p where p: "p \<in> set (split_inclusive 10 b)" "c \<in> set (strip_line_end p)" by (auto simp: lines_def)
    have "set (strip_line_end p) \<subseteq> set p"
      by (auto simp: strip_line_end_def Let_def split: if_splits dest: in_set_butlastD)
    moreover have "concat (split_inclusive 10 b) = b"
      by (induction b) (auto split: list.splits)
    moreover have "c \<in> set (concat (split_inclusive 10 b))" using p calculation(1) by auto
    ultimately show "c \<in> set b" by (simp only:)
  qed
  have no_heading: "\<not> is_heading l" if "l \<in> set (lines body)" for l
  proof
    assume "is_heading l"
    then have "l \<noteq> [] \<and> hd l = 35"
      by (cases l) (auto simp: is_heading_def count_hashes_def split: if_splits)
    then have "35 \<in> set (concat (lines body))" using that hd_in_set by force
    then have "is_whitespace 35" using ws chars by blast
    then show False by (simp add: is_whitespace_def)
  qed
  then have "split_sections body = filter nonempty_section [chapter_section [] (lines body)]"
    by (simp add: split_sections_chapters chapters_plain)
  then have "sec_text s = trim (join [10] (lines body))"
    using assms(1) by (auto simp: chapter_section_def split: if_splits)
  moreover have "\<forall>c\<in>set (join [10] (lines body)). is_whitespace c"
  proof
    fix c assume "c \<in> set (join [10] (lines body))"
    then have "c = 10 \<or> c \<in> set (concat (lines body))" using set_join [of "[10]" "lines body"] by auto
    then show "is_whitespace c"
    proof
      assume "c = 10"
      then show ?thesis by (simp add: is_whitespace_def)
    qed (use ws chars in blast)
  qed
  ultimately have "trim (sec_text s) = []" by (simp add: trim_eq_Nil)
  with assms(2) show False by (simp add: blank_def)
qed

lemma list_at_simps [simp]:
  "list_at [] k = []"
  "list_at (e # es) k = (if entry_key e = k then (case entry_list e of None \<Rightarrow> [] | Some vs \<Rightarrow> vs) else list_at es k)"
  by (simp_all add: list_at_def)

lemma scalar_at_simps [simp]:
  "scalar_at [] k = None"
  "scalar_at (e # es) k = (if entry_key e = lit k then entry_scalar e else scalar_at es k)"
  by (simp_all add: scalar_at_def)

text \<open>What the core reads of a staged record.\<close>

lemma evidence_document:
  assumes "dates_ok P D" "staged_ok e"
    and doc: "doc = document_from_content (Evidence, names) (evidence_markdown D e timestamp)"
  shows "doc_read_error doc = None \<and> doc_duplicate_fields doc = {} \<and>
    doc_id doc = ev_id e \<and> doc_title doc = stored_scalar (ev_title e) \<and>
    doc_summary doc = stored_scalar (ev_summary e) \<and>
    doc_as_of doc = as_of_or_now D (Some (ev_as_of e)) timestamp \<and>
    doc_source doc = map_option stored_scalar (ev_source e) \<and>
    doc_period doc = map_option stored_scalar (ev_period e) \<and>
    doc_entities doc = map stored_scalar (ev_entities e) \<and>
    doc_status doc = None \<and> doc_revoked_by doc = None \<and> doc_see_also doc = [] \<and> doc_relationships doc = [] \<and>
    doc_body doc = join [10] (lines (evidence_body D e)) \<and> doc_kind doc = lit ''evidence'' \<and>
    doc_declared_fields doc \<subseteq> {lit ''id'', lit ''title'', lit ''summary'', lit ''as_of'', lit ''source'',
      lit ''period'', lit ''entities''}"
proof -
  let ?es = "evidence_entries D e timestamp"
  have ok: "entries_ok ?es" using assms(1,2) by (rule evidence_entries_ok)
  have a: "clean (as_of_or_now D (Some (ev_as_of e)) timestamp) = as_of_or_now D (Some (ev_as_of e)) timestamp"
    using as_of_ok [OF assms(1)] date_raw(2) by blast
  have i: "clean (ev_id e) = ev_id e" using assms(2) canonical_raw(2) by (auto simp: staged_ok_def)
  have rel: "list_at ?es k = []" if "k \<in> set relationship_types" for k
    using that by (auto simp: relationship_types_def evidence_entries_def split: option.splits)
  have r: "concat (map (\<lambda>kind. map (\<lambda>target. \<lparr>rel_kind = kind, rel_target = target\<rparr>) (list_at ?es kind))
      relationship_types) = []" using rel by simp
  have k: "entry_key ` set ?es \<subseteq> {lit ''id'', lit ''title'', lit ''summary'', lit ''as_of'', lit ''source'',
      lit ''period'', lit ''entities''}"
    by (auto simp: evidence_entries_def split: option.splits if_splits)
  show ?thesis
    unfolding doc evidence_markdown_entries document_of_entries [OF ok] document.simps r
    using k by (auto simp: evidence_entries_def unwrap_or_def clean_yaml_scalar a i comp_def split: option.splits)
qed

lemma evidence_valid:
  assumes "dates_ok P D" "staged_ok e"
  shows "document_is_valid P (document_from_content (Evidence, names) (evidence_markdown D e timestamp))"
proof -
  define doc where "doc = document_from_content (Evidence, names) (evidence_markdown D e timestamp)"
  note fields = evidence_document [OF assms doc_def]
  have fin: "finite (doc_duplicate_fields doc)" using fields by simp
  obtain s where s: "parse_record_id (ev_id e) = Some (Evidence, s)" using assms(2) by (auto simp: staged_ok_def)
  have a: "is_rfc3339_seconds P (doc_as_of doc)" "\<not> blank (doc_as_of doc)"
    using fields as_of_ok [OF assms(1)] date_raw(3) [of P] by metis+
  have header: "valid_header P doc"
    using fields a s stored_not_blank assms(2) by (auto simp: valid_header_def staged_ok_def)
  obtain sec where sec: "sec \<in> set (split_sections (doc_body doc))" "sec_heading sec = lit ''Sources''"
      "\<not> blank (sec_text sec)"
    using evidence_sources_section [OF assms(1), of e] assms(2) fields by (auto simp: staged_ok_def)
  have "has_sources_section doc"
    unfolding has_sources_section_def list_ex_iff
    by (rule bexI [OF _ sec(1)]) (simp add: sec(2,3) eq_ignore_ascii_case_def)
  moreover have "\<not> blank (doc_body doc)" using sec body_not_blank by blast
  ultimately have evidence: "valid_evidence doc"
    using fields stored_not_blank assms(2) by (auto simp: valid_evidence_def staged_ok_def split: option.splits)
  have d: "lit n \<notin> doc_declared_fields doc"
    if "n \<in> {''status'', ''revoked_by'', ''see_also'', ''uses'', ''supports'', ''contradicts'', ''updates''}" for n
    using fields that by auto
  have status: "valid_status doc" using fields d by (auto simp: valid_status_def)
  have links: "valid_links doc" using fields d by (auto simp: valid_links_def relationship_types_def)
  show ?thesis
    using header evidence status links document_valid_iff [OF fin, of P] by (simp add: doc_def)
qed

subsection \<open>Decisions\<close>

lemma id_entry_ok:
  "lit name \<in> set list_fields \<Longrightarrow> \<forall>i\<in>set ids. parse_record_id i \<noteq> None \<Longrightarrow> entry_ok (id_entry name ids)"
  using canonical_raw(1,2) by (fastforce simp: id_entry_def raw_value_def)

lemma decision_entries_ok:
  assumes "dates_ok P D" "parse_record_id record_id = Some (Decision, s)"
    and "\<forall>i\<in>set supports \<union> set uses. parse_record_id i \<noteq> None"
  shows "entries_ok (decision_entries D payload record_id timestamp supports uses)"
proof -
  have "raw_value (as_of_or_now D None timestamp)" using as_of_ok [OF assms(1)] date_raw(1) by blast
  moreover have "raw_value record_id" using assms(2) by (rule canonical_raw(1))
  moreover have "entry_ok (id_entry ''uses'' uses)" "entry_ok (id_entry ''supports'' supports)"
    using assms(3) by (simp_all add: id_entry_ok)
  moreover have "entry_key (id_entry n ids) = lit n" for n ids by (simp add: id_entry_def)
  ultimately show ?thesis by (simp add: entries_ok_def decision_entries_def raw_yaml_scalar)
qed

lemma clean_ids: "\<forall>i\<in>set ids. parse_record_id i \<noteq> None \<Longrightarrow> map clean ids = ids"
  using canonical_raw(2) by (force intro: map_idI)

lemma decision_document:
  assumes "dates_ok P D" "parse_record_id record_id = Some (Decision, s)"
    and ids: "\<forall>i\<in>set supports \<union> set uses. parse_record_id i \<noteq> None"
    and doc: "doc = document_from_content (Decision, names)
      (decision_markdown percent D payload record_id timestamp supports uses)"
  shows "doc_read_error doc = None \<and> doc_duplicate_fields doc = {} \<and> doc_id doc = record_id \<and>
    doc_title doc = stored_scalar (decision_record_title payload) \<and>
    doc_summary doc = stored_scalar (decision_summary payload) \<and>
    doc_as_of doc = as_of_or_now D None timestamp \<and>
    doc_status doc = None \<and> doc_revoked_by doc = None \<and> doc_see_also doc = [] \<and>
    doc_relationships doc = map (\<lambda>i. \<lparr>rel_kind = lit ''uses'', rel_target = i\<rparr>) uses @
      map (\<lambda>i. \<lparr>rel_kind = lit ''supports'', rel_target = i\<rparr>) supports \<and>
    doc_kind doc = lit ''decision'' \<and>
    doc_declared_fields doc = {lit ''id'', lit ''title'', lit ''summary'', lit ''as_of'', lit ''uses'', lit ''supports''}"
proof -
  let ?es = "decision_entries D payload record_id timestamp supports uses"
  have ok: "entries_ok ?es" using assms(1-3) by (rule decision_entries_ok)
  have a: "clean (as_of_or_now D None timestamp) = as_of_or_now D None timestamp"
    using as_of_ok [OF assms(1)] date_raw(2) by blast
  have i: "clean record_id = record_id" using assms(2) by (rule canonical_raw(2))
  have c: "map clean uses = uses" "map clean supports = supports" using ids by (simp_all add: clean_ids)
  have key: "entry_key (id_entry n ids) = lit n" "entry_scalar (id_entry n ids) = None"
    "entry_list (id_entry n ids) = Some (map clean ids)" for n ids
    by (simp_all add: id_entry_def)
  show ?thesis
    unfolding doc decision_markdown_entries document_of_entries [OF ok] document.simps
    by (auto simp: decision_entries_def unwrap_or_def clean_yaml_scalar a i c key relationship_types_def)
qed

lemma decision_valid_iff:
  assumes "dates_ok P D" "parse_record_id record_id = Some (Decision, s)"
    and "\<forall>i\<in>set supports \<union> set uses. parse_record_id i \<noteq> None"
  shows "document_is_valid P (document_from_content (Decision, names)
      (decision_markdown percent D payload record_id timestamp supports uses)) \<longleftrightarrow>
    \<not> blank (stored_scalar (decision_record_title payload)) \<and> \<not> blank (stored_scalar (decision_summary payload))"
proof -
  define doc where "doc = document_from_content (Decision, names)
      (decision_markdown percent D payload record_id timestamp supports uses)"
  note fields = decision_document [OF assms doc_def]
  have fin: "finite (doc_duplicate_fields doc)" using fields by simp
  have a: "is_rfc3339_seconds P (doc_as_of doc)" "\<not> blank (doc_as_of doc)"
    using fields as_of_ok [OF assms(1)] date_raw(3) [of P] by metis+
  have status: "valid_status doc" using fields by (auto simp: valid_status_def)
  have links: "valid_links doc"
    using fields by (auto simp: valid_links_def relationship_types_def relationship_field_allowed_def)
  have "valid_header P doc \<longleftrightarrow> \<not> blank (doc_title doc) \<and> \<not> blank (doc_summary doc)"
    using fields a assms(2) by (auto simp: valid_header_def)
  then show ?thesis
    using status links document_valid_iff [OF fin, of P] fields by (simp add: doc_def)
qed

subsection \<open>Drafts\<close>

lemma draft_markdown_Inr:
  assumes "draft_markdown D d record_id = Inr (kind, md)"
  obtains as_of entities aliases tags see_also where
    "editable_kind (dr_kind d) = Some kind" "kind = Wiki \<or> kind = Lens"
    "text_ok (trim (dr_title d))" "byte_len (trim (dr_title d)) \<le> 512"
    "text_ok (trim (dr_summary d))" "to_secs D (trim (dr_as_of d)) = Some as_of"
    "validate_items (dr_entities d) ''Memory entities'' = Inr entities"
    "validate_items (dr_aliases d) ''Memory aliases'' = Inr aliases"
    "validate_items (dr_tags d) ''Memory tags'' = Inr tags"
    "validate_items (dr_see_also d) ''Memory see_also'' = Inr see_also"
    "kind = Wiki \<or> see_also = []"
    "md = draft_text d kind record_id (trim (dr_title d)) (trim (dr_summary d)) as_of entities aliases tags see_also"
proof -
  have k: "kind = Wiki \<or> kind = Lens" if "editable_kind v = Some kind" for v
    using that by (auto simp: editable_kind_def keep_if_def split: option.splits if_splits)
  show thesis
    using assms k by (auto simp: draft_markdown_def text_ok_def intro: that)
qed

lemma items_ok:
  assumes "validate_items vs what = Inr us" "lit key \<in> set list_fields"
  shows "\<forall>e\<in>set (list_entries (lit key) us). entry_ok e"
proof -
  have "raw_value (yaml_scalar u) \<and> clean (yaml_scalar u) \<noteq> []" if "u \<in> set us" for u
  proof -
    have "text_ok u" using validate_items_Inr(3) [OF assms(1)] that by (auto simp: text_ok_def)
    then show ?thesis using raw_yaml_scalar stored_not_blank by blast
  qed
  then show ?thesis using assms(2) by (auto simp: list_entries_def)
qed

lemma draft_entries_ok:
  assumes "dates_ok P D" "parse_record_id record_id = Some (kind, s)" "to_secs D v = Some as_of"
    and "validate_items es n1 = Inr entities" "validate_items al n2 = Inr aliases"
      "validate_items tg n3 = Inr tags" "validate_items sa n4 = Inr see_also"
  shows "entries_ok (draft_entries record_id title summary as_of entities aliases tags see_also)"
proof -
  have "is_rfc3339_seconds P as_of" "\<forall>c\<in>set as_of. date_char c"
    using assms(1,3) by (auto simp: dates_ok_def)
  then have "raw_value as_of" by (rule date_raw(1))
  moreover have "raw_value record_id" using assms(2) by (rule canonical_raw(1))
  moreover have "map entry_key (list_entries k us) = (if us = [] then [] else [k])" for k us
    by (simp add: list_entries_def)
  ultimately show ?thesis
    using items_ok [OF assms(4), of "''entities''"] items_ok [OF assms(5), of "''aliases''"]
      items_ok [OF assms(6), of "''tags''"] items_ok [OF assms(7), of "''see_also''"]
    by (auto simp: entries_ok_def draft_entries_def raw_yaml_scalar)
qed

lemma at_list_entries:
  "k \<noteq> lit k' \<Longrightarrow> scalar_at (list_entries k us @ es) k' = scalar_at es k'"
  "list_at (list_entries k us @ es) k'' =
     (if k = k'' \<and> us \<noteq> [] then map stored_scalar us else list_at es k'')"
  by (simp_all add: list_entries_def clean_yaml_scalar comp_def)

lemma at_list_entries_last:
  "k \<noteq> lit k' \<Longrightarrow> scalar_at (list_entries k us) k' = None"
  "list_at (list_entries k us) k'' = (if k = k'' then map stored_scalar us else [])"
  by (simp_all add: list_entries_def clean_yaml_scalar comp_def)

lemma draft_document:
  assumes "dates_ok P D" "parse_record_id record_id = Some (kind, s)"
    and d: "draft_markdown D d record_id = Inr (kind, md)"
    and doc: "doc = document_from_content (kind, names) md"
  shows "doc_read_error doc = None \<and> doc_duplicate_fields doc = {} \<and> doc_id doc = record_id \<and>
    doc_title doc = stored_scalar (trim (dr_title d)) \<and> doc_summary doc = stored_scalar (trim (dr_summary d)) \<and>
    to_secs D (trim (dr_as_of d)) = Some (doc_as_of doc) \<and>
    set (doc_entities doc) = stored_scalar ` trim ` set (dr_entities d) \<and>
    set (doc_aliases doc) = stored_scalar ` trim ` set (dr_aliases d) \<and>
    set (doc_tags doc) = stored_scalar ` trim ` set (dr_tags d) \<and>
    set (doc_see_also doc) = stored_scalar ` trim ` set (dr_see_also d) \<and>
    doc_source doc = None \<and> doc_status doc = None \<and> doc_revoked_by doc = None \<and> doc_relationships doc = [] \<and>
    (kind = Wiki \<or> lit ''see_also'' \<notin> doc_declared_fields doc) \<and> doc_kind doc = slug kind \<and>
    doc_declared_fields doc \<subseteq> {lit ''id'', lit ''title'', lit ''summary'', lit ''as_of'', lit ''entities'',
      lit ''aliases'', lit ''tags'', lit ''see_also''} \<and>
    text_ok (trim (dr_title d)) \<and> text_ok (trim (dr_summary d)) \<and> byte_len (trim (dr_title d)) \<le> 512 \<and>
    (kind = Wiki \<or> kind = Lens)"
proof -
  obtain as_of entities aliases tags see_also where
    v: "validate_items (dr_entities d) ''Memory entities'' = Inr entities"
      "validate_items (dr_aliases d) ''Memory aliases'' = Inr aliases"
      "validate_items (dr_tags d) ''Memory tags'' = Inr tags"
      "validate_items (dr_see_also d) ''Memory see_also'' = Inr see_also"
    and t: "to_secs D (trim (dr_as_of d)) = Some as_of" "kind = Wiki \<or> kind = Lens"
      "text_ok (trim (dr_title d))" "text_ok (trim (dr_summary d))" "kind = Wiki \<or> see_also = []"
      "byte_len (trim (dr_title d)) \<le> 512"
    and md: "md = draft_text d kind record_id (trim (dr_title d)) (trim (dr_summary d)) as_of entities aliases tags see_also"
    using d by (rule draft_markdown_Inr)
  let ?es = "draft_entries record_id (trim (dr_title d)) (trim (dr_summary d)) as_of entities aliases tags see_also"
  have ok: "entries_ok ?es" using assms(1,2) t(1) v by (rule draft_entries_ok)
  have "is_rfc3339_seconds P as_of" "\<forall>c\<in>set as_of. date_char c" using assms(1) t(1) by (auto simp: dates_ok_def)
  then have a: "clean as_of = as_of" by (rule date_raw(2))
  have i: "clean record_id = record_id" using assms(2) by (rule canonical_raw(2))
  have k: "entry_key ` set ?es \<subseteq> {lit ''id'', lit ''title'', lit ''summary'', lit ''as_of'', lit ''entities'',
      lit ''aliases'', lit ''tags'', lit ''see_also''}"
    by (auto simp: draft_entries_def list_entries_def split: if_splits)
  have see: "kind = Wiki \<or> lit ''see_also'' \<notin> entry_key ` set ?es"
    using t(5) by (auto simp: draft_entries_def list_entries_def split: if_splits)
  have us: "set entities = trim ` set (dr_entities d)" "set aliases = trim ` set (dr_aliases d)"
    "set tags = trim ` set (dr_tags d)" "set see_also = trim ` set (dr_see_also d)"
    using v by (simp_all add: validate_items_Inr(1))
  have lists: "list_at ?es (lit ''entities'') = map stored_scalar entities"
    "list_at ?es (lit ''aliases'') = map stored_scalar aliases" "list_at ?es (lit ''tags'') = map stored_scalar tags"
    "list_at ?es (lit ''see_also'') = map stored_scalar see_also"
    by (simp_all add: draft_entries_def at_list_entries at_list_entries_last)
  have scalars: "scalar_at ?es ''id'' = Some record_id" "scalar_at ?es ''as_of'' = Some as_of"
    "scalar_at ?es ''title'' = Some (stored_scalar (trim (dr_title d)))"
    "scalar_at ?es ''summary'' = Some (stored_scalar (trim (dr_summary d)))"
    by (simp_all add: draft_entries_def clean_yaml_scalar a i)
  have none: "scalar_at ?es ''source'' = None" "scalar_at ?es ''status'' = None" "scalar_at ?es ''revoked_by'' = None"
    by (simp_all add: draft_entries_def at_list_entries at_list_entries_last)
  have rel: "concat (map (\<lambda>kind. map (\<lambda>target. \<lparr>rel_kind = kind, rel_target = target\<rparr>) (list_at ?es kind))
      relationship_types) = []"
    by (simp add: relationship_types_def draft_entries_def at_list_entries at_list_entries_last)
  show ?thesis
    unfolding doc md draft_text_entries document_of_entries [OF ok] document.simps lists scalars none rel
    using k see t us by (simp add: unwrap_or_def image_image)
qed

text \<open>
  Opening a record in the editor and saving it (\<^theory_text>\<open>MemoryEditor.tsx\<close>,
  \<^theory_text>\<open>draftFromRecord\<close>): the title and the date are those the core read, the summary is the
  excerpt of 320 characters that \<^theory_text>\<open>runtime_record_summary\<close> makes of the core's.
\<close>

definition edited_draft :: "library_draft \<Rightarrow> document \<Rightarrow> library_draft" where
  "edited_draft d doc =
     d\<lparr>dr_title := doc_title doc, dr_summary := take 320 (doc_summary doc), dr_as_of := doc_as_of doc\<rparr>"

fun resave :: "dates \<Rightarrow> mem_path \<Rightarrow> ustr \<Rightarrow> nat \<Rightarrow> library_draft \<Rightarrow> command_error + library_draft" where
  "resave D path record_id n d =
     (if n = 0 then Inr d
      else and_then (draft_markdown D d record_id) (\<lambda>(kind, md).
        resave D path record_id (n - 1) (edited_draft d (document_from_content path md))))"

declare resave.simps [simp del]

definition with_quotes :: "nat \<Rightarrow> ustr \<Rightarrow> ustr" where
  "with_quotes n t = concat (map (\<lambda>c. if c = 39 then replicate n 39 else [c]) t)"

lemma with_quotes_escape: "with_quotes n (quote_escape t) = with_quotes (2 * n) t"
  by (induction t) (simp_all add: with_quotes_def mult_2 replicate_add)

lemma with_quotes_one: "with_quotes (Suc 0) t = t"
  by (induction t) (simp_all add: with_quotes_def)

lemma length_with_quotes: "39 \<in> set t \<Longrightarrow> n \<le> length (with_quotes n t)"
  by (induction t) (auto simp: with_quotes_def)

lemma save_once:
  assumes "dates_ok P D" "parse_record_id record_id = Some (kind, s)" "editable_kind (dr_kind d) = Some kind"
    and "trimmed (dr_title d)" "{10, 13, 0} \<inter> set (dr_title d) = {}"
    and "draft_markdown D d record_id = Inr (k, md)"
  shows "dr_title (edited_draft d (document_from_content (kind, names) md)) = quote_escape (dr_title d)"
proof -
  have k: "k = kind" using assms(3,6) by (auto elim!: draft_markdown_Inr)
  have "doc_title (document_from_content (kind, names) md) = stored_scalar (trim (dr_title d))"
    using draft_document [OF assms(1,2) assms(6) [unfolded k] refl] by blast
  also have "trim (dr_title d) = dr_title d" using assms(4) by (simp add: trim_eq_iff)
  finally show ?thesis using stored_scalar_line [OF assms(4,5)] by (simp add: edited_draft_def)
qed

lemma resave_title:
  assumes "dates_ok P D" "parse_record_id record_id = Some (kind, s)" "editable_kind (dr_kind d) = Some kind"
    and "trimmed (dr_title d)" "{10, 13, 0} \<inter> set (dr_title d) = {}"
    and "resave D (kind, names) record_id n d = Inr d'"
  shows "dr_title d' = with_quotes (2 ^ n) (dr_title d)"
  using assms(3-)
proof (induction n arbitrary: d)
  case 0
  then show ?case by (simp add: resave.simps with_quotes_one)
next
  case (Suc n)
  let ?next = "\<lambda>md. edited_draft d (document_from_content (kind, names) md)"
  obtain k md where md: "draft_markdown D d record_id = Inr (k, md)"
      and rest: "resave D (kind, names) record_id n (?next md) = Inr d'"
    using Suc.prems(4) by (subst (asm) resave.simps) auto
  have title: "dr_title (?next md) = quote_escape (dr_title d)"
    using save_once [OF assms(1,2) Suc.prems(1-3) md] .
  have "quote_escape (dr_title d) = stored_scalar (dr_title d)"
    using stored_scalar_line [OF Suc.prems(2,3)] by simp
  moreover have "trimmed (stored_scalar (dr_title d))" by (simp add: stored_scalar_def)
  ultimately have "trimmed (dr_title (?next md))" unfolding title by simp
  moreover have "{10, 13, 0} \<inter> set (dr_title (?next md)) = {}"
    unfolding title set_quote_escape by (rule Suc.prems(3))
  moreover have "editable_kind (dr_kind (?next md)) = Some kind" using Suc.prems(1) by (simp add: edited_draft_def)
  ultimately show ?case using Suc.IH rest by (simp add: title with_quotes_escape)
qed

lemma resave_add:
  "resave D path record_id (m + n) d = and_then (resave D path record_id m d) (resave D path record_id n)"
proof (induction m arbitrary: d)
  case (Suc m)
  then show ?case
    by (cases "draft_markdown D d record_id")
      (simp_all add: resave.simps [of D path record_id "Suc (m + n)"] resave.simps [of D path record_id "Suc m"]
        case_prod_beta)
qed (simp add: resave.simps [of D path record_id 0])

text \<open>A title with a quote cannot be saved eleven times, and a long summary not once without loss.\<close>

lemma quoted_title_refused:
  assumes "dates_ok P D" "parse_record_id record_id = Some (kind, s)" "editable_kind (dr_kind d) = Some kind"
    and "trimmed (dr_title d)" "{10, 13, 0} \<inter> set (dr_title d) = {}" "39 \<in> set (dr_title d)"
  shows "\<nexists>d'. resave D (kind, names) record_id 11 d = Inr d'"
proof
  assume "\<exists>d'. resave D (kind, names) record_id 11 d = Inr d'"
  then obtain d1 d2 where d1: "resave D (kind, names) record_id 10 d = Inr d1"
      and d2: "resave D (kind, names) record_id 1 d1 = Inr d2"
    using resave_add [of D "(kind, names)" record_id 10 1 d] by auto
  have t: "dr_title d1 = with_quotes (2 ^ 10) (dr_title d)" using resave_title [OF assms(1-5) d1] .
  have "\<not> is_whitespace 39" by simp
  have trim: "trim (dr_title d1) = dr_title d1"
  proof -
    have ne: "dr_title d \<noteq> []" using assms(6) by auto
    then have "hd (dr_title d1) = hd (dr_title d)" unfolding t by (cases "dr_title d") (auto simp: with_quotes_def)
    moreover have "last (dr_title d1) = last (dr_title d)"
      unfolding t using ne by (cases "dr_title d" rule: rev_cases) (auto simp: with_quotes_def)
    moreover have "dr_title d1 \<noteq> []" unfolding t using ne by (cases "dr_title d") (auto simp: with_quotes_def)
    ultimately show ?thesis using assms(4) ne by (simp add: trim_eq_iff trimmed_def)
  qed
  obtain k md where "draft_markdown D d1 record_id = Inr (k, md)"
    using d2 by (subst (asm) resave.simps) auto
  then have "byte_len (dr_title d1) \<le> 512" using trim by (auto elim!: draft_markdown_Inr)
  moreover have "1024 \<le> length (dr_title d1)" unfolding t using length_with_quotes [OF assms(6), of 1024] by simp
  ultimately show False using length_le_byte_len [of "dr_title d1"] by linarith
qed

lemma saved_summary_length:
  assumes "resave D path record_id (Suc n) d = Inr d'"
  shows "length (dr_summary d') \<le> 320"
proof -
  obtain d1 where "resave D path record_id n d = Inr d1" and "resave D path record_id 1 d1 = Inr d'"
    using assms resave_add [of D path record_id n 1 d] by (cases "resave D path record_id n d") auto
  then show ?thesis
    by (subst (asm) (2) resave.simps) (auto simp: resave.simps [of D path record_id 0] edited_draft_def)
qed

subsection \<open>Properties\<close>

text \<open>
  C39: A draft of the library that the host accepts becomes a record that the core accepts, exactly when its
  links, as they are stored, are distinct, go to Wiki records and not to the record itself: nothing else in
  the title, the summary, the lists or the text makes the frontmatter or the record invalid.
\<close>

theorem library_draft_valid_iff:
  assumes "dates_ok P D" "parse_record_id record_id = Some (kind, s)"
    and "draft_markdown D d record_id = Inr (kind, md)"
  shows "document_is_valid P (document_from_content (kind, names) md) \<longleftrightarrow>
    (let links = doc_see_also (document_from_content (kind, names) md) in
     distinct links \<and> record_id \<notin> set links \<and> list_all (\<lambda>t. starts_with t (lit ''wiki:'')) links)"
proof -
  define doc where "doc = document_from_content (kind, names) md"
  note fields = draft_document [OF assms doc_def]
  have declared: "doc_declared_fields doc \<subseteq> {lit ''id'', lit ''title'', lit ''summary'', lit ''as_of'',
      lit ''entities'', lit ''aliases'', lit ''tags'', lit ''see_also''}"
    using fields by (elim conjE)
  have fin: "finite (doc_duplicate_fields doc)" using fields by simp
  have "is_rfc3339_seconds P (doc_as_of doc)" "\<forall>c\<in>set (doc_as_of doc). date_char c"
    using assms(1) fields by (auto simp: dates_ok_def)
  then have a: "is_rfc3339_seconds P (doc_as_of doc)" "\<not> blank (doc_as_of doc)" using date_raw(3) by blast+
  have header: "valid_header P doc"
    using fields a assms(2) stored_not_blank by (auto simp: valid_header_def)
  have kind: "doc_kind doc = lit ''wiki'' \<or> doc_kind doc = lit ''lens''" using fields by auto
  have d: "lit n \<notin> doc_declared_fields doc"
    if "n \<in> {''status'', ''revoked_by'', ''uses'', ''supports'', ''contradicts'', ''updates''}" for n
    using that subsetD [OF declared, of "lit n"] by auto
  have status: "valid_status doc" using fields d by (auto simp: valid_status_def)
  have "doc_kind doc \<noteq> lit ''wiki'' \<Longrightarrow> lit ''see_also'' \<notin> doc_declared_fields doc" using fields by auto
  then have links: "valid_links doc \<longleftrightarrow> distinct (doc_see_also doc) \<and> record_id \<notin> set (doc_see_also doc) \<and>
      list_all (\<lambda>t. starts_with t (lit ''wiki:'')) (doc_see_also doc)"
    using fields d by (auto simp: valid_links_def relationship_types_def list_all_iff)
  show ?thesis
    using header status links kind document_valid_iff [OF fin, of P] by (auto simp: doc_def Let_def)
qed

text \<open>
  C40: The title of a record changes when it is saved without a change: each quote in it is doubled by every
  save, because the host writes quotes twice and the core that reads the title back does not undo it.
\<close>

theorem saving_doubles_quotes:
  assumes "dates_ok P D" "parse_record_id record_id = Some (kind, s)" "editable_kind (dr_kind d) = Some kind"
    and "trimmed (dr_title d)" "{10, 13, 0} \<inter> set (dr_title d) = {}"
    and "resave D (kind, names) record_id n d = Inr d'"
  shows "dr_title d' = with_quotes (2 ^ n) (dr_title d)"
  using assms by (rule resave_title)

subsection \<open>Witnesses\<close>

definition sample_dates :: dates where
  "sample_dates =
     \<lparr>to_secs = (\<lambda>v. if v = lit ''2026-08-19T00:00:00Z'' then Some v else None), millis_secs = (\<lambda>t. None)\<rparr>"

definition sample_draft :: library_draft where
  "sample_draft =
     \<lparr>dr_kind = lit ''Wiki'', dr_title = lit ''Moody'' @ [39] @ lit ''s'', dr_summary = lit ''A rating agency.'',
      dr_as_of = lit ''2026-08-19T00:00:00Z'', dr_entities = [lit ''ticker:MCO''], dr_aliases = [], dr_tags = [],
      dr_see_also = [lit ''wiki:ratings''], dr_scope = [], dr_assumptions = [], dr_counterexamples = [],
      dr_limits = [], dr_invalidation = [], dr_body = lit ''# Notes''\<rparr>"

lemma sample_dates_ok: "dates_ok ascii_platform sample_dates"
proof -
  have "is_rfc3339_seconds ascii_platform (lit ''2026-08-19T00:00:00Z'')"
    "is_rfc3339_seconds ascii_platform (lit ''1970-01-01T00:00:00Z'')"
    "list_all date_char (lit ''2026-08-19T00:00:00Z'')" by code_simp+
  then show ?thesis by (auto simp: dates_ok_def sample_dates_def list_all_iff)
qed

lemma library_draft_valid_iff_witness:
  "\<exists>md. draft_markdown sample_dates sample_draft (lit ''wiki:moodys'') = Inr (Wiki, md) \<and>
     document_is_valid ascii_platform (document_from_content (Wiki, [lit ''moodys.md'']) md)"
proof -
  have "case draft_markdown sample_dates sample_draft (lit ''wiki:moodys'') of Inl e \<Rightarrow> False
      | Inr (k, md) \<Rightarrow> k = Wiki \<and> doc_see_also (document_from_content (Wiki, [lit ''moodys.md'']) md) = [lit ''wiki:ratings'']"
    by code_simp
  then obtain md where md: "draft_markdown sample_dates sample_draft (lit ''wiki:moodys'') = Inr (Wiki, md)"
      and links: "doc_see_also (document_from_content (Wiki, [lit ''moodys.md'']) md) = [lit ''wiki:ratings'']"
    by (auto split: sum.splits)
  have "parse_record_id (lit ''wiki:moodys'') = Some (Wiki, lit ''moodys'')" by code_simp
  from library_draft_valid_iff [OF sample_dates_ok this md, of "[lit ''moodys.md'']"] md links show ?thesis
    by (auto simp: Let_def starts_with_def lit_def)
qed

lemma saving_doubles_quotes_witness:
  "\<exists>d'. resave sample_dates (Wiki, [lit ''moodys.md'']) (lit ''wiki:moodys'') 2 sample_draft = Inr d' \<and>
     dr_title d' = lit ''Moody'' @ replicate 4 39 @ lit ''s''"
proof -
  have "is_ok (resave sample_dates (Wiki, [lit ''moodys.md'']) (lit ''wiki:moodys'') 2 sample_draft)" by code_simp
  then obtain d' where d': "resave sample_dates (Wiki, [lit ''moodys.md'']) (lit ''wiki:moodys'') 2 sample_draft = Inr d'"
    by (auto simp: is_ok_iff)
  have i: "parse_record_id (lit ''wiki:moodys'') = Some (Wiki, lit ''moodys'')"
    "editable_kind (dr_kind sample_draft) = Some Wiki" "trimmed (dr_title sample_draft)" by code_simp+
  have "{10, 13, 0} \<inter> set (dr_title sample_draft) = {}" by (simp add: sample_draft_def lit_def)
  from saving_doubles_quotes [OF sample_dates_ok i this d'] d' show ?thesis
    by (simp add: with_quotes_def sample_draft_def lit_def)
qed

end
