(* ===== verification/Update_Flow.thy ===== *)
theory Update_Flow
  imports Maintenance Host_Text Json_Value
begin

text \<open>
  The updater (\<^theory_text>\<open>updater.rs\<close>): the schedule of the automatic checks, the phases of a check and
  of an installation with the maintenance gate around it, the feeds a build accepts and what
  their answers mean. The request to the feed, the confirmation, the download and the installer
  are inputs; a write of the schedule fails with the text of the database's error, or not. Times are
  \<^theory_text>\<open>i64\<close> milliseconds and are integers here: a clock is far from the bounds of the type.
\<close>

subsection \<open>The schedule\<close>

record update_schedule =
  us_schema_version :: nat
  us_failure_count :: nat
  us_last_attempt :: "int option"
  us_last_success :: "int option"
  us_next_auto :: int

definition schedule_default :: update_schedule where
  "schedule_default = \<lparr>us_schema_version = 1, us_failure_count = 0, us_last_attempt = None,
     us_last_success = None, us_next_auto = 0\<rparr>"

definition negative_time :: "int option \<Rightarrow> bool" where
  "negative_time t = (case t of None \<Rightarrow> False | Some v \<Rightarrow> v < 0)"

definition validate_schedule :: "update_schedule \<Rightarrow> ustr + unit" where
  "validate_schedule u =
     (if us_schema_version u \<noteq> 1 then Inl (lit ''invalid object: stored update schedule schema is unsupported'')
      else if 4 < us_failure_count u \<or> us_next_auto u < 0 \<or> negative_time (us_last_attempt u) \<or>
        negative_time (us_last_success u)
      then Inl (lit ''invalid object: stored update schedule is invalid'') else Inr ())"

definition minute :: int where "minute = 60 * 1000"

definition success_interval :: int where "success_interval = 24 * 60 * minute"

definition retry_delays :: "int list" where
  "retry_delays = [15 * minute, 60 * minute, 6 * 60 * minute, 24 * 60 * minute]"

definition retry_delay :: "nat \<Rightarrow> int \<Rightarrow> int" where
  "retry_delay failure_index now =
     (let base = retry_delays ! min failure_index 3; jitter_window = max (base div 10) 1
      in base + now mod jitter_window)"

subsection \<open>The coordinator\<close>

datatype update_phase = Update_Idle | Checking | Confirming | Downloading | Installing | Restarting

record update_offer =
  uo_id :: ustr
  uo_version :: ustr
  uo_notes :: "ustr option"
  uo_published :: "ustr option"

text \<open>The state behind the lock, and the row of the schedule in the store.\<close>

record update_state =
  up_phase :: update_phase
  up_offer :: "update_offer option"
  up_downloaded :: nat
  up_total :: "nat option"
  up_error :: "ustr option"
  up_blockers :: "maintenance_blocker list"
  up_schedule :: update_schedule
  up_stored :: "update_schedule option"

definition coordinator_new :: "update_schedule option \<Rightarrow> command_error + update_state" where
  "coordinator_new stored =
     (let c = \<lparr>up_phase = Update_Idle, up_offer = None, up_downloaded = 0, up_total = None,
        up_error = None, up_blockers = [], up_schedule = schedule_default, up_stored = stored\<rparr>
      in case stored of
           None \<Rightarrow> Inr c
         | Some u \<Rightarrow> (case validate_schedule u of
             Inl e \<Rightarrow> Inl (err_internal e)
           | Inr _ \<Rightarrow> Inr (c\<lparr>up_schedule := u\<rparr>)))"

definition save_schedule :: "ustr option \<Rightarrow> update_schedule \<Rightarrow> update_state \<Rightarrow> (ustr + unit) \<times> update_state" where
  "save_schedule sql_error u c =
     (case validate_schedule u of
        Inl e \<Rightarrow> (Inl e, c)
      | Inr _ \<Rightarrow> (case sql_error of
          Some e \<Rightarrow> (Inl e, c)
        | None \<Rightarrow> (Inr (), c\<lparr>up_stored := Some u\<rparr>)))"

definition save_failed :: ustr where
  "save_failed = lit ''Could not save update scheduling state.''"

definition begin_check ::
  "ustr option \<Rightarrow> bool \<Rightarrow> int \<Rightarrow> update_state \<Rightarrow> (command_error + bool) \<times> update_state" where
  "begin_check sql_error automatic now c =
     (if automatic \<and> now < us_next_auto (up_schedule c) then (Inr False, c)
      else if up_phase c \<noteq> Update_Idle then
        (if automatic then Inr False
         else Inl (command_error_new (lit ''update_busy'') (lit ''another update operation is already active'')), c)
      else
        let u = (up_schedule c)\<lparr>us_last_attempt := Some now, us_next_auto := now + retry_delay 0 now\<rparr>
        in case save_schedule sql_error u c of
             (Inl e, c) \<Rightarrow> (Inl (err_internal e), c\<lparr>up_error := Some save_failed\<rparr>)
           | (Inr _, c) \<Rightarrow> (Inr True, c\<lparr>up_phase := Checking, up_error := None, up_blockers := [],
               up_downloaded := 0, up_total := None, up_schedule := u\<rparr>))"

definition finish_check ::
  "ustr option \<Rightarrow> update_offer option \<Rightarrow> int \<Rightarrow> update_state \<Rightarrow> (command_error + unit) \<times> update_state" where
  "finish_check sql_error offer now c =
     (let u = (up_schedule c)\<lparr>us_failure_count := 0, us_last_success := Some now,
        us_next_auto := now + success_interval\<rparr>
      in case save_schedule sql_error u c of
           (Inl e, c) \<Rightarrow> (Inl (err_internal e), c\<lparr>up_phase := Update_Idle, up_error := Some save_failed\<rparr>)
         | (Inr _, c) \<Rightarrow> (Inr (), c\<lparr>up_phase := Update_Idle, up_offer := offer, up_error := None, up_schedule := u\<rparr>))"

definition fail_check :: "ustr option \<Rightarrow> int \<Rightarrow> update_state \<Rightarrow> (command_error + unit) \<times> update_state" where
  "fail_check sql_error now c =
     (let failures = min (us_failure_count (up_schedule c) + 1) 4;
          u = (up_schedule c)\<lparr>us_failure_count := failures, us_next_auto := now + retry_delay (failures - 1) now\<rparr>
      in case save_schedule sql_error u c of
           (Inl e, c) \<Rightarrow> (Inl (err_internal e), c\<lparr>up_phase := Update_Idle, up_error := Some save_failed\<rparr>)
         | (Inr _, c) \<Rightarrow> (Inr (), c\<lparr>up_phase := Update_Idle,
             up_error := Some (lit ''Could not check for updates. Guru Terminal will retry.''),
             up_schedule := u\<rparr>))"

definition begin_install :: "ustr \<Rightarrow> update_state \<Rightarrow> (command_error + update_offer) \<times> update_state" where
  "begin_install offer_id c =
     (if up_phase c \<noteq> Update_Idle then
        (Inl (command_error_new (lit ''update_busy'') (lit ''another update operation is already active'')), c)
      else case up_offer c of
        Some offer \<Rightarrow>
          if uo_id offer = offer_id
          then (Inr offer, c\<lparr>up_phase := Confirming, up_error := None, up_blockers := []\<rparr>)
          else (Inl (err_conflict (lit ''the update offer expired or changed; check again before installing'')), c)
      | None \<Rightarrow> (Inl (err_conflict (lit ''the update offer expired or changed; check again before installing'')), c))"

definition install_blocked :: "maintenance_blocker list \<Rightarrow> update_state \<Rightarrow> update_state" where
  "install_blocked blockers c = c\<lparr>up_phase := Update_Idle, up_blockers := blockers, up_error := None\<rparr>"

definition install_cancelled :: "update_state \<Rightarrow> update_state" where
  "install_cancelled c = c\<lparr>up_phase := Update_Idle, up_blockers := [], up_error := None\<rparr>"

definition install_failed :: "ustr \<Rightarrow> bool \<Rightarrow> update_state \<Rightarrow> update_state" where
  "install_failed message invalidate_offer c =
     (let c = c\<lparr>up_phase := Update_Idle, up_downloaded := 0, up_total := None, up_blockers := [],
        up_error := Some message\<rparr>
      in if invalidate_offer then c\<lparr>up_offer := None\<rparr> else c)"

definition start_download :: "update_state \<Rightarrow> update_state" where
  "start_download c = c\<lparr>up_phase := Downloading, up_downloaded := 0, up_total := None\<rparr>"

definition record_download :: "nat \<Rightarrow> nat option \<Rightarrow> update_state \<Rightarrow> update_state" where
  "record_download downloaded total_bytes c = c\<lparr>up_downloaded := downloaded, up_total := total_bytes\<rparr>"

definition download_finished :: "update_state \<Rightarrow> update_state" where
  "download_finished c = c\<lparr>up_phase := Installing\<rparr>"

definition restarting :: "update_state \<Rightarrow> update_state" where
  "restarting c = c\<lparr>up_phase := Restarting\<rparr>"

definition auto_check_is_due :: "int \<Rightarrow> update_state \<Rightarrow> bool" where
  "auto_check_is_due now c \<longleftrightarrow> up_phase c = Update_Idle \<and> us_next_auto (up_schedule c) \<le> now"

lemmas update_ops =
  begin_check_def finish_check_def fail_check_def begin_install_def install_blocked_def
  install_cancelled_def install_failed_def start_download_def record_download_def download_finished_def
  restarting_def

subsection \<open>The feeds\<close>

fun split_once_str :: "ustr \<Rightarrow> ustr \<Rightarrow> (ustr \<times> ustr) option" where
  "split_once_str p [] = (if p = [] then Some ([], []) else None)"
| "split_once_str p (c # s) =
     (if starts_with (c # s) p then Some ([], drop (length p) (c # s))
      else map_option (\<lambda>(a, b). (c # a, b)) (split_once_str p s))"

definition valid_number :: "ustr \<Rightarrow> bool" where
  "valid_number part \<longleftrightarrow> part \<noteq> [] \<and> list_all (\<lambda>c. 48 \<le> c \<and> c \<le> 57) part \<and>
     (part = lit ''0'' \<or> \<not> starts_with part (lit ''0''))"

definition version_triple :: "ustr \<Rightarrow> bool" where
  "version_triple base \<longleftrightarrow> (let parts = split_on 46 base in length parts = 3 \<and> list_all valid_number parts)"

definition stable_update_endpoint :: ustr where
  "stable_update_endpoint =
     lit ''https://github.com/monarchjuno/guruterminal/releases/latest/download/latest.json''"

definition rc_endpoint :: "ustr \<Rightarrow> nat \<Rightarrow> ustr" where
  "rc_endpoint base n = lit ''https://github.com/monarchjuno/guruterminal/releases/download/v'' @ base @
     lit ''-rc.'' @ decimal n @ lit ''/latest.json''"

definition expected_rc_endpoints :: "ustr \<Rightarrow> ustr list option" where
  "expected_rc_endpoints version =
     (case split_once_str (lit ''-rc.'') version of
        None \<Rightarrow> None
      | Some (base, rc) \<Rightarrow>
          if \<not> version_triple base \<or> \<not> valid_number rc \<or> rc = lit ''0'' then None
          else if 2 ^ 64 \<le> digits_value rc + 1 then None
          else Some [rc_endpoint base (digits_value rc + 1), stable_update_endpoint])"

definition expected_update_endpoints :: "ustr \<Rightarrow> ustr list option" where
  "expected_update_endpoints version =
     (case expected_rc_endpoints version of
        Some endpoints \<Rightarrow> Some endpoints
      | None \<Rightarrow> if version_triple version then Some [stable_update_endpoint] else None)"

text \<open>The plugin configuration is the JSON object under \<^theory_text>\<open>updater\<close>, if there is one.\<close>

definition configured :: "json option \<Rightarrow> ustr \<Rightarrow> bool" where
  "configured plugin version =
     (case plugin of
        Some (JObject obj) \<Rightarrow>
          (case get_str (lit ''pubkey'') (JObject obj) of
             None \<Rightarrow> False
           | Some public_key \<Rightarrow> trim public_key \<noteq> [] \<and>
               (case (get_array (lit ''endpoints'') (JObject obj), expected_update_endpoints version) of
                  (Some endpoints, Some expected) \<Rightarrow> map as_str endpoints = map Some expected
                | _ \<Rightarrow> False))
      | _ \<Rightarrow> False)"

datatype feed_status = Feed_Absent | Feed_Available | Feed_Fail

definition classify_feed_status :: "nat \<Rightarrow> feed_status" where
  "classify_feed_status code =
     (if code = 404 then Feed_Absent else if 200 \<le> code \<and> code \<le> 299 then Feed_Available else Feed_Fail)"

fun combine_from :: "feed_status \<Rightarrow> feed_status list \<Rightarrow> feed_status" where
  "combine_from combined [] = combined"
| "combine_from combined (Feed_Fail # rest) = Feed_Fail"
| "combine_from combined (Feed_Available # rest) = combine_from Feed_Available rest"
| "combine_from combined (Feed_Absent # rest) = combine_from combined rest"

definition combine_feed_status :: "feed_status list \<Rightarrow> feed_status" where
  "combine_feed_status = combine_from Feed_Absent"

record feed_url =
  fu_scheme :: ustr
  fu_username :: ustr
  fu_password :: "ustr option"
  fu_port :: "nat option"
  fu_host :: "ustr option"

definition trusted_github_update_url :: "feed_url \<Rightarrow> bool" where
  "trusted_github_update_url url \<longleftrightarrow>
     fu_scheme url = lit ''https'' \<and> fu_username url = [] \<and> fu_password url = None \<and>
     (fu_port url = None \<or> fu_port url = Some 443) \<and>
     (case fu_host url of
        None \<Rightarrow> False
      | Some host \<Rightarrow> host = lit ''github.com'' \<or> ends_with host (lit ''.githubusercontent.com''))"

definition update_check_failed :: command_error where
  "update_check_failed = command_error_new (lit ''update_check_failed'') (lit ''update check failed'')"

text \<open>
  The requests run one after the other and the first that is not answered ends the check;
  \<open>answers\<close> has the answer of each endpoint, None when there is none.
\<close>

fun fetch_statuses :: "nat option list \<Rightarrow> command_error + feed_status list" where
  "fetch_statuses [] = Inr []"
| "fetch_statuses (None # answers) = Inl update_check_failed"
| "fetch_statuses (Some code # answers) =
     and_then (fetch_statuses answers) (\<lambda>rest. Inr (classify_feed_status code # rest))"

definition configured_feed_is_absent ::
  "json option \<Rightarrow> ustr \<Rightarrow> nat option list \<Rightarrow> command_error + bool" where
  "configured_feed_is_absent plugin version answers =
     (case expected_rc_endpoints version of
        None \<Rightarrow> Inr False
      | Some expected \<Rightarrow>
          (case Option.bind plugin (get_array (lit ''endpoints'')) of
             None \<Rightarrow> Inl update_check_failed
           | Some endpoints \<Rightarrow>
               if map as_str endpoints \<noteq> map Some expected then Inl update_check_failed
               else and_then (fetch_statuses (take (length expected) answers)) (\<lambda>statuses.
                 (case combine_feed_status statuses of
                    Feed_Absent \<Rightarrow> Inr True
                  | Feed_Available \<Rightarrow> Inr False
                  | Feed_Fail \<Rightarrow> Inl update_check_failed))))"

end
