(* ===== verification/Update_Safety.thy ===== *)
theory Update_Safety
  imports Update_Flow
begin

text \<open>
  The updater with the maintenance gate, the clock and the threads of \<^theory_text>\<open>check_for_updates\<close> and
  \<^theory_text>\<open>update_install\<close>. Each step is one critical section of the code, and any other step may come
  between two of them. Whatever the feeds, the user, the disk and the other activities do, one
  operation runs at a time, an installation starts only when nothing else is under way and
  nothing starts until it ends, and automatic checks keep their distance.
\<close>

datatype update_thread =
  Check_Thread
| Opened_Thread update_offer
| Leased_Thread update_offer
| Fetching_Thread update_offer
| Installing_Thread
| Restarting_Thread
| Blocked_Thread "maintenance_blocker list"
| Cancelled_Thread
| Failed_Thread ustr bool

record update_host =
  uh_state :: update_state
  uh_gate :: maintenance_state
  uh_threads :: "update_thread list"
  uh_clock :: int

definition host_new :: "update_state \<Rightarrow> int \<Rightarrow> update_host" where
  "host_new c now = \<lparr>uh_state = c, uh_gate = maintenance_default, uh_threads = [], uh_clock = now\<rparr>"

text \<open>What is left to do for a thread that has given its lease back or got none.\<close>

fun settle :: "update_thread \<Rightarrow> (update_state \<Rightarrow> update_state) option" where
  "settle (Blocked_Thread blockers) = Some (install_blocked blockers)"
| "settle Cancelled_Thread = Some install_cancelled"
| "settle (Failed_Thread message invalidate) = Some (install_failed message invalidate)"
| "settle _ = None"

text \<open>
  How a thread that holds the lease goes on: it keeps the lease and changes the state, or it gives
  the lease back and settles next. \<open>Verified version\<close> is the answer of the second check.
\<close>

datatype install_input =
  Declined
| Verified "(command_error + ustr option)"
| Chunk nat "nat option"
| Fetched bool bool
| Installed bool

fun install_next :: "update_thread \<Rightarrow> install_input \<Rightarrow> (update_thread \<times> (update_state \<Rightarrow> update_state)) option" where
  "install_next (Leased_Thread offer) Declined = Some (Cancelled_Thread, \<lambda>c. c)"
| "install_next (Leased_Thread offer) (Verified answer) =
     (case answer of
        Inr (Some version) \<Rightarrow>
          if version = uo_version offer then Some (Fetching_Thread offer, start_download)
          else Some (Failed_Thread (lit ''The available update changed. Check again before installing.'') True, \<lambda>c. c)
      | _ \<Rightarrow> Some (Failed_Thread (lit ''Could not verify the update. Try again.'') False, \<lambda>c. c))"
| "install_next (Fetching_Thread offer) (Chunk bytes_read total_bytes) =
     Some (Fetching_Thread offer,
       \<lambda>c. record_download (min (2 ^ 64 - 1) (up_downloaded c + bytes_read)) total_bytes c)"
| "install_next (Fetching_Thread offer) (Fetched in_time ok) =
     Some (if \<not> in_time then (Failed_Thread (lit ''The update download timed out. Try again.'') False, \<lambda>c. c)
       else if \<not> ok then (Failed_Thread (lit ''Could not download the update. Try again.'') False, \<lambda>c. c)
       else (Installing_Thread, download_finished))"
| "install_next Installing_Thread (Installed ok) =
     Some (if ok then (Restarting_Thread, restarting)
       else (Failed_Thread (lit ''Could not install the update. Try again.'') False, \<lambda>c. c))"
| "install_next _ _ = None"

fun holds_lease :: "update_thread \<Rightarrow> bool" where
  "holds_lease (Leased_Thread offer) = True"
| "holds_lease (Fetching_Thread offer) = True"
| "holds_lease Installing_Thread = True"
| "holds_lease Restarting_Thread = True"
| "holds_lease _ = False"

inductive update_step :: "update_host \<Rightarrow> update_host \<Rightarrow> bool" where
  tick: "uh_clock h \<le> t \<Longrightarrow> update_step h (h\<lparr>uh_clock := t\<rparr>)"
| admit: "update_step h (h\<lparr>uh_gate := snd (maintenance_admit b (uh_gate h))\<rparr>)"
| give_back: "update_step h (h\<lparr>uh_gate := drop_activity i (uh_gate h)\<rparr>)"
| check: "begin_check sql automatic (uh_clock h) (uh_state h) = (result, c) \<Longrightarrow>
    update_step h (h\<lparr>uh_state := c,
      uh_threads := (if result = Inr True then [Check_Thread] else []) @ uh_threads h\<rparr>)"
| checked: "uh_threads h = xs @ Check_Thread # ys \<Longrightarrow>
    update_step h (h\<lparr>uh_state := snd (finish_check sql offer (uh_clock h) (uh_state h)), uh_threads := xs @ ys\<rparr>)"
| check_failed: "uh_threads h = xs @ Check_Thread # ys \<Longrightarrow>
    update_step h (h\<lparr>uh_state := snd (fail_check sql (uh_clock h) (uh_state h)), uh_threads := xs @ ys\<rparr>)"
| install: "begin_install offer_id (uh_state h) = (Inr offer, c) \<Longrightarrow>
    update_step h (h\<lparr>uh_state := c, uh_threads := Opened_Thread offer # uh_threads h\<rparr>)"
| lease: "uh_threads h = xs @ Opened_Thread offer # ys \<Longrightarrow> begin_update (uh_gate h) = (Inr u, gate) \<Longrightarrow>
    update_step h (h\<lparr>uh_gate := gate, uh_threads := xs @ Leased_Thread offer # ys\<rparr>)"
| blocked: "uh_threads h = xs @ Opened_Thread offer # ys \<Longrightarrow> begin_update (uh_gate h) = (Inl blockers, gate) \<Longrightarrow>
    update_step h (h\<lparr>uh_threads := xs @ Blocked_Thread blockers # ys\<rparr>)"
| proceed: "uh_threads h = xs @ t # ys \<Longrightarrow> install_next t input = Some (t', f) \<Longrightarrow>
    update_step h (h\<lparr>uh_state := f (uh_state h), uh_threads := xs @ t' # ys,
      uh_gate := (if holds_lease t' then uh_gate h else drop_maintenance (uh_gate h))\<rparr>)"
| settles: "uh_threads h = xs @ t # ys \<Longrightarrow> settle t = Some f \<Longrightarrow>
    update_step h (h\<lparr>uh_state := f (uh_state h), uh_threads := xs @ ys\<rparr>)"

text \<open>The first start has an empty store; the application may die at any moment and start again.\<close>

inductive update_reaches :: "update_host \<Rightarrow> bool" where
  start: "coordinator_new None = Inr c \<Longrightarrow> update_reaches (host_new c now)"
| step: "update_reaches h \<Longrightarrow> update_step h h' \<Longrightarrow> update_reaches h'"
| restart: "update_reaches h \<Longrightarrow> uh_clock h \<le> now \<Longrightarrow> coordinator_new (up_stored (uh_state h)) = Inr c \<Longrightarrow>
    update_reaches (host_new c now)"

subsection \<open>The invariant\<close>

fun thread_phase :: "update_thread \<Rightarrow> update_phase set" where
  "thread_phase Check_Thread = {Checking}"
| "thread_phase (Opened_Thread offer) = {Confirming}"
| "thread_phase (Leased_Thread offer) = {Confirming}"
| "thread_phase (Fetching_Thread offer) = {Downloading}"
| "thread_phase Installing_Thread = {Installing}"
| "thread_phase Restarting_Thread = {Restarting}"
| "thread_phase (Blocked_Thread blockers) = {Confirming}"
| "thread_phase Cancelled_Thread = {Confirming}"
| "thread_phase (Failed_Thread message invalidate) = {Confirming, Downloading, Installing}"

fun thread_offer :: "update_thread \<Rightarrow> update_offer option" where
  "thread_offer (Opened_Thread offer) = Some offer"
| "thread_offer (Leased_Thread offer) = Some offer"
| "thread_offer (Fetching_Thread offer) = Some offer"
| "thread_offer _ = None"

definition owned :: "update_state \<Rightarrow> update_thread list \<Rightarrow> bool" where
  "owned c threads \<longleftrightarrow> (case threads of
      [] \<Rightarrow> up_phase c = Update_Idle
    | [t] \<Rightarrow> up_phase c \<in> thread_phase t \<and> (\<forall>offer. thread_offer t = Some offer \<longrightarrow> up_offer c = Some offer)
    | _ \<Rightarrow> False)"

definition stored_schedule :: "update_schedule option \<Rightarrow> update_schedule" where
  "stored_schedule stored = (case stored of None \<Rightarrow> schedule_default | Some u \<Rightarrow> u)"

definition schedule_kept :: "update_state \<Rightarrow> bool" where
  "schedule_kept c \<longleftrightarrow> validate_schedule (up_schedule c) = Inr () \<and>
     stored_schedule (up_stored c) = up_schedule c"

definition longest_wait :: int where
  "longest_wait = (24 * 60 + 144) * minute"

definition schedule_timed :: "int \<Rightarrow> update_schedule \<Rightarrow> bool" where
  "schedule_timed now u \<longleftrightarrow> us_next_auto u \<le> max 0 (now + longest_wait) \<and>
     (\<forall>t. us_last_attempt u = Some t \<longrightarrow> t \<le> now \<and> t + 15 * minute \<le> us_next_auto u)"

definition update_inv :: "update_host \<Rightarrow> bool" where
  "update_inv h \<longleftrightarrow> owned (uh_state h) (uh_threads h) \<and> schedule_kept (uh_state h) \<and>
     schedule_timed (uh_clock h) (up_schedule (uh_state h)) \<and> maintenance_inv (uh_gate h) \<and>
     (installing_update (uh_gate h) \<longleftrightarrow> (\<exists>t\<in>set (uh_threads h). holds_lease t))"

lemma retry_delay_bounds: "15 * minute \<le> retry_delay k now" "retry_delay k now \<le> longest_wait"
proof -
  have "min k 3 \<in> {0, 1, 2, 3}" by auto
  then show "15 * minute \<le> retry_delay k now" "retry_delay k now \<le> longest_wait"
    using pos_mod_bound [of _ now] pos_mod_sign [of _ now]
    by (auto simp: retry_delay_def retry_delays_def minute_def longest_wait_def Let_def numeral_2_eq_2 numeral_3_eq_3
        intro: order.strict_implies_order)
qed

lemma save_cases:
  assumes "save_schedule sql u c = (r, c')"
  obtains (saved) "r = Inr ()" "c' = c\<lparr>up_stored := Some u\<rparr>" "validate_schedule u = Inr ()"
    | (failed) e where "r = Inl e" "c' = c"
proof (cases "validate_schedule u")
  case (Inl e)
  then have "r = Inl e" "c' = c" using assms by (auto simp: save_schedule_def)
  then show thesis by (rule failed)
qed (use assms saved failed in \<open>auto simp: save_schedule_def split: option.splits\<close>)

lemma owned_one: "owned c (xs @ t # ys) \<longleftrightarrow> xs = [] \<and> ys = [] \<and> owned c [t]"
  by (cases xs; cases ys) (auto simp: owned_def split: list.splits)

lemma owned_none [simp]: "owned c [] \<longleftrightarrow> up_phase c = Update_Idle"
  by (simp add: owned_def)

lemma owned_single: "owned c [t] \<longleftrightarrow>
    up_phase c \<in> thread_phase t \<and> (\<forall>offer. thread_offer t = Some offer \<longrightarrow> up_offer c = Some offer)"
  by (simp add: owned_def)

lemma idle_unowned: "owned c threads \<Longrightarrow> up_phase c = Update_Idle \<Longrightarrow> threads = []"
  by (cases threads; cases "hd threads") (auto simp: owned_def split: list.splits)

text \<open>A change of the state that leaves the schedule and its row alone.\<close>

definition keeps_schedule :: "update_state \<Rightarrow> update_state \<Rightarrow> bool" where
  "keeps_schedule c c' \<longleftrightarrow> up_schedule c' = up_schedule c \<and> up_stored c' = up_stored c"

lemma kept_schedule:
  "keeps_schedule c c' \<Longrightarrow> schedule_kept c \<Longrightarrow> schedule_timed now (up_schedule c) \<Longrightarrow>
     schedule_kept c' \<and> schedule_timed now (up_schedule c')"
  by (simp add: keeps_schedule_def schedule_kept_def)

lemma install_next_keeps: "install_next t input = Some (t', f) \<Longrightarrow> keeps_schedule c (f c)"
  by (cases "(t, input)" rule: install_next.cases)
    (auto simp: keeps_schedule_def update_ops split: sum.splits option.splits if_splits)

lemma settle_keeps: "settle t = Some f \<Longrightarrow> keeps_schedule c (f c) \<and> up_phase (f c) = Update_Idle"
  by (cases t) (auto simp: keeps_schedule_def update_ops Let_def)

lemma install_next_owned:
  assumes "install_next t input = Some (t', f)" "owned c [t]"
  shows "owned (f c) [t'] \<and> holds_lease t"
  using assms
  by (cases "(t, input)" rule: install_next.cases)
    (auto simp: owned_single update_ops split: sum.splits option.splits if_splits)

lemma schedule_updates:
  assumes "owned c threads" "schedule_kept c" "schedule_timed now (up_schedule c)"
  shows
    "begin_check sql automatic now c = (r, c') \<Longrightarrow>
       owned c' ((if r = Inr True then [Check_Thread] else []) @ threads) \<and> schedule_kept c' \<and>
       schedule_timed now (up_schedule c')"
    "threads = [Check_Thread] \<Longrightarrow> finish_check sql offer now c = (q, c') \<Longrightarrow>
       owned c' [] \<and> schedule_kept c' \<and> schedule_timed now (up_schedule c')"
    "threads = [Check_Thread] \<Longrightarrow> fail_check sql now c = (q, c') \<Longrightarrow>
       owned c' [] \<and> schedule_kept c' \<and> schedule_timed now (up_schedule c')"
proof -
  show "owned c' ((if r = Inr True then [Check_Thread] else []) @ threads) \<and> schedule_kept c' \<and>
       schedule_timed now (up_schedule c')" if run: "begin_check sql automatic now c = (r, c')"
  proof (cases "automatic \<and> now < us_next_auto (up_schedule c) \<or> up_phase c \<noteq> Update_Idle")
    case True
    then have "r \<noteq> Inr True" "c' = c" using run by (auto simp: begin_check_def split: if_splits)
    then show ?thesis using assms by simp
  next
    case False
    define u where "u = (up_schedule c)\<lparr>us_last_attempt := Some now, us_next_auto := now + retry_delay 0 now\<rparr>"
    have free: "threads = []" using idle_unowned assms(1) False by blast
    obtain s d where save: "save_schedule sql u c = (s, d)" by fastforce
    then show ?thesis
    proof (cases rule: save_cases)
      case saved
      then have "r = Inr True" "up_phase c' = Checking" "up_schedule c' = u" "up_stored c' = Some u"
        using run False save by (auto simp: begin_check_def u_def Let_def)
      then show ?thesis
        using saved(3) free retry_delay_bounds [of 0 now]
        by (auto simp: owned_single schedule_kept_def stored_schedule_def schedule_timed_def u_def)
    next
      case (failed e)
      then have "r \<noteq> Inr True" "c' = c\<lparr>up_error := Some save_failed\<rparr>"
        using run False save by (auto simp: begin_check_def u_def Let_def)
      then show ?thesis using assms free False by (simp add: schedule_kept_def)
    qed
  qed
next
  show "owned c' [] \<and> schedule_kept c' \<and> schedule_timed now (up_schedule c')"
    if run: "threads = [Check_Thread]" "finish_check sql offer now c = (q, c')"
  proof -
    define u where "u = (up_schedule c)\<lparr>us_failure_count := 0, us_last_success := Some now,
        us_next_auto := now + success_interval\<rparr>"
    obtain s d where save: "save_schedule sql u c = (s, d)" by fastforce
    then show ?thesis
    proof (cases rule: save_cases)
      case saved
      then have "up_phase c' = Update_Idle" "up_schedule c' = u" "up_stored c' = Some u"
        using run save by (auto simp: finish_check_def u_def Let_def)
      then show ?thesis
        using saved(3) assms(3)
        by (auto simp: schedule_kept_def stored_schedule_def schedule_timed_def u_def success_interval_def
            longest_wait_def minute_def)
    next
      case (failed e)
      then have "c' = c\<lparr>up_phase := Update_Idle, up_error := Some save_failed\<rparr>"
        using run save by (auto simp: finish_check_def u_def Let_def)
      then show ?thesis using assms by (simp add: schedule_kept_def)
    qed
  qed
next
  show "owned c' [] \<and> schedule_kept c' \<and> schedule_timed now (up_schedule c')"
    if run: "threads = [Check_Thread]" "fail_check sql now c = (q, c')"
  proof -
    define failures where "failures = min (us_failure_count (up_schedule c) + 1) 4"
    define u where "u = (up_schedule c)\<lparr>us_failure_count := failures,
        us_next_auto := now + retry_delay (failures - 1) now\<rparr>"
    obtain s d where save: "save_schedule sql u c = (s, d)" by fastforce
    then show ?thesis
    proof (cases rule: save_cases)
      case saved
      then have "up_phase c' = Update_Idle" "up_schedule c' = u" "up_stored c' = Some u"
        using run save by (auto simp: fail_check_def u_def failures_def Let_def)
      then show ?thesis
        using saved(3) assms(3) retry_delay_bounds [of "failures - 1" now]
        by (auto simp: schedule_kept_def stored_schedule_def schedule_timed_def u_def)
    next
      case (failed e)
      then have "c' = c\<lparr>up_phase := Update_Idle, up_error := Some save_failed\<rparr>"
        using run save by (auto simp: fail_check_def u_def failures_def Let_def)
      then show ?thesis using assms by (simp add: schedule_kept_def)
    qed
  qed
qed

lemma begin_install_keeps:
  assumes "begin_install offer_id c = (Inr offer, c')" "owned c threads"
  shows "threads = [] \<and> owned c' [Opened_Thread offer] \<and> keeps_schedule c c'"
  using assms idle_unowned [of c threads]
  by (auto simp: begin_install_def owned_single keeps_schedule_def split: if_splits option.splits)

lemma update_inv_step:
  assumes "update_step h h'" "update_inv h"
  shows "update_inv h'"
  using assms
proof (induction rule: update_step.induct)
  case (tick h t)
  then show ?case by (auto simp: update_inv_def schedule_timed_def)
next
  case (admit h b)
  then have "installing_update (snd (maintenance_admit b (uh_gate h))) = installing_update (uh_gate h)"
    by (simp add: maintenance_admit_def Let_def)
  then show ?case using admit by (simp add: update_inv_def)
next
  case (give_back h i)
  then show ?case using maintenance_inv_drop [of "uh_gate h" i] by (simp add: update_inv_def drop_activity_def)
next
  case (check sql automatic h result c)
  then show ?case
    using schedule_updates(1) [of "uh_state h" "uh_threads h" "uh_clock h" sql automatic result c]
    by (auto simp: update_inv_def)
next
  case (checked h xs ys sql offer)
  moreover from this have "xs = [] \<and> ys = []" by (simp add: update_inv_def owned_one)
  ultimately show ?case
    using schedule_updates(2) [of "uh_state h" "uh_threads h" "uh_clock h" sql offer]
    by (cases "finish_check sql offer (uh_clock h) (uh_state h)") (auto simp: update_inv_def)
next
  case (check_failed h xs ys sql)
  moreover from this have "xs = [] \<and> ys = []" by (simp add: update_inv_def owned_one)
  ultimately show ?case
    using schedule_updates(3) [of "uh_state h" "uh_threads h" "uh_clock h" sql]
    by (cases "fail_check sql (uh_clock h) (uh_state h)") (auto simp: update_inv_def)
next
  case (install offer_id h offer c)
  then show ?case
    using begin_install_keeps [of offer_id "uh_state h" offer c "uh_threads h"]
      kept_schedule [of "uh_state h" c "uh_clock h"]
    by (auto simp: update_inv_def)
next
  case (lease h xs offer ys u gate)
  then have one: "xs = []" "ys = []" by (simp_all add: update_inv_def owned_one)
  have "maintenance_inv gate" using lease maintenance_inv_begin [of "uh_gate h"] by (simp add: update_inv_def)
  moreover have "installing_update gate" using lease(2) by (auto simp: begin_update_def split: if_splits)
  ultimately show ?case using lease one by (simp add: update_inv_def owned_single)
next
  case (blocked h xs offer ys blockers gate)
  then have "xs = []" "ys = []" by (simp_all add: update_inv_def owned_one)
  then show ?case using blocked by (simp add: update_inv_def owned_single)
next
  case (proceed h xs t ys input t' f)
  then have one: "xs = []" "ys = []" by (simp_all add: update_inv_def owned_one)
  have "owned (f (uh_state h)) [t'] \<and> holds_lease t"
    using proceed one install_next_owned [of t input t' f "uh_state h"] by (simp add: update_inv_def)
  moreover have "schedule_kept (f (uh_state h)) \<and> schedule_timed (uh_clock h) (up_schedule (f (uh_state h)))"
    using proceed kept_schedule [of "uh_state h" "f (uh_state h)" "uh_clock h", OF install_next_keeps [OF proceed(2)]]
    by (simp add: update_inv_def)
  ultimately show ?case using proceed one by (simp add: update_inv_def drop_maintenance_def maintenance_inv_def)
next
  case (settles h xs t ys f)
  then have one: "xs = []" "ys = []" by (simp_all add: update_inv_def owned_one)
  have "\<not> holds_lease t" using settles(2) by (cases t) auto
  then show ?case
    using settles one settle_keeps [OF settles(2), of "uh_state h"] kept_schedule [of "uh_state h" "f (uh_state h)" "uh_clock h"]
    by (simp add: update_inv_def)
qed

lemma coordinator_new_kept:
  assumes "schedule_kept c" "coordinator_new (up_stored c) = Inr d"
  shows "owned d [] \<and> schedule_kept d \<and> up_schedule d = up_schedule c"
  using assms
  by (auto simp: coordinator_new_def schedule_kept_def stored_schedule_def Let_def split: option.splits sum.splits)

lemma update_inv_reached: "update_reaches h \<Longrightarrow> update_inv h"
proof (induction rule: update_reaches.induct)
  case (start c now)
  then show ?case
    by (auto simp: update_inv_def host_new_def coordinator_new_def schedule_kept_def stored_schedule_def
        schedule_timed_def schedule_default_def validate_schedule_def negative_time_def maintenance_default_def
        maintenance_inv_def Let_def)
next
  case (step h h')
  show ?case using step.hyps(2) step.IH by (rule update_inv_step)
next
  case (restart h now c)
  then have "owned c [] \<and> schedule_kept c \<and> up_schedule c = up_schedule (uh_state h)"
    using coordinator_new_kept [of "uh_state h" c] by (simp add: update_inv_def)
  then show ?case using restart
    by (auto simp: update_inv_def host_new_def schedule_timed_def maintenance_default_def maintenance_inv_def)
qed

text \<open>
  C36: Whatever the feeds, the user, the disk, other activities and crashes do: at most one update operation
  runs, the phase shown is idle exactly when none does, the maintenance gate is closed exactly while an
  installation holds its lease, nothing else is under way then, the offer being installed is the one on
  show, and the schedule in memory is the one a restart reads.
\<close>

theorem update_operations_exclusive:
  assumes "update_reaches h"
  shows "length (uh_threads h) \<le> 1 \<and> (uh_threads h = [] \<longleftrightarrow> up_phase (uh_state h) = Update_Idle) \<and>
    (installing_update (uh_gate h) \<longleftrightarrow> (\<exists>t\<in>set (uh_threads h). holds_lease t)) \<and>
    (installing_update (uh_gate h) \<longrightarrow> activities (uh_gate h) = []) \<and>
    (\<forall>t\<in>set (uh_threads h). \<forall>offer. thread_offer t = Some offer \<longrightarrow> up_offer (uh_state h) = Some offer) \<and>
    (\<exists>c. coordinator_new (up_stored (uh_state h)) = Inr c \<and> up_schedule c = up_schedule (uh_state h))"
proof -
  have inv: "update_inv h" by (rule update_inv_reached [OF assms])
  then have "\<exists>c. coordinator_new (up_stored (uh_state h)) = Inr c \<and> up_schedule c = up_schedule (uh_state h)"
    by (auto simp: update_inv_def schedule_kept_def stored_schedule_def coordinator_new_def Let_def split: option.splits)
  moreover have "length (uh_threads h) \<le> 1 \<and> (uh_threads h = [] \<longleftrightarrow> up_phase (uh_state h) = Update_Idle) \<and>
    (\<forall>t\<in>set (uh_threads h). \<forall>offer. thread_offer t = Some offer \<longrightarrow> up_offer (uh_state h) = Some offer)"
  proof (cases "uh_threads h")
    case (Cons t ts)
    then have "ts = []" using inv owned_one [of "uh_state h" "[]" t ts] by (simp add: update_inv_def)
    then show ?thesis using inv Cons by (cases t) (auto simp: update_inv_def owned_single)
  qed (use inv in \<open>simp add: update_inv_def\<close>)
  ultimately show ?thesis using inv by (simp add: update_inv_def maintenance_inv_def)
qed

text \<open>
  C37: A check the application starts by itself begins at least fifteen minutes after the check before it,
  across failures and restarts, and one is due at the latest after a day and a tenth: the schedule neither
  hammers the feed nor stops asking, as long as the clock does not go back.
\<close>

theorem automatic_checks_spaced:
  assumes "update_reaches h"
  shows "us_next_auto (up_schedule (uh_state h)) \<le> max 0 (uh_clock h + longest_wait) \<and>
    (fst (begin_check sql True (uh_clock h) (uh_state h)) = Inr True \<longrightarrow>
     (\<forall>t. us_last_attempt (up_schedule (uh_state h)) = Some t \<longrightarrow> t + 15 * minute \<le> uh_clock h))"
proof -
  have "schedule_timed (uh_clock h) (up_schedule (uh_state h))"
    using update_inv_reached [OF assms] by (simp add: update_inv_def)
  then show ?thesis by (auto simp: schedule_timed_def begin_check_def split: if_splits)
qed

subsection \<open>Witnesses\<close>

definition sample_offer :: update_offer where
  "sample_offer = \<lparr>uo_id = lit ''offer'', uo_version = lit ''0.2.0'', uo_notes = None, uo_published = None\<rparr>"

text \<open>A check at time 5 that found the offer, then an installation that has its lease.\<close>

definition sample_checked :: update_state where
  "sample_checked = (case coordinator_new None of Inr c \<Rightarrow>
     snd (finish_check None (Some sample_offer) 5 (snd (begin_check None False 5 c))))"

definition sample_opened :: update_state where
  "sample_opened = snd (begin_install (lit ''offer'') sample_checked)"

definition sample_leased :: update_host where
  "sample_leased = \<lparr>uh_state = sample_opened, uh_gate = maintenance_default\<lparr>installing_update := True\<rparr>,
     uh_threads = [Leased_Thread sample_offer], uh_clock = 5\<rparr>"

lemma sample_leased_reached: "update_reaches sample_leased"
proof -
  obtain c where c: "coordinator_new None = Inr c" by (simp add: coordinator_new_def Let_def)
  define a where "a = snd (begin_check None False 5 c)"
  have "fst (begin_check None False 5 (projr (coordinator_new None))) = Inr True" by code_simp
  then have a: "begin_check None False 5 c = (Inr True, a)" using c by (simp add: a_def prod_eq_iff)
  define h1 where "h1 = (host_new c 5)\<lparr>uh_state := a, uh_threads := [Check_Thread]\<rparr>"
  have "update_step (host_new c 5) h1"
    using update_step.check [of None False "host_new c 5" "Inr True" a] a by (simp add: h1_def host_new_def)
  then have r1: "update_reaches h1" using update_reaches.start [OF c] update_reaches.step by blast
  have checked: "snd (finish_check None (Some sample_offer) 5 a) = sample_checked"
    by (simp add: sample_checked_def c a_def)
  define h2 where "h2 = h1\<lparr>uh_state := sample_checked, uh_threads := []\<rparr>"
  have "update_step h1 h2"
    using update_step.checked [of h1 "[]" "[]" None "Some sample_offer"] checked
    by (simp add: h1_def h2_def host_new_def)
  then have r2: "update_reaches h2" using r1 update_reaches.step by blast
  have "fst (begin_install (lit ''offer'') sample_checked) = Inr sample_offer" by code_simp
  then have opened: "begin_install (lit ''offer'') sample_checked = (Inr sample_offer, sample_opened)"
    by (simp add: sample_opened_def prod_eq_iff)
  define h3 where "h3 = h2\<lparr>uh_state := sample_opened, uh_threads := [Opened_Thread sample_offer]\<rparr>"
  have "update_step h2 h3"
    using update_step.install [of "lit ''offer''" h2 sample_offer sample_opened] opened by (simp add: h2_def h3_def)
  then have r3: "update_reaches h3" using r2 update_reaches.step by blast
  have "update_step h3 sample_leased"
    using update_step.lease [of h3 "[]" sample_offer "[]" "()" "maintenance_default\<lparr>installing_update := True\<rparr>"]
    by (simp add: h3_def h2_def h1_def host_new_def sample_leased_def begin_update_def maintenance_default_def)
  then show ?thesis using r3 update_reaches.step by blast
qed

lemma update_operations_exclusive_witness:
  "update_reaches sample_leased \<and> uh_threads sample_leased = [Leased_Thread sample_offer] \<and>
     activities (uh_gate sample_leased) = []"
  using update_operations_exclusive [OF sample_leased_reached] sample_leased_reached
  by (simp add: sample_leased_def)

lemma automatic_checks_spaced_witness:
  "update_reaches sample_leased \<and> us_next_auto (up_schedule (uh_state sample_leased)) \<le> 5 + longest_wait"
  using automatic_checks_spaced [OF sample_leased_reached, of None] sample_leased_reached
  by (simp add: sample_leased_def longest_wait_def minute_def)

end
