(* ===== verification/Support_Lease.thy ===== *)
theory Support_Lease
  imports Maintenance
begin

text \<open>
  The single flight of provider support (\<^theory_text>\<open>support_coordinator.rs\<close>): the lease that sign-ins,
  credential changes, model discovery and native searches take, with the maintenance activity it
  holds and the cancellation of a sign-in. The code guards the flag, the slot of the sign-in and
  the gate separately; each step below is one of those accesses. A cancellation is named by a number
  that stands for its address.
\<close>

record support_cancellation =
  sc_cancelled :: bool
  sc_url :: "ustr option"

datatype support_thread =
  Admitted "64 word" bool
| Refused "64 word"
| Entered "64 word" bool
| Lease "64 word" "nat option"
| Cleared "64 word"
| Released "64 word"

record support_host =
  sh_gate :: maintenance_state
  sh_occupied :: bool
  sh_oauth :: "nat option"
  sh_cancellations :: "nat \<Rightarrow> support_cancellation option"
  sh_threads :: "support_thread list"

definition support_new :: support_host where
  "support_new = \<lparr>sh_gate = maintenance_default, sh_occupied = False, sh_oauth = None,
     sh_cancellations = Map.empty, sh_threads = []\<rparr>"

definition support_blocker :: maintenance_blocker where
  "support_blocker = \<lparr>mb_id = lit ''provider-support'', mb_kind = lit ''provider_support'',
     mb_label = lit ''Provider connection or model discovery''\<rparr>"

text \<open>\<^theory_text>\<open>compare_exchange(false, true)\<close> of the flag, after the admission.\<close>

definition enter_support :: "64 word \<Rightarrow> bool \<Rightarrow> support_host \<Rightarrow> (command_error + support_thread) \<times> support_host" where
  "enter_support activity oauth h =
     (if sh_occupied h
      then (Inl (err_conflict (lit ''another provider support operation is already active'')), h)
      else (Inr (Entered activity oauth), h\<lparr>sh_occupied := True\<rparr>))"

text \<open>The rest of \<^theory_text>\<open>try_acquire_inner\<close>; \<open>p\<close> is the address of the new cancellation.\<close>

definition make_lease :: "64 word \<Rightarrow> bool \<Rightarrow> nat \<Rightarrow> support_host \<Rightarrow> support_thread \<times> support_host" where
  "make_lease activity oauth p h =
     (if oauth
      then (Lease activity (Some p), h\<lparr>sh_oauth := Some p,
        sh_cancellations := (sh_cancellations h)(p \<mapsto> \<lparr>sc_cancelled = False, sc_url = None\<rparr>)\<rparr>)
      else (Lease activity None, h))"

definition cancel_oauth :: "support_host \<Rightarrow> support_host" where
  "cancel_oauth h =
     (case sh_oauth h of
        None \<Rightarrow> h
      | Some p \<Rightarrow> (case sh_cancellations h p of
          None \<Rightarrow> h
        | Some c \<Rightarrow> h\<lparr>sh_cancellations := (sh_cancellations h)(p \<mapsto> c\<lparr>sc_cancelled := True\<rparr>)\<rparr>))"

definition oauth_authorization_url :: "support_host \<Rightarrow> ustr option" where
  "oauth_authorization_url h =
     Option.bind (sh_oauth h) (\<lambda>p. Option.bind (sh_cancellations h p) sc_url)"

fun set_oauth_authorization_url :: "support_thread \<Rightarrow> ustr \<Rightarrow> support_host \<Rightarrow> (command_error + unit) \<times> support_host" where
  "set_oauth_authorization_url (Lease activity (Some p)) url h =
     (Inr (), h\<lparr>sh_cancellations := (sh_cancellations h)(p := map_option (\<lambda>c. c\<lparr>sc_url := Some url\<rparr>) (sh_cancellations h p))\<rparr>)"
| "set_oauth_authorization_url _ url h =
     (Inl (err_internal (lit ''OAuth authorization URL has no active sign-in lease'')), h)"

text \<open>\<^theory_text>\<open>cancelled().await\<close> of the lease is over.\<close>

fun lease_cancelled :: "support_thread \<Rightarrow> support_host \<Rightarrow> bool" where
  "lease_cancelled (Lease activity (Some p)) h =
     (case sh_cancellations h p of None \<Rightarrow> False | Some c \<Rightarrow> sc_cancelled c)"
| "lease_cancelled _ h = False"

text \<open>The first half of \<^theory_text>\<open>drop\<close>: the slot is cleared if it names the cancellation of this lease.\<close>

fun clear_oauth :: "nat option \<Rightarrow> support_host \<Rightarrow> support_host" where
  "clear_oauth None h = h"
| "clear_oauth (Some p) h = (if sh_oauth h = Some p then h\<lparr>sh_oauth := None\<rparr> else h)"

definition free_cancellation :: "nat option \<Rightarrow> support_host \<Rightarrow> support_host" where
  "free_cancellation c h =
     (case c of None \<Rightarrow> h | Some p \<Rightarrow> h\<lparr>sh_cancellations := (sh_cancellations h)(p := None)\<rparr>)"

lemmas support_ops =
  support_new_def enter_support_def make_lease_def cancel_oauth_def free_cancellation_def

fun thread_activity :: "support_thread \<Rightarrow> 64 word" where
  "thread_activity (Admitted a oauth) = a"
| "thread_activity (Refused a) = a"
| "thread_activity (Entered a oauth) = a"
| "thread_activity (Lease a c) = a"
| "thread_activity (Cleared a) = a"
| "thread_activity (Released a) = a"

text \<open>
  The steps. Activities get fresh identifiers: their counter wraps only after \<open>2 ^ 64\<close> of them. Other
  activities come and go at the same gate, and an update may begin when it lets one.
\<close>

inductive support_step :: "support_host \<Rightarrow> support_host \<Rightarrow> bool" where
  admit: "admit_activity support_blocker (sh_gate h) = (Inr a, gate) \<Longrightarrow> a \<notin> set (activity_ids (sh_gate h)) \<Longrightarrow>
    support_step h (h\<lparr>sh_gate := gate, sh_threads := Admitted a oauth # sh_threads h\<rparr>)"
| enter: "sh_threads h = xs @ Admitted a oauth # ys \<Longrightarrow> enter_support a oauth h = (Inr t, h') \<Longrightarrow>
    support_step h (h'\<lparr>sh_threads := xs @ t # ys\<rparr>)"
| refuse: "sh_threads h = xs @ Admitted a oauth # ys \<Longrightarrow> enter_support a oauth h = (Inl e, h') \<Longrightarrow>
    support_step h (h'\<lparr>sh_threads := xs @ Refused a # ys\<rparr>)"
| lease: "sh_threads h = xs @ Entered a oauth # ys \<Longrightarrow> sh_cancellations h p = None \<Longrightarrow>
    make_lease a oauth p h = (t, h') \<Longrightarrow> support_step h (h'\<lparr>sh_threads := xs @ t # ys\<rparr>)"
| set_url: "t \<in> set (sh_threads h) \<Longrightarrow> set_oauth_authorization_url t url h = (result, h') \<Longrightarrow> support_step h h'"
| cancel: "support_step h (cancel_oauth h)"
| clear: "sh_threads h = xs @ Lease a c # ys \<Longrightarrow>
    support_step h ((clear_oauth c h)\<lparr>sh_cancellations := sh_cancellations (free_cancellation c h),
      sh_threads := xs @ Cleared a # ys\<rparr>)"
| release: "sh_threads h = xs @ Cleared a # ys \<Longrightarrow>
    support_step h (h\<lparr>sh_occupied := False, sh_threads := xs @ Released a # ys\<rparr>)"
| give_back: "sh_threads h = xs @ t # ys \<Longrightarrow> t = Refused a \<or> t = Released a \<Longrightarrow>
    support_step h (h\<lparr>sh_gate := drop_activity a (sh_gate h), sh_threads := xs @ ys\<rparr>)"
| other_admit: "maintenance_admit b (sh_gate h) = (Inr a, gate) \<Longrightarrow> a \<notin> set (activity_ids (sh_gate h)) \<Longrightarrow>
    support_step h (h\<lparr>sh_gate := gate\<rparr>)"
| other_give_back: "a \<notin> thread_activity ` set (sh_threads h) \<Longrightarrow>
    support_step h (h\<lparr>sh_gate := drop_activity a (sh_gate h)\<rparr>)"
| update_begins: "begin_update (sh_gate h) = (Inr u, gate) \<Longrightarrow> support_step h (h\<lparr>sh_gate := gate\<rparr>)"
| update_ends: "support_step h (h\<lparr>sh_gate := drop_maintenance (sh_gate h)\<rparr>)"

inductive support_reaches :: "support_host \<Rightarrow> bool" where
  start: "support_reaches support_new"
| step: "support_reaches h \<Longrightarrow> support_step h h' \<Longrightarrow> support_reaches h'"

subsection \<open>The invariant\<close>

fun inside :: "support_thread \<Rightarrow> bool" where
  "inside (Entered a oauth) = True"
| "inside (Lease a c) = True"
| "inside (Cleared a) = True"
| "inside _ = False"

fun sign_in :: "support_thread \<Rightarrow> nat list" where
  "sign_in (Lease a (Some p)) = [p]"
| "sign_in _ = []"

definition sign_ins :: "support_thread list \<Rightarrow> nat list" where
  "sign_ins ts = concat (map sign_in ts)"

definition support_inv :: "support_host \<Rightarrow> bool" where
  "support_inv h \<longleftrightarrow>
     length (filter inside (sh_threads h)) = (if sh_occupied h then 1 else 0) \<and>
     sign_ins (sh_threads h) = (case sh_oauth h of None \<Rightarrow> [] | Some p \<Rightarrow> [p]) \<and>
     dom (sh_cancellations h) = set_option (sh_oauth h) \<and>
     distinct (map thread_activity (sh_threads h)) \<and>
     thread_activity ` set (sh_threads h) \<subseteq> set (activity_ids (sh_gate h)) \<and>
     maintenance_inv (sh_gate h)"

lemma sign_ins_simps [simp]:
  "sign_ins [] = []" "sign_ins (t # ts) = sign_in t @ sign_ins ts" "sign_ins (xs @ ys) = sign_ins xs @ sign_ins ys"
  by (simp_all add: sign_ins_def)

lemma outside_no_sign_in: "filter inside ts = [] \<Longrightarrow> sign_ins ts = []"
proof (induction ts)
  case (Cons t ts)
  then show ?case by (cases t) (auto split: if_splits)
qed simp

lemma only_inside:
  assumes "support_inv h" "sh_threads h = xs @ t # ys" "inside t"
  shows "sh_occupied h \<and> filter inside xs = [] \<and> filter inside ys = [] \<and> sign_ins xs = [] \<and> sign_ins ys = []"
proof -
  have "length (filter inside xs) + length (filter inside ys) + 1 = (if sh_occupied h then 1 else 0)"
    using assms by (simp add: support_inv_def)
  then have "sh_occupied h" "filter inside xs = []" "filter inside ys = []" by (auto split: if_splits)
  then show ?thesis using outside_no_sign_in by blast
qed

lemma admit_ids:
  assumes "maintenance_admit b g = (Inr a, g')"
  shows "set (activity_ids g') = insert a (set (activity_ids g))"
proof -
  have "a = next_id (next_activity_id g)" "activities g' = bt_insert a (b a) (activities g)"
    using assms by (auto simp: maintenance_admit_def Let_def split: if_splits)
  then show ?thesis by (simp add: activity_ids_def fst_bt_insert)
qed

lemma drop_ids: "maintenance_inv g \<Longrightarrow> set (activity_ids (drop_activity a g)) = set (activity_ids g) - {a}"
  by (simp add: activity_pool.live_drop maintenance_inv_def)

lemma gate_inv:
  "maintenance_inv g \<Longrightarrow> maintenance_admit b g = (r, g') \<Longrightarrow> maintenance_inv g'"
  "maintenance_inv g \<Longrightarrow> begin_update g = (q, g') \<Longrightarrow> maintenance_inv g'"
  using maintenance_inv_admit [of g b] maintenance_inv_begin [of g] by simp_all

lemma begin_ids: "begin_update g = (r, g') \<Longrightarrow> activity_ids g' = activity_ids g"
  by (auto simp: begin_update_def activity_ids_def split: if_splits)

lemma dom_update_option: "dom (m(p := map_option f (m p))) = dom m"
  by (auto simp: dom_def)

lemma support_inv_step:
  assumes "support_step h h'" "support_inv h"
  shows "support_inv h'"
  using assms
proof (induction rule: support_step.induct)
  case (admit h a gate oauth)
  then have "set (activity_ids gate) = insert a (set (activity_ids (sh_gate h)))" "maintenance_inv gate"
    using admit_ids gate_inv(1) by (auto simp: admit_activity_def support_inv_def)
  then show ?case using admit by (auto simp: support_inv_def)
next
  case (enter h xs a oauth ys t h')
  then have "\<not> sh_occupied h" "t = Entered a oauth" "h' = h\<lparr>sh_occupied := True\<rparr>"
    by (auto simp: enter_support_def split: if_splits)
  then show ?case using enter by (simp add: support_inv_def)
next
  case (refuse h xs a oauth ys e h')
  then show ?case by (auto simp: support_inv_def enter_support_def split: if_splits)
next
  case (lease h xs a oauth ys p t h')
  then have "sign_ins xs = []" "sign_ins ys = []"
    using only_inside [of h xs "Entered a oauth" ys] by auto
  then show ?case using lease
    by (auto simp: support_inv_def make_lease_def split: if_splits option.splits)
next
  case (set_url t h url result h')
  define m where "m = sh_cancellations h"
  have "h' = h \<or> (\<exists>m'. h' = h\<lparr>sh_cancellations := m'\<rparr> \<and> dom m' = dom m)"
    using set_url(2) dom_update_option [of m] unfolding m_def
    by (cases "(t, url, h)" rule: set_oauth_authorization_url.cases) (simp_all del: dom_fun_upd, blast)
  then obtain m' where "h' = h \<or> h' = h\<lparr>sh_cancellations := m'\<rparr> \<and> dom m' = dom m" by blast
  then show ?case
  proof
    assume "h' = h\<lparr>sh_cancellations := m'\<rparr> \<and> dom m' = dom m"
    then show ?thesis using set_url(3) by (simp add: support_inv_def m_def)
  qed (use set_url(3) in simp)
next
  case (cancel h)
  then show ?case by (auto simp: support_inv_def cancel_oauth_def split: option.splits)
next
  case (clear h xs a c ys)
  then have "sign_ins xs = []" "sign_ins ys = []"
    using only_inside [of h xs "Lease a c" ys] by auto
  then show ?case using clear
    by (cases c) (auto simp: support_inv_def free_cancellation_def split: option.splits)
next
  case (release h xs a ys)
  then have "filter inside xs = []" "filter inside ys = []"
    using only_inside [of h xs "Cleared a" ys] by auto
  then show ?case using release by (simp add: support_inv_def)
next
  case (give_back h xs t ys a)
  then have "thread_activity t = a" "\<not> inside t" "sign_in t = []" by auto
  moreover have "thread_activity t \<notin> thread_activity ` set (xs @ ys)"
      "thread_activity ` set (xs @ ys) \<subseteq> set (activity_ids (sh_gate h))"
    using give_back by (simp_all add: support_inv_def image_Un)
  ultimately have "thread_activity ` set (xs @ ys) \<subseteq> set (activity_ids (drop_activity a (sh_gate h)))"
    using give_back(3) drop_ids [of "sh_gate h" a] by (simp add: support_inv_def subset_Diff_insert)
  then show ?case using give_back \<open>\<not> inside t\<close> \<open>sign_in t = []\<close> by (simp add: support_inv_def)
next
  case (other_admit b h a gate)
  then show ?case using admit_ids [of b "sh_gate h" a gate] gate_inv(1) [of "sh_gate h" b "Inr a" gate]
    by (auto simp: support_inv_def)
next
  case (other_give_back a h)
  then show ?case using drop_ids [of "sh_gate h" a] by (auto simp: support_inv_def)
next
  case (update_begins h u gate)
  then show ?case using begin_ids gate_inv(2) by (auto simp: support_inv_def)
next
  case (update_ends h)
  then show ?case by (simp add: support_inv_def drop_maintenance_def activity_ids_def maintenance_inv_def)
qed

lemma support_inv_reached: "support_reaches h \<Longrightarrow> support_inv h"
proof (induction rule: support_reaches.induct)
  case start
  then show ?case by (simp add: support_inv_def support_new_def)
next
  case (step h h')
  show ?case using step.hyps(2) step.IH by (rule support_inv_step)
qed

text \<open>
  C38: Provider support runs one operation at a time, and cancelling a sign-in reaches the one that runs
  and no other: if a sign-in has its lease, the cancellation is delivered to it, and if none has,
  nothing is cancelled. While any operation holds or releases its lease, no update begins.
\<close>

theorem provider_support_single_flight:
  assumes "support_reaches h"
  shows "length (filter inside (sh_threads h)) \<le> 1 \<and>
    (Lease a (Some p) \<in> set (sh_threads h) \<longrightarrow>
       sh_oauth h = Some p \<and> lease_cancelled (Lease a (Some p)) (cancel_oauth h)) \<and>
    ((\<forall>t\<in>set (sh_threads h). sign_in t = []) \<longrightarrow> cancel_oauth h = h \<and> oauth_authorization_url h = None) \<and>
    (sh_threads h \<noteq> [] \<longrightarrow> \<not> is_ok (fst (begin_update (sh_gate h))))"
proof -
  have inv: "support_inv h" by (rule support_inv_reached [OF assms])
  have "sh_oauth h = Some p \<and> lease_cancelled (Lease a (Some p)) (cancel_oauth h)"
    if running: "Lease a (Some p) \<in> set (sh_threads h)"
  proof -
    have "p \<in> set (sign_ins (sh_threads h))" using running by (force simp: sign_ins_def)
    then have slot: "sh_oauth h = Some p" using inv by (auto simp: support_inv_def split: option.splits)
    then have "p \<in> dom (sh_cancellations h)" using inv by (simp add: support_inv_def)
    then obtain c where "sh_cancellations h p = Some c" by blast
    then show ?thesis using slot by (simp add: cancel_oauth_def)
  qed
  moreover have "cancel_oauth h = h \<and> oauth_authorization_url h = None"
    if none: "\<forall>t\<in>set (sh_threads h). sign_in t = []"
  proof -
    have "sign_ins (sh_threads h) = []" using none by (simp add: sign_ins_def)
    then have "sh_oauth h = None" using inv by (auto simp: support_inv_def split: option.splits)
    then show ?thesis by (simp add: cancel_oauth_def oauth_authorization_url_def)
  qed
  moreover have "\<not> is_ok (fst (begin_update (sh_gate h)))" if "sh_threads h \<noteq> []"
  proof -
    have "activity_ids (sh_gate h) \<noteq> []" using that inv by (cases "sh_threads h") (auto simp: support_inv_def)
    then show ?thesis by (auto simp: activity_ids_def begin_update_def)
  qed
  ultimately show ?thesis using inv by (simp add: support_inv_def)
qed

text \<open>A sign-in with its lease, and a second operation that was refused and still holds its activity.\<close>

definition sample_support :: support_host where
  "sample_support = \<lparr>sh_gate = \<lparr>installing_update = False, next_activity_id = 2,
     activities = [(1, support_blocker), (2, support_blocker)]\<rparr>, sh_occupied = True, sh_oauth = Some 0,
     sh_cancellations = [0 \<mapsto> \<lparr>sc_cancelled = False, sc_url = None\<rparr>], sh_threads = [Refused 2, Lease 1 (Some 0)]\<rparr>"

lemma sample_support_reached: "support_reaches sample_support"
proof -
  define g1 where "g1 = snd (admit_activity support_blocker maintenance_default)"
  define g2 where "g2 = snd (admit_activity support_blocker g1)"
  have admits: "admit_activity support_blocker maintenance_default = (Inr 1, g1)"
      "admit_activity support_blocker g1 = (Inr 2, g2)" "g2 = sh_gate sample_support"
      "set (activity_ids g1) = {1}"
    unfolding g2_def g1_def by code_simp+
  define h1 where "h1 = support_new\<lparr>sh_gate := g1, sh_threads := [Admitted 1 True]\<rparr>"
  define h2 where "h2 = h1\<lparr>sh_occupied := True, sh_threads := [Entered 1 True]\<rparr>"
  define h3 where "h3 = h2\<lparr>sh_oauth := Some 0, sh_cancellations := [0 \<mapsto> \<lparr>sc_cancelled = False, sc_url = None\<rparr>],
    sh_threads := [Lease 1 (Some 0)]\<rparr>"
  define h4 where "h4 = h3\<lparr>sh_gate := g2, sh_threads := [Admitted 2 False, Lease 1 (Some 0)]\<rparr>"
  have "support_step support_new h1"
    using support_step.admit [of support_new 1 g1 True] admits
    by (simp add: support_new_def h1_def activity_ids_def maintenance_default_def)
  moreover have "support_step h1 h2"
    using support_step.enter [of h1 "[]" 1 True "[]"] by (simp add: h1_def h2_def support_ops)
  moreover have "support_step h2 h3"
    using support_step.lease [of h2 "[]" 1 True "[]" 0] by (simp add: h1_def h2_def h3_def support_ops)
  moreover have "support_step h3 h4"
    using support_step.admit [of h3 2 g2 False] admits by (simp add: h1_def h2_def h3_def h4_def support_ops)
  moreover have "support_step h4 sample_support"
    using support_step.refuse [of h4 "[]" 2 False "[Lease 1 (Some 0)]"] admits
    by (simp add: h1_def h2_def h3_def h4_def support_ops sample_support_def)
  ultimately show ?thesis using support_reaches.start support_reaches.step by blast
qed

lemma provider_support_single_flight_witness:
  "support_reaches sample_support \<and> sh_oauth sample_support = Some 0 \<and>
     lease_cancelled (Lease 1 (Some 0)) (cancel_oauth sample_support) \<and>
     \<not> is_ok (fst (begin_update (sh_gate sample_support)))"
  using provider_support_single_flight [OF sample_support_reached, of 1 0] sample_support_reached
  by (simp add: sample_support_def)

end
