(* ===== verification/Memory_Write.thy ===== *)
theory Memory_Write
  imports Memory_Apply App_Access Host_Text
begin

text \<open>
  What a Memory write is made of (\<^theory_text>\<open>domain/memory_write.rs\<close>, the pure parts of
  \<^theory_text>\<open>commands/memory_write.rs\<close> and \<^theory_text>\<open>memory_finalization.rs\<close>): its targets and
  their validation, the staged changes and the message of its commit, and the journal that makes it
  recoverable. Errors of the domain types are their messages.
\<close>

subsection \<open>Targets\<close>

record memory_target =
  mt_record_id :: ustr
  mt_relative_path :: ustr
  mt_before_markdown :: ustr
  mt_proposed_markdown :: ustr

datatype change_authority = Chat_Authority | User_Authority

record memory_write =
  mwr_guru_id :: ustr
  mwr_authority :: change_authority
  mwr_targets :: "memory_target list"
  mwr_rationale :: ustr

definition max_write_targets :: nat where "max_write_targets = 24"
definition max_evidence_targets :: nat where "max_evidence_targets = 3"
definition max_proposed_bytes :: nat where "max_proposed_bytes = 2 * 1024 * 1024"

lemmas write_limits = max_write_targets_def max_evidence_targets_def max_proposed_bytes_def

definition write_path_kind :: "ustr \<Rightarrow> memory_kind domain_result" where
  "write_path_kind path =
     (let components = path_components path;
          last_name = (case rev components of Normal_Component n # _ \<Rightarrow> Some n | _ \<Rightarrow> None)
      in if Option.bind last_name extension \<noteq> Some (lit ''md'') then Inl (lit ''memory target must be Markdown'')
         else if contains_any [92] path then Inl (lit ''memory target path is unsafe'')
         else case normal_names components of
           None \<Rightarrow> Inl (lit ''memory target path is unsafe'')
         | Some names \<Rightarrow>
             if list_ex (\<lambda>n. starts_with n (lit ''.'')) names then Inl (lit ''memory target path is unsafe'')
             else if length names < 3 \<or> names ! 0 \<noteq> lit ''guruterminal''
             then Inl (lit ''memory target path is outside canonical Memory'')
             else ok_or (lit ''memory target path is outside canonical Memory'') (from_slug (names ! 1)))"

definition target_kind :: "memory_target \<Rightarrow> memory_kind domain_result" where
  "target_kind t =
     and_then (write_path_kind (mt_relative_path t)) (\<lambda>path_kind.
     and_then (ok_or (lit ''memory record id is invalid'') (split_once 58 (mt_record_id t))) (\<lambda>(id_kind, rest).
     if slug path_kind \<noteq> id_kind then Inl (lit ''memory target path does not match its record kind'')
     else Inr path_kind))"

definition validate_canonical_record_id :: "ustr \<Rightarrow> ustr option \<Rightarrow> unit domain_result" where
  "validate_canonical_record_id value expected =
     (case parse_record_id value of
        None \<Rightarrow> Inl (lit ''memory record id is invalid'')
      | Some (kind, suffix) \<Rightarrow>
          fail_if (case expected of None \<Rightarrow> False | Some e \<Rightarrow> e \<noteq> slug kind) (lit ''memory record id is invalid''))"

definition validate_write_target :: "change_authority \<Rightarrow> memory_target \<Rightarrow> unit domain_result" where
  "validate_write_target authority t =
     and_then (target_kind t) (\<lambda>kind.
     and_then (validate_canonical_record_id (mt_record_id t) (Some (slug kind))) (\<lambda>_.
     let deletes_existing = authority = User_Authority \<and> mt_before_markdown t \<noteq> [] \<and> mt_proposed_markdown t = []
     in if mt_before_markdown t = mt_proposed_markdown t then Inl (lit ''memory target has no change'')
        else fail_if ((\<not> deletes_existing \<and> trim (mt_proposed_markdown t) = []) \<or>
            contains_any [0] (mt_before_markdown t) \<or> contains_any [0] (mt_proposed_markdown t))
          (lit ''memory target Markdown is invalid'')))"

text \<open>
  The loop of \<^theory_text>\<open>MemoryWrite::validate\<close>: the paths and records seen, the number of Evidence
  records and the bytes so far. A sum beyond \<^theory_text>\<open>usize\<close> is an error.
\<close>

fun validate_targets ::
  "change_authority \<Rightarrow> ustr list \<Rightarrow> ustr list \<Rightarrow> nat \<Rightarrow> nat \<Rightarrow> memory_target list \<Rightarrow> (nat \<times> nat) domain_result" where
  "validate_targets authority paths records evidence proposed [] = Inr (evidence, proposed)"
| "validate_targets authority paths records evidence proposed (t # ts) =
     and_then (validate_write_target authority t) (\<lambda>_.
     and_then (target_kind t) (\<lambda>kind.
     let evidence = (if kind = Evidence then evidence + 1 else evidence);
         proposed = proposed + byte_len (mt_proposed_markdown t)
     in if 2 ^ 64 \<le> proposed then Inl (lit ''memory write proposed Markdown is too large'')
        else if mt_relative_path t \<in> set paths then Inl (lit ''duplicate memory target path'')
        else if mt_record_id t \<in> set records then Inl (lit ''duplicate memory record id'')
        else validate_targets authority (mt_relative_path t # paths) (mt_record_id t # records) evidence proposed ts))"

definition validate_memory_write :: "memory_write \<Rightarrow> unit domain_result" where
  "validate_memory_write w =
     (if trim (mwr_guru_id w) = [] then Inl (lit ''memory write guru id is empty'')
      else if trim (mwr_rationale w) = [] then Inl (lit ''memory write rationale is empty'')
      else if mwr_targets w = [] \<or> max_write_targets < length (mwr_targets w)
      then Inl (lit ''memory write target set is invalid'')
      else and_then (validate_targets (mwr_authority w) [] [] 0 0 (mwr_targets w)) (\<lambda>(evidence, proposed).
        if max_evidence_targets < evidence then Inl (lit ''change set has too many Evidence targets'')
        else fail_if (max_proposed_bytes < proposed) (lit ''memory write proposed Markdown is too large'')))"

subsection \<open>Staged changes and the message of the commit\<close>

definition staged_memory_change ::
  "(bytes \<Rightarrow> ustr) \<Rightarrow> ustr \<Rightarrow> ustr \<Rightarrow> change_authority \<Rightarrow> memory_target \<Rightarrow> staged_change" where
  "staged_memory_change digest guru session authority t =
     (let existed = mt_before_markdown t \<noteq> [] in
      \<lparr>sc_guru_id = guru, sc_session_id = session, sc_relative_path = mt_relative_path t,
       sc_before_sha256 = (if existed then Some (digest (utf8_encode (mt_before_markdown t))) else None),
       sc_before_markdown = (if existed then Some (mt_before_markdown t) else None),
       sc_proposed_sha256 = digest (utf8_encode (mt_proposed_markdown t)),
       sc_proposed_markdown = mt_proposed_markdown t,
       sc_delete = (authority = User_Authority \<and> mt_proposed_markdown t = [])\<rparr>)"

definition staged_memory_changes ::
  "(bytes \<Rightarrow> ustr) \<Rightarrow> ustr \<Rightarrow> ustr \<Rightarrow> change_authority \<Rightarrow> memory_target list \<Rightarrow> staged_change list" where
  "staged_memory_changes digest guru session authority =
     map (staged_memory_change digest guru session authority)"

definition full_commit_message :: "change_authority \<Rightarrow> ustr \<Rightarrow> memory_target list \<Rightarrow> ustr" where
  "full_commit_message authority rationale targets =
     (let source = (case authority of Chat_Authority \<Rightarrow> lit ''chat'' | User_Authority \<Rightarrow> lit ''user'');
          records = join (lit '', '') (map mt_record_id targets);
          first = (case lines rationale of [] \<Rightarrow> rationale | l # _ \<Rightarrow> l);
          summary = (if trim first = [] then lit ''update memory'' else trim first)
      in source @ lit '': '' @ summary @ (if records = [] then [] else lit '' ('' @ records @ lit '')''))"

text \<open>\<^theory_text>\<open>String::truncate\<close> panics when the length is not a character boundary: None.\<close>

definition commit_message :: "change_authority \<Rightarrow> ustr \<Rightarrow> memory_target list \<Rightarrow> ustr option" where
  "commit_message authority rationale targets =
     (let message = full_commit_message authority rationale targets
      in if 240 < byte_len message then slice_to message 240 else Some message)"

subsection \<open>The journal\<close>

record git_snapshot =
  gs_previous_head :: "ustr option"
  gs_symbolic_head :: "ustr option"
  gs_original_index :: ustr
  gs_published_index :: "ustr option"

datatype finalization_scope = Chat_Scope ustr ustr | Standalone_User

record finalization_journal =
  fj_schema_version :: nat
  fj_id :: ustr
  fj_guru_id :: ustr
  fj_scope :: finalization_scope
  fj_updated_at_ms :: int
  fj_git :: git_snapshot
  fj_changes :: "staged_change list"
  fj_commit_id :: "ustr option"

definition finalization_schema_version :: nat where "finalization_schema_version = 3"

definition bad_journal_text :: "ustr \<Rightarrow> bool" where
  "bad_journal_text value \<longleftrightarrow> value = [] \<or> 512 < byte_len value \<or> contains_any [0, 10, 13] value"

definition oid_or_none :: "(ustr \<Rightarrow> bool) \<Rightarrow> ustr option \<Rightarrow> bool" where
  "oid_or_none is_oid v = (case v of None \<Rightarrow> True | Some name \<Rightarrow> is_oid name)"

text \<open>\<open>is_oid\<close> stands for \<^theory_text>\<open>git2::Oid::from_str\<close>.\<close>

definition validate_journal :: "(ustr \<Rightarrow> bool) \<Rightarrow> finalization_journal \<Rightarrow> ustr + unit" where
  "validate_journal is_oid j =
     (if fj_schema_version j \<noteq> finalization_schema_version
      then Inl (lit ''Memory finalization journal schema is unsupported'')
      else if bad_journal_text (fj_id j) \<or> bad_journal_text (fj_guru_id j)
      then Inl (lit ''Memory finalization journal identity is invalid'')
      else if (case fj_scope j of Chat_Scope thread message \<Rightarrow> bad_journal_text thread \<or> bad_journal_text message
               | Standalone_User \<Rightarrow> False)
      then Inl (lit ''Memory finalization journal Chat identity is invalid'')
      else if fj_updated_at_ms j < 0 \<or> fj_changes j = [] \<or> 24 < length (fj_changes j)
      then Inl (lit ''Memory finalization journal bounds are invalid'')
      else if list_ex (\<lambda>c. sc_guru_id c \<noteq> fj_guru_id j \<or> sc_session_id c \<noteq> fj_id j \<or> sc_relative_path c = [])
        (fj_changes j)
      then Inl (lit ''Memory finalization journal change scope is invalid'')
      else fail_if
        (\<not> oid_or_none is_oid (gs_previous_head (fj_git j)) \<or> \<not> is_oid (gs_original_index (fj_git j)) \<or>
         \<not> oid_or_none is_oid (gs_published_index (fj_git j)) \<or> \<not> oid_or_none is_oid (fj_commit_id j) \<or>
         (fj_commit_id j \<noteq> None) \<noteq> (gs_published_index (fj_git j) \<noteq> None))
        (lit ''Memory finalization journal Git identity is invalid''))"

end
