(* ===== verification/Memory_Git.thy ===== *)
theory Memory_Git
  imports Memory_Write World_Monad
begin

text \<open>
  The Git side of a Memory write (\<^theory_text>\<open>memory_git.rs\<close>) and the world it runs in. A repository is
  what the transaction touches of it: where HEAD points, the branches, the tree of the index, and
  the two locks. Objects are immutable and named by their content, so creating one is not a change; how
  a tree is updated and how a commit is named is the library's, a parameter. Every call of the
  library, of the file system below it or of the database takes a fault from a script: it works, it
  fails, it fails after its effect (an error reported for a change that is durable), or the process dies
  before or after it. A lock file outlives the process.
\<close>

subsection \<open>The world\<close>

record repository =
  rp_head :: "ustr + ustr"
  rp_branches :: "ustr \<Rightarrow> ustr option"
  rp_index :: ustr
  rp_refs_locked :: bool
  rp_index_locked :: bool

datatype call_fault = Works | Fails ustr | Fails_After ustr | Dies_Before | Dies_After

text \<open>
  The message of a Chat is complete with the commit of its Memory update; \<open>cw_messages\<close> has the
  complete ones by thread and message. \<open>cw_panicked\<close> says that the task, not the process, has ended.
\<close>

datatype git_error = Git_Failed ustr | Invalid_Path | Git_Recovery_Required ustr

record journal_row =
  jw_id :: ustr
  jw_guru_id :: ustr
  jw_updated_at_ms :: int
  jw_journal :: "finalization_journal option"

record commit_world =
  cw_memory :: memory_world
  cw_repo :: repository
  cw_journals :: "journal_row list"
  cw_messages :: "(ustr \<times> ustr) \<Rightarrow> ustr option option"
  cw_quarantined :: quarantines
  cw_faults :: "call_fault list"
  cw_head_failures :: "bool list"
  cw_panicked :: bool

text \<open>
  What the code takes from elsewhere: the hash, the directories that exist, the Runtime's verdict on a
  tree, the profile and availability of a Guru, the library's naming of trees and commits, the
  clock, and the texts of errors.
\<close>

record commit_env =
  ce_digest :: "bytes \<Rightarrow> ustr"
  ce_present :: "ustr list \<Rightarrow> bool"
  ce_verdict :: "(ustr list \<Rightarrow> file_entry option) \<Rightarrow> runtime_error + unit"
  ce_root :: ustr
  ce_lookup :: "ustr \<Rightarrow> command_error + ustr option"
  ce_owned :: "ustr \<Rightarrow> ustr \<Rightarrow> bool"
  ce_workspace :: "ustr \<Rightarrow> command_error + unit"
  ce_is_oid :: "ustr \<Rightarrow> bool"
  ce_empty_tree :: ustr
  ce_tree_of :: "ustr \<Rightarrow> ustr"
  ce_update_tree :: "ustr \<Rightarrow> (ustr list \<times> bytes option) list \<Rightarrow> ustr"
  ce_commit_name :: "ustr option \<Rightarrow> ustr \<Rightarrow> ustr \<Rightarrow> ustr"
  ce_now :: int
  ce_runtime_text :: "runtime_error \<Rightarrow> ustr"
  ce_git_text :: "git_error \<Rightarrow> ustr"

type_synonym ('e, 'a) tx = "(commit_world, 'e, 'a) action"

definition ending_of :: "('e + 'a) \<times> commit_world \<Rightarrow> ('e, 'a) ending \<times> commit_world" where
  "ending_of r = (case r of (Inl e, w) \<Rightarrow> (Raised e, w) | (Inr x, w) \<Rightarrow> (Returned x, w))"

definition lib_call_leaving ::
  "(ustr \<Rightarrow> 'e) \<Rightarrow> (commit_world \<Rightarrow> commit_world) \<Rightarrow> (commit_world \<Rightarrow> ('e + 'a) \<times> commit_world) \<Rightarrow> ('e, 'a) tx" where
  "lib_call_leaving err broken f w =
     (case cw_faults w of
        [] \<Rightarrow> ending_of (f w)
      | fault # faults \<Rightarrow>
          let w = w\<lparr>cw_faults := faults\<rparr> in
          (case fault of
             Works \<Rightarrow> ending_of (f w)
           | Fails message \<Rightarrow> (Raised (err message), w)
           | Fails_After message \<Rightarrow> (Raised (err message), broken w)
           | Dies_Before \<Rightarrow> (Died, w)
           | Dies_After \<Rightarrow> (Died, snd (f w))))"

definition lib_call :: "(ustr \<Rightarrow> 'e) \<Rightarrow> (commit_world \<Rightarrow> ('e + 'a) \<times> commit_world) \<Rightarrow> ('e, 'a) tx" where
  "lib_call err f = lib_call_leaving err (\<lambda>w. snd (f w)) f"

definition git_call :: "(repository \<Rightarrow> (git_error + 'a) \<times> repository) \<Rightarrow> (git_error, 'a) tx" where
  "git_call f = lib_call Git_Failed (\<lambda>w. case f (cw_repo w) of (r, repo) \<Rightarrow> (r, w\<lparr>cw_repo := repo\<rparr>))"

definition git_read :: "(repository \<Rightarrow> 'a) \<Rightarrow> (git_error, 'a) tx" where
  "git_read f = git_call (\<lambda>repo. (Inr (f repo), repo))"

text \<open>A guard's \<^theory_text>\<open>drop\<close>: it runs when the body returns or raises, not when the process dies.\<close>

definition finally_do :: "('e, 'a) tx \<Rightarrow> (commit_world \<Rightarrow> commit_world) \<Rightarrow> ('e, 'a) tx" where
  "finally_do body release w =
     (case body w of (Died, w) \<Rightarrow> (Died, w) | (r, w) \<Rightarrow> (r, release w))"

definition set_repo :: "(repository \<Rightarrow> repository) \<Rightarrow> commit_world \<Rightarrow> commit_world" where
  "set_repo f w = w\<lparr>cw_repo := f (cw_repo w)\<rparr>"

subsection \<open>Heads and locks\<close>

definition head_of :: "repository \<Rightarrow> ustr option" where
  "head_of repo = (case rp_head repo of Inl branch \<Rightarrow> rp_branches repo branch | Inr commit \<Rightarrow> Some commit)"

definition symbolic_head_of :: "repository \<Rightarrow> ustr option" where
  "symbolic_head_of repo = (case rp_head repo of Inl branch \<Rightarrow> Some branch | Inr commit \<Rightarrow> None)"

text \<open>
  \<^theory_text>\<open>current_head\<close> takes any failure for an unborn HEAD; its failures have a script of their own,
  which says of each read whether it fails.
\<close>

definition current_head :: "('e, ustr option) tx" where
  "current_head w =
     (case cw_head_failures w of
        [] \<Rightarrow> (Returned (head_of (cw_repo w)), w)
      | failed # failures \<Rightarrow>
          (Returned (if failed then None else head_of (cw_repo w)), w\<lparr>cw_head_failures := failures\<rparr>))"

definition begin_memory_transaction :: "(git_error, git_snapshot) tx" where
  "begin_memory_transaction =
     then_do (git_read rp_index) (\<lambda>original.
     then_do (git_read symbolic_head_of) (\<lambda>symbolic.
     then_do current_head (\<lambda>previous.
     World_Monad.ret \<lparr>gs_previous_head = previous, gs_symbolic_head = symbolic, gs_original_index = original,
       gs_published_index = None\<rparr>)))"

definition recovery_unless :: "bool \<Rightarrow> string \<Rightarrow> (git_error, unit) tx" where
  "recovery_unless ok message = (if ok then World_Monad.ret () else raise (Git_Recovery_Required (lit message)))"

definition ensure_head_shape :: "git_snapshot \<Rightarrow> (git_error, unit) tx" where
  "ensure_head_shape s =
     then_do (git_read symbolic_head_of) (\<lambda>actual.
     recovery_unless (actual = gs_symbolic_head s) ''Memory HEAD changed between symbolic and detached state'')"

definition ensure_head_current :: "git_snapshot \<Rightarrow> (git_error, unit) tx" where
  "ensure_head_current s =
     then_do (ensure_head_shape s) (\<lambda>_.
     then_do current_head (\<lambda>head.
     recovery_unless (head = gs_previous_head s) ''Memory HEAD changed after the transaction was prepared''))"

definition ensure_snapshot_current :: "git_snapshot \<Rightarrow> (git_error, unit) tx" where
  "ensure_snapshot_current s =
     then_do (ensure_head_current s) (\<lambda>_.
     then_do (git_read rp_index) (\<lambda>actual.
     recovery_unless (actual = gs_original_index s) ''Memory index changed after the transaction was reserved''))"

text \<open>
  The locks of HEAD and its branch, taken together and released by the transaction's \<^theory_text>\<open>drop\<close>: a
  transaction that could not take them all leaves none of its own.
\<close>

definition lock_refs :: "(git_error, unit) tx" where
  "lock_refs = lib_call_leaving Git_Recovery_Required (\<lambda>w. w) (\<lambda>w.
     if rp_refs_locked (cw_repo w) then (Inl (Git_Recovery_Required (lit ''Memory HEAD could not be locked'')), w)
     else (Inr (), set_repo (\<lambda>repo. repo\<lparr>rp_refs_locked := True\<rparr>) w))"

definition with_locked_refs :: "(git_error, 'a) tx \<Rightarrow> (git_error, 'a) tx" where
  "with_locked_refs body =
     then_do lock_refs (\<lambda>_. finally_do body (set_repo (\<lambda>repo. repo\<lparr>rp_refs_locked := False\<rparr>)))"

text \<open>
  What a transaction of references has queued: nothing, a new target of HEAD or its branch, or the
  removal of the branch. It takes effect when the transaction commits.
\<close>

datatype ref_update = Leave_Head | Set_Head ustr | Remove_Branch

definition update_head :: "git_snapshot \<Rightarrow> ref_update \<Rightarrow> repository \<Rightarrow> repository" where
  "update_head s update repo =
     (case update of
        Leave_Head \<Rightarrow> repo
      | Set_Head commit \<Rightarrow>
          (case gs_symbolic_head s of
             Some branch \<Rightarrow> repo\<lparr>rp_branches := (rp_branches repo)(branch \<mapsto> commit)\<rparr>
           | None \<Rightarrow> repo\<lparr>rp_head := Inr commit\<rparr>)
      | Remove_Branch \<Rightarrow>
          (case gs_symbolic_head s of
             Some branch \<Rightarrow> repo\<lparr>rp_branches := (rp_branches repo)(branch := None)\<rparr>
           | None \<Rightarrow> repo))"

definition commit_refs :: "git_snapshot \<Rightarrow> ref_update \<Rightarrow> (git_error, unit) tx" where
  "commit_refs s update = lib_call Git_Recovery_Required (\<lambda>w. (Inr (), set_repo (update_head s update) w))"

subsection \<open>The index\<close>

text \<open>
  \<^theory_text>\<open>replace_index_tree_if_current\<close>: a temporary index is written, the lock file created, the
  index compared under the lock, and the lock file filled and renamed over the index. The rename
  ends the lock; the directory is synced after it. The guard that removes the lock file is armed before
  the file is created, so it also runs when the lock is somebody else's.
\<close>

definition lock_index :: "(git_error, unit) tx" where
  "lock_index = lib_call Git_Recovery_Required (\<lambda>w.
     if rp_index_locked (cw_repo w) then (Inl (Git_Recovery_Required (lit ''the Git index could not be locked'')), w)
     else (Inr (), set_repo (\<lambda>repo. repo\<lparr>rp_index_locked := True\<rparr>) w))"

definition publish_index :: "ustr \<Rightarrow> (git_error, unit) tx" where
  "publish_index tree = lib_call Git_Recovery_Required (\<lambda>w.
     (Inr (), set_repo (\<lambda>repo. repo\<lparr>rp_index := tree, rp_index_locked := False\<rparr>) w))"

definition exchange_index :: "ustr list \<Rightarrow> ustr \<Rightarrow> (git_error, unit) tx" where
  "exchange_index allowed desired =
     then_do (git_read rp_index) (\<lambda>current.
     if current \<notin> set allowed
     then raise (Git_Recovery_Required (lit ''the Git index changed outside the Memory transaction''))
     else if current = desired then World_Monad.ret ()
     else then_do (git_read (\<lambda>_. ())) (\<lambda>_.
          then_do (publish_index desired) (\<lambda>_. git_read (\<lambda>_. ()))))"

definition replace_index :: "ustr list \<Rightarrow> ustr \<Rightarrow> (git_error, unit) tx" where
  "replace_index allowed desired =
     then_do (git_read (\<lambda>_. ())) (\<lambda>_.
     finally_do (then_do lock_index (\<lambda>_. exchange_index allowed desired))
       (set_repo (\<lambda>repo. repo\<lparr>rp_index_locked := False\<rparr>)))"

subsection \<open>Preparing, finalizing and rolling back a commit\<close>

definition checked_memory_path :: "ustr \<Rightarrow> ustr list option" where
  "checked_memory_path path =
     (if contains_any [92] path then None
      else case normal_names (path_components path) of
        Some (first # rest) \<Rightarrow> if first = lit ''guruterminal'' then Some (first # rest) else None
      | _ \<Rightarrow> None)"

fun checked_changes ::
  "ustr list list \<Rightarrow> staged_change list \<Rightarrow> (ustr list \<times> bytes option) list option" where
  "checked_changes seen [] = Some []"
| "checked_changes seen (c # cs) =
     (case checked_memory_path (sc_relative_path c) of
        None \<Rightarrow> None
      | Some names \<Rightarrow>
          if names \<in> set seen then None
          else map_option ((#) (names, if sc_delete c then None else Some (utf8_encode (sc_proposed_markdown c))))
            (checked_changes (names # seen) cs))"

definition build_memory_tree :: "commit_env \<Rightarrow> ustr \<Rightarrow> staged_change list \<Rightarrow> (git_error, ustr) tx" where
  "build_memory_tree env base changes =
     (case checked_changes [] changes of
        None \<Rightarrow> raise Invalid_Path
      | Some updates \<Rightarrow> git_read (\<lambda>_. ce_update_tree env base updates))"

record prepared_commit =
  pc_commit_id :: ustr
  pc_index_tree :: ustr
  pc_snapshot :: git_snapshot
  pc_created :: bool

definition prepare_memory_commit ::
  "commit_env \<Rightarrow> ustr \<Rightarrow> git_snapshot \<Rightarrow> staged_change list \<Rightarrow> (git_error, prepared_commit) tx" where
  "prepare_memory_commit env message s changes =
     then_do (ensure_snapshot_current s) (\<lambda>_.
     let parent_tree = (case gs_previous_head s of None \<Rightarrow> ce_empty_tree env | Some p \<Rightarrow> ce_tree_of env p) in
     then_do (build_memory_tree env parent_tree changes) (\<lambda>commit_tree.
     then_do (build_memory_tree env (gs_original_index s) changes) (\<lambda>index_tree.
     let prepared = (\<lambda>commit created. \<lparr>pc_commit_id = commit, pc_index_tree = index_tree,
           pc_snapshot = s\<lparr>gs_published_index := Some index_tree\<rparr>, pc_created = created\<rparr>);
         text_of = (if trim message = [] then lit ''update memory'' else trim message)
     in case gs_previous_head s of
          Some p \<Rightarrow>
            if parent_tree = commit_tree then World_Monad.ret (prepared p False)
            else git_read (\<lambda>_. prepared (ce_commit_name env (Some p) commit_tree text_of) True)
        | None \<Rightarrow> git_read (\<lambda>_. prepared (ce_commit_name env None commit_tree text_of) True))))"

definition publish_commit :: "prepared_commit \<Rightarrow> (git_error, ustr) tx" where
  "publish_commit p =
     (if pc_created p then
        then_do (replace_index [gs_original_index (pc_snapshot p)] (pc_index_tree p)) (\<lambda>_.
        then_do (git_read (\<lambda>_. ())) (\<lambda>_.
        then_do (commit_refs (pc_snapshot p) (Set_Head (pc_commit_id p))) (\<lambda>_.
        World_Monad.ret (pc_commit_id p))))
      else
        then_do (commit_refs (pc_snapshot p) Leave_Head) (\<lambda>_. World_Monad.ret (pc_commit_id p)))"

text \<open>
  Opening the repository changes nothing and can fail. (\<^theory_text>\<open>begin\<close> and \<^theory_text>\<open>prepare\<close> open it too; there the
  read that follows fails with the same error.)
\<close>

definition open_repository :: "(git_error, unit) tx" where
  "open_repository = git_read (\<lambda>_. ())"

definition finalize_memory_commit :: "prepared_commit \<Rightarrow> (git_error, ustr) tx" where
  "finalize_memory_commit p =
     then_do open_repository (\<lambda>_.
     with_locked_refs (then_do (ensure_head_current (pc_snapshot p)) (\<lambda>_. publish_commit p)))"

text \<open>
  The rollback queues the old target of HEAD when HEAD names the commit of the transaction, nothing
  when it was not moved, and fails otherwise; then the index and the references follow.
\<close>

definition queue_old_head :: "git_snapshot \<Rightarrow> ustr option \<Rightarrow> ustr option \<Rightarrow> (git_error, ref_update) tx" where
  "queue_old_head s expected current =
     (if current = gs_previous_head s then World_Monad.ret Leave_Head
      else if current \<noteq> expected \<or> expected = None
      then raise (Git_Recovery_Required (lit ''Memory HEAD no longer names the commit being rolled back''))
      else (case (gs_previous_head s, gs_symbolic_head s) of
          (Some previous, _) \<Rightarrow> then_do (lib_call Git_Recovery_Required (\<lambda>w. (Inr (), w))) (\<lambda>_. World_Monad.ret (Set_Head previous))
        | (None, Some branch) \<Rightarrow> then_do (lib_call Git_Recovery_Required (\<lambda>w. (Inr (), w))) (\<lambda>_. World_Monad.ret Remove_Branch)
        | (None, None) \<Rightarrow> raise (Git_Recovery_Required (lit ''cannot restore an unborn detached Memory HEAD''))))"

definition put_back :: "git_snapshot \<Rightarrow> ref_update \<Rightarrow> (git_error, unit) tx" where
  "put_back s update =
     then_do (replace_index (gs_original_index s # (case gs_published_index s of None \<Rightarrow> [] | Some tree \<Rightarrow> [tree]))
       (gs_original_index s)) (\<lambda>_. commit_refs s update)"

definition rollback_memory_snapshot :: "git_snapshot \<Rightarrow> ustr option \<Rightarrow> (git_error, unit) tx" where
  "rollback_memory_snapshot s expected =
     then_do open_repository (\<lambda>_.
     with_locked_refs
       (then_do current_head (\<lambda>current.
        then_do (ensure_head_shape s) (\<lambda>_.
        then_do (queue_old_head s expected current) (put_back s)))))"

definition verify_finalized_commit :: "ustr \<Rightarrow> (git_error, unit) tx" where
  "verify_finalized_commit expected =
     then_do open_repository (\<lambda>_.
     then_do current_head (\<lambda>head.
     recovery_unless (head = Some expected) ''Memory HEAD does not name the journaled commit''))"

end
