(* ===== verification/Memory_Git_Safety.thy ===== *)
theory Memory_Git_Safety
  imports Memory_Git
begin

text \<open>
  What the Git side of a Memory write leaves behind, whichever of its calls fail or kill the process: the
  references and the index are each where they were or where the commit puts them, and a rollback
  that succeeds has put back both.
\<close>

subsection \<open>Rules for calls\<close>

text \<open>A predicate that does not look at the script.\<close>

definition steady :: "(commit_world \<Rightarrow> bool) \<Rightarrow> bool" where
  "steady P \<longleftrightarrow> (\<forall>w faults. P (w\<lparr>cw_faults := faults\<rparr>) = P w)"

lemma holds_lib_call_leaving:
  assumes "steady P"
    and "\<And>w x w'. P w \<Longrightarrow> f w = (Inr x, w') \<Longrightarrow> Q (Returned x) w'"
    and "\<And>w e w'. P w \<Longrightarrow> f w = (Inl e, w') \<Longrightarrow> Q (Raised e) w'"
    and "\<And>w m. P w \<Longrightarrow> Q (Raised (err m)) w" "\<And>w m. P w \<Longrightarrow> Q (Raised (err m)) (broken w)"
    and "\<And>w. P w \<Longrightarrow> Q Died w" "\<And>w. P w \<Longrightarrow> Q Died (snd (f w))"
  shows "holds P (lib_call_leaving err broken f) Q"
proof (rule holdsI)
  fix w assume P: "P w"
  have run: "Q (fst (ending_of (f v))) (snd (ending_of (f v)))" if "P v" for v
    using assms(2,3) [OF that] by (cases "f v"; cases "fst (f v)") (auto simp: ending_of_def)
  show "Q (fst (lib_call_leaving err broken f w)) (snd (lib_call_leaving err broken f w))"
  proof (cases "cw_faults w")
    case Nil
    then show ?thesis using run [OF P] by (simp add: lib_call_leaving_def)
  next
    case (Cons fault faults)
    have "P (w\<lparr>cw_faults := faults\<rparr>)" using P assms(1) by (simp add: steady_def)
    then show ?thesis
      using run [of "w\<lparr>cw_faults := faults\<rparr>"] assms(4-7) [of "w\<lparr>cw_faults := faults\<rparr>"] Cons
      by (cases fault) (simp_all add: lib_call_leaving_def Let_def)
  qed
qed

lemma holds_lib_call:
  assumes "steady P"
    and "\<And>w x w'. P w \<Longrightarrow> f w = (Inr x, w') \<Longrightarrow> Q (Returned x) w' \<and> (\<forall>m. Q (Raised (err m)) w') \<and> Q Died w'"
    and "\<And>w e w'. P w \<Longrightarrow> f w = (Inl e, w') \<Longrightarrow> Q (Raised e) w' \<and> (\<forall>m. Q (Raised (err m)) w') \<and> Q Died w'"
    and "\<And>w m. P w \<Longrightarrow> Q (Raised (err m)) w" "\<And>w. P w \<Longrightarrow> Q Died w"
  shows "holds P (lib_call err f) Q"
  unfolding lib_call_def
proof (rule holds_lib_call_leaving [OF assms(1)])
  fix w m assume P: "P w"
  show "Q (Raised (err m)) (snd (f w))" "Q Died (snd (f w))"
    using assms(2,3) [OF P] by (cases "f w"; cases "fst (f w)"; auto)+
qed (use assms in blast)+

text \<open>A predicate that looks neither at the script nor at the repository, and HEAD can be read.\<close>

definition repo_free :: "(commit_world \<Rightarrow> bool) \<Rightarrow> bool" where
  "repo_free P \<longleftrightarrow> (\<forall>w repo faults. P (w\<lparr>cw_repo := repo, cw_faults := faults\<rparr>) = P w) \<and>
     (\<forall>w. P w \<longrightarrow> cw_head_failures w = [])"

lemma repo_freeD:
  assumes "repo_free P"
  shows "P (w\<lparr>cw_repo := repo\<rparr>) = P w" "P (w\<lparr>cw_faults := faults\<rparr>) = P w" "P (set_repo f w) = P w"
    "P w \<Longrightarrow> cw_head_failures w = []"
proof -
  have a: "P (w\<lparr>cw_repo := repo, cw_faults := faults\<rparr>) = P w" for w repo faults
    using assms by (simp add: repo_free_def)
  show "P (w\<lparr>cw_repo := repo\<rparr>) = P w" for repo
    using a [where w = w and repo = repo and faults = "cw_faults w"] by simp
  then show "P (set_repo f w) = P w" by (simp add: set_repo_def)
  show "P (w\<lparr>cw_faults := faults\<rparr>) = P w" using a [where w = w and repo = "cw_repo w"] by simp
  show "P w \<Longrightarrow> cw_head_failures w = []" using assms by (simp add: repo_free_def)
qed

lemma holds_git_read:
  assumes "steady P"
  shows "holds P (git_read f) (\<lambda>r w. P w \<and> (\<forall>x. r = Returned x \<longrightarrow> x = f (cw_repo w)))"
  unfolding git_read_def git_call_def by (rule holds_lib_call [OF assms]) auto

lemma holds_current_head:
  assumes "\<And>w. P w \<Longrightarrow> cw_head_failures w = []"
  shows "holds P current_head (\<lambda>r w. P w \<and> (\<forall>x. r = Returned x \<longrightarrow> x = head_of (cw_repo w)))"
  using assms by (simp add: holds_def current_head_def)

lemma holds_finally:
  assumes "holds P m Q" and "\<And>r w. r \<noteq> Died \<Longrightarrow> Q r w \<Longrightarrow> R r (release w)" and "\<And>w. Q Died w \<Longrightarrow> R Died w"
  shows "holds P (finally_do m release) R"
proof (rule holdsI)
  fix w assume "P w"
  then have "Q (fst (m w)) (snd (m w))" using assms(1) by (simp add: holds_def)
  then show "R (fst (finally_do m release w)) (snd (finally_do m release w))"
    using assms(2,3) by (cases "m w"; cases "fst (m w)") (auto simp: finally_do_def)
qed

subsection \<open>Git\<close>

text \<open>
  The references of a repository, and those it has when the transaction has moved HEAD to a commit. Locks
  are left out: what is shown here holds whoever holds them.
\<close>

definition same_refs :: "repository \<Rightarrow> repository \<Rightarrow> bool" where
  "same_refs a b \<longleftrightarrow> rp_head a = rp_head b \<and> rp_branches a = rp_branches b"

definition moved_to :: "ustr \<Rightarrow> repository \<Rightarrow> repository" where
  "moved_to commit repo =
     (case rp_head repo of
        Inl branch \<Rightarrow> repo\<lparr>rp_branches := (rp_branches repo)(branch \<mapsto> commit)\<rparr>
      | Inr _ \<Rightarrow> repo\<lparr>rp_head := Inr commit\<rparr>)"

definition snapshot_of :: "repository \<Rightarrow> git_snapshot \<Rightarrow> bool" where
  "snapshot_of repo s \<longleftrightarrow> gs_previous_head s = head_of repo \<and> gs_symbolic_head s = symbolic_head_of repo \<and>
     gs_original_index s = rp_index repo"

lemma same_refs_heads:
  "same_refs a b \<Longrightarrow> head_of a = head_of b \<and> symbolic_head_of a = symbolic_head_of b"
  by (simp add: same_refs_def head_of_def symbolic_head_of_def split: sum.split)

lemma moved_to_heads: "head_of (moved_to c repo) = Some c" "symbolic_head_of (moved_to c repo) = symbolic_head_of repo"
  by (simp_all add: moved_to_def head_of_def symbolic_head_of_def split: sum.split)

lemma same_refs_simps [simp]:
  "same_refs a a" "same_refs (a\<lparr>rp_index := i\<rparr>) b = same_refs a b" "same_refs (a\<lparr>rp_index_locked := l\<rparr>) b = same_refs a b"
  "same_refs (a\<lparr>rp_refs_locked := l\<rparr>) b = same_refs a b"
  by (simp_all add: same_refs_def)

lemma update_head_set:
  "snapshot_of repo s \<Longrightarrow> same_refs a repo \<Longrightarrow> same_refs (update_head s (Set_Head c) a) (moved_to c repo)"
  by (auto simp: snapshot_of_def same_refs_def update_head_def moved_to_def symbolic_head_of_def split: sum.splits option.splits)

lemma update_head_back:
  assumes "snapshot_of repo s" "same_refs a (moved_to c repo)"
  shows "gs_previous_head s = Some p \<Longrightarrow> same_refs (update_head s (Set_Head p) a) repo"
    and "gs_previous_head s = None \<Longrightarrow> same_refs (update_head s Remove_Branch a) repo"
  using assms
  by (auto simp: snapshot_of_def same_refs_def update_head_def moved_to_def symbolic_head_of_def head_of_def
      fun_upd_idem split: sum.splits option.splits)

lemma update_head_index [simp]: "rp_index (update_head s u repo) = rp_index repo"
  by (auto simp: update_head_def split: ref_update.split option.split)

lemma holds_replace_index:
  assumes free: "repo_free P"
  shows "holds (\<lambda>w. P w \<and> same_refs (cw_repo w) R \<and> rp_index (cw_repo w) \<in> X) (replace_index allowed desired)
    (\<lambda>r w. P w \<and> same_refs (cw_repo w) R \<and> rp_index (cw_repo w) \<in> insert desired X \<and>
       (r = Returned () \<longrightarrow> rp_index (cw_repo w) = desired))"
proof -
  define S where "S = (\<lambda>w. P w \<and> same_refs (cw_repo w) R \<and> rp_index (cw_repo w) \<in> X)"
  define D where "D = (\<lambda>w. P w \<and> same_refs (cw_repo w) R \<and> rp_index (cw_repo w) = desired)"
  define Q where "Q = (\<lambda>(r :: (git_error, unit) ending) w. (S w \<or> D w) \<and> (r = Returned () \<longrightarrow> D w))"
  note keep = repo_freeD [OF free]
  have steady: "steady S" "steady D" by (simp_all add: steady_def S_def D_def keep)
  have S_raise: "holds S (raise e) Q" for e by (rule holds_raise) (simp add: Q_def)
  have sync: "holds D (git_read (\<lambda>_. ())) Q"
    by (rule holds_weaken [OF holds_git_read [OF steady(2)]]) (auto simp: Q_def)
  have publish: "holds S (publish_index desired) (\<lambda>r w. (S w \<or> D w) \<and> (r = Returned () \<longrightarrow> D w))"
    unfolding publish_index_def
    by (rule holds_lib_call [OF steady(1)]) (auto simp: S_def D_def keep set_repo_def)
  have fill: "holds S (then_do (publish_index desired) (\<lambda>_. git_read (\<lambda>_. ()))) Q"
    by (rule holds_then [OF publish]) (auto simp: Q_def intro!: holds_weaken [OF sync])
  have copy: "holds S (then_do (git_read (\<lambda>_. ())) (\<lambda>_. then_do (publish_index desired) (\<lambda>_. git_read (\<lambda>_. ())))) Q"
    by (rule holds_then [OF holds_git_read [OF steady(1)]]) (auto simp: Q_def intro!: holds_weaken [OF fill])
  have body: "holds S (exchange_index allowed desired) Q"
    unfolding exchange_index_def
  proof (rule holds_then [OF holds_git_read [OF steady(1)]])
    fix current
    show "holds (\<lambda>w. S w \<and> (\<forall>x. Returned current = Returned x \<longrightarrow> x = rp_index (cw_repo w)))
        (if current \<notin> set allowed
         then raise (Git_Recovery_Required (lit ''the Git index changed outside the Memory transaction''))
         else if current = desired then World_Monad.ret ()
         else then_do (git_read (\<lambda>_. ())) (\<lambda>_. then_do (publish_index desired) (\<lambda>_. git_read (\<lambda>_. ())))) Q"
    proof (cases "current \<in> set allowed \<and> current = desired")
      case True
      then show ?thesis by (auto simp: Q_def S_def D_def intro!: holds_ret)
    next
      case False
      then show ?thesis by (auto intro!: holds_weaken [OF copy] holds_weaken [OF S_raise])
    qed
  qed (auto simp: Q_def)
  have lock: "holds S lock_index (\<lambda>r. S)"
    unfolding lock_index_def
    by (rule holds_lib_call [OF steady(1)]) (auto simp: S_def keep set_repo_def split: if_splits)
  have locked: "holds S (then_do lock_index (\<lambda>_. exchange_index allowed desired)) Q"
    by (rule holds_then [OF lock]) (auto simp: Q_def intro: body [unfolded Q_def])
  have guarded: "holds S (finally_do (then_do lock_index (\<lambda>_. exchange_index allowed desired))
      (set_repo (\<lambda>repo. repo\<lparr>rp_index_locked := False\<rparr>))) Q"
    by (rule holds_finally [OF locked]) (auto simp: Q_def S_def D_def keep set_repo_def)
  have "holds S (replace_index allowed desired) Q"
    unfolding replace_index_def
    by (rule holds_then [OF holds_git_read [OF steady(1)]]) (auto simp: Q_def intro!: holds_weaken [OF guarded])
  then show ?thesis by (rule holds_weaken) (auto simp: Q_def S_def D_def)
qed

lemma holds_with_locked_refs:
  assumes free: "repo_free P" and body: "holds (\<lambda>w. P w \<and> G (cw_repo w)) m Q"
    and locks: "\<And>repo l. G (repo\<lparr>rp_refs_locked := l\<rparr>) = G repo"
    and raised: "\<And>e w. P w \<Longrightarrow> G (cw_repo w) \<Longrightarrow> Q (Raised e) w" and died: "\<And>w. P w \<Longrightarrow> G (cw_repo w) \<Longrightarrow> Q Died w"
    and release: "\<And>r w. Q r w \<Longrightarrow> Q r (set_repo (\<lambda>repo. repo\<lparr>rp_refs_locked := False\<rparr>) w)"
  shows "holds (\<lambda>w. P w \<and> G (cw_repo w)) (with_locked_refs m) Q"
  unfolding with_locked_refs_def
proof (rule holds_then)
  have "steady (\<lambda>w. P w \<and> G (cw_repo w))" by (simp add: steady_def repo_freeD [OF free])
  then show "holds (\<lambda>w. P w \<and> G (cw_repo w)) lock_refs (\<lambda>r w. P w \<and> G (cw_repo w))"
    unfolding lock_refs_def
    by (rule holds_lib_call_leaving) (auto simp: repo_freeD [OF free] set_repo_def locks split: if_splits)
  show "holds (\<lambda>w. P w \<and> G (cw_repo w)) (finally_do m (set_repo (\<lambda>repo. repo\<lparr>rp_refs_locked := False\<rparr>))) Q" for x
    by (rule holds_finally [OF body]) (use release in auto)
qed (use raised died in auto)

lemma holds_after_open:
  assumes "steady P" "holds P m Q" "\<And>e w. P w \<Longrightarrow> Q (Raised e) w" "\<And>w. P w \<Longrightarrow> Q Died w"
  shows "holds P (then_do open_repository (\<lambda>_. m)) Q"
  unfolding open_repository_def
  by (rule holds_then [OF holds_git_read [OF assms(1)]]) (use assms(2-4) in \<open>auto intro: holds_weaken\<close>)

lemma holds_commit_refs:
  assumes "repo_free P"
  shows "holds (\<lambda>w. P w \<and> same_refs (cw_repo w) R \<and> rp_index (cw_repo w) = i) (commit_refs s u)
    (\<lambda>r w. P w \<and> rp_index (cw_repo w) = i \<and> (same_refs (cw_repo w) R \<or> (\<exists>a. same_refs a R \<and> same_refs (cw_repo w) (update_head s u a))) \<and>
       (r = Returned () \<longrightarrow> (\<exists>a. same_refs a R \<and> same_refs (cw_repo w) (update_head s u a))))"
  unfolding commit_refs_def
  by (rule holds_lib_call) (auto simp: steady_def repo_freeD [OF assms] set_repo_def)

lemma holds_recovery_unless:
  "(\<And>w. P w \<Longrightarrow> ok \<Longrightarrow> Q (Returned ()) w) \<Longrightarrow> (\<And>w e. P w \<Longrightarrow> Q (Raised e) w) \<Longrightarrow>
     holds P (recovery_unless ok message) Q"
  by (auto simp: recovery_unless_def intro!: holds_ret holds_raise)

text \<open>A check that only reads leaves everything as it is.\<close>

lemma holds_ensure:
  assumes "steady P" "\<And>w. P w \<Longrightarrow> cw_head_failures w = []"
  shows "holds P (ensure_head_shape s) (\<lambda>r. P)" "holds P (ensure_head_current s) (\<lambda>r. P)"
    "holds P (ensure_snapshot_current s) (\<lambda>r. P)"
proof -
  have shape: "holds P (ensure_head_shape s) (\<lambda>r. P)"
    unfolding ensure_head_shape_def
    by (rule holds_then [OF holds_git_read [OF assms(1)]]) (auto intro: holds_recovery_unless)
  have current: "holds P (ensure_head_current s) (\<lambda>r. P)"
    unfolding ensure_head_current_def
    by (rule holds_then [OF shape], simp, simp, rule holds_then [OF holds_current_head [OF assms(2)]])
      (auto intro: holds_recovery_unless)
  show "holds P (ensure_head_shape s) (\<lambda>r. P)" "holds P (ensure_head_current s) (\<lambda>r. P)"
    "holds P (ensure_snapshot_current s) (\<lambda>r. P)"
    unfolding ensure_snapshot_current_def
    by (rule shape current holds_then [OF current, of "\<lambda>r. P"] | simp
      | rule holds_then [OF holds_git_read [OF assms(1)]] | auto intro: holds_recovery_unless)+
qed

text \<open>
  Where the references and the index can be while a prepared commit is published or withdrawn: each
  where it was or where it is going.
\<close>

definition between :: "repository \<Rightarrow> ustr \<Rightarrow> ustr \<Rightarrow> repository \<Rightarrow> bool" where
  "between R c tree repo \<longleftrightarrow> (same_refs repo R \<or> same_refs repo (moved_to c R)) \<and> rp_index repo \<in> {rp_index R, tree}"

definition restored :: "repository \<Rightarrow> repository \<Rightarrow> bool" where
  "restored R repo \<longleftrightarrow> same_refs repo R \<and> rp_index repo = rp_index R"

lemma restored_between: "restored R repo \<Longrightarrow> between R c tree repo"
  by (simp add: restored_def between_def)

lemma between_locks [simp]:
  "between R c tree (repo\<lparr>rp_refs_locked := l\<rparr>) = between R c tree repo"
  "between R c tree (repo\<lparr>rp_index_locked := l\<rparr>) = between R c tree repo"
  "restored R (repo\<lparr>rp_refs_locked := l\<rparr>) = restored R repo"
  by (simp_all add: between_def restored_def)

lemma holds_publish_commit:
  assumes free: "repo_free P" and snapshot: "snapshot_of R (pc_snapshot p)"
  shows "holds (\<lambda>w. P w \<and> restored R (cw_repo w)) (publish_commit p)
    (\<lambda>r w. P w \<and> between R (pc_commit_id p) (pc_index_tree p) (cw_repo w) \<and>
       (\<not> pc_created p \<longrightarrow> restored R (cw_repo w)) \<and>
       (\<forall>x. r = Returned x \<longrightarrow> x = pc_commit_id p \<and>
          (pc_created p \<longrightarrow> same_refs (cw_repo w) (moved_to (pc_commit_id p) R) \<and> rp_index (cw_repo w) = pc_index_tree p)))"
    (is "holds ?start _ ?Q")
proof -
  note keep = repo_freeD [OF free]
  have update: "same_refs (update_head (pc_snapshot p) (Set_Head (pc_commit_id p)) a) (moved_to (pc_commit_id p) R)"
    if "same_refs a R" for a
    using update_head_set [OF snapshot that] .
  let ?moved = "\<lambda>w. P w \<and> same_refs (cw_repo w) R \<and> rp_index (cw_repo w) = pc_index_tree p"
  have commit: "holds ?moved (then_do (commit_refs (pc_snapshot p) (Set_Head (pc_commit_id p))) (\<lambda>_. World_Monad.ret (pc_commit_id p))) ?Q"
    if "pc_created p"
    by (rule holds_then [OF holds_commit_refs [OF free]])
      (use that update in \<open>auto simp: between_def same_refs_def intro!: holds_ret\<close>)
  have "steady ?moved" by (simp add: steady_def keep)
  then have publish: "holds ?moved (then_do (git_read (\<lambda>_. ())) (\<lambda>_.
          then_do (commit_refs (pc_snapshot p) (Set_Head (pc_commit_id p))) (\<lambda>_. World_Monad.ret (pc_commit_id p)))) ?Q"
    if "pc_created p"
    by (intro holds_then [OF holds_git_read])
      (use that in \<open>auto simp: between_def intro!: holds_weaken [OF commit]\<close>)
  show ?thesis
  proof (cases "pc_created p")
    case True
    have "holds ?start (then_do (replace_index [gs_original_index (pc_snapshot p)] (pc_index_tree p)) (\<lambda>_.
        then_do (git_read (\<lambda>_. ())) (\<lambda>_.
        then_do (commit_refs (pc_snapshot p) (Set_Head (pc_commit_id p))) (\<lambda>_. World_Monad.ret (pc_commit_id p))))) ?Q"
      by (rule holds_weaken [OF holds_then [OF holds_replace_index [OF free, of R "{rp_index R}"], of _ ?Q]])
        (use True in \<open>auto simp: restored_def between_def intro!: holds_weaken [OF publish]\<close>)
    then show ?thesis using True by (simp add: publish_commit_def)
  next
    case False
    have "holds ?start (then_do (commit_refs (pc_snapshot p) Leave_Head) (\<lambda>_. World_Monad.ret (pc_commit_id p))) ?Q"
      by (rule holds_then [OF holds_weaken [OF holds_commit_refs [OF free, of R "rp_index R"]]])
        (use False in \<open>auto simp: restored_def between_def update_head_def same_refs_def intro!: holds_ret\<close>)
    then show ?thesis using False by (simp add: publish_commit_def)
  qed
qed

lemma holds_finalize:
  assumes free: "repo_free P" and snapshot: "snapshot_of R (pc_snapshot p)"
  shows "holds (\<lambda>w. P w \<and> restored R (cw_repo w)) (finalize_memory_commit p)
    (\<lambda>r w. P w \<and> between R (pc_commit_id p) (pc_index_tree p) (cw_repo w) \<and>
       (\<not> pc_created p \<longrightarrow> restored R (cw_repo w)) \<and>
       (\<forall>x. r = Returned x \<longrightarrow> x = pc_commit_id p \<and>
          (pc_created p \<longrightarrow> same_refs (cw_repo w) (moved_to (pc_commit_id p) R) \<and> rp_index (cw_repo w) = pc_index_tree p)))"
    (is "holds ?start _ ?Q")
  unfolding finalize_memory_commit_def
proof (rule holds_after_open [OF _ holds_with_locked_refs [OF free]])
  show "steady ?start" by (simp add: steady_def repo_freeD [OF free])
  then show "holds ?start (then_do (ensure_head_current (pc_snapshot p)) (\<lambda>_. publish_commit p)) ?Q"
    by (rule holds_then [OF holds_ensure(2)])
      (auto simp: repo_freeD [OF free] restored_between intro: holds_publish_commit [OF free snapshot])
qed (auto simp: restored_between repo_freeD [OF free] set_repo_def)

text \<open>
  The rollback: HEAD is known to be old or at the commit, and the latter only if the caller
  named that commit.
\<close>

definition withdrawable :: "repository \<Rightarrow> ustr \<Rightarrow> ustr \<Rightarrow> ustr option \<Rightarrow> repository \<Rightarrow> bool" where
  "withdrawable R c tree expected repo \<longleftrightarrow> between R c tree repo \<and> (expected = Some c \<or> same_refs repo R)"

lemma withdrawable_locks [simp]:
  "withdrawable R c tree expected (repo\<lparr>rp_refs_locked := l\<rparr>) = withdrawable R c tree expected repo"
  by (simp add: withdrawable_def)

lemma same_refs_trans: "same_refs a b \<Longrightarrow> same_refs b d \<Longrightarrow> same_refs a d"
  by (simp add: same_refs_def)

lemma same_refs_sym: "same_refs a b \<Longrightarrow> same_refs b a"
  by (simp add: same_refs_def)

lemma old_head:
  assumes snapshot: "snapshot_of R s" and "between R c tree repo" "head_of repo = gs_previous_head s"
  shows "same_refs repo R"
proof (cases "same_refs repo R")
  case False
  then have m: "same_refs repo (moved_to c R)" using assms by (simp add: between_def)
  then have "head_of R = Some c"
    using same_refs_heads [OF m] moved_to_heads(1) [of c R] assms by (simp add: snapshot_of_def)
  then have "same_refs (moved_to c R) R"
    by (auto simp: moved_to_def head_of_def same_refs_def split: sum.splits)
  then show ?thesis using m same_refs_trans by blast
qed

text \<open>The queued update takes HEAD back, whatever the index does meanwhile.\<close>

definition returns_head :: "(commit_world \<Rightarrow> bool) \<Rightarrow> git_snapshot \<Rightarrow> repository \<Rightarrow> (repository \<Rightarrow> bool) \<Rightarrow>
    ref_update \<Rightarrow> commit_world \<Rightarrow> bool" where
  "returns_head P s R G u w \<longleftrightarrow> P w \<and> G (cw_repo w) \<and>
     (\<forall>a. same_refs a (cw_repo w) \<longrightarrow> same_refs (update_head s u a) R)"

lemma holds_queue_old_head:
  fixes s c tree expected
  assumes free: "repo_free P" and snapshot: "snapshot_of R s"
  defines "G \<equiv> withdrawable R c tree expected"
  shows "holds (\<lambda>w. P w \<and> G (cw_repo w) \<and> current = head_of (cw_repo w)) (queue_old_head s expected current)
    (\<lambda>r w. P w \<and> G (cw_repo w) \<and> (\<forall>u. r = Returned u \<longrightarrow> returns_head P s R G u w))"
    (is "holds _ _ ?Q")
proof -
  have call: "holds (returns_head P s R G u)
      (then_do (lib_call Git_Recovery_Required (\<lambda>w. (Inr (), w))) (\<lambda>_. World_Monad.ret u)) ?Q" for u
    by (rule holds_then [OF holds_lib_call [where Q = "\<lambda>r. returns_head P s R G u"]])
      (auto simp: steady_def repo_freeD [OF free] returns_head_def intro!: holds_ret)
  have moved: "same_refs repo (moved_to c R)" if "between R c tree repo" "head_of repo \<noteq> gs_previous_head s" for repo
    using that snapshot same_refs_heads [of repo R] by (auto simp: between_def snapshot_of_def)
  consider (leave) "current = gs_previous_head s" | (stop) "current \<noteq> gs_previous_head s" "current \<noteq> expected \<or> expected = None"
    | (move) "current \<noteq> gs_previous_head s" "current = expected" "expected \<noteq> None" by blast
  then show ?thesis
  proof cases
    case leave
    then show ?thesis using old_head [OF snapshot] same_refs_trans
      by (auto intro!: holds_ret simp: queue_old_head_def returns_head_def update_head_def G_def withdrawable_def)
  next
    case stop
    then show ?thesis by (auto intro!: holds_raise simp: queue_old_head_def)
  next
    case move
    have taken: "same_refs (update_head s u a) R"
      if "between R c tree repo" "head_of repo \<noteq> gs_previous_head s" "same_refs a repo"
        "u = (case gs_previous_head s of None \<Rightarrow> Remove_Branch | Some p \<Rightarrow> Set_Head p)" for a repo u
      using update_head_back [OF snapshot same_refs_trans [OF that(3) moved [OF that(1,2)]]] that(4)
      by (cases "gs_previous_head s") simp_all
    have "returns_head P s R G (case gs_previous_head s of None \<Rightarrow> Remove_Branch | Some p \<Rightarrow> Set_Head p) w"
      if "P w" "G (cw_repo w)" "current = head_of (cw_repo w)" for w
      using that move(1) taken [of "cw_repo w"] by (simp add: returns_head_def G_def withdrawable_def)
    then have queued: "holds (\<lambda>w. P w \<and> G (cw_repo w) \<and> current = head_of (cw_repo w))
        (then_do (lib_call Git_Recovery_Required (\<lambda>w. (Inr (), w))) (\<lambda>_. World_Monad.ret u)) ?Q"
      if "u = (case gs_previous_head s of None \<Rightarrow> Remove_Branch | Some p \<Rightarrow> Set_Head p)" for u
      using that by (intro holds_weaken [OF call]) simp_all
    have stuck: "holds (\<lambda>w. P w \<and> G (cw_repo w) \<and> current = head_of (cw_repo w)) (raise e) ?Q" for e
      by (rule holds_raise) simp
    have "queue_old_head s expected current =
        (case (gs_previous_head s, gs_symbolic_head s) of
          (Some previous, _) \<Rightarrow> then_do (lib_call Git_Recovery_Required (\<lambda>w. (Inr (), w))) (\<lambda>_. World_Monad.ret (Set_Head previous))
        | (None, Some branch) \<Rightarrow> then_do (lib_call Git_Recovery_Required (\<lambda>w. (Inr (), w))) (\<lambda>_. World_Monad.ret Remove_Branch)
        | (None, None) \<Rightarrow> raise (Git_Recovery_Required (lit ''cannot restore an unborn detached Memory HEAD'')))"
      using move by (auto simp: queue_old_head_def)
    then show ?thesis using queued stuck by (auto split: option.split)
  qed
qed

lemma holds_put_back:
  fixes s c tree expected u
  assumes free: "repo_free P" and snapshot: "snapshot_of R s"
  defines "G \<equiv> withdrawable R c tree expected"
  shows "holds (returns_head P s R G u) (put_back s u)
    (\<lambda>r w. P w \<and> G (cw_repo w) \<and> (r = Returned () \<longrightarrow> restored R (cw_repo w)))"
    (is "holds _ _ ?Q")
proof (rule holdsI)
  fix w assume start: "returns_head P s R G u w"
  define B where "B = cw_repo w"
  have B: "same_refs B R \<or> same_refs B (moved_to c R)" "expected = Some c \<or> same_refs B R"
      "\<And>a. same_refs a B \<Longrightarrow> same_refs (update_head s u a) R" "rp_index B \<in> {rp_index R, tree}"
    using start by (auto simp: returns_head_def G_def withdrawable_def between_def B_def)
  have orig: "gs_original_index s = rp_index R" using snapshot by (simp add: snapshot_of_def)
  have "holds (\<lambda>w. P w \<and> same_refs (cw_repo w) B \<and> rp_index (cw_repo w) \<in> {rp_index R, tree}) (put_back s u) ?Q"
    unfolding put_back_def orig
  proof (rule holds_then [OF holds_replace_index [OF free]])
    fix x
    show "holds (\<lambda>w. P w \<and> same_refs (cw_repo w) B \<and> rp_index (cw_repo w) \<in> insert (rp_index R) {rp_index R, tree} \<and>
        (Returned x = Returned () \<longrightarrow> rp_index (cw_repo w) = rp_index R)) (commit_refs s u) ?Q"
      by (rule holds_weaken [OF holds_commit_refs [OF free, of B "rp_index R"]])
        (use B same_refs_trans in \<open>auto simp: G_def withdrawable_def between_def restored_def\<close>)
  qed (use B same_refs_trans in \<open>auto simp: G_def withdrawable_def between_def\<close>)
  moreover have "P w" "same_refs (cw_repo w) B" "rp_index (cw_repo w) \<in> {rp_index R, tree}"
    using start B by (auto simp: returns_head_def B_def)
  ultimately show "?Q (fst (put_back s u w)) (snd (put_back s u w))"
    by (simp add: holds_def)
qed

lemma holds_rollback:
  fixes s c tree expected
  assumes free: "repo_free P" and snapshot: "snapshot_of R s"
  defines "G \<equiv> withdrawable R c tree expected"
  shows "holds (\<lambda>w. P w \<and> G (cw_repo w)) (rollback_memory_snapshot s expected)
    (\<lambda>r w. P w \<and> G (cw_repo w) \<and> (r = Returned () \<longrightarrow> restored R (cw_repo w)))"
    (is "holds ?start _ ?Q")
  unfolding rollback_memory_snapshot_def
proof (rule holds_after_open [OF _ holds_with_locked_refs [OF free]])
  note keep = repo_freeD [OF free]
  show "steady ?start" by (simp add: steady_def keep)
  show "holds ?start (then_do current_head (\<lambda>current. then_do (ensure_head_shape s) (\<lambda>_.
      then_do (queue_old_head s expected current) (put_back s)))) ?Q"
  proof (rule holds_then [OF holds_current_head])
    fix current
    let ?at = "\<lambda>w. P w \<and> G (cw_repo w) \<and> current = head_of (cw_repo w)"
    have finish: "holds ?at (then_do (queue_old_head s expected current) (put_back s)) ?Q"
      unfolding G_def
      by (rule holds_then [OF holds_queue_old_head [OF free snapshot]])
        (auto intro: holds_weaken [OF holds_put_back [OF free snapshot]])
    have "steady ?at" by (simp add: steady_def keep)
    then have shape: "holds ?at (ensure_head_shape s) (\<lambda>r. ?at)"
      by (rule holds_ensure(1)) (simp add: keep)
    show "holds (\<lambda>w. ?start w \<and> (\<forall>x. Returned current = Returned x \<longrightarrow> x = head_of (cw_repo w)))
        (then_do (ensure_head_shape s) (\<lambda>_. then_do (queue_old_head s expected current) (put_back s))) ?Q"
      by (rule holds_weaken [OF holds_then [OF shape, of ?Q]]) (auto intro: finish)
  qed (auto simp: keep)
qed (auto simp: G_def repo_freeD [OF free] set_repo_def)

subsection \<open>Publishing and withdrawing a commit\<close>

definition anywhere :: "(commit_world \<Rightarrow> bool)" where
  "anywhere w \<longleftrightarrow> cw_head_failures w = []"

lemma free_anywhere: "repo_free anywhere"
  by (simp add: repo_free_def anywhere_def)


text \<open>A first commit on the branch of HEAD, whose publication is reported as failed after its effect.\<close>

definition example_repository :: repository where
  "example_repository =
     \<lparr>rp_head = Inl (lit ''main''), rp_branches = (\<lambda>_. None), rp_index = lit ''t0'', rp_refs_locked = False,
      rp_index_locked = False\<rparr>"

definition example_prepared :: prepared_commit where
  "example_prepared =
     \<lparr>pc_commit_id = lit ''c1'', pc_index_tree = lit ''t1'',
      pc_snapshot = \<lparr>gs_previous_head = None, gs_symbolic_head = Some (lit ''main''), gs_original_index = lit ''t0'',
        gs_published_index = Some (lit ''t1'')\<rparr>, pc_created = True\<rparr>"

definition example_git_world :: "call_fault list \<Rightarrow> commit_world" where
  "example_git_world faults =
     \<lparr>cw_memory = \<lparr>mw_targets = [], mw_artifacts = [], mw_turns = [], mw_destroyed = [], mw_sync_failed = False\<rparr>,
      cw_repo = example_repository, cw_journals = [], cw_messages = (\<lambda>_. None), cw_quarantined = [],
      cw_faults = faults, cw_head_failures = [], cw_panicked = False\<rparr>"

lemmas example_git_defs = example_repository_def example_prepared_def example_git_world_def


subsection \<open>The lock of another process\<close>

text \<open>
  C22: The update of the index that finds \<^theory_text>\<open>index.lock\<close> held by another Git process fails, and
  removes that lock: the guard is armed before the file is created. The next update takes the lock and replaces the
  index while the other process still believes to own it.
\<close>
theorem foreign_index_lock_removed:
  assumes "rp_index_locked (cw_repo w)" and "cw_faults w = []" and "rp_index (cw_repo w) \<in> set allowed'"
  shows "\<exists>e w1 w2. replace_index allowed desired w = (Raised e, w1) \<and> cw_repo w1 = (cw_repo w)\<lparr>rp_index_locked := False\<rparr> \<and>
    replace_index allowed' desired' w1 = (Returned (), w2) \<and> rp_index (cw_repo w2) = desired'"
  using assms
  by (simp add: replace_index_def exchange_index_def then_do_def finally_do_def git_read_def git_call_def lib_call_def
      lib_call_leaving_def ending_of_def lock_index_def publish_index_def set_repo_def ret_def)

theorem foreign_index_lock_removed_witness:
  "\<exists>e w1 w2. replace_index [lit ''t0''] (lit ''t1'')
      (set_repo (\<lambda>repo. repo\<lparr>rp_index_locked := True\<rparr>) (example_git_world [])) = (Raised e, w1) \<and>
    \<not> rp_index_locked (cw_repo w1) \<and>
    replace_index [lit ''t0''] (lit ''t2'') w1 = (Returned (), w2) \<and> rp_index (cw_repo w2) = lit ''t2''"
  using foreign_index_lock_removed [of "set_repo (\<lambda>repo. repo\<lparr>rp_index_locked := True\<rparr>) (example_git_world [])"
      "[lit ''t0'']" "[lit ''t0'']" "lit ''t1''" "lit ''t2''"]
  by (auto simp: set_repo_def example_git_defs)

end
