(* ===== verification/Memory_Commit.thy ===== *)
theory Memory_Commit
  imports Memory_Git
begin

text \<open>
  The Memory write as a whole (\<^theory_text>\<open>commands/memory_write.rs\<close>): files, Git and the database change
  together or are put back, under a journal that the next start finds when the process dies in
  between; whatever cannot be put back quarantines the Guru.
\<close>

subsection \<open>The pieces\<close>

definition map_error :: "('e \<Rightarrow> 'f) \<Rightarrow> ('e, 'a) tx \<Rightarrow> ('f, 'a) tx" where
  "map_error f m = match_result m (\<lambda>r. case r of Inl e \<Rightarrow> raise (f e) | Inr x \<Rightarrow> World_Monad.ret x)"

definition memory_act :: "(memory_world \<Rightarrow> (runtime_error + 'a) \<times> memory_world) \<Rightarrow> (runtime_error, 'a) tx" where
  "memory_act m w = (case m (cw_memory w) of (r, memory) \<Rightarrow> ending_of (r, w\<lparr>cw_memory := memory\<rparr>))"

definition panic :: "('e, 'a) tx" where
  "panic w = (Died, w\<lparr>cw_panicked := True\<rparr>)"

definition quarantine :: "ustr \<Rightarrow> ustr \<Rightarrow> ('e, unit) tx" where
  "quarantine guru reason w =
     (Returned (), w\<lparr>cw_quarantined := quarantine_guru guru Memory_Write_Source reason (cw_quarantined w)\<rparr>)"

definition clear_quarantine :: "ustr \<Rightarrow> ('e, unit) tx" where
  "clear_quarantine guru w =
     (Returned (), w\<lparr>cw_quarantined := clear_guru_quarantine guru Memory_Write_Source (cw_quarantined w)\<rparr>)"

definition check_available :: "commit_env \<Rightarrow> ustr \<Rightarrow> (command_error, unit) tx" where
  "check_available env guru w =
     of_sum (ensure_guru_available (ce_lookup env) (ce_owned env) guru (cw_quarantined w)) w"

definition runtime_valid :: "commit_env \<Rightarrow> memory_world \<Rightarrow> runtime_error + unit" where
  "runtime_valid env memory = ce_verdict env (bt_get (mw_targets memory))"

definition validate_tree :: "commit_env \<Rightarrow> (runtime_error, unit) tx" where
  "validate_tree env = lib_call Runtime_Failed (\<lambda>w. (runtime_valid env (cw_memory w), w))"

text \<open>\<^theory_text>\<open>read_memory_record\<close> of \<^theory_text>\<open>snapshot.rs\<close>; its errors are those of reading a file.\<close>

definition read_memory_record :: "ustr \<Rightarrow> (runtime_error, bytes option) tx" where
  "read_memory_record path =
     (case normal_names (path_components path) of
        None \<Rightarrow> raise Memory_Boundary
      | Some names \<Rightarrow>
          if names = [] \<or> extension (last names) \<noteq> Some (lit ''md'') \<or> hd names \<noteq> lit ''guruterminal'' \<or>
            length names < 3 \<or> 66 < length names
          then raise Memory_Boundary
          else memory_act (read_target \<lparr>tx_target = names, tx_artifact = []\<rparr>))"

subsection \<open>The journal in the database\<close>

text \<open>
  The errors that these statements can end with. A failure of the database, its lock or its encoding is one kind
  here: the code treats them alike and they differ in their text. (No statement of these returns "no rows".)
\<close>

datatype store_error = Store_Invalid ustr | Store_Conflict string | Store_Sqlite ustr

fun map_store :: "store_error \<Rightarrow> command_error" where
  "map_store (Store_Conflict message) = err_conflict (lit message)"
| "map_store (Store_Invalid message) = err_internal (lit ''invalid object: '' @ message)"
| "map_store (Store_Sqlite message) = err_internal (lit ''SQLite error: '' @ message)"

fun store_text :: "store_error \<Rightarrow> ustr" where
  "store_text (Store_Conflict message) = lit ''immutable record conflicts with an existing record: '' @ lit message"
| "store_text (Store_Invalid message) = lit ''invalid object: '' @ message"
| "store_text (Store_Sqlite message) = lit ''SQLite error: '' @ message"

definition row_of :: "finalization_journal \<Rightarrow> journal_row" where
  "row_of j = \<lparr>jw_id = fj_id j, jw_guru_id = fj_guru_id j, jw_updated_at_ms = fj_updated_at_ms j, jw_journal = Some j\<rparr>"

definition checked_journal :: "commit_env \<Rightarrow> finalization_journal \<Rightarrow> (store_error, unit) tx" where
  "checked_journal env j =
     (case validate_journal (ce_is_oid env) j of Inl e \<Rightarrow> raise (Store_Invalid e) | Inr u \<Rightarrow> World_Monad.ret ())"

definition create_journal :: "commit_env \<Rightarrow> finalization_journal \<Rightarrow> (store_error, unit) tx" where
  "create_journal env j =
     then_do (checked_journal env j) (\<lambda>_. lib_call Store_Sqlite (\<lambda>w.
       if fj_id j \<in> jw_id ` set (cw_journals w) then (Inl (Store_Conflict ''Memory finalization journal creation''), w)
       else (Inr (), w\<lparr>cw_journals := cw_journals w @ [row_of j]\<rparr>)))"

definition replace_journal :: "commit_env \<Rightarrow> finalization_journal \<Rightarrow> finalization_journal \<Rightarrow> (store_error, unit) tx" where
  "replace_journal env expected j =
     then_do (checked_journal env expected) (\<lambda>_.
     then_do (checked_journal env j) (\<lambda>_.
     if fj_id expected \<noteq> fj_id j \<or> fj_guru_id expected \<noteq> fj_guru_id j \<or> fj_scope expected \<noteq> fj_scope j \<or>
       fj_updated_at_ms j < fj_updated_at_ms expected
     then raise (Store_Invalid (lit ''Memory finalization journal replacement identity is invalid''))
     else lib_call Store_Sqlite (\<lambda>w.
       if list_ex (\<lambda>r. jw_id r = fj_id j \<and> jw_guru_id r = fj_guru_id j \<and> jw_journal r = Some expected) (cw_journals w)
       then (Inr (), w\<lparr>cw_journals := map (\<lambda>r. if jw_id r = fj_id j \<and> jw_guru_id r = fj_guru_id j \<and>
         jw_journal r = Some expected then row_of j else r) (cw_journals w)\<rparr>)
       else (Inl (Store_Conflict ''Memory finalization journal changed''), w))))"

definition delete_journal :: "commit_env \<Rightarrow> finalization_journal \<Rightarrow> (store_error, unit) tx" where
  "delete_journal env expected =
     then_do (checked_journal env expected) (\<lambda>_. lib_call Store_Sqlite (\<lambda>w.
       if list_ex (\<lambda>r. jw_id r = fj_id expected \<and> jw_journal r = Some expected) (cw_journals w)
       then (Inr (), w\<lparr>cw_journals := filter (\<lambda>r. \<not> (jw_id r = fj_id expected \<and> jw_journal r = Some expected))
         (cw_journals w)\<rparr>)
       else (Inl (Store_Conflict ''Memory finalization journal changed''), w)))"

text \<open>A row is a valid journal, or is reported as invalid with its identifiers.\<close>

definition list_journals :: "commit_env \<Rightarrow> (store_error, (finalization_journal + ustr \<times> ustr \<times> ustr) list) tx" where
  "list_journals env = lib_call Store_Sqlite (\<lambda>w. (Inr (map (\<lambda>r.
       case jw_journal r of
         Some j \<Rightarrow> if validate_journal (ce_is_oid env) j = Inr () then Inl j
           else Inr (jw_id r, jw_guru_id r, lit ''Memory finalization journal failed validation'')
       | None \<Rightarrow> Inr (jw_id r, jw_guru_id r, lit ''Memory finalization journal JSON is invalid''))
     (sort_key (\<lambda>r. (jw_updated_at_ms r, jw_id r)) (cw_journals w))), w))"

subsection \<open>Putting the files back\<close>

definition proposed_digest :: "staged_change \<Rightarrow> ustr option" where
  "proposed_digest c = (if sc_delete c then None else Some (sc_proposed_sha256 c))"

definition not_journaled :: "staged_change \<Rightarrow> string \<Rightarrow> ustr" where
  "not_journaled c message = lit ''Memory target '' @ sc_relative_path c @ lit message"

definition read_digest :: "commit_env \<Rightarrow> staged_change \<Rightarrow> (ustr, ustr option) tx" where
  "read_digest env c =
     then_do (map_error (ce_runtime_text env) (read_memory_record (sc_relative_path c))) (\<lambda>current.
     World_Monad.ret (map_option (ce_digest env) current))"

definition preflight_memory_rollback :: "commit_env \<Rightarrow> staged_change list \<Rightarrow> (ustr, unit) tx" where
  "preflight_memory_rollback env = do_each (\<lambda>c.
     then_do (read_digest env c) (\<lambda>current.
     if current \<noteq> sc_before_sha256 c \<and> current \<noteq> proposed_digest c
     then raise (not_journaled c '' is neither its journaled before nor proposed state'')
     else World_Monad.ret ()))"

definition verify_published_memory :: "commit_env \<Rightarrow> staged_change list \<Rightarrow> (ustr, unit) tx" where
  "verify_published_memory env changes =
     then_do (do_each (\<lambda>c.
       then_do (read_digest env c) (\<lambda>current.
       if current \<noteq> proposed_digest c then raise (not_journaled c '' changed after its journaled write'')
       else World_Monad.ret ())) changes) (\<lambda>_.
     map_error (ce_runtime_text env) (validate_tree env))"

fun reconcile_changes :: "commit_env \<Rightarrow> staged_change list \<Rightarrow> staged_change list \<Rightarrow> (ustr, staged_change list) tx" where
  "reconcile_changes env applied [] = World_Monad.ret applied"
| "reconcile_changes env applied (c # cs) =
     then_do (read_digest env c) (\<lambda>current.
     then_do
       (if current = sc_before_sha256 c then World_Monad.ret False
        else if current = proposed_digest c then World_Monad.ret True
        else raise (not_journaled c '' is neither its journaled before nor proposed state'')) (\<lambda>target_is_proposed.
     then_do (map_error (ce_runtime_text env) (memory_act
       (reconcile_memory_artifact_at (ce_digest env) (ce_present env) c target_is_proposed))) (\<lambda>_.
     then_do (read_digest env c) (\<lambda>reconciled.
     if reconciled = sc_before_sha256 c then reconcile_changes env applied cs
     else if reconciled = proposed_digest c then reconcile_changes env (applied @ [c]) cs
     else raise (not_journaled c '' changed while reconciling its journaled artifact'')))))"

definition rollback_memory_changes_idempotent :: "commit_env \<Rightarrow> staged_change list \<Rightarrow> (ustr, unit) tx" where
  "rollback_memory_changes_idempotent env changes =
     then_do (reconcile_changes env [] changes) (\<lambda>applied.
     map_error (ce_runtime_text env)
       (if applied = [] then validate_tree env
        else memory_act (rollback_memory_markdown_set (ce_digest env) (ce_present env) (Inr ())
          (runtime_valid env) applied)))"

definition compensate_memory_transaction ::
  "commit_env \<Rightarrow> staged_change list \<Rightarrow> git_snapshot \<Rightarrow> ustr option \<Rightarrow> finalization_journal option \<Rightarrow> (ustr, unit) tx" where
  "compensate_memory_transaction env changes snapshot expected_commit journal =
     then_do (map_error (\<lambda>e. lit ''files='' @ e) (preflight_memory_rollback env changes)) (\<lambda>_.
     then_do (map_error (\<lambda>e. lit ''git='' @ ce_git_text env e) (rollback_memory_snapshot snapshot expected_commit)) (\<lambda>_.
     then_do (map_error (\<lambda>e. lit ''files='' @ e) (rollback_memory_changes_idempotent env changes)) (\<lambda>_.
     case journal of
       None \<Rightarrow> World_Monad.ret ()
     | Some j \<Rightarrow> map_error (\<lambda>e. lit ''journal='' @ store_text e) (delete_journal env j))))"

subsection \<open>Recovery\<close>

definition finalized_commit :: "finalization_journal \<Rightarrow> (command_error, ustr option) tx" where
  "finalized_commit j =
     (case fj_scope j of
        Chat_Scope thread message \<Rightarrow>
          then_do (map_error map_store (lib_call Store_Sqlite (\<lambda>w. (Inr (cw_messages w (thread, message)), w)))) (\<lambda>complete.
          World_Monad.ret (if complete = Some (fj_commit_id j) then fj_commit_id j else None))
      | Standalone_User \<Rightarrow>
          (case fj_commit_id j of
             None \<Rightarrow> World_Monad.ret None
           | Some commit \<Rightarrow> match_result (verify_finalized_commit commit) (\<lambda>r.
               World_Monad.ret (if is_ok r then Some commit else None))))"

definition recover_journal :: "commit_env \<Rightarrow> finalization_journal \<Rightarrow> (command_error, unit) tx" where
  "recover_journal env j =
     then_do (finalized_commit j) (\<lambda>finalized.
     case finalized of
       Some commit \<Rightarrow>
         then_do (map_error (\<lambda>e. err_internal (ce_git_text env e)) (verify_finalized_commit commit)) (\<lambda>_.
         then_do (map_error err_internal (verify_published_memory env (fj_changes j))) (\<lambda>_.
         map_error map_store (delete_journal env j)))
     | None \<Rightarrow>
         map_error (\<lambda>e. err_internal (lit ''Interrupted Memory finalization could not be recovered: '' @ e))
           (compensate_memory_transaction env (fj_changes j) (fj_git j) (fj_commit_id j) (Some j)))"

definition recover_row :: "commit_env \<Rightarrow> ustr \<Rightarrow> finalization_journal + ustr \<times> ustr \<times> ustr \<Rightarrow> (command_error, unit) tx" where
  "recover_row env guru row =
     (case row of
        Inl j \<Rightarrow> if fj_guru_id j = guru then recover_journal env j else World_Monad.ret ()
      | Inr (row_id, row_guru, reason) \<Rightarrow>
          if row_guru = guru
          then raise (err_internal (lit ''Memory finalization journal is invalid and requires manual recovery''))
          else World_Monad.ret ())"

definition recover_memory_finalizations :: "commit_env \<Rightarrow> ustr \<Rightarrow> (command_error, unit) tx" where
  "recover_memory_finalizations env guru =
     then_do (map_error map_store (list_journals env)) (\<lambda>rows.
     then_do (of_sum (ce_workspace env guru)) (\<lambda>_.
     do_each (recover_row env guru) rows))"

definition retry_quarantined_guru_recovery :: "commit_env \<Rightarrow> ustr \<Rightarrow> (command_error, unit) tx" where
  "retry_quarantined_guru_recovery env guru w =
     (if \<not> is_guru_quarantined guru (cw_quarantined w) then (Returned (), w)
      else
        then_do (of_sum (ce_workspace env guru)) (\<lambda>_.
        then_do (recover_memory_finalizations env guru) (\<lambda>_.
        then_do (map_error (\<lambda>e. err_internal (ce_runtime_text env e)) (validate_tree env)) (\<lambda>_.
        clear_quarantine guru))) w)"

text \<open>The start of the application quarantines every Guru that has a journal.\<close>

definition quarantine_interrupted :: "commit_env \<Rightarrow> (command_error, unit) tx" where
  "quarantine_interrupted env =
     then_do (map_error map_store (list_journals env)) (\<lambda>rows.
     do_each (\<lambda>row. case row of
         Inl j \<Rightarrow> quarantine (fj_guru_id j)
           (lit ''Interrupted Memory finalization '' @ fj_id j @ lit '' requires recovery'')
       | Inr (row_id, guru, reason) \<Rightarrow>
           quarantine guru (lit ''Invalid Memory finalization journal '' @ row_id @ lit '': '' @ reason)) rows)"

subsection \<open>The transaction\<close>

record write_result =
  wr_commit_id :: ustr
  wr_record_ids :: "ustr list"

definition recovery_needed :: command_error where
  "recovery_needed = err_internal (lit ''Memory write recovery is required before this Guru can be used'')"

definition quarantine_and_fail :: "ustr \<Rightarrow> ustr \<Rightarrow> (command_error, 'a) tx" where
  "quarantine_and_fail guru reason = then_do (quarantine guru reason) (\<lambda>_. raise recovery_needed)"

fun map_runtime :: "commit_env \<Rightarrow> runtime_error \<Rightarrow> command_error" where
  "map_runtime env Before_Hash_Mismatch = err_conflict (ce_runtime_text env Before_Hash_Mismatch)"
| "map_runtime env e = err_internal (ce_runtime_text env e)"

fun needs_recovery :: "git_error \<Rightarrow> bool" where
  "needs_recovery (Git_Recovery_Required message) = True"
| "needs_recovery _ = False"

definition outcome_text :: "ustr + unit \<Rightarrow> ustr" where
  "outcome_text r = (case r of Inl e \<Rightarrow> e | Inr _ \<Rightarrow> lit ''restored'')"

text \<open>A failure of Git: the transaction is put back, and the Guru quarantined unless that is certain.\<close>

definition git_failed ::
  "commit_env \<Rightarrow> ustr \<Rightarrow> string \<Rightarrow> git_error \<Rightarrow> (ustr, unit) tx \<Rightarrow> (command_error, 'a) tx" where
  "git_failed env guru what e compensate =
     match_result compensate (\<lambda>recovery.
     if needs_recovery e \<or> \<not> is_ok recovery
     then quarantine_and_fail guru (lit what @ ce_git_text env e @ lit ''; recovery='' @ outcome_text recovery)
     else raise (err_internal (ce_git_text env e)))"

text \<open>The end of the transaction, once the commit is in place and the files were verified.\<close>

definition settle_write ::
  "commit_env \<Rightarrow> ustr \<Rightarrow> (write_result \<Rightarrow> (command_error, 'a) tx) \<Rightarrow> finalization_journal \<Rightarrow> write_result \<Rightarrow>
   (ustr, unit) tx \<Rightarrow> (command_error, write_result \<times> 'a) tx" where
  "settle_write env guru finalize j written compensate =
     match_result (finalize written) (\<lambda>r. case r of
       Inr finalized \<Rightarrow>
         match_result (delete_journal env j) (\<lambda>deleted. case deleted of
           Inl e \<Rightarrow> then_do (quarantine guru (lit ''finalized Memory journal cleanup failed: '' @ store_text e))
             (\<lambda>_. World_Monad.ret (written, finalized))
         | Inr _ \<Rightarrow> World_Monad.ret (written, finalized))
     | Inl finalize_error \<Rightarrow>
         (case fj_scope j of
            Chat_Scope thread message \<Rightarrow>
              then_do (quarantine guru (lit ''Chat finalization returned an indeterminate outcome: '' @ err_message finalize_error)) (\<lambda>_.
              match_result (recover_memory_finalizations env guru) (\<lambda>recovered. case recovered of
                Inr _ \<Rightarrow> then_do (clear_quarantine guru) (\<lambda>_. raise finalize_error)
              | Inl e \<Rightarrow> quarantine_and_fail guru (lit ''Chat finalization outcome could not be resolved: sqlite='' @
                  err_message finalize_error @ lit ''; recovery='' @ err_message e)))
          | Standalone_User \<Rightarrow>
              match_result compensate (\<lambda>recovery. case recovery of
                Inl e \<Rightarrow> quarantine_and_fail guru (lit ''Memory finalization failed and compensation was incomplete: finalization='' @
                  err_message finalize_error @ lit ''; recovery='' @ e)
              | Inr _ \<Rightarrow> raise finalize_error)))"

definition publish_write ::
  "commit_env \<Rightarrow> memory_write \<Rightarrow> (write_result \<Rightarrow> (command_error, 'a) tx) \<Rightarrow> finalization_journal \<Rightarrow>
   prepared_commit \<Rightarrow> (command_error, write_result \<times> 'a) tx" where
  "publish_write env write finalize j prepared =
     (let guru = mwr_guru_id write; changes = fj_changes j;
          compensate = (\<lambda>expected. compensate_memory_transaction env changes (fj_git j) expected (Some j))
      in match_result (finalize_memory_commit prepared) (\<lambda>r. case r of
           Inl e \<Rightarrow> git_failed env guru ''Memory ref finalization could not be recovered: commit='' e (compensate (fj_commit_id j))
         | Inr commit \<Rightarrow>
             match_result (verify_published_memory env changes) (\<lambda>verified. case verified of
               Inl e \<Rightarrow> quarantine_and_fail guru (lit ''Memory changed during Chat finalization: '' @ e)
             | Inr _ \<Rightarrow>
                 settle_write env guru finalize j
                   \<lparr>wr_commit_id = commit, wr_record_ids = map mt_record_id (mwr_targets write)\<rparr>
                   (compensate (Some commit)))))"

text \<open>The commit is named in the journal before any reference moves.\<close>

definition intent_journal :: "commit_env \<Rightarrow> finalization_journal \<Rightarrow> prepared_commit \<Rightarrow> finalization_journal" where
  "intent_journal env j prepared =
     j\<lparr>fj_commit_id := Some (pc_commit_id prepared),
       fj_git := (fj_git j)\<lparr>gs_published_index := Some (pc_index_tree prepared)\<rparr>,
       fj_updated_at_ms := max (ce_now env) (fj_updated_at_ms j + 1)\<rparr>"

definition record_intent ::
  "commit_env \<Rightarrow> memory_write \<Rightarrow> (write_result \<Rightarrow> (command_error, 'a) tx) \<Rightarrow> finalization_journal \<Rightarrow>
   prepared_commit \<Rightarrow> (command_error, write_result \<times> 'a) tx" where
  "record_intent env write finalize j prepared =
     (let intent = intent_journal env j prepared in
      match_result (replace_journal env j intent) (\<lambda>replaced. case replaced of
        Inl e \<Rightarrow>
          match_result (compensate_memory_transaction env (fj_changes j) (fj_git intent) None (Some j)) (\<lambda>recovery. case recovery of
            Inl reason \<Rightarrow> quarantine_and_fail (mwr_guru_id write)
              (lit ''Memory commit intent failed and compensation was incomplete: intent='' @ store_text e @ lit ''; recovery='' @ reason)
          | Inr _ \<Rightarrow> raise (map_store e))
      | Inr _ \<Rightarrow> publish_write env write finalize intent prepared))"

definition commit_write ::
  "commit_env \<Rightarrow> memory_write \<Rightarrow> (write_result \<Rightarrow> (command_error, 'a) tx) \<Rightarrow> finalization_journal \<Rightarrow>
   (command_error, write_result \<times> 'a) tx" where
  "commit_write env write finalize j =
     (case commit_message (mwr_authority write) (mwr_rationale write) (mwr_targets write) of
        None \<Rightarrow> panic
      | Some message \<Rightarrow>
          match_result (prepare_memory_commit env message (fj_git j) (fj_changes j)) (\<lambda>r. case r of
            Inl e \<Rightarrow> git_failed env (mwr_guru_id write) ''Memory git transaction could not be recovered: commit='' e
              (compensate_memory_transaction env (fj_changes j) (fj_git j) None (Some j))
          | Inr prepared \<Rightarrow> record_intent env write finalize j prepared))"

text \<open>The files, once the journal is there.\<close>

definition apply_write ::
  "commit_env \<Rightarrow> memory_write \<Rightarrow> (write_result \<Rightarrow> (command_error, 'a) tx) \<Rightarrow> finalization_journal \<Rightarrow>
   (command_error, write_result \<times> 'a) tx" where
  "apply_write env write finalize j =
     match_result (memory_act (apply_memory_markdown_set (ce_digest env) (ce_present env)
         (runtime_valid env) (ce_root env) (fj_changes j))) (\<lambda>applied. case applied of
       Inl e \<Rightarrow>
         match_result (compensate_memory_transaction env (fj_changes j) (fj_git j) None (Some j)) (\<lambda>recovery. case recovery of
           Inl reason \<Rightarrow> quarantine_and_fail (mwr_guru_id write)
             (lit ''Memory apply failed and compensation was incomplete: apply='' @ ce_runtime_text env e @ lit ''; recovery='' @ reason)
         | Inr _ \<Rightarrow> raise (map_runtime env e))
     | Inr _ \<Rightarrow> commit_write env write finalize j)"

definition journaled_write ::
  "commit_env \<Rightarrow> memory_write \<Rightarrow> (write_result \<Rightarrow> (command_error, 'a) tx) \<Rightarrow> finalization_journal \<Rightarrow>
   (command_error, write_result \<times> 'a) tx" where
  "journaled_write env write finalize j =
     match_result (create_journal env j) (\<lambda>created. case created of
       Inl e \<Rightarrow> quarantine_and_fail (mwr_guru_id write)
         (lit ''Memory transaction journal creation was indeterminate: '' @ store_text e)
     | Inr _ \<Rightarrow> apply_write env write finalize j)"

definition apply_memory_targets_registered ::
  "commit_env \<Rightarrow> memory_write \<Rightarrow> ustr \<Rightarrow> finalization_scope \<Rightarrow> (write_result \<Rightarrow> (command_error, 'a) tx) \<Rightarrow>
   (command_error, write_result \<times> 'a) tx" where
  "apply_memory_targets_registered env write write_id scope finalize =
     (let guru = mwr_guru_id write
      in then_do (check_available env guru) (\<lambda>_.
         then_do (map_error err_internal (of_sum (validate_memory_write write))) (\<lambda>_.
         then_do (of_sum (ce_workspace env guru)) (\<lambda>_.
         then_do (map_error (\<lambda>e. err_internal (ce_runtime_text env e)) (validate_tree env)) (\<lambda>_.
         then_do (map_error (\<lambda>e. err_internal (ce_git_text env e)) begin_memory_transaction) (\<lambda>snapshot.
         journaled_write env write finalize
           \<lparr>fj_schema_version = finalization_schema_version, fj_id = write_id, fj_guru_id = guru,
            fj_scope = scope, fj_updated_at_ms = ce_now env, fj_git = snapshot,
            fj_changes = staged_memory_changes (ce_digest env) guru write_id (mwr_authority write) (mwr_targets write),
            fj_commit_id = None\<rparr>))))))"

text \<open>The write of a user: nothing is left to finalize.\<close>

definition standalone_write :: "commit_env \<Rightarrow> memory_write \<Rightarrow> ustr \<Rightarrow> (command_error, write_result \<times> unit) tx" where
  "standalone_write env write write_id =
     apply_memory_targets_registered env write write_id Standalone_User (\<lambda>_. World_Monad.ret ())"

text \<open>
  The write of a Chat: the message is stored as complete, with the commit. The database reports a
  success, or an error before or after the message became durable.
\<close>

definition chat_write ::
  "commit_env \<Rightarrow> memory_write \<Rightarrow> ustr \<Rightarrow> ustr \<Rightarrow> ustr \<Rightarrow> (command_error, write_result \<times> unit) tx" where
  "chat_write env write write_id thread message =
     apply_memory_targets_registered env write write_id (Chat_Scope thread message) (\<lambda>written.
       map_error map_store (lib_call Store_Sqlite (\<lambda>w.
         (Inr (), w\<lparr>cw_messages := (cw_messages w)((thread, message) \<mapsto> Some (wr_commit_id written))\<rparr>))))"

end
