(* ===== verification/Memory_Commit_Steps.thy ===== *)
theory Memory_Commit_Steps
  imports Memory_Git_Safety Memory_Commit Memory_Atomic
begin

text \<open>
  The steps of a Memory write, whichever calls of Git, of the Runtime and of the database fail, fail after
  their effect or kill the process: what each step leaves of the files, the repository, the journal and
  the messages. Nobody else edits the Memory files meanwhile and the calls on them work; Memory_Safety has
  what holds of the files when that is not so.
\<close>

lemma holds_map_error:
  assumes "holds P m (\<lambda>r w. case r of Raised e \<Rightarrow> Q (Raised (f e)) w | Returned x \<Rightarrow> Q (Returned x) w | Died \<Rightarrow> Q Died w)"
  shows "holds P (map_error f m) Q"
  unfolding map_error_def
  by (rule holds_match [OF assms]) (auto intro!: holds_ret holds_raise)

lemma holds_map_error_keep: "holds P m (\<lambda>r. Q) \<Longrightarrow> holds P (map_error f m) (\<lambda>r. Q)"
  by (rule holds_map_error) (auto elim!: holds_weaken split: ending.split)

subsection \<open>The case of a write\<close>

text \<open>
  A write as its transaction sees it: the files and artifacts before it, the repository, the
  journals of the database, and the messages that are complete.
\<close>

record write_case =
  wk_env :: commit_env
  wk_guru :: ustr
  wk_id :: ustr
  wk_changes :: "staged_change list"
  wk_files :: targets
  wk_artifacts :: artifacts
  wk_repo :: repository
  wk_journals :: "journal_row list"
  wk_messages :: "ustr \<times> ustr \<Rightarrow> ustr option option"

definition elsewhere ::
  "(repository \<Rightarrow> bool) \<Rightarrow> journal_row list \<Rightarrow> (ustr \<times> ustr \<Rightarrow> ustr option option) \<Rightarrow> commit_world \<Rightarrow> bool" where
  "elsewhere G J M w \<longleftrightarrow> cw_head_failures w = [] \<and> G (cw_repo w) \<and> cw_journals w = J \<and> cw_messages w = M"

definition old_files :: "write_case \<Rightarrow> commit_world \<Rightarrow> bool" where
  "old_files k w \<longleftrightarrow> quiet (wk_files k) (wk_artifacts k) (cw_memory w)"

text \<open>What is known once the files were changed.\<close>

definition changed :: "write_case \<Rightarrow> bool" where
  "changed k \<longleftrightarrow> list_all (sound_change (ce_digest (wk_env k)) (ce_present (wk_env k)) (wk_artifacts k)) (wk_changes k) \<and>
     distinct (map change_names (wk_changes k)) \<and> validate_approved_change_set (ce_digest (wk_env k)) (wk_changes k) = Inr ()"

definition new_files :: "write_case \<Rightarrow> commit_world \<Rightarrow> bool" where
  "new_files k w \<longleftrightarrow> quiet (apply_spec (wk_changes k) (wk_files k)) (wk_artifacts k) (cw_memory w) \<and> changed k"

text \<open>
  The changes replace what the files have, no artifact is pending, and old and new contents differ in
  their digests.
\<close>

definition undisturbed :: "write_case \<Rightarrow> bool" where
  "undisturbed k \<longleftrightarrow> (\<forall>c\<in>set (wk_changes k).
     validate_memory_relative_path (sc_relative_path c) = Inr (change_names c) \<and>
     wk_files k (change_names c) = before_entry c \<and> readable c \<and> content_ok (ce_digest (wk_env k)) c \<and>
     wk_artifacts k (artifact_name (ce_digest (wk_env k)) c) = None \<and> sc_before_sha256 c \<noteq> proposed_digest c)"

lemma elsewhere_simps [simp]:
  "elsewhere G J M (w\<lparr>cw_faults := fs\<rparr>) = elsewhere G J M w"
  "elsewhere G J M (w\<lparr>cw_memory := m\<rparr>) = elsewhere G J M w"
  "elsewhere G J M (w\<lparr>cw_quarantined := q\<rparr>) = elsewhere G J M w"
  "elsewhere G J M (w\<lparr>cw_panicked := b\<rparr>) = elsewhere G J M w"
  by (simp_all add: elsewhere_def)

lemma files_simps [simp]:
  "old_files k (w\<lparr>cw_faults := fs\<rparr>) = old_files k w" "new_files k (w\<lparr>cw_faults := fs\<rparr>) = new_files k w"
  "old_files k (w\<lparr>cw_quarantined := q\<rparr>) = old_files k w" "new_files k (w\<lparr>cw_quarantined := q\<rparr>) = new_files k w"
  "old_files k (w\<lparr>cw_panicked := b\<rparr>) = old_files k w" "new_files k (w\<lparr>cw_panicked := b\<rparr>) = new_files k w"
  "old_files k (w\<lparr>cw_journals := js\<rparr>) = old_files k w" "new_files k (w\<lparr>cw_journals := js\<rparr>) = new_files k w"
  "old_files k (w\<lparr>cw_messages := ms\<rparr>) = old_files k w" "new_files k (w\<lparr>cw_messages := ms\<rparr>) = new_files k w"
  "old_files k (w\<lparr>cw_repo := r\<rparr>) = old_files k w" "new_files k (w\<lparr>cw_repo := r\<rparr>) = new_files k w"
  by (simp_all add: old_files_def new_files_def)

subsection \<open>The files\<close>

lemma holds_memory_act:
  assumes "effect F A m s F' A'"
  shows "holds (\<lambda>w. quiet F A (cw_memory w) \<and> elsewhere G J M w) (memory_act m)
    (\<lambda>r w. quiet F' A' (cw_memory w) \<and> elsewhere G J M w \<and> r = (case s of Inl e \<Rightarrow> Raised e | Inr x \<Rightarrow> Returned x))"
proof (rule holdsI)
  fix w assume w: "quiet F A (cw_memory w) \<and> elsewhere G J M w"
  then obtain w' where "m (cw_memory w) = (s, w')" "quiet F' A' w'" using effectD [OF assms] by blast
  then show "quiet F' A' (cw_memory (snd (memory_act m w))) \<and> elsewhere G J M (snd (memory_act m w)) \<and>
      fst (memory_act m w) = (case s of Inl e \<Rightarrow> Raised e | Inr x \<Rightarrow> Returned x)"
    using w by (cases s) (simp_all add: memory_act_def ending_of_def)
qed

text \<open>A file that is read has the digest of its content.\<close>

definition digest_at :: "commit_env \<Rightarrow> targets \<Rightarrow> staged_change \<Rightarrow> ustr option" where
  "digest_at env F c = (case F (change_names c) of Some (Regular content) \<Rightarrow> Some (ce_digest env content) | _ \<Rightarrow> None)"

lemma holds_read_digest:
  assumes path: "validate_memory_relative_path (sc_relative_path c) = Inr (change_names c)"
  shows "holds (\<lambda>w. quiet F A (cw_memory w) \<and> elsewhere G J M w) (read_digest env c)
    (\<lambda>r w. quiet F A (cw_memory w) \<and> elsewhere G J M w \<and> (\<forall>x. r = Returned x \<longrightarrow> x = digest_at env F c))"
proof -
  have names: "normal_names (path_components (sc_relative_path c)) = Some (change_names c)"
    using path by (auto simp: validate_memory_relative_path_def split: option.splits if_splits)
  have "holds (\<lambda>w. quiet F A (cw_memory w) \<and> elsewhere G J M w) (read_memory_record (sc_relative_path c))
    (\<lambda>r w. quiet F A (cw_memory w) \<and> elsewhere G J M w \<and>
       (\<forall>x. r = Returned x \<longrightarrow> read_regular (F (change_names c)) = Inr x))"
    unfolding read_memory_record_def names
    using effect_reads(1) [of F A "\<lparr>tx_target = change_names c, tx_artifact = []\<rparr>"]
    by (auto intro!: holds_raise holds_weaken [OF holds_memory_act] split: sum.splits)
  then have "holds (\<lambda>w. quiet F A (cw_memory w) \<and> elsewhere G J M w)
    (map_error (ce_runtime_text env) (read_memory_record (sc_relative_path c)))
    (\<lambda>r w. quiet F A (cw_memory w) \<and> elsewhere G J M w \<and>
       (\<forall>x. r = Returned x \<longrightarrow> read_regular (F (change_names c)) = Inr x))"
    by (intro holds_map_error) (auto elim!: holds_weaken split: ending.splits)
  then show ?thesis
    unfolding read_digest_def
  proof (rule holds_then)
    fix x
    have "map_option (ce_digest env) x = digest_at env F c" if "read_regular (F (change_names c)) = Inr x"
      using that by (cases x) (auto simp: digest_at_def dest: read_regular_Inr)
    then show "holds (\<lambda>w. quiet F A (cw_memory w) \<and> elsewhere G J M w \<and>
        (\<forall>y. Returned x = Returned y \<longrightarrow> read_regular (F (change_names c)) = Inr y))
      (World_Monad.ret (map_option (ce_digest env) x))
      (\<lambda>r w. quiet F A (cw_memory w) \<and> elsewhere G J M w \<and> (\<forall>x. r = Returned x \<longrightarrow> x = digest_at env F c))"
      by (auto intro!: holds_ret)
  qed auto
qed

text \<open>Both files that a change can leave have the digest its journal names.\<close>

lemma digest_old:
  "undisturbed k \<Longrightarrow> c \<in> set (wk_changes k) \<Longrightarrow> digest_at (wk_env k) (wk_files k) c = sc_before_sha256 c"
  using content_okD(2) [of "ce_digest (wk_env k)" c]
  by (auto simp: undisturbed_def digest_at_def before_entry_def split: option.split)

lemma digest_new:
  assumes "changed k" "c \<in> set (wk_changes k)"
  shows "digest_at (wk_env k) (apply_spec (wk_changes k) (wk_files k)) c = proposed_digest c"
proof -
  have "content_ok (ce_digest (wk_env k)) c" "apply_spec (wk_changes k) (wk_files k) (change_names c) = proposed_entry c"
    using assms by (auto simp: changed_def list_all_iff sound_change_def apply_spec_names)
  then show ?thesis
    using content_okD(1) [of "ce_digest (wk_env k)" c]
    by (auto simp: digest_at_def proposed_entry_def proposed_digest_def)
qed

definition paths_valid :: "staged_change list \<Rightarrow> bool" where
  "paths_valid cs \<longleftrightarrow> (\<forall>c\<in>set cs. validate_memory_relative_path (sc_relative_path c) = Inr (change_names c))"

lemma holds_check_files:
  assumes "paths_valid cs"
  shows "holds (\<lambda>w. quiet F A (cw_memory w) \<and> elsewhere G J M w)
    (do_each (\<lambda>c. then_do (read_digest env c) (\<lambda>current.
       if bad c current then raise (not_journaled c message) else World_Monad.ret ())) cs)
    (\<lambda>r w. quiet F A (cw_memory w) \<and> elsewhere G J M w \<and> (r = Returned () \<longrightarrow> (\<forall>c\<in>set cs. \<not> bad c (digest_at env F c))))"
  using assms
proof (induction cs)
  case (Cons c cs)
  let ?Q = "\<lambda>r w. quiet F A (cw_memory w) \<and> elsewhere G J M w \<and>
    (r = Returned () \<longrightarrow> (\<forall>d\<in>set (c # cs). \<not> bad d (digest_at env F d)))"
  have path: "validate_memory_relative_path (sc_relative_path c) = Inr (change_names c)" and "paths_valid cs"
    using Cons.prems by (simp_all add: paths_valid_def)
  have one: "holds (\<lambda>w. quiet F A (cw_memory w) \<and> elsewhere G J M w)
    (then_do (read_digest env c) (\<lambda>current.
       if bad c current then raise (not_journaled c message) else World_Monad.ret ()))
    (\<lambda>r w. quiet F A (cw_memory w) \<and> elsewhere G J M w \<and> (r = Returned () \<longrightarrow> \<not> bad c (digest_at env F c)))"
    by (rule holds_then [OF holds_read_digest [OF path]]) (auto intro!: holds_raise holds_ret)
  show ?case
    unfolding do_each.simps
  proof (rule holds_then [OF one])
    fix x :: unit
    show "holds (\<lambda>w. quiet F A (cw_memory w) \<and> elsewhere G J M w \<and> (Returned x = Returned () \<longrightarrow> \<not> bad c (digest_at env F c)))
      (do_each (\<lambda>c. then_do (read_digest env c) (\<lambda>current.
       if bad c current then raise (not_journaled c message) else World_Monad.ret ())) cs) ?Q"
      by (rule holds_pure [where c = "\<not> bad c (digest_at env F c)"])
        (auto intro!: holds_weaken [OF Cons.IH [OF \<open>paths_valid cs\<close>]])
  qed auto
qed (auto intro!: holds_ret)

lemma holds_preflight:
  assumes "paths_valid cs"
  shows "holds (\<lambda>w. quiet F A (cw_memory w) \<and> elsewhere G J M w) (preflight_memory_rollback env cs)
    (\<lambda>r w. quiet F A (cw_memory w) \<and> elsewhere G J M w)"
  unfolding preflight_memory_rollback_def
  by (rule holds_weaken [OF holds_check_files [OF assms,
        where bad = "\<lambda>c current. current \<noteq> sc_before_sha256 c \<and> current \<noteq> proposed_digest c"]]) auto

lemma holds_validate_tree:
  "holds (\<lambda>w. quiet F A (cw_memory w) \<and> elsewhere G J M w) (validate_tree env)
    (\<lambda>r w. quiet F A (cw_memory w) \<and> elsewhere G J M w)"
  unfolding validate_tree_def by (rule holds_lib_call) (auto simp: steady_def)

lemma holds_verify_published:
  assumes "paths_valid cs"
  shows "holds (\<lambda>w. quiet F A (cw_memory w) \<and> elsewhere G J M w) (verify_published_memory env cs)
    (\<lambda>r w. quiet F A (cw_memory w) \<and> elsewhere G J M w \<and>
       (r = Returned () \<longrightarrow> (\<forall>c\<in>set cs. digest_at env F c = proposed_digest c)))"
  unfolding verify_published_memory_def
proof (rule holds_then [OF holds_check_files [OF assms, where bad = "\<lambda>c current. current \<noteq> proposed_digest c"]])
  fix x
  show "holds (\<lambda>w. quiet F A (cw_memory w) \<and> elsewhere G J M w \<and>
        (Returned x = Returned () \<longrightarrow> (\<forall>c\<in>set cs. \<not> digest_at env F c \<noteq> proposed_digest c)))
      (map_error (ce_runtime_text env) (validate_tree env))
      (\<lambda>r w. quiet F A (cw_memory w) \<and> elsewhere G J M w \<and>
       (r = Returned () \<longrightarrow> (\<forall>c\<in>set cs. digest_at env F c = proposed_digest c)))"
    by (rule holds_pure [where c = "\<forall>c\<in>set cs. digest_at env F c = proposed_digest c"])
      (auto intro!: holds_weaken [OF holds_map_error_keep [OF holds_validate_tree]])
qed auto

subsection \<open>Putting the files back\<close>

lemma effect_reconcile:
  assumes "A (artifact_name digest c) = None"
  obtains s where "effect F A (reconcile_memory_artifact_at digest present c b) s F A"
proof -
  have "effect F A (reconcile_artifact digest tx c b) (Inr ()) F A" if "tx_artifact tx = artifact_name digest c" for tx
    unfolding reconcile_artifact_def
  proof (rule effect_try)
    show "effect F A (read_artifact tx) (Inr None) F A" using assms that effect_reads(2) [of F A tx] by simp
  qed (simp, rule effect_ret)
  then have "\<exists>s. effect F A (reconcile_memory_artifact_at digest present c b) s F A"
    using opened_transaction [of digest present c]
    by (auto simp: reconcile_memory_artifact_at_def with_transaction_def intro: effect_ret split: sum.split)
  then show ?thesis using that by blast
qed

lemma holds_reconcile:
  assumes "paths_valid cs" and "\<And>c. c \<in> set cs \<Longrightarrow> A (artifact_name (ce_digest env) c) = None"
  shows "holds (\<lambda>w. quiet F A (cw_memory w) \<and> elsewhere G J M w) (reconcile_changes env applied cs)
    (\<lambda>r w. quiet F A (cw_memory w) \<and> elsewhere G J M w \<and>
       (\<forall>x. r = Returned x \<longrightarrow> x = applied @ filter (\<lambda>c. digest_at env F c \<noteq> sc_before_sha256 c) cs))"
  using assms
proof (induction cs arbitrary: applied)
  case (Cons c cs)
  let ?P = "\<lambda>w. quiet F A (cw_memory w) \<and> elsewhere G J M w"
  let ?Q = "\<lambda>r w. ?P w \<and> (\<forall>x. r = Returned x \<longrightarrow> x = applied @ filter (\<lambda>c. digest_at env F c \<noteq> sc_before_sha256 c) (c # cs))"
  have path: "validate_memory_relative_path (sc_relative_path c) = Inr (change_names c)" and rest: "paths_valid cs"
    using Cons.prems by (simp_all add: paths_valid_def)
  have read: "holds ?P (read_digest env c) (\<lambda>r w. ?P w \<and> (\<forall>x. r = Returned x \<longrightarrow> x = digest_at env F c))"
    by (rule holds_weaken [OF holds_read_digest [OF path]]) auto
  have last: "holds (\<lambda>w. ?P w \<and> reconciled = digest_at env F c)
      (if reconciled = sc_before_sha256 c then reconcile_changes env applied cs
       else if reconciled = proposed_digest c then reconcile_changes env (applied @ [c]) cs
       else raise (not_journaled c '' changed while reconciling its journaled artifact'')) ?Q" for reconciled
    by (rule holds_pure [where c = "reconciled = digest_at env F c"])
      (use Cons.prems rest in \<open>auto intro!: holds_raise holds_weaken [OF Cons.IH]\<close>)
  have second: "holds ?P (then_do (read_digest env c) (\<lambda>reconciled.
       if reconciled = sc_before_sha256 c then reconcile_changes env applied cs
       else if reconciled = proposed_digest c then reconcile_changes env (applied @ [c]) cs
       else raise (not_journaled c '' changed while reconciling its journaled artifact''))) ?Q"
    by (rule holds_step [OF read]) (use last in auto)
  have artifact: "holds ?P (map_error (ce_runtime_text env) (memory_act
       (reconcile_memory_artifact_at (ce_digest env) (ce_present env) c b))) (\<lambda>r. ?P)" for b
  proof -
    obtain s where s: "effect F A (reconcile_memory_artifact_at (ce_digest env) (ce_present env) c b) s F A"
      using effect_reconcile [of A "ce_digest env" c F "ce_present env" b] Cons.prems(2) by auto
    show ?thesis by (rule holds_map_error_keep, rule holds_weaken [OF holds_memory_act [OF s]]) auto
  qed
  have after: "holds ?P (then_do (map_error (ce_runtime_text env) (memory_act
       (reconcile_memory_artifact_at (ce_digest env) (ce_present env) c b))) (\<lambda>_.
     then_do (read_digest env c) (\<lambda>reconciled.
     if reconciled = sc_before_sha256 c then reconcile_changes env applied cs
     else if reconciled = proposed_digest c then reconcile_changes env (applied @ [c]) cs
     else raise (not_journaled c '' changed while reconciling its journaled artifact'')))) ?Q" for b
    by (rule holds_then [OF artifact]) (use second in auto)
  have state: "holds (\<lambda>w. ?P w \<and> current = digest_at env F c)
      (if current = sc_before_sha256 c then World_Monad.ret False
       else if current = proposed_digest c then World_Monad.ret True
       else raise (not_journaled c '' is neither its journaled before nor proposed state'')) (\<lambda>r. ?P)" for current
    by (auto intro!: holds_ret holds_raise)
  have checked: "holds (\<lambda>w. ?P w \<and> current = digest_at env F c)
    (then_do
     (if current = sc_before_sha256 c then World_Monad.ret False
      else if current = proposed_digest c then World_Monad.ret True
      else raise (not_journaled c '' is neither its journaled before nor proposed state'')) (\<lambda>target_is_proposed.
     then_do (map_error (ce_runtime_text env) (memory_act
       (reconcile_memory_artifact_at (ce_digest env) (ce_present env) c target_is_proposed))) (\<lambda>_.
     then_do (read_digest env c) (\<lambda>reconciled.
     if reconciled = sc_before_sha256 c then reconcile_changes env applied cs
     else if reconciled = proposed_digest c then reconcile_changes env (applied @ [c]) cs
     else raise (not_journaled c '' changed while reconciling its journaled artifact''))))) ?Q" for current
    by (rule holds_then [OF state]) (use after in auto)
  show ?case
    unfolding reconcile_changes.simps
    by (rule holds_step [OF read]) (use checked in auto)
qed (auto intro!: holds_ret)

definition either_files :: "write_case \<Rightarrow> commit_world \<Rightarrow> bool" where
  "either_files k w \<longleftrightarrow> old_files k w \<or> new_files k w"

lemma undisturbed_paths: "undisturbed k \<Longrightarrow> paths_valid (wk_changes k)"
  by (simp add: undisturbed_def paths_valid_def)

lemma holds_disj: "holds P m R \<Longrightarrow> holds Q m R \<Longrightarrow> holds (\<lambda>w. P w \<or> Q w) m R"
  by (auto simp: holds_def)

text \<open>A step that keeps the files whatever they are.\<close>

lemma holds_either:
  assumes "\<And>F. holds (\<lambda>w. quiet F (wk_artifacts k) (cw_memory w) \<and> elsewhere G J M w) m
    (\<lambda>r w. quiet F (wk_artifacts k) (cw_memory w) \<and> elsewhere G J M w)"
  shows "holds (\<lambda>w. either_files k w \<and> elsewhere G J M w) m (\<lambda>r w. either_files k w \<and> elsewhere G J M w)"
    and "holds (\<lambda>w. new_files k w \<and> elsewhere G J M w) m (\<lambda>r w. new_files k w \<and> elsewhere G J M w)"
    and "holds (\<lambda>w. old_files k w \<and> elsewhere G J M w) m (\<lambda>r w. old_files k w \<and> elsewhere G J M w)"
  using assms [of "wk_files k"] assms [of "apply_spec (wk_changes k) (wk_files k)"]
  by (auto simp: holds_def either_files_def old_files_def new_files_def)

lemma holds_rollback_files:
  assumes ok: "undisturbed k"
  shows "holds (\<lambda>w. either_files k w \<and> elsewhere G J M w) (rollback_memory_changes_idempotent (wk_env k) (wk_changes k))
    (\<lambda>r w. either_files k w \<and> elsewhere G J M w \<and> (r = Returned () \<longrightarrow> old_files k w))"
    (is "holds _ _ ?Q")
proof -
  let ?env = "wk_env k" and ?A = "wk_artifacts k"
  have reconcile: "holds (\<lambda>w. quiet F ?A (cw_memory w) \<and> elsewhere G J M w) (reconcile_changes ?env [] (wk_changes k))
      (\<lambda>r w. (quiet F ?A (cw_memory w) \<and> elsewhere G J M w) \<and>
         (\<forall>x. r = Returned x \<longrightarrow> x = filter (\<lambda>c. digest_at ?env F c \<noteq> sc_before_sha256 c) (wk_changes k)))" for F
    by (rule holds_weaken [OF holds_reconcile [OF undisturbed_paths [OF ok]]]) (use ok in \<open>auto simp: undisturbed_def\<close>)
  have old: "holds (\<lambda>w. old_files k w \<and> elsewhere G J M w) (rollback_memory_changes_idempotent ?env (wk_changes k)) ?Q"
    unfolding rollback_memory_changes_idempotent_def old_files_def
  proof (rule holds_step [OF reconcile])
    have none: "filter (\<lambda>c. digest_at ?env (wk_files k) c \<noteq> sc_before_sha256 c) (wk_changes k) = []"
      using digest_old [OF ok] by (simp add: filter_empty_conv)
    show "holds (\<lambda>w. (quiet (wk_files k) ?A (cw_memory w) \<and> elsewhere G J M w) \<and>
        applied = filter (\<lambda>c. digest_at ?env (wk_files k) c \<noteq> sc_before_sha256 c) (wk_changes k))
      (map_error (ce_runtime_text ?env) (if applied = [] then validate_tree ?env
        else memory_act (rollback_memory_markdown_set (ce_digest ?env) (ce_present ?env) (Inr ()) (runtime_valid ?env) applied)))
      (\<lambda>r w. either_files k w \<and> elsewhere G J M w \<and> (r = Returned () \<longrightarrow> quiet (wk_files k) ?A (cw_memory w)))" for applied
      unfolding none
      by (rule holds_pure [where c = "applied = []"])
        (auto intro!: holds_weaken [OF holds_map_error_keep [OF holds_validate_tree]] simp: either_files_def old_files_def)
  qed (auto simp: either_files_def old_files_def)
  have undone: "holds (\<lambda>w. new_files k w \<and> elsewhere G J M w)
      (map_error (ce_runtime_text ?env) (memory_act (rollback_memory_markdown_set (ce_digest ?env) (ce_present ?env) (Inr ())
        (runtime_valid ?env) (wk_changes k)))) (\<lambda>r w. old_files k w \<and> elsewhere G J M w)"
  proof (rule holds_map_error_keep, rule holdsI)
    fix w assume w: "new_files k w \<and> elsewhere G J M w"
    then have "\<exists>m. rollback_memory_markdown_set (ce_digest ?env) (ce_present ?env) (Inr ()) (runtime_valid ?env) (wk_changes k)
        (cw_memory w) = (runtime_valid ?env m, m) \<and> quiet (wk_files k) ?A m"
      using ok by (intro rollback_applied_set) (auto simp: new_files_def changed_def undisturbed_def)
    then obtain m where "rollback_memory_markdown_set (ce_digest ?env) (ce_present ?env) (Inr ()) (runtime_valid ?env) (wk_changes k)
        (cw_memory w) = (runtime_valid ?env m, m)" "quiet (wk_files k) ?A m" by blast
    then show "old_files k (snd (memory_act (rollback_memory_markdown_set (ce_digest ?env) (ce_present ?env) (Inr ())
          (runtime_valid ?env) (wk_changes k)) w)) \<and>
        elsewhere G J M (snd (memory_act (rollback_memory_markdown_set (ce_digest ?env) (ce_present ?env) (Inr ())
          (runtime_valid ?env) (wk_changes k)) w))"
      using w by (cases "runtime_valid ?env m") (simp_all add: memory_act_def ending_of_def old_files_def)
  qed
  have new: "holds (\<lambda>w. new_files k w \<and> elsewhere G J M w) (rollback_memory_changes_idempotent ?env (wk_changes k)) ?Q"
    unfolding rollback_memory_changes_idempotent_def
  proof (rule holds_pure [where c = "changed k"])
    assume ch: "changed k"
    have all: "filter (\<lambda>c. digest_at ?env (apply_spec (wk_changes k) (wk_files k)) c \<noteq> sc_before_sha256 c) (wk_changes k) = wk_changes k"
      using digest_new [OF ch] ok by (auto simp: filter_id_conv undisturbed_def)
    have some: "wk_changes k \<noteq> []"
      using ch by (auto simp: changed_def validate_approved_change_set_def)
    have step: "holds (\<lambda>w. new_files k w \<and> elsewhere G J M w) (reconcile_changes ?env [] (wk_changes k))
      (\<lambda>r w. (new_files k w \<and> elsewhere G J M w) \<and> (\<forall>x. r = Returned x \<longrightarrow> x = wk_changes k))"
      unfolding new_files_def
      by (rule holds_weaken [OF reconcile [of "apply_spec (wk_changes k) (wk_files k)", unfolded all]]) (simp_all add: ch)
    have undo: "holds (\<lambda>w. (new_files k w \<and> elsewhere G J M w) \<and> applied = wk_changes k)
        (map_error (ce_runtime_text ?env) (if applied = [] then validate_tree ?env
          else memory_act (rollback_memory_markdown_set (ce_digest ?env) (ce_present ?env) (Inr ()) (runtime_valid ?env) applied))) ?Q"
      for applied
      by (rule holds_pure [where c = "applied = wk_changes k"])
        (use some in \<open>auto intro!: holds_weaken [OF undone] simp: either_files_def\<close>)
    show "holds (\<lambda>w. new_files k w \<and> elsewhere G J M w) (then_do (reconcile_changes ?env [] (wk_changes k)) (\<lambda>applied.
        map_error (ce_runtime_text ?env) (if applied = [] then validate_tree ?env
          else memory_act (rollback_memory_markdown_set (ce_digest ?env) (ce_present ?env) (Inr ()) (runtime_valid ?env) applied)))) ?Q"
      by (rule holds_step [OF step])
        (use undo in \<open>auto simp: either_files_def\<close>)
  qed (simp add: new_files_def)
  show ?thesis
    using holds_disj [OF old new] by (rule holds_weaken) (auto simp: either_files_def)
qed

subsection \<open>The journal\<close>

lemma elsewhere_split: "elsewhere G J M w \<longleftrightarrow> elsewhere (\<lambda>_. True) J M w \<and> G (cw_repo w)"
  by (auto simp: elsewhere_def)

text \<open>What the database does not see.\<close>

definition files_only :: "(commit_world \<Rightarrow> bool) \<Rightarrow> bool" where
  "files_only P \<longleftrightarrow> (\<forall>w w'. cw_memory w = cw_memory w' \<longrightarrow> P w = P w')"

lemma files_only_cases [simp]:
  "files_only (old_files k)" "files_only (new_files k)" "files_only (either_files k)"
  by (simp_all add: files_only_def old_files_def new_files_def either_files_def)

lemma files_onlyD:
  assumes "files_only P"
  shows "P (w\<lparr>cw_faults := fs\<rparr>) = P w" "P (w\<lparr>cw_journals := js\<rparr>) = P w" "P (w\<lparr>cw_repo := r\<rparr>) = P w"
    "P (w\<lparr>cw_messages := ms\<rparr>) = P w" "P (w\<lparr>cw_quarantined := q\<rparr>) = P w"
    "P (w\<lparr>cw_repo := r, cw_faults := fs\<rparr>) = P w"
  by (rule assms [unfolded files_only_def, rule_format]; simp)+

lemma free_files: "files_only P \<Longrightarrow> repo_free (\<lambda>w. P w \<and> elsewhere (\<lambda>_. True) J M w)"
  by (simp add: repo_free_def files_onlyD) (simp add: elsewhere_def)

lemma steady_files: "files_only P \<Longrightarrow> steady (\<lambda>w. P w \<and> elsewhere G J M w)"
  by (simp add: steady_def files_onlyD)

lemma elsewhere_journals: "elsewhere G J M w \<Longrightarrow> elsewhere G J' M (w\<lparr>cw_journals := J'\<rparr>)"
  by (simp add: elsewhere_def)

lemma elsewhere_has: "elsewhere G J M w \<Longrightarrow> cw_journals w = J"
  by (simp add: elsewhere_def)

lemma holds_checked_journal:
  "(\<And>e w. P w \<Longrightarrow> Q (Raised e) w) \<Longrightarrow> holds P m Q \<Longrightarrow> holds P (then_do (checked_journal env j) (\<lambda>_. m)) Q"
  by (rule holds_then [where Q = "\<lambda>r w. P w \<and> r \<noteq> Died"])
    (auto simp: checked_journal_def holds_def ret_def raise_def split: sum.split)

lemma holds_lib_call_cong:
  assumes "steady P" and "\<And>w. P w \<Longrightarrow> f w = g w"
  shows "holds P (lib_call err f) Q = holds P (lib_call err g) Q"
proof -
  have "f (w\<lparr>cw_faults := fs\<rparr>) = g (w\<lparr>cw_faults := fs\<rparr>)" if "P w" for w fs
    using assms that by (simp add: steady_def)
  then show ?thesis
    using assms(2)
    by (auto simp: holds_def lib_call_def lib_call_leaving_def Let_def split: list.split call_fault.split)
qed

lemma holds_create_journal:
  assumes "files_only P"
  shows "holds (\<lambda>w. P w \<and> elsewhere G J M w) (create_journal env j)
    (\<lambda>r w. P w \<and> (elsewhere G J M w \<or> elsewhere G (J @ [row_of j]) M w) \<and>
       (r = Returned () \<longrightarrow> elsewhere G (J @ [row_of j]) M w))"
  unfolding create_journal_def
  by (rule holds_checked_journal, simp, rule holds_lib_call [OF steady_files [OF assms]])
    (auto simp: files_onlyD [OF assms] elsewhere_has intro!: elsewhere_journals split: if_splits)

lemma fresh_row:
  assumes "\<forall>r\<in>set J. jw_id r \<noteq> fj_id j" and "fj_id j' = fj_id j"
  shows "filter (\<lambda>r. \<not> (jw_id r = fj_id j \<and> jw_journal r = Some j)) (J @ [row_of j']) =
      (if j' = j then J else J @ [row_of j'])"
    and "list_ex (\<lambda>r. jw_id r = fj_id j \<and> jw_journal r = Some j) (J @ [row_of j']) = (j' = j)"
proof -
  have "filter (\<lambda>r. \<not> (jw_id r = fj_id j \<and> jw_journal r = Some j)) J = J"
    using assms(1) by (simp add: filter_id_conv)
  then show "filter (\<lambda>r. \<not> (jw_id r = fj_id j \<and> jw_journal r = Some j)) (J @ [row_of j']) =
      (if j' = j then J else J @ [row_of j'])"
    using assms(2) by (simp add: row_of_def)
qed (use assms in \<open>auto simp: row_of_def list_ex_iff\<close>)

lemma holds_delete_journal:
  assumes "files_only P" and "\<forall>r\<in>set J. jw_id r \<noteq> fj_id j" and "fj_id j' = fj_id j"
  shows "holds (\<lambda>w. P w \<and> elsewhere G (J @ [row_of j']) M w) (delete_journal env j)
    (\<lambda>r w. P w \<and> (elsewhere G (J @ [row_of j']) M w \<or> elsewhere G J M w) \<and> (r = Returned () \<longrightarrow> elsewhere G J M w))"
proof -
  have same: "(if list_ex (\<lambda>r. jw_id r = fj_id j \<and> jw_journal r = Some j) (cw_journals w)
       then (Inr (), w\<lparr>cw_journals := filter (\<lambda>r. \<not> (jw_id r = fj_id j \<and> jw_journal r = Some j)) (cw_journals w)\<rparr>)
       else (Inl (Store_Conflict ''Memory finalization journal changed''), w)) =
      (if j' = j then (Inr (), w\<lparr>cw_journals := J\<rparr>) else (Inl (Store_Conflict ''Memory finalization journal changed''), w))"
    if "P w \<and> elsewhere G (J @ [row_of j']) M w" for w
    by (simp only: elsewhere_has [OF conjunct2 [OF that]] fresh_row [OF assms(2,3)] split: if_split) simp
  show ?thesis
    unfolding delete_journal_def
    by (rule holds_checked_journal, simp, subst holds_lib_call_cong [OF steady_files [OF assms(1)] same],
        assumption, rule holds_lib_call [OF steady_files [OF assms(1)]])
      (auto simp: files_onlyD [OF assms(1)] intro!: elsewhere_journals split: if_splits)
qed

lemma holds_replace_journal:
  assumes "files_only P" and "\<forall>r\<in>set J. jw_id r \<noteq> fj_id j"
  shows "holds (\<lambda>w. P w \<and> elsewhere G (J @ [row_of j]) M w) (replace_journal env j j')
    (\<lambda>r w. P w \<and> (elsewhere G (J @ [row_of j]) M w \<or> fj_id j' = fj_id j \<and> elsewhere G (J @ [row_of j']) M w) \<and>
       (r = Returned () \<longrightarrow> elsewhere G (J @ [row_of j']) M w))"
proof -
  have mapped: "map (\<lambda>r. if jw_id r = fj_id j' \<and> jw_guru_id r = fj_guru_id j' \<and> jw_journal r = Some j then row_of j' else r)
      (J @ [row_of j]) = J @ [row_of j']" if "fj_id j' = fj_id j" "fj_guru_id j' = fj_guru_id j"
    using that assms(2) by (simp add: row_of_def) (rule map_idI, simp)
  have there: "list_ex (\<lambda>r. jw_id r = fj_id j' \<and> jw_guru_id r = fj_guru_id j' \<and> jw_journal r = Some j) (J @ [row_of j])"
    if "fj_id j' = fj_id j" "fj_guru_id j' = fj_guru_id j"
    using that by (simp add: row_of_def)
  have same: "(if list_ex (\<lambda>r. jw_id r = fj_id j' \<and> jw_guru_id r = fj_guru_id j' \<and> jw_journal r = Some j) (cw_journals w)
       then (Inr (), w\<lparr>cw_journals := map (\<lambda>r. if jw_id r = fj_id j' \<and> jw_guru_id r = fj_guru_id j' \<and>
         jw_journal r = Some j then row_of j' else r) (cw_journals w)\<rparr>)
       else (Inl (Store_Conflict ''Memory finalization journal changed''), w)) = (Inr (), w\<lparr>cw_journals := J @ [row_of j']\<rparr>)"
    if "fj_id j' = fj_id j" "fj_guru_id j' = fj_guru_id j" and "P w \<and> elsewhere G (J @ [row_of j]) M w" for w
    by (simp only: elsewhere_has [OF conjunct2 [OF that(3)]] there [OF that(1,2)] mapped [OF that(1,2)] if_True)
  show ?thesis
    unfolding replace_journal_def
  proof (rule holds_checked_journal, simp, rule holds_checked_journal, simp, rule holds_if, rule holds_raise, simp)
    assume "\<not> (fj_id j \<noteq> fj_id j' \<or> fj_guru_id j \<noteq> fj_guru_id j' \<or> fj_scope j \<noteq> fj_scope j' \<or>
      fj_updated_at_ms j' < fj_updated_at_ms j)"
    then have ids: "fj_id j' = fj_id j" "fj_guru_id j' = fj_guru_id j" by simp_all
    show "holds (\<lambda>w. P w \<and> elsewhere G (J @ [row_of j]) M w) (lib_call Store_Sqlite (\<lambda>w.
       if list_ex (\<lambda>r. jw_id r = fj_id j' \<and> jw_guru_id r = fj_guru_id j' \<and> jw_journal r = Some j) (cw_journals w)
       then (Inr (), w\<lparr>cw_journals := map (\<lambda>r. if jw_id r = fj_id j' \<and> jw_guru_id r = fj_guru_id j' \<and>
         jw_journal r = Some j then row_of j' else r) (cw_journals w)\<rparr>)
       else (Inl (Store_Conflict ''Memory finalization journal changed''), w)))
      (\<lambda>r w. P w \<and> (elsewhere G (J @ [row_of j]) M w \<or> fj_id j' = fj_id j \<and> elsewhere G (J @ [row_of j']) M w) \<and>
         (r = Returned () \<longrightarrow> elsewhere G (J @ [row_of j']) M w))"
      by (subst holds_lib_call_cong [OF steady_files [OF assms(1)] same [OF ids]], assumption,
          rule holds_lib_call [OF steady_files [OF assms(1)]])
        (auto simp: files_onlyD [OF assms(1)] ids intro: elsewhere_journals)
  qed
qed

subsection \<open>Compensation\<close>

lemma holds_compensate:
  assumes ok: "undisturbed k" and snapshot: "snapshot_of (wk_repo k) s"
    and id: "\<forall>r\<in>set J. jw_id r \<noteq> fj_id j" "fj_id j' = fj_id j"
  shows "holds (\<lambda>w. either_files k w \<and> elsewhere (withdrawable (wk_repo k) c tree expected) (J @ [row_of j']) M w)
    (compensate_memory_transaction (wk_env k) (wk_changes k) s expected (Some j))
    (\<lambda>r w. (either_files k w \<and> elsewhere (withdrawable (wk_repo k) c tree expected) (J @ [row_of j']) M w \<or>
        old_files k w \<and> elsewhere (restored (wk_repo k)) J M w) \<and>
      (r = Returned () \<longrightarrow> old_files k w \<and> elsewhere (restored (wk_repo k)) J M w))"
    (is "holds ?start _ ?Q")
proof -
  let ?W = "withdrawable (wk_repo k) c tree expected" and ?R = "restored (wk_repo k)" and ?J = "J @ [row_of j']"
  have weak: "elsewhere ?W ?J M w" if "elsewhere ?R ?J M w" for w
    using that by (auto simp: elsewhere_def withdrawable_def restored_between) (simp add: restored_def)
  have first: "holds ?start (map_error (\<lambda>e. lit ''files='' @ e) (preflight_memory_rollback (wk_env k) (wk_changes k))) (\<lambda>r. ?start)"
    by (rule holds_map_error_keep, rule holds_either(1), rule holds_preflight [OF undisturbed_paths [OF ok]])
  have git: "holds ?start (rollback_memory_snapshot s expected)
      (\<lambda>r w. ?start w \<and> (r = Returned () \<longrightarrow> either_files k w \<and> elsewhere ?R ?J M w))"
    by (rule holds_weaken [OF holds_rollback [OF free_files [of "either_files k" ?J M] snapshot, of c tree expected]])
      (auto simp: elsewhere_split [of ?W] elsewhere_split [of ?R])
  have second: "holds ?start (map_error (\<lambda>e. lit ''git='' @ ce_git_text (wk_env k) e) (rollback_memory_snapshot s expected))
      (\<lambda>r w. ?start w \<and> (r = Returned () \<longrightarrow> either_files k w \<and> elsewhere ?R ?J M w))"
    by (rule holds_map_error, rule holds_weaken [OF git]) (auto split: ending.split)
  have third: "holds (\<lambda>w. either_files k w \<and> elsewhere ?R ?J M w)
      (map_error (\<lambda>e. lit ''files='' @ e) (rollback_memory_changes_idempotent (wk_env k) (wk_changes k)))
      (\<lambda>r w. either_files k w \<and> elsewhere ?R ?J M w \<and> (r = Returned () \<longrightarrow> old_files k w))"
    by (rule holds_map_error, rule holds_weaken [OF holds_rollback_files [OF ok]]) (auto split: ending.split)
  have fourth: "holds (\<lambda>w. old_files k w \<and> elsewhere ?R ?J M w)
      (map_error (\<lambda>e. lit ''journal='' @ store_text e) (delete_journal (wk_env k) j)) ?Q"
    by (rule holds_map_error, rule holds_weaken [OF holds_delete_journal [OF files_only_cases(1) id]])
      (auto simp: either_files_def weak split: ending.split)
  have later: "holds (\<lambda>w. either_files k w \<and> elsewhere ?R ?J M w)
      (then_do (map_error (\<lambda>e. lit ''files='' @ e) (rollback_memory_changes_idempotent (wk_env k) (wk_changes k))) (\<lambda>_.
       map_error (\<lambda>e. lit ''journal='' @ store_text e) (delete_journal (wk_env k) j))) ?Q"
    by (rule holds_then [OF third]) (auto simp: weak intro!: holds_weaken [OF fourth])
  have rest: "holds ?start
      (then_do (map_error (\<lambda>e. lit ''git='' @ ce_git_text (wk_env k) e) (rollback_memory_snapshot s expected)) (\<lambda>_.
       then_do (map_error (\<lambda>e. lit ''files='' @ e) (rollback_memory_changes_idempotent (wk_env k) (wk_changes k))) (\<lambda>_.
       map_error (\<lambda>e. lit ''journal='' @ store_text e) (delete_journal (wk_env k) j)))) ?Q"
    by (rule holds_then [OF second]) (auto intro!: holds_weaken [OF later])
  show ?thesis
    unfolding compensate_memory_transaction_def option.case
    by (rule holds_then [OF first]) (use rest in auto)
qed

subsection \<open>Preparing and publishing the commit\<close>

lemma holds_begin:
  "holds (\<lambda>w. old_files k w \<and> elsewhere (restored R) J M w) begin_memory_transaction
    (\<lambda>r w. old_files k w \<and> elsewhere (restored R) J M w \<and> (\<forall>s. r = Returned s \<longrightarrow> snapshot_of R s \<and> gs_published_index s = None))"
    (is "holds ?P _ ?Q")
proof -
  have steady: "steady ?P" by (rule steady_files) simp
  have head: "cw_head_failures w = []" if "?P w" for w using that by (simp add: elsewhere_def)
  have index: "rp_index (cw_repo w) = rp_index R" and refs: "same_refs (cw_repo w) R" if "?P w" for w
    using that by (simp_all add: elsewhere_def restored_def)
  have read1: "holds ?P (git_read rp_index) (\<lambda>r w. ?P w \<and> (\<forall>x. r = Returned x \<longrightarrow> x = rp_index R))"
    by (rule holds_weaken [OF holds_git_read [OF steady]], assumption) (metis index)
  have read2: "holds ?P (git_read symbolic_head_of) (\<lambda>r w. ?P w \<and> (\<forall>x. r = Returned x \<longrightarrow> x = symbolic_head_of R))"
    by (rule holds_weaken [OF holds_git_read [OF steady]], assumption) (metis same_refs_heads refs)
  have read3: "holds ?P current_head (\<lambda>r w. ?P w \<and> (\<forall>x. r = Returned x \<longrightarrow> x = head_of R))"
    by (rule holds_weaken [OF holds_current_head [of ?P, OF head]], assumption, assumption) (metis same_refs_heads refs)
  have result: "holds (\<lambda>w. ?P w \<and> previous = head_of R) (World_Monad.ret \<lparr>gs_previous_head = previous,
      gs_symbolic_head = symbolic, gs_original_index = original, gs_published_index = None\<rparr>) ?Q"
    if "original = rp_index R" "symbolic = symbolic_head_of R" for previous symbolic original
    by (rule holds_ret) (use that in \<open>auto simp: snapshot_of_def\<close>)
  have third: "holds ?P (then_do current_head (\<lambda>previous. World_Monad.ret \<lparr>gs_previous_head = previous,
      gs_symbolic_head = symbolic, gs_original_index = original, gs_published_index = None\<rparr>)) ?Q"
    if "original = rp_index R" "symbolic = symbolic_head_of R" for symbolic original
    by (rule holds_step [OF read3]) (use result [OF that] in auto)
  have second: "holds ?P (then_do (git_read symbolic_head_of) (\<lambda>symbolic.
      then_do current_head (\<lambda>previous. World_Monad.ret \<lparr>gs_previous_head = previous,
      gs_symbolic_head = symbolic, gs_original_index = original, gs_published_index = None\<rparr>))) ?Q"
    if "original = rp_index R" for original
  proof (rule holds_step [OF read2])
    fix symbolic
    show "holds (\<lambda>w. ?P w \<and> symbolic = symbolic_head_of R) (then_do current_head (\<lambda>previous.
        World_Monad.ret \<lparr>gs_previous_head = previous, gs_symbolic_head = symbolic, gs_original_index = original,
          gs_published_index = None\<rparr>)) ?Q"
      by (rule holds_pure [where c = "symbolic = symbolic_head_of R"], simp, rule holds_weaken [OF third [OF that]]) simp_all
  qed simp_all
  show ?thesis
    unfolding begin_memory_transaction_def
  proof (rule holds_step [OF read1])
    fix original
    show "holds (\<lambda>w. ?P w \<and> original = rp_index R) (then_do (git_read symbolic_head_of) (\<lambda>symbolic.
        then_do current_head (\<lambda>previous. World_Monad.ret \<lparr>gs_previous_head = previous,
        gs_symbolic_head = symbolic, gs_original_index = original, gs_published_index = None\<rparr>))) ?Q"
      by (rule holds_pure [where c = "original = rp_index R"], simp, rule holds_weaken [OF second]) simp_all
  qed simp_all
qed

text \<open>What a prepared commit says of the repository it was prepared in.\<close>

definition prepared_in :: "repository \<Rightarrow> git_snapshot \<Rightarrow> prepared_commit \<Rightarrow> bool" where
  "prepared_in R s p \<longleftrightarrow> pc_snapshot p = s\<lparr>gs_published_index := Some (pc_index_tree p)\<rparr> \<and> snapshot_of R (pc_snapshot p) \<and>
     (\<not> pc_created p \<longrightarrow> head_of R = Some (pc_commit_id p))"

lemma holds_keep_read:
  assumes "steady P"
  shows "holds P (git_read (\<lambda>_. y)) (\<lambda>r w. P w \<and> (\<forall>x. r = Returned x \<longrightarrow> x = y))"
  by (rule holds_weaken [OF holds_git_read [OF assms]]) auto

lemma holds_build_tree:
  assumes "steady P"
  shows "holds P (build_memory_tree env base changes) (\<lambda>r. P)"
  unfolding build_memory_tree_def
  by (auto intro!: holds_raise holds_weaken [OF holds_keep_read [OF assms]] split: option.split)

lemma holds_prepare:
  assumes steady: "steady P" and head: "\<And>w. P w \<Longrightarrow> cw_head_failures w = []" and snapshot: "snapshot_of R s"
  shows "holds P (prepare_memory_commit env message s changes) (\<lambda>r w. P w \<and> (\<forall>p. r = Returned p \<longrightarrow> prepared_in R s p))"
    (is "holds _ _ ?Q")
proof -
  have new: "holds P (git_read (\<lambda>_. p)) ?Q" if "prepared_in R s p" for p
    by (rule holds_weaken [OF holds_keep_read [OF steady]]) (use that in auto)
  have made: "prepared_in R s \<lparr>pc_commit_id = commit, pc_index_tree = tree,
      pc_snapshot = s\<lparr>gs_published_index := Some tree\<rparr>, pc_created = created\<rparr>"
    if "\<not> created \<longrightarrow> gs_previous_head s = Some commit" for commit tree created
    using that snapshot by (simp add: prepared_in_def snapshot_of_def)
  show ?thesis
    unfolding prepare_memory_commit_def Let_def
    by (rule holds_then [OF holds_ensure(3) [OF steady head]], assumption, simp, simp,
        rule holds_then [OF holds_build_tree [OF steady]], simp, simp,
        rule holds_then [OF holds_build_tree [OF steady]], simp, simp)
      (auto intro!: holds_ret new made split: option.split)
qed

text \<open>HEAD names the commit; the index has its tree unless the commit was there before.\<close>

definition landed :: "repository \<Rightarrow> ustr \<Rightarrow> ustr \<Rightarrow> repository \<Rightarrow> bool" where
  "landed R c tree repo \<longleftrightarrow> same_refs repo (moved_to c R) \<and> rp_index repo \<in> {rp_index R, tree}"

lemma landed_between: "landed R c tree repo \<Longrightarrow> between R c tree repo"
  by (simp add: landed_def between_def)

lemma moved_to_itself: "head_of R = Some c \<Longrightarrow> same_refs (moved_to c R) R"
  by (auto simp: moved_to_def head_of_def same_refs_def split: sum.splits)

lemma holds_finalize_new:
  assumes p: "prepared_in R s p"
  shows "holds (\<lambda>w. new_files k w \<and> elsewhere (restored R) J M w) (finalize_memory_commit p)
    (\<lambda>r w. new_files k w \<and> elsewhere (between R (pc_commit_id p) (pc_index_tree p)) J M w \<and>
       (\<forall>x. r = Returned x \<longrightarrow> x = pc_commit_id p \<and> elsewhere (landed R (pc_commit_id p) (pc_index_tree p)) J M w))"
proof -
  have snapshot: "snapshot_of R (pc_snapshot p)" using p unfolding prepared_in_def by blast
  have there: "same_refs repo (moved_to (pc_commit_id p) R)" if "\<not> pc_created p" "same_refs repo R" for repo
    using p that moved_to_itself same_refs_sym same_refs_trans unfolding prepared_in_def by blast
  show ?thesis
    by (rule holds_weaken [OF holds_finalize [OF free_files [of "new_files k" J M] snapshot]])
      (auto simp: elsewhere_def landed_def between_def restored_def intro: there)
qed

end
