(* ===== verification/Memory_Commit_Safety.thy ===== *)
theory Memory_Commit_Safety
  imports Memory_Commit_Steps
begin

text \<open>
  How a Memory write can end, and that its later steps, from the commit to the settled journal, end so whichever
  of their calls fail, fail after their effect or kill the process. Memory_Commit_Outcome has the whole write.
\<close>

subsection \<open>How a write can end\<close>

definition journal_of :: "write_case \<Rightarrow> finalization_journal \<Rightarrow> bool" where
  "journal_of k j \<longleftrightarrow> fj_id j = wk_id k \<and> fj_guru_id j = wk_guru k \<and> fj_changes j = wk_changes k \<and>
     snapshot_of (wk_repo k) (fj_git j)"

definition journal_commit :: "finalization_journal \<Rightarrow> ustr" where
  "journal_commit j = (case fj_commit_id j of None \<Rightarrow> [] | Some c \<Rightarrow> c)"

definition journal_tree :: "repository \<Rightarrow> finalization_journal \<Rightarrow> ustr" where
  "journal_tree R j = (case gs_published_index (fj_git j) of None \<Rightarrow> rp_index R | Some tree \<Rightarrow> tree)"

text \<open>The references and the index while the journal is there: moved only as the journal says.\<close>

definition in_progress :: "repository \<Rightarrow> finalization_journal \<Rightarrow> repository \<Rightarrow> bool" where
  "in_progress R j = withdrawable R (journal_commit j) (journal_tree R j) (fj_commit_id j)"

text \<open>
  Everything is old; everything is new, with the messages that the commit completes; the journal is there
  and the files, references and index are each old or new; everything is new but the journal is there.
\<close>

definition untouched :: "write_case \<Rightarrow> commit_world \<Rightarrow> bool" where
  "untouched k w \<longleftrightarrow> old_files k w \<and> elsewhere (restored (wk_repo k)) (wk_journals k) (wk_messages k) w"

definition published ::
  "write_case \<Rightarrow> (ustr \<Rightarrow> ustr \<times> ustr \<Rightarrow> ustr option option) \<Rightarrow> ustr \<Rightarrow> commit_world \<Rightarrow> bool" where
  "published k M c w \<longleftrightarrow> new_files k w \<and> (\<exists>tree. elsewhere (landed (wk_repo k) c tree) (wk_journals k) (M c) w)"

definition pending :: "write_case \<Rightarrow> commit_world \<Rightarrow> bool" where
  "pending k w \<longleftrightarrow> either_files k w \<and> (\<exists>j. journal_of k j \<and>
     elsewhere (in_progress (wk_repo k) j) (wk_journals k @ [row_of j]) (wk_messages k) w)"

definition unsettled ::
  "write_case \<Rightarrow> (ustr \<Rightarrow> ustr \<times> ustr \<Rightarrow> ustr option option) \<Rightarrow> ustr \<Rightarrow> commit_world \<Rightarrow> bool" where
  "unsettled k M c w \<longleftrightarrow> new_files k w \<and> (\<exists>j tree. journal_of k j \<and> fj_commit_id j = Some c \<and>
     elsewhere (landed (wk_repo k) c tree) (wk_journals k @ [row_of j]) (M c) w)"

definition in_quarantine :: "write_case \<Rightarrow> commit_world \<Rightarrow> bool" where
  "in_quarantine k w \<longleftrightarrow> is_guru_quarantined (wk_guru k) (cw_quarantined w)"

text \<open>
  The ends of a write: success, with everything new or the journal and a quarantine; an error, with
  everything old, or the messages complete and everything new, or the journal and a quarantine; the death of
  the process, which can leave the journal.
\<close>

definition allowed_end ::
  "write_case \<Rightarrow> (ustr \<Rightarrow> ustr \<times> ustr \<Rightarrow> ustr option option) \<Rightarrow> (command_error, write_result \<times> 'a) ending \<Rightarrow>
   commit_world \<Rightarrow> bool" where
  "allowed_end k M r w =
     (case r of
        Returned x \<Rightarrow> published k M (wr_commit_id (fst x)) w \<or> in_quarantine k w \<and> unsettled k M (wr_commit_id (fst x)) w
      | Raised e \<Rightarrow> untouched k w \<or> (\<exists>c. M c \<noteq> wk_messages k \<and> published k M c w) \<or>
          in_quarantine k w \<and> (pending k w \<or> (\<exists>c. unsettled k M c w))
      | Died \<Rightarrow> untouched k w \<or> pending k w \<or> (\<exists>c. published k M c w \<or> unsettled k M c w))"

lemma situation_quarantined [simp]:
  "untouched k (w\<lparr>cw_quarantined := q\<rparr>) = untouched k w" "pending k (w\<lparr>cw_quarantined := q\<rparr>) = pending k w"
  "published k M c (w\<lparr>cw_quarantined := q\<rparr>) = published k M c w"
  "unsettled k M c (w\<lparr>cw_quarantined := q\<rparr>) = unsettled k M c w"
  by (simp_all add: untouched_def pending_def published_def unsettled_def either_files_def)

lemma quarantined_guru [simp]: "is_guru_quarantined guru (quarantine_guru guru source reason q)"
  by (simp add: is_guru_quarantined_def quarantine_guru_def bt_entry_def)

text \<open>A situation that a quarantine makes an allowed end of an error.\<close>

definition recoverable ::
  "write_case \<Rightarrow> (ustr \<Rightarrow> ustr \<times> ustr \<Rightarrow> ustr option option) \<Rightarrow> commit_world \<Rightarrow> bool" where
  "recoverable k M w \<longleftrightarrow> untouched k w \<or> pending k w \<or> (\<exists>c. unsettled k M c w)"

lemma recoverable_quarantined [simp]: "recoverable k M (w\<lparr>cw_quarantined := q\<rparr>) = recoverable k M w"
  by (simp add: recoverable_def)

lemma recoverable_died: "recoverable k M w \<Longrightarrow> allowed_end k M Died w"
  by (auto simp: recoverable_def allowed_end_def)

lemma untouched_raised: "untouched k w \<Longrightarrow> allowed_end k M (Raised e) w"
  by (simp add: allowed_end_def)

lemma holds_quarantine_and_fail:
  assumes "\<And>w. P w \<Longrightarrow> recoverable k M w" and "wk_guru k = guru"
  shows "holds P (quarantine_and_fail guru reason) (allowed_end k M)"
  using assms
  by (auto simp: holds_def quarantine_and_fail_def then_do_def quarantine_def raise_def allowed_end_def in_quarantine_def
      recoverable_def)

lemma restored_in_progress: "restored R repo \<Longrightarrow> in_progress R j repo"
  by (simp add: in_progress_def withdrawable_def restored_between) (simp add: restored_def)

lemma landed_in_progress:
  "fj_commit_id j = Some c \<Longrightarrow> landed R c (journal_tree R j) repo \<Longrightarrow> in_progress R j repo"
  by (simp add: in_progress_def withdrawable_def journal_commit_def landed_between)

lemma pendingI:
  "journal_of k j \<Longrightarrow> either_files k w \<Longrightarrow>
   elsewhere (in_progress (wk_repo k) j) (wk_journals k @ [row_of j]) (wk_messages k) w \<Longrightarrow> pending k w"
  by (auto simp: pending_def)

lemma elsewhere_weaken: "elsewhere G J M w \<Longrightarrow> (\<And>repo. G repo \<Longrightarrow> G' repo) \<Longrightarrow> elsewhere G' J M w"
  by (auto simp: elsewhere_def)

subsection \<open>Compensation and recovery\<close>

definition fresh_id :: "write_case \<Rightarrow> bool" where
  "fresh_id k \<longleftrightarrow> (\<forall>r\<in>set (wk_journals k). jw_id r \<noteq> wk_id k)"

lemma holds_compensate_journal:
  assumes ok: "undisturbed k" "fresh_id k" and j: "journal_of k j"
  shows "holds (\<lambda>w. either_files k w \<and> elsewhere (in_progress (wk_repo k) j) (wk_journals k @ [row_of j]) (wk_messages k) w)
    (compensate_memory_transaction (wk_env k) (wk_changes k) (fj_git j) (fj_commit_id j) (Some j))
    (\<lambda>r w. (untouched k w \<or> pending k w) \<and> (r = Returned () \<longrightarrow> untouched k w))"
proof -
  have snapshot: "snapshot_of (wk_repo k) (fj_git j)" and id: "\<forall>r\<in>set (wk_journals k). jw_id r \<noteq> fj_id j"
    using ok(2) j by (simp_all add: journal_of_def fresh_id_def)
  show ?thesis
    unfolding in_progress_def
    by (rule holds_weaken [OF holds_compensate [OF ok(1) snapshot id refl]])
      (auto simp: untouched_def intro: pendingI [OF j, unfolded in_progress_def])
qed

text \<open>The rows of other Gurus do not concern a recovery.\<close>

definition foreign_rows :: "write_case \<Rightarrow> bool" where
  "foreign_rows k \<longleftrightarrow> (\<forall>r\<in>set (wk_journals k). jw_guru_id r \<noteq> wk_guru k \<and>
     (\<forall>j. jw_journal r = Some j \<longrightarrow> fj_guru_id j \<noteq> wk_guru k))"

definition listed_row :: "commit_env \<Rightarrow> journal_row \<Rightarrow> finalization_journal + ustr \<times> ustr \<times> ustr" where
  "listed_row env r =
     (case jw_journal r of
        Some j \<Rightarrow> if validate_journal (ce_is_oid env) j = Inr () then Inl j
          else Inr (jw_id r, jw_guru_id r, lit ''Memory finalization journal failed validation'')
      | None \<Rightarrow> Inr (jw_id r, jw_guru_id r, lit ''Memory finalization journal JSON is invalid''))"

lemma do_each_skip: "(\<And>x. x \<in> set xs \<Longrightarrow> f x = World_Monad.ret ()) \<Longrightarrow> do_each f (xs @ ys) = do_each f ys"
  by (induction xs) (auto simp: then_do_def ret_def)

lemma recover_foreign:
  "foreign_rows k \<Longrightarrow> r \<in> set (wk_journals k) \<Longrightarrow> recover_row env (wk_guru k) (listed_row env r) = World_Monad.ret ()"
  by (auto simp: recover_row_def listed_row_def foreign_rows_def split: option.split)

lemma recover_listed:
  assumes "foreign_rows k"
  shows "do_each (recover_row env (wk_guru k)) (map (listed_row env) (sort_key f (wk_journals k @ [row_of j]))) =
    then_do (recover_row env (wk_guru k) (listed_row env (row_of j))) (\<lambda>_. World_Monad.ret ())"
proof -
  let ?rows = "sort_key f (wk_journals k @ [row_of j])"
  have "row_of j \<in> set ?rows" by simp
  then obtain xs ys where rows: "?rows = xs @ row_of j # ys" by (meson split_list)
  have "mset (xs @ row_of j # ys) = mset (wk_journals k @ [row_of j])"
    unfolding rows [symmetric] by simp
  then have "mset (xs @ ys) = mset (wk_journals k)" by simp
  then have "set xs \<union> set ys = set (wk_journals k)"
    by (metis mset_eq_setD set_append)
  then have skip: "recover_row env (wk_guru k) x = World_Monad.ret ()"
    if "x \<in> listed_row env ` set xs \<or> x \<in> listed_row env ` set ys" for x
    using that recover_foreign [OF assms] by auto
  have before: "do_each (recover_row env (wk_guru k)) (map (listed_row env) xs @ zs) = do_each (recover_row env (wk_guru k)) zs" for zs
    by (rule do_each_skip) (simp add: skip)
  have behind: "do_each (recover_row env (wk_guru k)) (map (listed_row env) ys @ []) = do_each (recover_row env (wk_guru k)) []"
    by (rule do_each_skip) (simp add: skip)
  then show ?thesis using before by (simp add: rows)
qed

text \<open>
  The recovery that a Chat runs when storing its message has failed: it finds the message complete, or not.
\<close>

definition settled :: "write_case \<Rightarrow> (ustr \<Rightarrow> ustr \<times> ustr \<Rightarrow> ustr option option) \<Rightarrow> ustr \<Rightarrow> bool \<Rightarrow> commit_world \<Rightarrow> bool" where
  "settled k M c returned w \<longleftrightarrow> untouched k w \<or> published k M c w \<or> \<not> returned \<and> (pending k w \<or> unsettled k M c w)"

lemma holds_finalized_commit:
  assumes "files_only P" and "fj_scope j = Chat_Scope thread message"
  shows "holds (\<lambda>w. P w \<and> elsewhere G J M w) (finalized_commit j)
    (\<lambda>r w. (P w \<and> elsewhere G J M w) \<and>
       (\<forall>x. r = Returned x \<longrightarrow> x = (if M (thread, message) = Some (fj_commit_id j) then fj_commit_id j else None)))"
proof -
  have "holds (\<lambda>w. P w \<and> elsewhere G J M w) (lib_call Store_Sqlite (\<lambda>w. (Inr (cw_messages w (thread, message)), w)))
    (\<lambda>r w. (P w \<and> elsewhere G J M w) \<and> (\<forall>x. r = Returned x \<longrightarrow> x = M (thread, message)))"
    by (rule holds_lib_call [OF steady_files [OF assms(1)]]) (auto simp: elsewhere_def)
  then have "holds (\<lambda>w. P w \<and> elsewhere G J M w)
      (map_error map_store (lib_call Store_Sqlite (\<lambda>w. (Inr (cw_messages w (thread, message)), w))))
      (\<lambda>r w. (P w \<and> elsewhere G J M w) \<and> (\<forall>x. r = Returned x \<longrightarrow> x = M (thread, message)))"
    by (rule holds_map_error [OF holds_weaken]) (auto split: ending.split)
  then show ?thesis
    unfolding finalized_commit_def assms(2) finalization_scope.case
    by (rule holds_step) (auto intro!: holds_ret)
qed

lemma holds_verify_commit:
  assumes "files_only P"
  shows "holds (\<lambda>w. P w \<and> elsewhere G J M w) (verify_finalized_commit c) (\<lambda>r w. P w \<and> elsewhere G J M w)"
proof -
  have head: "holds (\<lambda>w. P w \<and> elsewhere G J M w)
      (then_do current_head (\<lambda>head. recovery_unless (head = Some c) ''Memory HEAD does not name the journaled commit''))
      (\<lambda>r w. P w \<and> elsewhere G J M w)"
    by (rule holds_then [OF holds_weaken [OF holds_current_head [of "\<lambda>w. P w \<and> elsewhere G J M w"]]])
      (auto simp: elsewhere_def intro: holds_recovery_unless)
  show ?thesis
    unfolding verify_finalized_commit_def by (rule holds_after_open [OF steady_files [OF assms] head])
qed

lemma holds_settle_published:
  assumes ok: "undisturbed k" "fresh_id k" and j: "journal_of k j" "fj_commit_id j = Some c"
  shows "holds (\<lambda>w. new_files k w \<and> elsewhere (landed (wk_repo k) c tree) (wk_journals k @ [row_of j]) (M c) w)
    (delete_journal env j)
    (\<lambda>r w. (published k M c w \<or> unsettled k M c w) \<and> (r = Returned () \<longrightarrow> published k M c w))"
proof -
  have id: "\<forall>r\<in>set (wk_journals k). jw_id r \<noteq> fj_id j"
    using ok(2) j by (simp add: journal_of_def fresh_id_def)
  show ?thesis
    by (rule holds_weaken [OF holds_delete_journal [OF files_only_cases(2) id refl]])
      (use j in \<open>auto simp: published_def unsettled_def\<close>)
qed

lemma holds_recover_complete:
  assumes ok: "undisturbed k" "fresh_id k" and j: "journal_of k j" "fj_commit_id j = Some c"
    and scope: "fj_scope j = Chat_Scope thread message" and complete: "M c (thread, message) = Some (Some c)"
  shows "holds (\<lambda>w. new_files k w \<and> elsewhere (landed (wk_repo k) c tree) (wk_journals k @ [row_of j]) (M c) w)
    (recover_journal (wk_env k) j) (\<lambda>r w. settled k M c (r = Returned ()) w)"
    (is "holds ?start _ ?Q")
proof -
  have keep: "settled k M c False w" if "?start w" for w
    using that j by (auto simp: settled_def unsettled_def)
  have changes: "fj_changes j = wk_changes k" using j by (simp add: journal_of_def)
  have remove: "holds ?start (map_error map_store (delete_journal (wk_env k) j)) ?Q"
    by (rule holds_map_error, rule holds_weaken [OF holds_settle_published [OF ok j]]) (auto simp: settled_def split: ending.split)
  have files: "holds ?start (map_error err_internal (verify_published_memory (wk_env k) (wk_changes k))) (\<lambda>r. ?start)"
    by (rule holds_map_error_keep, rule holds_either(2),
        rule holds_weaken [OF holds_verify_published [OF undisturbed_paths [OF ok(1)]]]) auto
  have commit: "holds ?start (map_error (\<lambda>e. err_internal (ce_git_text (wk_env k) e)) (verify_finalized_commit c)) (\<lambda>r. ?start)"
    by (rule holds_map_error_keep, rule holds_verify_commit) simp
  have second: "holds ?start (then_do (map_error err_internal (verify_published_memory (wk_env k) (wk_changes k))) (\<lambda>_.
      map_error map_store (delete_journal (wk_env k) j))) ?Q"
    by (rule holds_then [OF files]) (use remove keep in auto)
  have first: "holds ?start (then_do (map_error (\<lambda>e. err_internal (ce_git_text (wk_env k) e)) (verify_finalized_commit c)) (\<lambda>_.
      then_do (map_error err_internal (verify_published_memory (wk_env k) (wk_changes k))) (\<lambda>_.
      map_error map_store (delete_journal (wk_env k) j)))) ?Q"
    by (rule holds_then [OF commit]) (use second keep in auto)
  show ?thesis
    unfolding recover_journal_def changes
  proof (rule holds_step [OF holds_finalized_commit [OF files_only_cases(2) scope]])
    fix found
    show "holds (\<lambda>w. ?start w \<and> found = (if M c (thread, message) = Some (fj_commit_id j) then fj_commit_id j else None))
      (case found of
       Some commit \<Rightarrow>
         then_do (map_error (\<lambda>e. err_internal (ce_git_text (wk_env k) e)) (verify_finalized_commit commit)) (\<lambda>_.
         then_do (map_error err_internal (verify_published_memory (wk_env k) (wk_changes k))) (\<lambda>_.
         map_error map_store (delete_journal (wk_env k) j)))
       | None \<Rightarrow>
         map_error (\<lambda>e. err_internal (lit ''Interrupted Memory finalization could not be recovered: '' @ e))
           (compensate_memory_transaction (wk_env k) (wk_changes k) (fj_git j) (fj_commit_id j) (Some j))) ?Q"
      by (rule holds_pure [where c = "found = Some c"])
        (use complete j(2) in \<open>auto intro!: holds_weaken [OF first]\<close>)
  qed (use keep in auto)
qed

lemma holds_recover_incomplete:
  assumes ok: "undisturbed k" "fresh_id k" and j: "journal_of k j"
    and scope: "fj_scope j = Chat_Scope thread message" and incomplete: "wk_messages k (thread, message) \<noteq> Some (fj_commit_id j)"
  shows "holds (\<lambda>w. either_files k w \<and> elsewhere (in_progress (wk_repo k) j) (wk_journals k @ [row_of j]) (wk_messages k) w)
    (recover_journal (wk_env k) j) (\<lambda>r w. settled k M c (r = Returned ()) w)"
    (is "holds ?start _ ?Q")
proof -
  have keep: "settled k M c False w" if "?start w" for w
    using that j by (auto simp: settled_def intro: pendingI)
  have changes: "fj_changes j = wk_changes k" using j by (simp add: journal_of_def)
  have undo: "holds ?start (map_error (\<lambda>e. err_internal (lit ''Interrupted Memory finalization could not be recovered: '' @ e))
      (compensate_memory_transaction (wk_env k) (wk_changes k) (fj_git j) (fj_commit_id j) (Some j))) ?Q"
    by (rule holds_map_error, rule holds_weaken [OF holds_compensate_journal [OF ok j]])
      (auto simp: settled_def split: ending.split)
  show ?thesis
    unfolding recover_journal_def changes
  proof (rule holds_step [OF holds_finalized_commit [OF files_only_cases(3) scope]])
    fix found
    show "holds (\<lambda>w. ?start w \<and> found = (if wk_messages k (thread, message) = Some (fj_commit_id j) then fj_commit_id j else None))
      (case found of
       Some commit \<Rightarrow>
         then_do (map_error (\<lambda>e. err_internal (ce_git_text (wk_env k) e)) (verify_finalized_commit commit)) (\<lambda>_.
         then_do (map_error err_internal (verify_published_memory (wk_env k) (wk_changes k))) (\<lambda>_.
         map_error map_store (delete_journal (wk_env k) j)))
       | None \<Rightarrow>
         map_error (\<lambda>e. err_internal (lit ''Interrupted Memory finalization could not be recovered: '' @ e))
           (compensate_memory_transaction (wk_env k) (wk_changes k) (fj_git j) (fj_commit_id j) (Some j))) ?Q"
      by (rule holds_pure [where c = "found = None"])
        (use incomplete in \<open>auto intro!: holds_weaken [OF undo]\<close>)
  qed (use keep in auto)
qed

lemma holds_list_journals:
  assumes "files_only P" and "rows = map (listed_row env) (sort_key (\<lambda>r. (jw_updated_at_ms r, jw_id r)) J)"
  shows "holds (\<lambda>w. P w \<and> elsewhere G J M w) (map_error map_store (list_journals env))
    (\<lambda>r w. (P w \<and> elsewhere G J M w) \<and> (\<forall>x. r = Returned x \<longrightarrow> x = rows))"
proof (rule holds_map_error)
  have "holds (\<lambda>w. P w \<and> elsewhere G J M w) (list_journals env)
      (\<lambda>r w. (P w \<and> elsewhere G J M w) \<and> (\<forall>x. r = Returned x \<longrightarrow> x = rows))"
    unfolding list_journals_def listed_row_def [symmetric]
    by (rule holds_lib_call [OF steady_files [OF assms(1)]]) (auto simp: elsewhere_has assms(2))
  then show "holds (\<lambda>w. P w \<and> elsewhere G J M w) (list_journals env) (\<lambda>r w. case r of
      Raised e \<Rightarrow> (P w \<and> elsewhere G J M w) \<and> (\<forall>x. Raised (map_store e) = Returned x \<longrightarrow> x = rows)
    | Returned y \<Rightarrow> (P w \<and> elsewhere G J M w) \<and> (\<forall>x. Returned y = Returned x \<longrightarrow> x = rows)
    | Died \<Rightarrow> (P w \<and> elsewhere G J M w) \<and> (\<forall>x. Died = Returned x \<longrightarrow> x = rows))"
    by (rule holds_weaken) (auto split: ending.split)
qed

text \<open>Recovery of all journals, of which one belongs to the Guru.\<close>

lemma holds_recover_journals:
  assumes others: "foreign_rows k" and guru: "wk_guru k = guru" and j: "journal_of k j" and files: "files_only P"
    and one: "holds (\<lambda>w. P w \<and> elsewhere G (wk_journals k @ [row_of j]) M' w) (recover_journal (wk_env k) j)
      (\<lambda>r w. settled k M c (r = Returned ()) w)"
    and keep: "\<And>w. P w \<Longrightarrow> elsewhere G (wk_journals k @ [row_of j]) M' w \<Longrightarrow> settled k M c False w"
  shows "holds (\<lambda>w. P w \<and> elsewhere G (wk_journals k @ [row_of j]) M' w)
    (recover_memory_finalizations (wk_env k) guru) (\<lambda>r w. settled k M c (r = Returned ()) w)"
    (is "holds ?start _ ?Q")
proof -
  define rows where "rows = map (listed_row (wk_env k)) (sort_key (\<lambda>r. (jw_updated_at_ms r, jw_id r)) (wk_journals k @ [row_of j]))"
  have ids: "fj_guru_id j = guru" using j guru by (simp add: journal_of_def)
  have listed: "holds ?start (map_error map_store (list_journals (wk_env k))) (\<lambda>r w. ?start w \<and> (\<forall>x. r = Returned x \<longrightarrow> x = rows))"
    by (rule holds_list_journals [OF files rows_def])
  have row: "holds ?start (recover_row (wk_env k) guru (listed_row (wk_env k) (row_of j))) ?Q"
    using one ids keep by (auto simp: recover_row_def listed_row_def row_of_def intro!: holds_raise)
  have loop: "holds ?start (do_each (recover_row (wk_env k) guru) rows) ?Q"
    unfolding rows_def recover_listed [OF others, unfolded guru]
    by (rule holds_then [OF row]) (auto intro!: holds_ret)
  have rest: "holds ?start (then_do (of_sum (ce_workspace (wk_env k) guru)) (\<lambda>_. do_each (recover_row (wk_env k) guru) rows)) ?Q"
    by (rule holds_then [OF holds_of_sum]) (auto simp: keep intro!: holds_weaken [OF loop])
  show ?thesis
    unfolding recover_memory_finalizations_def
  proof (rule holds_step [OF listed])
    fix found
    show "holds (\<lambda>w. ?start w \<and> found = rows)
      (then_do (of_sum (ce_workspace (wk_env k) guru)) (\<lambda>_. do_each (recover_row (wk_env k) guru) found)) ?Q"
      by (rule holds_pure [where c = "found = rows"], simp, erule ssubst, rule holds_weaken [OF rest]) simp_all
  qed (use keep in auto)
qed

subsection \<open>The end of the transaction\<close>

text \<open>
  What the step that finalizes may do once files, index and HEAD are new: complete the messages that belong to the
  commit, or fail with them complete or not.
\<close>

definition finalizes ::
  "write_case \<Rightarrow> (ustr \<Rightarrow> ustr \<times> ustr \<Rightarrow> ustr option option) \<Rightarrow> (write_result \<Rightarrow> (command_error, 'a) tx) \<Rightarrow> bool" where
  "finalizes k M finalize \<longleftrightarrow> (\<forall>G J written.
     holds (\<lambda>w. new_files k w \<and> elsewhere G J (wk_messages k) w) (finalize written)
       (\<lambda>r w. new_files k w \<and> (elsewhere G J (wk_messages k) w \<or> elsewhere G J (M (wr_commit_id written)) w) \<and>
          (\<forall>x. r = Returned x \<longrightarrow> elsewhere G J (M (wr_commit_id written)) w)))"

text \<open>A Chat completes its message with the commit; the write of a user completes nothing.\<close>

definition completes ::
  "write_case \<Rightarrow> (ustr \<Rightarrow> ustr \<times> ustr \<Rightarrow> ustr option option) \<Rightarrow> finalization_scope \<Rightarrow> bool" where
  "completes k M scope \<longleftrightarrow>
     (case scope of
        Chat_Scope thread message \<Rightarrow> wk_messages k (thread, message) = None \<and>
          M = (\<lambda>c. (wk_messages k)((thread, message) \<mapsto> Some c))
      | Standalone_User \<Rightarrow> M = (\<lambda>c. wk_messages k))"

lemma holds_settle_chat:
  assumes ok: "undisturbed k" "fresh_id k" "foreign_rows k" and j: "journal_of k j" "fj_commit_id j = Some c"
    and scope: "fj_scope j = Chat_Scope thread message" and M: "completes k M (fj_scope j)"
  shows "holds (\<lambda>w. new_files k w \<and> elsewhere (landed (wk_repo k) c (journal_tree (wk_repo k) j)) (wk_journals k @ [row_of j]) J' w \<and>
      (J' = wk_messages k \<or> J' = M c))
    (recover_memory_finalizations (wk_env k) (wk_guru k)) (\<lambda>r w. settled k M c (r = Returned ()) w)"
    (is "holds ?start _ ?Q")
proof (rule holds_pure [where c = "J' = wk_messages k \<or> J' = M c"])
  let ?landed = "landed (wk_repo k) c (journal_tree (wk_repo k) j)" and ?J = "wk_journals k @ [row_of j]"
  have none: "wk_messages k (thread, message) = None" and some: "M c (thread, message) = Some (Some c)"
    using M scope by (simp_all add: completes_def)
  have away: "in_progress (wk_repo k) j repo" if "?landed repo" for repo
    using that j(2) by (rule landed_in_progress [rotated])
  assume "J' = wk_messages k \<or> J' = M c"
  then show "holds ?start (recover_memory_finalizations (wk_env k) (wk_guru k)) ?Q"
  proof
    assume J': "J' = wk_messages k"
    have "holds (\<lambda>w. either_files k w \<and> elsewhere (in_progress (wk_repo k) j) ?J (wk_messages k) w)
        (recover_memory_finalizations (wk_env k) (wk_guru k)) ?Q"
      by (rule holds_recover_journals [OF ok(3) refl j(1) files_only_cases(3) holds_recover_incomplete [OF ok(1,2) j(1) scope]])
        (use none j in \<open>auto simp: settled_def intro: pendingI\<close>)
    then show ?thesis
      by (rule holds_weaken) (auto simp: J' either_files_def intro: elsewhere_weaken away)
  next
    assume J': "J' = M c"
    have "holds (\<lambda>w. new_files k w \<and> elsewhere ?landed ?J (M c) w)
        (recover_memory_finalizations (wk_env k) (wk_guru k)) ?Q"
      by (rule holds_recover_journals [OF ok(3) refl j(1) files_only_cases(2) holds_recover_complete [where M = M and c = c, OF ok(1,2) j scope some]])
        (use j in \<open>auto simp: settled_def unsettled_def\<close>)
    then show ?thesis by (rule holds_weaken) (auto simp: J')
  qed
qed auto

text \<open>Quarantines do not change the situation.\<close>

lemma holds_quarantine:
  assumes "\<And>w q. P (w\<lparr>cw_quarantined := q\<rparr>) = P w"
  shows "holds P (quarantine guru reason) (\<lambda>r w. P w \<and> r = Returned () \<and> is_guru_quarantined guru (cw_quarantined w))"
    and "holds P (clear_quarantine guru) (\<lambda>r w. P w \<and> r = Returned ())"
  using assms by (simp_all add: holds_def quarantine_def clear_quarantine_def)

lemma holds_settle_write:
  assumes ok: "undisturbed k" "fresh_id k" "foreign_rows k" and guru: "wk_guru k = guru"
    and j: "journal_of k j" "fj_commit_id j = Some (wr_commit_id written)"
    and M: "completes k M (fj_scope j)" and finalize: "finalizes k M finalize"
  shows "holds (\<lambda>w. new_files k w \<and> elsewhere (landed (wk_repo k) (wr_commit_id written) (journal_tree (wk_repo k) j))
      (wk_journals k @ [row_of j]) (wk_messages k) w)
    (settle_write (wk_env k) guru finalize j written
      (compensate_memory_transaction (wk_env k) (wk_changes k) (fj_git j) (Some (wr_commit_id written)) (Some j)))
    (allowed_end k M)"
    (is "holds ?start _ ?Q")
proof -
  let ?c = "wr_commit_id written" let ?landed = "landed (wk_repo k) ?c (journal_tree (wk_repo k) j)"
  let ?J = "wk_journals k @ [row_of j]"
  let ?at = "\<lambda>J' w. new_files k w \<and> elsewhere ?landed ?J J' w"
  have away: "in_progress (wk_repo k) j repo" if "?landed repo" for repo
    using that j(2) by (rule landed_in_progress [rotated])
  have unsettled: "unsettled k M ?c w" if "?at (M ?c) w" for w
    using that j by (auto simp: unsettled_def)
  have pending: "pending k w" if "?at (wk_messages k) w" for w
    using that by (auto simp: either_files_def intro!: pendingI [OF j(1)] intro: elsewhere_weaken away)
  have final: "holds ?start (finalize written) (\<lambda>r w. (?at (wk_messages k) w \<or> ?at (M ?c) w) \<and>
      (\<forall>x. r = Returned x \<longrightarrow> ?at (M ?c) w))"
    by (rule holds_weaken [OF finalize [unfolded finalizes_def, rule_format, of ?landed ?J written]]) auto
  have cleanup: "holds (?at (M ?c)) (match_result (delete_journal (wk_env k) j) (\<lambda>deleted. case deleted of
      Inl e \<Rightarrow> then_do (quarantine guru (lit ''finalized Memory journal cleanup failed: '' @ store_text e))
        (\<lambda>_. World_Monad.ret (written, finalized))
    | Inr _ \<Rightarrow> World_Monad.ret (written, finalized))) ?Q" for finalized
  proof (rule holds_match [OF holds_settle_published [OF ok(1,2) j]])
    fix e
    have "holds (\<lambda>w. published k M ?c w \<or> unsettled k M ?c w)
        (then_do (quarantine guru (lit ''finalized Memory journal cleanup failed: '' @ store_text e))
          (\<lambda>_. World_Monad.ret (written, finalized))) ?Q"
      by (rule holds_then [OF holds_quarantine(1)])
        (auto simp: allowed_end_def in_quarantine_def guru intro!: holds_ret)
    then show "holds (\<lambda>w. (published k M ?c w \<or> unsettled k M ?c w) \<and> (Raised e = Returned () \<longrightarrow> published k M ?c w))
        (case Inl e of Inl e \<Rightarrow> then_do (quarantine guru (lit ''finalized Memory journal cleanup failed: '' @ store_text e))
          (\<lambda>_. World_Monad.ret (written, finalized)) | Inr _ \<Rightarrow> World_Monad.ret (written, finalized)) ?Q"
      by (simp add: holds_def)
  qed (auto simp: allowed_end_def intro!: holds_ret)
  have standalone: "holds (?at (wk_messages k)) (match_result
      (compensate_memory_transaction (wk_env k) (wk_changes k) (fj_git j) (Some ?c) (Some j)) (\<lambda>recovery. case recovery of
        Inl e \<Rightarrow> quarantine_and_fail guru (lit ''Memory finalization failed and compensation was incomplete: finalization='' @
          err_message finalize_error @ lit ''; recovery='' @ e)
      | Inr _ \<Rightarrow> raise finalize_error)) ?Q" for finalize_error
  proof (rule holds_match)
    show "holds (?at (wk_messages k)) (compensate_memory_transaction (wk_env k) (wk_changes k) (fj_git j) (Some ?c) (Some j))
        (\<lambda>r w. (untouched k w \<or> pending k w) \<and> (r = Returned () \<longrightarrow> untouched k w))"
      using holds_compensate_journal [OF ok(1,2) j(1)] unfolding j(2)
      by (rule holds_weaken) (auto simp: either_files_def intro: elsewhere_weaken away)
  qed (auto simp: allowed_end_def recoverable_def guru intro!: holds_raise holds_quarantine_and_fail)
  have chat: "holds (\<lambda>w. ?at (wk_messages k) w \<or> ?at (M ?c) w)
      (then_do (quarantine guru (lit ''Chat finalization returned an indeterminate outcome: '' @ err_message finalize_error)) (\<lambda>_.
       match_result (recover_memory_finalizations (wk_env k) guru) (\<lambda>recovered. case recovered of
         Inr _ \<Rightarrow> then_do (clear_quarantine guru) (\<lambda>_. raise finalize_error)
       | Inl e \<Rightarrow> quarantine_and_fail guru (lit ''Chat finalization outcome could not be resolved: sqlite='' @
           err_message finalize_error @ lit ''; recovery='' @ err_message e)))) ?Q"
    if scope: "fj_scope j = Chat_Scope thread message" for finalize_error thread message
  proof -
    have other: "M ?c \<noteq> wk_messages k"
      using M scope by (auto simp: completes_def dest: fun_cong [where x = "(thread, message)"])
    have recover: "holds (\<lambda>w. ?at (wk_messages k) w \<or> ?at (M ?c) w) (recover_memory_finalizations (wk_env k) guru)
        (\<lambda>r w. settled k M ?c (r = Returned ()) w)"
      unfolding guru [symmetric]
      using holds_settle_chat [OF ok j scope M, of "wk_messages k"] holds_settle_chat [OF ok j scope M, of "M ?c"]
      by (intro holds_disj) (auto elim!: holds_weaken)
    have rest: "holds (\<lambda>w. ?at (wk_messages k) w \<or> ?at (M ?c) w)
        (match_result (recover_memory_finalizations (wk_env k) guru) (\<lambda>recovered. case recovered of
         Inr _ \<Rightarrow> then_do (clear_quarantine guru) (\<lambda>_. raise finalize_error)
       | Inl e \<Rightarrow> quarantine_and_fail guru (lit ''Chat finalization outcome could not be resolved: sqlite='' @
           err_message finalize_error @ lit ''; recovery='' @ err_message e))) ?Q"
    proof (rule holds_match [OF recover])
      fix x :: unit
      have "holds (settled k M ?c True) (then_do (clear_quarantine guru) (\<lambda>_. raise finalize_error)) ?Q"
        by (rule holds_then [OF holds_quarantine(2)])
          (use other in \<open>auto simp: settled_def allowed_end_def intro!: holds_raise\<close>)
      then show "holds (\<lambda>w. settled k M ?c (Returned x = Returned ()) w)
          (case Inr x of Inr _ \<Rightarrow> then_do (clear_quarantine guru) (\<lambda>_. raise finalize_error)
           | Inl e \<Rightarrow> quarantine_and_fail guru (lit ''Chat finalization outcome could not be resolved: sqlite='' @
             err_message finalize_error @ lit ''; recovery='' @ err_message e)) ?Q"
        by simp
    next
      fix e
      have "holds (settled k M ?c False) (quarantine_and_fail guru reason) ?Q" for reason
        using guru other by (auto simp: holds_def quarantine_and_fail_def then_do_def quarantine_def raise_def
            settled_def allowed_end_def in_quarantine_def)
      then show "holds (\<lambda>w. settled k M ?c (Raised e = Returned ()) w)
          (case Inl e of Inr _ \<Rightarrow> then_do (clear_quarantine guru) (\<lambda>_. raise finalize_error)
           | Inl e \<Rightarrow> quarantine_and_fail guru (lit ''Chat finalization outcome could not be resolved: sqlite='' @
             err_message finalize_error @ lit ''; recovery='' @ err_message e)) ?Q"
        by simp
    qed (auto simp: settled_def allowed_end_def)
    show ?thesis
      by (rule holds_then [OF holds_quarantine(1)]) (auto intro!: holds_weaken [OF rest])
  qed
  show ?thesis
  proof (cases "fj_scope j")
    case (Chat_Scope thread message)
    show ?thesis
      unfolding settle_write_def Chat_Scope finalization_scope.case
      by (rule holds_match [OF final])
        (auto simp: allowed_end_def dest: pending [OF conjI] unsettled [OF conjI] intro!: holds_weaken [OF cleanup] holds_weaken [OF chat [OF Chat_Scope]])
  next
    case Standalone_User
    then have "M ?c = wk_messages k" using M by (simp add: completes_def)
    then show ?thesis
      unfolding settle_write_def Standalone_User finalization_scope.case
      by (intro holds_match [OF final])
        (auto simp: allowed_end_def dest: pending [OF conjI] intro!: holds_weaken [OF cleanup] holds_weaken [OF standalone])
  qed
qed

subsection \<open>The commit\<close>

lemma holds_compensate_end:
  assumes "holds P m (\<lambda>r w. (untouched k w \<or> pending k w) \<and> (r = Returned () \<longrightarrow> untouched k w))" and "wk_guru k = guru"
  shows "holds P (match_result m (\<lambda>recovery. case recovery of
      Inl reason \<Rightarrow> quarantine_and_fail guru (message reason) | Inr _ \<Rightarrow> raise e)) (allowed_end k M)"
    and "holds P (git_failed env guru what g m) (allowed_end k M)"
proof -
  have fail: "holds (\<lambda>w. untouched k w \<or> pending k w) (quarantine_and_fail guru reason) (allowed_end k M)" for reason
    by (rule holds_quarantine_and_fail [OF _ assms(2)]) (auto simp: recoverable_def)
  show "holds P (match_result m (\<lambda>recovery. case recovery of
      Inl reason \<Rightarrow> quarantine_and_fail guru (message reason) | Inr _ \<Rightarrow> raise e)) (allowed_end k M)"
    by (rule holds_match [OF assms(1)])
      (auto simp: allowed_end_def recoverable_def intro!: holds_raise holds_weaken [OF fail])
  show "holds P (git_failed env guru what g m) (allowed_end k M)"
    unfolding git_failed_def
    by (rule holds_match [OF assms(1)])
      (auto simp: allowed_end_def intro!: holds_raise holds_weaken [OF fail])
qed

lemma holds_match_value:
  assumes "holds P m Q" and "\<And>w. Q Died w \<Longrightarrow> R Died w" and "\<And>e. holds (Q (Raised e)) (f (Inl e)) R"
    and "\<And>x w. Q (Returned x) w \<Longrightarrow> x = c \<and> A w" and "holds A (f (Inr c)) R"
  shows "holds P (match_result m f) R"
proof (rule holds_match [OF assms(1,2,3)])
  fix x
  show "holds (Q (Returned x)) (f (Inr x)) R"
    using assms(4) [of x] assms(5) by (auto simp: holds_def)
qed

lemma holds_publish_write:
  assumes ok: "undisturbed k" "fresh_id k" "foreign_rows k" and guru: "wk_guru k = mwr_guru_id write"
    and j: "journal_of k j" "fj_commit_id j = Some (pc_commit_id p)" "gs_published_index (fj_git j) = Some (pc_index_tree p)"
    and p: "prepared_in (wk_repo k) s p" and M: "completes k M (fj_scope j)" and finalize: "finalizes k M finalize"
  shows "holds (\<lambda>w. new_files k w \<and> elsewhere (restored (wk_repo k)) (wk_journals k @ [row_of j]) (wk_messages k) w)
    (publish_write (wk_env k) write finalize j p) (allowed_end k M)"
proof -
  let ?J = "wk_journals k @ [row_of j]" and ?c = "pc_commit_id p" and ?tree = "pc_index_tree p"
  let ?landed = "\<lambda>w. new_files k w \<and> elsewhere (landed (wk_repo k) ?c ?tree) ?J (wk_messages k) w"
  have tree: "journal_tree (wk_repo k) j = ?tree" and changes: "fj_changes j = wk_changes k"
    using j by (simp_all add: journal_tree_def journal_of_def)
  have pend: "pending k w" if "?landed w" for w
    using that landed_in_progress [OF j(2), of "wk_repo k"]
    by (auto simp: either_files_def tree intro!: pendingI [OF j(1)] intro: elsewhere_weaken)
  have undo: "holds (\<lambda>w. new_files k w \<and> elsewhere (between (wk_repo k) ?c ?tree) ?J (wk_messages k) w)
      (compensate_memory_transaction (wk_env k) (wk_changes k) (fj_git j) (fj_commit_id j) (Some j))
      (\<lambda>r w. (untouched k w \<or> pending k w) \<and> (r = Returned () \<longrightarrow> untouched k w))"
    by (rule holds_weaken [OF holds_compensate_journal [OF ok(1,2) j(1)]])
      (auto simp: either_files_def in_progress_def withdrawable_def journal_commit_def j(2) tree intro: elsewhere_weaken)
  have settle: "holds ?landed (settle_write (wk_env k) (mwr_guru_id write) finalize j
      \<lparr>wr_commit_id = ?c, wr_record_ids = ids\<rparr>
      (compensate_memory_transaction (wk_env k) (wk_changes k) (fj_git j) (Some ?c) (Some j))) (allowed_end k M)" for ids
    using holds_settle_write [OF ok guru j(1) _ M finalize, of "\<lparr>wr_commit_id = ?c, wr_record_ids = ids\<rparr>"] j(2)
    by (simp add: tree)
  have verify: "holds ?landed (match_result (verify_published_memory (wk_env k) (wk_changes k)) (\<lambda>verified. case verified of
      Inl e \<Rightarrow> quarantine_and_fail (mwr_guru_id write) (lit ''Memory changed during Chat finalization: '' @ e)
    | Inr _ \<Rightarrow> settle_write (wk_env k) (mwr_guru_id write) finalize j
        \<lparr>wr_commit_id = ?c, wr_record_ids = map mt_record_id (mwr_targets write)\<rparr>
        (compensate_memory_transaction (wk_env k) (wk_changes k) (fj_git j) (Some ?c) (Some j)))) (allowed_end k M)"
  proof (rule holds_match)
    show "holds ?landed (verify_published_memory (wk_env k) (wk_changes k)) (\<lambda>r. ?landed)"
      by (rule holds_either(2), rule holds_weaken [OF holds_verify_published [OF undisturbed_paths [OF ok(1)]]]) auto
  qed (use settle pend in \<open>auto simp: allowed_end_def recoverable_def intro!: holds_quarantine_and_fail [OF _ guru]\<close>)
  show ?thesis
    unfolding publish_write_def Let_def changes
  proof (rule holds_match_value [OF holds_finalize_new [OF p], where c = ?c])
    show "\<And>x w. new_files k w \<and> elsewhere (between (wk_repo k) ?c ?tree) ?J (wk_messages k) w \<and>
        (\<forall>y. Returned x = Returned y \<longrightarrow> y = ?c \<and> elsewhere (landed (wk_repo k) ?c ?tree) ?J (wk_messages k) w) \<Longrightarrow>
        x = ?c \<and> ?landed w"
      by simp
  next
    fix w
    assume "new_files k w \<and> elsewhere (between (wk_repo k) ?c ?tree) ?J (wk_messages k) w \<and>
      (\<forall>x. Died = Returned x \<longrightarrow> x = ?c \<and> elsewhere (landed (wk_repo k) ?c ?tree) ?J (wk_messages k) w)"
    then have "pending k w"
      by (auto simp: either_files_def in_progress_def withdrawable_def journal_commit_def j(2) tree
          intro!: pendingI [OF j(1)] intro: elsewhere_weaken)
    then show "allowed_end k M Died w" by (simp add: allowed_end_def)
  qed (use verify holds_compensate_end(2) [OF undo guru] in \<open>auto elim!: holds_weaken\<close>)
qed

lemma holds_commit_write:
  assumes ok: "undisturbed k" "fresh_id k" "foreign_rows k" and guru: "wk_guru k = mwr_guru_id write"
    and j: "journal_of k j" "fj_commit_id j = None" "gs_published_index (fj_git j) = None"
    and M: "completes k M (fj_scope j)" and finalize: "finalizes k M finalize"
  shows "holds (\<lambda>w. new_files k w \<and> elsewhere (restored (wk_repo k)) (wk_journals k @ [row_of j]) (wk_messages k) w)
    (commit_write (wk_env k) write finalize j) (allowed_end k M)"
    (is "holds ?start _ ?Q")
proof -
  let ?R = "wk_repo k" and ?J = "wk_journals k"
  have changes: "fj_changes j = wk_changes k" and snapshot: "snapshot_of ?R (fj_git j)"
    and id: "\<forall>r\<in>set ?J. jw_id r \<noteq> fj_id j"
    using j ok(2) by (simp_all add: journal_of_def fresh_id_def)
  have pend: "pending k w" if "new_files k w" "elsewhere (restored ?R) (?J @ [row_of j']) (wk_messages k) w" "journal_of k j'" for w j'
    using that by (auto simp: either_files_def intro!: pendingI [OF that(3)] intro: elsewhere_weaken restored_in_progress)
  have panics: "holds ?start panic ?Q"
    using pend j(1) by (auto simp: holds_def panic_def allowed_end_def pending_def either_files_def)
  have undo: "holds (\<lambda>w. new_files k w \<and> elsewhere (restored ?R) (?J @ [row_of j']) (wk_messages k) w)
      (compensate_memory_transaction (wk_env k) (wk_changes k) s None (Some j))
      (\<lambda>r w. (untouched k w \<or> pending k w) \<and> (r = Returned () \<longrightarrow> untouched k w))"
    if "journal_of k j'" "fj_id j' = fj_id j" "snapshot_of ?R s" for j' s
  proof -
    have same: "withdrawable ?R [] (rp_index ?R) None = restored ?R"
      by (rule ext) (auto simp: withdrawable_def between_def restored_def)
    show ?thesis
      by (rule holds_weaken [OF holds_compensate [OF ok(1) that(3) id that(2), of "[]" "rp_index ?R" None "wk_messages k", unfolded same]])
        (auto simp: either_files_def untouched_def intro!: pendingI [OF that(1)] intro: elsewhere_weaken restored_in_progress)
  qed
  have prepared: "holds ?start (prepare_memory_commit (wk_env k) message (fj_git j) (wk_changes k))
      (\<lambda>r w. ?start w \<and> (\<forall>p. r = Returned p \<longrightarrow> prepared_in ?R (fj_git j) p))" for message
    by (rule holds_prepare [OF steady_files _ snapshot]) (auto simp: elsewhere_def)
  have intended: "holds ?start (record_intent (wk_env k) write finalize j p) ?Q" if p: "prepared_in ?R (fj_git j) p" for p
  proof -
    define j' where "j' = intent_journal (wk_env k) j p"
    have j': "journal_of k j'" "fj_commit_id j' = Some (pc_commit_id p)" "gs_published_index (fj_git j') = Some (pc_index_tree p)"
      "fj_scope j' = fj_scope j" and ids: "fj_id j' = fj_id j"
      using j(1) snapshot by (simp_all add: j'_def intent_journal_def journal_of_def snapshot_of_def)
    have snapshot': "snapshot_of ?R (fj_git j')" using j'(1) by (simp add: journal_of_def)
    have undo': "holds (\<lambda>w. new_files k w \<and> elsewhere (restored ?R) (?J @ [row_of j]) (wk_messages k) w \<or>
          new_files k w \<and> elsewhere (restored ?R) (?J @ [row_of j']) (wk_messages k) w)
        (match_result (compensate_memory_transaction (wk_env k) (wk_changes k) (fj_git j') None (Some j)) (\<lambda>recovery. case recovery of
            Inl reason \<Rightarrow> quarantine_and_fail (mwr_guru_id write)
              (lit ''Memory commit intent failed and compensation was incomplete: intent='' @ store_text e @ lit ''; recovery='' @ reason)
          | Inr _ \<Rightarrow> raise (map_store e))) ?Q" for e
      by (rule holds_compensate_end(1) [OF holds_disj [OF undo [OF j(1) refl snapshot'] undo [OF j'(1) ids snapshot']] guru])
    have publish: "holds (\<lambda>w. new_files k w \<and> elsewhere (restored ?R) (?J @ [row_of j']) (wk_messages k) w)
        (publish_write (wk_env k) write finalize j' p) ?Q"
      by (rule holds_publish_write [OF ok guru j'(1-3) p _ finalize]) (use M j'(4) in simp)
    show ?thesis
      unfolding record_intent_def Let_def changes j'_def [symmetric]
    proof (rule holds_match_value [OF holds_replace_journal [OF files_only_cases(2) id], where c = "()"])
      show "holds (\<lambda>w. new_files k w \<and> (elsewhere (restored ?R) (?J @ [row_of j]) (wk_messages k) w \<or>
          fj_id j' = fj_id j \<and> elsewhere (restored ?R) (?J @ [row_of j']) (wk_messages k) w) \<and>
          (Raised e = Returned () \<longrightarrow> elsewhere (restored ?R) (?J @ [row_of j']) (wk_messages k) w))
        (case Inl e of
          Inl e \<Rightarrow> match_result (compensate_memory_transaction (wk_env k) (wk_changes k) (fj_git j') None (Some j)) (\<lambda>recovery. case recovery of
            Inl reason \<Rightarrow> quarantine_and_fail (mwr_guru_id write)
              (lit ''Memory commit intent failed and compensation was incomplete: intent='' @ store_text e @ lit ''; recovery='' @ reason)
          | Inr _ \<Rightarrow> raise (map_store e))
        | Inr _ \<Rightarrow> publish_write (wk_env k) write finalize j' p) ?Q" for e
        unfolding sum.case by (rule holds_weaken [OF undo' [of e]]) auto
    qed (use pend j(1) j'(1) publish in \<open>auto simp: allowed_end_def\<close>)
  qed
  show ?thesis
  proof (cases "commit_message (mwr_authority write) (mwr_rationale write) (mwr_targets write)")
    case None
    then show ?thesis using panics by (simp add: commit_write_def)
  next
    case (Some message)
    have fails: "holds ?start (git_failed (wk_env k) (mwr_guru_id write) what e
        (compensate_memory_transaction (wk_env k) (wk_changes k) (fj_git j) None (Some j))) ?Q" for what e
      by (rule holds_compensate_end(2) [OF undo [OF j(1) refl snapshot] guru])
    have goes: "holds (\<lambda>w. ?start w \<and> prepared_in ?R (fj_git j) p) (record_intent (wk_env k) write finalize j p) ?Q" for p
      by (rule holds_pure [where c = "prepared_in ?R (fj_git j) p"], simp, rule holds_weaken [OF intended]) auto
    show ?thesis
      unfolding commit_write_def Some option.case changes
      by (rule holds_match [OF prepared])
        (use fails goes pend j(1) in \<open>auto simp: allowed_end_def\<close>)
  qed
qed

end
