(* ===== verification/Memory_Commit_Outcome.thy ===== *)
theory Memory_Commit_Outcome
  imports Memory_Commit_Safety
begin

text \<open>
  A Memory write ends with everything old or with everything new, or it leaves a journal and the Guru in
  quarantine, whichever calls of Git, of the Runtime and of the database fail, fail after their effect or
  kill the process.
\<close>

subsection \<open>The whole write\<close>

text \<open>The case of a write in a world, and what it takes for the files to be as the write expects.\<close>

definition write_case_of :: "commit_env \<Rightarrow> memory_write \<Rightarrow> ustr \<Rightarrow> commit_world \<Rightarrow> write_case" where
  "write_case_of env write write_id w =
     \<lparr>wk_env = env, wk_guru = mwr_guru_id write, wk_id = write_id,
      wk_changes = staged_memory_changes (ce_digest env) (mwr_guru_id write) write_id (mwr_authority write) (mwr_targets write),
      wk_files = bt_get (mw_targets (cw_memory w)), wk_artifacts = bt_get (mw_artifacts (cw_memory w)),
      wk_repo = cw_repo w, wk_journals = cw_journals w, wk_messages = cw_messages w\<rparr>"

definition as_expected :: "write_case \<Rightarrow> bool" where
  "as_expected k \<longleftrightarrow> (\<forall>c\<in>set (wk_changes k). wk_files k (change_names c) = before_entry c \<and> readable c \<and>
     wk_artifacts k (artifact_name (ce_digest (wk_env k)) c) = None \<and> sc_before_sha256 c \<noteq> proposed_digest c)"

lemma validated_targets:
  "validate_targets authority paths records evidence proposed ts = Inr r \<Longrightarrow> t \<in> set ts \<Longrightarrow> validate_write_target authority t = Inr ()"
  by (induction ts arbitrary: paths records evidence proposed)
    (auto simp: Let_def split: sum.splits if_splits)

lemma normal_names_map: "normal_names cs = Some names \<Longrightarrow> cs = map Normal_Component names"
  by (induction cs arbitrary: names rule: normal_names.induct) auto

lemma normal_names_last:
  "normal_names cs = Some names \<Longrightarrow>
   (case rev cs of Normal_Component n # _ \<Rightarrow> Some n | _ \<Rightarrow> None) = (if names = [] then None else Some (last names))"
  by (drule normal_names_map) (cases names rule: rev_cases; simp)

lemma write_path_valid:
  assumes "write_path_kind path = Inr kind"
  shows "\<exists>names. validate_memory_relative_path path = Inr names"
proof -
  obtain names where names: "normal_names (path_components path) = Some names"
    using assms by (auto simp: write_path_kind_def Let_def split: if_splits option.splits)
  then show ?thesis
    using assms normal_names_last [OF names]
    by (auto simp: write_path_kind_def validate_memory_relative_path_def Let_def ok_or_def split: if_splits option.splits)
qed

lemma valid_write_change:
  assumes "validate_memory_write write = Inr ()" and "t \<in> set (mwr_targets write)"
    and "c = staged_memory_change digest guru session (mwr_authority write) t"
  shows "validate_memory_relative_path (sc_relative_path c) = Inr (change_names c)" and "content_ok digest c"
proof -
  have t: "validate_write_target (mwr_authority write) t = Inr ()"
    using assms(1,2) validated_targets
    by (fastforce simp: validate_memory_write_def split: if_splits sum.splits)
  then obtain kind where "target_kind t = Inr kind"
    by (auto simp: validate_write_target_def split: sum.splits)
  then obtain kind' where "write_path_kind (mt_relative_path t) = Inr kind'"
    by (auto simp: target_kind_def split: sum.splits)
  then show "validate_memory_relative_path (sc_relative_path c) = Inr (change_names c)"
    using write_path_valid assms(3) by (fastforce simp: staged_memory_change_def Let_def change_names_def)
  have "mt_before_markdown t \<noteq> mt_proposed_markdown t"
    using t by (auto simp: validate_write_target_def Let_def split: sum.splits if_splits)
  then show "content_ok digest c"
    using assms(3) by (auto simp: content_ok_def validate_approved_content_def staged_memory_change_def Let_def)
qed

lemma valid_write_undisturbed:
  assumes "as_expected (write_case_of env write write_id w)" and "validate_memory_write write = Inr ()"
  shows "undisturbed (write_case_of env write write_id w)"
  using assms(1) valid_write_change [OF assms(2)]
  by (fastforce simp: undisturbed_def as_expected_def write_case_of_def staged_memory_changes_def)

lemma holds_apply_files:
  assumes ok: "undisturbed k"
  shows "holds (\<lambda>w. old_files k w \<and> elsewhere G J M w)
    (memory_act (apply_memory_markdown_set (ce_digest (wk_env k)) (ce_present (wk_env k)) valid root (wk_changes k)))
    (\<lambda>r w. elsewhere G J M w \<and> r \<noteq> Died \<and> (\<forall>e. r = Raised e \<longrightarrow> old_files k w) \<and> (\<forall>x. r = Returned x \<longrightarrow> new_files k w))"
proof (rule holdsI)
  fix w assume w: "old_files k w \<and> elsewhere G J M w"
  have fair: "fair_set (ce_digest (wk_env k)) (wk_files k) (wk_artifacts k) (wk_changes k)"
    using ok by (auto simp: fair_set_def undisturbed_def no_collision_def before_entry_def)
  obtain r m where run: "apply_memory_markdown_set (ce_digest (wk_env k)) (ce_present (wk_env k)) valid root (wk_changes k)
      (cw_memory w) = (r, m)" by fastforce
  have "quiet (wk_files k) (wk_artifacts k) (cw_memory w)" using w by (simp add: old_files_def)
  from apply_cases [OF this fair run] w run
  show "elsewhere G J M (snd (memory_act (apply_memory_markdown_set (ce_digest (wk_env k)) (ce_present (wk_env k)) valid root
          (wk_changes k)) w)) \<and>
      fst (memory_act (apply_memory_markdown_set (ce_digest (wk_env k)) (ce_present (wk_env k)) valid root (wk_changes k)) w) \<noteq> Died \<and>
      (\<forall>e. fst (memory_act (apply_memory_markdown_set (ce_digest (wk_env k)) (ce_present (wk_env k)) valid root (wk_changes k)) w) =
         Raised e \<longrightarrow> old_files k (snd (memory_act (apply_memory_markdown_set (ce_digest (wk_env k)) (ce_present (wk_env k)) valid root
          (wk_changes k)) w))) \<and>
      (\<forall>x. fst (memory_act (apply_memory_markdown_set (ce_digest (wk_env k)) (ce_present (wk_env k)) valid root (wk_changes k)) w) =
         Returned x \<longrightarrow> new_files k (snd (memory_act (apply_memory_markdown_set (ce_digest (wk_env k)) (ce_present (wk_env k)) valid root
          (wk_changes k)) w)))"
    by (auto simp: memory_act_def ending_of_def old_files_def new_files_def changed_def)
qed

lemma holds_apply_write:
  assumes ok: "undisturbed k" "fresh_id k" "foreign_rows k" and guru: "wk_guru k = mwr_guru_id write"
    and j: "journal_of k j" "fj_commit_id j = None" "gs_published_index (fj_git j) = None"
    and M: "completes k M (fj_scope j)" and finalize: "finalizes k M finalize"
  shows "holds (\<lambda>w. old_files k w \<and> elsewhere (restored (wk_repo k)) (wk_journals k @ [row_of j]) (wk_messages k) w)
    (apply_write (wk_env k) write finalize j) (allowed_end k M)"
proof -
  let ?J = "wk_journals k @ [row_of j]"
  have changes: "fj_changes j = wk_changes k" using j by (simp add: journal_of_def)
  have undo: "holds (\<lambda>w. elsewhere (restored (wk_repo k)) ?J (wk_messages k) w \<and> old_files k w)
      (compensate_memory_transaction (wk_env k) (wk_changes k) (fj_git j) None (Some j))
      (\<lambda>r w. (untouched k w \<or> pending k w) \<and> (r = Returned () \<longrightarrow> untouched k w))"
    using holds_compensate_journal [OF ok(1,2) j(1)] unfolding j(2)
    by (rule holds_weaken) (auto simp: either_files_def intro: elsewhere_weaken restored_in_progress)
  show ?thesis
    unfolding apply_write_def changes
    by (rule holds_match [OF holds_apply_files [OF ok(1)]])
      (use holds_compensate_end(1) [OF undo guru] holds_commit_write [OF ok guru j M finalize] in
        \<open>auto simp: conj_commute\<close>)
qed

lemma holds_journaled_write:
  assumes ok: "undisturbed k" "fresh_id k" "foreign_rows k" and guru: "wk_guru k = mwr_guru_id write"
    and j: "journal_of k j" "fj_commit_id j = None" "gs_published_index (fj_git j) = None"
    and M: "completes k M (fj_scope j)" and finalize: "finalizes k M finalize"
  shows "holds (untouched k) (journaled_write (wk_env k) write finalize j) (allowed_end k M)"
proof -
  let ?on = "\<lambda>w. old_files k w \<and> elsewhere (restored (wk_repo k)) (wk_journals k @ [row_of j]) (wk_messages k) w"
  have pend: "pending k w" if "?on w" for w
    using that by (auto simp: either_files_def intro!: pendingI [OF j(1)] intro: elsewhere_weaken restored_in_progress)
  have fail: "holds (\<lambda>w. untouched k w \<or> ?on w) (quarantine_and_fail (mwr_guru_id write) reason) (allowed_end k M)" for reason
    by (rule holds_quarantine_and_fail [OF _ guru]) (auto simp: recoverable_def dest: pend [OF conjI])
  show ?thesis
    unfolding journaled_write_def untouched_def
  proof (rule holds_match_value [OF holds_create_journal [OF files_only_cases(1)], where c = "()" and A = ?on])
    show "holds (\<lambda>w. old_files k w \<and> (elsewhere (restored (wk_repo k)) (wk_journals k) (wk_messages k) w \<or>
          elsewhere (restored (wk_repo k)) (wk_journals k @ [row_of j]) (wk_messages k) w) \<and>
          (Raised e = Returned () \<longrightarrow> elsewhere (restored (wk_repo k)) (wk_journals k @ [row_of j]) (wk_messages k) w))
        (case Inl e of Inl e \<Rightarrow> quarantine_and_fail (mwr_guru_id write)
            (lit ''Memory transaction journal creation was indeterminate: '' @ store_text e)
          | Inr _ \<Rightarrow> apply_write (wk_env k) write finalize j) (allowed_end k M)" for e
      unfolding sum.case by (rule holds_weaken [OF fail]) (auto simp: untouched_def)
  qed (use pend holds_apply_write [OF ok guru j M finalize] in \<open>auto simp: allowed_end_def untouched_def\<close>)
qed

lemma holds_write:
  assumes k: "k = write_case_of env write write_id w0" and expected: "as_expected k"
    and ok: "fresh_id k" "foreign_rows k"
    and M: "completes k M scope" and finalize: "finalizes k M finalize"
  shows "holds (untouched k) (apply_memory_targets_registered env write write_id scope finalize) (allowed_end k M)"
proof -
  let ?guru = "mwr_guru_id write"
  have env: "wk_env k = env" and guru: "wk_guru k = ?guru" and id: "wk_id k = write_id"
    and changes: "staged_memory_changes (ce_digest env) ?guru write_id (mwr_authority write) (mwr_targets write) = wk_changes k"
    by (simp_all add: k write_case_of_def)
  have stays: "allowed_end k M (Raised e) w" "allowed_end k M Died w" if "untouched k w" for e w
    using that by (simp_all add: allowed_end_def)
  let ?journal = "\<lambda>s. \<lparr>fj_schema_version = finalization_schema_version, fj_id = write_id, fj_guru_id = ?guru,
      fj_scope = scope, fj_updated_at_ms = ce_now env, fj_git = s, fj_changes = wk_changes k, fj_commit_id = None\<rparr>"
  have journaled: "holds (\<lambda>w. untouched k w \<and> snapshot_of (wk_repo k) s \<and> gs_published_index s = None)
      (journaled_write env write finalize (?journal s)) (allowed_end k M)" if "undisturbed k" for s
  proof (rule holds_pure [where c = "snapshot_of (wk_repo k) s \<and> gs_published_index s = None"])
    assume s: "snapshot_of (wk_repo k) s \<and> gs_published_index s = None"
    then have "journal_of k (?journal s)" by (simp add: journal_of_def guru id)
    from holds_journaled_write [OF that ok guru this _ _ _ finalize] s M
    show "holds (\<lambda>w. untouched k w \<and> snapshot_of (wk_repo k) s \<and> gs_published_index s = None)
      (journaled_write env write finalize (?journal s)) (allowed_end k M)"
      by (auto simp: env elim!: holds_weaken)
  qed simp
  have begins: "holds (untouched k) (map_error (\<lambda>e. err_internal (ce_git_text env e)) begin_memory_transaction)
      (\<lambda>r w. untouched k w \<and> (\<forall>s. r = Returned s \<longrightarrow> snapshot_of (wk_repo k) s \<and> gs_published_index s = None))"
    unfolding untouched_def
    by (rule holds_map_error, rule holds_weaken [OF holds_begin]) (auto split: ending.split)
  have tree: "holds (untouched k) (map_error (\<lambda>e. err_internal (ce_runtime_text env e)) (validate_tree env)) (\<lambda>r. untouched k)"
    unfolding untouched_def
    by (rule holds_map_error_keep, rule holds_either(3), rule holds_weaken [OF holds_validate_tree]) auto
  have und: "undisturbed k" if "validate_memory_write write = Inr ()"
    using valid_write_undisturbed expected that unfolding k by blast
  have checked: "holds (untouched k) (map_error err_internal (of_sum (validate_memory_write write)))
      (\<lambda>r w. untouched k w \<and> (\<forall>x. r = Returned x \<longrightarrow> undisturbed k))"
    by (rule holds_map_error, rule holds_weaken [OF holds_of_sum [of "untouched k"]]) (auto split: ending.split intro: und)
  have available: "holds (untouched k) (check_available env ?guru) (\<lambda>r. untouched k)"
    by (auto simp: holds_def check_available_def of_sum_def ret_def raise_def split: sum.split)
  have last: "holds (untouched k) (then_do (map_error (\<lambda>e. err_internal (ce_git_text env e)) begin_memory_transaction) (\<lambda>snapshot.
      journaled_write env write finalize (?journal snapshot))) (allowed_end k M)" if "undisturbed k"
    by (rule holds_step [OF begins]) (use stays journaled [OF that] in auto)
  have third: "holds (untouched k) (then_do (map_error (\<lambda>e. err_internal (ce_runtime_text env e)) (validate_tree env)) (\<lambda>_.
      then_do (map_error (\<lambda>e. err_internal (ce_git_text env e)) begin_memory_transaction) (\<lambda>snapshot.
      journaled_write env write finalize (?journal snapshot)))) (allowed_end k M)" if "undisturbed k"
    by (rule holds_then [OF tree]) (use stays last [OF that] in auto)
  have second: "holds (untouched k) (then_do (of_sum (ce_workspace env ?guru)) (\<lambda>_.
      then_do (map_error (\<lambda>e. err_internal (ce_runtime_text env e)) (validate_tree env)) (\<lambda>_.
      then_do (map_error (\<lambda>e. err_internal (ce_git_text env e)) begin_memory_transaction) (\<lambda>snapshot.
      journaled_write env write finalize (?journal snapshot))))) (allowed_end k M)" if "undisturbed k"
    by (rule holds_then [OF holds_of_sum]) (use stays third [OF that] in \<open>auto elim!: holds_weaken\<close>)
  have first: "holds (\<lambda>w. untouched k w \<and> undisturbed k) (then_do (of_sum (ce_workspace env ?guru)) (\<lambda>_.
      then_do (map_error (\<lambda>e. err_internal (ce_runtime_text env e)) (validate_tree env)) (\<lambda>_.
      then_do (map_error (\<lambda>e. err_internal (ce_git_text env e)) begin_memory_transaction) (\<lambda>snapshot.
      journaled_write env write finalize (?journal snapshot))))) (allowed_end k M)"
    by (rule holds_pure [where c = "undisturbed k"]) (auto intro: holds_weaken [OF second])
  have "holds (untouched k) (then_do (map_error err_internal (of_sum (validate_memory_write write))) (\<lambda>_.
      then_do (of_sum (ce_workspace env ?guru)) (\<lambda>_.
      then_do (map_error (\<lambda>e. err_internal (ce_runtime_text env e)) (validate_tree env)) (\<lambda>_.
      then_do (map_error (\<lambda>e. err_internal (ce_git_text env e)) begin_memory_transaction) (\<lambda>snapshot.
      journaled_write env write finalize (?journal snapshot)))))) (allowed_end k M)"
    by (rule holds_step [OF checked]) (use stays first in auto)
  then show ?thesis
    unfolding apply_memory_targets_registered_def Let_def changes
    by (intro holds_then [OF available]) (auto simp: stays)
qed

lemma chat_finalizes:
  "finalizes k (\<lambda>c. (wk_messages k)((thread, message) \<mapsto> Some c)) (\<lambda>written. map_error map_store (lib_call Store_Sqlite (\<lambda>w.
     (Inr (), w\<lparr>cw_messages := (cw_messages w)((thread, message) \<mapsto> Some (wr_commit_id written))\<rparr>))))"
  unfolding finalizes_def
proof (intro allI, rule holds_map_error)
  fix G J written
  show "holds (\<lambda>w. new_files k w \<and> elsewhere G J (wk_messages k) w) (lib_call Store_Sqlite (\<lambda>w.
      (Inr (), w\<lparr>cw_messages := (cw_messages w)((thread, message) \<mapsto> Some (wr_commit_id written))\<rparr>)))
    (\<lambda>r w. case r of
      Raised e \<Rightarrow> new_files k w \<and> (elsewhere G J (wk_messages k) w \<or>
          elsewhere G J ((wk_messages k)((thread, message) \<mapsto> Some (wr_commit_id written))) w) \<and>
        (\<forall>x. Raised (map_store e) = Returned x \<longrightarrow> elsewhere G J ((wk_messages k)((thread, message) \<mapsto> Some (wr_commit_id written))) w)
    | Returned y \<Rightarrow> new_files k w \<and> (elsewhere G J (wk_messages k) w \<or>
          elsewhere G J ((wk_messages k)((thread, message) \<mapsto> Some (wr_commit_id written))) w) \<and>
        (\<forall>x. Returned y = Returned x \<longrightarrow> elsewhere G J ((wk_messages k)((thread, message) \<mapsto> Some (wr_commit_id written))) w)
    | Died \<Rightarrow> new_files k w \<and> (elsewhere G J (wk_messages k) w \<or>
          elsewhere G J ((wk_messages k)((thread, message) \<mapsto> Some (wr_commit_id written))) w) \<and>
        (\<forall>x. Died = Returned x \<longrightarrow> elsewhere G J ((wk_messages k)((thread, message) \<mapsto> Some (wr_commit_id written))) w))"
    by (rule holds_lib_call [OF steady_files]) (auto simp: elsewhere_def)
qed

text \<open>The state before a write: quiet files, and HEAD can be read.\<close>

definition ready_world :: "commit_world \<Rightarrow> bool" where
  "ready_world w \<longleftrightarrow> mw_turns (cw_memory w) = [] \<and> bt_inv (mw_targets (cw_memory w)) \<and> bt_inv (mw_artifacts (cw_memory w)) \<and>
     cw_head_failures w = []"

lemma ready_untouched: "ready_world w \<Longrightarrow> untouched (write_case_of env write write_id w) w"
  by (simp add: untouched_def ready_world_def write_case_of_def old_files_def quiet_def elsewhere_def restored_def)

lemma standalone_finalizes: "finalizes k (\<lambda>_. wk_messages k) (\<lambda>_. World_Monad.ret ())"
  by (simp add: finalizes_def holds_def ret_def)

lemma standalone_write_ends:
  assumes "k = write_case_of env write write_id w" and "as_expected k" "fresh_id k" "foreign_rows k" and "ready_world w"
    and "standalone_write env write write_id w = (r, w')"
  shows "allowed_end k (\<lambda>_. cw_messages w) r w'"
proof -
  have k: "wk_messages k = cw_messages w" "untouched k w"
    using assms(1) ready_untouched [OF assms(5)] by (simp_all add: write_case_of_def)
  have "completes k (\<lambda>_. wk_messages k) Standalone_User" by (simp add: completes_def)
  from holdsD [OF holds_write [OF assms(1-4) this standalone_finalizes] k(2) assms(6) [unfolded standalone_write_def]]
  show ?thesis by (simp add: k)
qed


subsection \<open>An example\<close>

definition example_env :: commit_env where
  "example_env =
     \<lparr>ce_digest = (\<lambda>c. c), ce_present = (\<lambda>_. True), ce_verdict = (\<lambda>_. Inr ()), ce_root = lit ''/m'',
      ce_lookup = (\<lambda>_. Inr None), ce_owned = (\<lambda>_ _. True), ce_workspace = (\<lambda>_. Inr ()), ce_is_oid = (\<lambda>_. True), ce_empty_tree = [],
      ce_tree_of = (\<lambda>c. c), ce_update_tree = (\<lambda>base _. base @ lit ''+''), ce_commit_name = (\<lambda>_ tree _. tree @ lit ''!''),
      ce_now = 5, ce_runtime_text = (\<lambda>_. []), ce_git_text = (\<lambda>_. [])\<rparr>"

definition example_write :: "ustr \<Rightarrow> memory_write" where
  "example_write rationale =
     \<lparr>mwr_guru_id = lit ''g'', mwr_authority = Chat_Authority,
      mwr_targets = [\<lparr>mt_record_id = lit ''wiki:a'', mt_relative_path = lit ''guruterminal/wiki/a.md'',
        mt_before_markdown = lit ''one'', mt_proposed_markdown = lit ''two''\<rparr>], mwr_rationale = rationale\<rparr>"

definition example_commit_world :: "call_fault list \<Rightarrow> commit_world" where
  "example_commit_world faults = (example_git_world faults)\<lparr>cw_memory := example_world\<rparr>"

lemmas example_write_defs = example_env_def example_write_def example_commit_world_def example_git_defs

text \<open>The call that stores the message reports an error after the message became durable.\<close>

definition example_case :: write_case where
  "example_case = write_case_of example_env (example_write (lit ''Edit'')) (lit ''w1'') (example_commit_world [])"

lemma example_case_expected: "as_expected example_case" "fresh_id example_case" "foreign_rows example_case"
proof -
  show "as_expected example_case"
    by (simp add: as_expected_def example_case_def write_case_of_def example_write_defs staged_memory_changes_def
        staged_memory_change_def readable_def max_memory_file_bytes_def proposed_digest_def) code_simp
qed (simp_all add: fresh_id_def foreign_rows_def example_case_def write_case_of_def example_write_defs)

lemma example_ready: "ready_world (example_commit_world faults)"
proof -
  have "bt_inv (mw_targets example_world)" unfolding bt_inv_def by code_simp
  then show ?thesis by (simp add: ready_world_def example_commit_world_def example_git_defs example_world_def)
qed


end
