(* ===== verification/Memory_Commit_Limits.thy ===== *)
theory Memory_Commit_Limits
  imports Memory_Commit_Outcome
begin

text \<open>
  Two ways in which a Memory write that should fail cleanly does not: a message of the commit whose 240th byte
  is inside a character, and a target that somebody edited since the write was formed.
\<close>

subsection \<open>The way to the files\<close>

text \<open>The journal of a write before its commit, and a world in which all the checks before it succeed.\<close>

definition first_journal :: "commit_env \<Rightarrow> memory_write \<Rightarrow> ustr \<Rightarrow> finalization_scope \<Rightarrow> commit_world \<Rightarrow> finalization_journal" where
  "first_journal env write write_id scope w =
     \<lparr>fj_schema_version = finalization_schema_version, fj_id = write_id, fj_guru_id = mwr_guru_id write,
      fj_scope = scope, fj_updated_at_ms = ce_now env,
      fj_git = \<lparr>gs_previous_head = head_of (cw_repo w), gs_symbolic_head = symbolic_head_of (cw_repo w),
        gs_original_index = rp_index (cw_repo w), gs_published_index = None\<rparr>,
      fj_changes = staged_memory_changes (ce_digest env) (mwr_guru_id write) write_id (mwr_authority write) (mwr_targets write),
      fj_commit_id = None\<rparr>"

definition admitted :: "commit_env \<Rightarrow> memory_write \<Rightarrow> ustr \<Rightarrow> finalization_scope \<Rightarrow> commit_world \<Rightarrow> bool" where
  "admitted env write write_id scope w \<longleftrightarrow> cw_faults w = [] \<and> cw_head_failures w = [] \<and>
     ensure_guru_available (ce_lookup env) (ce_owned env) (mwr_guru_id write) (cw_quarantined w) = Inr () \<and>
     validate_memory_write write = Inr () \<and> ce_workspace env (mwr_guru_id write) = Inr () \<and>
     runtime_valid env (cw_memory w) = Inr () \<and>
     validate_journal (ce_is_oid env) (first_journal env write write_id scope w) = Inr () \<and>
     (\<forall>r\<in>set (cw_journals w). jw_id r \<noteq> write_id)"

lemmas action_defs = then_do_def match_result_def map_error_def ret_def raise_def of_sum_def ending_of_def
  lib_call_def lib_call_leaving_def git_read_def git_call_def

lemma admitted_apply:
  assumes "admitted env write write_id scope w"
  shows "apply_memory_targets_registered env write write_id scope finalize w =
    apply_write env write finalize (first_journal env write write_id scope w)
      (w\<lparr>cw_journals := cw_journals w @ [row_of (first_journal env write write_id scope w)]\<rparr>)"
proof -
  have "write_id \<notin> jw_id ` set (cw_journals w)" and none: "cw_faults w = []" "cw_head_failures w = []"
    and available: "check_available env (mwr_guru_id write) w = (Returned (), w)"
    and tree: "validate_tree env w = (Returned (), w)"
    using assms
    by (auto simp: admitted_def check_available_def validate_tree_def action_defs)
  moreover have "begin_memory_transaction w = (Returned (fj_git (first_journal env write write_id scope w)), w)"
    using none by (simp add: begin_memory_transaction_def current_head_def action_defs first_journal_def)
  moreover have "create_journal env (first_journal env write write_id scope w) w =
      (Returned (), w\<lparr>cw_journals := cw_journals w @ [row_of (first_journal env write write_id scope w)]\<rparr>)"
    using assms calculation
    by (auto simp: admitted_def create_journal_def checked_journal_def action_defs first_journal_def)
  moreover have "\<lparr>fj_schema_version = finalization_schema_version, fj_id = write_id, fj_guru_id = mwr_guru_id write,
      fj_scope = scope, fj_updated_at_ms = ce_now env, fj_git = fj_git (first_journal env write write_id scope w),
      fj_changes = staged_memory_changes (ce_digest env) (mwr_guru_id write) write_id (mwr_authority write) (mwr_targets write),
      fj_commit_id = None\<rparr> = first_journal env write write_id scope w"
    by (simp add: first_journal_def)
  ultimately show ?thesis
    using assms
    by (simp add: apply_memory_targets_registered_def journaled_write_def admitted_def Let_def then_do_def match_result_def
        map_error_def of_sum_def ret_def)
qed

subsection \<open>The message of the commit\<close>

text \<open>
  C24: When the message of the commit is longer than 240 bytes and the 240th byte is inside a character, the
  task panics after the files were changed: the files have their new contents, HEAD and the index are
  old, the journal names no commit, and the Guru is not quarantined.
\<close>
theorem long_message_strands_write:
  assumes "commit_message (mwr_authority write) (mwr_rationale write) (mwr_targets write) = None"
    and "admitted env write write_id (Chat_Scope thread message) w"
    and "apply_memory_markdown_set (ce_digest env) (ce_present env) (runtime_valid env) (ce_root env)
      (fj_changes (first_journal env write write_id (Chat_Scope thread message) w)) (cw_memory w) = (Inr applied, memory)"
  shows "\<exists>w'. chat_write env write write_id thread message w = (Died, w') \<and> cw_panicked w' \<and> cw_memory w' = memory \<and>
    cw_repo w' = cw_repo w \<and> cw_quarantined w' = cw_quarantined w \<and>
    cw_journals w' = cw_journals w @ [row_of (first_journal env write write_id (Chat_Scope thread message) w)]"
  using assms(1,3)
  by (simp add: chat_write_def admitted_apply [OF assms(2)] apply_write_def match_result_def memory_act_def ending_of_def
      commit_write_def panic_def)

theorem long_message_strands_write_witness:
  "\<exists>w'. chat_write example_env (example_write (65 # replicate 80 44032)) (lit ''w1'') (lit ''t'') (lit ''m'')
      (example_commit_world []) = (Died, w') \<and> cw_panicked w' \<and>
    bt_get (mw_targets (cw_memory w')) [lit ''guruterminal'', lit ''wiki'', lit ''a.md''] = Some (Regular (lit ''two'')) \<and>
    head_of (cw_repo w') = None \<and> length (cw_journals w') = 1 \<and> cw_quarantined w' = []"
proof -
  let ?change = "example_write (65 # replicate 80 44032)" and ?w = "example_commit_world []"
  let ?j = "first_journal example_env ?change (lit ''w1'') (Chat_Scope (lit ''t'') (lit ''m'')) ?w"
  let ?apply = "apply_memory_markdown_set (ce_digest example_env) (ce_present example_env) (runtime_valid example_env)
    (ce_root example_env) (fj_changes ?j) (cw_memory ?w)"
  obtain r memory where run: "?apply = (r, memory)" by fastforce
  have "commit_message (mwr_authority ?change) (mwr_rationale ?change) (mwr_targets ?change) = None" by code_simp
  moreover have "admitted example_env ?change (lit ''w1'') (Chat_Scope (lit ''t'') (lit ''m'')) ?w"
    unfolding admitted_def by code_simp
  moreover have "case fst ?apply of Inl _ \<Rightarrow> False | Inr _ \<Rightarrow> True" by code_simp
  then have "\<exists>applied. fst ?apply = Inr applied" by (simp split: sum.splits)
  moreover have "bt_get (mw_targets (snd ?apply)) [lit ''guruterminal'', lit ''wiki'', lit ''a.md''] = Some (Regular (lit ''two''))"
    by code_simp
  moreover have "head_of (cw_repo ?w) = None" "cw_journals ?w = []" "cw_quarantined ?w = []"
    by (simp_all add: example_write_defs head_of_def)
  ultimately show ?thesis
    using long_message_strands_write [of ?change example_env "lit ''w1''" "lit ''t''" "lit ''m''" ?w] run by fastforce
qed

subsection \<open>An edited target\<close>

text \<open>A target whose content is neither what the write replaces nor what it proposes.\<close>

definition edited :: "write_case \<Rightarrow> staged_change \<Rightarrow> bool" where
  "edited k c \<longleftrightarrow> c \<in> set (wk_changes k) \<and>
     digest_at (wk_env k) (wk_files k) c \<noteq> sc_before_sha256 c \<and> digest_at (wk_env k) (wk_files k) c \<noteq> proposed_digest c"

lemma holds_stuck_preflight:
  assumes "paths_valid (wk_changes k)" and "edited k c"
  shows "holds (\<lambda>w. old_files k w \<and> elsewhere G J M w) (preflight_memory_rollback (wk_env k) (wk_changes k))
    (\<lambda>r w. (old_files k w \<and> elsewhere G J M w) \<and> r \<noteq> Returned ())"
  unfolding preflight_memory_rollback_def old_files_def
  by (rule holds_weaken [OF holds_check_files [OF assms(1),
        where bad = "\<lambda>c current. current \<noteq> sc_before_sha256 c \<and> current \<noteq> proposed_digest c"]])
    (use assms(2) in \<open>auto simp: edited_def\<close>)

lemma holds_stuck_compensation:
  assumes "paths_valid (wk_changes k)" and "edited k c"
  shows "holds (\<lambda>w. old_files k w \<and> elsewhere G J M w)
    (compensate_memory_transaction (wk_env k) (wk_changes k) s expected journal)
    (\<lambda>r w. (old_files k w \<and> elsewhere G J M w) \<and> r \<noteq> Returned ())"
proof -
  have "holds (\<lambda>w. old_files k w \<and> elsewhere G J M w)
      (map_error (\<lambda>e. lit ''files='' @ e) (preflight_memory_rollback (wk_env k) (wk_changes k)))
      (\<lambda>r w. (old_files k w \<and> elsewhere G J M w) \<and> r \<noteq> Returned ())"
    by (rule holds_map_error, rule holds_weaken [OF holds_stuck_preflight [OF assms]]) (auto split: ending.split)
  then show ?thesis
    unfolding compensate_memory_transaction_def
    by (rule holds_then) (auto simp: holds_def)
qed

text \<open>Nothing in a check of the files kills the process.\<close>

lemma read_digest_lives: "fst (read_digest env c w) \<noteq> Died"
  by (auto simp: read_digest_def read_memory_record_def memory_act_def action_defs Let_def split: option.splits prod.splits sum.splits ending.splits)

lemma preflight_lives: "fst (preflight_memory_rollback env cs w) \<noteq> Died"
proof (induction cs arbitrary: w)
  case (Cons c cs)
  then show ?case using read_digest_lives [of env c w]
    by (auto simp: preflight_memory_rollback_def then_do_def raise_def ret_def split: prod.splits ending.splits)
qed (simp add: preflight_memory_rollback_def ret_def)

lemma compensation_stuck:
  assumes "paths_valid (wk_changes k)" "edited k c" and "old_files k w" "elsewhere G J M w"
  shows "\<exists>e w'. compensate_memory_transaction (wk_env k) (wk_changes k) s expected journal w = (Raised e, w') \<and>
    old_files k w' \<and> elsewhere G J M w'"
proof -
  obtain r w' where run: "preflight_memory_rollback (wk_env k) (wk_changes k) w = (r, w')" by fastforce
  then have "old_files k w' \<and> elsewhere G J M w'" "r \<noteq> Returned ()"
    using holdsD [OF holds_stuck_preflight [OF assms(1,2)], of w G J M r w'] assms(3,4) by auto
  moreover have "r \<noteq> Died" using preflight_lives [of "wk_env k" "wk_changes k" w] run by simp
  ultimately show ?thesis
    using run by (cases r) (simp_all add: compensate_memory_transaction_def then_do_def map_error_def match_result_def raise_def)
qed

lemma apply_refused:
  assumes "paths_valid (wk_changes k)" and "edited k c" and "old_files k w"
    and fair: "fair_set (ce_digest (wk_env k)) (wk_files k) (wk_artifacts k) (wk_changes k)"
  shows "\<exists>e m. apply_memory_markdown_set (ce_digest (wk_env k)) present valid root (wk_changes k) (cw_memory w) = (Inl e, m) \<and>
    quiet (wk_files k) (wk_artifacts k) m"
proof -
  obtain r m where run: "apply_memory_markdown_set (ce_digest (wk_env k)) present valid root (wk_changes k) (cw_memory w) = (r, m)"
    by fastforce
  have "quiet (wk_files k) (wk_artifacts k) (cw_memory w)" using assms(3) by (simp add: old_files_def)
  note ends = apply_cases [OF this fair run]
  have "\<not> (wk_files k (change_names c) = before_entry c \<and> content_ok (ce_digest (wk_env k)) c)"
    using assms(2) content_okD(2) [of "ce_digest (wk_env k)" c]
    by (cases "sc_before_markdown c") (auto simp: edited_def digest_at_def before_entry_def)
  then have "\<not> (list_all (sound_change (ce_digest (wk_env k)) present (wk_artifacts k)) (wk_changes k) \<and>
      (\<forall>c\<in>set (wk_changes k). wk_files k (change_names c) = before_entry c))"
    using assms(2) by (auto simp: edited_def list_all_iff sound_change_def)
  then show ?thesis using ends run by blast
qed

text \<open>Recovery is stuck as well, for the journal of a Chat that names no commit.\<close>

lemma holds_stuck_recovery:
  assumes paths: "paths_valid (wk_changes k)" and edited: "edited k c" and rows: "foreign_rows k"
    and j: "fj_guru_id j = wk_guru k" "fj_changes j = wk_changes k" "fj_commit_id j = None" "fj_scope j = Chat_Scope thread message"
  shows "holds (\<lambda>w. old_files k w \<and> elsewhere G (wk_journals k @ [row_of j]) M w)
    (recover_memory_finalizations (wk_env k) (wk_guru k))
    (\<lambda>r w. (old_files k w \<and> elsewhere G (wk_journals k @ [row_of j]) M w) \<and> r \<noteq> Returned ())"
    (is "holds ?P _ ?Q")
proof -
  define rows where "rows = map (listed_row (wk_env k)) (sort_key (\<lambda>r. (jw_updated_at_ms r, jw_id r)) (wk_journals k @ [row_of j]))"
  have undo: "holds ?P (map_error (\<lambda>e. err_internal (lit ''Interrupted Memory finalization could not be recovered: '' @ e))
      (compensate_memory_transaction (wk_env k) (wk_changes k) (fj_git j) None (Some j))) ?Q"
    by (rule holds_map_error, rule holds_weaken [OF holds_stuck_compensation [OF paths edited]]) (auto split: ending.split)
  have one: "holds ?P (recover_journal (wk_env k) j) ?Q"
    unfolding recover_journal_def j
  proof (rule holds_step [OF holds_finalized_commit [OF files_only_cases(1) j(4)]])
    fix found
    show "holds (\<lambda>w. ?P w \<and> found = (if M (thread, message) = Some (fj_commit_id j) then fj_commit_id j else None))
      (case found of
       Some commit \<Rightarrow>
         then_do (map_error (\<lambda>e. err_internal (ce_git_text (wk_env k) e)) (verify_finalized_commit commit)) (\<lambda>_.
         then_do (map_error err_internal (verify_published_memory (wk_env k) (wk_changes k))) (\<lambda>_.
         map_error map_store (delete_journal (wk_env k) j)))
       | None \<Rightarrow>
         map_error (\<lambda>e. err_internal (lit ''Interrupted Memory finalization could not be recovered: '' @ e))
           (compensate_memory_transaction (wk_env k) (wk_changes k) (fj_git j) None (Some j))) ?Q"
      by (rule holds_pure [where c = "found = None"]) (use j(3) in \<open>auto intro!: holds_weaken [OF undo]\<close>)
  qed auto
  have row: "holds ?P (recover_row (wk_env k) (wk_guru k) (listed_row (wk_env k) (row_of j))) ?Q"
    using one j by (auto simp: recover_row_def listed_row_def row_of_def intro!: holds_raise)
  have loop: "holds ?P (do_each (recover_row (wk_env k) (wk_guru k)) rows) ?Q"
    unfolding rows_def recover_listed [OF assms(3)]
    by (rule holds_then [OF row]) (auto simp: holds_def)
  have rest: "holds ?P (then_do (of_sum (ce_workspace (wk_env k) (wk_guru k))) (\<lambda>_. do_each (recover_row (wk_env k) (wk_guru k)) rows)) ?Q"
    by (rule holds_then [OF holds_of_sum]) (auto intro!: holds_weaken [OF loop])
  have listed: "holds ?P (map_error map_store (list_journals (wk_env k))) (\<lambda>r w. ?P w \<and> (\<forall>x. r = Returned x \<longrightarrow> x = rows))"
    by (rule holds_list_journals [OF files_only_cases(1) rows_def])
  show ?thesis
    unfolding recover_memory_finalizations_def
  proof (rule holds_step [OF listed])
    fix found
    show "holds (\<lambda>w. ?P w \<and> found = rows)
      (then_do (of_sum (ce_workspace (wk_env k) (wk_guru k))) (\<lambda>_. do_each (recover_row (wk_env k) (wk_guru k)) found)) ?Q"
      by (rule holds_pure [where c = "found = rows"], simp, erule ssubst, rule holds_weaken [OF rest]) simp_all
  qed auto
qed

lemma holds_stuck_retry:
  assumes paths: "paths_valid (wk_changes k)" and edited: "edited k c" and rows: "foreign_rows k"
    and j: "fj_guru_id j = wk_guru k" "fj_changes j = wk_changes k" "fj_commit_id j = None" "fj_scope j = Chat_Scope thread message"
  shows "holds (\<lambda>w. in_quarantine k w \<and> old_files k w \<and> elsewhere G (wk_journals k @ [row_of j]) M w)
    (retry_quarantined_guru_recovery (wk_env k) (wk_guru k)) (\<lambda>r w. old_files k w \<and> r \<noteq> Returned ())"
proof -
  let ?P = "\<lambda>w. old_files k w \<and> elsewhere G (wk_journals k @ [row_of j]) M w" and ?Q = "\<lambda>r w. old_files k w \<and> r \<noteq> Returned ()"
  have step: "holds ?P (recover_memory_finalizations (wk_env k) (wk_guru k)) ?Q"
    by (rule holds_weaken [OF holds_stuck_recovery [OF assms]]) auto
  have rest: "holds ?P (then_do (recover_memory_finalizations (wk_env k) (wk_guru k)) (\<lambda>_.
      then_do (map_error (\<lambda>e. err_internal (ce_runtime_text (wk_env k) e)) (validate_tree (wk_env k))) (\<lambda>_.
      clear_quarantine (wk_guru k)))) ?Q"
    by (rule holds_then [OF step]) (auto simp: holds_def)
  have recovery: "holds ?P (then_do (of_sum (ce_workspace (wk_env k) (wk_guru k))) (\<lambda>_.
      then_do (recover_memory_finalizations (wk_env k) (wk_guru k)) (\<lambda>_.
      then_do (map_error (\<lambda>e. err_internal (ce_runtime_text (wk_env k) e)) (validate_tree (wk_env k))) (\<lambda>_.
      clear_quarantine (wk_guru k))))) ?Q"
    by (rule holds_then [OF holds_of_sum]) (auto intro!: holds_weaken [OF rest])
  show ?thesis
  proof (rule holdsI)
    fix w assume w: "in_quarantine k w \<and> old_files k w \<and> elsewhere G (wk_journals k @ [row_of j]) M w"
    then have "retry_quarantined_guru_recovery (wk_env k) (wk_guru k) w =
        then_do (of_sum (ce_workspace (wk_env k) (wk_guru k))) (\<lambda>_.
       then_do (recover_memory_finalizations (wk_env k) (wk_guru k)) (\<lambda>_.
       then_do (map_error (\<lambda>e. err_internal (ce_runtime_text (wk_env k) e)) (validate_tree (wk_env k))) (\<lambda>_.
       clear_quarantine (wk_guru k)))) w"
      by (simp add: retry_quarantined_guru_recovery_def in_quarantine_def)
    then show "old_files k (snd (retry_quarantined_guru_recovery (wk_env k) (wk_guru k) w)) \<and>
        fst (retry_quarantined_guru_recovery (wk_env k) (wk_guru k) w) \<noteq> Returned ()"
      using recovery w unfolding holds_def by simp
  qed
qed

text \<open>
  C25: When somebody has edited a target since the write was formed, so that its content is neither the old nor
  the proposed one, the write is refused and leaves every file as it is; but the compensation of the refused
  write finds the edit too, and the Guru ends in quarantine, with an error that asks for recovery where a
  conflict is meant. No recovery succeeds, whatever calls fail or work, as long as the files stay so.
\<close>
theorem edit_conflict_strands_guru:
  assumes "k = write_case_of env write write_id w" and "admitted env write write_id (Chat_Scope thread message) w"
    and "ready_world w" and "foreign_rows k"
    and "fair_set (ce_digest env) (wk_files k) (wk_artifacts k) (wk_changes k)" and "edited k c"
  shows "\<exists>w'. chat_write env write write_id thread message w = (Raised recovery_needed, w') \<and> old_files k w' \<and> in_quarantine k w' \<and>
    (\<forall>v r v'. cw_memory v = cw_memory w' \<longrightarrow> cw_journals v = cw_journals w' \<longrightarrow> cw_head_failures v = [] \<longrightarrow> in_quarantine k v \<longrightarrow>
       retry_quarantined_guru_recovery env (mwr_guru_id write) v = (r, v') \<longrightarrow> r \<noteq> Returned () \<and> old_files k v')"
proof -
  let ?j = "first_journal env write write_id (Chat_Scope thread message) w"
  have k: "wk_env k = env" "wk_guru k = mwr_guru_id write" "wk_journals k = cw_journals w" "fj_changes ?j = wk_changes k"
    "fj_guru_id ?j = wk_guru k" "fj_commit_id ?j = None" "fj_scope ?j = Chat_Scope thread message"
    and files: "old_files k w"
    using assms(1) ready_untouched [OF assms(3)] by (simp_all add: write_case_of_def first_journal_def untouched_def)
  have paths: "paths_valid (wk_changes k)"
    using assms(1,2) valid_write_change(1)
    by (fastforce simp: paths_valid_def write_case_of_def staged_memory_changes_def admitted_def)
  let ?w1 = "w\<lparr>cw_journals := cw_journals w @ [row_of ?j]\<rparr>"
  obtain e m where refused: "apply_memory_markdown_set (ce_digest env) (ce_present env) (runtime_valid env) (ce_root env)
      (wk_changes k) (cw_memory w) = (Inl e, m)" and m: "quiet (wk_files k) (wk_artifacts k) m"
    using apply_refused [OF paths assms(6) files] assms(5) k(1) by metis
  let ?w2 = "?w1\<lparr>cw_memory := m\<rparr>"
  have "old_files k ?w2" using m by (simp add: old_files_def)
  moreover have "elsewhere (\<lambda>_. True) (wk_journals k @ [row_of ?j]) (cw_messages w) ?w2"
    using assms(3) k(3) by (simp add: elsewhere_def ready_world_def)
  ultimately obtain reason w3 where undo: "compensate_memory_transaction env (wk_changes k) (fj_git ?j) None (Some ?j) ?w2 =
      (Raised reason, w3)" and w3: "old_files k w3" "elsewhere (\<lambda>_. True) (wk_journals k @ [row_of ?j]) (cw_messages w) w3"
    using compensation_stuck [OF paths assms(6)] k(1) by metis
  have "\<exists>text. chat_write env write write_id thread message w = quarantine_and_fail (mwr_guru_id write) text w3"
    unfolding chat_write_def admitted_apply [OF assms(2)]
    using refused undo by (simp add: apply_write_def match_result_def memory_act_def ending_of_def k(4)) (rule exI, rule refl)
  then obtain w' where run: "chat_write env write write_id thread message w = (Raised recovery_needed, w')"
      and w': "in_quarantine k w'" "old_files k w'" "cw_memory w' = cw_memory w3" "cw_journals w' = cw_journals w3"
    using w3 by (auto simp: quarantine_and_fail_def quarantine_def then_do_def raise_def in_quarantine_def k(2))
  have "r \<noteq> Returned () \<and> old_files k v'"
    if v: "cw_memory v = cw_memory w'" "cw_journals v = cw_journals w'" "cw_head_failures v = []" "in_quarantine k v"
      and retry: "retry_quarantined_guru_recovery env (mwr_guru_id write) v = (r, v')" for v r v'
  proof -
    have "in_quarantine k v \<and> old_files k v \<and> elsewhere (\<lambda>_. True) (wk_journals k @ [row_of ?j]) (cw_messages v) v"
      using v w'(2,4) w3(2) by (simp add: old_files_def elsewhere_def)
    from holdsD [OF holds_stuck_retry [OF paths assms(6,4) k(5,4,6,7)] this, of r v'] retry k(1,2) show ?thesis by simp
  qed
  then show ?thesis using run w' by blast
qed

text \<open>Somebody has written another text to the page since the write was formed.\<close>

definition example_edited_world :: commit_world where
  "example_edited_world = (example_commit_world [])\<lparr>cw_memory := example_world\<lparr>mw_targets :=
     [([lit ''guruterminal'', lit ''wiki'', lit ''a.md''], Regular (lit ''three''))]\<rparr>\<rparr>"

theorem edit_conflict_strands_guru_witness:
  "\<exists>w' r v'. chat_write example_env (example_write (lit ''Edit'')) (lit ''w1'') (lit ''t'') (lit ''m'') example_edited_world =
      (Raised recovery_needed, w') \<and>
    retry_quarantined_guru_recovery example_env (lit ''g'') w' = (r, v') \<and> r \<noteq> Returned () \<and>
    bt_get (mw_targets (cw_memory v')) [lit ''guruterminal'', lit ''wiki'', lit ''a.md''] = Some (Regular (lit ''three''))"
proof -
  let ?w = "example_edited_world" and ?change = "example_write (lit ''Edit'')"
  let ?k = "write_case_of example_env ?change (lit ''w1'') ?w" and ?names = "[lit ''guruterminal'', lit ''wiki'', lit ''a.md'']"
  let ?c = "staged_memory_change (ce_digest example_env) (lit ''g'') (lit ''w1'') Chat_Authority (hd (mwr_targets ?change))"
  have changes: "wk_changes ?k = [?c]"
    by (simp add: write_case_of_def example_write_def staged_memory_changes_def)
  have names: "change_names ?c = ?names" by code_simp
  have files: "wk_files ?k = [?names \<mapsto> Regular (lit ''three'')]" "wk_artifacts ?k = (\<lambda>_. None)" "wk_env ?k = example_env"
    by (auto simp: write_case_of_def example_edited_world_def example_world_def)
  have "fair_set (ce_digest example_env) (wk_files ?k) (wk_artifacts ?k) (wk_changes ?k)"
    unfolding fair_set_def changes files
    by (simp add: no_collision_def names readable_def staged_memory_change_def example_write_def example_env_def
        max_memory_file_bytes_def) code_simp
  moreover have "edited ?k ?c"
    by (simp add: edited_def changes files digest_at_def names) code_simp
  moreover have "admitted example_env ?change (lit ''w1'') (Chat_Scope (lit ''t'') (lit ''m'')) ?w"
    unfolding admitted_def by code_simp
  moreover have "ready_world ?w"
  proof -
    have "bt_inv (mw_targets (cw_memory ?w))" unfolding bt_inv_def by code_simp
    then show ?thesis by (simp add: ready_world_def example_edited_world_def example_world_def example_write_defs)
  qed
  moreover have rows: "foreign_rows ?k"
    by (simp add: foreign_rows_def write_case_of_def example_edited_world_def example_write_defs)
  moreover have guru: "mwr_guru_id ?change = lit ''g''" "wk_guru ?k = lit ''g''" by (simp_all add: example_write_def write_case_of_def)
  ultimately obtain w' where run: "chat_write example_env ?change (lit ''w1'') (lit ''t'') (lit ''m'') ?w = (Raised recovery_needed, w')"
    and stuck: "old_files ?k w'" "in_quarantine ?k w'"
      "\<And>r v'. cw_head_failures w' = [] \<Longrightarrow> retry_quarantined_guru_recovery example_env (lit ''g'') w' = (r, v') \<Longrightarrow>
        r \<noteq> Returned () \<and> old_files ?k v'"
    using edit_conflict_strands_guru [OF refl, of example_env ?change "lit ''w1''" "lit ''t''" "lit ''m''" ?w ?c] by auto
  have "cw_head_failures (snd (chat_write example_env ?change (lit ''w1'') (lit ''t'') (lit ''m'') ?w)) = []" by code_simp
  then have head: "cw_head_failures w' = []" by (simp add: run)
  obtain r v' where retry: "retry_quarantined_guru_recovery example_env (lit ''g'') w' = (r, v')" by fastforce
  have "r \<noteq> Returned ()" "old_files ?k v'" using stuck(3) [OF head retry] by simp_all
  then show ?thesis using run retry by (auto simp: old_files_def quiet_def files)
qed

text \<open>
  The compensation of a refused write takes a target for its own when it has the proposed content, whoever wrote it:
  somebody has made the same edit, the write is refused, and the page has the old text again.
\<close>

definition example_equal_world :: commit_world where
  "example_equal_world = (example_commit_world [])\<lparr>cw_memory := example_world\<lparr>mw_targets :=
     [([lit ''guruterminal'', lit ''wiki'', lit ''a.md''], Regular (lit ''two''))]\<rparr>\<rparr>"

lemma refused_write_reverts_equal_edit:
  "let (r, w') = chat_write example_env (example_write (lit ''Edit'')) (lit ''w1'') (lit ''t'') (lit ''m'') example_equal_world
   in r = Raised (err_conflict []) \<and>
     bt_get (mw_targets (cw_memory w')) [lit ''guruterminal'', lit ''wiki'', lit ''a.md''] = Some (Regular (lit ''one''))"
  by code_simp

end
