(* ===== verification/Spec2Isabelle.thy ===== *)
theory Spec2Isabelle
  imports Core_Cli Host_System Broker_Safety Memory_Atomic Deletion_Outcome Progress_Storage Pi_Response
    Process_Recovery Record_Validity Update_Safety Support_Lease Memory_Commit_Limits
begin

text \<open>
  Guru Terminal: the Rust core that reads a Memory tree, and the Rust host of the desktop
  application (\<^theory_text>\<open>apps/guruterminal/src-tauri/src\<close>) that runs assistant turns and changes it.

  A Guru is a directory with a Memory tree of Markdown records in four collections (Wiki, Lens,
  Decision, Evidence). The core parses, validates, searches and checks the tree and is used
  from its own command line and, as a library, by the host. The host keeps Gurus and Chats in a
  store, runs the turns of a Chat in a child process, gives the model tools over a broker socket,
  shows the progress of a run in the renderer, and lets a Memory writer change the tree in one
  transaction. This development models the core almost whole and of the host the parts that
  decide: who may run, what a turn may do, what is written, and what a crash leaves behind.

  Conventions. Strings are lists of Unicode scalar values (\<open>ustr\<close>, Guru_Text), bytes are lists of
  numbers below 256 (Utf8). \<^theory_text>\<open>Result\<close> is a sum whose left side is the error, \<^theory_text>\<open>Option\<close> is
  \<open>option\<close>, a struct is a record, an enum a datatype; a \<^theory_text>\<open>BTreeMap\<close> is an ordered association list
  (\<open>btree\<close>, Guru_Prelude), a \<^theory_text>\<open>HashMap\<close> a partial map. Machine integers are words or naturals with
  the saturation or wrap-around written out. Each critical section of a lock is one step. System
  calls that can fail consume a script, so a theorem about every script covers every failure.

  The core (\<^theory_text>\<open>src/src\<close>):
  \<^item> Guru_Text, Guru_Prelude, Utf8, Platform, Scan: strings, orders, maps, encodings, the Unicode
    tables and the scan over worker threads.
  \<^item> Memory_Kind (memory_kind.rs), Frontmatter (knowledge/frontmatter.rs), Document_Model
    (knowledge/model.rs and \<^theory_text>\<open>validate_document\<close> of catalog.rs): from the text of a file to a
    record and its issues.
  \<^item> Memory_Tree, Memory_Read (knowledge/catalog.rs): the walks, the capture and its revision,
    the catalog and the lookup of a record. Core_Workspace: workspace.rs.
  \<^item> Search_Text, Search_Score, Search_Query, Ranking (knowledge/search.rs, query.rs, semantic.rs):
    matching, relevance, and the bounded ranking of each scan chunk.
  \<^item> Knowledge_Check, Knowledge_Health, Knowledge_Context (knowledge/health.rs, context.rs), Core_Cli
    (cli.rs).

  The host:
  \<^item> Host_Base, Host_Text, Json_Value, World_Monad: errors of commands, results that chain, JSON
    values, and actions on a world that return, raise or die with the process; \<open>holds\<close> is the
    Hoare logic for them.
  \<^item> Maintenance, Run_Coordinator, Run_Invariants, App_Access, Host_System (maintenance.rs,
    run_coordinator.rs, app.rs): leases, the table of runs, the queues of the Memory writers, the
    quarantine of Gurus; Host_System composes them with the threads as one step relation.
  \<^item> Broker, Broker_Safety (broker.rs): the policy of a turn, its budgets and its deliveries.
  \<^item> Memory_Files, Memory_Apply, Memory_Safety, Memory_Atomic (runtime/memory_apply.rs): a Memory
    transaction on files that others may edit between any two system calls.
  \<^item> Memory_Write (domain/memory_write.rs, memory_finalization.rs), Memory_Git (memory_git.rs),
    Memory_Commit (commands/memory_write.rs, the journal statements of store.rs,
    \<^theory_text>\<open>read_memory_record\<close> of snapshot.rs, the write of commands/memory_updates.rs): the write that changes
    Memory files, Git and the database together, its compensation and its recovery. Memory_Git_Safety,
    Memory_Commit_Steps, Memory_Commit_Safety, Memory_Commit_Outcome and Memory_Commit_Limits prove what
    it leaves behind. Each call of libgit2, the Runtime and the database takes a fault from a script:
    it works, fails, fails after its effect, or the process dies before or after it. Not in the
    model: the titles in the result of a write, and a repository that is created on first use.
  \<^item> Deletion, Deletion_Safety, Deletion_Recovery, Deletion_Outcome (deletion.rs, secure_delete.rs,
    store.rs, commands/guru.rs): deleting a Chat or a Guru, with journals and tombstones.
  \<^item> Progress_Labels, Label_Safety, Chat_Progress, Progress_Replay, Progress_Storage
    (chat_progress.rs, the reducer of \<^theory_text>\<open>ai-sdk.ts\<close>): the progress of a run, its patches and their replay.
  \<^item> Pi_Response (pi_response.rs): the text an assistant turn settles on.
  \<^item> Process_Lease, Process_Recovery (process_lease.rs): the records of child process groups and
    the recovery at the next start.
  \<^item> Update_Flow, Update_Safety (updater.rs), Support_Lease (support_coordinator.rs): the schedule and the
    phases of updates, and the lease of provider support, at the maintenance gate.
  \<^item> Record_Text, Record_Markdown, Record_Validity (commands/memory_updates.rs, memory_crud.rs): the
    Markdown of the records the host writes, and what the core makes of it.

  What the lemmas show. The core: a search is one bounded ranking for any number of workers, and
  its results are sound; the parser inverts the renderer; the check and the validation accept
  exactly what is stated; the single pass of the context agrees with the commands. The host: the
  limits of runs, budgets and deliveries hold under every interleaving, an update or a deletion
  excludes work, a writer waits for its readers and is woken; a transaction is all or nothing and
  destroys nothing it was not prepared for; the write of a Chat changes files, Git and message
  together or leaves the journal that says what to undo, whatever call fails (nobody edits the
  files meanwhile and HEAD can be read: Memory_Commit_Outcome states it, Memory_Commit_Limits shows
  the cases that do not end well); a deletion interrupted any number of times settles;
  recovery forgets no running group; the renderer rebuilds the progress of the host; records the
  host writes are valid for the core. Locales state the interfaces: keyed orders, ordered
  maps, rankings, lease pools and budgets are each interpreted on the definitions of the component
  that provides them.

  Bounds and fuel. Loops over lines, entries and lists are structural recursion. A poll loop takes its
  number of rounds from its deadline (Process_Lease), identifiers are tried at most 9999 times
  (Record_Text), and counters of progress are exact below \<open>2 ^ 53\<close>, the integers of the
  renderer: a run would need that many operations to leave the bound. Scripts of faults may have any
  length; a script that is used up means that no further call fails.

  Not modelled. The Unicode tables, chrono's calendar, SHA-256, the serializer and parser of JSON
  text, embeddings and the SQL engine are parameters, with what the code needs of them as
  hypotheses (a sample instance in each witness). Not expressed at all: poisoned mutexes, upgrades of
  weak references after the owner is gone, iteration orders of hash maps, asynchronous executors and
  their cancellation, wall-clock waits, names that are not UTF-8, and the variants for Windows and macOS
  where the Unix one is modelled. Parts left out whole are those that only speak to the
  outside: the network (web, finance providers, marketplaces, MCP servers, updater feed), the child
  processes of the model and of Python, libgit2 itself, windows of the browser, file dialogs, credentials
  in the key chain, and the commands that move data between them and the store.
\<close>

end
